(* ===== verification/Prelude.thy ===== *)
theory Prelude
  imports Main "HOL-Library.Word" "HOL-Library.Signed_Division"
begin

text \<open>
  Shared vocabulary of the development: the machine integer types of the firmware, the
  conversions C performs silently, the macros of \<^verbatim>\<open>car/opendbc/safety/board/utils.h\<close>,
  and generic lemmas that the component theories use.

  Representation of integers. A C \<open>int\<close> whose value provably stays in range is an \<open>int\<close>;
  where unsigned arithmetic may wrap, the reduction is written out with \<open>to_u32\<close> and \<open>to_s32\<close>.
  Timestamps, counters of fixed width and message bytes are words, so that their arithmetic
  wraps as on the target.
\<close>

unbundle bit_operations_syntax

type_synonym u8 = "8 word"
type_synonym u16 = "16 word"
type_synonym u32 = "32 word"

named_theorems frame_simps \<open>fields an operation leaves unchanged\<close>

subsection \<open>Conversions between C integer types\<close>

text \<open>\<open>to_u32 x\<close> is the value of \<open>(uint32_t)x\<close>, \<open>to_s32 x\<close> that of \<open>(int)x\<close>,
  each read back as a mathematical integer.\<close>

definition to_u32 :: "int \<Rightarrow> int" where
  "to_u32 x = x mod 2 ^ 32"

definition to_s32 :: "int \<Rightarrow> int" where
  "to_s32 x = (let m = x mod 2 ^ 32 in if m < 2 ^ 31 then m else m - 2 ^ 32)"

lemma to_s32_u32 [simp]: "to_s32 (to_u32 x) = to_s32 x"
  by (simp add: to_s32_def to_u32_def)

lemma to_s32_id: "- (2 ^ 31) \<le> x \<Longrightarrow> x < 2 ^ 31 \<Longrightarrow> to_s32 x = x"
proof (cases "0 \<le> x")
  case True
  assume "x < 2 ^ 31"
  with True show ?thesis by (simp add: to_s32_def)
next
  case False
  assume "- (2 ^ 31) \<le> x"
  with False have "(x + 2 ^ 32) mod 2 ^ 32 = x + 2 ^ 32"
    by (intro mod_pos_pos_trivial) simp_all
  then have "x mod 2 ^ 32 = x + 2 ^ 32" by simp
  with False \<open>- (2 ^ 31) \<le> x\<close> show ?thesis by (simp add: to_s32_def Let_def)
qed

lemma to_s32_small: "- 2147483648 \<le> x \<Longrightarrow> x \<le> 2147483647 \<Longrightarrow> to_s32 x = x"
  by (rule to_s32_id) simp_all

subsection \<open>The macros of utils.h\<close>

definition CMIN :: "'a::linorder \<Rightarrow> 'a \<Rightarrow> 'a" where
  "CMIN a b = (if a < b then a else b)"

definition CMAX :: "'a::linorder \<Rightarrow> 'a \<Rightarrow> 'a" where
  "CMAX a b = (if a > b then a else b)"

definition CLAMP :: "'a::linorder \<Rightarrow> 'a \<Rightarrow> 'a \<Rightarrow> 'a" where
  "CLAMP x low high = (if x > high then high else if x < low then low else x)"

definition ABS :: "'a::linordered_idom \<Rightarrow> 'a" where
  "ABS a = (if a > 0 then a else - a)"

lemma CMIN_min: "CMIN = min"
  by (auto simp: CMIN_def min_def fun_eq_iff)

lemma CMAX_max: "CMAX = max"
  by (auto simp: CMAX_def max_def fun_eq_iff)

lemma ABS_abs: "ABS = abs"
  by (auto simp: ABS_def fun_eq_iff)

lemma CLAMP_bounds: "low \<le> high \<Longrightarrow> low \<le> CLAMP x low high \<and> CLAMP x low high \<le> high"
  by (auto simp: CLAMP_def)

lemma CLAMP_id: "low \<le> x \<Longrightarrow> x \<le> high \<Longrightarrow> CLAMP x low high = x"
  by (auto simp: CLAMP_def)

text \<open>The time between two samples of the free-running microsecond counter. The
  subtraction is the unsigned one, so a counter that wrapped still gives the distance.\<close>

definition get_ts_elapsed :: "u32 \<Rightarrow> u32 \<Rightarrow> u32" where
  "get_ts_elapsed ts ts_last = ts - ts_last"

text \<open>A flag test \<open>GET_FLAG(value, mask)\<close>: the value is cast to the mask's type; every mask
  of the code is at least as wide as the 16-bit parameter it is applied to.\<close>

definition GET_FLAG :: "u16 \<Rightarrow> u16 \<Rightarrow> bool" where
  "GET_FLAG v m = ((v AND m) = m)"

subsection \<open>Bit fields\<close>

lemma push_bit_or:
  assumes "0 \<le> (b::int)" and "b < 2 ^ n"
  shows "push_bit n a OR b = a * 2 ^ n + b"
proof -
  have b: "take_bit n b = b" using assms by (simp add: take_bit_int_eq_self)
  have "\<not> bit b m" if "n \<le> m" for m
    using that by (subst b [symmetric]) (simp add: bit_take_bit_iff)
  then have "push_bit n a AND b = 0"
    by (intro bit_eqI) (auto simp: bit_simps)
  then show ?thesis
    by (simp add: disjunctive_add_eq_or [symmetric] push_bit_eq_mult)
qed

lemma and_nonneg_le: "0 \<le> (m::int) \<Longrightarrow> 0 \<le> x AND m \<and> x AND m \<le> m"
  by (simp add: AND_upper2)

text \<open>A field of \<open>n\<close> low bits below another one.\<close>

lemma push_bit_or_range:
  assumes "0 \<le> (b::int)" and "b < 2 ^ n" and "0 \<le> a" and "a \<le> m"
  shows "0 \<le> push_bit n a OR b" and "push_bit n a OR b < (m + 1) * 2 ^ n"
proof -
  have "a * 2 ^ n \<le> m * 2 ^ n" using assms(4) by (rule mult_right_mono) simp
  then have "a * 2 ^ n + b < m * 2 ^ n + 2 ^ n" using assms(2) by linarith
  with assms show "0 \<le> push_bit n a OR b" "push_bit n a OR b < (m + 1) * 2 ^ n"
    by (simp_all add: push_bit_or ring_distribs)
qed

subsection \<open>Pairs\<close>

lemma if_pair_eq [simp]:
  "fst (if c then x else y) = (if c then fst x else fst y)"
  "snd (if c then x else y) = (if c then snd x else snd y)"
  by simp_all

end
