(* ===== verification/CFloat.thy ===== *)
theory CFloat
  imports Prelude "HOL-Library.Log_Nat"
begin

text \<open>
  Single-precision arithmetic. The firmware is compiled with \<^verbatim>\<open>-fsingle-precision-constant\<close>
  for a single-precision unit (\<^verbatim>\<open>firmware/SConscript\<close>), so every \<open>float\<close> expression of the
  safety code, constants included, is a binary32 computation. A finite binary32 value is the
  rational it denotes; an operation is the exact rational operation followed by \<open>f32\<close>, the
  rounding to 24 significant bits, ties to even, with gradual underflow below \<open>2 ^ -126\<close>.
  Infinities, NaN and the sign of zero are outside the model: no expression of the modelled
  code overflows, and every divisor is a positive constant or bounded away from zero.
  Contraction of a product and a sum into one fused operation is not modelled.
\<close>

subsection \<open>Rounding\<close>

definition pow2 :: "int \<Rightarrow> rat" where
  "pow2 e = (if 0 \<le> e then 2 ^ nat e else 1 / 2 ^ nat (- e))"

text \<open>The binary exponent of a positive rational: \<open>pow2 (ilog2 x) \<le> x < pow2 (ilog2 x + 1)\<close>.\<close>

definition ilog2 :: "rat \<Rightarrow> int" where
  "ilog2 x = (if 1 \<le> x then bitlen \<lfloor>x\<rfloor> - 1 else - bitlen (\<lceil>1 / x\<rceil> - 1))"

text \<open>Nearest integer, ties to even.\<close>

definition round_even :: "rat \<Rightarrow> int" where
  "round_even x =
     (let n = \<lfloor>x\<rfloor>; d = x - of_int n in
      if d < 1 / 2 then n
      else if d > 1 / 2 then n + 1
      else if even n then n else n + 1)"

definition f32 :: "rat \<Rightarrow> rat" where
  "f32 x =
     (if x = 0 then 0
      else let e = max (ilog2 \<bar>x\<bar> - 23) (-149)
           in of_int (round_even (x / pow2 e)) * pow2 e)"

text \<open>The conversion from \<open>float\<close> to \<open>int\<close> discards the fraction.\<close>

definition trunc :: "rat \<Rightarrow> int" where
  "trunc x = (if 0 \<le> x then \<lfloor>x\<rfloor> else \<lceil>x\<rceil>)"

subsection \<open>The four operations\<close>

definition fadd :: "rat \<Rightarrow> rat \<Rightarrow> rat" where "fadd a b = f32 (a + b)"
definition fsub :: "rat \<Rightarrow> rat \<Rightarrow> rat" where "fsub a b = f32 (a - b)"
definition fmul :: "rat \<Rightarrow> rat \<Rightarrow> rat" where "fmul a b = f32 (a * b)"
definition fdiv :: "rat \<Rightarrow> rat \<Rightarrow> rat" where "fdiv a b = f32 (a / b)"

text \<open>An \<open>int\<close> operand of a \<open>float\<close> operation is converted, hence rounded, first.\<close>

definition fint :: "int \<Rightarrow> rat" where "fint i = f32 (of_int i)"

end
