(* ===== verification/Safety_Types.thy ===== *)
theory Safety_Types
  imports Prelude CFloat
begin

text \<open>
  The data of the safety layer: \<^verbatim>\<open>car/opendbc/safety/safety_declarations.h\<close> and
  \<^verbatim>\<open>board/can_declarations.h\<close>, with the global variables of \<^verbatim>\<open>safety.h\<close> as one state record
  and the static variables of each safety mode as a record of its own inside it.
  Preprocessor switches are a record, so that one model covers every build of the firmware.
\<close>

subsection \<open>Build configuration\<close>

record build =
  PANDA_NUCLEO :: bool      \<comment> \<open>board without harness relay, two CAN cores\<close>
  MAZDA_MADS :: bool        \<comment> \<open>lateral engages on cruise MAIN\<close>
  MAZDA_MADS_BRAKE :: bool
  ALLOW_DEBUG :: bool
  CANFD :: bool

text \<open>The configurations of \<^verbatim>\<open>firmware/SConscript\<close> the witnesses use.\<close>

definition build_f407 :: build where
  "build_f407 = \<lparr>PANDA_NUCLEO = True, MAZDA_MADS = True, MAZDA_MADS_BRAKE = True,
     ALLOW_DEBUG = True, CANFD = False\<rparr>"

definition build_release :: build where
  "build_release = \<lparr>PANDA_NUCLEO = False, MAZDA_MADS = False, MAZDA_MADS_BRAKE = False,
     ALLOW_DEBUG = False, CANFD = False\<rparr>"

subsection \<open>CAN packets\<close>

record CANPacket =
  fd :: bool
  bus :: int                \<comment> \<open>3 bits\<close>
  data_len_code :: nat      \<comment> \<open>4 bits\<close>
  rejected :: bool
  returned :: bool
  extended :: bool
  addr :: int               \<comment> \<open>29 bits\<close>
  checksum :: u8
  data :: "u8 list"

definition dlc_to_len :: "int list" where
  "dlc_to_len = [0, 1, 2, 3, 4, 5, 6, 7, 8, 12, 16, 20, 24, 32, 48, 64]"

definition GET_LEN :: "CANPacket \<Rightarrow> int" where
  "GET_LEN p = dlc_to_len ! data_len_code p"

definition CANPACKET_DATA_SIZE_MAX :: "build \<Rightarrow> nat" where
  "CANPACKET_DATA_SIZE_MAX B = (if CANFD B then 64 else 8)"

text \<open>What the C type guarantees of a packet: the widths of its bit fields and the size of
  its data array.\<close>

definition wf_packet :: "build \<Rightarrow> CANPacket \<Rightarrow> bool" where
  "wf_packet B p \<longleftrightarrow> 0 \<le> bus p \<and> bus p < 8 \<and> data_len_code p < 16 \<and>
     0 \<le> addr p \<and> addr p < 2 ^ 29 \<and> length (data p) = CANPACKET_DATA_SIZE_MAX B"

text \<open>\<open>msg->data[i]\<close>, promoted to \<open>int\<close> as every use of it in an expression is.\<close>

definition byte :: "CANPacket \<Rightarrow> nat \<Rightarrow> int" where
  "byte p i = uint (data p ! i)"

definition GET_BIT :: "CANPacket \<Rightarrow> nat \<Rightarrow> bool" where
  "GET_BIT p b = bit (data p ! (b div 8)) (b mod 8)"

text \<open>Little-endian read of \<open>len\<close> bytes: the loop ors each byte in at its position.\<close>

fun get_bytes_from :: "u8 list \<Rightarrow> nat \<Rightarrow> nat \<Rightarrow> nat \<Rightarrow> u32 \<Rightarrow> u32" where
  "get_bytes_from ds start 0 i ret = ret"
| "get_bytes_from ds start (Suc n) i ret =
     get_bytes_from ds start n (Suc i) (ret OR push_bit (i * 8) (ucast (ds ! (start + i))))"

definition GET_BYTES :: "CANPacket \<Rightarrow> nat \<Rightarrow> nat \<Rightarrow> u32" where
  "GET_BYTES p start len = get_bytes_from (data p) start len 0 0"

lemma byte_range [simp]: "0 \<le> byte p i" "byte p i < 256" "byte p i \<le> 255"
  using uint_lt2p [of "data p ! i"] by (simp_all add: byte_def)

subsection \<open>Samples and limits\<close>

record sample_t =
  sample_values :: "int list"   \<comment> \<open>the last \<open>MAX_SAMPLE_VALS\<close> samples, newest first\<close>
  smin :: int
  smax :: int

definition MAX_SAMPLE_VALS :: nat where "MAX_SAMPLE_VALS = 6"

record lookup_t =
  lx :: "rat list"
  ly :: "rat list"

datatype SteeringControlType = TorqueMotorLimited | TorqueDriverLimited

record TorqueSteeringLimits =
  max_torque :: int
  dynamic_max_torque :: bool
  max_torque_lookup :: lookup_t
  max_rate_up :: int
  max_rate_down :: int
  max_rt_delta :: int
  control_type :: SteeringControlType
  driver_torque_allowance :: int
  driver_torque_multiplier :: int
  max_torque_error :: int
  min_valid_request_frames :: int
  max_invalid_request_frames :: int
  min_valid_request_rt_interval :: u32
  has_steer_req_tolerance :: bool

record AngleSteeringLimits =
  max_angle :: int
  angle_deg_to_can :: rat
  angle_rate_up_lookup :: lookup_t
  angle_rate_down_lookup :: lookup_t
  max_angle_error :: int
  angle_error_min_speed :: rat
  angle_frequency :: u32
  angle_is_curvature :: bool
  enforce_angle_error :: bool
  inactive_angle_is_zero :: bool

record AngleSteeringParams =
  slip_factor :: rat
  steer_ratio :: rat
  wheelbase :: rat

record LongitudinalLimits =
  max_accel :: int
  min_accel :: int
  inactive_accel :: int
  max_gas :: int
  min_gas :: int
  inactive_gas :: int
  max_brake :: int
  max_transmission_rpm :: int
  min_transmission_rpm :: int
  inactive_transmission_rpm :: int
  inactive_speed :: int

text \<open>C initialises the members a designated initialiser leaves out to zero; the limit tables
  of the modes are updates of these zero values.\<close>

definition lookup_zero :: lookup_t where
  "lookup_zero = \<lparr>lx = [0, 0, 0], ly = [0, 0, 0]\<rparr>"

definition torque_limits_zero :: TorqueSteeringLimits where
  "torque_limits_zero = \<lparr>max_torque = 0, dynamic_max_torque = False,
     max_torque_lookup = lookup_zero, max_rate_up = 0, max_rate_down = 0, max_rt_delta = 0,
     control_type = TorqueMotorLimited, driver_torque_allowance = 0,
     driver_torque_multiplier = 0, max_torque_error = 0, min_valid_request_frames = 0,
     max_invalid_request_frames = 0, min_valid_request_rt_interval = 0,
     has_steer_req_tolerance = False\<rparr>"

definition angle_limits_zero :: AngleSteeringLimits where
  "angle_limits_zero = \<lparr>max_angle = 0, angle_deg_to_can = 0,
     angle_rate_up_lookup = lookup_zero, angle_rate_down_lookup = lookup_zero,
     max_angle_error = 0, angle_error_min_speed = 0, angle_frequency = 0,
     angle_is_curvature = False, enforce_angle_error = False,
     inactive_angle_is_zero = False\<rparr>"

definition long_limits_zero :: LongitudinalLimits where
  "long_limits_zero = \<lparr>max_accel = 0, min_accel = 0, inactive_accel = 0, max_gas = 0,
     min_gas = 0, inactive_gas = 0, max_brake = 0, max_transmission_rpm = 0,
     min_transmission_rpm = 0, inactive_transmission_rpm = 0, inactive_speed = 0\<rparr>"

subsection \<open>Message tables\<close>

record CanMsg =
  m_addr :: int
  m_bus :: int
  m_len :: int
  check_relay :: bool
  disable_static_blocking :: bool

record CanMsgCheck =
  c_addr :: int
  c_bus :: int
  c_len :: int
  frequency :: int
  ignore_checksum :: bool
  ignore_counter :: bool
  max_counter :: u8
  ignore_quality_flag :: bool

record RxStatus =
  msg_seen :: bool
  index :: nat
  valid_checksum :: bool
  wrong_counters :: int
  valid_quality_flag :: bool
  last_counter :: u8
  last_timestamp :: u32
  lagging :: bool

definition rx_status_zero :: RxStatus where
  "rx_status_zero = \<lparr>msg_seen = False, index = 0, valid_checksum = False, wrong_counters = 0,
     valid_quality_flag = False, last_counter = 0, last_timestamp = 0, lagging = False\<rparr>"

record RxCheck =
  msgs :: "CanMsgCheck list"    \<comment> \<open>\<open>MAX_ADDR_CHECK_MSGS\<close> entries, unused ones with address 0\<close>
  status :: RxStatus

definition MAX_ADDR_CHECK_MSGS :: nat where "MAX_ADDR_CHECK_MSGS = 3"

record safety_config =
  rx_checks :: "RxCheck list"
  tx_msgs :: "CanMsg list"
  disable_forwarding :: bool

text \<open>Shorthands for table entries. \<open>tx_entry a b l r\<close> is \<open>{a, b, l, .check_relay = r}\<close>;
  \<open>rx_check cs\<close> pads the alternatives of one check with zero entries, as C does.\<close>

definition tx_entry :: "int \<Rightarrow> int \<Rightarrow> int \<Rightarrow> bool \<Rightarrow> CanMsg" where
  "tx_entry a b l r = \<lparr>m_addr = a, m_bus = b, m_len = l, check_relay = r,
     disable_static_blocking = False\<rparr>"

definition msg_check :: "int \<Rightarrow> int \<Rightarrow> int \<Rightarrow> int \<Rightarrow> CanMsgCheck" where
  "msg_check a b l f = \<lparr>c_addr = a, c_bus = b, c_len = l, frequency = f,
     ignore_checksum = False, ignore_counter = False, max_counter = 0,
     ignore_quality_flag = False\<rparr>"

definition msg_check_zero :: CanMsgCheck where
  "msg_check_zero = msg_check 0 0 0 0"

definition no_checks :: "CanMsgCheck \<Rightarrow> CanMsgCheck" where
  "no_checks c = c\<lparr>ignore_checksum := True, ignore_counter := True,
     ignore_quality_flag := True\<rparr>"

definition rx_check :: "CanMsgCheck list \<Rightarrow> RxCheck" where
  "rx_check cs = \<lparr>msgs = take MAX_ADDR_CHECK_MSGS (cs @ replicate MAX_ADDR_CHECK_MSGS msg_check_zero),
     status = rx_status_zero\<rparr>"

end
