(* ===== verification/Safety_State.thy ===== *)
theory Safety_State
  imports Safety_Types
begin

text \<open>
  The mutable state of the safety layer: the static variables of each mode
  (\<^verbatim>\<open>car/opendbc/safety/modes/*.h\<close>), the globals of \<^verbatim>\<open>safety.h\<close>, the fault word of
  \<^verbatim>\<open>board/faults.h\<close> and the free-running microsecond counter, as one record; and the table of
  hook functions a mode provides. The C code keeps \<open>current_hooks\<close> as a pointer to a constant
  table; here it is the name of the table, resolved by \<open>hooks_of\<close> in theory \<open>Safety_Modes\<close>.
\<close>

subsection \<open>Static variables of the modes\<close>

record mazda_statics =
  mazda_longitudinal :: bool
  mazda_res_prev :: bool
  mazda_set_m_prev :: bool

record toyota_statics =
  toyota_secoc :: bool
  toyota_alt_brake :: bool
  toyota_stock_longitudinal :: bool
  toyota_lta :: bool
  toyota_dbc_eps_torque_factor :: int

datatype HondaHw = HONDA_NIDEC | HONDA_BOSCH

record honda_statics =
  honda_brake :: int
  honda_brake_switch_prev :: bool
  honda_alt_brake_msg :: bool
  honda_fwd_brake :: bool
  honda_bosch_long :: bool
  honda_bosch_radarless :: bool
  honda_bosch_canfd :: bool
  honda_hw :: HondaHw

datatype GmHardware = GM_ASCM | GM_CAM

text \<open>\<open>gm_long_limits\<close> points to one of two constant tables from \<open>gm_init\<close> on; the model
  keeps the table itself.\<close>

record gm_statics =
  gm_long_limits :: LongitudinalLimits
  gm_hw :: GmHardware
  gm_pcm_cruise :: bool

record hyundai_statics =
  hyundai_ev_gas_signal :: bool
  hyundai_hybrid_gas_signal :: bool
  hyundai_longitudinal :: bool
  hyundai_camera_scc :: bool
  hyundai_canfd_lka_steering :: bool
  hyundai_alt_limits :: bool
  hyundai_fcev_gas_signal :: bool
  hyundai_alt_limits_2 :: bool
  hyundai_last_button_interaction :: int
  hyundai_legacy :: bool
  hyundai_canfd_alt_buttons :: bool
  hyundai_canfd_lka_steering_alt :: bool

record ChryslerAddrs =
  EPS_2 :: int
  ESP_1 :: int
  ESP_8 :: int
  ECM_5 :: int
  DAS_3 :: int
  DAS_6 :: int
  LKAS_COMMAND :: int
  CRUISE_BUTTONS :: int

datatype ChryslerPlatform = CHRYSLER_RAM_DT | CHRYSLER_RAM_HD | CHRYSLER_PACIFICA

record chrysler_statics =
  chrysler_platform :: ChryslerPlatform
  chrysler_addrs :: ChryslerAddrs

record nissan_statics =
  nissan_alt_eps :: bool

record subaru_statics =
  subaru_gen2 :: bool
  subaru_longitudinal :: bool
  subaru_pg_reversed_driver_torque :: bool

record tesla_statics =
  tesla_longitudinal :: bool
  tesla_stock_aeb :: bool
  tesla_stock_lkas :: bool
  tesla_stock_lkas_prev :: bool
  tesla_autopark :: bool
  tesla_autopark_prev :: bool

record volkswagen_statics =
  volkswagen_longitudinal :: bool
  volkswagen_set_button_prev :: bool
  volkswagen_resume_button_prev :: bool
  volkswagen_mqb_brake_pedal_switch :: bool
  volkswagen_mqb_brake_pressure_detected :: bool

subsection \<open>The global state\<close>

datatype hooks_ptr =
    nooutput_hooks_ptr | alloutput_hooks_ptr | elm327_hooks_ptr | body_hooks_ptr
  | mazda_hooks_ptr | toyota_hooks_ptr | honda_nidec_hooks_ptr | honda_bosch_hooks_ptr
  | gm_hooks_ptr | hyundai_hooks_ptr | hyundai_legacy_hooks_ptr | chrysler_hooks_ptr
  | nissan_hooks_ptr | psa_hooks_ptr | subaru_hooks_ptr | subaru_preglobal_hooks_ptr
  | rivian_hooks_ptr | tesla_hooks_ptr | ford_hooks_ptr | volkswagen_mqb_hooks_ptr
  | volkswagen_pq_hooks_ptr | hyundai_canfd_hooks_ptr

record safety_state =
  controls_allowed :: bool
  relay_malfunction :: bool
  gas_pressed :: bool
  gas_pressed_prev :: bool
  brake_pressed :: bool
  brake_pressed_prev :: bool
  regen_braking :: bool
  regen_braking_prev :: bool
  steering_disengage :: bool
  steering_disengage_prev :: bool
  cruise_engaged_prev :: bool
  vehicle_speed :: sample_t
  vehicle_moving :: bool
  acc_main_on :: bool
  cruise_button_prev :: int
  safety_rx_checks_invalid :: bool
  \<comment> \<open>torque steering\<close>
  desired_torque_last :: int
  rt_torque_last :: int
  valid_steer_req_count :: int
  invalid_steer_req_count :: int
  torque_meas :: sample_t
  torque_driver :: sample_t
  ts_torque_check_last :: u32
  ts_steer_req_mismatch_last :: u32
  \<comment> \<open>controls timeout\<close>
  heartbeat_engaged :: bool
  heartbeat_engaged_mismatches :: u32
  \<comment> \<open>angle steering\<close>
  rt_angle_msgs :: u32
  ts_angle_check_last :: u32
  desired_angle_last :: int
  angle_meas :: sample_t
  alternative_experience :: int
  safety_mode_cnt :: u32
  current_safety_mode :: u16
  current_safety_param :: u16
  current_hooks :: hooks_ptr
  current_safety_config :: safety_config
  \<comment> \<open>faults.h and the timer\<close>
  fault_status :: u8
  faults :: u32
  MICROSECOND_TIMER :: u32
  \<comment> \<open>statics of the modes\<close>
  mazda :: mazda_statics
  toyota :: toyota_statics
  honda :: honda_statics
  gm :: gm_statics
  hyundai :: hyundai_statics
  chrysler :: chrysler_statics
  nissan :: nissan_statics
  subaru :: subaru_statics
  tesla :: tesla_statics
  volkswagen :: volkswagen_statics

text \<open>The hook table of a mode. A missing hook is \<open>None\<close>, as it is \<open>NULL\<close> in the code.
  The checksum, counter and quality hooks only read the message.\<close>

record safety_hooks =
  init_hook :: "(u16 \<Rightarrow> safety_state \<Rightarrow> safety_config \<times> safety_state) option"
  rx_hook :: "CANPacket \<Rightarrow> safety_state \<Rightarrow> safety_state"
  tx_hook :: "CANPacket \<Rightarrow> safety_state \<Rightarrow> bool \<times> safety_state"
  fwd_hook :: "(int \<Rightarrow> int \<Rightarrow> safety_state \<Rightarrow> bool) option"
  get_checksum :: "(CANPacket \<Rightarrow> u32) option"
  compute_checksum :: "(CANPacket \<Rightarrow> u32) option"
  get_counter :: "(CANPacket \<Rightarrow> u8) option"
  get_quality_flag_valid :: "(CANPacket \<Rightarrow> bool) option"

subsection \<open>Initial values\<close>

definition sample_zero :: sample_t where
  "sample_zero = \<lparr>sample_values = replicate MAX_SAMPLE_VALS 0, smin = 0, smax = 0\<rparr>"

definition config_zero :: safety_config where
  "config_zero = \<lparr>rx_checks = [], tx_msgs = [], disable_forwarding = False\<rparr>"

definition chrysler_addrs_zero :: ChryslerAddrs where
  "chrysler_addrs_zero = \<lparr>EPS_2 = 0, ESP_1 = 0, ESP_8 = 0, ECM_5 = 0, DAS_3 = 0, DAS_6 = 0,
     LKAS_COMMAND = 0, CRUISE_BUTTONS = 0\<rparr>"

text \<open>The values the globals have before the first call, from their initialisers.\<close>

definition boot_state :: safety_state where
  "boot_state = \<lparr>
     controls_allowed = False, relay_malfunction = False, gas_pressed = False,
     gas_pressed_prev = False, brake_pressed = False, brake_pressed_prev = False,
     regen_braking = False, regen_braking_prev = False, steering_disengage = False,
     steering_disengage_prev = False, cruise_engaged_prev = False,
     vehicle_speed = sample_zero, vehicle_moving = False, acc_main_on = False,
     cruise_button_prev = 0, safety_rx_checks_invalid = False,
     desired_torque_last = 0, rt_torque_last = 0, valid_steer_req_count = 0,
     invalid_steer_req_count = 0, torque_meas = sample_zero, torque_driver = sample_zero,
     ts_torque_check_last = 0, ts_steer_req_mismatch_last = 0,
     heartbeat_engaged = False, heartbeat_engaged_mismatches = 0,
     rt_angle_msgs = 0, ts_angle_check_last = 0, desired_angle_last = 0,
     angle_meas = sample_zero, alternative_experience = 0, safety_mode_cnt = 0,
     current_safety_mode = 0, current_safety_param = 0,
     current_hooks = nooutput_hooks_ptr, current_safety_config = config_zero,
     fault_status = 0, faults = 0, MICROSECOND_TIMER = 0,
     mazda = \<lparr>mazda_longitudinal = False, mazda_res_prev = False, mazda_set_m_prev = False\<rparr>,
     toyota = \<lparr>toyota_secoc = False, toyota_alt_brake = False,
       toyota_stock_longitudinal = False, toyota_lta = False,
       toyota_dbc_eps_torque_factor = 100\<rparr>,
     honda = \<lparr>honda_brake = 0, honda_brake_switch_prev = False, honda_alt_brake_msg = False,
       honda_fwd_brake = False, honda_bosch_long = False, honda_bosch_radarless = False,
       honda_bosch_canfd = False, honda_hw = HONDA_NIDEC\<rparr>,
     gm = \<lparr>gm_long_limits = long_limits_zero, gm_hw = GM_ASCM, gm_pcm_cruise = False\<rparr>,
     hyundai = \<lparr>hyundai_ev_gas_signal = False, hyundai_hybrid_gas_signal = False,
       hyundai_longitudinal = False, hyundai_camera_scc = False,
       hyundai_canfd_lka_steering = False, hyundai_alt_limits = False,
       hyundai_fcev_gas_signal = False, hyundai_alt_limits_2 = False,
       hyundai_last_button_interaction = 0, hyundai_legacy = False,
       hyundai_canfd_alt_buttons = False, hyundai_canfd_lka_steering_alt = False\<rparr>,
     chrysler = \<lparr>chrysler_platform = CHRYSLER_RAM_DT,
       chrysler_addrs = chrysler_addrs_zero\<rparr>,
     nissan = \<lparr>nissan_alt_eps = False\<rparr>,
     subaru = \<lparr>subaru_gen2 = False, subaru_longitudinal = False,
       subaru_pg_reversed_driver_torque = False\<rparr>,
     tesla = \<lparr>tesla_longitudinal = False, tesla_stock_aeb = False, tesla_stock_lkas = False,
       tesla_stock_lkas_prev = False, tesla_autopark = False, tesla_autopark_prev = False\<rparr>,
     volkswagen = \<lparr>volkswagen_longitudinal = False, volkswagen_set_button_prev = False,
       volkswagen_resume_button_prev = False, volkswagen_mqb_brake_pedal_switch = False,
       volkswagen_mqb_brake_pressure_detected = False\<rparr>\<rparr>"

text \<open>The fields that say how far the host is trusted at this moment, which transmit hooks must
  not change, and those that say which mode is running, which no hook must change.\<close>

definition engagement_view ::
  "safety_state \<Rightarrow> bool \<times> bool \<times> bool \<times> bool \<times> bool \<times> bool \<times> bool \<times> bool \<times> bool" where
  "engagement_view s = (controls_allowed s, gas_pressed s, gas_pressed_prev s, brake_pressed s,
     brake_pressed_prev s, cruise_engaged_prev s, vehicle_moving s, acc_main_on s,
     steering_disengage s)"

definition mode_view ::
  "safety_state \<Rightarrow> bool \<times> u32 \<times> u16 \<times> u16 \<times> hooks_ptr \<times> safety_config \<times> u32 \<times> u32" where
  "mode_view s = (relay_malfunction s, safety_mode_cnt s, current_safety_mode s,
     current_safety_param s, current_hooks s, current_safety_config s, faults s,
     MICROSECOND_TIMER s)"

end
