(* ===== verification/Safety_Utils.thy ===== *)
theory Safety_Utils
  imports Safety_State
begin

text \<open>
  The helper functions of \<^verbatim>\<open>safety.h\<close>, \<^verbatim>\<open>helpers.h\<close> and \<^verbatim>\<open>board/faults.h\<close> that the checks
  and the modes call: sign extension, the six-sample windows, float rounding, the limit
  check, interpolation, faults, and the engagement rules shared by the modes.
\<close>

subsection \<open>Numbers\<close>

definition to_signed :: "int \<Rightarrow> int \<Rightarrow> int" where
  "to_signed d bits =
     (let max_value = 2 ^ nat (CMAX (bits - 1) 0)
      in if d \<ge> max_value then d - 2 ^ nat (CMAX bits 0) else d)"

definition ROUND :: "rat \<Rightarrow> int" where
  "ROUND val = trunc (fadd val (if val > 0 then 1 / 2 else - (1 / 2)))"

definition max_limit_check :: "int \<Rightarrow> int \<Rightarrow> int \<Rightarrow> bool" where
  "max_limit_check val MAX_VAL MIN_VAL = (val > MAX_VAL \<or> val < MIN_VAL)"

text \<open>The search loop of \<open>interpolate\<close>: the first index whose right neighbour exceeds \<open>x\<close>.\<close>

fun interpolate_loop :: "lookup_t \<Rightarrow> rat \<Rightarrow> nat \<Rightarrow> nat \<Rightarrow> rat \<Rightarrow> rat" where
  "interpolate_loop xy x i 0 ret = ret"
| "interpolate_loop xy x i (Suc n) ret =
     (if x < lx xy ! (i + 1) then
        let x0 = lx xy ! i; y0 = ly xy ! i;
            dx = fsub (lx xy ! (i + 1)) x0;
            dy = fsub (ly xy ! (i + 1)) y0;
            dx = CMAX dx (f32 (1 / 10000))
        in fadd (fdiv (fmul dy (fsub x x0)) dx) y0
      else interpolate_loop xy x (Suc i) n ret)"

definition interpolate :: "lookup_t \<Rightarrow> rat \<Rightarrow> rat" where
  "interpolate xy x =
     (let size = 3; ret = ly xy ! (size - 1) in
      if x \<le> lx xy ! 0 then ly xy ! 0
      else interpolate_loop xy x 0 (size - 1) ret)"

subsection \<open>Sample windows\<close>

text \<open>The two loops of \<open>update_sample\<close>: shift every sample one place back, from the last
  index down to 1, then scan indices 1 to 5 for the extremes.\<close>

fun shift_samples :: "nat \<Rightarrow> int list \<Rightarrow> int list" where
  "shift_samples 0 vs = vs"
| "shift_samples (Suc i) vs = shift_samples i (vs[Suc i := vs ! i])"

fun scan_samples :: "int list \<Rightarrow> nat \<Rightarrow> nat \<Rightarrow> int \<Rightarrow> int \<Rightarrow> int \<times> int" where
  "scan_samples vs i 0 mn mx = (mn, mx)"
| "scan_samples vs i (Suc n) mn mx =
     scan_samples vs (Suc i) n
       (if vs ! i < mn then vs ! i else mn) (if vs ! i > mx then vs ! i else mx)"

definition update_sample :: "sample_t \<Rightarrow> int \<Rightarrow> sample_t" where
  "update_sample sample sample_new =
     (let vs = (shift_samples (MAX_SAMPLE_VALS - 1) (sample_values sample))[0 := sample_new];
          mnmx = scan_samples vs 1 (MAX_SAMPLE_VALS - 1) (vs ! 0) (vs ! 0)
      in sample\<lparr>sample_values := vs, smin := fst mnmx, smax := snd mnmx\<rparr>)"

definition reset_sample :: "sample_t \<Rightarrow> sample_t" where
  "reset_sample sample =
     update_sample (sample\<lparr>sample_values := replicate MAX_SAMPLE_VALS 0\<rparr>) 0"

definition wf_sample :: "sample_t \<Rightarrow> bool" where
  "wf_sample t \<longleftrightarrow> length (sample_values t) = MAX_SAMPLE_VALS \<and>
     smin t = Min (set (sample_values t)) \<and> smax t = Max (set (sample_values t))"

definition KPH_TO_MS :: rat where "KPH_TO_MS = fdiv 1 (f32 (36 / 10))"

definition UPDATE_VEHICLE_SPEED :: "rat \<Rightarrow> safety_state \<Rightarrow> safety_state" where
  "UPDATE_VEHICLE_SPEED val_ms s =
     s\<lparr>vehicle_speed := update_sample (vehicle_speed s) (ROUND (fmul val_ms 1000))\<rparr>"

lemma shift_samples_length [simp]: "length (shift_samples n vs) = length vs"
  by (induction n vs rule: shift_samples.induct) simp_all

lemma shift_samples_nth:
  "n < length vs \<Longrightarrow> i < length vs \<Longrightarrow>
   shift_samples n vs ! i = (if 0 < i \<and> i \<le> n then vs ! (i - 1) else vs ! i)"
  by (induction n vs rule: shift_samples.induct) (auto simp: nth_list_update le_Suc_eq)

lemma shift_samples_eq:
  assumes "length vs = Suc n"
  shows "(shift_samples n vs)[0 := x] = x # take n vs"
proof (rule nth_equalityI)
  show "length ((shift_samples n vs)[0 := x]) = length (x # take n vs)" using assms by simp
  fix i assume "i < length ((shift_samples n vs)[0 := x])"
  with assms show "(shift_samples n vs)[0 := x] ! i = (x # take n vs) ! i"
    by (auto simp: nth_list_update nth_Cons' shift_samples_nth)
qed

lemma scan_samples_eq:
  "scan_samples vs i n mn mx =
     (foldl min mn (map ((!) vs) [i..<i + n]), foldl max mx (map ((!) vs) [i..<i + n]))"
proof (induction vs i n mn mx rule: scan_samples.induct)
  case (1 vs i mn mx)
  show ?case by simp
next
  case (2 vs i n mn mx)
  have "[i..<i + Suc n] = i # [Suc i..<Suc i + n]" by (simp add: upt_rec)
  with 2 show ?case by (simp add: min_def max_def)
qed

lemma foldl_min: "foldl min (a::int) xs = Min (insert a (set xs))"
proof -
  have "foldl min a xs = fold min xs a"
    by (induction xs arbitrary: a) (simp_all add: min.commute)
  then show ?thesis using Min.set_eq_fold [of a xs] by simp
qed

lemma foldl_max: "foldl max (a::int) xs = Max (insert a (set xs))"
proof -
  have "foldl max a xs = fold max xs a"
    by (induction xs arbitrary: a) (simp_all add: max.commute)
  then show ?thesis using Max.set_eq_fold [of a xs] by simp
qed

lemma scan_samples_extremes:
  assumes "vs = x # xs"
  shows "scan_samples vs 1 (length xs) x x = (Min (set vs), Max (set vs))"
proof -
  have "map ((!) vs) [1..<1 + length xs] = xs"
    using assms by (intro nth_equalityI) (simp_all del: upt_Suc)
  then show ?thesis using assms
    by (simp only: scan_samples_eq) (simp add: foldl_min foldl_max)
qed

lemma update_sample_values:
  assumes "length (sample_values t) = MAX_SAMPLE_VALS"
  shows "sample_values (update_sample t x) = x # butlast (sample_values t)"
  using assms shift_samples_eq [of "sample_values t" 5 x]
  by (simp add: update_sample_def MAX_SAMPLE_VALS_def Let_def butlast_conv_take)

lemma update_sample_wf:
  assumes "length (sample_values t) = MAX_SAMPLE_VALS"
  shows "wf_sample (update_sample t x)"
proof -
  let ?vs = "x # take 5 (sample_values t)"
  have vs: "(shift_samples 5 (sample_values t))[0 := x] = ?vs"
    using assms by (intro shift_samples_eq) (simp add: MAX_SAMPLE_VALS_def)
  have len: "length (take 5 (sample_values t)) = 5"
    using assms by (simp add: MAX_SAMPLE_VALS_def)
  have "scan_samples ?vs 1 5 x x = (Min (set ?vs), Max (set ?vs))"
    using scan_samples_extremes [OF refl, of x "take 5 (sample_values t)"]
    by (simp only: len)
  with vs len show ?thesis
    by (simp add: wf_sample_def update_sample_def MAX_SAMPLE_VALS_def Let_def
        del: scan_samples.simps)
qed

lemma wf_sample_update: "wf_sample t \<Longrightarrow> wf_sample (update_sample t x)"
  by (rule update_sample_wf) (simp add: wf_sample_def)

lemma reset_sample_zero [simp]: "reset_sample t = t\<lparr>sample_values := replicate 6 0, smin := 0, smax := 0\<rparr>"
  by (simp add: reset_sample_def update_sample_def MAX_SAMPLE_VALS_def numeral_eq_Suc)

lemma wf_sample_reset: "wf_sample (reset_sample t)"
  by (simp add: wf_sample_def MAX_SAMPLE_VALS_def)

subsection \<open>Faults\<close>

definition FAULT_STATUS_TEMPORARY :: u8 where "FAULT_STATUS_TEMPORARY = 1"
definition FAULT_STATUS_PERMANENT :: u8 where "FAULT_STATUS_PERMANENT = 2"
definition FAULT_RELAY_MALFUNCTION :: u32 where "FAULT_RELAY_MALFUNCTION = 1"
definition PERMANENT_FAULTS :: u32 where "PERMANENT_FAULTS = 0"

definition fault_occurred :: "u32 \<Rightarrow> safety_state \<Rightarrow> safety_state" where
  "fault_occurred fault s =
     (let s = (if (faults s AND fault) = 0 then
                 if (PERMANENT_FAULTS AND fault) \<noteq> 0
                 then s\<lparr>fault_status := FAULT_STATUS_PERMANENT\<rparr>
                 else s\<lparr>fault_status := FAULT_STATUS_TEMPORARY\<rparr>
               else s)
      in s\<lparr>faults := faults s OR fault\<rparr>)"

definition fault_recovered :: "u32 \<Rightarrow> safety_state \<Rightarrow> safety_state" where
  "fault_recovered fault s =
     (if (PERMANENT_FAULTS AND fault) = 0 then s\<lparr>faults := faults s AND NOT fault\<rparr> else s)"

definition relay_malfunction_set :: "safety_state \<Rightarrow> safety_state" where
  "relay_malfunction_set s = fault_occurred FAULT_RELAY_MALFUNCTION (s\<lparr>relay_malfunction := True\<rparr>)"

definition relay_malfunction_reset :: "safety_state \<Rightarrow> safety_state" where
  "relay_malfunction_reset s = fault_recovered FAULT_RELAY_MALFUNCTION (s\<lparr>relay_malfunction := False\<rparr>)"

subsection \<open>Engagement rules shared by the modes\<close>

definition pcm_cruise_check :: "bool \<Rightarrow> safety_state \<Rightarrow> safety_state" where
  "pcm_cruise_check cruise_engaged s =
     (let s = (if \<not> cruise_engaged then s\<lparr>controls_allowed := False\<rparr> else s);
          s = (if cruise_engaged \<and> \<not> cruise_engaged_prev s
               then s\<lparr>controls_allowed := True\<rparr> else s)
      in s\<lparr>cruise_engaged_prev := cruise_engaged\<rparr>)"

definition speed_mismatch_check :: "rat \<Rightarrow> safety_state \<Rightarrow> safety_state" where
  "speed_mismatch_check speed_2 s =
     (let MAX_SPEED_DELTA = 2;
          is_invalid_speed =
            ABS (fsub speed_2 (fdiv (fint (sample_values (vehicle_speed s) ! 0)) 1000))
              > MAX_SPEED_DELTA
      in if is_invalid_speed then s\<lparr>controls_allowed := False\<rparr> else s)"

lemma pcm_cruise_check_allowed:
  "controls_allowed (pcm_cruise_check c s) =
     (c \<and> (controls_allowed s \<or> \<not> cruise_engaged_prev s))"
  by (simp add: pcm_cruise_check_def Let_def)

lemma mode_view_pcm_cruise_check [frame_simps]:
  "mode_view (pcm_cruise_check c s) = mode_view s"
  by (simp add: mode_view_def pcm_cruise_check_def Let_def)

lemma mode_view_UPDATE_VEHICLE_SPEED [frame_simps]:
  "mode_view (UPDATE_VEHICLE_SPEED v s) = mode_view s"
  by (simp add: mode_view_def UPDATE_VEHICLE_SPEED_def)

lemma mode_view_speed_mismatch_check [frame_simps]:
  "mode_view (speed_mismatch_check v s) = mode_view s"
  by (simp add: mode_view_def speed_mismatch_check_def Let_def)

end
