(* ===== verification/Lateral.thy ===== *)
theory Lateral
  imports Safety_Utils
begin

text \<open>
  Steering command checks, \<^verbatim>\<open>car/opendbc/safety/lateral.h\<close>: torque commands limited by the
  motor or by the driver, and angle commands limited by rate, error, curvature or a vehicle
  model. Each check returns True on a violation and updates the steering state; the model
  returns the pair. Long C functions are cut into consecutive steps in the order of the code.
\<close>

subsection \<open>Torque limits\<close>

definition dist_to_meas_check :: "int \<Rightarrow> int \<Rightarrow> sample_t \<Rightarrow> int \<Rightarrow> int \<Rightarrow> int \<Rightarrow> bool" where
  "dist_to_meas_check val val_last val_meas MAX_RATE_UP MAX_RATE_DOWN MAX_ERROR =
     (let highest_allowed_rl = CMAX val_last 0 + MAX_RATE_UP;
          lowest_allowed_rl = CMIN val_last 0 - MAX_RATE_UP;
          highest_allowed = CMIN highest_allowed_rl
            (CMAX (val_last - MAX_RATE_DOWN) (CMAX (smax val_meas) 0 + MAX_ERROR));
          lowest_allowed = CMAX lowest_allowed_rl
            (CMIN (val_last + MAX_RATE_DOWN) (CMIN (smin val_meas) 0 - MAX_ERROR))
      in max_limit_check val highest_allowed lowest_allowed)"

definition driver_limit_check ::
    "int \<Rightarrow> int \<Rightarrow> sample_t \<Rightarrow> int \<Rightarrow> int \<Rightarrow> int \<Rightarrow> int \<Rightarrow> int \<Rightarrow> bool" where
  "driver_limit_check val val_last val_driver MAX_VAL MAX_RATE_UP MAX_RATE_DOWN
       MAX_ALLOWANCE DRIVER_FACTOR =
     (let highest_allowed_rl = CMAX val_last 0 + MAX_RATE_UP;
          lowest_allowed_rl = CMIN val_last 0 - MAX_RATE_UP;
          driver_max_limit = MAX_VAL + (MAX_ALLOWANCE + smax val_driver) * DRIVER_FACTOR;
          driver_min_limit = - MAX_VAL + (- MAX_ALLOWANCE + smin val_driver) * DRIVER_FACTOR;
          highest_allowed = CMIN highest_allowed_rl
            (CMAX (val_last - MAX_RATE_DOWN) (CMAX driver_max_limit 0));
          lowest_allowed = CMAX lowest_allowed_rl
            (CMIN (val_last + MAX_RATE_DOWN) (CMIN driver_min_limit 0))
      in max_limit_check val highest_allowed lowest_allowed)"

definition rt_torque_rate_limit_check :: "int \<Rightarrow> int \<Rightarrow> int \<Rightarrow> bool" where
  "rt_torque_rate_limit_check val val_last MAX_RT_DELTA =
     (let highest_val = CMAX val_last 0 + MAX_RT_DELTA;
          lowest_val = CMIN val_last 0 - MAX_RT_DELTA
      in max_limit_check val highest_val lowest_val)"

definition MAX_RT_INTERVAL :: u32 where "MAX_RT_INTERVAL = 250000"

subsection \<open>Torque commands\<close>

text \<open>The speed the checks assume: the lowest recent sample less 1 m/s.\<close>

definition fudged_speed :: "safety_state \<Rightarrow> rat" where
  "fudged_speed s = fsub (fdiv (fint (smin (vehicle_speed s))) 1000) 1"

definition torque_limit_now :: "TorqueSteeringLimits \<Rightarrow> safety_state \<Rightarrow> int" where
  "torque_limit_now limits s =
     (if dynamic_max_torque limits then
        CLAMP (trunc (fadd (interpolate (max_torque_lookup limits) (fudged_speed s)) 1))
          (- max_torque limits) (max_torque limits)
      else max_torque limits)"

text \<open>The checks made while controls are allowed, with their updates of the last torque and
  of the real-time window.\<close>

definition torque_checks_allowed ::
    "int \<Rightarrow> TorqueSteeringLimits \<Rightarrow> u32 \<Rightarrow> safety_state \<Rightarrow> bool \<times> safety_state" where
  "torque_checks_allowed desired_torque limits ts s =
     (let torque_max = torque_limit_now limits s;
          violation = max_limit_check desired_torque torque_max (- torque_max);
          violation = violation \<or>
            (if control_type limits = TorqueDriverLimited then
               driver_limit_check desired_torque (desired_torque_last s) (torque_driver s)
                 torque_max (max_rate_up limits) (max_rate_down limits)
                 (driver_torque_allowance limits) (driver_torque_multiplier limits)
             else
               dist_to_meas_check desired_torque (desired_torque_last s) (torque_meas s)
                 (max_rate_up limits) (max_rate_down limits) (max_torque_error limits));
          s = s\<lparr>desired_torque_last := desired_torque\<rparr>;
          violation = violation \<or>
            rt_torque_rate_limit_check desired_torque (rt_torque_last s) (max_rt_delta limits);
          s = (if get_ts_elapsed ts (ts_torque_check_last s) > MAX_RT_INTERVAL
               then s\<lparr>rt_torque_last := desired_torque, ts_torque_check_last := ts\<rparr> else s)
      in (violation, s))"

text \<open>The rules around the steer request bit: a mismatch is a torque with the bit low.\<close>

definition steer_req_checks ::
    "int \<Rightarrow> int \<Rightarrow> TorqueSteeringLimits \<Rightarrow> u32 \<Rightarrow> bool \<Rightarrow> safety_state \<Rightarrow> bool \<times> safety_state" where
  "steer_req_checks desired_torque steer_req limits ts violation s =
     (let steer_req_mismatch = steer_req = 0 \<and> desired_torque \<noteq> 0 in
      if \<not> has_steer_req_tolerance limits then
        (violation \<or> steer_req_mismatch, s)
      else if steer_req_mismatch then
        (violation \<or>
           (if invalid_steer_req_count s = 0 then
              valid_steer_req_count s < min_valid_request_frames limits \<or>
              get_ts_elapsed ts (ts_steer_req_mismatch_last s) < min_valid_request_rt_interval limits
            else invalid_steer_req_count s \<ge> max_invalid_request_frames limits),
         s\<lparr>valid_steer_req_count := 0, ts_steer_req_mismatch_last := ts,
           invalid_steer_req_count :=
             CMIN (invalid_steer_req_count s + 1) (max_invalid_request_frames limits)\<rparr>)
      else
        (violation,
         s\<lparr>valid_steer_req_count :=
             CMIN (valid_steer_req_count s + 1) (min_valid_request_frames limits),
           invalid_steer_req_count := 0\<rparr>))"

definition torque_reset :: "u32 \<Rightarrow> safety_state \<Rightarrow> safety_state" where
  "torque_reset ts s =
     s\<lparr>valid_steer_req_count := 0, invalid_steer_req_count := 0, desired_torque_last := 0,
       rt_torque_last := 0, ts_torque_check_last := ts, ts_steer_req_mismatch_last := ts\<rparr>"

definition steer_torque_cmd_checks ::
    "int \<Rightarrow> int \<Rightarrow> TorqueSteeringLimits \<Rightarrow> safety_state \<Rightarrow> bool \<times> safety_state" where
  "steer_torque_cmd_checks desired_torque steer_req limits s =
     (let ts = MICROSECOND_TIMER s;
          (violation, s) = (if controls_allowed s
             then torque_checks_allowed desired_torque limits ts s else (False, s));
          violation = violation \<or> (\<not> controls_allowed s \<and> desired_torque \<noteq> 0);
          (violation, s) = steer_req_checks desired_torque steer_req limits ts violation s;
          s = (if violation \<or> \<not> controls_allowed s then torque_reset ts s else s)
      in (violation, s))"

subsection \<open>Angle commands\<close>

definition ISO_LATERAL_ACCEL :: rat where "ISO_LATERAL_ACCEL = 3"
definition EARTH_G :: rat where "EARTH_G = f32 (981 / 100)"
definition AVERAGE_ROAD_ROLL :: rat where "AVERAGE_ROAD_ROLL = f32 (6 / 100)"

definition rt_angle_rate_limit_check ::
    "AngleSteeringLimits \<Rightarrow> safety_state \<Rightarrow> bool \<times> safety_state" where
  "rt_angle_rate_limit_check limits s =
     (let ts = MICROSECOND_TIMER s;
          max_rt_msgs = trunc (fadd (fmul (fdiv (fmul (fint (uint (angle_frequency limits)))
            (fint (uint MAX_RT_INTERVAL))) 1000000) (f32 (12 / 10))) 1);
          violation = to_s32 (uint (rt_angle_msgs s)) > max_rt_msgs;
          s = s\<lparr>rt_angle_msgs := rt_angle_msgs s + 1\<rparr>;
          s = (if get_ts_elapsed ts (ts_angle_check_last s) \<ge> MAX_RT_INTERVAL
               then s\<lparr>rt_angle_msgs := 0, ts_angle_check_last := ts\<rparr> else s)
      in (violation, s))"

text \<open>An angle rate of the table at a speed, scaled to CAN units, with the code's offset
  before truncation (\<open>+ 1.\<close> for a limit, \<open>- 1.\<close> for a relaxed one).\<close>

definition delta_angle :: "lookup_t \<Rightarrow> rat \<Rightarrow> rat \<Rightarrow> rat \<Rightarrow> int" where
  "delta_angle xy to_can speed offset = trunc (fadd (fmul (interpolate xy speed) to_can) offset)"

text \<open>Rate limits around the last angle: the bounds \<open>(lowest, highest)\<close>.\<close>

definition angle_rate_bounds :: "AngleSteeringLimits \<Rightarrow> safety_state \<Rightarrow> int \<times> int" where
  "angle_rate_bounds limits s =
     (let delta_angle_up = delta_angle (angle_rate_up_lookup limits) (angle_deg_to_can limits)
            (fudged_speed s) 1;
          delta_angle_down = delta_angle (angle_rate_down_lookup limits) (angle_deg_to_can limits)
            (fudged_speed s) 1;
          last = desired_angle_last s
      in (last - (if last \<ge> 0 then delta_angle_down else delta_angle_up),
          last + (if last > 0 then delta_angle_up else delta_angle_down)))"

text \<open>Bounds tightened to the neighbourhood of the measured angle.\<close>

definition angle_error_bounds ::
    "AngleSteeringLimits \<Rightarrow> safety_state \<Rightarrow> int \<times> int \<Rightarrow> int \<times> int" where
  "angle_error_bounds limits s bounds =
     (let (lowest, highest) = bounds;
          fudged_speed_error = fadd (fdiv (fint (smax (vehicle_speed s))) 1000) 1;
          delta_angle_up_relaxed = delta_angle (angle_rate_up_lookup limits)
            (angle_deg_to_can limits) fudged_speed_error (-1);
          delta_angle_down_relaxed = delta_angle (angle_rate_down_lookup limits)
            (angle_deg_to_can limits) fudged_speed_error (-1);
          lowest_error = smin (angle_meas s) - max_angle_error limits - 1;
          highest_error = smax (angle_meas s) + max_angle_error limits + 1;
          last = desired_angle_last s;
          (lowest, highest) =
            (if last > highest_error then
               let delta = (if last \<ge> 0 then delta_angle_down_relaxed else delta_angle_up_relaxed)
               in (lowest, CMAX (last - delta) highest_error)
             else if last < lowest_error then
               let delta = (if last \<le> 0 then delta_angle_down_relaxed else delta_angle_up_relaxed)
               in (CMIN (last + delta) lowest_error, highest)
             else (CMAX lowest lowest_error, CMIN highest highest_error))
      in (CLAMP lowest (- max_angle limits) (max_angle limits),
          CLAMP highest (- max_angle limits) (max_angle limits)))"

definition curvature_bounds ::
    "AngleSteeringLimits \<Rightarrow> safety_state \<Rightarrow> int \<times> int \<Rightarrow> int \<times> int" where
  "curvature_bounds limits s bounds =
     (let (lowest, highest) = bounds;
          MAX_LATERAL_ACCEL = fsub ISO_LATERAL_ACCEL (fmul EARTH_G AVERAGE_ROAD_ROLL);
          speed_lower = CMAX (fdiv (fint (smin (vehicle_speed s))) 1000) 1;
          speed_upper = CMAX (fdiv (fint (smax (vehicle_speed s))) 1000) 1;
          max_curvature_upper = trunc (fadd (fmul (fdiv MAX_LATERAL_ACCEL
            (fmul speed_lower speed_lower)) (angle_deg_to_can limits)) 1);
          max_curvature_lower = trunc (fsub (fmul (fdiv MAX_LATERAL_ACCEL
            (fmul speed_upper speed_upper)) (angle_deg_to_can limits)) 1)
      in if desired_angle_last s > 0 then
           (CLAMP lowest (- max_curvature_lower) max_curvature_lower,
            CLAMP highest (- max_curvature_upper) max_curvature_upper)
         else
           (CLAMP lowest (- max_curvature_upper) max_curvature_upper,
            CLAMP highest (- max_curvature_lower) max_curvature_lower))"

definition angle_bounds :: "AngleSteeringLimits \<Rightarrow> safety_state \<Rightarrow> int \<times> int" where
  "angle_bounds limits s =
     (let b = angle_rate_bounds limits s;
          b = (if enforce_angle_error limits \<and>
                  fdiv (fint (sample_values (vehicle_speed s) ! 0)) 1000 > angle_error_min_speed limits
               then angle_error_bounds limits s b else b);
          b = (if angle_is_curvature limits then curvature_bounds limits s b else b)
      in b)"

text \<open>Is an angle allowed while not steering: near the measured one, or zero.\<close>

definition inactive_angle_violation ::
    "int \<Rightarrow> AngleSteeringLimits \<Rightarrow> safety_state \<Rightarrow> bool" where
  "inactive_angle_violation desired_angle limits s =
     (let max_inactive_angle = CLAMP (smax (angle_meas s)) (- max_angle limits) (max_angle limits) + 1;
          min_inactive_angle = CLAMP (smin (angle_meas s)) (- max_angle limits) (max_angle limits) - 1
      in max_limit_check desired_angle max_inactive_angle min_inactive_angle)"

definition steer_angle_cmd_checks ::
    "int \<Rightarrow> bool \<Rightarrow> AngleSteeringLimits \<Rightarrow> safety_state \<Rightarrow> bool \<times> safety_state" where
  "steer_angle_cmd_checks desired_angle steer_control_enabled limits s =
     (let violation = False;
          violation = violation \<or> (controls_allowed s \<and> steer_control_enabled \<and>
            max_limit_check desired_angle (snd (angle_bounds limits s)) (fst (angle_bounds limits s)));
          s = s\<lparr>desired_angle_last := desired_angle\<rparr>;
          violation = violation \<or> (\<not> steer_control_enabled \<and>
            (if inactive_angle_is_zero limits then desired_angle \<noteq> 0
             else inactive_angle_violation desired_angle limits s));
          violation = violation \<or> (\<not> controls_allowed s \<and> steer_control_enabled);
          s = (if violation \<or> \<not> controls_allowed s then
                 s\<lparr>desired_angle_last := (if inactive_angle_is_zero limits then 0
                    else CLAMP (sample_values (angle_meas s) ! 0) (- max_angle limits) (max_angle limits))\<rparr>
               else s)
      in (violation, s))"

subsection \<open>Angle commands limited by a vehicle model\<close>

definition get_curvature_factor :: "rat \<Rightarrow> AngleSteeringParams \<Rightarrow> rat" where
  "get_curvature_factor speed params =
     fdiv (fdiv 1 (fsub 1 (fmul (slip_factor params) (fmul speed speed)))) (wheelbase params)"

definition get_angle_from_curvature :: "rat \<Rightarrow> rat \<Rightarrow> AngleSteeringParams \<Rightarrow> rat" where
  "get_angle_from_curvature curvature curvature_factor params =
     (let RAD_TO_DEG = f32 (5729577951308232 / 100000000000000)
      in fmul (fdiv (fmul curvature (steer_ratio params)) curvature_factor) RAD_TO_DEG)"

text \<open>Largest angle step per frame and largest angle, from the jerk and acceleration limits.\<close>

definition vm_limits ::
    "AngleSteeringLimits \<Rightarrow> AngleSteeringParams \<Rightarrow> safety_state \<Rightarrow> int \<times> int" where
  "vm_limits limits params s =
     (let MAX_LATERAL_ACCEL = fadd ISO_LATERAL_ACCEL (fmul EARTH_G AVERAGE_ROAD_ROLL);
          MAX_LATERAL_JERK = fadd 3 (fmul EARTH_G AVERAGE_ROAD_ROLL);
          speed = CMAX (fudged_speed s) 1;
          curvature_factor = get_curvature_factor speed params;
          max_curvature_rate_sec = fdiv MAX_LATERAL_JERK (fmul speed speed);
          max_angle_rate_sec = get_angle_from_curvature max_curvature_rate_sec curvature_factor params;
          max_angle_delta = fdiv max_angle_rate_sec (fint (uint (angle_frequency limits)));
          max_angle_delta_can = trunc (fadd (fmul max_angle_delta (angle_deg_to_can limits)) 1);
          max_curvature = fdiv MAX_LATERAL_ACCEL (fmul speed speed);
          angle_max = get_angle_from_curvature max_curvature curvature_factor params;
          max_angle_can = trunc (fadd (fmul angle_max (angle_deg_to_can limits)) 1)
      in (max_angle_delta_can, max_angle_can))"

definition steer_angle_cmd_checks_vm ::
    "int \<Rightarrow> bool \<Rightarrow> AngleSteeringLimits \<Rightarrow> AngleSteeringParams \<Rightarrow> safety_state
      \<Rightarrow> bool \<times> safety_state" where
  "steer_angle_cmd_checks_vm desired_angle steer_control_enabled limits params s =
     (let (violation, s) =
            (if controls_allowed s \<and> steer_control_enabled then
               let (max_angle_delta_can, max_angle_can) = vm_limits limits params s;
                   violation = max_limit_check desired_angle
                     (desired_angle_last s + max_angle_delta_can)
                     (desired_angle_last s - max_angle_delta_can);
                   violation = violation \<or>
                     max_limit_check desired_angle max_angle_can (- max_angle_can);
                   (rt_violation, s) = rt_angle_rate_limit_check limits s
               in (violation \<or> rt_violation, s)
             else (False, s));
          s = s\<lparr>desired_angle_last := desired_angle\<rparr>;
          violation = violation \<or>
            (\<not> steer_control_enabled \<and> inactive_angle_violation desired_angle limits s);
          violation = violation \<or> (\<not> controls_allowed s \<and> steer_control_enabled);
          s = (if violation \<or> \<not> controls_allowed s then
                 s\<lparr>desired_angle_last :=
                   CLAMP (sample_values (angle_meas s) ! 0) (- max_angle limits) (max_angle limits)\<rparr>
               else s)
      in (violation, s))"

subsection \<open>What the torque check accepts\<close>

lemma driver_limit_rate:
  "\<not> driver_limit_check t l drv M up down al f \<Longrightarrow> min l 0 - up \<le> t \<and> t \<le> max l 0 + up"
  by (auto simp: driver_limit_check_def max_limit_check_def CMIN_min CMAX_max Let_def not_less)

lemma dist_to_meas_rate:
  "\<not> dist_to_meas_check t l meas up down err \<Longrightarrow> min l 0 - up \<le> t \<and> t \<le> max l 0 + up"
  by (auto simp: dist_to_meas_check_def max_limit_check_def CMIN_min CMAX_max Let_def not_less)

lemma torque_limit_now_le: "0 \<le> max_torque L \<Longrightarrow> torque_limit_now L s \<le> max_torque L"
  by (auto simp: torque_limit_now_def CLAMP_def)

text \<open>The result and the new command history, without the intermediate states.\<close>

lemma steer_torque_result:
  "fst (steer_torque_cmd_checks t r L s) \<longleftrightarrow>
     fst (steer_req_checks t r L (MICROSECOND_TIMER s)
       (if controls_allowed s then fst (torque_checks_allowed t L (MICROSECOND_TIMER s) s)
        else t \<noteq> 0) s)"
  by (simp add: steer_torque_cmd_checks_def Let_def split_beta steer_req_checks_def
      torque_checks_allowed_def)

lemma steer_req_checks_mono: "fst (steer_req_checks t r L ts v s) \<Longrightarrow> \<not> v \<Longrightarrow> fst (steer_req_checks t r L ts False s)"
  by (simp add: steer_req_checks_def Let_def split: if_splits)

lemma steer_req_checks_violation: "\<not> fst (steer_req_checks t r L ts v s) \<Longrightarrow> \<not> v"
  by (simp add: steer_req_checks_def Let_def split: if_splits)

lemma torque_checks_allowed_sound:
  assumes "\<not> fst (torque_checks_allowed t L ts s)"
  shows "\<bar>t\<bar> \<le> torque_limit_now L s"
    and "min (desired_torque_last s) 0 - max_rate_up L \<le> t"
    and "t \<le> max (desired_torque_last s) 0 + max_rate_up L"
    and "min (rt_torque_last s) 0 - max_rt_delta L \<le> t"
    and "t \<le> max (rt_torque_last s) 0 + max_rt_delta L"
  using assms
  by (auto simp: torque_checks_allowed_def Let_def max_limit_check_def rt_torque_rate_limit_check_def
      CMAX_max CMIN_min dest!: driver_limit_rate dist_to_meas_rate split: if_splits)

lemma torque_last_after:
  "desired_torque_last (snd (steer_torque_cmd_checks t r L s)) =
     (if fst (steer_torque_cmd_checks t r L s) \<or> \<not> controls_allowed s then 0 else t)"
  by (simp add: steer_torque_cmd_checks_def Let_def split_beta torque_reset_def
      steer_req_checks_def torque_checks_allowed_def)

lemma torque_cmd_bounds:
  assumes "\<not> fst (steer_torque_cmd_checks t r L s)" and "0 \<le> max_torque L"
  shows "(\<not> controls_allowed s \<and> t = 0) \<or>
    (controls_allowed s \<and> \<bar>t\<bar> \<le> max_torque L \<and>
     min (desired_torque_last s) 0 - max_rate_up L \<le> t \<and>
     t \<le> max (desired_torque_last s) 0 + max_rate_up L \<and>
     min (rt_torque_last s) 0 - max_rt_delta L \<le> t \<and>
     t \<le> max (rt_torque_last s) 0 + max_rt_delta L)"
proof (cases "controls_allowed s")
  case True
  with assms(1) have ok: "\<not> fst (torque_checks_allowed t L (MICROSECOND_TIMER s) s)"
    by (auto simp: steer_torque_result dest!: steer_req_checks_violation)
  from torque_checks_allowed_sound [OF ok] torque_limit_now_le [OF assms(2), of s] True
  show ?thesis by simp
next
  case False
  with assms(1) show ?thesis
    by (auto simp: steer_torque_result dest!: steer_req_checks_violation)
qed

text \<open>An accepted torque command is either zero torque while controls are not allowed, or,
  with controls allowed, within the absolute limit, within one rate step of the previous
  command (measured away from zero) and within the real-time window. Every mode that steers by
  torque inherits this through \<open>steer_torque_cmd_checks\<close>.\<close>

lemma torque_cmd_sound:
  assumes "\<not> fst (steer_torque_cmd_checks t r L s)" and "0 \<le> max_torque L"
  shows "(\<not> controls_allowed s \<and> t = 0) \<or>
    (controls_allowed s \<and> \<bar>t\<bar> \<le> max_torque L \<and>
     min (desired_torque_last s) 0 - max_rate_up L \<le> t \<and>
     t \<le> max (desired_torque_last s) 0 + max_rate_up L \<and>
     min (rt_torque_last s) 0 - max_rt_delta L \<le> t \<and>
     t \<le> max (rt_torque_last s) 0 + max_rt_delta L)"
  using assms by (rule torque_cmd_bounds)

lemma torque_cmd_sound_witness:
  "\<exists>s L. controls_allowed s \<and> \<not> fst (steer_torque_cmd_checks 5 1 L s) \<and> \<bar>5\<bar> \<le> max_torque L"
proof -
  define s where "s = boot_state\<lparr>controls_allowed := True\<rparr>"
  define L where "L = torque_limits_zero\<lparr>max_torque := 100, max_rate_up := 10,
    max_rate_down := 10, max_rt_delta := 50, control_type := TorqueDriverLimited,
    driver_torque_multiplier := 1\<rparr>"
  have ok: "\<not> fst (steer_torque_cmd_checks 5 1 L s)" unfolding s_def L_def by code_simp
  have "0 \<le> max_torque L" by (simp add: L_def)
  from torque_cmd_sound [OF ok this] ok show ?thesis
    by (intro exI [of _ s] exI [of _ L]) (simp add: s_def)
qed

text \<open>A run of commands: each comes with the timer value at which it is checked.\<close>

fun torque_run ::
    "TorqueSteeringLimits \<Rightarrow> (u32 \<times> int \<times> int) list \<Rightarrow> safety_state \<Rightarrow> bool list \<times> safety_state" where
  "torque_run L [] s = ([], s)"
| "torque_run L ((ts, t, r) # cmds) s =
     (let (v, s) = steer_torque_cmd_checks t r L (s\<lparr>MICROSECOND_TIMER := ts\<rparr>);
          (vs, s) = torque_run L cmds s
      in (v # vs, s))"

lemma torque_last_step:
  assumes "0 \<le> max_rate_up L" and "0 \<le> max_torque L"
  shows "\<bar>desired_torque_last (snd (steer_torque_cmd_checks t r L s))\<bar>
    \<le> \<bar>desired_torque_last s\<bar> + max_rate_up L"
proof (cases "fst (steer_torque_cmd_checks t r L s) \<or> \<not> controls_allowed s")
  case True
  with assms show ?thesis by (simp add: torque_last_after)
next
  case False
  then have "\<not> fst (steer_torque_cmd_checks t r L s)" and c: "controls_allowed s" by simp_all
  from torque_cmd_bounds [OF this(1) assms(2)] c
  have "min (desired_torque_last s) 0 - max_rate_up L \<le> t"
    and "t \<le> max (desired_torque_last s) 0 + max_rate_up L" by simp_all
  with False show ?thesis by (auto simp: torque_last_after)
qed




lemma torque_checks_allowed_fields [simp]:
  "valid_steer_req_count (snd (torque_checks_allowed t L ts s)) = valid_steer_req_count s"
  "invalid_steer_req_count (snd (torque_checks_allowed t L ts s)) = invalid_steer_req_count s"
  "ts_steer_req_mismatch_last (snd (torque_checks_allowed t L ts s)) = ts_steer_req_mismatch_last s"
  "controls_allowed (snd (torque_checks_allowed t L ts s)) = controls_allowed s"
  by (simp_all add: torque_checks_allowed_def Let_def)

lemma steer_req_state:
  "invalid_steer_req_count (snd (steer_torque_cmd_checks t r L s)) =
     (if fst (steer_torque_cmd_checks t r L s) \<or> \<not> controls_allowed s then 0
      else if \<not> has_steer_req_tolerance L then invalid_steer_req_count s
      else if r = 0 \<and> t \<noteq> 0
      then min (invalid_steer_req_count s + 1) (max_invalid_request_frames L) else 0)"
  by (simp add: steer_torque_cmd_checks_def Let_def split_beta torque_reset_def
      steer_req_checks_def CMIN_min)

lemma valid_steer_req_state:
  "valid_steer_req_count (snd (steer_torque_cmd_checks t r L s)) =
     (if fst (steer_torque_cmd_checks t r L s) \<or> \<not> controls_allowed s then 0
      else if \<not> has_steer_req_tolerance L then valid_steer_req_count s
      else if r = 0 \<and> t \<noteq> 0 then 0
      else min (valid_steer_req_count s + 1) (min_valid_request_frames L))"
  by (simp add: steer_torque_cmd_checks_def Let_def split_beta torque_reset_def
      steer_req_checks_def CMIN_min)

text \<open>An accepted torque with the request bit low, while tolerated.\<close>

lemma cut_accepted:
  assumes "\<not> fst (steer_torque_cmd_checks t 0 L s)" and "t \<noteq> 0" and "has_steer_req_tolerance L"
  shows "controls_allowed s"
    and "invalid_steer_req_count s = 0 \<Longrightarrow> min_valid_request_frames L \<le> valid_steer_req_count s \<and>
      min_valid_request_rt_interval L \<le>
        get_ts_elapsed (MICROSECOND_TIMER s) (ts_steer_req_mismatch_last s)"
    and "invalid_steer_req_count s \<noteq> 0 \<Longrightarrow>
      invalid_steer_req_count s < max_invalid_request_frames L"
proof -
  from assms show "controls_allowed s"
    by (auto simp: steer_torque_result dest!: steer_req_checks_violation split: if_splits)
  from assms show "invalid_steer_req_count s = 0 \<Longrightarrow> min_valid_request_frames L \<le> valid_steer_req_count s \<and>
      min_valid_request_rt_interval L \<le>
        get_ts_elapsed (MICROSECOND_TIMER s) (ts_steer_req_mismatch_last s)"
    by (auto simp: steer_torque_result steer_req_checks_def Let_def)
  from assms show "invalid_steer_req_count s \<noteq> 0 \<Longrightarrow>
      invalid_steer_req_count s < max_invalid_request_frames L"
    by (auto simp: steer_torque_result steer_req_checks_def Let_def)
qed

lemma cut_run_bound:
  assumes "has_steer_req_tolerance L" and "1 \<le> max_invalid_request_frames L"
    and "\<forall>(ts, t, r) \<in> set cmds. r = 0 \<and> t \<noteq> 0"
    and "True \<notin> set (fst (torque_run L cmds s))"
    and "0 \<le> invalid_steer_req_count s" and "invalid_steer_req_count s \<le> max_invalid_request_frames L"
  shows "int (length cmds) \<le> max_invalid_request_frames L - invalid_steer_req_count s"
  using assms(3-6)
proof (induction cmds arbitrary: s)
  case Nil
  then show ?case by simp
next
  case (Cons c cmds)
  obtain ts t where c: "c = (ts, t, 0)" and t: "t \<noteq> 0" using Cons.prems(1) by (cases c) auto
  let ?u = "s\<lparr>MICROSECOND_TIMER := ts\<rparr>"
  let ?s = "snd (steer_torque_cmd_checks t 0 L ?u)"
  have ok: "\<not> fst (steer_torque_cmd_checks t 0 L ?u)" and rest: "True \<notin> set (fst (torque_run L cmds ?s))"
    using Cons.prems(2) by (auto simp: c split_beta Let_def)
  note acc = cut_accepted [OF ok t assms(1)]
  have inv: "invalid_steer_req_count ?s =
      min (invalid_steer_req_count s + 1) (max_invalid_request_frames L)"
    using ok t assms(1) acc(1) by (simp add: steer_req_state)
  have lt: "invalid_steer_req_count s < max_invalid_request_frames L"
    using acc(3) assms(2) by (cases "invalid_steer_req_count s = 0") auto
  have "int (length cmds) \<le> max_invalid_request_frames L - invalid_steer_req_count ?s"
    using Cons.IH [OF _ rest] Cons.prems(1,3) inv lt by auto
  with inv lt show ?case by (simp add: c)
qed

text \<open>For a mode that tolerates cutting the steer request bit, a run of accepted commands
  that all carry torque with the bit low has at most \<open>max_invalid_request_frames\<close> commands
  when it starts with no cut pending.\<close>

lemma steer_req_cut_bounded:
  assumes "has_steer_req_tolerance L" and "1 \<le> max_invalid_request_frames L"
    and "\<forall>(ts, t, r) \<in> set cmds. r = 0 \<and> t \<noteq> 0"
    and "True \<notin> set (fst (torque_run L cmds s))"
    and "invalid_steer_req_count s = 0"
  shows "int (length cmds) \<le> max_invalid_request_frames L"
  using cut_run_bound [OF assms(1-4)] assms(2,5) by simp

lemma steer_req_cut_bounded_witness:
  "\<exists>L::TorqueSteeringLimits. has_steer_req_tolerance L \<and> max_invalid_request_frames L = 1 \<and>
     int (length [(0::u32, 5::int, 0::int)]) \<le> max_invalid_request_frames L"
proof -
  define s where "s = boot_state\<lparr>controls_allowed := True\<rparr>"
  define L where "L = torque_limits_zero\<lparr>max_torque := 100, max_rate_up := 10,
    max_rate_down := 10, max_rt_delta := 50, control_type := TorqueDriverLimited,
    driver_torque_multiplier := 1, has_steer_req_tolerance := True,
    max_invalid_request_frames := 1\<rparr>"
  have "True \<notin> set (fst (torque_run L [(0, 5, 0)] s))" unfolding s_def L_def by code_simp
  then have "int (length [(0::u32, 5::int, 0::int)]) \<le> max_invalid_request_frames L"
    by (intro steer_req_cut_bounded [of L _ s]) (simp_all add: L_def s_def boot_state_def)
  then show ?thesis by (intro exI [of _ L]) (simp add: L_def)
qed

lemma driver_check_of_accepted:
  assumes "\<not> fst (steer_torque_cmd_checks t r L s)" and "controls_allowed s"
    and "control_type L = TorqueDriverLimited"
  shows "\<not> driver_limit_check t (desired_torque_last s) (torque_driver s)
      (torque_limit_now L s) (max_rate_up L) (max_rate_down L)
      (driver_torque_allowance L) (driver_torque_multiplier L)"
proof -
  have "\<not> fst (torque_checks_allowed t L (MICROSECOND_TIMER s) s)"
    using assms(1,2) by (auto simp: steer_torque_result dest!: steer_req_checks_violation)
  then show ?thesis using assms(3) by (simp add: torque_checks_allowed_def Let_def)
qed

lemma driver_limit_check_bounds:
  "\<not> driver_limit_check t l dr M up down al f \<Longrightarrow>
     t \<le> max (l - down) (max (M + (al + smax dr) * f) 0) \<and>
     min (l + down) (min (- M + (- al + smin dr) * f) 0) \<le> t"
  unfolding driver_limit_check_def max_limit_check_def CMAX_max CMIN_min Let_def
    de_Morgan_disj not_less by simp

text \<open>The driver can always take over: while the recent driver torque opposes a positive
  command strongly enough to use up the whole limit, an accepted command is at most what one
  step down leaves, or not positive at all; and symmetrically for a negative command.\<close>

lemma driver_override:
  assumes "\<not> fst (steer_torque_cmd_checks t r L s)" and "controls_allowed s"
    and "control_type L = TorqueDriverLimited"
  shows "(torque_limit_now L s + (driver_torque_allowance L + smax (torque_driver s)) *
            driver_torque_multiplier L \<le> 0 \<longrightarrow>
          t \<le> max (desired_torque_last s - max_rate_down L) 0) \<and>
         (0 \<le> - torque_limit_now L s + (- driver_torque_allowance L + smin (torque_driver s)) *
            driver_torque_multiplier L \<longrightarrow>
          min (desired_torque_last s + max_rate_down L) 0 \<le> t)"
  using driver_limit_check_bounds [OF driver_check_of_accepted [OF assms]] by (auto simp: max_def min_def split: if_splits)

lemma driver_override_witness:
  "\<exists>L s. controls_allowed (s::safety_state) \<and> desired_torque_last s = 40 \<and> smax (torque_driver s) = -200 \<and>
     \<not> fst (steer_torque_cmd_checks 25 1 L s) \<and> (25::int) \<le> max (40 - 20) 0 + 5"
proof -
  define s where "s = boot_state\<lparr>controls_allowed := True, desired_torque_last := 40,
    torque_driver := \<lparr>sample_values = replicate 6 (-200), smin = -200, smax = -200\<rparr>\<rparr>"
  define L where "L = torque_limits_zero\<lparr>max_torque := 100, max_rate_up := 10,
    max_rate_down := 15, max_rt_delta := 50, control_type := TorqueDriverLimited,
    driver_torque_multiplier := 1, driver_torque_allowance := 15\<rparr>"
  have ok: "\<not> fst (steer_torque_cmd_checks 25 1 L s)" unfolding s_def L_def by code_simp
  have "controls_allowed s" and "control_type L = TorqueDriverLimited"
    by (simp_all add: s_def L_def)
  from driver_override [OF ok this] ok show ?thesis
    by (intro exI [of _ L] exI [of _ s]) (simp add: s_def L_def torque_limit_now_def)
qed

text \<open>The angle check accepts a command exactly when controls are allowed and the angle is
  inside the computed bounds, or steering is not requested and the angle is the inactive one
  (zero, or next to the measured angle). Nothing else is accepted, and the angle remembered
  for the next command is the accepted one while controls are allowed, the measured (or zero)
  one otherwise.\<close>

lemma angle_cmd_exact:
  "steer_angle_cmd_checks a enabled L s =
     (let ok = (if enabled
                then controls_allowed s \<and> fst (angle_bounds L s) \<le> a \<and> a \<le> snd (angle_bounds L s)
                else if inactive_angle_is_zero L then a = 0
                else CLAMP (smin (angle_meas s)) (- max_angle L) (max_angle L) - 1 \<le> a \<and>
                     a \<le> CLAMP (smax (angle_meas s)) (- max_angle L) (max_angle L) + 1)
      in (\<not> ok, s\<lparr>desired_angle_last :=
                    (if ok \<and> controls_allowed s then a
                     else if inactive_angle_is_zero L then 0
                     else CLAMP (sample_values (angle_meas s) ! 0) (- max_angle L) (max_angle L))\<rparr>))"
  by (auto simp: steer_angle_cmd_checks_def inactive_angle_violation_def max_limit_check_def Let_def)

lemma angle_error_bounds_clamped:
  "0 \<le> max_angle L \<Longrightarrow> - max_angle L \<le> fst (angle_error_bounds L s b) \<and>
     snd (angle_error_bounds L s b) \<le> max_angle L"
  by (auto simp: angle_error_bounds_def Let_def split_beta CLAMP_def)

lemma angle_error_bounds_contained:
  assumes "smin (angle_meas s) - max_angle_error L - 1 \<le> desired_angle_last s"
    and "desired_angle_last s \<le> smax (angle_meas s) + max_angle_error L + 1"
    and "0 \<le> max_angle L"
  shows "min (smin (angle_meas s) - max_angle_error L - 1) (max_angle L) \<le> fst (angle_error_bounds L s b)"
    and "snd (angle_error_bounds L s b) \<le> max (smax (angle_meas s) + max_angle_error L + 1) (- max_angle L)"
  using assms by (auto simp: angle_error_bounds_def Let_def split_beta CLAMP_def CMAX_def CMIN_def)

text \<open>For a mode that enforces the angle error, above the speed where it applies, an
  accepted steering command stays inside the absolute angle range; and when the previous
  command was within the error band around the measured angle, so is the new one (as far as
  the angle range allows).\<close>

lemma angle_error_contained:
  assumes "\<not> fst (steer_angle_cmd_checks a True L s)"
    and "enforce_angle_error L" and "\<not> angle_is_curvature L" and "0 \<le> max_angle L"
    and "fdiv (fint (sample_values (vehicle_speed s) ! 0)) 1000 > angle_error_min_speed L"
  shows "controls_allowed s \<and> \<bar>a\<bar> \<le> max_angle L \<and>
    (smin (angle_meas s) - max_angle_error L - 1 \<le> desired_angle_last s \<and>
     desired_angle_last s \<le> smax (angle_meas s) + max_angle_error L + 1 \<longrightarrow>
     min (smin (angle_meas s) - max_angle_error L - 1) (max_angle L) \<le> a \<and>
     a \<le> max (smax (angle_meas s) + max_angle_error L + 1) (- max_angle L))"
proof -
  let ?b = "angle_error_bounds L s (angle_rate_bounds L s)"
  have "angle_bounds L s = ?b" using assms(2,3,5) by (simp add: angle_bounds_def)
  with assms(1) have "controls_allowed s" and ab: "fst ?b \<le> a" "a \<le> snd ?b"
    by (simp_all add: angle_cmd_exact Let_def)
  moreover have "\<bar>a\<bar> \<le> max_angle L"
    using angle_error_bounds_clamped [OF assms(4), of s "angle_rate_bounds L s"] ab by linarith
  ultimately show ?thesis
    using angle_error_bounds_contained [OF _ _ assms(4), of s "angle_rate_bounds L s"]
    by (meson order_trans)
qed

lemma angle_error_contained_witness:
  "\<exists>L s. \<not> fst (steer_angle_cmd_checks 3 True L s) \<and> desired_angle_last s = 0 \<and>
     enforce_angle_error L \<and> \<bar>3\<bar> \<le> max_angle L"
proof -
  define s where "s = boot_state\<lparr>controls_allowed := True,
    vehicle_speed := \<lparr>sample_values = replicate 6 10000, smin = 10000, smax = 10000\<rparr>\<rparr>"
  define L where "L = angle_limits_zero\<lparr>max_angle := 500, angle_deg_to_can := 10,
    angle_rate_up_lookup := \<lparr>lx = [0, 5, 25], ly = [5, 5, 5]\<rparr>,
    angle_rate_down_lookup := \<lparr>lx = [0, 5, 25], ly = [5, 5, 5]\<rparr>,
    max_angle_error := 20, angle_error_min_speed := 5, enforce_angle_error := True\<rparr>"
  have ok: "\<not> fst (steer_angle_cmd_checks 3 True L s)" unfolding s_def L_def by code_simp
  have sp: "fdiv (fint (sample_values (vehicle_speed s) ! 0)) 1000 > angle_error_min_speed L"
    unfolding s_def L_def by code_simp
  have "enforce_angle_error L" "\<not> angle_is_curvature L" "0 \<le> max_angle L"
    by (simp_all add: L_def angle_limits_zero_def)
  from angle_error_contained [OF ok this sp] ok this(1) show ?thesis
    by (intro exI [of _ L] exI [of _ s]) (simp add: s_def boot_state_def)
qed

end
