(* ===== verification/Longitudinal.thy ===== *)
theory Longitudinal
  imports Safety_Utils
begin

text \<open>
  Longitudinal command checks, \<^verbatim>\<open>car/opendbc/safety/longitudinal.h\<close>. Each function returns
  True on a violation. They read the state and change nothing, so the model passes it as
  an argument only.
\<close>

definition get_longitudinal_allowed :: "safety_state \<Rightarrow> bool" where
  "get_longitudinal_allowed s = (controls_allowed s \<and> \<not> gas_pressed_prev s)"

definition longitudinal_accel_checks :: "int \<Rightarrow> LongitudinalLimits \<Rightarrow> safety_state \<Rightarrow> bool" where
  "longitudinal_accel_checks desired_accel limits s =
     (let accel_valid = get_longitudinal_allowed s \<and>
            \<not> max_limit_check desired_accel (max_accel limits) (min_accel limits);
          accel_inactive = desired_accel = inactive_accel limits
      in \<not> (accel_valid \<or> accel_inactive))"

definition longitudinal_speed_checks :: "int \<Rightarrow> LongitudinalLimits \<Rightarrow> safety_state \<Rightarrow> bool" where
  "longitudinal_speed_checks desired_speed limits s =
     (\<not> get_longitudinal_allowed s \<and> desired_speed \<noteq> inactive_speed limits)"

definition longitudinal_transmission_rpm_checks ::
    "int \<Rightarrow> LongitudinalLimits \<Rightarrow> safety_state \<Rightarrow> bool" where
  "longitudinal_transmission_rpm_checks desired_transmission_rpm limits s =
     (let transmission_rpm_valid = get_longitudinal_allowed s \<and>
            \<not> max_limit_check desired_transmission_rpm (max_transmission_rpm limits)
                (min_transmission_rpm limits);
          transmission_rpm_inactive =
            desired_transmission_rpm = inactive_transmission_rpm limits
      in \<not> (transmission_rpm_valid \<or> transmission_rpm_inactive))"

definition longitudinal_gas_checks :: "int \<Rightarrow> LongitudinalLimits \<Rightarrow> safety_state \<Rightarrow> bool" where
  "longitudinal_gas_checks desired_gas limits s =
     (let gas_valid = get_longitudinal_allowed s \<and>
            \<not> max_limit_check desired_gas (max_gas limits) (min_gas limits);
          gas_inactive = desired_gas = inactive_gas limits
      in \<not> (gas_valid \<or> gas_inactive))"

definition longitudinal_brake_checks :: "int \<Rightarrow> LongitudinalLimits \<Rightarrow> safety_state \<Rightarrow> bool" where
  "longitudinal_brake_checks desired_brake limits s =
     (let violation = False;
          violation = violation \<or> (\<not> get_longitudinal_allowed s \<and> desired_brake \<noteq> 0);
          violation = violation \<or> desired_brake > max_brake limits
      in violation)"

subsection \<open>What an accepted command is\<close>

lemma accel_accepted:
  "\<not> longitudinal_accel_checks a L s \<longleftrightarrow>
     a = inactive_accel L \<or>
     (controls_allowed s \<and> \<not> gas_pressed_prev s \<and> min_accel L \<le> a \<and> a \<le> max_accel L)"
  by (auto simp: longitudinal_accel_checks_def get_longitudinal_allowed_def max_limit_check_def)

lemma gas_accepted:
  "\<not> longitudinal_gas_checks g L s \<longleftrightarrow>
     g = inactive_gas L \<or>
     (controls_allowed s \<and> \<not> gas_pressed_prev s \<and> min_gas L \<le> g \<and> g \<le> max_gas L)"
  by (auto simp: longitudinal_gas_checks_def get_longitudinal_allowed_def max_limit_check_def)

lemma rpm_accepted:
  "\<not> longitudinal_transmission_rpm_checks r L s \<longleftrightarrow>
     r = inactive_transmission_rpm L \<or>
     (controls_allowed s \<and> \<not> gas_pressed_prev s \<and>
      min_transmission_rpm L \<le> r \<and> r \<le> max_transmission_rpm L)"
  by (auto simp: longitudinal_transmission_rpm_checks_def get_longitudinal_allowed_def
      max_limit_check_def)

lemma speed_accepted:
  "\<not> longitudinal_speed_checks v L s \<longleftrightarrow>
     v = inactive_speed L \<or> (controls_allowed s \<and> \<not> gas_pressed_prev s)"
  by (auto simp: longitudinal_speed_checks_def get_longitudinal_allowed_def)

lemma brake_accepted:
  "\<not> longitudinal_brake_checks b L s \<longleftrightarrow>
     b \<le> max_brake L \<and> (b = 0 \<or> (controls_allowed s \<and> \<not> gas_pressed_prev s))"
  by (auto simp: longitudinal_brake_checks_def get_longitudinal_allowed_def Let_def)

lemmas long_accepted = accel_accepted gas_accepted rpm_accepted speed_accepted brake_accepted

end
