(* ===== verification/Safety_Core.thy ===== *)
theory Safety_Core
  imports Lateral Longitudinal
begin

text \<open>
  The mode-independent part of \<^verbatim>\<open>car/opendbc/safety/safety.h\<close>: validation of received
  messages, the receive, transmit and forward hooks, the 1 Hz tick and the mode switch. The
  functions take the resolution of hook-table names as their first argument, so that they are
  about any set of modes; theory \<open>Safety_Modes\<close> supplies the tables of the code. An index
  that is \<open>-1\<close> in the code is \<open>None\<close> here.
\<close>

subsection \<open>Receive checks\<close>

definition MAX_WRONG_COUNTERS :: int where "MAX_WRONG_COUNTERS = 5"

definition status_valid :: "RxStatus \<Rightarrow> bool" where
  "status_valid st \<longleftrightarrow> valid_checksum st \<and> valid_quality_flag st \<and>
     \<not> wrong_counters st \<ge> MAX_WRONG_COUNTERS"

definition is_msg_valid :: "RxCheck list \<Rightarrow> nat option \<Rightarrow> safety_state \<Rightarrow> bool \<times> safety_state" where
  "is_msg_valid addr_list idx s =
     (case idx of None \<Rightarrow> (True, s)
      | Some i \<Rightarrow> if \<not> status_valid (status (addr_list ! i))
                  then (False, s\<lparr>controls_allowed := False\<rparr>) else (True, s))"

definition msg_matches :: "CANPacket \<Rightarrow> CanMsgCheck \<Rightarrow> bool" where
  "msg_matches p c \<longleftrightarrow> addr p = c_addr c \<and> bus p = c_bus c \<and> GET_LEN p = c_len c"

text \<open>Which alternative of a check the message is; an entry with address 0 ends the list.\<close>

fun find_alternative :: "CANPacket \<Rightarrow> CanMsgCheck list \<Rightarrow> nat \<Rightarrow> nat option" where
  "find_alternative p [] j = None"
| "find_alternative p (c # cs) j =
     (if c_addr c = 0 then None
      else if msg_matches p c then Some j
      else find_alternative p cs (Suc j))"

definition see_msg :: "CANPacket \<Rightarrow> RxCheck \<Rightarrow> RxCheck" where
  "see_msg p chk =
     (if \<not> msg_seen (status chk) then
        (case find_alternative p (take MAX_ADDR_CHECK_MSGS (msgs chk)) 0 of
           None \<Rightarrow> chk
         | Some j \<Rightarrow> chk\<lparr>status := (status chk)\<lparr>index := j, msg_seen := True\<rparr>\<rparr>)
      else chk)"

definition current_msg :: "RxCheck \<Rightarrow> CanMsgCheck" where
  "current_msg chk = msgs chk ! index (status chk)"

fun addr_check_loop :: "CANPacket \<Rightarrow> nat \<Rightarrow> RxCheck list \<Rightarrow> nat option \<times> RxCheck list" where
  "addr_check_loop p i [] = (None, [])"
| "addr_check_loop p i (chk # rest) =
     (let chk = see_msg p chk in
      if msg_seen (status chk) \<and> msg_matches p (current_msg chk) then (Some i, chk # rest)
      else let (r, rest) = addr_check_loop p (Suc i) rest in (r, chk # rest))"

definition get_addr_check_index :: "CANPacket \<Rightarrow> RxCheck list \<Rightarrow> nat option \<times> RxCheck list" where
  "get_addr_check_index p addr_list = addr_check_loop p 0 addr_list"

definition update_addr_timestamp :: "u32 \<Rightarrow> RxStatus \<Rightarrow> RxStatus" where
  "update_addr_timestamp ts st = st\<lparr>last_timestamp := ts\<rparr>"

definition update_counter :: "u8 \<Rightarrow> u8 \<Rightarrow> RxStatus \<Rightarrow> RxStatus" where
  "update_counter max_cnt counter st =
     (let expected_counter = (unat (last_counter st) + 1) mod (unat max_cnt + 1);
          wrong = wrong_counters st + (if expected_counter = unat counter then -1 else 1)
      in st\<lparr>wrong_counters := CLAMP wrong 0 MAX_WRONG_COUNTERS, last_counter := counter\<rparr>)"

text \<open>The three checks on the status of the matched entry: checksum, counter, quality flag.\<close>

definition checksum_check :: "safety_hooks \<Rightarrow> CANPacket \<Rightarrow> CanMsgCheck \<Rightarrow> RxStatus \<Rightarrow> RxStatus" where
  "checksum_check h p c st =
     (case (get_checksum h, compute_checksum h) of
        (Some get, Some compute) \<Rightarrow>
          if \<not> ignore_checksum c then st\<lparr>valid_checksum := (compute p = get p)\<rparr>
          else st\<lparr>valid_checksum := ignore_checksum c\<rparr>
      | _ \<Rightarrow> st\<lparr>valid_checksum := ignore_checksum c\<rparr>)"

definition counter_check :: "safety_hooks \<Rightarrow> CANPacket \<Rightarrow> CanMsgCheck \<Rightarrow> RxStatus \<Rightarrow> RxStatus" where
  "counter_check h p c st =
     (case get_counter h of
        Some get \<Rightarrow>
          if max_counter c > 0 then update_counter (max_counter c) (get p) st
          else st\<lparr>wrong_counters := (if ignore_counter c then 0 else MAX_WRONG_COUNTERS)\<rparr>
      | None \<Rightarrow> st\<lparr>wrong_counters := (if ignore_counter c then 0 else MAX_WRONG_COUNTERS)\<rparr>)"

definition quality_check :: "safety_hooks \<Rightarrow> CANPacket \<Rightarrow> CanMsgCheck \<Rightarrow> RxStatus \<Rightarrow> RxStatus" where
  "quality_check h p c st =
     (case get_quality_flag_valid h of
        Some valid \<Rightarrow>
          if \<not> ignore_quality_flag c then st\<lparr>valid_quality_flag := valid p\<rparr>
          else st\<lparr>valid_quality_flag := ignore_quality_flag c\<rparr>
      | None \<Rightarrow> st\<lparr>valid_quality_flag := ignore_quality_flag c\<rparr>)"

definition check_entry :: "safety_hooks \<Rightarrow> CANPacket \<Rightarrow> u32 \<Rightarrow> RxCheck \<Rightarrow> RxCheck" where
  "check_entry h p ts chk =
     (let c = current_msg chk;
          st = update_addr_timestamp ts (status chk);
          st = checksum_check h p c st;
          st = counter_check h p c st;
          st = quality_check h p c st
      in chk\<lparr>status := st\<rparr>)"

definition set_rx_checks :: "RxCheck list \<Rightarrow> safety_state \<Rightarrow> safety_state" where
  "set_rx_checks cs s =
     s\<lparr>current_safety_config := (current_safety_config s)\<lparr>rx_checks := cs\<rparr>\<rparr>"

definition rx_msg_safety_check ::
    "safety_hooks \<Rightarrow> CANPacket \<Rightarrow> safety_state \<Rightarrow> bool \<times> safety_state" where
  "rx_msg_safety_check h p s =
     (let (idx, cs) = get_addr_check_index p (rx_checks (current_safety_config s));
          cs = (case idx of None \<Rightarrow> cs
                | Some i \<Rightarrow> cs[i := check_entry h p (MICROSECOND_TIMER s) (cs ! i)])
      in is_msg_valid cs idx (set_rx_checks cs s))"

subsection \<open>Checks made on every received message\<close>

definition generic_rx_checks :: "safety_state \<Rightarrow> safety_state" where
  "generic_rx_checks s =
     (let s = s\<lparr>gas_pressed_prev := gas_pressed s\<rparr>;
          s = (if brake_pressed s \<and> (\<not> brake_pressed_prev s \<or> vehicle_moving s)
               then s\<lparr>controls_allowed := False\<rparr> else s);
          s = s\<lparr>brake_pressed_prev := brake_pressed s\<rparr>;
          s = (if regen_braking s \<and> (\<not> regen_braking_prev s \<or> vehicle_moving s)
               then s\<lparr>controls_allowed := False\<rparr> else s);
          s = s\<lparr>regen_braking_prev := regen_braking s\<rparr>;
          s = (if steering_disengage s \<and> \<not> steering_disengage_prev s
               then s\<lparr>controls_allowed := False\<rparr> else s);
          s = s\<lparr>steering_disengage_prev := steering_disengage s\<rparr>
      in s)"

definition stock_ecu_check :: "bool \<Rightarrow> safety_state \<Rightarrow> safety_state" where
  "stock_ecu_check stock_ecu_detected s =
     (let RELAY_TRNS_TIMEOUT = 1
      in if safety_mode_cnt s > RELAY_TRNS_TIMEOUT \<and> stock_ecu_detected
         then relay_malfunction_set s else s)"

fun relay_loop :: "CANPacket \<Rightarrow> CanMsg list \<Rightarrow> safety_state \<Rightarrow> safety_state" where
  "relay_loop p [] s = s"
| "relay_loop p (m # ms) s =
     relay_loop p ms
       (if check_relay m then stock_ecu_check (m_addr m = addr p \<and> m_bus m = bus p) s else s)"

subsection \<open>The hooks the firmware calls\<close>

definition safety_rx_hook ::
    "(hooks_ptr \<Rightarrow> safety_hooks) \<Rightarrow> CANPacket \<Rightarrow> safety_state \<Rightarrow> bool \<times> safety_state" where
  "safety_rx_hook H p s0 =
     (let (valid, s) = rx_msg_safety_check (H (current_hooks s0)) p s0;
          (idx, cs) = get_addr_check_index p (rx_checks (current_safety_config s));
          s = set_rx_checks cs s;
          whitelisted = idx \<noteq> None;
          s = (if valid \<and> whitelisted then rx_hook (H (current_hooks s)) p s else s);
          s = generic_rx_checks s;
          s = relay_loop p (tx_msgs (current_safety_config s)) s;
          s = (if controls_allowed s \<and> \<not> controls_allowed s0
               then s\<lparr>heartbeat_engaged_mismatches := 0\<rparr> else s)
      in (valid, s))"

definition SAFETY_ALLOUTPUT :: u16 where "SAFETY_ALLOUTPUT = 17"
definition SAFETY_ELM327 :: u16 where "SAFETY_ELM327 = 3"

definition tx_matches :: "CANPacket \<Rightarrow> CanMsg \<Rightarrow> bool" where
  "tx_matches p m \<longleftrightarrow> addr p = m_addr m \<and> bus p = m_bus m \<and> GET_LEN p = m_len m"

fun tx_msg_safety_check :: "CANPacket \<Rightarrow> CanMsg list \<Rightarrow> bool" where
  "tx_msg_safety_check p [] = False"
| "tx_msg_safety_check p (m # ms) = (if tx_matches p m then True else tx_msg_safety_check p ms)"

definition safety_tx_hook ::
    "(hooks_ptr \<Rightarrow> safety_hooks) \<Rightarrow> CANPacket \<Rightarrow> safety_state \<Rightarrow> bool \<times> safety_state" where
  "safety_tx_hook H p s =
     (let whitelisted = tx_msg_safety_check p (tx_msgs (current_safety_config s));
          whitelisted = (if current_safety_mode s = SAFETY_ALLOUTPUT \<or>
                            current_safety_mode s = SAFETY_ELM327 then True else whitelisted);
          (safety_allowed, s) =
            (if whitelisted then tx_hook (H (current_hooks s)) p s else (False, s))
      in (\<not> relay_malfunction s \<and> whitelisted \<and> safety_allowed, s))"

definition get_fwd_bus :: "int \<Rightarrow> int" where
  "get_fwd_bus bus_num = (if bus_num = 0 then 2 else if bus_num = 2 then 0 else -1)"

definition static_block :: "int \<Rightarrow> int \<Rightarrow> CanMsg list \<Rightarrow> bool" where
  "static_block destination_bus a ms =
     list_ex (\<lambda>m. check_relay m \<and> \<not> disable_static_blocking m \<and> m_addr m = a \<and>
                  m_bus m = to_u32 destination_bus) ms"

definition safety_fwd_hook ::
    "(hooks_ptr \<Rightarrow> safety_hooks) \<Rightarrow> int \<Rightarrow> int \<Rightarrow> safety_state \<Rightarrow> int" where
  "safety_fwd_hook H bus_num a s =
     (let blocked = relay_malfunction s \<or> disable_forwarding (current_safety_config s);
          destination_bus = get_fwd_bus bus_num;
          blocked = (if \<not> blocked
                     then static_block destination_bus a (tx_msgs (current_safety_config s))
                     else blocked);
          blocked = (case fwd_hook (H (current_hooks s)) of
                       Some f \<Rightarrow> if \<not> blocked then f bus_num a s else blocked
                     | None \<Rightarrow> blocked)
      in if blocked then -1 else destination_bus)"

subsection \<open>The tick\<close>

definition lag_threshold :: "CanMsgCheck \<Rightarrow> rat" where
  "lag_threshold c =
     (let MAX_MISSED_MSGS = 10; timestep = trunc (fdiv 1000000 (fint (frequency c)))
      in CMAX (fint (to_u32 (timestep * MAX_MISSED_MSGS))) 1000000)"

definition tick_entry :: "u32 \<Rightarrow> RxCheck \<Rightarrow> RxCheck" where
  "tick_entry ts chk =
     (let elapsed_time = get_ts_elapsed ts (last_timestamp (status chk))
      in chk\<lparr>status := (status chk)\<lparr>lagging :=
               fint (uint elapsed_time) > lag_threshold (current_msg chk)\<rparr>\<rparr>)"

fun tick_loop :: "u32 \<Rightarrow> RxCheck list \<Rightarrow> bool \<Rightarrow> safety_state \<Rightarrow> RxCheck list \<times> bool \<times> safety_state" where
  "tick_loop ts [] rx_checks_invalid s = ([], rx_checks_invalid, s)"
| "tick_loop ts (chk # rest) rx_checks_invalid s =
     (let chk = tick_entry ts chk;
          s = (if lagging (status chk) then s\<lparr>controls_allowed := False\<rparr> else s);
          (bad, s) = (if lagging (status chk) then (True, s)
                      else let (v, s) = is_msg_valid [chk] (Some 0) s in (\<not> v, s));
          (rest, inv, s) = tick_loop ts rest (rx_checks_invalid \<or> bad) s
      in (chk # rest, inv, s))"

definition safety_tick :: "safety_state \<Rightarrow> safety_state" where
  "safety_tick s =
     (let (cs, inv, s) = tick_loop (MICROSECOND_TIMER s) (rx_checks (current_safety_config s)) False s
      in (set_rx_checks cs s)\<lparr>safety_rx_checks_invalid := inv\<rparr>)"

subsection \<open>Switching the mode\<close>

definition reset_state :: "safety_state \<Rightarrow> safety_state" where
  "reset_state s = relay_malfunction_reset (s\<lparr>
     safety_mode_cnt := 0, relay_malfunction := False, gas_pressed := False,
     gas_pressed_prev := False, brake_pressed := False, brake_pressed_prev := False,
     regen_braking := False, regen_braking_prev := False, steering_disengage := False,
     steering_disengage_prev := False, cruise_engaged_prev := False, vehicle_moving := False,
     acc_main_on := False, cruise_button_prev := 0, desired_torque_last := 0,
     rt_torque_last := 0, rt_angle_msgs := 0, ts_angle_check_last := 0,
     desired_angle_last := 0, ts_torque_check_last := 0, ts_steer_req_mismatch_last := 0,
     valid_steer_req_count := 0, invalid_steer_req_count := 0,
     vehicle_speed := reset_sample (vehicle_speed s),
     torque_meas := reset_sample (torque_meas s),
     torque_driver := reset_sample (torque_driver s),
     angle_meas := reset_sample (angle_meas s),
     controls_allowed := False\<rparr>)\<lparr>safety_rx_checks_invalid := False,
     current_safety_config := config_zero\<rparr>"

text \<open>The loop over the registry selects the entry of the mode; every mode occurs once.\<close>

fun select_hooks ::
    "(u16 \<times> hooks_ptr) list \<Rightarrow> u16 \<Rightarrow> u16 \<Rightarrow> int \<Rightarrow> safety_state \<Rightarrow> int \<times> safety_state" where
  "select_hooks [] mode param set_status s = (set_status, s)"
| "select_hooks ((hid, hooks) # rest) mode param set_status s =
     (if hid = mode
      then select_hooks rest mode param 0 (s\<lparr>current_hooks := hooks, current_safety_mode := mode,
             current_safety_param := param\<rparr>)
      else select_hooks rest mode param set_status s)"

definition clear_status :: "RxCheck \<Rightarrow> RxCheck" where
  "clear_status chk = chk\<lparr>status := rx_status_zero\<rparr>"

definition set_safety_hooks ::
    "(hooks_ptr \<Rightarrow> safety_hooks) \<Rightarrow> (u16 \<times> hooks_ptr) list \<Rightarrow> u16 \<Rightarrow> u16 \<Rightarrow> safety_state
      \<Rightarrow> int \<times> safety_state" where
  "set_safety_hooks H registry mode param s =
     (let s = reset_state s;
          (set_status, s) = select_hooks registry mode param (-1) s;
          s = (case init_hook (H (current_hooks s)) of
                 Some f \<Rightarrow> if set_status = 0 then
                     let (cfg, s) = f param s
                     in s\<lparr>current_safety_config := cfg\<lparr>rx_checks := map clear_status (rx_checks cfg)\<rparr>\<rparr>
                   else s
               | None \<Rightarrow> s)
      in (set_status, s))"

subsection \<open>CRC tables\<close>

definition crc8_step :: "u8 \<Rightarrow> u8 \<Rightarrow> u8" where
  "crc8_step poly crc = (if (crc AND 0x80) \<noteq> 0 then push_bit 1 crc XOR poly else push_bit 1 crc)"

definition gen_crc_lookup_table_8 :: "u8 \<Rightarrow> u8 list" where
  "gen_crc_lookup_table_8 poly = map (\<lambda>i. (crc8_step poly ^^ 8) (of_nat i)) [0..<256]"

definition crc16_step :: "u16 \<Rightarrow> u16 \<Rightarrow> u16" where
  "crc16_step poly crc = (if (crc AND 0x8000) \<noteq> 0 then push_bit 1 crc XOR poly else push_bit 1 crc)"

definition gen_crc_lookup_table_16 :: "u16 \<Rightarrow> u16 list" where
  "gen_crc_lookup_table_16 poly = map (\<lambda>i. (crc16_step poly ^^ 8) (push_bit 8 (of_nat i))) [0..<256]"

end
