(* ===== verification/Mode_Interface.thy ===== *)
theory Mode_Interface
  imports Safety_Core
begin

text \<open>
  What the mode-independent code relies on in the hook table of a mode, as locales. Each mode
  theory discharges them for its own table; the consequences are proved here once.
  A hook never touches the fields that say which mode runs (\<open>mode_view\<close>), a transmit hook
  never touches the engagement fields, and every hook keeps the sample windows well formed.
\<close>

text \<open>A window after the updates of a mode: six samples, between the recorded extremes. One
  mode widens the extremes by one, so the bounds are not always attained.\<close>

definition sample_ok :: "sample_t \<Rightarrow> bool" where
  "sample_ok t \<longleftrightarrow> length (sample_values t) = MAX_SAMPLE_VALS \<and>
     (\<forall>v \<in> set (sample_values t). smin t \<le> v \<and> v \<le> smax t)"

definition samples_ok :: "safety_state \<Rightarrow> bool" where
  "samples_ok s \<longleftrightarrow> sample_ok (vehicle_speed s) \<and> sample_ok (torque_meas s) \<and>
     sample_ok (torque_driver s) \<and> sample_ok (angle_meas s)"

lemma wf_sample_ok: "wf_sample t \<Longrightarrow> sample_ok t"
  by (auto simp: wf_sample_def sample_ok_def)

lemma sample_ok_update: "sample_ok t \<Longrightarrow> sample_ok (update_sample t x)"
  by (rule wf_sample_ok, rule update_sample_wf) (simp add: sample_ok_def)

lemma sample_ok_zero: "sample_ok (t\<lparr>sample_values := replicate 6 0, smin := 0, smax := 0\<rparr>)"
  by (simp add: sample_ok_def MAX_SAMPLE_VALS_def)

text \<open>The windows a transmit hook reads.\<close>

definition samples_view :: "safety_state \<Rightarrow> sample_t \<times> sample_t \<times> sample_t \<times> sample_t" where
  "samples_view s = (vehicle_speed s, torque_meas s, torque_driver s, angle_meas s)"

lemma samples_view_ok: "samples_view t = samples_view s \<Longrightarrow> samples_ok t = samples_ok s"
  by (simp add: samples_view_def samples_ok_def)

text \<open>The history of the steering commands, which only the transmit side writes.\<close>

definition steer_view ::
  "safety_state \<Rightarrow> int \<times> int \<times> int \<times> int \<times> u32 \<times> u32 \<times> u32 \<times> u32 \<times> int" where
  "steer_view s = (desired_torque_last s, rt_torque_last s, valid_steer_req_count s,
     invalid_steer_req_count s, ts_torque_check_last s, ts_steer_req_mismatch_last s,
     rt_angle_msgs s, ts_angle_check_last s, desired_angle_last s)"

lemmas views = mode_view_def engagement_view_def samples_view_def steer_view_def

subsection \<open>Transmit hooks\<close>

locale tx_contract =
  fixes tx :: "CANPacket \<Rightarrow> safety_state \<Rightarrow> bool \<times> safety_state"
  assumes tx_mode: "mode_view (snd (tx p s)) = mode_view s"
    and tx_engagement: "engagement_view (snd (tx p s)) = engagement_view s"
    and tx_samples: "samples_view (snd (tx p s)) = samples_view s"
begin

lemma tx_relay: "relay_malfunction (snd (tx p s)) = relay_malfunction s"
  using tx_mode [of p s] by (simp add: mode_view_def)

lemma tx_controls: "controls_allowed (snd (tx p s)) = controls_allowed s"
  using tx_engagement [of p s] by (simp add: engagement_view_def)

lemma tx_samples_ok: "samples_ok (snd (tx p s)) = samples_ok s"
  using tx_samples [of p s] by (rule samples_view_ok)

end

subsection \<open>Hook tables\<close>

locale safety_mode = tx_contract "tx_hook h" for h :: safety_hooks +
  assumes rx_mode: "mode_view (rx_hook h p s) = mode_view s"
    and rx_steer: "steer_view (rx_hook h p s) = steer_view s"
    and rx_samples: "samples_ok s \<Longrightarrow> samples_ok (rx_hook h p s)"
    and init_mode: "init_hook h = Some f \<Longrightarrow> mode_view (snd (f param s)) = mode_view s"
    and init_samples: "init_hook h = Some f \<Longrightarrow> samples_view (snd (f param s)) = samples_view s"

text \<open>A mode that waits for the driver: switching to it leaves controls disallowed.\<close>

locale guarded_mode = safety_mode +
  assumes init_controls: "init_hook h = Some f \<Longrightarrow> controls_allowed (snd (f param s)) = controls_allowed s"

subsection \<open>The steering checks keep the contract\<close>

text \<open>The three views of a state together: what a steering check must leave alone.\<close>

definition frame_view where
  "frame_view s = (mode_view s, engagement_view s, samples_view s)"

lemma frame_view_eq:
  "frame_view t = frame_view s \<longleftrightarrow>
     mode_view t = mode_view s \<and> engagement_view t = engagement_view s \<and>
     samples_view t = samples_view s"
  by (simp add: frame_view_def)

lemma torque_checks_allowed_frame: "frame_view (snd (torque_checks_allowed t L ts s)) = frame_view s"
  by (simp add: frame_view_def views torque_checks_allowed_def Let_def)

lemma steer_req_checks_frame: "frame_view (snd (steer_req_checks t r L ts v s)) = frame_view s"
  by (simp add: frame_view_def views steer_req_checks_def Let_def)

lemma torque_reset_frame: "frame_view (torque_reset ts s) = frame_view s"
  by (simp add: frame_view_def views torque_reset_def)

lemma torque_checks_frame_view: "frame_view (snd (steer_torque_cmd_checks t r L s)) = frame_view s"
  by (simp add: steer_torque_cmd_checks_def Let_def split_beta if_distrib [of frame_view]
      torque_checks_allowed_frame steer_req_checks_frame torque_reset_frame)

lemma angle_checks_frame_view: "frame_view (snd (steer_angle_cmd_checks a e L s)) = frame_view s"
  by (simp add: frame_view_def views steer_angle_cmd_checks_def Let_def)

lemma rt_angle_frame: "frame_view (snd (rt_angle_rate_limit_check L s)) = frame_view s"
  by (simp add: frame_view_def views rt_angle_rate_limit_check_def Let_def)

lemma frame_view_desired_angle_last [simp]:
  "frame_view (s\<lparr>desired_angle_last := d\<rparr>) = frame_view s"
  by (simp add: frame_view_def views)

lemma angle_checks_vm_frame_view:
  "frame_view (snd (steer_angle_cmd_checks_vm a e L q s)) = frame_view s"
  by (simp add: steer_angle_cmd_checks_vm_def Let_def split_beta if_distrib [of frame_view]
      rt_angle_frame)

lemmas steering_frames =
  torque_checks_frame_view angle_checks_frame_view angle_checks_vm_frame_view

lemmas steering_checks_frame [frame_simps] = steering_frames [unfolded frame_view_eq]

lemma views_mode_statics [frame_simps]:
  "frame_view (s\<lparr>mazda := m\<rparr>) = frame_view s" "frame_view (s\<lparr>honda := ho\<rparr>) = frame_view s"
  by (simp_all add: frame_view_def views)

subsection \<open>Introduction rule\<close>

text \<open>The laws of a mode in the form its theory proves them: what the transmit hook leaves
  alone, what the receive hook leaves alone, and what the initialisation leaves alone.\<close>

definition rx_view where
  "rx_view s = (mode_view s, steer_view s)"

definition init_view where
  "init_view s = (mode_view s, samples_view s, controls_allowed s)"

lemma guarded_modeI:
  assumes "\<And>p s. frame_view (snd (tx_hook h p s)) = frame_view s"
    and "\<And>p s. rx_view (rx_hook h p s) = rx_view s"
    and "\<And>p s. samples_ok s \<Longrightarrow> samples_ok (rx_hook h p s)"
    and "\<And>f param s. init_hook h = Some f \<Longrightarrow> init_view (snd (f param s)) = init_view s"
  shows "guarded_mode h"
  using assms by unfold_locales (auto simp: frame_view_eq rx_view_def init_view_def)

text \<open>The steering fields are outside every view the receive side touches.\<close>

lemma rx_view_pcm_cruise_check [frame_simps]:
  "rx_view (pcm_cruise_check c s) = rx_view s"
  "samples_view (pcm_cruise_check c s) = samples_view s"
  by (simp_all add: rx_view_def views pcm_cruise_check_def Let_def)

lemma rx_view_UPDATE_VEHICLE_SPEED [frame_simps]:
  "rx_view (UPDATE_VEHICLE_SPEED v s) = rx_view s"
  by (simp add: rx_view_def views UPDATE_VEHICLE_SPEED_def)

lemma rx_view_speed_mismatch_check [frame_simps]:
  "rx_view (speed_mismatch_check v s) = rx_view s"
  "samples_view (speed_mismatch_check v s) = samples_view s"
  by (simp_all add: rx_view_def views speed_mismatch_check_def Let_def)

lemma samples_ok_UPDATE_VEHICLE_SPEED [frame_simps]:
  "samples_ok s \<Longrightarrow> samples_ok (UPDATE_VEHICLE_SPEED v s)"
  by (simp add: samples_ok_def UPDATE_VEHICLE_SPEED_def sample_ok_update)

end
