(* ===== verification/Mode_Mazda.thy ===== *)
theory Mode_Mazda
  imports Mode_Interface
begin

text \<open>
  The mode of this repository's car, \<^verbatim>\<open>car/opendbc/safety/modes/mazda.h\<close>, in all its builds:
  stock, \<^verbatim>\<open>MAZDA_MADS\<close> (lateral engages on cruise MAIN), \<^verbatim>\<open>MAZDA_MADS_BRAKE\<close>, and the
  board without a harness relay (\<^verbatim>\<open>PANDA_NUCLEO\<close>), with and without alpha longitudinal (the
  runtime parameter).
\<close>

definition MAZDA_ACCEL_IDLE_SENTINEL :: int where "MAZDA_ACCEL_IDLE_SENTINEL = 4094"

abbreviation (input) MAZDA_LKAS :: int where "MAZDA_LKAS \<equiv> 0x243"
abbreviation (input) MAZDA_LKAS_HUD :: int where "MAZDA_LKAS_HUD \<equiv> 0x440"
abbreviation (input) MAZDA_CRZ_INFO :: int where "MAZDA_CRZ_INFO \<equiv> 0x21b"
abbreviation (input) MAZDA_CRZ_CTRL :: int where "MAZDA_CRZ_CTRL \<equiv> 0x21c"
abbreviation (input) MAZDA_CRZ_BTNS :: int where "MAZDA_CRZ_BTNS \<equiv> 0x09d"
abbreviation (input) MAZDA_RADAR_UDS :: int where "MAZDA_RADAR_UDS \<equiv> 0x764"
abbreviation (input) MAZDA_STEER_TORQUE :: int where "MAZDA_STEER_TORQUE \<equiv> 0x240"
abbreviation (input) MAZDA_ENGINE_DATA :: int where "MAZDA_ENGINE_DATA \<equiv> 0x202"
abbreviation (input) MAZDA_PEDALS :: int where "MAZDA_PEDALS \<equiv> 0x165"

text \<open>The radar frames replayed by the host: \<open>MAZDA_RADAR_DISTANCE\<close> to \<open>MAZDA_RADAR_499\<close>.\<close>

definition mazda_radar_addrs :: "int list" where
  "mazda_radar_addrs = [0x361, 0x362, 0x363, 0x364, 0x365, 0x366, 0x499]"

abbreviation (input) MAZDA_MAIN :: int where "MAZDA_MAIN \<equiv> 0"

subsection \<open>Receive hook\<close>

text \<open>One step per message, in the order of the code.\<close>

definition mazda_rx_speed :: "CANPacket \<Rightarrow> safety_state \<Rightarrow> safety_state" where
  "mazda_rx_speed p s =
     (if addr p = MAZDA_ENGINE_DATA then
        let speed = push_bit 8 (byte p 2) OR byte p 3 in s\<lparr>vehicle_moving := speed > 10\<rparr>
      else s)"

definition mazda_rx_torque :: "CANPacket \<Rightarrow> safety_state \<Rightarrow> safety_state" where
  "mazda_rx_torque p s =
     (if addr p = MAZDA_STEER_TORQUE then
        let torque_driver_new = to_s32 (to_u32 (byte p 0 - 127))
        in s\<lparr>torque_driver := update_sample (torque_driver s) torque_driver_new\<rparr>
      else s)"

definition mazda_rx_crz_ctrl :: "build \<Rightarrow> CANPacket \<Rightarrow> safety_state \<Rightarrow> safety_state" where
  "mazda_rx_crz_ctrl B p s =
     (if addr p = MAZDA_CRZ_CTRL \<and> \<not> mazda_longitudinal (mazda s) then
        let s = (if MAZDA_MADS B then
                   let cruise_engaged = (byte p 2 AND 0x2) \<noteq> 0 in
                   s\<lparr>controls_allowed :=
                       (if MAZDA_MADS_BRAKE B then cruise_engaged
                        else cruise_engaged \<and> \<not> brake_pressed s),
                     cruise_engaged_prev := cruise_engaged\<rparr>
                 else
                   let cruise_engaged = (byte p 0 AND 0x8) \<noteq> 0
                   in pcm_cruise_check cruise_engaged s)
        in s\<lparr>acc_main_on := GET_BIT p 17\<rparr>
      else s)"

definition mazda_rx_buttons :: "CANPacket \<Rightarrow> safety_state \<Rightarrow> safety_state" where
  "mazda_rx_buttons p s =
     (if addr p = MAZDA_CRZ_BTNS \<and> mazda_longitudinal (mazda s) then
        let cancel = GET_BIT p 0; res = GET_BIT p 2; set_m = GET_BIT p 5;
            s = (if (res \<and> \<not> mazda_res_prev (mazda s)) \<or> (\<not> set_m \<and> mazda_set_m_prev (mazda s))
                 then s\<lparr>controls_allowed := True\<rparr> else s);
            s = (if cancel then s\<lparr>controls_allowed := False\<rparr> else s)
        in s\<lparr>mazda := (mazda s)\<lparr>mazda_res_prev := res, mazda_set_m_prev := set_m\<rparr>\<rparr>
      else s)"

definition mazda_rx_gas :: "CANPacket \<Rightarrow> safety_state \<Rightarrow> safety_state" where
  "mazda_rx_gas p s =
     (if addr p = MAZDA_ENGINE_DATA
      then s\<lparr>gas_pressed := (byte p 4 \<noteq> 0 \<or> (byte p 5 AND 0xF0) \<noteq> 0)\<rparr> else s)"

definition mazda_rx_pedals :: "CANPacket \<Rightarrow> safety_state \<Rightarrow> safety_state" where
  "mazda_rx_pedals p s =
     (if addr p = MAZDA_PEDALS then
        let brake = (byte p 0 AND 0x10) \<noteq> 0;
            s = (if mazda_longitudinal (mazda s) then
                   let cruise_engaged = GET_BIT p 3;
                       acc_armed = GET_BIT p 2 \<or> cruise_engaged;
                       s = s\<lparr>acc_main_on := acc_armed\<rparr>;
                       s = (if \<not> acc_armed then s\<lparr>controls_allowed := False\<rparr> else s)
                   in s\<lparr>cruise_engaged_prev := cruise_engaged\<rparr>
                 else s)
        in s\<lparr>brake_pressed := brake\<rparr>
      else s)"

definition mazda_rx_hook :: "build \<Rightarrow> CANPacket \<Rightarrow> safety_state \<Rightarrow> safety_state" where
  "mazda_rx_hook B p s =
     (if bus p = MAZDA_MAIN then
        let s = mazda_rx_speed p s;
            s = mazda_rx_torque p s;
            s = mazda_rx_crz_ctrl B p s;
            s = mazda_rx_buttons p s;
            s = mazda_rx_gas p s
        in mazda_rx_pedals p s
      else s)"

subsection \<open>Transmit hook\<close>

definition MAZDA_STEERING_LIMITS :: TorqueSteeringLimits where
  "MAZDA_STEERING_LIMITS = torque_limits_zero\<lparr>max_torque := 2047, max_rate_up := 80,
     max_rate_down := 50, max_rt_delta := 2047, driver_torque_multiplier := 1,
     driver_torque_allowance := 15, control_type := TorqueDriverLimited\<rparr>"

definition MAZDA_LONG_LIMITS :: LongitudinalLimits where
  "MAZDA_LONG_LIMITS = long_limits_zero\<lparr>max_accel := 2000, min_accel := -2000,
     inactive_accel := MAZDA_ACCEL_IDLE_SENTINEL\<rparr>"

text \<open>The signals of the frames: \<open>LKAS_REQUEST\<close> and \<open>ACCEL_CMD\<close>.\<close>

definition mazda_lkas_torque :: "CANPacket \<Rightarrow> int" where
  "mazda_lkas_torque p =
     to_s32 (to_u32 ((push_bit 8 (byte p 0 AND 0x0F) OR byte p 1) - 2048))"

definition mazda_accel_cmd :: "CANPacket \<Rightarrow> int" where
  "mazda_accel_cmd p =
     (push_bit 11 (byte p 2 AND 0x3) OR push_bit 3 (byte p 3) OR drop_bit 5 (byte p 4)) - 4096"

definition mazda_uds_allowed :: "CANPacket \<Rightarrow> bool" where
  "mazda_uds_allowed p =
     (let tester_present = byte p 0 = 0x02 \<and> byte p 1 = 0x3E \<and> byte p 2 = 0x80;
          session_control = byte p 0 = 0x02 \<and> byte p 1 = 0x10 \<and>
            (byte p 2 = 0x01 \<or> byte p 2 = 0x02)
      in tester_present \<or> session_control)"

definition mazda_tx_hook :: "CANPacket \<Rightarrow> safety_state \<Rightarrow> bool \<times> safety_state" where
  "mazda_tx_hook p s =
     (let tx = True in
      if bus p = MAZDA_MAIN then
        let (violation, s) =
              (if addr p = MAZDA_LKAS
               then steer_torque_cmd_checks (mazda_lkas_torque p) (-1) MAZDA_STEERING_LIMITS s
               else (False, s));
            tx = (if violation then False else tx);
            tx = (if mazda_longitudinal (mazda s) \<and> addr p = MAZDA_CRZ_INFO then
                    if longitudinal_accel_checks (mazda_accel_cmd p) MAZDA_LONG_LIMITS s
                    then False else tx
                  else tx);
            tx = (if mazda_longitudinal (mazda s) \<and> addr p = MAZDA_CRZ_CTRL then
                    let cruise_active = GET_BIT p 3
                    in if \<not> controls_allowed s \<and> cruise_active then False else tx
                  else tx);
            tx = (if mazda_longitudinal (mazda s) \<and> addr p = MAZDA_RADAR_UDS then
                    if \<not> mazda_uds_allowed p then False else tx
                  else tx);
            tx = (if addr p = MAZDA_CRZ_BTNS then
                    let cancel_cmd = byte p 0 = 0x1
                    in if \<not> controls_allowed s \<and> \<not> cancel_cmd then False else tx
                  else tx)
        in (tx, s)
      else (tx, s))"

subsection \<open>Initialisation\<close>

text \<open>The transmit tables. Without a harness relay the lane frame \<open>0x440\<close> opts out of static
  blocking, and alpha longitudinal may replay the radar's frames on both segments.\<close>

definition MAZDA_TX_MSGS :: "build \<Rightarrow> CanMsg list" where
  "MAZDA_TX_MSGS B =
     (if PANDA_NUCLEO B then
        [tx_entry MAZDA_LKAS 0 8 True, tx_entry MAZDA_CRZ_BTNS 0 8 False,
         (tx_entry MAZDA_LKAS_HUD 0 8 True)\<lparr>disable_static_blocking := True\<rparr>]
      else
        [tx_entry MAZDA_LKAS 0 8 True, tx_entry MAZDA_CRZ_BTNS 0 8 False,
         tx_entry MAZDA_LKAS_HUD 0 8 True])"

definition MAZDA_LONG_TX_MSGS :: "build \<Rightarrow> CanMsg list" where
  "MAZDA_LONG_TX_MSGS B =
     (if PANDA_NUCLEO B then
        [tx_entry MAZDA_LKAS 0 8 True, tx_entry MAZDA_CRZ_BTNS 0 8 False,
         (tx_entry MAZDA_LKAS_HUD 0 8 True)\<lparr>disable_static_blocking := True\<rparr>,
         tx_entry MAZDA_CRZ_INFO 0 8 False, tx_entry MAZDA_CRZ_CTRL 0 8 False,
         tx_entry MAZDA_RADAR_UDS 0 8 False] @
        map (\<lambda>a. tx_entry a 0 8 False) mazda_radar_addrs @
        [tx_entry MAZDA_CRZ_INFO 2 8 False, tx_entry MAZDA_CRZ_CTRL 2 8 False] @
        map (\<lambda>a. tx_entry a 2 8 False) mazda_radar_addrs
      else
        [tx_entry MAZDA_LKAS 0 8 True, tx_entry MAZDA_CRZ_BTNS 0 8 False,
         tx_entry MAZDA_LKAS_HUD 0 8 True, tx_entry MAZDA_CRZ_INFO 0 8 False,
         tx_entry MAZDA_CRZ_CTRL 0 8 False, tx_entry MAZDA_RADAR_UDS 0 8 False])"

definition mazda_long_rx_checks :: "RxCheck list" where
  "mazda_long_rx_checks =
     [rx_check [no_checks (msg_check MAZDA_CRZ_BTNS 0 8 10)],
      rx_check [no_checks (msg_check MAZDA_STEER_TORQUE 0 8 83)],
      rx_check [no_checks (msg_check MAZDA_ENGINE_DATA 0 8 100)],
      rx_check [no_checks (msg_check MAZDA_PEDALS 0 8 50)]]"

definition mazda_rx_checks :: "RxCheck list" where
  "mazda_rx_checks =
     [rx_check [no_checks (msg_check MAZDA_CRZ_CTRL 0 8 50)],
      rx_check [no_checks (msg_check MAZDA_CRZ_BTNS 0 8 10)],
      rx_check [no_checks (msg_check MAZDA_STEER_TORQUE 0 8 83)],
      rx_check [no_checks (msg_check MAZDA_ENGINE_DATA 0 8 100)],
      rx_check [no_checks (msg_check MAZDA_PEDALS 0 8 50)]]"

definition MAZDA_PARAM_LONGITUDINAL :: u16 where "MAZDA_PARAM_LONGITUDINAL = 1"

definition mazda_init :: "build \<Rightarrow> u16 \<Rightarrow> safety_state \<Rightarrow> safety_config \<times> safety_state" where
  "mazda_init B param s =
     (let long = GET_FLAG param MAZDA_PARAM_LONGITUDINAL;
          s = s\<lparr>acc_main_on := False,
                mazda := (mazda s)\<lparr>mazda_longitudinal := long, mazda_res_prev := False,
                           mazda_set_m_prev := False\<rparr>\<rparr>
      in (if long
          then \<lparr>rx_checks = mazda_long_rx_checks, tx_msgs = MAZDA_LONG_TX_MSGS B,
                disable_forwarding = False\<rparr>
          else \<lparr>rx_checks = mazda_rx_checks, tx_msgs = MAZDA_TX_MSGS B,
                disable_forwarding = False\<rparr>, s))"

definition mazda_hooks :: "build \<Rightarrow> safety_hooks" where
  "mazda_hooks B = \<lparr>init_hook = Some (mazda_init B), rx_hook = mazda_rx_hook B,
     tx_hook = mazda_tx_hook, fwd_hook = None, get_checksum = None, compute_checksum = None,
     get_counter = None, get_quality_flag_valid = None\<rparr>"

subsection \<open>The contract\<close>

lemma mazda_rx_frame:
  "rx_view (mazda_rx_speed p s) = rx_view s"
  "rx_view (mazda_rx_torque p s) = rx_view s"
  "rx_view (mazda_rx_crz_ctrl B p s) = rx_view s"
  "rx_view (mazda_rx_buttons p s) = rx_view s"
  "rx_view (mazda_rx_gas p s) = rx_view s"
  "rx_view (mazda_rx_pedals p s) = rx_view s"
  by (simp_all add: rx_view_def views Let_def mazda_rx_speed_def mazda_rx_torque_def
      mazda_rx_crz_ctrl_def mazda_rx_buttons_def mazda_rx_gas_def mazda_rx_pedals_def
      pcm_cruise_check_def)

lemma mazda_rx_samples:
  "samples_view (mazda_rx_speed p s) = samples_view s"
  "samples_view (mazda_rx_crz_ctrl B p s) = samples_view s"
  "samples_view (mazda_rx_buttons p s) = samples_view s"
  "samples_view (mazda_rx_gas p s) = samples_view s"
  "samples_view (mazda_rx_pedals p s) = samples_view s"
  by (simp_all add: views Let_def mazda_rx_speed_def mazda_rx_crz_ctrl_def
      mazda_rx_buttons_def mazda_rx_gas_def mazda_rx_pedals_def pcm_cruise_check_def)

lemma mazda_rx_torque_samples: "samples_ok s \<Longrightarrow> samples_ok (mazda_rx_torque p s)"
  by (simp add: samples_ok_def mazda_rx_torque_def Let_def sample_ok_update)

lemma mazda_rx_samples_ok: "samples_ok s \<Longrightarrow> samples_ok (mazda_rx_hook B p s)"
  by (simp add: mazda_rx_hook_def Let_def mazda_rx_torque_samples
      mazda_rx_samples [THEN samples_view_ok])

lemma mazda_rx_hook_frame: "rx_view (mazda_rx_hook B p s) = rx_view s"
  by (simp add: mazda_rx_hook_def Let_def mazda_rx_frame)

lemma mazda_tx_frame: "frame_view (snd (mazda_tx_hook p s)) = frame_view s"
  by (simp add: mazda_tx_hook_def Let_def split_beta if_distrib [of frame_view]
      steering_frames)

interpretation mazda_mode: guarded_mode "mazda_hooks B" for B
  by (rule guarded_modeI)
    (auto simp: mazda_hooks_def mazda_tx_frame mazda_rx_samples_ok mazda_rx_hook_frame
      mazda_init_def init_view_def views Let_def)

end
