(* ===== verification/Core_Properties.thy ===== *)
theory Core_Properties
  imports Mode_Interface
begin

text \<open>
  What the mode-independent code of \<^verbatim>\<open>safety.h\<close> guarantees for every table of hooks: the
  receive path, the message checks and their counters, the tick, the mode switch, the
  forwarding decision and the CRC tables.
\<close>

subsection \<open>The relay check\<close>

text \<open>Is the packet one the host sends itself on a bus cut by the harness relay?\<close>

definition relay_msg :: "CANPacket \<Rightarrow> CanMsg list \<Rightarrow> bool" where
  "relay_msg p ms \<longleftrightarrow> (\<exists>m \<in> set ms. check_relay m \<and> m_addr m = addr p \<and> m_bus m = bus p)"

lemma fault_occurred_idem: "f \<noteq> 0 \<Longrightarrow> fault_occurred f (fault_occurred f s) = fault_occurred f s"
  by (simp add: fault_occurred_def Let_def word_ao_absorbs or.assoc)

lemma fault_occurred_relay:
  "(fault_occurred f s)\<lparr>relay_malfunction := b\<rparr> = fault_occurred f (s\<lparr>relay_malfunction := b\<rparr>)"
  by (simp add: fault_occurred_def Let_def)

lemma relay_malfunction_set_idem [simp]:
  "relay_malfunction_set (relay_malfunction_set s) = relay_malfunction_set s"
  unfolding relay_malfunction_set_def fault_occurred_relay
  by (subst fault_occurred_idem) (simp_all add: FAULT_RELAY_MALFUNCTION_def)

lemma relay_malfunction_set_fields [simp]:
  "relay_malfunction (relay_malfunction_set s)"
  "safety_mode_cnt (relay_malfunction_set s) = safety_mode_cnt s"
  "controls_allowed (relay_malfunction_set s) = controls_allowed s"
  "current_hooks (relay_malfunction_set s) = current_hooks s"
  "current_safety_mode (relay_malfunction_set s) = current_safety_mode s"
  "current_safety_config (relay_malfunction_set s) = current_safety_config s"
  "engagement_view (relay_malfunction_set s) = engagement_view s"
  "steer_view (relay_malfunction_set s) = steer_view s"
  "samples_view (relay_malfunction_set s) = samples_view s"
  "regen_braking (relay_malfunction_set s) = regen_braking s"
  by (simp_all add: relay_malfunction_set_def fault_occurred_def Let_def views)

lemma relay_loop_eq:
  "relay_loop p ms s =
     (if safety_mode_cnt s > 1 \<and> relay_msg p ms then relay_malfunction_set s else s)"
proof (induction ms arbitrary: s)
  case Nil
  show ?case by (simp add: relay_msg_def)
next
  case (Cons m ms)
  let ?hit = "check_relay m \<and> m_addr m = addr p \<and> m_bus m = bus p"
  have hit: "relay_msg p (m # ms) = (?hit \<or> relay_msg p ms)" by (auto simp: relay_msg_def)
  have step: "(if check_relay m then stock_ecu_check (m_addr m = addr p \<and> m_bus m = bus p) s else s) =
      (if safety_mode_cnt s > 1 \<and> ?hit then relay_malfunction_set s else s)"
    by (simp add: stock_ecu_check_def)
  show ?case unfolding relay_loop.simps step hit Cons.IH
    by (cases "safety_mode_cnt s > 1"; cases ?hit)
      (simp_all only: relay_malfunction_set_fields
        relay_malfunction_set_idem if_True if_False simp_thms if_cancel)
qed

subsection \<open>The receive path in one equation\<close>

lemma set_rx_checks_fields [simp]:
  "controls_allowed (set_rx_checks cs s) = controls_allowed s"
  "relay_malfunction (set_rx_checks cs s) = relay_malfunction s"
  "safety_mode_cnt (set_rx_checks cs s) = safety_mode_cnt s"
  "current_hooks (set_rx_checks cs s) = current_hooks s"
  "current_safety_mode (set_rx_checks cs s) = current_safety_mode s"
  "tx_msgs (current_safety_config (set_rx_checks cs s)) = tx_msgs (current_safety_config s)"
  "rx_checks (current_safety_config (set_rx_checks cs s)) = cs"
  "engagement_view (set_rx_checks cs s) = engagement_view s"
  "steer_view (set_rx_checks cs s) = steer_view s"
  "samples_view (set_rx_checks cs s) = samples_view s"
  "MICROSECOND_TIMER (set_rx_checks cs s) = MICROSECOND_TIMER s"
  "regen_braking (set_rx_checks cs s) = regen_braking s"
  by (simp_all add: set_rx_checks_def views)

lemma generic_rx_checks_fields [simp]:
  "gas_pressed_prev (generic_rx_checks s) = gas_pressed s"
  "gas_pressed (generic_rx_checks s) = gas_pressed s"
  "brake_pressed (generic_rx_checks s) = brake_pressed s"
  "brake_pressed_prev (generic_rx_checks s) = brake_pressed s"
  "vehicle_moving (generic_rx_checks s) = vehicle_moving s"
  "regen_braking (generic_rx_checks s) = regen_braking s"
  "mode_view (generic_rx_checks s) = mode_view s"
  "steer_view (generic_rx_checks s) = steer_view s"
  "samples_view (generic_rx_checks s) = samples_view s"
  "safety_mode_cnt (generic_rx_checks s) = safety_mode_cnt s"
  "current_hooks (generic_rx_checks s) = current_hooks s"
  "current_safety_config (generic_rx_checks s) = current_safety_config s"
  "relay_malfunction (generic_rx_checks s) = relay_malfunction s"
  by (simp_all add: generic_rx_checks_def Let_def views)

lemma generic_rx_checks_allowed:
  "controls_allowed (generic_rx_checks s) \<longleftrightarrow>
     controls_allowed s \<and>
     \<not> (brake_pressed s \<and> (\<not> brake_pressed_prev s \<or> vehicle_moving s)) \<and>
     \<not> (regen_braking s \<and> (\<not> regen_braking_prev s \<or> vehicle_moving s)) \<and>
     \<not> (steering_disengage s \<and> \<not> steering_disengage_prev s)"
  by (simp add: generic_rx_checks_def Let_def)

definition rx_core :: "(hooks_ptr \<Rightarrow> safety_hooks) \<Rightarrow> CANPacket \<Rightarrow> safety_state \<Rightarrow> safety_state" where
  "rx_core H p s0 =
     (let (valid, s) = rx_msg_safety_check (H (current_hooks s0)) p s0;
          (idx, cs) = get_addr_check_index p (rx_checks (current_safety_config s));
          s = set_rx_checks cs s
      in generic_rx_checks
           (if valid \<and> idx \<noteq> None then rx_hook (H (current_hooks s)) p s else s))"

lemma safety_rx_hook_core:
  "safety_rx_hook H p s =
     (fst (rx_msg_safety_check (H (current_hooks s)) p s),
      let t = relay_loop p (tx_msgs (current_safety_config (rx_core H p s))) (rx_core H p s)
      in if controls_allowed t \<and> \<not> controls_allowed s
         then t\<lparr>heartbeat_engaged_mismatches := 0\<rparr> else t)"
  by (simp add: safety_rx_hook_def rx_core_def Let_def split_beta)

lemma heartbeat_update:
  "engagement_view (t\<lparr>heartbeat_engaged_mismatches := n\<rparr>) = engagement_view t"
  "steer_view (t\<lparr>heartbeat_engaged_mismatches := n\<rparr>) = steer_view t"
  "samples_view (t\<lparr>heartbeat_engaged_mismatches := n\<rparr>) = samples_view t"
  by (simp_all add: views)

lemma safety_rx_hook_fields:
  "controls_allowed (snd (safety_rx_hook H p s)) = controls_allowed (rx_core H p s)"
  "engagement_view (snd (safety_rx_hook H p s)) = engagement_view (rx_core H p s)"
  "steer_view (snd (safety_rx_hook H p s)) = steer_view (rx_core H p s)"
  "samples_view (snd (safety_rx_hook H p s)) = samples_view (rx_core H p s)"
  "current_hooks (snd (safety_rx_hook H p s)) = current_hooks (rx_core H p s)"
  "current_safety_mode (snd (safety_rx_hook H p s)) = current_safety_mode (rx_core H p s)"
  "current_safety_config (snd (safety_rx_hook H p s)) = current_safety_config (rx_core H p s)"
  "safety_mode_cnt (snd (safety_rx_hook H p s)) = safety_mode_cnt (rx_core H p s)"
  "regen_braking (snd (safety_rx_hook H p s)) = regen_braking (rx_core H p s)"
  by (simp_all add: safety_rx_hook_core Let_def relay_loop_eq heartbeat_update)

text \<open>C34: Whatever mode runs and whatever frame arrives, no state the receive path produces has
  controls allowed while the vehicle moves with the brake or the regenerative paddle pressed;
  and the remembered pedal states are the current ones, so that the next edge is detected.\<close>

theorem rx_brake_disengages:
  "\<not> (controls_allowed (snd (safety_rx_hook H p s)) \<and>
       vehicle_moving (snd (safety_rx_hook H p s)) \<and>
       (brake_pressed (snd (safety_rx_hook H p s)) \<or> regen_braking (snd (safety_rx_hook H p s)))) \<and>
   brake_pressed_prev (snd (safety_rx_hook H p s)) = brake_pressed (snd (safety_rx_hook H p s)) \<and>
   gas_pressed_prev (snd (safety_rx_hook H p s)) = gas_pressed (snd (safety_rx_hook H p s))"
proof -
  obtain t where t: "rx_core H p s = generic_rx_checks t"
    by (simp add: rx_core_def Let_def split_beta)
  have "vehicle_moving (snd (safety_rx_hook H p s)) = vehicle_moving t"
    "brake_pressed (snd (safety_rx_hook H p s)) = brake_pressed t"
    "brake_pressed_prev (snd (safety_rx_hook H p s)) = brake_pressed t"
    "gas_pressed_prev (snd (safety_rx_hook H p s)) = gas_pressed t"
    "gas_pressed (snd (safety_rx_hook H p s)) = gas_pressed t"
    using safety_rx_hook_fields(2) [of H p s] by (simp_all add: t engagement_view_def)
  then show ?thesis
    by (auto simp: safety_rx_hook_fields t generic_rx_checks_allowed)
qed

subsection \<open>Which check a message belongs to\<close>

text \<open>What \<open>get_addr_check_index\<close> reads of an entry.\<close>

definition check_key :: "RxCheck \<Rightarrow> CanMsgCheck list \<times> nat \<times> bool" where
  "check_key chk = (msgs chk, index (status chk), msg_seen (status chk))"

lemma see_msg_stable: "check_key c = check_key (see_msg p d) \<Longrightarrow> see_msg p c = c"
  by (auto simp: see_msg_def check_key_def split: option.splits if_splits)

lemma check_key_current: "check_key c = check_key d \<Longrightarrow> current_msg c = current_msg d"
  by (simp add: check_key_def current_msg_def)

lemma check_key_entry [simp]: "check_key (check_entry h p ts c) = check_key c"
  by (auto simp: check_key_def check_entry_def Let_def update_addr_timestamp_def checksum_check_def
      counter_check_def quality_check_def update_counter_def split: option.splits)

lemma addr_check_loop_length: "length (snd (addr_check_loop p k l)) = length l"
  by (induction l arbitrary: k) (simp_all add: Let_def split_beta)

lemma addr_check_loop_found:
  "addr_check_loop p k l = (Some i, l') \<Longrightarrow>
     k \<le> i \<and> i < k + length l' \<and> msg_matches p (current_msg (l' ! (i - k)))"
proof (induction l arbitrary: k l')
  case Nil
  then show ?case by simp
next
  case (Cons c l)
  show ?case
  proof (cases "msg_seen (status (see_msg p c)) \<and> msg_matches p (current_msg (see_msg p c))")
    case True
    then show ?thesis using Cons.prems by (auto simp: Let_def)
  next
    case False
    then obtain m where m: "addr_check_loop p (Suc k) l = (Some i, m)" "l' = see_msg p c # m"
      using Cons.prems by (auto simp: Let_def split_beta prod_eq_iff)
    from Cons.IH [OF m(1)] m(2) show ?thesis by (auto simp: nth_Cons' le_Suc_eq)
  qed
qed

text \<open>Looking the same message up again, after the status of the entries changed, finds the
  same entry and changes nothing.\<close>

lemma addr_check_loop_stable:
  "addr_check_loop p k l = (r, l') \<Longrightarrow> map check_key l'' = map check_key l' \<Longrightarrow>
     addr_check_loop p k l'' = (r, l'')"
proof (induction l arbitrary: k r l' l'')
  case Nil
  then show ?case by simp
next
  case (Cons c l)
  show ?case
  proof (cases "msg_seen (status (see_msg p c)) \<and> msg_matches p (current_msg (see_msg p c))")
    case True
    then have r: "r = Some k" and l': "l' = see_msg p c # l" using Cons.prems(1) by (auto simp: Let_def)
    then obtain d m where d: "l'' = d # m" "check_key d = check_key (see_msg p c)"
      using Cons.prems(2) by auto
    then have "see_msg p d = d" "current_msg d = current_msg (see_msg p c)"
      "msg_seen (status d) = msg_seen (status (see_msg p c))"
      by (auto intro: see_msg_stable check_key_current) (auto simp: check_key_def)
    with True r d show ?thesis by (simp add: Let_def)
  next
    case False
    then obtain m where m: "addr_check_loop p (Suc k) l = (r, m)" "l' = see_msg p c # m"
      using Cons.prems(1) by (auto simp: Let_def split_beta prod_eq_iff)
    then obtain d n where d: "l'' = d # n" "check_key d = check_key (see_msg p c)"
        "map check_key n = map check_key m"
      using Cons.prems(2) by auto
    then have "see_msg p d = d" "current_msg d = current_msg (see_msg p c)"
      "msg_seen (status d) = msg_seen (status (see_msg p c))"
      by (auto intro: see_msg_stable check_key_current) (auto simp: check_key_def)
    with False Cons.IH [OF m(1) d(3)] d show ?thesis by (auto simp: Let_def)
  qed
qed

text \<open>The result of the message check, and the state it leaves, in closed form.\<close>

definition checks_after :: "safety_hooks \<Rightarrow> CANPacket \<Rightarrow> safety_state \<Rightarrow> RxCheck list" where
  "checks_after h p s =
     (let (idx, cs) = get_addr_check_index p (rx_checks (current_safety_config s))
      in case idx of None \<Rightarrow> cs
         | Some i \<Rightarrow> cs[i := check_entry h p (MICROSECOND_TIMER s) (cs ! i)])"

definition matched :: "CANPacket \<Rightarrow> safety_state \<Rightarrow> nat option" where
  "matched p s = fst (get_addr_check_index p (rx_checks (current_safety_config s)))"

lemma rx_msg_safety_check_eq:
  "rx_msg_safety_check h p s =
     is_msg_valid (checks_after h p s) (matched p s) (set_rx_checks (checks_after h p s) s)"
  by (simp add: rx_msg_safety_check_def checks_after_def matched_def Let_def split_beta)

lemma checks_after_stable:
  "get_addr_check_index p (checks_after h p s) = (matched p s, checks_after h p s)"
proof -
  obtain r l' where l: "addr_check_loop p 0 (rx_checks (current_safety_config s)) = (r, l')"
    by (cases "addr_check_loop p 0 (rx_checks (current_safety_config s))")
  then have m: "matched p s = r" by (simp add: matched_def get_addr_check_index_def)
  have "map check_key (checks_after h p s) = map check_key l'"
  proof (cases r)
    case None
    with l show ?thesis by (simp add: checks_after_def get_addr_check_index_def)
  next
    case (Some i)
    have "check_key ((l'[i := check_entry h p (MICROSECOND_TIMER s) (l' ! i)]) ! j) = check_key (l' ! j)"
      if "j < length l'" for j
      using that by (cases "i = j") auto
    with Some l show ?thesis
      by (auto simp: checks_after_def get_addr_check_index_def intro!: nth_equalityI)
  qed
  from addr_check_loop_stable [OF l this] m show ?thesis by (simp add: get_addr_check_index_def)
qed

lemma matched_entry:
  assumes "matched p s = Some i"
  shows "i < length (checks_after h p s)"
    and "msg_matches p (current_msg (checks_after h p s ! i))"
proof -
  have "addr_check_loop p 0 (checks_after h p s) = (Some i, checks_after h p s)"
    using checks_after_stable [of p h s] assms by (simp add: get_addr_check_index_def)
  from addr_check_loop_found [OF this]
  show "i < length (checks_after h p s)" "msg_matches p (current_msg (checks_after h p s ! i))"
    by simp_all
qed

lemma is_msg_valid_fst:
  "fst (is_msg_valid cs idx s) = (case idx of None \<Rightarrow> True | Some i \<Rightarrow> status_valid (status (cs ! i)))"
  by (simp add: is_msg_valid_def split: option.splits)

lemma is_msg_valid_snd:
  "snd (is_msg_valid cs idx s) =
     (if fst (is_msg_valid cs idx s) then s else s\<lparr>controls_allowed := False\<rparr>)"
  by (simp add: is_msg_valid_def split: option.splits)

lemma set_rx_checks_twice [simp]:
  "set_rx_checks cs (set_rx_checks ds s) = set_rx_checks cs s"
  "set_rx_checks cs ((set_rx_checks ds s)\<lparr>controls_allowed := b\<rparr>) =
     (set_rx_checks cs s)\<lparr>controls_allowed := b\<rparr>"
  by (simp_all add: set_rx_checks_def)

text \<open>The receive path, with the double lookup resolved.\<close>

lemma rx_core_eq:
  "rx_core H p s =
     (let h = H (current_hooks s); cs = checks_after h p s;
          valid = fst (rx_msg_safety_check h p s);
          t = (if valid then set_rx_checks cs s
               else (set_rx_checks cs s)\<lparr>controls_allowed := False\<rparr>)
      in generic_rx_checks (if valid \<and> matched p s \<noteq> None then rx_hook h p t else t))"
proof -
  let ?h = "H (current_hooks s)"
  let ?t = "snd (rx_msg_safety_check ?h p s)"
  have t: "?t = (if fst (rx_msg_safety_check ?h p s) then set_rx_checks (checks_after ?h p s) s
               else (set_rx_checks (checks_after ?h p s) s)\<lparr>controls_allowed := False\<rparr>)"
    by (simp add: rx_msg_safety_check_eq is_msg_valid_snd)
  then have "rx_checks (current_safety_config ?t) = checks_after ?h p s"
    "current_hooks ?t = current_hooks s"
    by simp_all
  with checks_after_stable [of p ?h s] t show ?thesis
    by (simp add: rx_core_def Let_def split_beta)
qed

subsection \<open>Message integrity\<close>

lemma safety_rx_hook_valid:
  "fst (safety_rx_hook H p s) =
     (case matched p s of None \<Rightarrow> True
      | Some i \<Rightarrow> status_valid (status (checks_after (H (current_hooks s)) p s ! i)))"
  by (simp add: safety_rx_hook_core rx_msg_safety_check_eq is_msg_valid_fst)

lemma checks_after_entry:
  assumes "matched p s = Some i"
  obtains e where "checks_after h p s ! i = check_entry h p (MICROSECOND_TIMER s) e"
    "current_msg (checks_after h p s ! i) = current_msg e"
proof -
  obtain cs where g: "get_addr_check_index p (rx_checks (current_safety_config s)) = (Some i, cs)"
    using assms by (cases "get_addr_check_index p (rx_checks (current_safety_config s))")
      (auto simp: matched_def)
  then have c: "checks_after h p s = cs[i := check_entry h p (MICROSECOND_TIMER s) (cs ! i)]"
    by (simp add: checks_after_def)
  have i: "i < length cs"
    using matched_entry(1) [OF assms, of h] by (simp add: c)
  with c have e: "checks_after h p s ! i = check_entry h p (MICROSECOND_TIMER s) (cs ! i)"
    by simp
  then have "current_msg (checks_after h p s ! i) = current_msg (cs ! i)"
    by (simp only:) (intro check_key_current check_key_entry)
  with e show ?thesis by (rule that)
qed

lemma check_entry_valid:
  assumes "status_valid (status (check_entry h p ts e))"
  shows "ignore_checksum (current_msg e) \<or>
           (\<exists>get compute. get_checksum h = Some get \<and> compute_checksum h = Some compute \<and>
              compute p = get p)"
    and "ignore_quality_flag (current_msg e) \<or>
           (\<exists>valid. get_quality_flag_valid h = Some valid \<and> valid p)"
    and "ignore_counter (current_msg e) \<or> (get_counter h \<noteq> None \<and> 0 < max_counter (current_msg e))"
  using assms
  by (auto simp: check_entry_def status_valid_def Let_def update_addr_timestamp_def checksum_check_def
      counter_check_def quality_check_def update_counter_def split: option.splits if_splits)



text \<open>A message that fails its checksum, counter or quality check takes the controls away
  and changes nothing else the mode knows about the car: the pedal states, the speed, the
  sample windows and the steering history are those of before.\<close>

lemma rx_invalid_ignored:
  assumes "\<not> fst (safety_rx_hook H p s)"
  shows "\<not> controls_allowed (snd (safety_rx_hook H p s)) \<and>
    samples_view (snd (safety_rx_hook H p s)) = samples_view s \<and>
    steer_view (snd (safety_rx_hook H p s)) = steer_view s \<and>
    gas_pressed (snd (safety_rx_hook H p s)) = gas_pressed s \<and>
    brake_pressed (snd (safety_rx_hook H p s)) = brake_pressed s \<and>
    vehicle_moving (snd (safety_rx_hook H p s)) = vehicle_moving s \<and>
    acc_main_on (snd (safety_rx_hook H p s)) = acc_main_on s \<and>
    cruise_engaged_prev (snd (safety_rx_hook H p s)) = cruise_engaged_prev s"
proof -
  let ?t = "(set_rx_checks (checks_after (H (current_hooks s)) p s) s)\<lparr>controls_allowed := False\<rparr>"
  have core: "rx_core H p s = generic_rx_checks ?t"
    using assms by (simp add: rx_core_eq Let_def safety_rx_hook_core)
  have e: "engagement_view (snd (safety_rx_hook H p s)) = engagement_view (generic_rx_checks ?t)"
    by (simp add: safety_rx_hook_fields core)
  have fields: "acc_main_on (generic_rx_checks ?t) = acc_main_on s"
    "cruise_engaged_prev (generic_rx_checks ?t) = cruise_engaged_prev s"
    "gas_pressed (generic_rx_checks ?t) = gas_pressed s"
    "brake_pressed (generic_rx_checks ?t) = brake_pressed s"
    "vehicle_moving (generic_rx_checks ?t) = vehicle_moving s"
    "\<not> controls_allowed (generic_rx_checks ?t)"
    "samples_view (generic_rx_checks ?t) = samples_view s"
    "steer_view (generic_rx_checks ?t) = steer_view s"
    by (simp_all add: generic_rx_checks_def set_rx_checks_def Let_def views)
  show ?thesis using e fields
    by (simp add: safety_rx_hook_fields(1,3,4) core) (simp add: engagement_view_def)
qed

lemma rx_invalid_ignored_witness:
  "\<exists>H p s. controls_allowed s \<and> \<not> fst (safety_rx_hook H p s) \<and>
     \<not> controls_allowed (snd (safety_rx_hook H p s))"
proof -
  define p where "p = \<lparr>fd = False, bus = 0, data_len_code = 8, rejected = False, returned = False,
    extended = False, addr = 0x123, checksum = 0, data = [0, 0, 0, 0, 0, 0, 0, 9]\<rparr>"
  define h where "h = \<lparr>init_hook = None, rx_hook = (\<lambda>_ s. s), tx_hook = (\<lambda>_ s. (False, s)),
    fwd_hook = None, get_checksum = Some (\<lambda>p. ucast (data p ! 7)),
    compute_checksum = Some (\<lambda>_. 7), get_counter = None, get_quality_flag_valid = None\<rparr>"
  define s where "s = (set_rx_checks
    [rx_check [(msg_check 0x123 0 8 50)\<lparr>ignore_counter := True, ignore_quality_flag := True\<rparr>]]
    boot_state)\<lparr>controls_allowed := True\<rparr>"
  have 1: "\<not> fst (safety_rx_hook (\<lambda>_. h) p s)" unfolding p_def h_def s_def by code_simp
  have 2: "controls_allowed s" by (simp add: s_def)
  from rx_invalid_ignored [OF 1] 1 2 show ?thesis by blast
qed

subsection \<open>Counters\<close>

lemma update_counter_wrong:
  "wrong_counters (update_counter m c st) =
     CLAMP (wrong_counters st + (if (unat (last_counter st) + 1) mod (unat m + 1) = unat c then -1 else 1)) 0 5"
  "last_counter (update_counter m c st) = c"
  by (simp_all add: update_counter_def Let_def MAX_WRONG_COUNTERS_def)

text \<open>The counters of a run of messages that never continue the sequence.\<close>

fun all_wrong :: "u8 \<Rightarrow> u8 \<Rightarrow> u8 list \<Rightarrow> bool" where
  "all_wrong m l [] = True"
| "all_wrong m l (c # cs) = ((unat l + 1) mod (unat m + 1) \<noteq> unat c \<and> all_wrong m c cs)"

lemma all_wrong_run:
  "all_wrong m (last_counter st) cs \<Longrightarrow> 0 \<le> wrong_counters st \<Longrightarrow> wrong_counters st \<le> 5 \<Longrightarrow>
     wrong_counters (fold (update_counter m) cs st) = min 5 (wrong_counters st + int (length cs))"
proof (induction cs arbitrary: st)
  case Nil
  then show ?case by simp
next
  case (Cons c cs)
  then have "wrong_counters (update_counter m c st) = min 5 (wrong_counters st + 1)"
    by (simp add: update_counter_wrong CLAMP_def)
  with Cons.IH [of "update_counter m c st"] Cons.prems show ?case
    by (simp add: update_counter_wrong(2))
qed

text \<open>From any in-range state, five messages in a row whose counter does not continue the
  sequence make the entry invalid (so the fifth takes the controls away), however lucky the
  history was; and one that continues it makes a counter-invalid entry count down again.\<close>

lemma counter_run_invalid:
  assumes "all_wrong m (last_counter st) cs" and "5 \<le> length cs"
    and "0 \<le> wrong_counters st" and "wrong_counters st \<le> MAX_WRONG_COUNTERS"
  shows "\<not> status_valid (fold (update_counter m) cs st) \<and>
    wrong_counters (update_counter m
      (of_nat ((unat (last_counter (fold (update_counter m) cs st)) + 1) mod (unat m + 1)))
      (fold (update_counter m) cs st)) = MAX_WRONG_COUNTERS - 1"
proof -
  let ?st = "fold (update_counter m) cs st"
  have w: "wrong_counters ?st = 5"
    using all_wrong_run [OF assms(1,3)] assms(2-4) by (simp add: MAX_WRONG_COUNTERS_def)
  have "(unat (last_counter ?st) + 1) mod (unat m + 1) < unat m + 1" by simp
  moreover have "unat m < 2 ^ 8" using unsigned_less [of m] by simp
  ultimately have "(unat (last_counter ?st) + 1) mod (unat m + 1) < 2 ^ 8" by linarith
  then have "unat (of_nat ((unat (last_counter ?st) + 1) mod (unat m + 1)) :: u8) =
      (unat (last_counter ?st) + 1) mod (unat m + 1)"
    by (simp add: unat_of_nat take_bit_nat_eq_self)
  with w show ?thesis
    by (simp add: status_valid_def MAX_WRONG_COUNTERS_def update_counter_wrong(1) CLAMP_def)
qed

lemma counter_run_invalid_witness:
  "\<not> status_valid (fold (update_counter 3) [0, 0, 0, 0, 0] rx_status_zero) \<and>
    wrong_counters (update_counter 3
      (of_nat ((unat (last_counter (fold (update_counter 3) [0, 0, 0, 0, 0] rx_status_zero)) + 1)
         mod (unat (3::u8) + 1)))
      (fold (update_counter 3) [0, 0, 0, 0, 0] rx_status_zero)) = MAX_WRONG_COUNTERS - 1"
  by (rule counter_run_invalid) (simp_all add: rx_status_zero_def MAX_WRONG_COUNTERS_def)

subsection \<open>The tick\<close>

text \<open>Does the tick at time \<open>ts\<close> find something wrong with an entry: its message is late, or its
  last one was invalid.\<close>

definition entry_bad :: "u32 \<Rightarrow> RxCheck \<Rightarrow> bool" where
  "entry_bad ts chk \<longleftrightarrow>
     fint (uint (get_ts_elapsed ts (last_timestamp (status chk)))) > lag_threshold (current_msg chk) \<or>
     \<not> status_valid (status chk)"

lemma tick_entry_fields [simp]:
  "current_msg (tick_entry ts chk) = current_msg chk"
  "status_valid (status (tick_entry ts chk)) = status_valid (status chk)"
  "lagging (status (tick_entry ts chk)) =
     (fint (uint (get_ts_elapsed ts (last_timestamp (status chk)))) > lag_threshold (current_msg chk))"
  by (simp_all add: tick_entry_def current_msg_def status_valid_def Let_def)

lemma tick_loop_eq:
  "tick_loop ts l v s =
     (map (tick_entry ts) l, v \<or> (\<exists>c \<in> set l. entry_bad ts c),
      if \<exists>c \<in> set l. entry_bad ts c then s\<lparr>controls_allowed := False\<rparr> else s)"
proof (induction l arbitrary: v s)
  case Nil
  show ?case by simp
next
  case (Cons c l)
  have step: "tick_loop ts (c # l) v s =
      (let r = tick_loop ts l (v \<or> entry_bad ts c)
                 (if entry_bad ts c then s\<lparr>controls_allowed := False\<rparr> else s)
       in (tick_entry ts c # fst r, snd r))"
    by (auto simp: Let_def split_beta entry_bad_def is_msg_valid_def)
  show ?case by (simp only: step Cons.IH) (auto simp: Let_def)
qed

lemma safety_tick_eq:
  "safety_tick s =
     (let cs = rx_checks (current_safety_config s); bad = \<exists>c \<in> set cs. entry_bad (MICROSECOND_TIMER s) c
      in (set_rx_checks (map (tick_entry (MICROSECOND_TIMER s)) cs)
            (if bad then s\<lparr>controls_allowed := False\<rparr> else s))\<lparr>safety_rx_checks_invalid := bad\<rparr>)"
  by (simp add: safety_tick_def tick_loop_eq Let_def)

text \<open>For every message rate the modes use, ten missed messages are at most a second, and the
  threshold is exactly one second.\<close>

lemma lag_threshold_freq:
  "list_all (\<lambda>f. lag_threshold (msg_check 0 0 0 f) = 1000000) [10, 20, 25, 30, 32, 33, 40, 42, 50, 80, 83, 100, 200]"
  by code_simp

lemma lag_threshold_1s:
  assumes "frequency c \<in> {10, 20, 25, 30, 32, 33, 40, 42, 50, 80, 83, 100, 200}"
  shows "lag_threshold c = 1000000"
proof -
  have "lag_threshold c = lag_threshold (msg_check 0 0 0 (frequency c))"
    by (simp add: lag_threshold_def msg_check_def)
  with lag_threshold_freq assms show ?thesis by auto
qed

text \<open>The tick keeps the controls exactly when every check of the mode is on time and valid,
  and reports that to the firmware; it never raises them, and changes no other state the checks
  read. For the message rates of 10 Hz and more, on time means seen within the last second.\<close>

lemma tick_exact:
  "controls_allowed (safety_tick s) =
     (controls_allowed s \<and> \<not> safety_rx_checks_invalid (safety_tick s)) \<and>
   safety_rx_checks_invalid (safety_tick s) =
     (\<exists>c \<in> set (rx_checks (current_safety_config s)). entry_bad (MICROSECOND_TIMER s) c) \<and>
   steer_view (safety_tick s) = steer_view s \<and> samples_view (safety_tick s) = samples_view s \<and>
   relay_malfunction (safety_tick s) = relay_malfunction s \<and>
   tx_msgs (current_safety_config (safety_tick s)) = tx_msgs (current_safety_config s) \<and>
   (\<forall>c. frequency (current_msg c) \<in> {10, 20, 25, 30, 32, 33, 40, 42, 50, 80, 83, 100, 200} \<longrightarrow>
      entry_bad (MICROSECOND_TIMER s) c =
        (fint (uint (get_ts_elapsed (MICROSECOND_TIMER s) (last_timestamp (status c)))) > 1000000 \<or>
         \<not> status_valid (status c)))"
  using lag_threshold_1s [of "current_msg c" for c]
  by (auto simp: safety_tick_eq Let_def entry_bad_def) (simp_all add: set_rx_checks_def views)

lemma tick_exact_witness:
  "\<exists>c. frequency (current_msg c) = 50 \<and> entry_bad 1000001 c \<and>
     fint (uint (get_ts_elapsed 1000001 (last_timestamp (status c)))) > 1000000"
proof -
  define c where "c = rx_check [msg_check 0x165 0 8 50] \<lparr>status :=
    rx_status_zero\<lparr>valid_checksum := True, valid_quality_flag := True\<rparr>\<rparr>"
  define s where "s = boot_state\<lparr>MICROSECOND_TIMER := 1000001\<rparr>"
  have f: "frequency (current_msg c) = 50" unfolding c_def by code_simp
  have v: "status_valid (status c)" unfolding c_def by code_simp
  have late: "fint (uint (get_ts_elapsed 1000001 (last_timestamp (status c)))) > 1000000"
    unfolding c_def by code_simp
  have t: "MICROSECOND_TIMER s = 1000001" by (simp add: s_def)
  from tick_exact [of s] f v late show ?thesis unfolding t by auto
qed

subsection \<open>Switching the mode\<close>

lemma select_hooks_unknown:
  "mode \<notin> fst ` set reg \<Longrightarrow> select_hooks reg mode param st s = (st, s)"
  by (induction reg mode param st s rule: select_hooks.induct) auto

lemma select_hooks_known:
  "distinct (map fst reg) \<Longrightarrow> (mode, h) \<in> set reg \<Longrightarrow>
     select_hooks reg mode param st s =
       (0, s\<lparr>current_hooks := h, current_safety_mode := mode, current_safety_param := param\<rparr>)"
proof (induction reg mode param st s rule: select_hooks.induct)
  case (1 mode param st s)
  then show ?case by (simp only: list.set empty_iff)
next
  case (2 hid hooks rest mode param st s)
  show ?case
  proof (cases "hid = mode")
    case True
    with 2(3,4) have "h = hooks" "mode \<notin> fst ` set rest" by force+
    with True show ?thesis by (simp add: select_hooks_unknown)
  next
    case False
    then have "distinct (map fst rest)" "(mode, h) \<in> set rest" using 2(3,4) by auto
    with 2(2) [OF False] False show ?thesis by simp
  qed
qed

lemma reset_state_fields [simp]:
  "controls_allowed (reset_state s) = False"
  "relay_malfunction (reset_state s) = False"
  "current_hooks (reset_state s) = current_hooks s"
  "current_safety_mode (reset_state s) = current_safety_mode s"
  "current_safety_config (reset_state s) = config_zero"
  "safety_mode_cnt (reset_state s) = 0"
  "MICROSECOND_TIMER (reset_state s) = MICROSECOND_TIMER s"
  "desired_torque_last (reset_state s) = 0"
  "rt_torque_last (reset_state s) = 0"
  "desired_angle_last (reset_state s) = 0"
  by (simp_all add: reset_state_def relay_malfunction_reset_def fault_recovered_def)

lemma reset_state_samples_ok: "samples_ok (reset_state s)"
  by (simp add: reset_state_def relay_malfunction_reset_def fault_recovered_def samples_ok_def
      sample_ok_def MAX_SAMPLE_VALS_def)

lemma reset_state_steer:
  "steer_view (reset_state s) = (0, 0, 0, 0, 0, 0, 0, 0, 0)"
  by (simp add: reset_state_def relay_malfunction_reset_def fault_recovered_def steer_view_def)

lemma set_safety_hooks_unknown:
  "mode \<notin> fst ` set reg \<Longrightarrow> set_safety_hooks H reg mode param s = (-1, reset_state s)"
  by (simp add: set_safety_hooks_def Let_def select_hooks_unknown split: option.splits)

text \<open>The state a mode's initialisation starts from.\<close>

definition mode_start :: "hooks_ptr \<Rightarrow> u16 \<Rightarrow> u16 \<Rightarrow> safety_state \<Rightarrow> safety_state" where
  "mode_start h mode param s = (reset_state s)\<lparr>current_hooks := h, current_safety_mode := mode,
     current_safety_param := param\<rparr>"

lemma mode_start_fields [simp]:
  "controls_allowed (mode_start h mode param s) = False"
  "relay_malfunction (mode_start h mode param s) = False"
  "current_hooks (mode_start h mode param s) = h"
  "current_safety_mode (mode_start h mode param s) = mode"
  "safety_mode_cnt (mode_start h mode param s) = 0"
  "samples_view (mode_start h mode param s) = samples_view (reset_state s)"
  "steer_view (mode_start h mode param s) = steer_view (reset_state s)"
  "current_safety_config (mode_start h mode param s) = config_zero"
  by (simp_all add: mode_start_def views)

lemma set_safety_hooks_known:
  assumes "distinct (map fst reg)" and "(mode, h) \<in> set reg"
  shows "set_safety_hooks H reg mode param s =
    (0, case init_hook (H h) of None \<Rightarrow> mode_start h mode param s
        | Some f \<Rightarrow> (let r = f param (mode_start h mode param s)
             in (snd r)\<lparr>current_safety_config :=
                  (fst r)\<lparr>rx_checks := map clear_status (rx_checks (fst r))\<rparr>\<rparr>))"
  by (simp add: set_safety_hooks_def select_hooks_known [OF assms] mode_start_def split_beta Let_def
      split: option.splits)

text \<open>Asking for a mode the build does not have reports failure, takes the controls away
  and empties the message tables, but leaves the previous mode's hooks in place. From then on
  nothing is transmitted unless the previous mode was one of the two that skip the transmit
  table (diagnostics and all-output), so the caller has to switch to a safe mode itself.\<close>

lemma unknown_mode_silent:
  assumes "mode \<notin> fst ` set reg"
  shows "fst (set_safety_hooks H reg mode param s) = -1 \<and>
    \<not> controls_allowed (snd (set_safety_hooks H reg mode param s)) \<and>
    current_hooks (snd (set_safety_hooks H reg mode param s)) = current_hooks s \<and>
    (fst (safety_tx_hook H p (snd (set_safety_hooks H reg mode param s))) \<longrightarrow>
       current_safety_mode s = SAFETY_ALLOUTPUT \<or> current_safety_mode s = SAFETY_ELM327) \<and>
    (current_safety_mode s = SAFETY_ALLOUTPUT \<longrightarrow>
       tx_hook (H (current_hooks s)) p (reset_state s) = (True, reset_state s) \<longrightarrow>
       fst (safety_tx_hook H p (snd (set_safety_hooks H reg mode param s))))"
  unfolding set_safety_hooks_unknown [OF assms]
  by (simp add: safety_tx_hook_def config_zero_def Let_def)

lemma unknown_mode_silent_witness:
  "fst (set_safety_hooks (\<lambda>_. undefined) [(19, nooutput_hooks_ptr)] 99 0 boot_state) = -1"
  using unknown_mode_silent [of 99 "[(19, nooutput_hooks_ptr)]" "\<lambda>_. undefined" 0 boot_state] by simp

subsection \<open>Forwarding\<close>

text \<open>Forwarding only ever goes between buses 0 and 2, and not at all after a relay
  malfunction, while the mode disables it, when the mode's own hook blocks the frame, or when
  the host transmits that address itself on the other side (unless the table opts out).\<close>

lemma fwd_exact:
  "safety_fwd_hook H b a s =
     (if (b = 0 \<or> b = 2) \<and> \<not> relay_malfunction s \<and>
         \<not> disable_forwarding (current_safety_config s) \<and>
         \<not> (\<exists>m \<in> set (tx_msgs (current_safety_config s)). check_relay m \<and>
              \<not> disable_static_blocking m \<and> m_addr m = a \<and> m_bus m = 2 - b) \<and>
         (case fwd_hook (H (current_hooks s)) of None \<Rightarrow> True | Some f \<Rightarrow> \<not> f b a s)
      then 2 - b else -1)"
  by (auto simp: safety_fwd_hook_def get_fwd_bus_def static_block_def list_ex_iff to_u32_def Let_def
      split: option.splits)

subsection \<open>CRC tables\<close>

lemma bit_7: "(w AND 0x80 \<noteq> 0) = bit w 7" for w :: u8
proof -
  have "(0x80::u8) = push_bit 7 1" by simp
  then show ?thesis by (metis and_exp_eq_0_iff_not_bit push_bit_of_1)
qed

lemma crc8_step_xor: "crc8_step q (x XOR y) = crc8_step q x XOR crc8_step q y"
  by (auto simp: crc8_step_def bit_7 bit_xor_iff push_bit_xor xor.assoc xor.left_commute xor.commute)

lemma crc8_steps_xor: "(crc8_step q ^^ n) (x XOR y) = (crc8_step q ^^ n) x XOR (crc8_step q ^^ n) y"
  by (induction n) (simp_all add: crc8_step_xor)

lemma gen_crc_lookup_table_8_nth: "gen_crc_lookup_table_8 q ! unat x = (crc8_step q ^^ 8) x"
proof -
  have "unat x < 256" using unsigned_less [of x, where 'a = nat] by simp
  then show ?thesis by (simp only: gen_crc_lookup_table_8_def nth_map length_upt nth_upt) simp
qed

lemma crc8_step_zero:
  assumes "bit q 0" and "crc8_step q z = 0"
  shows "z = 0"
proof (cases "z AND 0x80 \<noteq> 0")
  case True
  with assms(2) have "push_bit 1 z XOR q = 0" by (simp add: crc8_step_def)
  then have "push_bit 1 z = q" by (metis xor.assoc xor.left_neutral xor.right_neutral xor_self_eq)
  moreover have "\<not> bit (push_bit 1 z) 0" unfolding bit_push_bit_iff by simp
  ultimately show ?thesis using assms(1) by simp
next
  case False
  with assms(2) have z: "push_bit 1 z = 0" by (simp add: crc8_step_def)
  have "\<not> bit z 7" using False bit_7 by blast
  have "\<not> bit z n" if "n < 8" for n
  proof (cases "n = 7")
    case True
    with \<open>\<not> bit z 7\<close> show ?thesis by simp
  next
    case False
    from z have "\<not> bit (push_bit 1 z) (Suc n)" by (simp only: bit_0_eq bot_apply) simp
    then show ?thesis unfolding bit_push_bit_iff using False that by simp
  qed
  then show ?thesis by (intro bit_word_eqI) simp
qed

lemma inj_crc8_steps:
  assumes "bit q 0"
  shows "inj (crc8_step q ^^ n)"
proof -
  have "inj (crc8_step q)"
  proof (rule injI)
    fix x y assume "crc8_step q x = crc8_step q y"
    then have "crc8_step q (x XOR y) = 0" by (simp add: crc8_step_xor)
    from crc8_step_zero [OF assms this] show "x = y"
      by (metis xor.assoc xor.left_neutral xor.right_neutral xor_self_eq)
  qed
  then show ?thesis by (induction n) (simp_all add: inj_compose)
qed

text \<open>The checksum as the modes compute it with the table, and bit by bit from its definition.\<close>

definition crc8_table :: "u8 \<Rightarrow> u8 list \<Rightarrow> u8 \<Rightarrow> u8" where
  "crc8_table q bs crc = fold (\<lambda>b crc. gen_crc_lookup_table_8 q ! unat (crc XOR b)) bs crc"

definition crc8_bitwise :: "u8 \<Rightarrow> u8 list \<Rightarrow> u8 \<Rightarrow> u8" where
  "crc8_bitwise q bs crc = fold (\<lambda>b crc. (crc8_step q ^^ 8) (crc XOR b)) bs crc"

lemma crc8_table_bitwise: "crc8_table q bs crc = crc8_bitwise q bs crc"
  by (simp add: crc8_table_def crc8_bitwise_def gen_crc_lookup_table_8_nth)

lemma crc8_bitwise_inj:
  "bit q 0 \<Longrightarrow> crc8_bitwise q bs x = crc8_bitwise q bs y \<Longrightarrow> x = y"
proof (induction bs arbitrary: x y)
  case Nil
  then show ?case by (simp add: crc8_bitwise_def)
next
  case (Cons b bs)
  then have "(crc8_step q ^^ 8) (x XOR b) = (crc8_step q ^^ 8) (y XOR b)"
    by (simp add: crc8_bitwise_def)
  from injD [OF inj_crc8_steps [OF Cons.prems(1)] this] show ?case
    by (metis xor.assoc xor.right_neutral xor_self_eq)
qed

text \<open>A CRC driven by the generated lookup table is the bitwise CRC of the polynomial, on
  every byte string; and for an odd polynomial it detects every corruption of a single
  byte: two frames that differ in exactly one byte have different checksums.\<close>

lemma crc_table_correct:
  assumes "bit q 0"
  shows "crc8_table q bs crc = crc8_bitwise q bs crc \<and>
    (crc8_table q (bs @ a # cs) crc = crc8_table q (bs @ b # cs) crc \<longleftrightarrow> a = b)"
proof -
  have app: "crc8_bitwise q (bs @ d # cs) crc =
      crc8_bitwise q cs ((crc8_step q ^^ 8) (crc8_bitwise q bs crc XOR d))" for d
    by (simp add: crc8_bitwise_def)
  have "a = b" if "crc8_bitwise q (bs @ a # cs) crc = crc8_bitwise q (bs @ b # cs) crc"
    using crc8_bitwise_inj [OF assms that [unfolded app]] inj_crc8_steps [OF assms, of 8]
    by (metis injD xor.assoc xor.left_neutral xor_self_eq)
  then show ?thesis by (auto simp: crc8_table_bitwise)
qed

lemma crc_table_correct_witness:
  "bit (0x2F :: u8) 0 \<and>
    (crc8_table 0x2F ([1] @ 2 # [3]) 0xFF = crc8_table 0x2F ([1] @ 4 # [3]) 0xFF \<longleftrightarrow> (2::u8) = 4)"
  using crc_table_correct [where q = "0x2F" and bs = "[1]" and crc = "0xFF" and a = 2 and cs = "[3]" and b = 4] by simp

end
