(* ===== verification/Mazda_Properties.thy ===== *)
theory Mazda_Properties
  imports Mode_Mazda Core_Properties
begin

text \<open>
  What the Mazda mode guarantees in each of its builds: the exact acceptance rules for the
  steering and acceleration frames, the engagement rules with and without the MADS switches,
  the restricted diagnostics of alpha longitudinal, and what the board without a harness relay
  forwards and lets through.
\<close>


lemma mazda_lkas_torque_range: "- 2048 \<le> mazda_lkas_torque p \<and> mazda_lkas_torque p \<le> 2047"
proof -
  define v where "v = push_bit 8 (byte p 0 AND 0x0F) OR byte p 1"
  have "0 \<le> v" "v < 16 * 2 ^ 8"
    using push_bit_or_range [of "byte p 1" 8 "byte p 0 AND 0x0F" "0x0F"] and_nonneg_le [of "0x0F" "byte p 0"]
    by (simp_all add: v_def)
  moreover have "mazda_lkas_torque p = to_s32 (v - 2048)"
    by (simp only: mazda_lkas_torque_def v_def to_s32_u32)
  ultimately show ?thesis by (simp add: to_s32_id)
qed


subsection \<open>Steering\<close>

lemma mazda_lkas_tx:
  assumes "bus p = 0" and "addr p = MAZDA_LKAS"
  shows "fst (mazda_tx_hook p s) =
    (\<not> fst (steer_torque_cmd_checks (mazda_lkas_torque p) (-1) MAZDA_STEERING_LIMITS s))"
  using assms by (simp add: mazda_tx_hook_def Let_def split_beta)

text \<open>The driver torque the sensor can report, and that the windows therefore hold.\<close>

definition mazda_driver_range :: "safety_state \<Rightarrow> bool" where
  "mazda_driver_range s \<longleftrightarrow> wf_sample (torque_driver s) \<and>
     (\<forall>v \<in> set (sample_values (torque_driver s)). -127 \<le> v \<and> v \<le> 128)"

lemma mazda_driver_range_extremes:
  assumes "mazda_driver_range s"
  shows "-127 \<le> smin (torque_driver s)" "smin (torque_driver s) \<le> 128"
    "-127 \<le> smax (torque_driver s)" "smax (torque_driver s) \<le> 128"
proof -
  let ?v = "set (sample_values (torque_driver s))"
  from assms have "finite ?v" "?v \<noteq> {}" "smin (torque_driver s) = Min ?v" "smax (torque_driver s) = Max ?v"
    by (auto simp: mazda_driver_range_def wf_sample_def MAX_SAMPLE_VALS_def)
  moreover have "Min ?v \<in> ?v" "Max ?v \<in> ?v" using calculation by simp_all
  ultimately show "-127 \<le> smin (torque_driver s)" "smin (torque_driver s) \<le> 128"
    "-127 \<le> smax (torque_driver s)" "smax (torque_driver s) \<le> 128"
    using assms by (auto simp: mazda_driver_range_def)
qed

lemma mazda_driver_range_rx_torque:
  "mazda_driver_range s \<Longrightarrow> mazda_driver_range (mazda_rx_torque p s)"
proof -
  assume r: "mazda_driver_range s"
  have b: "0 \<le> byte p 0" "byte p 0 < 256" by simp_all
  then have "to_s32 (byte p 0 - 127) = byte p 0 - 127" by (intro to_s32_small) linarith+
  moreover have len: "length (sample_values (torque_driver s)) = MAX_SAMPLE_VALS"
    and wf: "wf_sample (torque_driver s)"
    using r by (simp_all add: mazda_driver_range_def wf_sample_def)
  moreover have "-127 \<le> v \<and> v \<le> 128"
    if "v \<in> set ((byte p 0 - 127) # butlast (sample_values (torque_driver s)))" for v
    using that r b by (auto simp: mazda_driver_range_def dest: in_set_butlastD)
  ultimately show ?thesis
    using r wf_sample_update [OF wf, of "byte p 0 - 127"]
    by (simp add: mazda_rx_torque_def mazda_driver_range_def Let_def update_sample_values)
qed

lemma mazda_driver_range_view:
  "samples_view t = samples_view s \<Longrightarrow> mazda_driver_range t = mazda_driver_range s"
  by (simp add: samples_view_def mazda_driver_range_def)

lemma samples_view_driver: "samples_view t = samples_view s \<Longrightarrow> torque_driver t = torque_driver s"
  by (simp add: samples_view_def)

text \<open>Whatever is received, the driver-torque window of the Mazda mode holds the last six
  readings, each between -127 and 128, with their exact extremes.\<close>

lemma mazda_driver_range_kept:
  assumes "mazda_driver_range s"
  shows "mazda_driver_range (mazda_rx_hook B p s) \<and>
    (bus p = 0 \<and> addr p = MAZDA_STEER_TORQUE \<longrightarrow>
       sample_values (torque_driver (mazda_rx_hook B p s)) =
         (byte p 0 - 127) # butlast (sample_values (torque_driver s)))"
proof -
  note frames = mazda_rx_samples [THEN mazda_driver_range_view]
    mazda_rx_samples [THEN samples_view_driver]
  have len: "length (sample_values (torque_driver s)) = MAX_SAMPLE_VALS"
    using assms by (simp add: mazda_driver_range_def wf_sample_def)
  have "0 \<le> byte p 0" "byte p 0 < 256" by simp_all
  then have "to_s32 (byte p 0 - 127) = byte p 0 - 127" by (intro to_s32_small) linarith+
  with len have "sample_values (torque_driver (mazda_rx_torque p (mazda_rx_speed p s))) =
      (byte p 0 - 127) # butlast (sample_values (torque_driver s))" if "addr p = MAZDA_STEER_TORQUE"
    using that by (simp add: mazda_rx_torque_def Let_def update_sample_values frames)
  then show ?thesis
    using assms mazda_driver_range_rx_torque [of "mazda_rx_speed p s" p]
    by (simp add: mazda_rx_hook_def Let_def frames)
qed

lemma mazda_driver_range_kept_witness:
  "mazda_driver_range boot_state \<and> (\<exists>p B. bus p = 0 \<and> addr p = MAZDA_STEER_TORQUE \<and>
     hd (sample_values (torque_driver (mazda_rx_hook B p boot_state))) = -127)"
proof -
  define p where "p = \<lparr>fd = False, bus = 0, data_len_code = 8, rejected = False, returned = False,
    extended = False, addr = 0x240, checksum = 0, data = replicate 8 0\<rparr>"
  have r: "mazda_driver_range boot_state"
    by (simp add: boot_state_def mazda_driver_range_def wf_sample_def sample_zero_def
        MAX_SAMPLE_VALS_def)
  have b: "byte p 0 = 0" by (simp add: p_def byte_def)
  have "sample_values (torque_driver (mazda_rx_hook build_f407 p boot_state)) =
      (byte p 0 - 127) # butlast (sample_values (torque_driver boot_state))"
    using mazda_driver_range_kept [OF r, of build_f407 p] by (simp add: p_def)
  with r b show ?thesis by (intro conjI exI [of _ p] exI [of _ build_f407]) (simp_all add: p_def)
qed

text \<open>The driver term does not bind when the driver's torque cannot lower the limit below the
  command.\<close>

lemma driver_check_slack:
  assumes "t \<le> M + (al + smax dr) * f" and "- M + (- al + smin dr) * f \<le> t"
  shows "\<not> driver_limit_check t l dr M up down al f \<longleftrightarrow> min l 0 - up \<le> t \<and> t \<le> max l 0 + up"
  unfolding driver_limit_check_def max_limit_check_def CMAX_max CMIN_min Let_def de_Morgan_disj not_less
    min.bounded_iff max.bounded_iff
  using assms by (simp add: le_max_iff_disj min_le_iff_disj conj_commute)

text \<open>C39: The exact acceptance rule for the steering frame of this car. With controls allowed, a
  torque passes if it is within one step of 80 of the previous one (measured from zero) and is
  not the wire value -2048; without them only zero passes. The other limits of the table
  exclude nothing more for torques up to 1934: the driver's own torque, as far as the sensor can
  report it, never lowers the limit below that, and the real-time window is as wide as the whole
  range.\<close>

theorem mazda_lkas_exact:
  assumes "bus p = 0" and "addr p = MAZDA_LKAS" and "mazda_driver_range s"
    and "\<bar>mazda_lkas_torque p\<bar> \<le> 1934"
  shows "fst (mazda_tx_hook p s) \<longleftrightarrow>
    (if controls_allowed s
     then min (desired_torque_last s) 0 - 80 \<le> mazda_lkas_torque p \<and>
          mazda_lkas_torque p \<le> max (desired_torque_last s) 0 + 80
     else mazda_lkas_torque p = 0)"
proof (cases "controls_allowed s")
  case True
  let ?t = "mazda_lkas_torque p" and ?l = "desired_torque_last s"
  note ext = mazda_driver_range_extremes [OF assms(3)]
  have t: "?t \<le> 1934" "- 1934 \<le> ?t" using assms(4) by linarith+
  have d: "\<not> driver_limit_check ?t ?l (torque_driver s) 2047 80 50 15 1 \<longleftrightarrow>
      min ?l 0 - 80 \<le> ?t \<and> ?t \<le> max ?l 0 + 80"
    using ext t by (intro driver_check_slack) simp_all
  have r: "\<not> rt_torque_rate_limit_check ?t l 2047" for l
    using assms(4) by (auto simp: rt_torque_rate_limit_check_def max_limit_check_def CMAX_def CMIN_def)
  have m: "\<not> max_limit_check ?t 2047 (- 2047)"
    using assms(4) by (auto simp: max_limit_check_def)
  have "\<not> fst (torque_checks_allowed ?t MAZDA_STEERING_LIMITS ts s) \<longleftrightarrow>
      \<not> driver_limit_check ?t ?l (torque_driver s) 2047 80 50 15 1" for ts
    using r [of "rt_torque_last s"] m
    by (simp add: torque_checks_allowed_def Let_def torque_limit_now_def MAZDA_STEERING_LIMITS_def
        torque_limits_zero_def)
  then show ?thesis
    unfolding mazda_lkas_tx [OF assms(1,2)] steer_torque_result using True d
    by (simp add: steer_req_checks_def MAZDA_STEERING_LIMITS_def torque_limits_zero_def)
next
  case False
  then show ?thesis
    unfolding mazda_lkas_tx [OF assms(1,2)] steer_torque_result
    by (simp add: steer_req_checks_def Let_def MAZDA_STEERING_LIMITS_def torque_limits_zero_def)
qed

theorem mazda_lkas_exact_witness:
  "\<exists>p s. controls_allowed s \<and> mazda_lkas_torque p = 80 \<and> fst (mazda_tx_hook p s)"
proof -
  define p where "p = \<lparr>fd = False, bus = 0, data_len_code = 8, rejected = False, returned = False,
    extended = False, addr = 0x243, checksum = 0, data = [0x08, 0x50, 0, 0, 0, 0, 0, 0]\<rparr>"
  define s where "s = boot_state\<lparr>controls_allowed := True\<rparr>"
  have t: "mazda_lkas_torque p = 80" unfolding p_def by code_simp
  have r: "mazda_driver_range s"
    by (simp add: s_def boot_state_def mazda_driver_range_def wf_sample_def sample_zero_def
        MAX_SAMPLE_VALS_def)
  have "fst (mazda_tx_hook p s) \<longleftrightarrow>
    (if controls_allowed s
     then min (desired_torque_last s) 0 - 80 \<le> mazda_lkas_torque p \<and>
          mazda_lkas_torque p \<le> max (desired_torque_last s) 0 + 80
     else mazda_lkas_torque p = 0)"
    by (rule mazda_lkas_exact) (simp_all add: r t, simp_all add: p_def)
  then show ?thesis
    by (intro exI [of _ p] exI [of _ s]) (simp add: t, simp add: s_def boot_state_def)
qed

subsection \<open>Longitudinal frames\<close>

text \<open>In alpha longitudinal, an accepted acceleration frame on the car bus carries the idle
  value, or a value within plus or minus 2000 while controls are allowed and the gas was not
  pressed at the last message; an accepted cruise frame does not claim an active cruise without
  controls; an accepted diagnostic frame is one of three fixed requests; and an accepted
  button frame without controls is a plain cancel.\<close>

lemma mazda_long_frames:
  assumes "fst (mazda_tx_hook p s)" and "bus p = 0" and "mazda_longitudinal (mazda s)"
  shows "(addr p = MAZDA_CRZ_INFO \<longrightarrow> mazda_accel_cmd p = 4094 \<or>
            controls_allowed s \<and> \<not> gas_pressed_prev s \<and> \<bar>mazda_accel_cmd p\<bar> \<le> 2000) \<and>
         (addr p = MAZDA_CRZ_CTRL \<longrightarrow> GET_BIT p 3 \<longrightarrow> controls_allowed s) \<and>
         (addr p = MAZDA_RADAR_UDS \<longrightarrow>
            map (byte p) [0, 1, 2] \<in> {[0x02, 0x3E, 0x80], [0x02, 0x10, 0x01], [0x02, 0x10, 0x02]}) \<and>
         (addr p = MAZDA_CRZ_BTNS \<longrightarrow> controls_allowed s \<or> byte p 0 = 1)"
  using assms
  by (auto simp: mazda_tx_hook_def Let_def mazda_uds_allowed_def accel_accepted MAZDA_LONG_LIMITS_def
      long_limits_zero_def MAZDA_ACCEL_IDLE_SENTINEL_def abs_le_iff split: if_splits)

lemma mazda_long_frames_witness:
  "\<exists>p s. fst (mazda_tx_hook p s) \<and> addr p = MAZDA_CRZ_INFO \<and> mazda_accel_cmd p = -2000 \<and>
     controls_allowed s"
proof -
  define p where "p = \<lparr>fd = False, bus = 0, data_len_code = 8, rejected = False, returned = False,
    extended = False, addr = 0x21b, checksum = 0, data = [0, 0, 1, 6, 0, 0, 0, 0]\<rparr>"
  define s where "s = boot_state\<lparr>controls_allowed := True,
    mazda := \<lparr>mazda_longitudinal = True, mazda_res_prev = False, mazda_set_m_prev = False\<rparr>\<rparr>"
  have t: "fst (mazda_tx_hook p s)" unfolding p_def s_def by code_simp
  have a: "mazda_accel_cmd p = -2000" unfolding p_def by code_simp
  have m: "bus p = 0" "addr p = MAZDA_CRZ_INFO" "mazda_longitudinal (mazda s)"
    by (simp_all add: p_def s_def)
  from mazda_long_frames [OF t m(1,3)] m a t show ?thesis
    by (intro exI [of _ p] exI [of _ s]) simp
qed

text \<open>On the board without a harness relay the transmit table of alpha longitudinal also
  lists the radar's frames on the camera bus, and the transmit hook looks at the car bus only:
  on bus 2 every acceleration and cruise frame is passed, whatever it commands and although
  controls are not allowed.\<close>

lemma mazda_nucleo_camera_bus_unchecked:
  assumes "PANDA_NUCLEO B" and "H (current_hooks s) = mazda_hooks B"
    and "tx_msgs (current_safety_config s) = MAZDA_LONG_TX_MSGS B" and "\<not> relay_malfunction s"
    and "bus p = 2" and "addr p \<in> {MAZDA_CRZ_INFO, MAZDA_CRZ_CTRL} \<union> set mazda_radar_addrs" and "GET_LEN p = 8"
  shows "safety_tx_hook H p s = (True, s)"
proof -
  have "tx_msg_safety_check p (MAZDA_LONG_TX_MSGS B)"
    using assms(1,5-7) by (auto simp: MAZDA_LONG_TX_MSGS_def tx_entry_def tx_matches_def mazda_radar_addrs_def)
  moreover have "tx_hook (mazda_hooks B) p s = (True, s)"
    using assms(5) by (simp add: mazda_hooks_def mazda_tx_hook_def)
  ultimately show ?thesis using assms(2-4) by (simp add: safety_tx_hook_def Let_def)
qed

lemma mazda_nucleo_camera_bus_unchecked_witness:
  "\<exists>p s. \<not> controls_allowed s \<and> mazda_accel_cmd p = -2001 \<and>
     fst (safety_tx_hook (\<lambda>_. mazda_hooks build_f407) p s)"
proof -
  define p where "p = \<lparr>fd = False, bus = 2, data_len_code = 8, rejected = False, returned = False,
    extended = False, addr = 0x21b, checksum = 0, data = [0, 0, 1, 5, 0xE0, 0, 0, 0]\<rparr>"
  define s where "s = boot_state\<lparr>current_safety_config :=
    \<lparr>rx_checks = [], tx_msgs = MAZDA_LONG_TX_MSGS build_f407, disable_forwarding = False\<rparr>\<rparr>"
  have a: "mazda_accel_cmd p = -2001" unfolding p_def by code_simp
  have "safety_tx_hook (\<lambda>_. mazda_hooks build_f407) p s = (True, s)"
    by (rule mazda_nucleo_camera_bus_unchecked [of build_f407])
      (simp_all add: build_f407_def s_def p_def boot_state_def GET_LEN_def dlc_to_len_def)
  with a show ?thesis by (intro exI [of _ p] exI [of _ s]) (simp add: s_def boot_state_def)
qed

subsection \<open>Engagement\<close>

text \<open>The receive path for a frame that passes the checks of the Mazda mode.\<close>

lemma mazda_rx_core:
  assumes "H (current_hooks s) = mazda_hooks B" and "fst (safety_rx_hook H p s)"
    and "matched p s \<noteq> None"
  shows "rx_core H p s =
    generic_rx_checks (mazda_rx_hook B p (set_rx_checks (checks_after (mazda_hooks B) p s) s))"
  using assms by (simp add: rx_core_eq Let_def safety_rx_hook_core mazda_hooks_def)

text \<open>C40: Engagement of the MADS builds, as the whole receive path leaves it after a cruise
  frame: the level of the MAIN switch decides. Without the brake switch of the build any brake
  press keeps controls off; with it, a brake press still takes them away on its edge and for as
  long as the vehicle moves, and leaves them only at a standstill.\<close>

theorem mazda_mads_engagement:
  assumes "H (current_hooks s) = mazda_hooks B" and "fst (safety_rx_hook H p s)"
    and "matched p s \<noteq> None" and "MAZDA_MADS B" and "\<not> mazda_longitudinal (mazda s)"
    and "bus p = 0" and "addr p = MAZDA_CRZ_CTRL"
    and "\<not> regen_braking s" and "\<not> steering_disengage s"
  shows "controls_allowed (snd (safety_rx_hook H p s)) \<longleftrightarrow>
    (byte p 2 AND 2) \<noteq> 0 \<and>
    \<not> (brake_pressed s \<and>
       (\<not> MAZDA_MADS_BRAKE B \<or> \<not> brake_pressed_prev s \<or> vehicle_moving s))"
proof -
  let ?u = "set_rx_checks (checks_after (mazda_hooks B) p s) s"
  have "mazda_rx_hook B p ?u = (?u\<lparr>controls_allowed :=
        (if MAZDA_MADS_BRAKE B then (byte p 2 AND 2) \<noteq> 0
         else (byte p 2 AND 2) \<noteq> 0 \<and> \<not> brake_pressed s),
      cruise_engaged_prev := (byte p 2 AND 2) \<noteq> 0, acc_main_on := GET_BIT p 17\<rparr>)"
    using assms(4-7)
    by (simp add: mazda_rx_hook_def mazda_rx_speed_def mazda_rx_torque_def mazda_rx_crz_ctrl_def
        mazda_rx_buttons_def mazda_rx_gas_def mazda_rx_pedals_def Let_def set_rx_checks_def)
  then show ?thesis
    using assms(8,9)
    by (simp add: safety_rx_hook_fields mazda_rx_core [OF assms(1-3)] generic_rx_checks_allowed)
      (auto simp: set_rx_checks_def)
qed

text \<open>In alpha longitudinal no frame but the driver's buttons raises the controls: they rise
  only on a button frame of the car bus, on a press of RES or a release of SET, without
  CANCEL. Turning MAIN off takes them away.\<close>

lemma mazda_long_arming:
  assumes "mazda_longitudinal (mazda s)"
  shows "(controls_allowed (mazda_rx_hook B p s) \<longrightarrow> controls_allowed s \<or>
     (bus p = 0 \<and> addr p = MAZDA_CRZ_BTNS \<and> \<not> GET_BIT p 0 \<and>
      ((GET_BIT p 2 \<and> \<not> mazda_res_prev (mazda s)) \<or> (\<not> GET_BIT p 5 \<and> mazda_set_m_prev (mazda s))))) \<and>
   (bus p = 0 \<and> addr p = MAZDA_PEDALS \<and> \<not> GET_BIT p 2 \<and> \<not> GET_BIT p 3 \<longrightarrow>
     \<not> controls_allowed (mazda_rx_hook B p s)) \<and>
   (bus p = 0 \<and> addr p = MAZDA_CRZ_BTNS \<and> GET_BIT p 0 \<longrightarrow>
     \<not> controls_allowed (mazda_rx_hook B p s))"
proof (cases "bus p = 0")
  case False
  then show ?thesis by (simp add: mazda_rx_hook_def)
next
  case True
  then show ?thesis using assms
    by (simp add: mazda_rx_hook_def Let_def mazda_rx_pedals_def mazda_rx_gas_def
        mazda_rx_speed_def mazda_rx_torque_def mazda_rx_crz_ctrl_def mazda_rx_buttons_def)
qed

lemma mazda_long_arming_witness:
  "\<exists>p s. mazda_longitudinal (mazda s) \<and> \<not> controls_allowed s \<and>
     controls_allowed (mazda_rx_hook build_f407 p s) \<and> addr p = MAZDA_CRZ_BTNS"
proof -
  define p where "p = \<lparr>fd = False, bus = 0, data_len_code = 8, rejected = False, returned = False,
    extended = False, addr = 0x9d, checksum = 0, data = [4, 0, 0, 0, 0, 0, 0, 0]\<rparr>"
  define s where "s = boot_state\<lparr>
    mazda := \<lparr>mazda_longitudinal = True, mazda_res_prev = False, mazda_set_m_prev = False\<rparr>\<rparr>"
  have c: "controls_allowed (mazda_rx_hook build_f407 p s)" unfolding p_def s_def by code_simp
  have l: "mazda_longitudinal (mazda s)" and n: "\<not> controls_allowed s"
    by (simp_all add: s_def boot_state_def)
  from mazda_long_arming [OF l, of build_f407 p] c l n show ?thesis by blast
qed

theorem mazda_mads_engagement_witness:
  "\<exists>p s. brake_pressed s \<and> brake_pressed_prev s \<and> vehicle_moving s \<and> (byte p 2 AND 2) \<noteq> 0 \<and>
     \<not> controls_allowed (snd (safety_rx_hook (\<lambda>_. mazda_hooks build_f407) p s)) \<and>
     controls_allowed (snd (safety_rx_hook (\<lambda>_. mazda_hooks build_f407) p (s\<lparr>vehicle_moving := False\<rparr>)))"
proof -
  define p where "p = \<lparr>fd = False, bus = 0, data_len_code = 8, rejected = False, returned = False,
    extended = False, addr = 0x21c, checksum = 0, data = [0, 0, 2, 0, 0, 0, 0, 0]\<rparr>"
  define s where "s = (set_rx_checks mazda_rx_checks boot_state)\<lparr>brake_pressed := True,
    brake_pressed_prev := True, vehicle_moving := True\<rparr>"
  define t where "t = s\<lparr>vehicle_moving := False\<rparr>"
  have 1: "fst (safety_rx_hook (\<lambda>_. mazda_hooks build_f407) p s)"
    unfolding p_def s_def by code_simp
  have 2: "fst (safety_rx_hook (\<lambda>_. mazda_hooks build_f407) p t)"
    unfolding p_def s_def t_def by code_simp
  have m: "matched p s \<noteq> None" "matched p t \<noteq> None"
    unfolding p_def s_def t_def by code_simp+
  have b: "(byte p 2 AND 2) \<noteq> 0" unfolding p_def by code_simp
  have f: "\<not> mazda_longitudinal (mazda s)" "\<not> regen_braking s" "\<not> steering_disengage s"
    "\<not> mazda_longitudinal (mazda t)" "\<not> regen_braking t" "\<not> steering_disengage t"
    by (simp_all add: s_def t_def set_rx_checks_def boot_state_def)
  have B: "MAZDA_MADS build_f407" "MAZDA_MADS_BRAKE build_f407" by (simp_all add: build_f407_def)
  have a: "bus p = 0" "addr p = MAZDA_CRZ_CTRL" by (simp_all add: p_def)
  have "\<not> controls_allowed (snd (safety_rx_hook (\<lambda>_. mazda_hooks build_f407) p s))"
    using mazda_mads_engagement [OF refl 1 m(1) B(1) f(1) a f(2,3)] by (simp add: s_def)
  moreover have "controls_allowed (snd (safety_rx_hook (\<lambda>_. mazda_hooks build_f407) p t))"
    using mazda_mads_engagement [OF refl 2 m(2) B(1) f(4) a f(5,6)] b B(2)
    by (simp add: t_def s_def)
  ultimately show ?thesis using b
    by (intro exI [of _ p] exI [of _ s]) (simp add: t_def, simp add: s_def)
qed

subsection \<open>Forwarding\<close>

text \<open>What the Mazda mode forwards between the car and the camera while no relay
  malfunction is reported. The host's steering frame never passes from the camera to the car.
  The camera's lane frame is held back with a harness relay and passes on the board without
  one. Every other address passes both ways, the radar's frames of alpha longitudinal
  included.\<close>

lemma mazda_forwarding:
  assumes "H (current_hooks s) = mazda_hooks B" and "\<not> relay_malfunction s"
    and "current_safety_config s = fst (mazda_init B param s0)"
  shows "safety_fwd_hook H b a s =
    (if b = 0 then 2
     else if b = 2 \<and> a \<noteq> MAZDA_LKAS \<and> (a = MAZDA_LKAS_HUD \<longrightarrow> PANDA_NUCLEO B) then 0
     else -1)"
proof -
  have cfg: "disable_forwarding (current_safety_config s) = False"
    "fwd_hook (mazda_hooks B) = None"
    "tx_msgs (current_safety_config s) =
       (if GET_FLAG param MAZDA_PARAM_LONGITUDINAL then MAZDA_LONG_TX_MSGS B else MAZDA_TX_MSGS B)"
    using assms(3) by (simp_all add: mazda_init_def Let_def mazda_hooks_def)
  have blk: "static_block d a (tx_msgs (current_safety_config s)) =
      (to_u32 d = 0 \<and> (a = MAZDA_LKAS \<or> (a = MAZDA_LKAS_HUD \<and> \<not> PANDA_NUCLEO B)))" for d
    by (auto simp: cfg(3) static_block_def MAZDA_LONG_TX_MSGS_def MAZDA_TX_MSGS_def tx_entry_def
        mazda_radar_addrs_def)
  show ?thesis
    using assms(1,2) cfg(1,2) by (simp add: safety_fwd_hook_def Let_def blk get_fwd_bus_def to_u32_def)
qed

lemma mazda_forwarding_witness:
  "\<exists>s. safety_fwd_hook (\<lambda>_. mazda_hooks build_f407) 2 MAZDA_LKAS s = -1 \<and>
     safety_fwd_hook (\<lambda>_. mazda_hooks build_f407) 2 MAZDA_LKAS_HUD s = 0"
proof -
  define s where "s = boot_state\<lparr>current_safety_config := fst (mazda_init build_f407 0 boot_state)\<rparr>"
  have r: "\<not> relay_malfunction s" "current_safety_config s = fst (mazda_init build_f407 0 boot_state)"
    by (simp_all add: s_def boot_state_def)
  show ?thesis
    using mazda_forwarding [OF refl r, where b = 2 and a = MAZDA_LKAS]
      mazda_forwarding [OF refl r, where b = 2 and a = MAZDA_LKAS_HUD]
    by (intro exI [of _ s]) (simp add: build_f407_def)
qed

end
