(* ===== verification/Mode_Defaults.thy ===== *)
theory Mode_Defaults
  imports Mode_Interface
begin

text \<open>
  The modes without a car behind them: \<^verbatim>\<open>modes/defaults.h\<close> (no output, all output),
  \<^verbatim>\<open>modes/elm327.h\<close> (OBD diagnostics) and \<^verbatim>\<open>modes/body.h\<close> (comma body).
\<close>

subsection \<open>defaults.h\<close>

definition default_rx_hook :: "CANPacket \<Rightarrow> safety_state \<Rightarrow> safety_state" where
  "default_rx_hook p s = s"

definition nooutput_init :: "build \<Rightarrow> u16 \<Rightarrow> safety_state \<Rightarrow> safety_config \<times> safety_state" where
  "nooutput_init B param s =
     (\<lparr>rx_checks = [], tx_msgs = [], disable_forwarding = \<not> PANDA_NUCLEO B\<rparr>, s)"

definition nooutput_tx_hook :: "CANPacket \<Rightarrow> safety_state \<Rightarrow> bool \<times> safety_state" where
  "nooutput_tx_hook p s = (False, s)"

definition nooutput_hooks :: "build \<Rightarrow> safety_hooks" where
  "nooutput_hooks B = \<lparr>init_hook = Some (nooutput_init B), rx_hook = default_rx_hook,
     tx_hook = nooutput_tx_hook, fwd_hook = None, get_checksum = None, compute_checksum = None,
     get_counter = None, get_quality_flag_valid = None\<rparr>"

definition alloutput_init :: "u16 \<Rightarrow> safety_state \<Rightarrow> safety_config \<times> safety_state" where
  "alloutput_init param s =
     (let ALLOUTPUT_PARAM_PASSTHROUGH = 1;
          s = s\<lparr>controls_allowed := True\<rparr>;
          alloutput_passthrough = GET_FLAG param ALLOUTPUT_PARAM_PASSTHROUGH
      in (\<lparr>rx_checks = [], tx_msgs = [], disable_forwarding = \<not> alloutput_passthrough\<rparr>, s))"

definition alloutput_tx_hook :: "CANPacket \<Rightarrow> safety_state \<Rightarrow> bool \<times> safety_state" where
  "alloutput_tx_hook p s = (True, s)"

definition alloutput_hooks :: safety_hooks where
  "alloutput_hooks = \<lparr>init_hook = Some alloutput_init, rx_hook = default_rx_hook,
     tx_hook = alloutput_tx_hook, fwd_hook = None, get_checksum = None, compute_checksum = None,
     get_counter = None, get_quality_flag_valid = None\<rparr>"

subsection \<open>elm327.h\<close>

definition elm327_tx_hook :: "CANPacket \<Rightarrow> safety_state \<Rightarrow> bool \<times> safety_state" where
  "elm327_tx_hook p s =
     (let GM_CAMERA_DIAG_ADDR = 0x24B;
          len = GET_LEN p;
          tx = True;
          tx = (if len \<noteq> 8 then False else tx);
          tx = (if addr p \<noteq> 0x18DB33F1 \<and> (addr p AND 0x1FFF00FF) \<noteq> 0x18DA00F1 \<and>
                   (addr p AND 0x1FFFFF00) \<noteq> 0x600 \<and> (addr p AND 0x1FFFFF00) \<noteq> 0x700 \<and>
                   addr p \<noteq> GM_CAMERA_DIAG_ADDR then False else tx);
          tx = (if addr p = GM_CAMERA_DIAG_ADDR \<and> len = 8 then
                  if (byte p 0 AND 0xF0) > 0x30 then False else tx
                else tx)
      in (tx, s))"

definition elm327_hooks :: "build \<Rightarrow> safety_hooks" where
  "elm327_hooks B = \<lparr>init_hook = Some (nooutput_init B), rx_hook = default_rx_hook,
     tx_hook = elm327_tx_hook, fwd_hook = None, get_checksum = None, compute_checksum = None,
     get_counter = None, get_quality_flag_valid = None\<rparr>"

subsection \<open>body.h\<close>

definition body_rx_hook :: "CANPacket \<Rightarrow> safety_state \<Rightarrow> safety_state" where
  "body_rx_hook p s = (if addr p = 0x201 then s\<lparr>controls_allowed := True\<rparr> else s)"

definition body_tx_hook :: "CANPacket \<Rightarrow> safety_state \<Rightarrow> bool \<times> safety_state" where
  "body_tx_hook p s =
     (let tx = True;
          tx = (if \<not> controls_allowed s \<and> addr p \<noteq> 0x1 then False else tx);
          flash_msg = addr p = 0x250 \<and> GET_LEN p = 8;
          tx = (if \<not> controls_allowed s \<and> GET_BYTES p 0 4 = 0xdeadface \<and>
                   GET_BYTES p 4 4 = 0x0ab00b1e \<and> flash_msg then True else tx)
      in (tx, s))"

definition body_rx_checks :: "RxCheck list" where
  "body_rx_checks = [rx_check [no_checks (msg_check 0x201 0 8 100)]]"

definition BODY_TX_MSGS :: "CanMsg list" where
  "BODY_TX_MSGS = [tx_entry 0x250 0 8 False, tx_entry 0x250 0 6 False, tx_entry 0x251 0 5 False,
     tx_entry 0x1 0 8 False]"

definition body_init :: "u16 \<Rightarrow> safety_state \<Rightarrow> safety_config \<times> safety_state" where
  "body_init param s =
     (\<lparr>rx_checks = body_rx_checks, tx_msgs = BODY_TX_MSGS, disable_forwarding = True\<rparr>, s)"

definition body_hooks :: safety_hooks where
  "body_hooks = \<lparr>init_hook = Some body_init, rx_hook = body_rx_hook, tx_hook = body_tx_hook,
     fwd_hook = None, get_checksum = None, compute_checksum = None, get_counter = None,
     get_quality_flag_valid = None\<rparr>"

subsection \<open>The contracts\<close>

interpretation nooutput_mode: guarded_mode "nooutput_hooks B" for B
  by unfold_locales (auto simp: nooutput_hooks_def nooutput_tx_hook_def nooutput_init_def
      default_rx_hook_def)

interpretation alloutput_mode: safety_mode alloutput_hooks
  by unfold_locales (auto simp: alloutput_hooks_def alloutput_tx_hook_def alloutput_init_def
      default_rx_hook_def views Let_def)

interpretation elm327_mode: guarded_mode "elm327_hooks B" for B
  by unfold_locales (auto simp: elm327_hooks_def elm327_tx_hook_def nooutput_init_def
      default_rx_hook_def Let_def)

interpretation body_mode: guarded_mode body_hooks
  by unfold_locales (auto simp: body_hooks_def body_tx_hook_def body_init_def body_rx_hook_def
      views samples_ok_def Let_def)

end
