(* ===== verification/Mode_Toyota.thy ===== *)
theory Mode_Toyota
  imports Mode_Interface
begin

text \<open>
  \<^verbatim>\<open>car/opendbc/safety/modes/toyota.h\<close>: torque steering (LKA) or angle steering (LTA), stock
  or openpilot longitudinal control, and the variant with secured on-board messages (SecOC).
\<close>

subsection \<open>Message checks\<close>

definition toyota_compute_checksum :: "CANPacket \<Rightarrow> u32" where
  "toyota_compute_checksum p =
     (let len = GET_LEN p;
          c = (word_of_int (addr p) + word_of_int (drop_bit 8 (addr p)) + word_of_int len :: u8)
      in ucast (fold (\<lambda>i c. c + data p ! i) [0..<nat (len - 1)] c))"

definition toyota_get_checksum :: "CANPacket \<Rightarrow> u32" where
  "toyota_get_checksum p = ucast (data p ! nat (GET_LEN p - 1))"

definition toyota_get_quality_flag_valid :: "CANPacket \<Rightarrow> bool" where
  "toyota_get_quality_flag_valid p = (addr p = 0x260 \<and> \<not> GET_BIT p 3)"

subsection \<open>Receive hook\<close>

definition toyota_rx_eps :: "CANPacket \<Rightarrow> safety_state \<Rightarrow> safety_state" where
  "toyota_rx_eps p s =
     (if addr p = 0x260 then
        let torque_meas_new = to_signed (push_bit 8 (byte p 5) OR byte p 6) 16;
            torque_meas_new = (torque_meas_new * toyota_dbc_eps_torque_factor (toyota s)) sdiv 100;
            t = update_sample (torque_meas s) torque_meas_new;
            s = s\<lparr>torque_meas := t\<lparr>smin := smin t - 1, smax := smax t + 1\<rparr>\<rparr>;
            torque_driver_new = to_signed (push_bit 8 (byte p 1) OR byte p 2) 16;
            s = s\<lparr>torque_driver := update_sample (torque_driver s) torque_driver_new\<rparr>;
            steer_angle_initializing = GET_BIT p 3
        in if \<not> steer_angle_initializing then
             let angle_meas_new = to_signed (push_bit 8 (byte p 3) OR byte p 4) 16
             in s\<lparr>angle_meas := update_sample (angle_meas s) angle_meas_new\<rparr>
           else s
      else s)"

definition toyota_rx_secoc :: "CANPacket \<Rightarrow> safety_state \<Rightarrow> safety_state" where
  "toyota_rx_secoc p s =
     (let s = (if addr p = 0x176 then pcm_cruise_check (GET_BIT p 5) s else s);
          s = (if addr p = 0x116 then s\<lparr>gas_pressed := byte p 1 \<noteq> 0\<rparr> else s)
      in if addr p = 0x101 then s\<lparr>brake_pressed := GET_BIT p 3\<rparr> else s)"

definition toyota_rx_pcm :: "CANPacket \<Rightarrow> safety_state \<Rightarrow> safety_state" where
  "toyota_rx_pcm p s =
     (let s = (if addr p = 0x1D2
               then (pcm_cruise_check (GET_BIT p 5) s)\<lparr>gas_pressed := \<not> GET_BIT p 4\<rparr> else s);
          s = (if \<not> toyota_alt_brake (toyota s) \<and> addr p = 0x226
               then s\<lparr>brake_pressed := GET_BIT p 37\<rparr> else s)
      in if toyota_alt_brake (toyota s) \<and> addr p = 0x224
         then s\<lparr>brake_pressed := GET_BIT p 5\<rparr> else s)"

text \<open>The sum over the four wheels: \<open>raw - 6767\<close> each.\<close>

definition toyota_wheel_sum :: "CANPacket \<Rightarrow> int" where
  "toyota_wheel_sum p =
     fold (\<lambda>i speed. speed + ((push_bit 8 (byte p i) OR byte p (i + 1)) - 6767)) [0, 2, 4, 6] 0"

definition toyota_rx_speed :: "CANPacket \<Rightarrow> safety_state \<Rightarrow> safety_state" where
  "toyota_rx_speed p s =
     (if addr p = 0xaa then
        let speed = toyota_wheel_sum p;
            s = s\<lparr>vehicle_moving := speed \<noteq> 0\<rparr>
        in UPDATE_VEHICLE_SPEED (fmul (fmul (fdiv (fint speed) 4) (f32 (1 / 100))) KPH_TO_MS) s
      else s)"

definition toyota_rx_hook :: "CANPacket \<Rightarrow> safety_state \<Rightarrow> safety_state" where
  "toyota_rx_hook p s =
     (if bus p = 0 then
        let s = toyota_rx_eps p s;
            s = (if toyota_secoc (toyota s) then toyota_rx_secoc p s else toyota_rx_pcm p s)
        in toyota_rx_speed p s
      else s)"

subsection \<open>Transmit hook\<close>

definition TOYOTA_TORQUE_STEERING_LIMITS :: TorqueSteeringLimits where
  "TOYOTA_TORQUE_STEERING_LIMITS = torque_limits_zero\<lparr>max_torque := 1500, max_rate_up := 15,
     max_rate_down := 25, max_torque_error := 350, max_rt_delta := 450,
     control_type := TorqueMotorLimited, min_valid_request_frames := 18,
     max_invalid_request_frames := 1, min_valid_request_rt_interval := 171000,
     has_steer_req_tolerance := True\<rparr>"

definition TOYOTA_ANGLE_STEERING_LIMITS :: AngleSteeringLimits where
  "TOYOTA_ANGLE_STEERING_LIMITS = angle_limits_zero\<lparr>max_angle := 1657,
     angle_deg_to_can := f32 (17452007 / 1000000),
     angle_rate_up_lookup := \<lparr>lx = [5, 25, 25], ly = [f32 (3 / 10), f32 (15 / 100), f32 (15 / 100)]\<rparr>,
     angle_rate_down_lookup :=
       \<lparr>lx = [5, 25, 25], ly = [f32 (36 / 100), f32 (26 / 100), f32 (26 / 100)]\<rparr>\<rparr>"

definition TOYOTA_LTA_MAX_MEAS_TORQUE :: int where "TOYOTA_LTA_MAX_MEAS_TORQUE = 1500"
definition TOYOTA_LTA_MAX_DRIVER_TORQUE :: int where "TOYOTA_LTA_MAX_DRIVER_TORQUE = 150"

definition TOYOTA_LONG_LIMITS :: LongitudinalLimits where
  "TOYOTA_LONG_LIMITS = long_limits_zero\<lparr>max_accel := 2000, min_accel := -3500\<rparr>"

definition toyota_accel_cmd :: "CANPacket \<Rightarrow> int" where
  "toyota_accel_cmd p = to_signed (push_bit 8 (byte p 0) OR byte p 1) 16"

definition toyota_tx_accel :: "CANPacket \<Rightarrow> safety_state \<Rightarrow> bool" where
  "toyota_tx_accel p s =
     (let desired_accel = toyota_accel_cmd p;
          violation = longitudinal_accel_checks desired_accel TOYOTA_LONG_LIMITS s;
          violation = (if toyota_stock_longitudinal (toyota s) then
                         violation \<or> \<not> GET_BIT p 24 \<or>
                           desired_accel \<noteq> inactive_accel TOYOTA_LONG_LIMITS
                       else violation)
      in \<not> violation)"

definition toyota_tx_aeb :: "CANPacket \<Rightarrow> bool" where
  "toyota_tx_aeb p = (\<not> (GET_BYTES p 0 4 \<noteq> 0 \<or> byte p 4 \<noteq> 0 \<or> byte p 5 \<noteq> 0))"

definition toyota_lta_angle :: "CANPacket \<Rightarrow> int" where
  "toyota_lta_angle p = to_signed (push_bit 8 (byte p 1) OR byte p 2) 16"

definition toyota_tx_lta :: "CANPacket \<Rightarrow> safety_state \<Rightarrow> bool \<times> safety_state" where
  "toyota_tx_lta p s =
     (let lta_request = GET_BIT p 0;
          lta_request2 = GET_BIT p 25;
          torque_wind_down = byte p 5;
          lta_angle = toyota_lta_angle p;
          steer_control_enabled = lta_request \<or> lta_request2
      in if \<not> toyota_lta (toyota s) then
           (\<not> (steer_control_enabled \<or> lta_angle \<noteq> 0 \<or> torque_wind_down \<noteq> 0), s)
         else
           let (violation, s) =
                 steer_angle_cmd_checks lta_angle steer_control_enabled TOYOTA_ANGLE_STEERING_LIMITS s;
               tx = \<not> violation;
               tx = (if lta_request \<noteq> lta_request2 then False else tx);
               tx = (if \<not> steer_control_enabled \<and> torque_wind_down \<noteq> 0 then False else tx);
               tx = (if torque_wind_down \<noteq> 0 \<and> torque_wind_down \<noteq> 100 then False else tx);
               driver_torque = CMIN (ABS (smin (torque_driver s))) (ABS (smax (torque_driver s)));
               tx = (if driver_torque > TOYOTA_LTA_MAX_DRIVER_TORQUE \<and> torque_wind_down \<noteq> 0
                     then False else tx);
               eps_torque = CMIN (ABS (smin (torque_meas s))) (ABS (smax (torque_meas s)));
               tx = (if eps_torque > TOYOTA_LTA_MAX_MEAS_TORQUE \<and> torque_wind_down \<noteq> 0
                     then False else tx)
           in (tx, s))"

definition toyota_tx_lta2 :: "CANPacket \<Rightarrow> bool" where
  "toyota_tx_lta2 p =
     (let lta_request = GET_BIT p 3;
          lta_request2 = GET_BIT p 0;
          lta_angle_msb = byte p 2;
          lta_angle_lsb = byte p 3;
          actuation = lta_request \<or> lta_request2 \<or> lta_angle_msb \<noteq> 0 \<or> lta_angle_lsb \<noteq> 0
      in \<not> actuation)"

definition toyota_torque_cmd :: "CANPacket \<Rightarrow> int" where
  "toyota_torque_cmd p = to_signed (push_bit 8 (byte p 1) OR byte p 2) 16"

definition toyota_tx_steer :: "CANPacket \<Rightarrow> safety_state \<Rightarrow> bool \<times> safety_state" where
  "toyota_tx_steer p s =
     (let desired_torque = toyota_torque_cmd p;
          steer_req = GET_BIT p 0
      in if \<not> toyota_lta (toyota s) then
           let (violation, s) = steer_torque_cmd_checks desired_torque (of_bool steer_req)
                 TOYOTA_TORQUE_STEERING_LIMITS s
           in (\<not> violation, s)
         else (\<not> (desired_torque \<noteq> 0 \<or> steer_req), s))"

definition toyota_tx_uds :: "CANPacket \<Rightarrow> bool" where
  "toyota_tx_uds p = (\<not> (GET_BYTES p 0 4 \<noteq> 0x003E020F \<or> GET_BYTES p 4 4 \<noteq> 0))"

definition toyota_tx_hook :: "CANPacket \<Rightarrow> safety_state \<Rightarrow> bool \<times> safety_state" where
  "toyota_tx_hook p s =
     (let tx = True;
          (tx, s) =
            (if bus p = 0 then
               let tx = (if addr p = 0x343 then tx \<and> toyota_tx_accel p s else tx);
                   tx = (if addr p = 0x283 then tx \<and> toyota_tx_aeb p else tx);
                   (ok, s) = (if addr p = 0x191 then toyota_tx_lta p s else (True, s));
                   tx = tx \<and> ok;
                   tx = (if toyota_secoc (toyota s) \<and> addr p = 0x131 then tx \<and> toyota_tx_lta2 p
                         else tx);
                   (ok, s) = (if addr p = 0x2E4 then toyota_tx_steer p s else (True, s))
               in (tx \<and> ok, s)
             else (tx, s));
          tx = (if addr p = 0x750 then tx \<and> toyota_tx_uds p else tx)
      in (tx, s))"

subsection \<open>Initialisation\<close>

definition TOYOTA_BASE_TX_MSGS :: "CanMsg list" where
  "TOYOTA_BASE_TX_MSGS = [tx_entry 0x191 0 8 True, tx_entry 0x412 0 8 True, tx_entry 0x1D2 0 8 False]"

definition TOYOTA_COMMON_TX_MSGS :: "CanMsg list" where
  "TOYOTA_COMMON_TX_MSGS = TOYOTA_BASE_TX_MSGS @ [tx_entry 0x2E4 0 5 True, tx_entry 0x343 0 8 False]"

definition TOYOTA_COMMON_SECOC_TX_MSGS :: "CanMsg list" where
  "TOYOTA_COMMON_SECOC_TX_MSGS = TOYOTA_BASE_TX_MSGS @
     [tx_entry 0x2E4 0 8 True, tx_entry 0x131 0 8 True, tx_entry 0x343 0 8 False]"

definition TOYOTA_COMMON_LONG_TX_MSGS :: "CanMsg list" where
  "TOYOTA_COMMON_LONG_TX_MSGS = TOYOTA_COMMON_TX_MSGS @
     [tx_entry 0x283 0 7 False, tx_entry 0x2E6 0 8 False, tx_entry 0x2E7 0 8 False,
      tx_entry 0x33E 0 7 False, tx_entry 0x344 0 8 False, tx_entry 0x365 0 7 False,
      tx_entry 0x366 0 7 False, tx_entry 0x4CB 0 8 False,
      tx_entry 0x128 1 6 False, tx_entry 0x141 1 4 False, tx_entry 0x160 1 8 False,
      tx_entry 0x161 1 7 False, tx_entry 0x470 1 4 False,
      tx_entry 0x411 0 8 False, tx_entry 0x750 0 8 False, tx_entry 0x343 0 8 True]"

text \<open>Shorthands for checks that opt out of some of the tests.\<close>

definition TOYOTA_COMMON_RX_CHECKS :: "bool \<Rightarrow> RxCheck list" where
  "TOYOTA_COMMON_RX_CHECKS lta =
     [rx_check [no_checks (msg_check 0xaa 0 8 83)],
      rx_check [(msg_check 0x260 0 8 50)\<lparr>ignore_counter := True, ignore_quality_flag := \<not> lta\<rparr>]]"

definition TOYOTA_RX_CHECKS :: "bool \<Rightarrow> RxCheck list" where
  "TOYOTA_RX_CHECKS lta = TOYOTA_COMMON_RX_CHECKS lta @
     [rx_check [(msg_check 0x1D2 0 8 33)\<lparr>ignore_counter := True, ignore_quality_flag := True\<rparr>],
      rx_check [no_checks (msg_check 0x226 0 8 40)]]"

definition TOYOTA_ALT_BRAKE_RX_CHECKS :: "bool \<Rightarrow> RxCheck list" where
  "TOYOTA_ALT_BRAKE_RX_CHECKS lta = TOYOTA_COMMON_RX_CHECKS lta @
     [rx_check [(msg_check 0x1D2 0 8 33)\<lparr>ignore_counter := True, ignore_quality_flag := True\<rparr>],
      rx_check [no_checks (msg_check 0x224 0 8 40)]]"

definition TOYOTA_SECOC_RX_CHECKS :: "RxCheck list" where
  "TOYOTA_SECOC_RX_CHECKS = TOYOTA_COMMON_RX_CHECKS False @
     [rx_check [(msg_check 0x176 0 8 32)\<lparr>ignore_counter := True, ignore_quality_flag := True\<rparr>],
      rx_check [no_checks (msg_check 0x116 0 8 42)],
      rx_check [no_checks (msg_check 0x101 0 8 50)]]"

definition toyota_init :: "build \<Rightarrow> u16 \<Rightarrow> safety_state \<Rightarrow> safety_config \<times> safety_state" where
  "toyota_init B param s =
     (let t = toyota s;
          t = (if ALLOW_DEBUG B then t\<lparr>toyota_secoc := GET_FLAG param 0x800\<rparr> else t);
          t = t\<lparr>toyota_alt_brake := GET_FLAG param 0x100,
                toyota_stock_longitudinal := GET_FLAG param 0x200,
                toyota_lta := GET_FLAG param 0x400,
                toyota_dbc_eps_torque_factor := uint (param AND 0xFF)\<rparr>;
          txs = (if toyota_stock_longitudinal t then
                   if toyota_secoc t then TOYOTA_COMMON_SECOC_TX_MSGS else TOYOTA_COMMON_TX_MSGS
                 else TOYOTA_COMMON_LONG_TX_MSGS);
          rxs = (if toyota_secoc t then TOYOTA_SECOC_RX_CHECKS
                 else if toyota_lta t then TOYOTA_RX_CHECKS True
                 else if \<not> toyota_alt_brake t then TOYOTA_RX_CHECKS False
                 else TOYOTA_ALT_BRAKE_RX_CHECKS False)
      in (\<lparr>rx_checks = rxs, tx_msgs = txs, disable_forwarding = False\<rparr>, s\<lparr>toyota := t\<rparr>))"

definition toyota_hooks :: "build \<Rightarrow> safety_hooks" where
  "toyota_hooks B = \<lparr>init_hook = Some (toyota_init B), rx_hook = toyota_rx_hook,
     tx_hook = toyota_tx_hook, fwd_hook = None, get_checksum = Some toyota_get_checksum,
     compute_checksum = Some toyota_compute_checksum, get_counter = None,
     get_quality_flag_valid = Some toyota_get_quality_flag_valid\<rparr>"

subsection \<open>The contract\<close>

lemma toyota_rx_steps:
  "rx_view (toyota_rx_eps p s) = rx_view s"
  "rx_view (toyota_rx_secoc p s) = rx_view s"
  "rx_view (toyota_rx_pcm p s) = rx_view s"
  "samples_view (toyota_rx_secoc p s) = samples_view s"
  "samples_view (toyota_rx_pcm p s) = samples_view s"
  by (simp_all add: rx_view_def views Let_def toyota_rx_eps_def toyota_rx_secoc_def
      toyota_rx_pcm_def pcm_cruise_check_def)

lemma toyota_rx_speed_view: "rx_view (toyota_rx_speed p s) = rx_view s"
  by (simp add: toyota_rx_speed_def Let_def rx_view_UPDATE_VEHICLE_SPEED) (simp add: rx_view_def views)

lemma toyota_rx_speed_samples: "samples_ok s \<Longrightarrow> samples_ok (toyota_rx_speed p s)"
  by (simp add: toyota_rx_speed_def Let_def samples_ok_def UPDATE_VEHICLE_SPEED_def sample_ok_update)

lemma sample_ok_widen: "sample_ok t \<Longrightarrow> sample_ok (t\<lparr>smin := smin t - 1, smax := smax t + 1\<rparr>)"
  by (force simp: sample_ok_def)

lemma toyota_rx_eps_samples: "samples_ok s \<Longrightarrow> samples_ok (toyota_rx_eps p s)"
  by (simp add: toyota_rx_eps_def Let_def samples_ok_def sample_ok_update sample_ok_widen)

lemma toyota_rx_view: "rx_view (toyota_rx_hook p s) = rx_view s"
  by (simp add: toyota_rx_hook_def Let_def toyota_rx_steps toyota_rx_speed_view)

lemma toyota_rx_samples: "samples_ok s \<Longrightarrow> samples_ok (toyota_rx_hook p s)"
  by (simp add: toyota_rx_hook_def Let_def toyota_rx_speed_samples toyota_rx_eps_samples
      toyota_rx_steps(4,5) [THEN samples_view_ok])

lemma toyota_tx_steps:
  "frame_view (snd (toyota_tx_lta p s)) = frame_view s"
  "frame_view (snd (toyota_tx_steer p s)) = frame_view s"
  by (simp_all add: toyota_tx_lta_def toyota_tx_steer_def Let_def split_beta
      if_distrib [of frame_view] steering_frames)

lemma toyota_tx_frame: "frame_view (snd (toyota_tx_hook p s)) = frame_view s"
  by (simp add: toyota_tx_hook_def Let_def split_beta if_distrib [of frame_view] toyota_tx_steps)

interpretation toyota_mode: guarded_mode "toyota_hooks B" for B
  by (rule guarded_modeI)
    (auto simp: toyota_hooks_def toyota_tx_frame toyota_rx_view toyota_rx_samples
      toyota_init_def init_view_def views Let_def)

end
