(* ===== verification/Mode_Honda.thy ===== *)
theory Mode_Honda
  imports Mode_Interface
begin

text \<open>
  \<^verbatim>\<open>car/opendbc/safety/modes/honda.h\<close>: the Nidec and Bosch modes, which share their receive
  and transmit hooks. The Nidec mode also decides at run time whether the stock emergency
  brake frame is forwarded.
\<close>

abbreviation (input) HONDA_BTN_MAIN :: int where "HONDA_BTN_MAIN \<equiv> 1"
abbreviation (input) HONDA_BTN_CANCEL :: int where "HONDA_BTN_CANCEL \<equiv> 2"
abbreviation (input) HONDA_BTN_SET :: int where "HONDA_BTN_SET \<equiv> 3"
abbreviation (input) HONDA_BTN_RESUME :: int where "HONDA_BTN_RESUME \<equiv> 4"

definition honda_get_pt_bus :: "safety_state \<Rightarrow> int" where
  "honda_get_pt_bus s =
     (if honda_hw (honda s) = HONDA_BOSCH \<and> \<not> honda_bosch_radarless (honda s) \<and>
         \<not> honda_bosch_canfd (honda s) then 1 else 0)"

subsection \<open>Message checks\<close>

definition honda_get_checksum :: "CANPacket \<Rightarrow> u32" where
  "honda_get_checksum p = ucast (data p ! nat (GET_LEN p - 1)) AND 0xF"

text \<open>The loop over the nibbles of the address; it ends when no bits are left.\<close>

fun honda_addr_sum :: "nat \<Rightarrow> u8 \<Rightarrow> u8" where
  "honda_addr_sum a chk =
     (if a > 0 then honda_addr_sum (a div 16) (chk + of_nat (a mod 16)) else chk)"

declare honda_addr_sum.simps [simp del]

definition honda_data_sum :: "CANPacket \<Rightarrow> u8 \<Rightarrow> u8" where
  "honda_data_sum p chk =
     fold (\<lambda>j chk.
        let b = data p ! j;
            chk = chk + ((b AND 0xF) + drop_bit 4 b)
        in if int j = GET_LEN p - 1 then chk - (b AND 0xF) else chk) [0..<nat (GET_LEN p)] chk"

definition honda_compute_checksum :: "CANPacket \<Rightarrow> u32" where
  "honda_compute_checksum p =
     ucast ((8 - honda_data_sum p (honda_addr_sum (nat (addr p)) 0)) AND 0xF)"

definition honda_get_counter :: "CANPacket \<Rightarrow> u8" where
  "honda_get_counter p = drop_bit 4 (data p ! nat (GET_LEN p - 1)) AND 0x3"

subsection \<open>Receive hook\<close>

definition honda_pcm_cruise :: "safety_state \<Rightarrow> bool" where
  "honda_pcm_cruise s \<longleftrightarrow>
     (honda_hw (honda s) = HONDA_BOSCH \<and> \<not> honda_bosch_long (honda s)) \<or>
     honda_hw (honda s) = HONDA_NIDEC"

definition honda_rx_speed :: "CANPacket \<Rightarrow> safety_state \<Rightarrow> safety_state" where
  "honda_rx_speed p s =
     (if addr p = 0x158 then s\<lparr>vehicle_moving := (byte p 0 OR byte p 1) \<noteq> 0\<rparr> else s)"

definition honda_rx_main :: "CANPacket \<Rightarrow> safety_state \<Rightarrow> safety_state" where
  "honda_rx_main p s =
     (if addr p = 0x326 \<or> addr p = 0x1A6 then
        let s = s\<lparr>acc_main_on := GET_BIT p (if addr p = 0x326 then 28 else 47)\<rparr>
        in if \<not> acc_main_on s then s\<lparr>controls_allowed := False\<rparr> else s
      else s)"

definition honda_rx_cruise :: "CANPacket \<Rightarrow> safety_state \<Rightarrow> safety_state" where
  "honda_rx_cruise p s =
     (if honda_pcm_cruise s \<and> addr p = 0x17C then
        let cruise_engaged = GET_BIT p 38;
            s = (if cruise_engaged \<and> \<not> cruise_engaged_prev s
                 then s\<lparr>controls_allowed := True\<rparr> else s);
            s = (if \<not> cruise_engaged \<and> honda_hw (honda s) \<noteq> HONDA_NIDEC
                 then s\<lparr>controls_allowed := False\<rparr> else s)
        in s\<lparr>cruise_engaged_prev := cruise_engaged\<rparr>
      else s)"

definition honda_rx_buttons :: "CANPacket \<Rightarrow> safety_state \<Rightarrow> safety_state" where
  "honda_rx_buttons p s =
     (if (addr p = 0x1A6 \<or> addr p = 0x296) \<and> bus p = honda_get_pt_bus s then
        let button = drop_bit 5 (byte p 0 AND 0xE0);
            set_btn = button \<noteq> HONDA_BTN_SET \<and> cruise_button_prev s = HONDA_BTN_SET;
            res = button \<noteq> HONDA_BTN_RESUME \<and> cruise_button_prev s = HONDA_BTN_RESUME;
            s = (if acc_main_on s \<and> \<not> honda_pcm_cruise s \<and> (set_btn \<or> res)
                 then s\<lparr>controls_allowed := True\<rparr> else s);
            s = (if button = HONDA_BTN_MAIN \<or> button = HONDA_BTN_CANCEL
                 then s\<lparr>controls_allowed := False\<rparr> else s)
        in s\<lparr>cruise_button_prev := button\<rparr>
      else s)"

definition honda_rx_brake :: "CANPacket \<Rightarrow> safety_state \<Rightarrow> safety_state" where
  "honda_rx_brake p s =
     (if honda_alt_brake_msg (honda s) then
        if addr p = 0x1BE then s\<lparr>brake_pressed := GET_BIT p 4\<rparr> else s
      else if addr p = 0x17C then
        let brake_switch = GET_BIT p 32
        in s\<lparr>brake_pressed := (GET_BIT p 53 \<or> (brake_switch \<and> honda_brake_switch_prev (honda s))),
             honda := (honda s)\<lparr>honda_brake_switch_prev := brake_switch\<rparr>\<rparr>
      else s)"

definition honda_rx_gas :: "CANPacket \<Rightarrow> safety_state \<Rightarrow> safety_state" where
  "honda_rx_gas p s = (if addr p = 0x17C then s\<lparr>gas_pressed := byte p 0 \<noteq> 0\<rparr> else s)"

definition ALT_EXP_DISABLE_STOCK_AEB :: int where "ALT_EXP_DISABLE_STOCK_AEB = 2"

definition honda_rx_aeb :: "CANPacket \<Rightarrow> safety_state \<Rightarrow> safety_state" where
  "honda_rx_aeb p s =
     (if (alternative_experience s AND ALT_EXP_DISABLE_STOCK_AEB) = 0 \<and> bus p = 2 \<and> addr p = 0x1FA then
        let honda_stock_aeb = GET_BIT p 29;
            honda_stock_brake = push_bit 2 (byte p 0) OR drop_bit 6 (byte p 1)
        in if \<not> honda_stock_aeb then s\<lparr>honda := (honda s)\<lparr>honda_fwd_brake := False\<rparr>\<rparr>
           else if honda_stock_brake \<ge> honda_brake (honda s)
           then s\<lparr>honda := (honda s)\<lparr>honda_fwd_brake := True\<rparr>\<rparr>
           else s
      else s)"

definition honda_rx_hook :: "CANPacket \<Rightarrow> safety_state \<Rightarrow> safety_state" where
  "honda_rx_hook p s =
     honda_rx_aeb p (honda_rx_gas p (honda_rx_brake p (honda_rx_buttons p (honda_rx_cruise p
       (honda_rx_main p (honda_rx_speed p s))))))"

subsection \<open>Transmit hook\<close>

definition HONDA_BOSCH_LONG_LIMITS :: LongitudinalLimits where
  "HONDA_BOSCH_LONG_LIMITS = long_limits_zero\<lparr>max_accel := 200, min_accel := -350,
     max_gas := 2000, inactive_gas := -30000\<rparr>"

definition HONDA_NIDEC_LONG_LIMITS :: LongitudinalLimits where
  "HONDA_NIDEC_LONG_LIMITS = long_limits_zero\<lparr>max_gas := 198, max_brake := 255,
     inactive_speed := 0\<rparr>"

text \<open>The frames the transmit hook checks, each returning True when it is acceptable.\<close>

definition honda_tx_acc_hud :: "CANPacket \<Rightarrow> safety_state \<Rightarrow> bool" where
  "honda_tx_acc_hud p s =
     (let pcm_speed = push_bit 8 (byte p 0) OR byte p 1;
          pcm_gas = byte p 2
      in \<not> (longitudinal_speed_checks pcm_speed HONDA_NIDEC_LONG_LIMITS s \<or>
            longitudinal_gas_checks pcm_gas HONDA_NIDEC_LONG_LIMITS s))"

definition honda_brake_cmd :: "CANPacket \<Rightarrow> int" where
  "honda_brake_cmd p = push_bit 2 (byte p 0) + (drop_bit 6 (byte p 1) AND 0x3)"

definition honda_tx_brake :: "CANPacket \<Rightarrow> safety_state \<Rightarrow> bool \<times> safety_state" where
  "honda_tx_brake p s =
     (let s = s\<lparr>honda := (honda s)\<lparr>honda_brake := honda_brake_cmd p\<rparr>\<rparr>;
          tx = \<not> longitudinal_brake_checks (honda_brake (honda s)) HONDA_NIDEC_LONG_LIMITS s;
          tx = (if honda_fwd_brake (honda s) then False else tx)
      in (tx, s))"

definition honda_bosch_accel :: "CANPacket \<Rightarrow> int" where
  "honda_bosch_accel p = to_signed (push_bit 3 (byte p 3) OR (drop_bit 5 (byte p 4) AND 0x7)) 11"

definition honda_bosch_gas :: "CANPacket \<Rightarrow> int" where
  "honda_bosch_gas p = to_signed (push_bit 8 (byte p 0) OR byte p 1) 16"

definition honda_tx_bosch_long :: "CANPacket \<Rightarrow> safety_state \<Rightarrow> bool" where
  "honda_tx_bosch_long p s =
     (\<not> (longitudinal_accel_checks (honda_bosch_accel p) HONDA_BOSCH_LONG_LIMITS s \<or>
         longitudinal_gas_checks (honda_bosch_gas p) HONDA_BOSCH_LONG_LIMITS s))"

definition honda_radarless_accel :: "CANPacket \<Rightarrow> int" where
  "honda_radarless_accel p = to_signed (push_bit 4 (byte p 0) OR drop_bit 4 (byte p 1)) 12"

definition honda_tx_uds :: "CANPacket \<Rightarrow> bool" where
  "honda_tx_uds p = (\<not> (GET_BYTES p 0 4 \<noteq> 0x00803E02 \<or> GET_BYTES p 4 4 \<noteq> 0))"

definition honda_tx_hook :: "CANPacket \<Rightarrow> safety_state \<Rightarrow> bool \<times> safety_state" where
  "honda_tx_hook p s =
     (let tx = True;
          bus_pt = honda_get_pt_bus s;
          bus_buttons = (if honda_bosch_radarless (honda s) then 2 else bus_pt);
          tx = (if addr p = 0x30C \<and> bus p = bus_pt then tx \<and> honda_tx_acc_hud p s else tx);
          (ok, s) = (if addr p = 0x1FA \<and> bus p = bus_pt then honda_tx_brake p s else (True, s));
          tx = tx \<and> ok;
          tx = (if addr p = 0x1DF \<and> bus p = bus_pt then tx \<and> honda_tx_bosch_long p s else tx);
          tx = (if addr p = 0x1C8 \<and> bus p = bus_pt then
                  if longitudinal_accel_checks (honda_radarless_accel p) HONDA_BOSCH_LONG_LIMITS s
                  then False else tx
                else tx);
          tx = (if (addr p = 0xE4 \<or> addr p = 0x194) \<and> \<not> controls_allowed s \<and>
                   (byte p 0 OR byte p 1) \<noteq> 0 then False else tx);
          tx = (if addr p = 0xE5 then
                  if GET_BYTES p 0 4 \<noteq> 0x10800004 \<or> (GET_BYTES p 4 4 AND 0x00FFFFFF) \<noteq> 0
                  then False else tx
                else tx);
          tx = (if addr p = 0x296 \<and> \<not> controls_allowed s \<and> bus p = bus_buttons then
                  if (drop_bit 5 (byte p 0) AND 0x7) \<noteq> 2 then False else tx
                else tx);
          tx = (if addr p = 0x18DAB0F1 then tx \<and> honda_tx_uds p else tx)
      in (tx, s))"

definition honda_nidec_fwd_hook :: "int \<Rightarrow> int \<Rightarrow> safety_state \<Rightarrow> bool" where
  "honda_nidec_fwd_hook bus_num a s =
     (if bus_num = 2 then
        let is_brake_msg = a = 0x1FA in is_brake_msg \<and> \<not> honda_fwd_brake (honda s)
      else False)"

subsection \<open>Initialisation\<close>

definition honda_counted :: "CanMsgCheck \<Rightarrow> CanMsgCheck" where
  "honda_counted c = c\<lparr>max_counter := 3, ignore_quality_flag := True\<rparr>"

definition HONDA_COMMON_NO_SCM_FEEDBACK_RX_CHECKS :: "int \<Rightarrow> RxCheck list" where
  "HONDA_COMMON_NO_SCM_FEEDBACK_RX_CHECKS pt_bus =
     [rx_check (map honda_counted [msg_check 0x1A6 pt_bus 8 25, msg_check 0x296 pt_bus 4 25]),
      rx_check [honda_counted (msg_check 0x158 pt_bus 8 100)],
      rx_check [honda_counted (msg_check 0x17C pt_bus 8 100)]]"

definition HONDA_COMMON_RX_CHECKS :: "int \<Rightarrow> RxCheck list" where
  "HONDA_COMMON_RX_CHECKS pt_bus = HONDA_COMMON_NO_SCM_FEEDBACK_RX_CHECKS pt_bus @
     [rx_check [honda_counted (msg_check 0x326 pt_bus 8 10)]]"

definition HONDA_ALT_BRAKE_ADDR_CHECK :: "int \<Rightarrow> RxCheck list" where
  "HONDA_ALT_BRAKE_ADDR_CHECK pt_bus = [rx_check [honda_counted (msg_check 0x1BE pt_bus 3 50)]]"

definition HONDA_N_TX_MSGS :: "CanMsg list" where
  "HONDA_N_TX_MSGS = [tx_entry 0xE4 0 5 True, tx_entry 0x194 0 4 True, tx_entry 0x1FA 0 8 False,
     tx_entry 0x30C 0 8 True, tx_entry 0x33D 0 5 True]"

definition honda_nidec_init :: "u16 \<Rightarrow> safety_state \<Rightarrow> safety_config \<times> safety_state" where
  "honda_nidec_init param s =
     (let HONDA_PARAM_NIDEC_ALT = 4;
          s = s\<lparr>honda := \<lparr>honda_brake = 0, honda_brake_switch_prev = False,
                honda_alt_brake_msg = False, honda_fwd_brake = False, honda_bosch_long = False,
                honda_bosch_radarless = False, honda_bosch_canfd = False, honda_hw = HONDA_NIDEC\<rparr>\<rparr>;
          brake_command = [rx_check [honda_counted (msg_check 0x1FA 2 8 50)]];
          rxs = (if GET_FLAG param HONDA_PARAM_NIDEC_ALT
                 then HONDA_COMMON_NO_SCM_FEEDBACK_RX_CHECKS 0 @ brake_command
                 else HONDA_COMMON_RX_CHECKS 0 @ brake_command)
      in (\<lparr>rx_checks = rxs, tx_msgs = HONDA_N_TX_MSGS, disable_forwarding = False\<rparr>, s))"

definition HONDA_BOSCH_TX_MSGS :: "CanMsg list" where
  "HONDA_BOSCH_TX_MSGS = [tx_entry 0xE4 0 5 True, tx_entry 0xE5 0 8 True, tx_entry 0x296 1 4 False,
     tx_entry 0x33D 0 5 True, tx_entry 0x33D 0 8 True, tx_entry 0x33DA 0 5 True,
     tx_entry 0x33DB 0 8 True]"

definition HONDA_BOSCH_LONG_TX_MSGS :: "CanMsg list" where
  "HONDA_BOSCH_LONG_TX_MSGS = [tx_entry 0xE4 1 5 True, tx_entry 0x1DF 1 8 True,
     tx_entry 0x1EF 1 8 False, tx_entry 0x1FA 1 8 False, tx_entry 0x30C 1 8 False,
     tx_entry 0x33D 1 5 True, tx_entry 0x33DA 1 5 True, tx_entry 0x33DB 1 8 True,
     tx_entry 0x39F 1 8 False, tx_entry 0x18DAB0F1 1 8 False]"

definition HONDA_RADARLESS_TX_MSGS :: "CanMsg list" where
  "HONDA_RADARLESS_TX_MSGS = [tx_entry 0xE4 0 5 True, tx_entry 0x296 2 4 False,
     tx_entry 0x33D 0 8 True]"

definition HONDA_RADARLESS_LONG_TX_MSGS :: "CanMsg list" where
  "HONDA_RADARLESS_LONG_TX_MSGS = [tx_entry 0xE4 0 5 True, tx_entry 0x33D 0 8 True,
     tx_entry 0x1C8 0 8 True, tx_entry 0x30C 0 8 True]"

definition HONDA_CANFD_TX_MSGS :: "CanMsg list" where
  "HONDA_CANFD_TX_MSGS = [tx_entry 0xE4 0 5 True, tx_entry 0x296 0 4 False, tx_entry 0x33D 0 8 True]"

definition honda_bosch_init :: "build \<Rightarrow> u16 \<Rightarrow> safety_state \<Rightarrow> safety_config \<times> safety_state" where
  "honda_bosch_init B param s =
     (let HONDA_PARAM_ALT_BRAKE = 1;
          HONDA_PARAM_BOSCH_LONG = 2;
          HONDA_PARAM_RADARLESS = 8;
          HONDA_PARAM_BOSCH_CANFD = 16;
          h = (honda s)\<lparr>honda_hw := HONDA_BOSCH, honda_brake_switch_prev := False,
                honda_bosch_radarless := GET_FLAG param HONDA_PARAM_RADARLESS,
                honda_bosch_canfd := GET_FLAG param HONDA_PARAM_BOSCH_CANFD,
                honda_alt_brake_msg := GET_FLAG param HONDA_PARAM_ALT_BRAKE\<rparr>;
          h = (if ALLOW_DEBUG B then h\<lparr>honda_bosch_long := GET_FLAG param HONDA_PARAM_BOSCH_LONG\<rparr>
               else h);
          pt = (if honda_bosch_radarless h \<or> honda_bosch_canfd h then 0 else 1);
          rxs = (if honda_alt_brake_msg h then HONDA_COMMON_RX_CHECKS pt @ HONDA_ALT_BRAKE_ADDR_CHECK pt
                 else HONDA_COMMON_RX_CHECKS pt);
          txs = (if honda_bosch_radarless h then
                   if honda_bosch_long h then HONDA_RADARLESS_LONG_TX_MSGS else HONDA_RADARLESS_TX_MSGS
                 else if honda_bosch_canfd h then HONDA_CANFD_TX_MSGS
                 else if honda_bosch_long h then HONDA_BOSCH_LONG_TX_MSGS else HONDA_BOSCH_TX_MSGS)
      in (\<lparr>rx_checks = rxs, tx_msgs = txs, disable_forwarding = False\<rparr>, s\<lparr>honda := h\<rparr>))"

definition honda_nidec_hooks :: safety_hooks where
  "honda_nidec_hooks = \<lparr>init_hook = Some honda_nidec_init, rx_hook = honda_rx_hook,
     tx_hook = honda_tx_hook, fwd_hook = Some honda_nidec_fwd_hook,
     get_checksum = Some honda_get_checksum, compute_checksum = Some honda_compute_checksum,
     get_counter = Some honda_get_counter, get_quality_flag_valid = None\<rparr>"

definition honda_bosch_hooks :: "build \<Rightarrow> safety_hooks" where
  "honda_bosch_hooks B = \<lparr>init_hook = Some (honda_bosch_init B), rx_hook = honda_rx_hook,
     tx_hook = honda_tx_hook, fwd_hook = None, get_checksum = Some honda_get_checksum,
     compute_checksum = Some honda_compute_checksum, get_counter = Some honda_get_counter,
     get_quality_flag_valid = None\<rparr>"

subsection \<open>The contract\<close>

lemma honda_rx_steps:
  "rx_view (honda_rx_speed p s) = rx_view s" "samples_view (honda_rx_speed p s) = samples_view s"
  "rx_view (honda_rx_main p s) = rx_view s" "samples_view (honda_rx_main p s) = samples_view s"
  "rx_view (honda_rx_cruise p s) = rx_view s" "samples_view (honda_rx_cruise p s) = samples_view s"
  "rx_view (honda_rx_buttons p s) = rx_view s" "samples_view (honda_rx_buttons p s) = samples_view s"
  "rx_view (honda_rx_brake p s) = rx_view s" "samples_view (honda_rx_brake p s) = samples_view s"
  "rx_view (honda_rx_gas p s) = rx_view s" "samples_view (honda_rx_gas p s) = samples_view s"
  "rx_view (honda_rx_aeb p s) = rx_view s" "samples_view (honda_rx_aeb p s) = samples_view s"
  by (simp_all add: rx_view_def views Let_def honda_rx_speed_def honda_rx_main_def
      honda_rx_cruise_def honda_rx_buttons_def honda_rx_brake_def honda_rx_gas_def honda_rx_aeb_def)

lemma honda_rx_view: "rx_view (honda_rx_hook p s) = rx_view s"
  by (simp add: honda_rx_hook_def honda_rx_steps)

lemma honda_rx_samples: "samples_ok s \<Longrightarrow> samples_ok (honda_rx_hook p s)"
  by (simp add: honda_rx_hook_def honda_rx_steps(2,4,6,8,10,12,14) [THEN samples_view_ok])

lemma honda_tx_brake_frame: "frame_view (snd (honda_tx_brake p s)) = frame_view s"
  by (simp add: honda_tx_brake_def Let_def views_mode_statics)

lemma honda_tx_frame: "frame_view (snd (honda_tx_hook p s)) = frame_view s"
  by (simp add: honda_tx_hook_def Let_def split_beta if_distrib [of frame_view] honda_tx_brake_frame)

lemma init_view_honda: "init_view (s\<lparr>honda := h\<rparr>) = init_view s"
  by (simp add: init_view_def views)

lemma honda_init_views:
  "init_view (snd (honda_nidec_init param s)) = init_view s"
  "init_view (snd (honda_bosch_init B param s)) = init_view s"
  by (simp_all add: honda_nidec_init_def honda_bosch_init_def Let_def init_view_honda)

interpretation honda_nidec_mode: guarded_mode honda_nidec_hooks
  by (rule guarded_modeI)
    (auto simp: honda_nidec_hooks_def honda_tx_frame honda_rx_view honda_rx_samples honda_init_views)

interpretation honda_bosch_mode: guarded_mode "honda_bosch_hooks B" for B
  by (rule guarded_modeI)
    (auto simp: honda_bosch_hooks_def honda_tx_frame honda_rx_view honda_rx_samples honda_init_views)

end
