(* ===== verification/Mode_GM.thy ===== *)
theory Mode_GM
  imports Mode_Interface
begin

text \<open>
  \<^verbatim>\<open>car/opendbc/safety/modes/gm.h\<close>: torque steering, with the host in place of the ASCM
  module or on the camera bus, stock or openpilot longitudinal.
\<close>

abbreviation (input) GM_BTN_RESUME :: int where "GM_BTN_RESUME \<equiv> 2"
abbreviation (input) GM_BTN_SET :: int where "GM_BTN_SET \<equiv> 3"
abbreviation (input) GM_BTN_CANCEL :: int where "GM_BTN_CANCEL \<equiv> 6"

subsection \<open>Receive hook\<close>

definition GM_STANDSTILL_THRSLD :: int where "GM_STANDSTILL_THRSLD = 10"

definition gm_rx_torque :: "CANPacket \<Rightarrow> safety_state \<Rightarrow> safety_state" where
  "gm_rx_torque p s =
     (if addr p = 0x184 then
        let torque_driver_new = to_signed (push_bit 8 (byte p 6 AND 0x7) OR byte p 7) 11
        in s\<lparr>torque_driver := update_sample (torque_driver s) torque_driver_new\<rparr>
      else s)"

definition gm_rx_speed :: "CANPacket \<Rightarrow> safety_state \<Rightarrow> safety_state" where
  "gm_rx_speed p s =
     (if addr p = 0x34A then
        let left_rear_speed = push_bit 8 (byte p 0) OR byte p 1;
            right_rear_speed = push_bit 8 (byte p 2) OR byte p 3
        in s\<lparr>vehicle_moving := (left_rear_speed > GM_STANDSTILL_THRSLD \<or>
                right_rear_speed > GM_STANDSTILL_THRSLD)\<rparr>
      else s)"

definition gm_rx_buttons :: "CANPacket \<Rightarrow> safety_state \<Rightarrow> safety_state" where
  "gm_rx_buttons p s =
     (if addr p = 0x1E1 \<and> \<not> gm_pcm_cruise (gm s) then
        let button = drop_bit 4 (byte p 5 AND 0x70);
            set_btn = button \<noteq> GM_BTN_SET \<and> cruise_button_prev s = GM_BTN_SET;
            res = button = GM_BTN_RESUME \<and> cruise_button_prev s \<noteq> GM_BTN_RESUME;
            s = (if set_btn \<or> res then s\<lparr>controls_allowed := True\<rparr> else s);
            s = (if button = GM_BTN_CANCEL then s\<lparr>controls_allowed := False\<rparr> else s)
        in s\<lparr>cruise_button_prev := button\<rparr>
      else s)"

definition gm_rx_brake :: "CANPacket \<Rightarrow> safety_state \<Rightarrow> safety_state" where
  "gm_rx_brake p s =
     (let s = (if addr p = 0xBE \<and> gm_hw (gm s) = GM_ASCM
               then s\<lparr>brake_pressed := byte p 1 \<ge> 8\<rparr> else s)
      in if addr p = 0xC9 \<and> gm_hw (gm s) = GM_CAM
         then s\<lparr>brake_pressed := GET_BIT p 40\<rparr> else s)"

definition gm_rx_gas :: "CANPacket \<Rightarrow> safety_state \<Rightarrow> safety_state" where
  "gm_rx_gas p s =
     (if addr p = 0x1C4 then
        let s = s\<lparr>gas_pressed := byte p 5 \<noteq> 0\<rparr>
        in if gm_pcm_cruise (gm s) then pcm_cruise_check (drop_bit 5 (byte p 1) \<noteq> 0) s else s
      else s)"

definition gm_rx_regen :: "CANPacket \<Rightarrow> safety_state \<Rightarrow> safety_state" where
  "gm_rx_regen p s =
     (if addr p = 0xBD then s\<lparr>regen_braking := drop_bit 4 (byte p 0) \<noteq> 0\<rparr> else s)"

definition gm_rx_hook :: "CANPacket \<Rightarrow> safety_state \<Rightarrow> safety_state" where
  "gm_rx_hook p s =
     (if bus p = 0 then
        gm_rx_regen p (gm_rx_gas p (gm_rx_brake p (gm_rx_buttons p
          (gm_rx_speed p (gm_rx_torque p s)))))
      else s)"

subsection \<open>Transmit hook\<close>

definition GM_STEERING_LIMITS :: TorqueSteeringLimits where
  "GM_STEERING_LIMITS = torque_limits_zero\<lparr>max_torque := 300, max_rate_up := 10,
     max_rate_down := 15, driver_torque_allowance := 65, driver_torque_multiplier := 4,
     max_rt_delta := 128, control_type := TorqueDriverLimited\<rparr>"

definition gm_brake_cmd :: "CANPacket \<Rightarrow> int" where
  "gm_brake_cmd p =
     (let brake = push_bit 8 (byte p 0 AND 0xF) + byte p 1 in (0x1000 - brake) AND 0xFFF)"

definition gm_torque_cmd :: "CANPacket \<Rightarrow> int" where
  "gm_torque_cmd p = to_signed (push_bit 8 (byte p 0 AND 0x7) + byte p 1) 11"

definition gm_gas_regen :: "CANPacket \<Rightarrow> int" where
  "gm_gas_regen p = to_s32 (to_u32 ((push_bit 16 (byte p 1 AND 0x7) OR push_bit 8 (byte p 2) OR
     byte p 3) - 180272))"

definition gm_tx_hook :: "CANPacket \<Rightarrow> safety_state \<Rightarrow> bool \<times> safety_state" where
  "gm_tx_hook p s =
     (let tx = True;
          tx = (if addr p = 0x315 then
                  if longitudinal_brake_checks (gm_brake_cmd p) (gm_long_limits (gm s)) s
                  then False else tx
                else tx);
          (violation, s) =
            (if addr p = 0x180
             then steer_torque_cmd_checks (gm_torque_cmd p) (of_bool (GET_BIT p 3)) GM_STEERING_LIMITS s
             else (False, s));
          tx = (if violation then False else tx);
          tx = (if addr p = 0x2CB then
                  let apply = GET_BIT p 0;
                      violation = False;
                      violation = violation \<or> (\<not> controls_allowed s \<and> apply);
                      violation = violation \<or>
                        longitudinal_gas_checks (gm_gas_regen p) (gm_long_limits (gm s)) s
                  in if violation then False else tx
                else tx);
          tx = (if addr p = 0x1E1 \<and> gm_pcm_cruise (gm s) then
                  let button = drop_bit 4 (byte p 5) AND 0x7;
                      allowed_cancel = button = 6 \<and> cruise_engaged_prev s
                  in if \<not> allowed_cancel then False else tx
                else tx)
      in (tx, s))"

subsection \<open>Initialisation\<close>

definition GM_GAS_TO_CAN :: int where "GM_GAS_TO_CAN = 8"

definition GM_ASCM_LONG_LIMITS :: LongitudinalLimits where
  "GM_ASCM_LONG_LIMITS = long_limits_zero\<lparr>max_gas := 1018 * GM_GAS_TO_CAN,
     min_gas := -650 * GM_GAS_TO_CAN, inactive_gas := -650 * GM_GAS_TO_CAN, max_brake := 400\<rparr>"

definition GM_CAM_LONG_LIMITS :: LongitudinalLimits where
  "GM_CAM_LONG_LIMITS = long_limits_zero\<lparr>max_gas := 1346 * GM_GAS_TO_CAN,
     min_gas := -540 * GM_GAS_TO_CAN, inactive_gas := -500 * GM_GAS_TO_CAN, max_brake := 400\<rparr>"

definition GM_ASCM_TX_MSGS :: "CanMsg list" where
  "GM_ASCM_TX_MSGS = [tx_entry 0x180 0 4 True, tx_entry 0x409 0 7 False, tx_entry 0x40A 0 7 False,
     tx_entry 0x2CB 0 8 True, tx_entry 0x370 0 6 False, tx_entry 0xA1 1 7 False,
     tx_entry 0x306 1 8 False, tx_entry 0x308 1 7 False, tx_entry 0x310 1 2 False,
     tx_entry 0x315 2 5 False]"

definition GM_CAM_LONG_TX_MSGS :: "CanMsg list" where
  "GM_CAM_LONG_TX_MSGS = [tx_entry 0x180 0 4 True, tx_entry 0x315 0 5 True,
     tx_entry 0x2CB 0 8 True, tx_entry 0x370 0 6 True, tx_entry 0x184 2 8 True]"

definition GM_CAM_TX_MSGS :: "CanMsg list" where
  "GM_CAM_TX_MSGS = [tx_entry 0x180 0 4 True, tx_entry 0x1E1 2 7 False, tx_entry 0x184 2 8 True]"

definition gm_rx_checks :: "RxCheck list" where
  "gm_rx_checks =
     [rx_check [no_checks (msg_check 0x184 0 8 10)], rx_check [no_checks (msg_check 0x34A 0 5 10)],
      rx_check [no_checks (msg_check 0x1E1 0 7 10)],
      rx_check (map no_checks [msg_check 0xBE 0 6 10, msg_check 0xBE 0 7 10, msg_check 0xBE 0 8 10]),
      rx_check [no_checks (msg_check 0x1C4 0 8 10)], rx_check [no_checks (msg_check 0xC9 0 8 10)]]"

definition gm_ev_rx_checks :: "RxCheck list" where
  "gm_ev_rx_checks = gm_rx_checks @ [rx_check [no_checks (msg_check 0xBD 0 7 40)]]"

definition gm_init :: "build \<Rightarrow> u16 \<Rightarrow> safety_state \<Rightarrow> safety_config \<times> safety_state" where
  "gm_init B param s =
     (let GM_PARAM_HW_CAM = 1;
          GM_PARAM_HW_CAM_LONG = 2;
          GM_PARAM_EV = 4;
          hw = (if GET_FLAG param GM_PARAM_HW_CAM then GM_CAM else GM_ASCM);
          gm_cam_long = ALLOW_DEBUG B \<and> GET_FLAG param GM_PARAM_HW_CAM_LONG;
          g = \<lparr>gm_long_limits = (if hw = GM_ASCM then GM_ASCM_LONG_LIMITS else GM_CAM_LONG_LIMITS),
               gm_hw = hw, gm_pcm_cruise = (hw = GM_CAM \<and> \<not> gm_cam_long)\<rparr>;
          txs = (if hw = GM_CAM then if gm_cam_long then GM_CAM_LONG_TX_MSGS else GM_CAM_TX_MSGS
                 else GM_ASCM_TX_MSGS);
          rxs = (if GET_FLAG param GM_PARAM_EV then gm_ev_rx_checks else gm_rx_checks)
      in (\<lparr>rx_checks = rxs, tx_msgs = txs, disable_forwarding = (hw = GM_ASCM)\<rparr>, s\<lparr>gm := g\<rparr>))"

definition gm_hooks :: "build \<Rightarrow> safety_hooks" where
  "gm_hooks B = \<lparr>init_hook = Some (gm_init B), rx_hook = gm_rx_hook, tx_hook = gm_tx_hook,
     fwd_hook = None, get_checksum = None, compute_checksum = None, get_counter = None,
     get_quality_flag_valid = None\<rparr>"

subsection \<open>The contract\<close>

lemma gm_rx_steps:
  "rx_view (gm_rx_torque p s) = rx_view s"
  "rx_view (gm_rx_speed p s) = rx_view s"
  "rx_view (gm_rx_buttons p s) = rx_view s"
  "rx_view (gm_rx_brake p s) = rx_view s"
  "rx_view (gm_rx_gas p s) = rx_view s"
  "rx_view (gm_rx_regen p s) = rx_view s"
  "samples_view (gm_rx_speed p s) = samples_view s"
  "samples_view (gm_rx_buttons p s) = samples_view s"
  "samples_view (gm_rx_brake p s) = samples_view s"
  "samples_view (gm_rx_gas p s) = samples_view s"
  "samples_view (gm_rx_regen p s) = samples_view s"
  by (simp_all add: rx_view_def views Let_def gm_rx_torque_def gm_rx_speed_def gm_rx_buttons_def
      gm_rx_brake_def gm_rx_gas_def gm_rx_regen_def pcm_cruise_check_def)

lemma gm_rx_torque_samples: "samples_ok s \<Longrightarrow> samples_ok (gm_rx_torque p s)"
  by (simp add: gm_rx_torque_def Let_def samples_ok_def sample_ok_update)

lemma gm_rx_view: "rx_view (gm_rx_hook p s) = rx_view s"
  by (simp add: gm_rx_hook_def gm_rx_steps)

lemma gm_rx_samples: "samples_ok s \<Longrightarrow> samples_ok (gm_rx_hook p s)"
  by (simp add: gm_rx_hook_def gm_rx_torque_samples gm_rx_steps(7-11) [THEN samples_view_ok])

lemma gm_tx_frame: "frame_view (snd (gm_tx_hook p s)) = frame_view s"
  by (simp add: gm_tx_hook_def Let_def split_beta if_distrib [of frame_view] steering_frames)

interpretation gm_mode: guarded_mode "gm_hooks B" for B
  by (rule guarded_modeI)
    (auto simp: gm_hooks_def gm_tx_frame gm_rx_view gm_rx_samples gm_init_def init_view_def
      views Let_def)

end
