(* ===== verification/Mode_Hyundai.thy ===== *)
theory Mode_Hyundai
  imports Mode_Interface
begin

text \<open>
  \<^verbatim>\<open>car/opendbc/safety/modes/hyundai_common.h\<close> (parameters, engagement by cruise state or by
  buttons) and \<^verbatim>\<open>modes/hyundai.h\<close> (the mode and its legacy variant).
\<close>

subsection \<open>hyundai_common.h\<close>

definition HYUNDAI_PREV_BUTTON_SAMPLES :: int where "HYUNDAI_PREV_BUTTON_SAMPLES = 8"
definition HYUNDAI_STANDSTILL_THRSLD :: u32 where "HYUNDAI_STANDSTILL_THRSLD = 12"

abbreviation (input) HYUNDAI_BTN_RESUME :: int where "HYUNDAI_BTN_RESUME \<equiv> 1"
abbreviation (input) HYUNDAI_BTN_SET :: int where "HYUNDAI_BTN_SET \<equiv> 2"
abbreviation (input) HYUNDAI_BTN_CANCEL :: int where "HYUNDAI_BTN_CANCEL \<equiv> 4"

definition hyundai_common_init :: "build \<Rightarrow> u16 \<Rightarrow> safety_state \<Rightarrow> safety_state" where
  "hyundai_common_init B param s =
     (let ev = GET_FLAG param 1
      in s\<lparr>hyundai := (hyundai s)\<lparr>
        hyundai_ev_gas_signal := ev,
        hyundai_hybrid_gas_signal := \<not> ev \<and> GET_FLAG param 2,
        hyundai_camera_scc := GET_FLAG param 8,
        hyundai_canfd_lka_steering := GET_FLAG param 16,
        hyundai_alt_limits := GET_FLAG param 64,
        hyundai_fcev_gas_signal := GET_FLAG param 256,
        hyundai_alt_limits_2 := GET_FLAG param 512,
        hyundai_last_button_interaction := HYUNDAI_PREV_BUTTON_SAMPLES,
        hyundai_longitudinal := (ALLOW_DEBUG B \<and> GET_FLAG param 4)\<rparr>\<rparr>)"

definition hyundai_common_cruise_state_check :: "bool \<Rightarrow> safety_state \<Rightarrow> safety_state" where
  "hyundai_common_cruise_state_check cruise_engaged s =
     (if \<not> hyundai_longitudinal (hyundai s) then
        let s = (if cruise_engaged \<and> \<not> cruise_engaged_prev s \<and>
                    hyundai_last_button_interaction (hyundai s) < HYUNDAI_PREV_BUTTON_SAMPLES
                 then s\<lparr>controls_allowed := True\<rparr> else s);
            s = (if \<not> cruise_engaged then s\<lparr>controls_allowed := False\<rparr> else s)
        in s\<lparr>cruise_engaged_prev := cruise_engaged\<rparr>
      else s)"

definition hyundai_common_cruise_buttons_check :: "int \<Rightarrow> bool \<Rightarrow> safety_state \<Rightarrow> safety_state" where
  "hyundai_common_cruise_buttons_check cruise_button main_button s =
     (let pressed = cruise_button = HYUNDAI_BTN_RESUME \<or> cruise_button = HYUNDAI_BTN_SET \<or>
            cruise_button = HYUNDAI_BTN_CANCEL \<or> main_button;
          s = s\<lparr>hyundai := (hyundai s)\<lparr>hyundai_last_button_interaction :=
                (if pressed then 0
                 else CMIN (hyundai_last_button_interaction (hyundai s) + 1)
                        HYUNDAI_PREV_BUTTON_SAMPLES)\<rparr>\<rparr>
      in if hyundai_longitudinal (hyundai s) then
           let set_btn = cruise_button \<noteq> HYUNDAI_BTN_SET \<and> cruise_button_prev s = HYUNDAI_BTN_SET;
               res = cruise_button \<noteq> HYUNDAI_BTN_RESUME \<and> cruise_button_prev s = HYUNDAI_BTN_RESUME;
               s = (if set_btn \<or> res then s\<lparr>controls_allowed := True\<rparr> else s);
               s = (if cruise_button = HYUNDAI_BTN_CANCEL then s\<lparr>controls_allowed := False\<rparr> else s)
           in s\<lparr>cruise_button_prev := cruise_button\<rparr>
         else s)"

subsection \<open>Message checks\<close>

definition hyundai_get_counter :: "CANPacket \<Rightarrow> u8" where
  "hyundai_get_counter p =
     (if addr p = 0x260 then drop_bit 4 (data p ! 7) AND 0x3
      else if addr p = 0x386 then push_bit 2 (drop_bit 6 (data p ! 3)) OR drop_bit 6 (data p ! 1)
      else if addr p = 0x394 then drop_bit 5 (data p ! 1) AND 0x7
      else if addr p = 0x421 then data p ! 7 AND 0xF
      else if addr p = 0x4F1 then drop_bit 4 (data p ! 3) AND 0xF
      else 0)"

definition hyundai_get_checksum :: "CANPacket \<Rightarrow> u32" where
  "hyundai_get_checksum p =
     (if addr p = 0x260 then ucast (data p ! 7 AND 0xF)
      else if addr p = 0x386
      then ucast (push_bit 2 (drop_bit 6 (data p ! 7)) OR drop_bit 6 (data p ! 5))
      else if addr p = 0x394 then ucast (data p ! 6 AND 0xF)
      else if addr p = 0x421 then ucast (drop_bit 4 (data p ! 7))
      else 0)"

text \<open>The bits of message \<open>0x386\<close> outside its counter and checksum.\<close>

definition hyundai_bit_counted :: "nat \<Rightarrow> nat \<Rightarrow> bool" where
  "hyundai_bit_counted i j \<longleftrightarrow>
     (i \<noteq> 1 \<or> j < 6) \<and> (i \<noteq> 3 \<or> j < 6) \<and> (i \<noteq> 5 \<or> j < 6) \<and> (i \<noteq> 7 \<or> j < 6)"

definition hyundai_bit_count :: "CANPacket \<Rightarrow> u8" where
  "hyundai_bit_count p =
     fold (\<lambda>i c. fold (\<lambda>j c. c + (if hyundai_bit_counted i j then of_bool (bit (data p ! i) j) else 0))
                   [0..<8] c) [0..<8] 0"

definition hyundai_nibble_sum :: "CANPacket \<Rightarrow> u8" where
  "hyundai_nibble_sum p =
     fold (\<lambda>i c.
        if addr p = 0x394 \<and> i = 7 then c
        else
          let b = data p ! i;
              b = (if (addr p = 0x260 \<and> i = 7) \<or> (addr p = 0x394 \<and> i = 6) \<or> (addr p = 0x421 \<and> i = 7)
                   then b AND (if addr p = 0x421 then 0x0F else 0xF0) else b)
          in c + (b mod 16 + b div 16)) [0..<8] 0"

definition hyundai_compute_checksum :: "CANPacket \<Rightarrow> u32" where
  "hyundai_compute_checksum p =
     (if addr p = 0x386 then ucast ((hyundai_bit_count p XOR 9) AND 15)
      else ucast ((16 - hyundai_nibble_sum p mod 16) mod 16))"

subsection \<open>Receive hook\<close>

definition hyundai_rx_scc :: "CANPacket \<Rightarrow> safety_state \<Rightarrow> safety_state" where
  "hyundai_rx_scc p s =
     (if addr p = 0x421 \<and>
         ((bus p = 0 \<and> \<not> hyundai_camera_scc (hyundai s)) \<or> (bus p = 2 \<and> hyundai_camera_scc (hyundai s)))
      then hyundai_common_cruise_state_check ((drop_bit 13 (GET_BYTES p 0 4) AND 0x3) \<noteq> 0) s
      else s)"

definition hyundai_rx_torque :: "CANPacket \<Rightarrow> safety_state \<Rightarrow> safety_state" where
  "hyundai_rx_torque p s =
     (if addr p = 0x251 then
        let torque_driver_new = to_s32 (to_u32 (uint (GET_BYTES p 0 2 AND 0x7ff) - 1024))
        in s\<lparr>torque_driver := update_sample (torque_driver s) torque_driver_new\<rparr>
      else s)"

definition hyundai_rx_buttons :: "CANPacket \<Rightarrow> safety_state \<Rightarrow> safety_state" where
  "hyundai_rx_buttons p s =
     (if addr p = 0x4F1
      then hyundai_common_cruise_buttons_check (byte p 0 AND 0x7) (GET_BIT p 3) s else s)"

definition hyundai_rx_gas :: "CANPacket \<Rightarrow> safety_state \<Rightarrow> safety_state" where
  "hyundai_rx_gas p s =
     (if addr p = 0x371 \<and> hyundai_ev_gas_signal (hyundai s)
      then s\<lparr>gas_pressed := (push_bit 1 (byte p 4 AND 0x7F) OR drop_bit 7 (byte p 3)) \<noteq> 0\<rparr>
      else if addr p = 0x371 \<and> hyundai_hybrid_gas_signal (hyundai s)
      then s\<lparr>gas_pressed := byte p 7 \<noteq> 0\<rparr>
      else if addr p = 0x91 \<and> hyundai_fcev_gas_signal (hyundai s)
      then s\<lparr>gas_pressed := byte p 6 \<noteq> 0\<rparr>
      else if addr p = 0x260 \<and> \<not> hyundai_ev_gas_signal (hyundai s) \<and>
              \<not> hyundai_hybrid_gas_signal (hyundai s)
      then s\<lparr>gas_pressed := drop_bit 6 (byte p 7) \<noteq> 0\<rparr>
      else s)"

definition hyundai_rx_speed :: "CANPacket \<Rightarrow> safety_state \<Rightarrow> safety_state" where
  "hyundai_rx_speed p s =
     (if addr p = 0x386 then
        let front_left_speed = GET_BYTES p 0 2 AND 0x3FFF;
            rear_right_speed = GET_BYTES p 6 2 AND 0x3FFF
        in s\<lparr>vehicle_moving := (front_left_speed > HYUNDAI_STANDSTILL_THRSLD \<or>
               rear_right_speed > HYUNDAI_STANDSTILL_THRSLD)\<rparr>
      else s)"

definition hyundai_rx_brake :: "CANPacket \<Rightarrow> safety_state \<Rightarrow> safety_state" where
  "hyundai_rx_brake p s =
     (if addr p = 0x394
      then s\<lparr>brake_pressed := (drop_bit 5 (byte p 5) AND 0x3) = 0x2\<rparr> else s)"

definition hyundai_rx_hook :: "CANPacket \<Rightarrow> safety_state \<Rightarrow> safety_state" where
  "hyundai_rx_hook p s =
     (let s = hyundai_rx_scc p s
      in if bus p = 0 then
           hyundai_rx_brake p (hyundai_rx_speed p (hyundai_rx_gas p (hyundai_rx_buttons p
             (hyundai_rx_torque p s))))
         else s)"

subsection \<open>Transmit hook\<close>

definition HYUNDAI_LIMITS :: "int \<Rightarrow> int \<Rightarrow> int \<Rightarrow> TorqueSteeringLimits" where
  "HYUNDAI_LIMITS steer rate_up rate_down = torque_limits_zero\<lparr>max_torque := steer,
     max_rate_up := rate_up, max_rate_down := rate_down, max_rt_delta := 112,
     driver_torque_allowance := 50, driver_torque_multiplier := 2,
     control_type := TorqueDriverLimited, min_valid_request_frames := 89,
     max_invalid_request_frames := 2, min_valid_request_rt_interval := 810000,
     has_steer_req_tolerance := True\<rparr>"

definition HYUNDAI_LONG_LIMITS :: LongitudinalLimits where
  "HYUNDAI_LONG_LIMITS = long_limits_zero\<lparr>max_accel := 200, min_accel := -350\<rparr>"

definition hyundai_limits :: "safety_state \<Rightarrow> TorqueSteeringLimits" where
  "hyundai_limits s =
     (if hyundai_alt_limits_2 (hyundai s) then HYUNDAI_LIMITS 170 2 3
      else if hyundai_alt_limits (hyundai s) then HYUNDAI_LIMITS 270 2 3
      else HYUNDAI_LIMITS 384 3 7)"

definition hyundai_tx_fca :: "CANPacket \<Rightarrow> bool" where
  "hyundai_tx_fca p =
     (let CR_VSM_DecCmd = byte p 1; FCA_CmdAct = GET_BIT p 20; CF_VSM_DecCmdAct = GET_BIT p 31
      in \<not> (CR_VSM_DecCmd \<noteq> 0 \<or> FCA_CmdAct \<or> CF_VSM_DecCmdAct))"

definition hyundai_accel_raw :: "CANPacket \<Rightarrow> int" where
  "hyundai_accel_raw p = to_s32 (to_u32 ((push_bit 8 (byte p 4 AND 0x7) OR byte p 3) - 1023))"

definition hyundai_accel_val :: "CANPacket \<Rightarrow> int" where
  "hyundai_accel_val p = to_s32 (to_u32 ((push_bit 3 (byte p 5) OR drop_bit 5 (byte p 4)) - 1023))"

definition hyundai_tx_accel :: "CANPacket \<Rightarrow> safety_state \<Rightarrow> bool" where
  "hyundai_tx_accel p s =
     (let aeb_decel_cmd = byte p 2; aeb_req = GET_BIT p 54;
          violation = longitudinal_accel_checks (hyundai_accel_raw p) HYUNDAI_LONG_LIMITS s;
          violation = violation \<or> longitudinal_accel_checks (hyundai_accel_val p) HYUNDAI_LONG_LIMITS s;
          violation = violation \<or> aeb_decel_cmd \<noteq> 0;
          violation = violation \<or> aeb_req
      in \<not> violation)"

definition hyundai_torque_cmd :: "CANPacket \<Rightarrow> int" where
  "hyundai_torque_cmd p = to_s32 (to_u32 (uint (drop_bit 16 (GET_BYTES p 0 4) AND 0x7ff) - 1024))"

definition hyundai_tx_uds :: "CANPacket \<Rightarrow> bool" where
  "hyundai_tx_uds p = (\<not> (GET_BYTES p 0 4 \<noteq> 0x00803E02 \<or> GET_BYTES p 4 4 \<noteq> 0))"

definition hyundai_tx_hook :: "CANPacket \<Rightarrow> safety_state \<Rightarrow> bool \<times> safety_state" where
  "hyundai_tx_hook p s =
     (let tx = True;
          tx = (if addr p = 0x38D then tx \<and> hyundai_tx_fca p else tx);
          tx = (if addr p = 0x421 then tx \<and> hyundai_tx_accel p s else tx);
          (violation, s) =
            (if addr p = 0x340
             then steer_torque_cmd_checks (hyundai_torque_cmd p) (of_bool (GET_BIT p 27)) (hyundai_limits s) s
             else (False, s));
          tx = (if violation then False else tx);
          tx = (if addr p = 0x7D0 then tx \<and> hyundai_tx_uds p else tx);
          tx = (if addr p = 0x4F1 \<and> \<not> hyundai_longitudinal (hyundai s) then
                  let button = byte p 0 AND 0x7;
                      allowed_resume = button = 1 \<and> controls_allowed s;
                      allowed_cancel = button = 4 \<and> cruise_engaged_prev s
                  in if \<not> (allowed_resume \<or> allowed_cancel) then False else tx
                else tx)
      in (tx, s))"

subsection \<open>Initialisation\<close>

definition HYUNDAI_COMMON_TX_MSGS :: "int \<Rightarrow> CanMsg list" where
  "HYUNDAI_COMMON_TX_MSGS scc_bus =
     [tx_entry 0x340 0 8 True, tx_entry 0x4F1 scc_bus 4 False, tx_entry 0x485 0 4 True]"

definition HYUNDAI_LONG_COMMON_TX_MSGS :: "int \<Rightarrow> CanMsg list" where
  "HYUNDAI_LONG_COMMON_TX_MSGS scc_bus = HYUNDAI_COMMON_TX_MSGS scc_bus @
     [tx_entry 0x420 0 8 True, tx_entry 0x421 0 8 True, tx_entry 0x50A 0 8 True,
      tx_entry 0x389 0 8 True, tx_entry 0x4A2 0 2 False]"

definition HYUNDAI_LONG_TX_MSGS :: "CanMsg list" where
  "HYUNDAI_LONG_TX_MSGS = HYUNDAI_LONG_COMMON_TX_MSGS 0 @
     [tx_entry 0x38D 0 8 False, tx_entry 0x483 0 8 False, tx_entry 0x7D0 0 8 False]"

definition HYUNDAI_COMMON_RX_CHECKS :: "bool \<Rightarrow> RxCheck list" where
  "HYUNDAI_COMMON_RX_CHECKS legacy =
     [rx_check [(msg_check 0x260 0 8 100)\<lparr>max_counter := 3, ignore_quality_flag := True\<rparr>,
        no_checks (msg_check 0x371 0 8 100)],
      rx_check [(msg_check 0x386 0 8 100)\<lparr>ignore_checksum := legacy, ignore_counter := legacy,
        max_counter := (if legacy then 0 else 15), ignore_quality_flag := True\<rparr>],
      rx_check [(msg_check 0x394 0 8 100)\<lparr>ignore_checksum := legacy, ignore_counter := legacy,
        max_counter := (if legacy then 0 else 7), ignore_quality_flag := True\<rparr>],
      rx_check [no_checks (msg_check 0x251 0 8 50)],
      rx_check [(msg_check 0x4F1 0 4 50)\<lparr>ignore_checksum := True, max_counter := 15,
        ignore_quality_flag := True\<rparr>]]"

definition HYUNDAI_SCC12_ADDR_CHECK :: "int \<Rightarrow> RxCheck list" where
  "HYUNDAI_SCC12_ADDR_CHECK scc_bus =
     [rx_check [(msg_check 0x421 scc_bus 8 50)\<lparr>max_counter := 15, ignore_quality_flag := True\<rparr>]]"

definition HYUNDAI_FCEV_GAS_ADDR_CHECK :: "RxCheck list" where
  "HYUNDAI_FCEV_GAS_ADDR_CHECK = [rx_check [no_checks (msg_check 0x91 0 8 100)]]"

definition hyundai_init :: "build \<Rightarrow> u16 \<Rightarrow> safety_state \<Rightarrow> safety_config \<times> safety_state" where
  "hyundai_init B param s =
     (let s = hyundai_common_init B param s;
          s = s\<lparr>hyundai := (hyundai s)\<lparr>hyundai_legacy := False\<rparr>\<rparr>;
          h = hyundai s;
          fcev = (if hyundai_fcev_gas_signal h then HYUNDAI_FCEV_GAS_ADDR_CHECK else []);
          (rxs, txs) =
            (if hyundai_longitudinal h then
               (HYUNDAI_COMMON_RX_CHECKS False @ fcev,
                if hyundai_camera_scc h then HYUNDAI_LONG_COMMON_TX_MSGS 2 else HYUNDAI_LONG_TX_MSGS)
             else if hyundai_camera_scc h then
               (HYUNDAI_COMMON_RX_CHECKS False @ HYUNDAI_SCC12_ADDR_CHECK 2, HYUNDAI_COMMON_TX_MSGS 2)
             else
               (HYUNDAI_COMMON_RX_CHECKS False @ HYUNDAI_SCC12_ADDR_CHECK 0 @ fcev,
                HYUNDAI_COMMON_TX_MSGS 0))
      in (\<lparr>rx_checks = rxs, tx_msgs = txs, disable_forwarding = False\<rparr>, s))"

definition hyundai_legacy_init :: "build \<Rightarrow> u16 \<Rightarrow> safety_state \<Rightarrow> safety_config \<times> safety_state" where
  "hyundai_legacy_init B param s =
     (let s = hyundai_common_init B param s;
          s = s\<lparr>hyundai := (hyundai s)\<lparr>hyundai_legacy := True, hyundai_longitudinal := False,
                  hyundai_camera_scc := False\<rparr>\<rparr>
      in (\<lparr>rx_checks = HYUNDAI_COMMON_RX_CHECKS True @ HYUNDAI_SCC12_ADDR_CHECK 0,
           tx_msgs = HYUNDAI_COMMON_TX_MSGS 0, disable_forwarding = False\<rparr>, s))"

definition hyundai_hooks :: "build \<Rightarrow> safety_hooks" where
  "hyundai_hooks B = \<lparr>init_hook = Some (hyundai_init B), rx_hook = hyundai_rx_hook,
     tx_hook = hyundai_tx_hook, fwd_hook = None, get_checksum = Some hyundai_get_checksum,
     compute_checksum = Some hyundai_compute_checksum, get_counter = Some hyundai_get_counter,
     get_quality_flag_valid = None\<rparr>"

definition hyundai_legacy_hooks :: "build \<Rightarrow> safety_hooks" where
  "hyundai_legacy_hooks B = \<lparr>init_hook = Some (hyundai_legacy_init B), rx_hook = hyundai_rx_hook,
     tx_hook = hyundai_tx_hook, fwd_hook = None, get_checksum = Some hyundai_get_checksum,
     compute_checksum = Some hyundai_compute_checksum, get_counter = Some hyundai_get_counter,
     get_quality_flag_valid = None\<rparr>"

subsection \<open>The contract\<close>

lemma hyundai_common_views:
  "rx_view (hyundai_common_cruise_state_check c s) = rx_view s"
  "samples_view (hyundai_common_cruise_state_check c s) = samples_view s"
  "rx_view (hyundai_common_cruise_buttons_check b m s) = rx_view s"
  "samples_view (hyundai_common_cruise_buttons_check b m s) = samples_view s"
  by (simp_all add: rx_view_def views Let_def hyundai_common_cruise_state_check_def
      hyundai_common_cruise_buttons_check_def)

lemma hyundai_rx_steps:
  "rx_view (hyundai_rx_scc p s) = rx_view s"
  "rx_view (hyundai_rx_torque p s) = rx_view s"
  "rx_view (hyundai_rx_buttons p s) = rx_view s"
  "rx_view (hyundai_rx_gas p s) = rx_view s"
  "rx_view (hyundai_rx_speed p s) = rx_view s"
  "rx_view (hyundai_rx_brake p s) = rx_view s"
  "samples_view (hyundai_rx_scc p s) = samples_view s"
  "samples_view (hyundai_rx_buttons p s) = samples_view s"
  "samples_view (hyundai_rx_gas p s) = samples_view s"
  "samples_view (hyundai_rx_speed p s) = samples_view s"
  "samples_view (hyundai_rx_brake p s) = samples_view s"
  by (simp_all add: hyundai_rx_scc_def hyundai_rx_buttons_def hyundai_common_views)
    (simp_all add: rx_view_def views Let_def hyundai_rx_torque_def hyundai_rx_gas_def
      hyundai_rx_speed_def hyundai_rx_brake_def)

lemma hyundai_rx_torque_samples: "samples_ok s \<Longrightarrow> samples_ok (hyundai_rx_torque p s)"
  by (simp add: hyundai_rx_torque_def Let_def samples_ok_def sample_ok_update)

lemma hyundai_rx_view: "rx_view (hyundai_rx_hook p s) = rx_view s"
  by (simp add: hyundai_rx_hook_def Let_def hyundai_rx_steps)

lemma hyundai_rx_samples: "samples_ok s \<Longrightarrow> samples_ok (hyundai_rx_hook p s)"
  by (simp add: hyundai_rx_hook_def Let_def hyundai_rx_torque_samples
      hyundai_rx_steps(7-11) [THEN samples_view_ok])

lemma hyundai_tx_frame: "frame_view (snd (hyundai_tx_hook p s)) = frame_view s"
  by (simp add: hyundai_tx_hook_def Let_def split_beta if_distrib [of frame_view] steering_frames)

lemma init_view_hyundai: "init_view (s\<lparr>hyundai := h\<rparr>) = init_view s"
  by (simp add: init_view_def views)

lemma hyundai_init_views:
  "init_view (snd (hyundai_init B param s)) = init_view s"
  "init_view (snd (hyundai_legacy_init B param s)) = init_view s"
  by (simp_all add: hyundai_init_def hyundai_legacy_init_def hyundai_common_init_def Let_def
      split_beta init_view_hyundai)

interpretation hyundai_mode: guarded_mode "hyundai_hooks B" for B
  by (rule guarded_modeI)
    (auto simp: hyundai_hooks_def hyundai_tx_frame hyundai_rx_view hyundai_rx_samples
      hyundai_init_views)

interpretation hyundai_legacy_mode: guarded_mode "hyundai_legacy_hooks B" for B
  by (rule guarded_modeI)
    (auto simp: hyundai_legacy_hooks_def hyundai_tx_frame hyundai_rx_view hyundai_rx_samples
      hyundai_init_views)

end
