(* ===== verification/Mode_Hyundai_CANFD.thy ===== *)
theory Mode_Hyundai_CANFD
  imports Mode_Hyundai
begin

text \<open>
  \<^verbatim>\<open>car/opendbc/safety/modes/hyundai_canfd.h\<close>, and the CAN FD checksum of
  \<^verbatim>\<open>hyundai_common.h\<close>: the Hyundai mode for cars whose main bus is CAN FD, with two wirings of
  the steering command and three sources of the cruise state. The CRC table the initialisation
  fills is written as the generator's result.
\<close>

subsection \<open>Message checks\<close>

definition hyundai_canfd_crc_lut :: "u16 list" where
  "hyundai_canfd_crc_lut = gen_crc_lookup_table_16 0x1021"

definition hyundai_canfd_crc_byte :: "u8 \<Rightarrow> u16 \<Rightarrow> u16" where
  "hyundai_canfd_crc_byte b crc =
     push_bit 8 crc XOR hyundai_canfd_crc_lut ! unat (drop_bit 8 crc XOR ucast b)"

definition hyundai_common_canfd_compute_checksum :: "CANPacket \<Rightarrow> u32" where
  "hyundai_common_canfd_compute_checksum p =
     (let len = GET_LEN p;
          crc = fold (\<lambda>i crc. hyundai_canfd_crc_byte (data p ! i) crc) [2..<nat len] 0;
          crc = hyundai_canfd_crc_byte (word_of_int (addr p AND 0xFF)) crc;
          crc = hyundai_canfd_crc_byte (word_of_int (drop_bit 8 (addr p) AND 0xFF)) crc;
          crc = (if len = 24 then crc XOR 0x819d
                 else if len = 32 then crc XOR 0x9f5b
                 else crc)
      in ucast crc)"

definition hyundai_canfd_get_counter :: "CANPacket \<Rightarrow> u8" where
  "hyundai_canfd_get_counter p = (if GET_LEN p = 8 then drop_bit 4 (data p ! 1) else data p ! 2)"

definition hyundai_canfd_get_checksum :: "CANPacket \<Rightarrow> u32" where
  "hyundai_canfd_get_checksum p = ucast (data p ! 0) OR push_bit 8 (ucast (data p ! 1))"

definition hyundai_canfd_get_lka_addr :: "safety_state \<Rightarrow> int" where
  "hyundai_canfd_get_lka_addr s =
     (if hyundai_canfd_lka_steering_alt (hyundai s) then 0x110 else 0x50)"

subsection \<open>Receive hook\<close>

definition hyundai_canfd_rx_torque :: "CANPacket \<Rightarrow> safety_state \<Rightarrow> safety_state" where
  "hyundai_canfd_rx_torque p s =
     (if addr p = 0xea then
        let torque_driver_new = (push_bit 8 (byte p 11 AND 0x1f) OR byte p 10) - 4095
        in s\<lparr>torque_driver := update_sample (torque_driver s) torque_driver_new\<rparr>
      else s)"

definition hyundai_canfd_rx_buttons :: "CANPacket \<Rightarrow> safety_state \<Rightarrow> safety_state" where
  "hyundai_canfd_rx_buttons p s =
     (let button_addr = (if hyundai_canfd_alt_buttons (hyundai s) then 0x1aa else 0x1cf) in
      if addr p = button_addr then
        if addr p = 0x1cf
        then hyundai_common_cruise_buttons_check (byte p 2 AND 0x7) (GET_BIT p 19) s
        else hyundai_common_cruise_buttons_check (drop_bit 4 (byte p 4) AND 0x7) (GET_BIT p 34) s
      else s)"

definition hyundai_canfd_rx_pedals :: "CANPacket \<Rightarrow> safety_state \<Rightarrow> safety_state" where
  "hyundai_canfd_rx_pedals p s =
     (let ev = hyundai_ev_gas_signal (hyundai s);
          hybrid = hyundai_hybrid_gas_signal (hyundai s);
          s = (if addr p = 0x35 \<and> ev then s\<lparr>gas_pressed := (byte p 5 \<noteq> 0)\<rparr>
               else if addr p = 0x105 \<and> hybrid
               then s\<lparr>gas_pressed := (GET_BIT p 103 \<or> byte p 13 \<noteq> 0 \<or> GET_BIT p 112)\<rparr>
               else if addr p = 0x100 \<and> \<not> ev \<and> \<not> hybrid
               then s\<lparr>gas_pressed := GET_BIT p 176\<rparr>
               else s)
      in if addr p = 0x175 then s\<lparr>brake_pressed := GET_BIT p 81\<rparr> else s)"

definition hyundai_canfd_wheel :: "CANPacket \<Rightarrow> nat \<Rightarrow> u32" where
  "hyundai_canfd_wheel p i = GET_BYTES p i 2 AND 0x3FFF"

definition hyundai_canfd_rx_speed :: "CANPacket \<Rightarrow> safety_state \<Rightarrow> safety_state" where
  "hyundai_canfd_rx_speed p s =
     (if addr p = 0xa0 then
        let fl = hyundai_canfd_wheel p 8;
            fr = hyundai_canfd_wheel p 10;
            rl = hyundai_canfd_wheel p 12;
            rr = hyundai_canfd_wheel p 14;
            s = s\<lparr>vehicle_moving := (fl > HYUNDAI_STANDSTILL_THRSLD \<or> fr > HYUNDAI_STANDSTILL_THRSLD \<or>
                  rl > HYUNDAI_STANDSTILL_THRSLD \<or> rr > HYUNDAI_STANDSTILL_THRSLD)\<rparr>
        in UPDATE_VEHICLE_SPEED
             (fmul (fmul (fdiv (fint (uint (fr + rr + rl + fl))) 4) (1 / 32)) KPH_TO_MS) s
      else s)"

definition hyundai_canfd_rx_scc :: "CANPacket \<Rightarrow> safety_state \<Rightarrow> safety_state" where
  "hyundai_canfd_rx_scc p s =
     (if addr p = 0x1a0 \<and> \<not> hyundai_longitudinal (hyundai s) then
        let cruise_status = drop_bit 4 (byte p 8) AND 0x7
        in hyundai_common_cruise_state_check (cruise_status = 1 \<or> cruise_status = 2) s
      else s)"

definition hyundai_canfd_rx_hook :: "CANPacket \<Rightarrow> safety_state \<Rightarrow> safety_state" where
  "hyundai_canfd_rx_hook p s =
     (let pt_bus = (if hyundai_canfd_lka_steering (hyundai s) then 1 else 0);
          scc_bus = (if hyundai_camera_scc (hyundai s) then 2 else pt_bus);
          s = (if bus p = pt_bus
               then hyundai_canfd_rx_speed p (hyundai_canfd_rx_pedals p (hyundai_canfd_rx_buttons p
                      (hyundai_canfd_rx_torque p s)))
               else s)
      in if bus p = scc_bus then hyundai_canfd_rx_scc p s else s)"

subsection \<open>Transmit hook\<close>

definition HYUNDAI_CANFD_STEERING_LIMITS :: TorqueSteeringLimits where
  "HYUNDAI_CANFD_STEERING_LIMITS = torque_limits_zero\<lparr>max_torque := 270, max_rt_delta := 112,
     max_rate_up := 2, max_rate_down := 3, driver_torque_allowance := 250,
     driver_torque_multiplier := 2, control_type := TorqueDriverLimited,
     min_valid_request_frames := 89, max_invalid_request_frames := 2,
     min_valid_request_rt_interval := 810000, has_steer_req_tolerance := True\<rparr>"

definition hyundai_canfd_torque_cmd :: "CANPacket \<Rightarrow> int" where
  "hyundai_canfd_torque_cmd p =
     to_s32 (to_u32 ((push_bit 7 (byte p 6 AND 0xF) OR drop_bit 1 (byte p 5)) - 1024))"

definition hyundai_canfd_steer_addr :: "safety_state \<Rightarrow> int" where
  "hyundai_canfd_steer_addr s =
     (if hyundai_canfd_lka_steering (hyundai s) \<and> \<not> hyundai_longitudinal (hyundai s)
      then hyundai_canfd_get_lka_addr s else 0x12a)"

definition hyundai_canfd_accel_raw :: "CANPacket \<Rightarrow> int" where
  "hyundai_canfd_accel_raw p = to_s32 (to_u32 ((push_bit 8 (byte p 17 AND 0x7) OR byte p 16) - 1023))"

definition hyundai_canfd_accel_val :: "CANPacket \<Rightarrow> int" where
  "hyundai_canfd_accel_val p = to_s32 (to_u32 ((push_bit 4 (byte p 18) OR drop_bit 4 (byte p 17)) - 1023))"

definition hyundai_canfd_tx_button :: "CANPacket \<Rightarrow> safety_state \<Rightarrow> bool" where
  "hyundai_canfd_tx_button p s =
     (let button = byte p 2 AND 0x7;
          is_cancel = (button = HYUNDAI_BTN_CANCEL);
          is_resume = (button = HYUNDAI_BTN_RESUME)
      in (is_cancel \<and> cruise_engaged_prev s) \<or> (is_resume \<and> controls_allowed s))"

definition hyundai_canfd_tx_accel :: "CANPacket \<Rightarrow> safety_state \<Rightarrow> bool" where
  "hyundai_canfd_tx_accel p s =
     (let desired_accel_raw = hyundai_canfd_accel_raw p;
          desired_accel_val = hyundai_canfd_accel_val p
      in if hyundai_longitudinal (hyundai s) then
           longitudinal_accel_checks desired_accel_raw HYUNDAI_LONG_LIMITS s \<or>
           longitudinal_accel_checks desired_accel_val HYUNDAI_LONG_LIMITS s
         else
           let acc_mode = drop_bit 4 (byte p 8) AND 0x7
           in acc_mode \<noteq> 4 \<or> desired_accel_raw \<noteq> 0 \<or> desired_accel_val \<noteq> 0)"

definition hyundai_canfd_tx_hook :: "CANPacket \<Rightarrow> safety_state \<Rightarrow> bool \<times> safety_state" where
  "hyundai_canfd_tx_hook p s =
     (let tx = True;
          steer_addr = hyundai_canfd_steer_addr s;
          (violation, s) =
            (if addr p = steer_addr
             then steer_torque_cmd_checks (hyundai_canfd_torque_cmd p) (of_bool (GET_BIT p 52))
                    HYUNDAI_CANFD_STEERING_LIMITS s
             else (False, s));
          tx = (if violation then False else tx);
          tx = (if addr p = 0x1cf \<and> \<not> hyundai_canfd_tx_button p s then False else tx);
          tx = (if (addr p = 0x730 \<and> hyundai_canfd_lka_steering (hyundai s)) \<or>
                   (addr p = 0x7D0 \<and> \<not> hyundai_camera_scc (hyundai s))
                then if GET_BYTES p 0 4 \<noteq> 0x00803E02 \<or> GET_BYTES p 4 4 \<noteq> 0 then False else tx
                else tx);
          tx = (if addr p = 0x1a0 \<and> hyundai_canfd_tx_accel p s then False else tx)
      in (tx, s))"

subsection \<open>Initialisation\<close>

definition HYUNDAI_CANFD_CRUISE_BUTTON_TX_MSGS :: "int \<Rightarrow> CanMsg list" where
  "HYUNDAI_CANFD_CRUISE_BUTTON_TX_MSGS b = [tx_entry 0x1CF b 8 False]"

definition HYUNDAI_CANFD_LKA_STEERING_COMMON_TX_MSGS :: "int \<Rightarrow> int \<Rightarrow> CanMsg list" where
  "HYUNDAI_CANFD_LKA_STEERING_COMMON_TX_MSGS a_can e_can =
     HYUNDAI_CANFD_CRUISE_BUTTON_TX_MSGS e_can @
     [tx_entry 0x50 a_can 16 (a_can = 0), tx_entry 0x2A4 a_can 24 (a_can = 0)]"

definition HYUNDAI_CANFD_LKA_STEERING_ALT_COMMON_TX_MSGS :: "int \<Rightarrow> int \<Rightarrow> CanMsg list" where
  "HYUNDAI_CANFD_LKA_STEERING_ALT_COMMON_TX_MSGS a_can e_can =
     HYUNDAI_CANFD_CRUISE_BUTTON_TX_MSGS e_can @
     [tx_entry 0x110 a_can 32 (a_can = 0), tx_entry 0x362 a_can 32 (a_can = 0)]"

definition HYUNDAI_CANFD_LFA_STEERING_COMMON_TX_MSGS :: "int \<Rightarrow> CanMsg list" where
  "HYUNDAI_CANFD_LFA_STEERING_COMMON_TX_MSGS e_can =
     [tx_entry 0x12A e_can 16 (e_can = 0), tx_entry 0x1E0 e_can 16 (e_can = 0)]"

definition HYUNDAI_CANFD_SCC_CONTROL_COMMON_TX_MSGS :: "int \<Rightarrow> bool \<Rightarrow> CanMsg list" where
  "HYUNDAI_CANFD_SCC_CONTROL_COMMON_TX_MSGS e_can longitudinal = [tx_entry 0x1A0 e_can 32 longitudinal]"

definition HYUNDAI_CANFD_LKA_STEERING_LONG_TX_MSGS :: "CanMsg list" where
  "HYUNDAI_CANFD_LKA_STEERING_LONG_TX_MSGS =
     HYUNDAI_CANFD_LKA_STEERING_COMMON_TX_MSGS 0 1 @
     HYUNDAI_CANFD_LFA_STEERING_COMMON_TX_MSGS 1 @
     HYUNDAI_CANFD_SCC_CONTROL_COMMON_TX_MSGS 1 True @
     [tx_entry 0x51 0 32 False, tx_entry 0x730 1 8 False, tx_entry 0x160 1 16 False,
      tx_entry 0x1EA 1 32 False, tx_entry 0x200 1 8 False, tx_entry 0x345 1 8 False,
      tx_entry 0x1DA 1 32 False]"

definition HYUNDAI_CANFD_LFA_STEERING_TX_MSGS :: "CanMsg list" where
  "HYUNDAI_CANFD_LFA_STEERING_TX_MSGS =
     HYUNDAI_CANFD_CRUISE_BUTTON_TX_MSGS 2 @
     HYUNDAI_CANFD_LFA_STEERING_COMMON_TX_MSGS 0 @
     HYUNDAI_CANFD_SCC_CONTROL_COMMON_TX_MSGS 0 False"

definition HYUNDAI_CANFD_LFA_STEERING_LONG_TX_MSGS :: "CanMsg list" where
  "HYUNDAI_CANFD_LFA_STEERING_LONG_TX_MSGS =
     HYUNDAI_CANFD_CRUISE_BUTTON_TX_MSGS 2 @
     HYUNDAI_CANFD_LFA_STEERING_COMMON_TX_MSGS 0 @
     HYUNDAI_CANFD_SCC_CONTROL_COMMON_TX_MSGS 0 True @
     [tx_entry 0x160 0 16 True, tx_entry 0x7D0 0 8 False]"

definition HYUNDAI_CANFD_LFA_STEERING_CAMERA_SCC_TX_MSGS :: "bool \<Rightarrow> CanMsg list" where
  "HYUNDAI_CANFD_LFA_STEERING_CAMERA_SCC_TX_MSGS longitudinal =
     HYUNDAI_CANFD_CRUISE_BUTTON_TX_MSGS 2 @
     HYUNDAI_CANFD_LFA_STEERING_COMMON_TX_MSGS 0 @
     HYUNDAI_CANFD_SCC_CONTROL_COMMON_TX_MSGS 0 longitudinal @
     [tx_entry 0x160 0 16 longitudinal]"

definition hyundai_canfd_counted :: "int \<Rightarrow> int \<Rightarrow> int \<Rightarrow> int \<Rightarrow> CanMsgCheck" where
  "hyundai_canfd_counted a b l f =
     (msg_check a b l f)\<lparr>max_counter := 0xff, ignore_quality_flag := True\<rparr>"

definition HYUNDAI_CANFD_COMMON_RX_CHECKS :: "int \<Rightarrow> RxCheck list" where
  "HYUNDAI_CANFD_COMMON_RX_CHECKS pt_bus =
     [rx_check [hyundai_canfd_counted 0x35 pt_bus 32 100, hyundai_canfd_counted 0x100 pt_bus 32 100,
        hyundai_canfd_counted 0x105 pt_bus 32 100],
      rx_check [hyundai_canfd_counted 0x175 pt_bus 24 50],
      rx_check [hyundai_canfd_counted 0xa0 pt_bus 24 100],
      rx_check [hyundai_canfd_counted 0xea pt_bus 24 100]]"

definition HYUNDAI_CANFD_STD_BUTTONS_RX_CHECKS :: "int \<Rightarrow> RxCheck list" where
  "HYUNDAI_CANFD_STD_BUTTONS_RX_CHECKS pt_bus = HYUNDAI_CANFD_COMMON_RX_CHECKS pt_bus @
     [rx_check [(msg_check 0x1cf pt_bus 8 50)\<lparr>ignore_checksum := True, max_counter := 0xf,
        ignore_quality_flag := True\<rparr>]]"

definition HYUNDAI_CANFD_ALT_BUTTONS_RX_CHECKS :: "int \<Rightarrow> RxCheck list" where
  "HYUNDAI_CANFD_ALT_BUTTONS_RX_CHECKS pt_bus = HYUNDAI_CANFD_COMMON_RX_CHECKS pt_bus @
     [rx_check [(msg_check 0x1aa pt_bus 16 50)\<lparr>ignore_checksum := True, max_counter := 0xff,
        ignore_quality_flag := True\<rparr>]]"

definition HYUNDAI_CANFD_SCC_ADDR_CHECK :: "int \<Rightarrow> RxCheck list" where
  "HYUNDAI_CANFD_SCC_ADDR_CHECK scc_bus = [rx_check [hyundai_canfd_counted 0x1a0 scc_bus 32 50]]"

text \<open>The choice of the two tables by the variant of the car.\<close>

definition hyundai_canfd_tables :: "hyundai_statics \<Rightarrow> RxCheck list \<times> CanMsg list" where
  "hyundai_canfd_tables h =
     (let buttons = (if hyundai_canfd_alt_buttons h then HYUNDAI_CANFD_ALT_BUTTONS_RX_CHECKS 0
                     else HYUNDAI_CANFD_STD_BUTTONS_RX_CHECKS 0)
      in if hyundai_longitudinal h then
           if hyundai_canfd_lka_steering h then
             (HYUNDAI_CANFD_STD_BUTTONS_RX_CHECKS 1, HYUNDAI_CANFD_LKA_STEERING_LONG_TX_MSGS)
           else
             (buttons,
              if hyundai_camera_scc h then HYUNDAI_CANFD_LFA_STEERING_CAMERA_SCC_TX_MSGS True
              else HYUNDAI_CANFD_LFA_STEERING_LONG_TX_MSGS)
         else
           if hyundai_canfd_lka_steering h then
             (HYUNDAI_CANFD_STD_BUTTONS_RX_CHECKS 1 @ HYUNDAI_CANFD_SCC_ADDR_CHECK 1,
              if hyundai_canfd_lka_steering_alt h
              then HYUNDAI_CANFD_LKA_STEERING_ALT_COMMON_TX_MSGS 0 1
              else HYUNDAI_CANFD_LKA_STEERING_COMMON_TX_MSGS 0 1)
           else if \<not> hyundai_camera_scc h then
             (buttons @ HYUNDAI_CANFD_SCC_ADDR_CHECK 0, HYUNDAI_CANFD_LFA_STEERING_TX_MSGS)
           else
             (buttons @ HYUNDAI_CANFD_SCC_ADDR_CHECK 2,
              HYUNDAI_CANFD_LFA_STEERING_CAMERA_SCC_TX_MSGS False))"

definition hyundai_canfd_init :: "build \<Rightarrow> u16 \<Rightarrow> safety_state \<Rightarrow> safety_config \<times> safety_state" where
  "hyundai_canfd_init B param s =
     (let HYUNDAI_PARAM_CANFD_LKA_STEERING_ALT = 128;
          HYUNDAI_PARAM_CANFD_ALT_BUTTONS = 32;
          s = hyundai_common_init B param s;
          s = s\<lparr>hyundai := (hyundai s)\<lparr>
                hyundai_canfd_alt_buttons := GET_FLAG param HYUNDAI_PARAM_CANFD_ALT_BUTTONS,
                hyundai_canfd_lka_steering_alt := GET_FLAG param HYUNDAI_PARAM_CANFD_LKA_STEERING_ALT\<rparr>\<rparr>;
          (rxs, txs) = hyundai_canfd_tables (hyundai s)
      in (\<lparr>rx_checks = rxs, tx_msgs = txs, disable_forwarding = False\<rparr>, s))"

definition hyundai_canfd_hooks :: "build \<Rightarrow> safety_hooks" where
  "hyundai_canfd_hooks B = \<lparr>init_hook = Some (hyundai_canfd_init B),
     rx_hook = hyundai_canfd_rx_hook, tx_hook = hyundai_canfd_tx_hook, fwd_hook = None,
     get_checksum = Some hyundai_canfd_get_checksum,
     compute_checksum = Some hyundai_common_canfd_compute_checksum,
     get_counter = Some hyundai_canfd_get_counter, get_quality_flag_valid = None\<rparr>"

subsection \<open>The contract\<close>

lemma hyundai_canfd_rx_steps:
  "rx_view (hyundai_canfd_rx_torque p s) = rx_view s"
  "rx_view (hyundai_canfd_rx_buttons p s) = rx_view s"
  "rx_view (hyundai_canfd_rx_pedals p s) = rx_view s"
  "rx_view (hyundai_canfd_rx_speed p s) = rx_view s"
  "rx_view (hyundai_canfd_rx_scc p s) = rx_view s"
  "samples_view (hyundai_canfd_rx_buttons p s) = samples_view s"
  "samples_view (hyundai_canfd_rx_pedals p s) = samples_view s"
  "samples_view (hyundai_canfd_rx_scc p s) = samples_view s"
  by (simp_all add: hyundai_canfd_rx_scc_def hyundai_canfd_rx_buttons_def hyundai_common_views Let_def)
    (simp_all add: rx_view_def views Let_def hyundai_canfd_rx_torque_def hyundai_canfd_rx_pedals_def
      hyundai_canfd_rx_speed_def UPDATE_VEHICLE_SPEED_def)

lemma hyundai_canfd_rx_samples_steps:
  "samples_ok s \<Longrightarrow> samples_ok (hyundai_canfd_rx_torque p s)"
  "samples_ok s \<Longrightarrow> samples_ok (hyundai_canfd_rx_speed p s)"
  by (simp_all add: hyundai_canfd_rx_torque_def hyundai_canfd_rx_speed_def Let_def samples_ok_def
      UPDATE_VEHICLE_SPEED_def sample_ok_update)

lemma hyundai_canfd_rx:
  "rx_view (hyundai_canfd_rx_hook p s) = rx_view s"
  "samples_ok s \<Longrightarrow> samples_ok (hyundai_canfd_rx_hook p s)"
  by (simp_all add: hyundai_canfd_rx_hook_def Let_def hyundai_canfd_rx_steps
      hyundai_canfd_rx_samples_steps hyundai_canfd_rx_steps(6-8) [THEN samples_view_ok])

lemma hyundai_canfd_tx_frame: "frame_view (snd (hyundai_canfd_tx_hook p s)) = frame_view s"
  by (simp add: hyundai_canfd_tx_hook_def Let_def split_beta
      if_distrib [of frame_view] steering_frames)

lemma hyundai_canfd_init_view: "init_view (snd (hyundai_canfd_init B param s)) = init_view s"
  by (simp add: hyundai_canfd_init_def Let_def split_beta hyundai_common_init_def init_view_def views)

interpretation hyundai_canfd_mode: guarded_mode "hyundai_canfd_hooks B" for B
  by (rule guarded_modeI)
    (auto simp: hyundai_canfd_hooks_def hyundai_canfd_tx_frame hyundai_canfd_rx
      hyundai_canfd_init_view)

end
