(* ===== verification/Mode_Chrysler.thy ===== *)
theory Mode_Chrysler
  imports Mode_Interface
begin

text \<open>
  \<^verbatim>\<open>car/opendbc/safety/modes/chrysler.h\<close>: torque steering on three platforms, each with its own
  addresses and limits. The code keeps a pointer to one of three constant address tables; the
  model keeps the table.
\<close>

subsection \<open>Message checks\<close>

definition chrysler_get_checksum :: "CANPacket \<Rightarrow> u32" where
  "chrysler_get_checksum p = ucast (data p ! nat (GET_LEN p - 1))"

text \<open>One round of the inner loop of \<open>chrysler_compute_checksum\<close>, with the mask \<open>shift\<close>.\<close>

definition chrysler_checksum_bit :: "u8 \<Rightarrow> u8 \<Rightarrow> u8 \<Rightarrow> u8" where
  "chrysler_checksum_bit cur shift chk =
     (let bit_sum = cur AND shift;
          temp_chk = chk AND 0x80
      in if bit_sum \<noteq> 0 then
           let bit_sum = 0x1C;
               bit_sum = (if temp_chk \<noteq> 0 then 1 else bit_sum);
               chk = push_bit 1 chk;
               temp_chk = chk OR 1
           in bit_sum XOR temp_chk
         else
           let bit_sum = (if temp_chk \<noteq> 0 then 0x1D else bit_sum);
               chk = push_bit 1 chk
           in bit_sum XOR chk)"

fun chrysler_checksum_byte :: "u8 \<Rightarrow> u8 \<Rightarrow> nat \<Rightarrow> u8 \<Rightarrow> u8" where
  "chrysler_checksum_byte cur shift 0 chk = chk"
| "chrysler_checksum_byte cur shift (Suc n) chk =
     chrysler_checksum_byte cur (drop_bit 1 shift) n (chrysler_checksum_bit cur shift chk)"

definition chrysler_compute_checksum :: "CANPacket \<Rightarrow> u32" where
  "chrysler_compute_checksum p =
     (let len = GET_LEN p;
          checksum = fold (\<lambda>j c. chrysler_checksum_byte (data p ! j) 0x80 8 c) [0..<nat (len - 1)] 0xFF
      in ucast (NOT checksum))"

definition chrysler_get_counter :: "CANPacket \<Rightarrow> u8" where
  "chrysler_get_counter p = drop_bit 4 (data p ! 6)"

subsection \<open>Receive hook\<close>

definition chrysler_rx_torque :: "CANPacket \<Rightarrow> safety_state \<Rightarrow> safety_state" where
  "chrysler_rx_torque p s =
     (if bus p = 0 \<and> addr p = EPS_2 (chrysler_addrs (chrysler s)) then
        let torque_meas_new = to_s32 (to_u32 (push_bit 8 (byte p 4 AND 0x7) + byte p 5 - 1024))
        in s\<lparr>torque_meas := update_sample (torque_meas s) torque_meas_new\<rparr>
      else s)"

definition chrysler_rx_cruise :: "CANPacket \<Rightarrow> safety_state \<Rightarrow> safety_state" where
  "chrysler_rx_cruise p s =
     (let das_3_bus = (if chrysler_platform (chrysler s) = CHRYSLER_PACIFICA then 0 else 2)
      in if bus p = das_3_bus \<and> addr p = DAS_3 (chrysler_addrs (chrysler s))
         then pcm_cruise_check (GET_BIT p 21) s else s)"

definition chrysler_rx_speed :: "CANPacket \<Rightarrow> safety_state \<Rightarrow> safety_state" where
  "chrysler_rx_speed p s =
     (let pacifica = (chrysler_platform (chrysler s) = CHRYSLER_PACIFICA);
          s = (if \<not> pacifica \<and> bus p = 0 \<and> addr p = ESP_8 (chrysler_addrs (chrysler s))
               then s\<lparr>vehicle_moving := (push_bit 8 (byte p 4) + byte p 5) \<noteq> 0\<rparr> else s)
      in if pacifica \<and> bus p = 0 \<and> addr p = 514 then
           let speed_l = push_bit 4 (byte p 0) + drop_bit 4 (byte p 1);
               speed_r = push_bit 4 (byte p 2) + drop_bit 4 (byte p 3)
           in s\<lparr>vehicle_moving := (speed_l \<noteq> 0 \<or> speed_r \<noteq> 0)\<rparr>
         else s)"

definition chrysler_rx_pedals :: "CANPacket \<Rightarrow> safety_state \<Rightarrow> safety_state" where
  "chrysler_rx_pedals p s =
     (let s = (if bus p = 0 \<and> addr p = ECM_5 (chrysler_addrs (chrysler s))
               then s\<lparr>gas_pressed := byte p 0 \<noteq> 0\<rparr> else s)
      in if bus p = 0 \<and> addr p = ESP_1 (chrysler_addrs (chrysler s))
         then s\<lparr>brake_pressed := drop_bit 2 (byte p 0 AND 0xF) = 1\<rparr> else s)"

definition chrysler_rx_hook :: "CANPacket \<Rightarrow> safety_state \<Rightarrow> safety_state" where
  "chrysler_rx_hook p s =
     chrysler_rx_pedals p (chrysler_rx_speed p (chrysler_rx_cruise p (chrysler_rx_torque p s)))"

subsection \<open>Transmit hook\<close>

definition CHRYSLER_STEERING_LIMITS :: TorqueSteeringLimits where
  "CHRYSLER_STEERING_LIMITS = torque_limits_zero\<lparr>max_torque := 261, max_rt_delta := 112,
     max_rate_up := 3, max_rate_down := 3, max_torque_error := 80,
     control_type := TorqueMotorLimited\<rparr>"

definition CHRYSLER_RAM_DT_STEERING_LIMITS :: TorqueSteeringLimits where
  "CHRYSLER_RAM_DT_STEERING_LIMITS = torque_limits_zero\<lparr>max_torque := 350, max_rt_delta := 112,
     max_rate_up := 6, max_rate_down := 6, max_torque_error := 80,
     control_type := TorqueMotorLimited\<rparr>"

definition CHRYSLER_RAM_HD_STEERING_LIMITS :: TorqueSteeringLimits where
  "CHRYSLER_RAM_HD_STEERING_LIMITS = torque_limits_zero\<lparr>max_torque := 361, max_rt_delta := 182,
     max_rate_up := 14, max_rate_down := 14, max_torque_error := 80,
     control_type := TorqueMotorLimited\<rparr>"

definition chrysler_limits :: "safety_state \<Rightarrow> TorqueSteeringLimits" where
  "chrysler_limits s =
     (if chrysler_platform (chrysler s) = CHRYSLER_PACIFICA then CHRYSLER_STEERING_LIMITS
      else if chrysler_platform (chrysler s) = CHRYSLER_RAM_DT then CHRYSLER_RAM_DT_STEERING_LIMITS
      else CHRYSLER_RAM_HD_STEERING_LIMITS)"

definition chrysler_torque_cmd :: "CANPacket \<Rightarrow> safety_state \<Rightarrow> int" where
  "chrysler_torque_cmd p s =
     (let start_byte = (if chrysler_platform (chrysler s) = CHRYSLER_PACIFICA then 0 else 1)
      in (push_bit 8 (byte p start_byte AND 0x7) OR byte p (start_byte + 1)) - 1024)"

definition chrysler_tx_hook :: "CANPacket \<Rightarrow> safety_state \<Rightarrow> bool \<times> safety_state" where
  "chrysler_tx_hook p s =
     (let (violation, s) =
            (if addr p = LKAS_COMMAND (chrysler_addrs (chrysler s)) then
               let steer_req = (if chrysler_platform (chrysler s) = CHRYSLER_PACIFICA
                     then GET_BIT p 4 else (byte p 3 AND 0x7) = 2)
               in steer_torque_cmd_checks (chrysler_torque_cmd p s) (of_bool steer_req)
                    (chrysler_limits s) s
             else (False, s));
          tx = \<not> violation;
          tx = (if addr p = CRUISE_BUTTONS (chrysler_addrs (chrysler s)) then
                  let is_cancel = byte p 0 = 1;
                      is_resume = byte p 0 = 0x10;
                      allowed = is_cancel \<or> (is_resume \<and> controls_allowed s)
                  in if \<not> allowed then False else tx
                else tx)
      in (tx, s))"

subsection \<open>Initialisation\<close>

definition CHRYSLER_ADDRS :: ChryslerAddrs where
  "CHRYSLER_ADDRS = \<lparr>EPS_2 = 0x220, ESP_1 = 0x140, ESP_8 = 0x11C, ECM_5 = 0x22F, DAS_3 = 0x1F4,
     DAS_6 = 0x2A6, LKAS_COMMAND = 0x292, CRUISE_BUTTONS = 0x23B\<rparr>"

definition CHRYSLER_RAM_DT_ADDRS :: ChryslerAddrs where
  "CHRYSLER_RAM_DT_ADDRS = \<lparr>EPS_2 = 0x31, ESP_1 = 0x83, ESP_8 = 0x79, ECM_5 = 0x9D, DAS_3 = 0x99,
     DAS_6 = 0xFA, LKAS_COMMAND = 0xA6, CRUISE_BUTTONS = 0xB1\<rparr>"

definition CHRYSLER_RAM_HD_ADDRS :: ChryslerAddrs where
  "CHRYSLER_RAM_HD_ADDRS = \<lparr>EPS_2 = 0x220, ESP_1 = 0x140, ESP_8 = 0x11C, ECM_5 = 0x22F,
     DAS_3 = 0x1F4, DAS_6 = 0x275, LKAS_COMMAND = 0x276, CRUISE_BUTTONS = 0x23A\<rparr>"

definition chrysler_counted :: "int \<Rightarrow> int \<Rightarrow> int \<Rightarrow> int \<Rightarrow> RxCheck" where
  "chrysler_counted a b l f =
     rx_check [(msg_check a b l f)\<lparr>max_counter := 15, ignore_quality_flag := True\<rparr>]"

definition chrysler_ram_rx_checks :: "ChryslerAddrs \<Rightarrow> RxCheck list" where
  "chrysler_ram_rx_checks A =
     [chrysler_counted (EPS_2 A) 0 8 100, chrysler_counted (ESP_1 A) 0 8 50,
      chrysler_counted (ESP_8 A) 0 8 50, chrysler_counted (ECM_5 A) 0 8 50,
      chrysler_counted (DAS_3 A) 2 8 50]"

definition chrysler_rx_checks :: "RxCheck list" where
  "chrysler_rx_checks =
     [chrysler_counted (EPS_2 CHRYSLER_ADDRS) 0 8 100, chrysler_counted (ESP_1 CHRYSLER_ADDRS) 0 8 50,
      rx_check [no_checks (msg_check 514 0 8 100)],
      chrysler_counted (ECM_5 CHRYSLER_ADDRS) 0 8 50, chrysler_counted (DAS_3 CHRYSLER_ADDRS) 0 8 50]"

definition CHRYSLER_TX_MSGS :: "CanMsg list" where
  "CHRYSLER_TX_MSGS = [tx_entry (CRUISE_BUTTONS CHRYSLER_ADDRS) 0 3 False,
     tx_entry (LKAS_COMMAND CHRYSLER_ADDRS) 0 6 True, tx_entry (DAS_6 CHRYSLER_ADDRS) 0 8 True]"

definition CHRYSLER_RAM_TX_MSGS :: "ChryslerAddrs \<Rightarrow> CanMsg list" where
  "CHRYSLER_RAM_TX_MSGS A = [tx_entry (CRUISE_BUTTONS A) 2 3 False,
     tx_entry (LKAS_COMMAND A) 0 8 True, tx_entry (DAS_6 A) 0 8 True]"

definition chrysler_init :: "build \<Rightarrow> u16 \<Rightarrow> safety_state \<Rightarrow> safety_config \<times> safety_state" where
  "chrysler_init B param s =
     (let CHRYSLER_PARAM_RAM_DT = 1;
          CHRYSLER_PARAM_RAM_HD = 2;
          enable_ram_hd = ALLOW_DEBUG B \<and> GET_FLAG param CHRYSLER_PARAM_RAM_HD;
          enable_ram_dt = GET_FLAG param CHRYSLER_PARAM_RAM_DT
      in if enable_ram_dt then
           (\<lparr>rx_checks = chrysler_ram_rx_checks CHRYSLER_RAM_DT_ADDRS,
             tx_msgs = CHRYSLER_RAM_TX_MSGS CHRYSLER_RAM_DT_ADDRS, disable_forwarding = False\<rparr>,
            s\<lparr>chrysler := \<lparr>chrysler_platform = CHRYSLER_RAM_DT, chrysler_addrs = CHRYSLER_RAM_DT_ADDRS\<rparr>\<rparr>)
         else if enable_ram_hd then
           (\<lparr>rx_checks = chrysler_ram_rx_checks CHRYSLER_RAM_HD_ADDRS,
             tx_msgs = CHRYSLER_RAM_TX_MSGS CHRYSLER_RAM_HD_ADDRS, disable_forwarding = False\<rparr>,
            s\<lparr>chrysler := \<lparr>chrysler_platform = CHRYSLER_RAM_HD, chrysler_addrs = CHRYSLER_RAM_HD_ADDRS\<rparr>\<rparr>)
         else
           (\<lparr>rx_checks = chrysler_rx_checks, tx_msgs = CHRYSLER_TX_MSGS, disable_forwarding = False\<rparr>,
            s\<lparr>chrysler := \<lparr>chrysler_platform = CHRYSLER_PACIFICA, chrysler_addrs = CHRYSLER_ADDRS\<rparr>\<rparr>))"

definition chrysler_hooks :: "build \<Rightarrow> safety_hooks" where
  "chrysler_hooks B = \<lparr>init_hook = Some (chrysler_init B), rx_hook = chrysler_rx_hook,
     tx_hook = chrysler_tx_hook, fwd_hook = None, get_checksum = Some chrysler_get_checksum,
     compute_checksum = Some chrysler_compute_checksum, get_counter = Some chrysler_get_counter,
     get_quality_flag_valid = None\<rparr>"

subsection \<open>The contract\<close>

lemma chrysler_rx_steps:
  "rx_view (chrysler_rx_torque p s) = rx_view s"
  "rx_view (chrysler_rx_cruise p s) = rx_view s"
  "rx_view (chrysler_rx_speed p s) = rx_view s"
  "rx_view (chrysler_rx_pedals p s) = rx_view s"
  "samples_view (chrysler_rx_cruise p s) = samples_view s"
  "samples_view (chrysler_rx_speed p s) = samples_view s"
  "samples_view (chrysler_rx_pedals p s) = samples_view s"
  by (simp_all add: rx_view_def views Let_def chrysler_rx_torque_def chrysler_rx_cruise_def
      chrysler_rx_speed_def chrysler_rx_pedals_def pcm_cruise_check_def)

lemma chrysler_rx_torque_samples: "samples_ok s \<Longrightarrow> samples_ok (chrysler_rx_torque p s)"
  by (simp add: chrysler_rx_torque_def Let_def samples_ok_def sample_ok_update)

lemma chrysler_rx_view: "rx_view (chrysler_rx_hook p s) = rx_view s"
  by (simp add: chrysler_rx_hook_def chrysler_rx_steps)

lemma chrysler_rx_samples: "samples_ok s \<Longrightarrow> samples_ok (chrysler_rx_hook p s)"
  by (simp add: chrysler_rx_hook_def chrysler_rx_torque_samples
      chrysler_rx_steps(5-7) [THEN samples_view_ok])

lemma chrysler_tx_frame: "frame_view (snd (chrysler_tx_hook p s)) = frame_view s"
  by (simp add: chrysler_tx_hook_def Let_def split_beta if_distrib [of frame_view] steering_frames)

lemma init_view_chrysler: "init_view (s\<lparr>chrysler := c\<rparr>) = init_view s"
  by (simp add: init_view_def views)

lemma chrysler_init_view: "init_view (snd (chrysler_init B param s)) = init_view s"
  by (simp add: chrysler_init_def Let_def init_view_chrysler if_distrib [of init_view])

interpretation chrysler_mode: guarded_mode "chrysler_hooks B" for B
  by (rule guarded_modeI)
    (auto simp: chrysler_hooks_def chrysler_tx_frame chrysler_rx_view chrysler_rx_samples
      chrysler_init_view)

end
