(* ===== verification/Mode_Nissan.thy ===== *)
theory Mode_Nissan
  imports Mode_Interface
begin

text \<open>
  \<^verbatim>\<open>car/opendbc/safety/modes/nissan.h\<close>: angle steering; the EPS sits on the vehicle bus or,
  with the parameter, on the chassis bus.
\<close>

definition nissan_rx_angle :: "CANPacket \<Rightarrow> safety_state \<Rightarrow> safety_state" where
  "nissan_rx_angle p s =
     (if addr p = 0x2 then
        let angle_meas_new = uint (GET_BYTES p 0 4 AND 0xFFFF);
            angle_meas_new = to_signed angle_meas_new 16 * -10
        in s\<lparr>angle_meas := update_sample (angle_meas s) angle_meas_new\<rparr>
      else s)"

definition nissan_rx_speed :: "CANPacket \<Rightarrow> safety_state \<Rightarrow> safety_state" where
  "nissan_rx_speed p s =
     (if addr p = 0x285 then
        let right_rear = push_bit 8 (byte p 0) OR byte p 1;
            left_rear = push_bit 8 (byte p 2) OR byte p 3;
            s = s\<lparr>vehicle_moving := (right_rear OR left_rear) \<noteq> 0\<rparr>
        in UPDATE_VEHICLE_SPEED (fmul (fmul (fdiv (fint (right_rear + left_rear)) 2) (f32 (5 / 1000))) KPH_TO_MS) s
      else s)"

definition nissan_rx_pedals :: "CANPacket \<Rightarrow> safety_state \<Rightarrow> safety_state" where
  "nissan_rx_pedals p s =
     (let s = (if addr p = 0x15c \<or> addr p = 0x239 then
                 if addr p = 0x15c
                 then s\<lparr>gas_pressed := (push_bit 2 (byte p 5) OR (drop_bit 6 (byte p 6) AND 0x3)) > 3\<rparr>
                 else s\<lparr>gas_pressed := byte p 0 > 3\<rparr>
               else s)
      in if addr p = 0x454 \<or> addr p = 0x239 then
           if addr p = 0x454 then s\<lparr>brake_pressed := (byte p 2 AND 0x80) \<noteq> 0\<rparr>
           else s\<lparr>brake_pressed := (drop_bit 5 (byte p 4) AND 1) \<noteq> 0\<rparr>
         else s)"

definition nissan_rx_hook :: "CANPacket \<Rightarrow> safety_state \<Rightarrow> safety_state" where
  "nissan_rx_hook p s =
     (let s = (if bus p = (if nissan_alt_eps (nissan s) then 1 else 0)
               then nissan_rx_pedals p (nissan_rx_speed p (nissan_rx_angle p s)) else s)
      in if addr p = 0x30f \<and> bus p = (if nissan_alt_eps (nissan s) then 1 else 2)
         then pcm_cruise_check ((drop_bit 3 (byte p 0) AND 1) \<noteq> 0) s else s)"

definition NISSAN_STEERING_LIMITS :: AngleSteeringLimits where
  "NISSAN_STEERING_LIMITS = angle_limits_zero\<lparr>max_angle := 60000, angle_deg_to_can := 100,
     angle_rate_up_lookup := \<lparr>lx = [0, 5, 15], ly = [5, f32 (8 / 10), f32 (15 / 100)]\<rparr>,
     angle_rate_down_lookup := \<lparr>lx = [0, 5, 15], ly = [5, f32 (35 / 10), f32 (4 / 10)]\<rparr>\<rparr>"

text \<open>The angle of the steering frame: factor -0.01 and offset 1310, in the scale of the bus.\<close>

definition nissan_angle_cmd :: "CANPacket \<Rightarrow> int" where
  "nissan_angle_cmd p =
     (let desired_angle = push_bit 10 (byte p 0) OR push_bit 2 (byte p 1) OR
            (drop_bit 6 (byte p 2) AND 0x3)
      in trunc (fadd (fint (- desired_angle)) (fmul 1310 (angle_deg_to_can NISSAN_STEERING_LIMITS))))"

definition nissan_tx_hook :: "CANPacket \<Rightarrow> safety_state \<Rightarrow> bool \<times> safety_state" where
  "nissan_tx_hook p s =
     (let (violation, s) =
            (if addr p = 0x169 then
               let lka_active = (drop_bit 4 (byte p 6) AND 1) \<noteq> 0
               in steer_angle_cmd_checks (nissan_angle_cmd p) lka_active NISSAN_STEERING_LIMITS s
             else (False, s));
          violation = (if addr p = 0x20b then violation \<or> (byte p 1 AND 0x3d) > 0 else violation)
      in (\<not> violation, s))"

definition NISSAN_TX_MSGS :: "CanMsg list" where
  "NISSAN_TX_MSGS = [tx_entry 0x169 0 8 True, tx_entry 0x2b1 0 8 True, tx_entry 0x4cc 0 8 True,
     tx_entry 0x20b 2 6 False, tx_entry 0x20b 1 6 False, tx_entry 0x280 2 8 True]"

definition nissan_rx_checks :: "RxCheck list" where
  "nissan_rx_checks =
     [rx_check (map no_checks [msg_check 0x2 0 5 100, msg_check 0x2 1 5 100]),
      rx_check (map no_checks [msg_check 0x285 0 8 50, msg_check 0x285 1 8 50]),
      rx_check (map no_checks [msg_check 0x30f 2 3 10, msg_check 0x30f 1 3 10]),
      rx_check (map no_checks [msg_check 0x15c 0 8 50, msg_check 0x15c 1 8 50, msg_check 0x239 0 8 50]),
      rx_check (map no_checks [msg_check 0x454 0 8 10, msg_check 0x454 1 8 10, msg_check 0x1cc 0 4 100])]"

definition nissan_init :: "u16 \<Rightarrow> safety_state \<Rightarrow> safety_config \<times> safety_state" where
  "nissan_init param s =
     (let NISSAN_PARAM_ALT_EPS_BUS = 1
      in (\<lparr>rx_checks = nissan_rx_checks, tx_msgs = NISSAN_TX_MSGS, disable_forwarding = False\<rparr>,
          s\<lparr>nissan := \<lparr>nissan_alt_eps = GET_FLAG param NISSAN_PARAM_ALT_EPS_BUS\<rparr>\<rparr>))"

definition nissan_hooks :: safety_hooks where
  "nissan_hooks = \<lparr>init_hook = Some nissan_init, rx_hook = nissan_rx_hook,
     tx_hook = nissan_tx_hook, fwd_hook = None, get_checksum = None, compute_checksum = None,
     get_counter = None, get_quality_flag_valid = None\<rparr>"

subsection \<open>The contract\<close>

lemma nissan_rx_steps:
  "rx_view (nissan_rx_angle p s) = rx_view s"
  "rx_view (nissan_rx_speed p s) = rx_view s"
  "rx_view (nissan_rx_pedals p s) = rx_view s"
  "samples_view (nissan_rx_pedals p s) = samples_view s"
  by (simp_all add: rx_view_def views Let_def nissan_rx_angle_def nissan_rx_speed_def
      nissan_rx_pedals_def UPDATE_VEHICLE_SPEED_def)

lemma nissan_rx_samples_steps:
  "samples_ok s \<Longrightarrow> samples_ok (nissan_rx_angle p s)"
  "samples_ok s \<Longrightarrow> samples_ok (nissan_rx_speed p s)"
  by (simp_all add: nissan_rx_angle_def nissan_rx_speed_def Let_def samples_ok_def
      UPDATE_VEHICLE_SPEED_def sample_ok_update)

lemma nissan_rx_view: "rx_view (nissan_rx_hook p s) = rx_view s"
  by (simp add: nissan_rx_hook_def Let_def nissan_rx_steps rx_view_pcm_cruise_check)

lemma nissan_rx_samples: "samples_ok s \<Longrightarrow> samples_ok (nissan_rx_hook p s)"
  by (simp add: nissan_rx_hook_def Let_def nissan_rx_samples_steps
      nissan_rx_steps(4) [THEN samples_view_ok]
      rx_view_pcm_cruise_check(2) [THEN samples_view_ok])

lemma nissan_tx_frame: "frame_view (snd (nissan_tx_hook p s)) = frame_view s"
  by (simp add: nissan_tx_hook_def Let_def split_beta if_distrib [of frame_view] steering_frames)

interpretation nissan_mode: guarded_mode nissan_hooks
  by (rule guarded_modeI)
    (auto simp: nissan_hooks_def nissan_tx_frame nissan_rx_view nissan_rx_samples
      nissan_init_def init_view_def views Let_def)

end
