(* ===== verification/Mode_PSA.thy ===== *)
theory Mode_PSA
  imports Mode_Interface
begin

text \<open>
  \<^verbatim>\<open>car/opendbc/safety/modes/psa.h\<close>: angle steering, with a nibble-sum checksum and a counter
  on the cruise and speed messages. Built in debug firmware only.
\<close>

abbreviation (input) PSA_STEERING :: int where "PSA_STEERING \<equiv> 757"
abbreviation (input) PSA_STEERING_ALT :: int where "PSA_STEERING_ALT \<equiv> 773"
abbreviation (input) PSA_DYN_CMM :: int where "PSA_DYN_CMM \<equiv> 520"
abbreviation (input) PSA_HS2_DYN_ABR_38D :: int where "PSA_HS2_DYN_ABR_38D \<equiv> 909"
abbreviation (input) PSA_HS2_DAT_MDD_CMD_452 :: int where "PSA_HS2_DAT_MDD_CMD_452 \<equiv> 1106"
abbreviation (input) PSA_DAT_BSI :: int where "PSA_DAT_BSI \<equiv> 1042"
abbreviation (input) PSA_LANE_KEEP_ASSIST :: int where "PSA_LANE_KEEP_ASSIST \<equiv> 1010"

definition psa_get_counter :: "CANPacket \<Rightarrow> u8" where
  "psa_get_counter p =
     (if addr p = PSA_HS2_DAT_MDD_CMD_452 then drop_bit 4 (data p ! 3) AND 0xF
      else if addr p = PSA_HS2_DYN_ABR_38D then drop_bit 4 (data p ! 5) AND 0xF
      else 0)"

definition psa_get_checksum :: "CANPacket \<Rightarrow> u32" where
  "psa_get_checksum p =
     (if addr p = PSA_HS2_DAT_MDD_CMD_452 then ucast (data p ! 5 AND 0xF)
      else if addr p = PSA_HS2_DYN_ABR_38D then ucast (data p ! 5 AND 0xF)
      else 0)"

definition psa_nibble_sum :: "CANPacket \<Rightarrow> nat \<Rightarrow> u8" where
  "psa_nibble_sum p chk_pos =
     fold (\<lambda>i sum. let b = data p ! i; b = (if i = chk_pos then b AND 0xF0 else b)
                   in sum + (drop_bit 4 b + (b AND 0xF))) [0..<nat (GET_LEN p)] 0"

definition psa_compute_checksum_at :: "CANPacket \<Rightarrow> u8 \<Rightarrow> nat \<Rightarrow> u8" where
  "psa_compute_checksum_at p chk_ini chk_pos = (chk_ini - psa_nibble_sum p chk_pos) AND 0xF"

definition psa_compute_checksum :: "CANPacket \<Rightarrow> u32" where
  "psa_compute_checksum p =
     (if addr p = PSA_HS2_DAT_MDD_CMD_452 then ucast (psa_compute_checksum_at p 0x4 5)
      else if addr p = PSA_HS2_DYN_ABR_38D then ucast (psa_compute_checksum_at p 0x7 5)
      else 0)"

definition psa_rx_main :: "CANPacket \<Rightarrow> safety_state \<Rightarrow> safety_state" where
  "psa_rx_main p s =
     (let s = (if addr p = PSA_DYN_CMM then s\<lparr>gas_pressed := byte p 3 > 0\<rparr> else s);
          s = (if addr p = PSA_STEERING_ALT then
                 let angle_meas_new = to_signed (push_bit 8 (byte p 0) OR byte p 1) 16
                 in s\<lparr>angle_meas := update_sample (angle_meas s) angle_meas_new\<rparr>
               else s)
      in if addr p = PSA_HS2_DYN_ABR_38D then
           let speed = push_bit 8 (byte p 0) OR byte p 1;
               s = s\<lparr>vehicle_moving := speed > 0\<rparr>
           in UPDATE_VEHICLE_SPEED (fmul (fmul (fint speed) (f32 (1 / 100))) KPH_TO_MS) s
         else s)"

definition psa_rx_hook :: "CANPacket \<Rightarrow> safety_state \<Rightarrow> safety_state" where
  "psa_rx_hook p s =
     (let s = (if bus p = 0 then psa_rx_main p s else s);
          s = (if bus p = 1 \<and> addr p = PSA_HS2_DAT_MDD_CMD_452
               then pcm_cruise_check ((drop_bit 7 (byte p 2) AND 1) \<noteq> 0) s else s)
      in if bus p = 2 \<and> addr p = PSA_DAT_BSI
         then s\<lparr>brake_pressed := (drop_bit 5 (byte p 0) AND 1) \<noteq> 0\<rparr> else s)"

definition PSA_STEERING_LIMITS :: AngleSteeringLimits where
  "PSA_STEERING_LIMITS = angle_limits_zero\<lparr>max_angle := 3900, angle_deg_to_can := 10,
     angle_rate_up_lookup := \<lparr>lx = [0, 5, 25], ly = [f32 (25 / 10), f32 (15 / 10), f32 (2 / 10)]\<rparr>,
     angle_rate_down_lookup := \<lparr>lx = [0, 5, 25], ly = [5, 2, f32 (3 / 10)]\<rparr>\<rparr>"

definition psa_angle_cmd :: "CANPacket \<Rightarrow> int" where
  "psa_angle_cmd p = to_signed (push_bit 6 (byte p 6) OR drop_bit 2 (byte p 7 AND 0xFC)) 14"

definition psa_tx_hook :: "CANPacket \<Rightarrow> safety_state \<Rightarrow> bool \<times> safety_state" where
  "psa_tx_hook p s =
     (if addr p = PSA_LANE_KEEP_ASSIST then
        let lka_active = drop_bit 1 (byte p 5 AND 0xFE) = 100;
            (violation, s) = steer_angle_cmd_checks (psa_angle_cmd p) lka_active PSA_STEERING_LIMITS s
        in (\<not> violation, s)
      else (True, s))"

definition PSA_TX_MSGS :: "CanMsg list" where
  "PSA_TX_MSGS = [tx_entry PSA_LANE_KEEP_ASSIST 0 8 True]"

definition psa_rx_checks :: "RxCheck list" where
  "psa_rx_checks =
     [rx_check [(msg_check PSA_HS2_DAT_MDD_CMD_452 1 6 20)\<lparr>max_counter := 15, ignore_quality_flag := True\<rparr>],
      rx_check [(msg_check PSA_HS2_DYN_ABR_38D 0 8 25)\<lparr>max_counter := 15, ignore_quality_flag := True\<rparr>],
      rx_check [no_checks (msg_check PSA_STEERING_ALT 0 7 100)],
      rx_check [no_checks (msg_check PSA_STEERING 0 7 100)],
      rx_check [no_checks (msg_check PSA_DYN_CMM 0 8 100)],
      rx_check [no_checks (msg_check PSA_DAT_BSI 2 8 20)]]"

definition psa_init :: "u16 \<Rightarrow> safety_state \<Rightarrow> safety_config \<times> safety_state" where
  "psa_init param s =
     (\<lparr>rx_checks = psa_rx_checks, tx_msgs = PSA_TX_MSGS, disable_forwarding = False\<rparr>, s)"

definition psa_hooks :: safety_hooks where
  "psa_hooks = \<lparr>init_hook = Some psa_init, rx_hook = psa_rx_hook, tx_hook = psa_tx_hook,
     fwd_hook = None, get_checksum = Some psa_get_checksum,
     compute_checksum = Some psa_compute_checksum, get_counter = Some psa_get_counter,
     get_quality_flag_valid = None\<rparr>"

subsection \<open>The contract\<close>

lemma psa_rx_main_view: "rx_view (psa_rx_main p s) = rx_view s"
  by (simp add: rx_view_def views Let_def psa_rx_main_def UPDATE_VEHICLE_SPEED_def)

lemma psa_rx_main_samples: "samples_ok s \<Longrightarrow> samples_ok (psa_rx_main p s)"
  by (simp add: psa_rx_main_def Let_def samples_ok_def UPDATE_VEHICLE_SPEED_def sample_ok_update)

lemma psa_brake_view:
  "rx_view (s\<lparr>brake_pressed := b\<rparr>) = rx_view s"
  "samples_ok (s\<lparr>brake_pressed := b\<rparr>) = samples_ok s"
  by (simp_all add: rx_view_def views samples_ok_def)

lemma psa_rx_view: "rx_view (psa_rx_hook p s) = rx_view s"
  by (simp add: psa_rx_hook_def Let_def psa_rx_main_view psa_brake_view rx_view_pcm_cruise_check)

lemma psa_rx_samples: "samples_ok s \<Longrightarrow> samples_ok (psa_rx_hook p s)"
  by (simp add: psa_rx_hook_def Let_def psa_rx_main_samples psa_brake_view
      rx_view_pcm_cruise_check(2) [THEN samples_view_ok])

lemma psa_tx_frame: "frame_view (snd (psa_tx_hook p s)) = frame_view s"
  by (simp add: psa_tx_hook_def Let_def split_beta steering_frames)

interpretation psa_mode: guarded_mode psa_hooks
  by (rule guarded_modeI)
    (auto simp: psa_hooks_def psa_tx_frame psa_rx_view psa_rx_samples
      psa_init_def init_view_def views Let_def)

end
