(* ===== verification/Mode_Subaru.thy ===== *)
theory Mode_Subaru
  imports Mode_Interface
begin

text \<open>
  \<^verbatim>\<open>car/opendbc/safety/modes/subaru.h\<close> and \<^verbatim>\<open>modes/subaru_preglobal.h\<close>: torque steering; the
  global platform has two generations and optional openpilot longitudinal.
\<close>

abbreviation (input) MSG_SUBARU_Brake_Status :: int where "MSG_SUBARU_Brake_Status \<equiv> 0x13c"
abbreviation (input) MSG_SUBARU_CruiseControl :: int where "MSG_SUBARU_CruiseControl \<equiv> 0x240"
abbreviation (input) MSG_SUBARU_Throttle :: int where "MSG_SUBARU_Throttle \<equiv> 0x40"
abbreviation (input) MSG_SUBARU_Steering_Torque :: int where "MSG_SUBARU_Steering_Torque \<equiv> 0x119"
abbreviation (input) MSG_SUBARU_Wheel_Speeds :: int where "MSG_SUBARU_Wheel_Speeds \<equiv> 0x13a"
abbreviation (input) MSG_SUBARU_ES_LKAS :: int where "MSG_SUBARU_ES_LKAS \<equiv> 0x122"
abbreviation (input) MSG_SUBARU_ES_Brake :: int where "MSG_SUBARU_ES_Brake \<equiv> 0x220"
abbreviation (input) MSG_SUBARU_ES_Distance :: int where "MSG_SUBARU_ES_Distance \<equiv> 0x221"
abbreviation (input) MSG_SUBARU_ES_Status :: int where "MSG_SUBARU_ES_Status \<equiv> 0x222"
abbreviation (input) MSG_SUBARU_ES_DashStatus :: int where "MSG_SUBARU_ES_DashStatus \<equiv> 0x321"
abbreviation (input) MSG_SUBARU_ES_LKAS_State :: int where "MSG_SUBARU_ES_LKAS_State \<equiv> 0x322"
abbreviation (input) MSG_SUBARU_ES_Infotainment :: int where "MSG_SUBARU_ES_Infotainment \<equiv> 0x323"
abbreviation (input) MSG_SUBARU_ES_UDS_Request :: int where "MSG_SUBARU_ES_UDS_Request \<equiv> 0x787"
abbreviation (input) MSG_SUBARU_ES_HighBeamAssist :: int where "MSG_SUBARU_ES_HighBeamAssist \<equiv> 0x121"
abbreviation (input) MSG_SUBARU_ES_STATIC_1 :: int where "MSG_SUBARU_ES_STATIC_1 \<equiv> 0x22a"
abbreviation (input) MSG_SUBARU_ES_STATIC_2 :: int where "MSG_SUBARU_ES_STATIC_2 \<equiv> 0x325"

subsection \<open>Message checks\<close>

definition subaru_get_checksum :: "CANPacket \<Rightarrow> u32" where
  "subaru_get_checksum p = ucast (data p ! 0)"

definition subaru_get_counter :: "CANPacket \<Rightarrow> u8" where
  "subaru_get_counter p = data p ! 1 AND 0xF"

definition subaru_compute_checksum :: "CANPacket \<Rightarrow> u32" where
  "subaru_compute_checksum p =
     (let chk = (word_of_int (addr p) + word_of_int (drop_bit 8 (addr p)) :: u8)
      in ucast (fold (\<lambda>i c. c + data p ! i) [1..<nat (GET_LEN p)] chk))"

subsection \<open>Receive hook\<close>

definition subaru_alt_main_bus :: "safety_state \<Rightarrow> int" where
  "subaru_alt_main_bus s = (if subaru_gen2 (subaru s) then 1 else 0)"

definition subaru_rx_torque :: "CANPacket \<Rightarrow> safety_state \<Rightarrow> safety_state" where
  "subaru_rx_torque p s =
     (if addr p = MSG_SUBARU_Steering_Torque \<and> bus p = 0 then
        let torque_driver_new = uint (drop_bit 16 (GET_BYTES p 0 4) AND 0x7FF);
            torque_driver_new = -1 * to_signed torque_driver_new 11;
            s = s\<lparr>torque_driver := update_sample (torque_driver s) torque_driver_new\<rparr>;
            angle_meas_new = uint (GET_BYTES p 4 2 AND 0xFFFF);
            angle_meas_new = ROUND (fmul (fint (to_signed angle_meas_new 16)) (f32 (- (217 / 100))))
        in s\<lparr>angle_meas := update_sample (angle_meas s) angle_meas_new\<rparr>
      else s)"

definition subaru_rx_cruise :: "CANPacket \<Rightarrow> safety_state \<Rightarrow> safety_state" where
  "subaru_rx_cruise p s =
     (if addr p = MSG_SUBARU_CruiseControl \<and> bus p = subaru_alt_main_bus s
      then pcm_cruise_check ((drop_bit 1 (byte p 5) AND 1) \<noteq> 0) s else s)"

definition subaru_rx_speed :: "CANPacket \<Rightarrow> safety_state \<Rightarrow> safety_state" where
  "subaru_rx_speed p s =
     (if addr p = MSG_SUBARU_Wheel_Speeds \<and> bus p = subaru_alt_main_bus s then
        let fr = drop_bit 4 (GET_BYTES p 1 3) AND 0x1FFF;
            rr = drop_bit 1 (GET_BYTES p 3 3) AND 0x1FFF;
            rl = drop_bit 6 (GET_BYTES p 4 3) AND 0x1FFF;
            fl = drop_bit 3 (GET_BYTES p 6 2) AND 0x1FFF;
            s = s\<lparr>vehicle_moving := (fr > 0 \<or> rr > 0 \<or> rl > 0 \<or> fl > 0)\<rparr>
        in UPDATE_VEHICLE_SPEED (fmul (fmul (fdiv (fint (uint (fr + rr + rl + fl))) 4)
             (f32 (57 / 1000))) KPH_TO_MS) s
      else s)"

definition subaru_rx_pedals :: "CANPacket \<Rightarrow> safety_state \<Rightarrow> safety_state" where
  "subaru_rx_pedals p s =
     (let s = (if addr p = MSG_SUBARU_Brake_Status \<and> bus p = subaru_alt_main_bus s
               then s\<lparr>brake_pressed := (drop_bit 6 (byte p 7) AND 1) \<noteq> 0\<rparr> else s)
      in if addr p = MSG_SUBARU_Throttle \<and> bus p = 0
         then s\<lparr>gas_pressed := byte p 4 \<noteq> 0\<rparr> else s)"

definition subaru_rx_hook :: "CANPacket \<Rightarrow> safety_state \<Rightarrow> safety_state" where
  "subaru_rx_hook p s =
     subaru_rx_pedals p (subaru_rx_speed p (subaru_rx_cruise p (subaru_rx_torque p s)))"

subsection \<open>Transmit hook\<close>

definition SUBARU_STEERING_LIMITS_GENERATOR :: "int \<Rightarrow> int \<Rightarrow> int \<Rightarrow> TorqueSteeringLimits" where
  "SUBARU_STEERING_LIMITS_GENERATOR steer_max rate_up rate_down = torque_limits_zero\<lparr>
     max_torque := steer_max, max_rt_delta := 940, max_rate_up := rate_up,
     max_rate_down := rate_down, driver_torque_multiplier := 50, driver_torque_allowance := 60,
     control_type := TorqueDriverLimited, min_valid_request_frames := 7,
     max_invalid_request_frames := 1, min_valid_request_rt_interval := 144000,
     has_steer_req_tolerance := True\<rparr>"

definition SUBARU_LONG_LIMITS :: LongitudinalLimits where
  "SUBARU_LONG_LIMITS = long_limits_zero\<lparr>min_gas := 808, max_gas := 3400, inactive_gas := 1818,
     max_brake := 600, min_transmission_rpm := 0, max_transmission_rpm := 3600\<rparr>"

definition subaru_torque_cmd :: "CANPacket \<Rightarrow> int" where
  "subaru_torque_cmd p = -1 * to_signed (uint (drop_bit 16 (GET_BYTES p 0 4) AND 0x1FFF)) 13"

definition subaru_limits :: "safety_state \<Rightarrow> TorqueSteeringLimits" where
  "subaru_limits s = (if subaru_gen2 (subaru s) then SUBARU_STEERING_LIMITS_GENERATOR 1000 40 40
     else SUBARU_STEERING_LIMITS_GENERATOR 2047 50 70)"

definition subaru_brake_cmd :: "CANPacket \<Rightarrow> int" where
  "subaru_brake_cmd p = uint (GET_BYTES p 2 2)"

text \<open>The 13-bit field of \<open>ES_Distance\<close> (cruise throttle) and \<open>ES_Status\<close> (rpm).\<close>

definition subaru_13bit :: "CANPacket \<Rightarrow> int" where
  "subaru_13bit p = uint (GET_BYTES p 2 2 AND 0x1FFF)"

definition subaru_distance_violation :: "CANPacket \<Rightarrow> safety_state \<Rightarrow> bool" where
  "subaru_distance_violation p s =
     (let cruise_throttle = subaru_13bit p;
          cruise_cancel = (byte p 7 AND 1) \<noteq> 0
      in if subaru_longitudinal (subaru s)
         then longitudinal_gas_checks cruise_throttle SUBARU_LONG_LIMITS s
         else cruise_throttle \<noteq> inactive_gas SUBARU_LONG_LIMITS \<or> \<not> cruise_cancel)"

definition subaru_uds_violation :: "CANPacket \<Rightarrow> bool" where
  "subaru_uds_violation p =
     (let is_tester_present = GET_BYTES p 0 4 = 0x00803E02 \<and> GET_BYTES p 4 4 = 0;
          is_button_rdbi = GET_BYTES p 0 4 = 0x30112203 \<and> GET_BYTES p 4 4 = 0
      in \<not> (is_tester_present \<or> is_button_rdbi))"

definition subaru_tx_hook :: "CANPacket \<Rightarrow> safety_state \<Rightarrow> bool \<times> safety_state" where
  "subaru_tx_hook p s =
     (let (violation, s) =
            (if addr p = MSG_SUBARU_ES_LKAS then
               let steer_req = (drop_bit 5 (byte p 3) AND 1) \<noteq> 0
               in steer_torque_cmd_checks (subaru_torque_cmd p) (of_bool steer_req) (subaru_limits s) s
             else (False, s));
          violation = (if addr p = MSG_SUBARU_ES_Brake
            then violation \<or> longitudinal_brake_checks (subaru_brake_cmd p) SUBARU_LONG_LIMITS s
            else violation);
          violation = (if addr p = MSG_SUBARU_ES_Distance
            then violation \<or> subaru_distance_violation p s else violation);
          violation = (if addr p = MSG_SUBARU_ES_Status
            then violation \<or> longitudinal_transmission_rpm_checks (subaru_13bit p) SUBARU_LONG_LIMITS s
            else violation);
          violation = (if addr p = MSG_SUBARU_ES_UDS_Request
            then violation \<or> subaru_uds_violation p else violation)
      in (\<not> violation, s))"

subsection \<open>Initialisation\<close>

definition SUBARU_BASE_TX_MSGS :: "CanMsg list" where
  "SUBARU_BASE_TX_MSGS = [tx_entry MSG_SUBARU_ES_LKAS 0 8 True,
     tx_entry MSG_SUBARU_ES_DashStatus 0 8 True, tx_entry MSG_SUBARU_ES_LKAS_State 0 8 True,
     tx_entry MSG_SUBARU_ES_Infotainment 0 8 True]"

definition SUBARU_COMMON_TX_MSGS :: "int \<Rightarrow> CanMsg list" where
  "SUBARU_COMMON_TX_MSGS alt_bus = [tx_entry MSG_SUBARU_ES_Distance alt_bus 8 False]"

definition SUBARU_COMMON_LONG_TX_MSGS :: "int \<Rightarrow> CanMsg list" where
  "SUBARU_COMMON_LONG_TX_MSGS alt_bus = [tx_entry MSG_SUBARU_ES_Distance alt_bus 8 True,
     tx_entry MSG_SUBARU_ES_Brake alt_bus 8 True, tx_entry MSG_SUBARU_ES_Status alt_bus 8 True]"

definition SUBARU_GEN2_LONG_ADDITIONAL_TX_MSGS :: "CanMsg list" where
  "SUBARU_GEN2_LONG_ADDITIONAL_TX_MSGS = [tx_entry MSG_SUBARU_ES_UDS_Request 2 8 False,
     tx_entry MSG_SUBARU_ES_HighBeamAssist 0 8 False, tx_entry MSG_SUBARU_ES_STATIC_1 0 8 False,
     tx_entry MSG_SUBARU_ES_STATIC_2 0 8 False]"

definition subaru_counted :: "int \<Rightarrow> int \<Rightarrow> int \<Rightarrow> RxCheck" where
  "subaru_counted a b f = rx_check [(msg_check a b 8 f)\<lparr>max_counter := 15, ignore_quality_flag := True\<rparr>]"

definition SUBARU_COMMON_RX_CHECKS :: "int \<Rightarrow> RxCheck list" where
  "SUBARU_COMMON_RX_CHECKS alt_bus =
     [subaru_counted MSG_SUBARU_Throttle 0 100, subaru_counted MSG_SUBARU_Steering_Torque 0 50,
      subaru_counted MSG_SUBARU_Wheel_Speeds alt_bus 50, subaru_counted MSG_SUBARU_Brake_Status alt_bus 50,
      subaru_counted MSG_SUBARU_CruiseControl alt_bus 20]"

definition subaru_init :: "build \<Rightarrow> u16 \<Rightarrow> safety_state \<Rightarrow> safety_config \<times> safety_state" where
  "subaru_init B param s =
     (let SUBARU_PARAM_GEN2 = 1;
          SUBARU_PARAM_LONGITUDINAL = 2;
          t = (subaru s)\<lparr>subaru_gen2 := GET_FLAG param SUBARU_PARAM_GEN2\<rparr>;
          t = (if ALLOW_DEBUG B
               then t\<lparr>subaru_longitudinal := GET_FLAG param SUBARU_PARAM_LONGITUDINAL\<rparr> else t);
          alt_bus = (if subaru_gen2 t then 1 else 0);
          txs = SUBARU_BASE_TX_MSGS @
            (if subaru_longitudinal t
             then SUBARU_COMMON_LONG_TX_MSGS alt_bus @
               (if subaru_gen2 t then SUBARU_GEN2_LONG_ADDITIONAL_TX_MSGS else [])
             else SUBARU_COMMON_TX_MSGS alt_bus)
      in (\<lparr>rx_checks = SUBARU_COMMON_RX_CHECKS alt_bus, tx_msgs = txs, disable_forwarding = False\<rparr>,
          s\<lparr>subaru := t\<rparr>))"

definition subaru_hooks :: "build \<Rightarrow> safety_hooks" where
  "subaru_hooks B = \<lparr>init_hook = Some (subaru_init B), rx_hook = subaru_rx_hook,
     tx_hook = subaru_tx_hook, fwd_hook = None, get_checksum = Some subaru_get_checksum,
     compute_checksum = Some subaru_compute_checksum, get_counter = Some subaru_get_counter,
     get_quality_flag_valid = None\<rparr>"

subsection \<open>subaru_preglobal.h\<close>

abbreviation (input) MSG_SUBARU_PG_CruiseControl :: int where "MSG_SUBARU_PG_CruiseControl \<equiv> 0x144"
abbreviation (input) MSG_SUBARU_PG_Throttle :: int where "MSG_SUBARU_PG_Throttle \<equiv> 0x140"
abbreviation (input) MSG_SUBARU_PG_Wheel_Speeds :: int where "MSG_SUBARU_PG_Wheel_Speeds \<equiv> 0xD4"
abbreviation (input) MSG_SUBARU_PG_Brake_Pedal :: int where "MSG_SUBARU_PG_Brake_Pedal \<equiv> 0xD1"
abbreviation (input) MSG_SUBARU_PG_ES_LKAS :: int where "MSG_SUBARU_PG_ES_LKAS \<equiv> 0x164"
abbreviation (input) MSG_SUBARU_PG_ES_Distance :: int where "MSG_SUBARU_PG_ES_Distance \<equiv> 0x161"
abbreviation (input) MSG_SUBARU_PG_Steering_Torque :: int where "MSG_SUBARU_PG_Steering_Torque \<equiv> 0x371"

definition subaru_pg_rx_torque :: "CANPacket \<Rightarrow> safety_state \<Rightarrow> safety_state" where
  "subaru_pg_rx_torque p s =
     (if addr p = MSG_SUBARU_PG_Steering_Torque then
        let t = drop_bit 5 (byte p 3) + push_bit 3 (byte p 4);
            t = to_signed t 11;
            t = (if subaru_pg_reversed_driver_torque (subaru s) then - t else t)
        in s\<lparr>torque_driver := update_sample (torque_driver s) t\<rparr>
      else s)"

definition subaru_pg_rx_state :: "CANPacket \<Rightarrow> safety_state \<Rightarrow> safety_state" where
  "subaru_pg_rx_state p s =
     (let s = (if addr p = MSG_SUBARU_PG_CruiseControl
               then pcm_cruise_check ((drop_bit 1 (byte p 6) AND 1) \<noteq> 0) s else s);
          s = (if addr p = MSG_SUBARU_PG_Wheel_Speeds
               then s\<lparr>vehicle_moving := (drop_bit 12 (GET_BYTES p 0 4) \<noteq> 0 \<or> GET_BYTES p 4 4 \<noteq> 0)\<rparr> else s);
          s = (if addr p = MSG_SUBARU_PG_Brake_Pedal
               then s\<lparr>brake_pressed := (drop_bit 16 (GET_BYTES p 0 4) AND 0xFF) > 0\<rparr> else s)
      in if addr p = MSG_SUBARU_PG_Throttle then s\<lparr>gas_pressed := byte p 0 \<noteq> 0\<rparr> else s)"

definition subaru_preglobal_rx_hook :: "CANPacket \<Rightarrow> safety_state \<Rightarrow> safety_state" where
  "subaru_preglobal_rx_hook p s =
     (if bus p = 0 then subaru_pg_rx_state p (subaru_pg_rx_torque p s) else s)"

definition SUBARU_PG_STEERING_LIMITS :: TorqueSteeringLimits where
  "SUBARU_PG_STEERING_LIMITS = torque_limits_zero\<lparr>max_torque := 2047, max_rt_delta := 940,
     max_rate_up := 50, max_rate_down := 70, driver_torque_multiplier := 10,
     driver_torque_allowance := 75, control_type := TorqueDriverLimited\<rparr>"

definition subaru_pg_torque_cmd :: "CANPacket \<Rightarrow> int" where
  "subaru_pg_torque_cmd p = -1 * to_signed (uint (drop_bit 8 (GET_BYTES p 0 4) AND 0x1FFF)) 13"

definition subaru_preglobal_tx_hook :: "CANPacket \<Rightarrow> safety_state \<Rightarrow> bool \<times> safety_state" where
  "subaru_preglobal_tx_hook p s =
     (if addr p = MSG_SUBARU_PG_ES_LKAS then
        let steer_req = (byte p 3 AND 1) \<noteq> 0;
            (violation, s) = steer_torque_cmd_checks (subaru_pg_torque_cmd p) (of_bool steer_req)
              SUBARU_PG_STEERING_LIMITS s
        in (\<not> violation, s)
      else (True, s))"

definition SUBARU_PG_TX_MSGS :: "CanMsg list" where
  "SUBARU_PG_TX_MSGS = [tx_entry MSG_SUBARU_PG_ES_Distance 0 8 True,
     tx_entry MSG_SUBARU_PG_ES_LKAS 0 8 True]"

definition subaru_preglobal_rx_checks :: "RxCheck list" where
  "subaru_preglobal_rx_checks =
     [rx_check [no_checks (msg_check MSG_SUBARU_PG_Throttle 0 8 100)],
      rx_check [no_checks (msg_check MSG_SUBARU_PG_Steering_Torque 0 8 50)],
      rx_check [no_checks (msg_check MSG_SUBARU_PG_CruiseControl 0 8 50)],
      rx_check [no_checks (msg_check MSG_SUBARU_PG_Wheel_Speeds 0 8 50)],
      rx_check [no_checks (msg_check MSG_SUBARU_PG_Brake_Pedal 0 4 50)]]"

definition subaru_preglobal_init :: "u16 \<Rightarrow> safety_state \<Rightarrow> safety_config \<times> safety_state" where
  "subaru_preglobal_init param s =
     (let SUBARU_PG_PARAM_REVERSED_DRIVER_TORQUE = 4
      in (\<lparr>rx_checks = subaru_preglobal_rx_checks, tx_msgs = SUBARU_PG_TX_MSGS,
           disable_forwarding = False\<rparr>,
          s\<lparr>subaru := (subaru s)\<lparr>subaru_pg_reversed_driver_torque :=
               GET_FLAG param SUBARU_PG_PARAM_REVERSED_DRIVER_TORQUE\<rparr>\<rparr>))"

definition subaru_preglobal_hooks :: safety_hooks where
  "subaru_preglobal_hooks = \<lparr>init_hook = Some subaru_preglobal_init,
     rx_hook = subaru_preglobal_rx_hook, tx_hook = subaru_preglobal_tx_hook, fwd_hook = None,
     get_checksum = None, compute_checksum = None, get_counter = None,
     get_quality_flag_valid = None\<rparr>"

subsection \<open>The contracts\<close>

lemma subaru_rx_steps:
  "rx_view (subaru_rx_torque p s) = rx_view s"
  "rx_view (subaru_rx_cruise p s) = rx_view s"
  "rx_view (subaru_rx_speed p s) = rx_view s"
  "rx_view (subaru_rx_pedals p s) = rx_view s"
  "samples_view (subaru_rx_cruise p s) = samples_view s"
  "samples_view (subaru_rx_pedals p s) = samples_view s"
  by (simp_all add: rx_view_def views Let_def subaru_rx_torque_def subaru_rx_cruise_def
      subaru_rx_speed_def subaru_rx_pedals_def pcm_cruise_check_def UPDATE_VEHICLE_SPEED_def)

lemma subaru_rx_samples_steps:
  "samples_ok s \<Longrightarrow> samples_ok (subaru_rx_torque p s)"
  "samples_ok s \<Longrightarrow> samples_ok (subaru_rx_speed p s)"
  by (simp_all add: subaru_rx_torque_def subaru_rx_speed_def Let_def samples_ok_def
      UPDATE_VEHICLE_SPEED_def sample_ok_update)

lemma subaru_rx_view: "rx_view (subaru_rx_hook p s) = rx_view s"
  by (simp add: subaru_rx_hook_def subaru_rx_steps)

lemma subaru_rx_samples: "samples_ok s \<Longrightarrow> samples_ok (subaru_rx_hook p s)"
  by (simp add: subaru_rx_hook_def subaru_rx_samples_steps subaru_rx_steps(5,6) [THEN samples_view_ok])

lemma subaru_tx_frame: "frame_view (snd (subaru_tx_hook p s)) = frame_view s"
  by (simp add: subaru_tx_hook_def Let_def split_beta if_distrib [of frame_view] steering_frames)

lemma init_view_subaru: "init_view (s\<lparr>subaru := t\<rparr>) = init_view s"
  by (simp add: init_view_def views)

lemma subaru_init_views:
  "init_view (snd (subaru_init B param s)) = init_view s"
  "init_view (snd (subaru_preglobal_init param s)) = init_view s"
  by (simp_all add: subaru_init_def subaru_preglobal_init_def Let_def init_view_subaru)

interpretation subaru_mode: guarded_mode "subaru_hooks B" for B
  by (rule guarded_modeI)
    (auto simp: subaru_hooks_def subaru_tx_frame subaru_rx_view subaru_rx_samples subaru_init_views)

lemma subaru_pg_steps:
  "rx_view (subaru_pg_rx_torque p s) = rx_view s"
  "rx_view (subaru_pg_rx_state p s) = rx_view s"
  "samples_view (subaru_pg_rx_state p s) = samples_view s"
  by (simp_all add: rx_view_def views Let_def subaru_pg_rx_torque_def subaru_pg_rx_state_def
      pcm_cruise_check_def)

lemma subaru_pg_rx_torque_samples: "samples_ok s \<Longrightarrow> samples_ok (subaru_pg_rx_torque p s)"
  by (simp add: subaru_pg_rx_torque_def Let_def samples_ok_def sample_ok_update)

lemma subaru_pg_rx:
  "rx_view (subaru_preglobal_rx_hook p s) = rx_view s"
  "samples_ok s \<Longrightarrow> samples_ok (subaru_preglobal_rx_hook p s)"
  by (simp_all add: subaru_preglobal_rx_hook_def subaru_pg_steps subaru_pg_rx_torque_samples
      subaru_pg_steps(3) [THEN samples_view_ok])

lemma subaru_pg_tx_frame: "frame_view (snd (subaru_preglobal_tx_hook p s)) = frame_view s"
  by (simp add: subaru_preglobal_tx_hook_def Let_def split_beta steering_frames)

interpretation subaru_preglobal_mode: guarded_mode subaru_preglobal_hooks
  by (rule guarded_modeI)
    (auto simp: subaru_preglobal_hooks_def subaru_pg_tx_frame subaru_pg_rx subaru_init_views)

end
