(* ===== verification/Mode_Rivian.thy ===== *)
theory Mode_Rivian
  imports Mode_Interface
begin

text \<open>
  \<^verbatim>\<open>car/opendbc/safety/modes/rivian.h\<close>: torque steering with a limit that depends on the speed,
  guarded by a second speed source.
\<close>

subsection \<open>Message checks\<close>

definition rivian_get_counter :: "CANPacket \<Rightarrow> u8" where
  "rivian_get_counter p = (if addr p = 0x208 \<or> addr p = 0x150 then data p ! 1 AND 0xF else 0)"

definition rivian_get_checksum :: "CANPacket \<Rightarrow> u32" where
  "rivian_get_checksum p = (if addr p = 0x208 \<or> addr p = 0x150 then ucast (data p ! 0) else 0)"

definition rivian_crc :: "CANPacket \<Rightarrow> u8 \<Rightarrow> u8 \<Rightarrow> u8" where
  "rivian_crc p poly xor_output =
     fold (\<lambda>i crc. (crc8_step poly ^^ 8) (crc XOR data p ! i)) [1..<nat (GET_LEN p)] 0 XOR xor_output"

definition rivian_compute_checksum :: "CANPacket \<Rightarrow> u32" where
  "rivian_compute_checksum p =
     (if addr p = 0x208 then ucast (rivian_crc p 0x1D 0xB1)
      else if addr p = 0x150 then ucast (rivian_crc p 0x1D 0x9A)
      else 0)"

definition rivian_get_quality_flag_valid :: "CANPacket \<Rightarrow> bool" where
  "rivian_get_quality_flag_valid p =
     (if addr p = 0x208 then (drop_bit 3 (byte p 3) AND 0x3) = 0x1
      else if addr p = 0x150 then drop_bit 6 (byte p 1) = 0x1
      else False)"

subsection \<open>Receive hook\<close>

definition rivian_rx_speed :: "CANPacket \<Rightarrow> safety_state \<Rightarrow> safety_state" where
  "rivian_rx_speed p s =
     (if addr p = 0x208 then
        let speed = fmul (fint (push_bit 8 (byte p 6) OR byte p 7)) (f32 (1 / 100));
            s = s\<lparr>vehicle_moving := speed > 0\<rparr>
        in UPDATE_VEHICLE_SPEED (fmul speed KPH_TO_MS) s
      else s)"

definition rivian_rx_gas :: "CANPacket \<Rightarrow> safety_state \<Rightarrow> safety_state" where
  "rivian_rx_gas p s =
     (if addr p = 0x150 then
        let s = s\<lparr>gas_pressed := (byte p 3 OR (byte p 4 AND 0xC0)) \<noteq> 0\<rparr>;
            vdm_speed = fmul (fmul (fint (push_bit 8 (byte p 5) OR byte p 6)) (f32 (1 / 100))) KPH_TO_MS
        in speed_mismatch_check vdm_speed s
      else s)"

definition rivian_rx_torque :: "CANPacket \<Rightarrow> safety_state \<Rightarrow> safety_state" where
  "rivian_rx_torque p s =
     (if addr p = 0x380 then
        let torque_driver_new = to_s32 (to_u32 ((push_bit 4 (byte p 2) OR drop_bit 4 (byte p 3)) - 2050))
        in s\<lparr>torque_driver := update_sample (torque_driver s) torque_driver_new\<rparr>
      else s)"

definition rivian_rx_brake :: "CANPacket \<Rightarrow> safety_state \<Rightarrow> safety_state" where
  "rivian_rx_brake p s =
     (if addr p = 0x38f then s\<lparr>brake_pressed := (drop_bit 7 (byte p 2) AND 1) \<noteq> 0\<rparr> else s)"

definition rivian_rx_hook :: "CANPacket \<Rightarrow> safety_state \<Rightarrow> safety_state" where
  "rivian_rx_hook p s =
     (let s = (if bus p = 0
               then rivian_rx_brake p (rivian_rx_torque p (rivian_rx_gas p (rivian_rx_speed p s)))
               else s)
      in if bus p = 2 \<and> addr p = 0x100
         then let feature_status = drop_bit 5 (byte p 2) in pcm_cruise_check (feature_status = 1) s
         else s)"

subsection \<open>Transmit hook\<close>

definition RIVIAN_STEERING_LIMITS :: TorqueSteeringLimits where
  "RIVIAN_STEERING_LIMITS = torque_limits_zero\<lparr>max_torque := 350, dynamic_max_torque := True,
     max_torque_lookup := \<lparr>lx = [9, 17, 17], ly = [350, 250, 250]\<rparr>,
     max_rate_up := 3, max_rate_down := 5, max_rt_delta := 125, driver_torque_multiplier := 2,
     driver_torque_allowance := 100, control_type := TorqueDriverLimited\<rparr>"

definition RIVIAN_LONG_LIMITS :: LongitudinalLimits where
  "RIVIAN_LONG_LIMITS = long_limits_zero\<lparr>max_accel := 200, min_accel := -350, inactive_accel := 0\<rparr>"

text \<open>Bytes 2 and 3 hold the torque of \<open>0x120\<close> and the acceleration of \<open>0x160\<close>, offset 1024.\<close>

definition rivian_cmd :: "CANPacket \<Rightarrow> int" where
  "rivian_cmd p = to_s32 (to_u32 ((push_bit 3 (byte p 2) OR drop_bit 5 (byte p 3)) - 1024))"

definition rivian_tx_hook :: "CANPacket \<Rightarrow> safety_state \<Rightarrow> bool \<times> safety_state" where
  "rivian_tx_hook p s =
     (if bus p = 0 then
        let tx = True;
            (violation, s) =
              (if addr p = 0x120 then
                 let steer_req = (drop_bit 4 (byte p 3) AND 1) \<noteq> 0
                 in steer_torque_cmd_checks (rivian_cmd p) (of_bool steer_req) RIVIAN_STEERING_LIMITS s
               else (False, s));
            tx = (if violation then False else tx);
            tx = (if addr p = 0x160 then
                    if longitudinal_accel_checks (rivian_cmd p) RIVIAN_LONG_LIMITS s then False else tx
                  else tx)
        in (tx, s)
      else (True, s))"

subsection \<open>Initialisation\<close>

definition RIVIAN_TX_MSGS :: "CanMsg list" where
  "RIVIAN_TX_MSGS = [tx_entry 0x120 0 8 True, tx_entry 0x321 2 7 True, tx_entry 0x162 2 8 True]"

definition RIVIAN_LONG_TX_MSGS :: "CanMsg list" where
  "RIVIAN_LONG_TX_MSGS = [tx_entry 0x120 0 8 True, tx_entry 0x321 2 7 True, tx_entry 0x160 0 5 True]"

definition rivian_rx_checks :: "RxCheck list" where
  "rivian_rx_checks =
     [rx_check [(msg_check 0x208 0 8 50)\<lparr>max_counter := 14\<rparr>],
      rx_check [(msg_check 0x150 0 7 50)\<lparr>max_counter := 14\<rparr>],
      rx_check [no_checks (msg_check 0x380 0 5 100)],
      rx_check [no_checks (msg_check 0x38f 0 6 50)],
      rx_check [no_checks (msg_check 0x100 2 8 100)]]"

definition rivian_init :: "build \<Rightarrow> u16 \<Rightarrow> safety_state \<Rightarrow> safety_config \<times> safety_state" where
  "rivian_init B param s =
     (let FLAG_RIVIAN_LONG_CONTROL = 1;
          rivian_longitudinal = ALLOW_DEBUG B \<and> GET_FLAG param FLAG_RIVIAN_LONG_CONTROL
      in (\<lparr>rx_checks = rivian_rx_checks,
           tx_msgs = (if rivian_longitudinal then RIVIAN_LONG_TX_MSGS else RIVIAN_TX_MSGS),
           disable_forwarding = False\<rparr>, s))"

definition rivian_hooks :: "build \<Rightarrow> safety_hooks" where
  "rivian_hooks B = \<lparr>init_hook = Some (rivian_init B), rx_hook = rivian_rx_hook,
     tx_hook = rivian_tx_hook, fwd_hook = None, get_checksum = Some rivian_get_checksum,
     compute_checksum = Some rivian_compute_checksum, get_counter = Some rivian_get_counter,
     get_quality_flag_valid = Some rivian_get_quality_flag_valid\<rparr>"

subsection \<open>The contract\<close>

lemma rivian_rx_steps:
  "rx_view (rivian_rx_speed p s) = rx_view s"
  "rx_view (rivian_rx_gas p s) = rx_view s"
  "rx_view (rivian_rx_torque p s) = rx_view s"
  "rx_view (rivian_rx_brake p s) = rx_view s"
  "samples_view (rivian_rx_gas p s) = samples_view s"
  "samples_view (rivian_rx_brake p s) = samples_view s"
  by (simp_all add: rx_view_def views Let_def rivian_rx_speed_def rivian_rx_gas_def
      rivian_rx_torque_def rivian_rx_brake_def UPDATE_VEHICLE_SPEED_def speed_mismatch_check_def)

lemma rivian_rx_samples_steps:
  "samples_ok s \<Longrightarrow> samples_ok (rivian_rx_speed p s)"
  "samples_ok s \<Longrightarrow> samples_ok (rivian_rx_torque p s)"
  by (simp_all add: rivian_rx_speed_def rivian_rx_torque_def Let_def samples_ok_def
      UPDATE_VEHICLE_SPEED_def sample_ok_update)

lemma rivian_rx:
  "rx_view (rivian_rx_hook p s) = rx_view s"
  "samples_ok s \<Longrightarrow> samples_ok (rivian_rx_hook p s)"
  by (simp_all add: rivian_rx_hook_def Let_def rivian_rx_steps rivian_rx_samples_steps
      rx_view_pcm_cruise_check rivian_rx_steps(5,6) [THEN samples_view_ok]
      rx_view_pcm_cruise_check(2) [THEN samples_view_ok])

lemma rivian_tx_frame: "frame_view (snd (rivian_tx_hook p s)) = frame_view s"
  by (simp add: rivian_tx_hook_def Let_def split_beta if_distrib [of frame_view] steering_frames)

interpretation rivian_mode: guarded_mode "rivian_hooks B" for B
  by (rule guarded_modeI)
    (auto simp: rivian_hooks_def rivian_tx_frame rivian_rx rivian_init_def init_view_def views Let_def)

end
