(* ===== verification/Mode_Tesla.thy ===== *)
theory Mode_Tesla
  imports Mode_Interface
begin

text \<open>
  \<^verbatim>\<open>car/opendbc/safety/modes/tesla.h\<close>: steering by angle under the vehicle model, and a
  hand-over to the stock systems (AEB, lane keeping, Autopark and Summon) that decides both
  what may be sent and what is forwarded from the camera.
\<close>

subsection \<open>Message checks\<close>

text \<open>The messages whose counter and checksum lie in their first two bytes.\<close>

definition tesla_low_counter :: "int \<Rightarrow> bool" where
  "tesla_low_counter a \<longleftrightarrow> a = 0x257 \<or> a = 0x118 \<or> a = 0x39d \<or> a = 0x286 \<or> a = 0x311"

definition tesla_get_counter :: "CANPacket \<Rightarrow> u8" where
  "tesla_get_counter p =
     (if addr p = 0x2b9 then drop_bit 5 (data p ! 6)
      else if addr p = 0x488 then data p ! 2 AND 0x0F
      else if tesla_low_counter (addr p) then data p ! 1 AND 0x0F
      else if addr p = 0x155 then drop_bit 4 (data p ! 6)
      else if addr p = 0x370 then data p ! 6 AND 0x0F
      else 0)"

definition tesla_get_checksum_byte :: "int \<Rightarrow> int" where
  "tesla_get_checksum_byte a =
     (if a = 0x370 \<or> a = 0x2b9 \<or> a = 0x155 then 7
      else if a = 0x488 then 3
      else if tesla_low_counter a then 0
      else -1)"

definition tesla_get_checksum :: "CANPacket \<Rightarrow> u32" where
  "tesla_get_checksum p =
     (let checksum_byte = tesla_get_checksum_byte (addr p)
      in if checksum_byte \<noteq> -1 then ucast (data p ! nat checksum_byte) else 0)"

definition tesla_compute_checksum :: "CANPacket \<Rightarrow> u32" where
  "tesla_compute_checksum p =
     (let checksum_byte = tesla_get_checksum_byte (addr p) in
      if checksum_byte \<noteq> -1 then
        let chksum = word_of_int ((addr p AND 0xFF) + (drop_bit 8 (addr p) AND 0xFF)) :: u8
        in ucast (fold (\<lambda>i c. if int i \<noteq> checksum_byte then c + data p ! i else c)
                    [0..<nat (GET_LEN p)] chksum)
      else 0)"

definition tesla_get_quality_flag_valid :: "CANPacket \<Rightarrow> bool" where
  "tesla_get_quality_flag_valid p =
     (if addr p = 0x155 then (byte p 5 AND 0x1) = 0x1
      else if addr p = 0x39d then
        let user_brake_status = byte p 2 AND 0x03
        in user_brake_status \<noteq> 0 \<and> user_brake_status \<noteq> 3
      else False)"

subsection \<open>Receive hook\<close>

definition tesla_rx_angle :: "CANPacket \<Rightarrow> safety_state \<Rightarrow> safety_state" where
  "tesla_rx_angle p s =
     (if addr p = 0x370 then
        let angle_meas_new = to_s32 (to_u32 ((push_bit 8 (byte p 4 AND 0x3F) OR byte p 5) - 8192));
            s = s\<lparr>angle_meas := update_sample (angle_meas s) angle_meas_new\<rparr>;
            hands_on_level = drop_bit 6 (byte p 4);
            eac_status = drop_bit 5 (byte p 6);
            eac_error_code = drop_bit 4 (byte p 2)
        in s\<lparr>steering_disengage := (hands_on_level \<ge> 3 \<or> (eac_status = 0 \<and> eac_error_code = 9))\<rparr>
      else s)"

definition tesla_rx_speed :: "CANPacket \<Rightarrow> safety_state \<Rightarrow> safety_state" where
  "tesla_rx_speed p s =
     (if addr p = 0x257 then
        let raw = push_bit 4 (byte p 2) OR drop_bit 4 (byte p 1);
            speed = fmul (fsub (fmul (fint raw) (f32 (8 / 100))) 40) KPH_TO_MS
        in UPDATE_VEHICLE_SPEED speed s
      else s)"

definition tesla_rx_esp :: "CANPacket \<Rightarrow> safety_state \<Rightarrow> safety_state" where
  "tesla_rx_esp p s =
     (if addr p = 0x155 then
        let raw = push_bit 6 (byte p 6 AND 0x0F) OR drop_bit 2 (byte p 5);
            esp_speed = fmul (fmul (fint raw) (1 / 2)) KPH_TO_MS
        in speed_mismatch_check esp_speed s
      else s)"

definition tesla_rx_pedals :: "CANPacket \<Rightarrow> safety_state \<Rightarrow> safety_state" where
  "tesla_rx_pedals p s =
     (let s = (if addr p = 0x118 then s\<lparr>gas_pressed := (byte p 4 \<noteq> 0)\<rparr> else s)
      in if addr p = 0x39d then s\<lparr>brake_pressed := ((byte p 2 AND 0x03) = 2)\<rparr> else s)"

text \<open>Autopark is latched on a rising edge seen while cruise was off, and released as soon as
  its state is no longer one of the three active ones.\<close>

definition tesla_autopark_latch :: "int \<Rightarrow> safety_state \<Rightarrow> safety_state" where
  "tesla_autopark_latch autopark_state s =
     (let tesla_autopark_now = autopark_state = 3 \<or> autopark_state = 4 \<or> autopark_state = 9;
          s = (if tesla_autopark_now \<and> \<not> tesla_autopark_prev (tesla s) \<and> \<not> cruise_engaged_prev s
               then s\<lparr>tesla := (tesla s)\<lparr>tesla_autopark := True\<rparr>\<rparr> else s);
          s = (if \<not> tesla_autopark_now then s\<lparr>tesla := (tesla s)\<lparr>tesla_autopark := False\<rparr>\<rparr> else s)
      in s\<lparr>tesla := (tesla s)\<lparr>tesla_autopark_prev := tesla_autopark_now\<rparr>\<rparr>)"

definition tesla_rx_state :: "CANPacket \<Rightarrow> safety_state \<Rightarrow> safety_state" where
  "tesla_rx_state p s =
     (if addr p = 0x286 then
        let s = tesla_autopark_latch (drop_bit 1 (byte p 3) AND 0x0F) s;
            cruise_state = drop_bit 4 (byte p 1) AND 0x07;
            cruise_engaged = cruise_state = 2 \<or> cruise_state = 3 \<or> cruise_state = 4 \<or>
              cruise_state = 6 \<or> cruise_state = 7;
            cruise_engaged = (cruise_engaged \<and> \<not> tesla_autopark (tesla s));
            s = s\<lparr>vehicle_moving := (cruise_state \<noteq> 3)\<rparr>
        in pcm_cruise_check cruise_engaged s
      else s)"

definition tesla_lkas_latch :: "bool \<Rightarrow> safety_state \<Rightarrow> safety_state" where
  "tesla_lkas_latch tesla_stock_lkas_now s =
     (let s = (if tesla_stock_lkas_now \<and> \<not> tesla_stock_lkas_prev (tesla s) \<and> \<not> controls_allowed s
               then s\<lparr>tesla := (tesla s)\<lparr>tesla_stock_lkas := True\<rparr>\<rparr> else s);
          s = (if \<not> tesla_stock_lkas_now
               then s\<lparr>tesla := (tesla s)\<lparr>tesla_stock_lkas := False\<rparr>\<rparr> else s)
      in s\<lparr>tesla := (tesla s)\<lparr>tesla_stock_lkas_prev := tesla_stock_lkas_now\<rparr>\<rparr>)"

definition tesla_rx_camera :: "CANPacket \<Rightarrow> safety_state \<Rightarrow> safety_state" where
  "tesla_rx_camera p s =
     (let s = (if addr p = 0x2b9
               then s\<lparr>tesla := (tesla s)\<lparr>tesla_stock_aeb := ((byte p 2 AND 0x03) = 1)\<rparr>\<rparr> else s)
      in if addr p = 0x488 then tesla_lkas_latch (drop_bit 6 (byte p 2) = 2) s else s)"

definition tesla_rx_hook :: "CANPacket \<Rightarrow> safety_state \<Rightarrow> safety_state" where
  "tesla_rx_hook p s =
     (let s = (if bus p = 0
               then tesla_rx_state p (tesla_rx_pedals p (tesla_rx_esp p (tesla_rx_speed p
                      (tesla_rx_angle p s))))
               else s)
      in if bus p = 2 then tesla_rx_camera p s else s)"

subsection \<open>Transmit hook\<close>

definition TESLA_STEERING_LIMITS :: AngleSteeringLimits where
  "TESLA_STEERING_LIMITS = angle_limits_zero\<lparr>max_angle := 3600, angle_deg_to_can := 10,
     angle_frequency := 50\<rparr>"

definition TESLA_STEERING_PARAMS :: AngleSteeringParams where
  "TESLA_STEERING_PARAMS = \<lparr>slip_factor = f32 (- (580374383851451 / 10 ^ 18)),
     steer_ratio = 12, wheelbase = f32 (289 / 100)\<rparr>"

definition TESLA_LONG_LIMITS :: LongitudinalLimits where
  "TESLA_LONG_LIMITS = long_limits_zero\<lparr>max_accel := 425, min_accel := 288, inactive_accel := 375\<rparr>"

definition tesla_tx_steering :: "CANPacket \<Rightarrow> safety_state \<Rightarrow> bool \<times> safety_state" where
  "tesla_tx_steering p s =
     (let raw_angle_can = push_bit 8 (byte p 0 AND 0x7F) OR byte p 1;
          desired_angle = raw_angle_can - 16384;
          steer_control_type = drop_bit 6 (byte p 2);
          steer_control_enabled = steer_control_type = 1;
          (violation, s) = steer_angle_cmd_checks_vm desired_angle steer_control_enabled
             TESLA_STEERING_LIMITS TESLA_STEERING_PARAMS s;
          valid_steer_control_type = steer_control_type = 0 \<or> steer_control_type = 1
      in (violation \<or> \<not> valid_steer_control_type \<or> tesla_stock_lkas (tesla s), s))"

definition tesla_tx_long :: "CANPacket \<Rightarrow> safety_state \<Rightarrow> bool" where
  "tesla_tx_long p s =
     (let aeb_event = byte p 2 AND 0x03;
          violation = (aeb_event \<noteq> 0 \<or> tesla_stock_aeb (tesla s));
          raw_accel_max = push_bit 4 (byte p 6 AND 0x1F) OR drop_bit 4 (byte p 5);
          raw_accel_min = push_bit 5 (byte p 5 AND 0x0F) OR drop_bit 3 (byte p 4);
          acc_state = drop_bit 4 (byte p 1)
      in violation \<or>
         (if tesla_longitudinal (tesla s) then
            (raw_accel_max < inactive_accel TESLA_LONG_LIMITS \<and>
             raw_accel_min < inactive_accel TESLA_LONG_LIMITS) \<or>
            longitudinal_accel_checks raw_accel_max TESLA_LONG_LIMITS s \<or>
            longitudinal_accel_checks raw_accel_min TESLA_LONG_LIMITS s
          else
            acc_state \<noteq> 13 \<or>
            raw_accel_max \<noteq> inactive_accel TESLA_LONG_LIMITS \<or>
            raw_accel_min \<noteq> inactive_accel TESLA_LONG_LIMITS))"

definition tesla_tx_hook :: "CANPacket \<Rightarrow> safety_state \<Rightarrow> bool \<times> safety_state" where
  "tesla_tx_hook p s =
     (let violation = tesla_autopark (tesla s);
          (steering, s) = (if addr p = 0x488 then tesla_tx_steering p s else (False, s));
          violation = (violation \<or> steering);
          violation = (violation \<or> (addr p = 0x2b9 \<and> tesla_tx_long p s))
      in (\<not> violation, s))"

definition tesla_fwd_hook :: "int \<Rightarrow> int \<Rightarrow> safety_state \<Rightarrow> bool" where
  "tesla_fwd_hook bus_num a s =
     (bus_num = 2 \<and> \<not> tesla_autopark (tesla s) \<and>
      (a = 0x27d \<or> (a = 0x488 \<and> \<not> tesla_stock_lkas (tesla s)) \<or>
       (tesla_longitudinal (tesla s) \<and> a = 0x2b9 \<and> \<not> tesla_stock_aeb (tesla s))))"

subsection \<open>Initialisation\<close>

definition TESLA_M3_Y_TX_MSGS :: "CanMsg list" where
  "TESLA_M3_Y_TX_MSGS =
     [(tx_entry 0x488 0 4 True)\<lparr>disable_static_blocking := True\<rparr>,
      tx_entry 0x2b9 0 8 False,
      (tx_entry 0x27D 0 3 True)\<lparr>disable_static_blocking := True\<rparr>]"

definition TESLA_M3_Y_LONG_TX_MSGS :: "CanMsg list" where
  "TESLA_M3_Y_LONG_TX_MSGS =
     [(tx_entry 0x488 0 4 True)\<lparr>disable_static_blocking := True\<rparr>,
      (tx_entry 0x2b9 0 8 True)\<lparr>disable_static_blocking := True\<rparr>,
      (tx_entry 0x27D 0 3 True)\<lparr>disable_static_blocking := True\<rparr>]"

definition tesla_model3_y_rx_checks :: "RxCheck list" where
  "tesla_model3_y_rx_checks =
     [rx_check [(msg_check 0x2b9 2 8 25)\<lparr>max_counter := 7, ignore_quality_flag := True\<rparr>],
      rx_check [(msg_check 0x488 2 4 50)\<lparr>max_counter := 15, ignore_quality_flag := True\<rparr>],
      rx_check [(msg_check 0x257 0 8 50)\<lparr>max_counter := 15, ignore_quality_flag := True\<rparr>],
      rx_check [(msg_check 0x155 0 8 50)\<lparr>max_counter := 15\<rparr>],
      rx_check [(msg_check 0x370 0 8 100)\<lparr>max_counter := 15, ignore_quality_flag := True\<rparr>],
      rx_check [(msg_check 0x118 0 8 100)\<lparr>max_counter := 15, ignore_quality_flag := True\<rparr>],
      rx_check [(msg_check 0x39d 0 5 25)\<lparr>max_counter := 15\<rparr>],
      rx_check [(msg_check 0x286 0 8 10)\<lparr>max_counter := 15, ignore_quality_flag := True\<rparr>],
      rx_check [(msg_check 0x311 0 7 10)\<lparr>max_counter := 15, ignore_quality_flag := True\<rparr>]]"

definition tesla_init :: "build \<Rightarrow> u16 \<Rightarrow> safety_state \<Rightarrow> safety_config \<times> safety_state" where
  "tesla_init B param s =
     (let TESLA_FLAG_LONGITUDINAL_CONTROL = 1;
          s = (if ALLOW_DEBUG B
               then s\<lparr>tesla := (tesla s)\<lparr>tesla_longitudinal :=
                      GET_FLAG param TESLA_FLAG_LONGITUDINAL_CONTROL\<rparr>\<rparr>
               else s);
          s = s\<lparr>tesla := (tesla s)\<lparr>tesla_stock_aeb := False, tesla_stock_lkas := False,
                tesla_stock_lkas_prev := False, tesla_autopark := True,
                tesla_autopark_prev := False\<rparr>\<rparr>
      in (\<lparr>rx_checks = tesla_model3_y_rx_checks,
           tx_msgs = (if tesla_longitudinal (tesla s) then TESLA_M3_Y_LONG_TX_MSGS
                      else TESLA_M3_Y_TX_MSGS),
           disable_forwarding = False\<rparr>, s))"

definition tesla_hooks :: "build \<Rightarrow> safety_hooks" where
  "tesla_hooks B = \<lparr>init_hook = Some (tesla_init B), rx_hook = tesla_rx_hook,
     tx_hook = tesla_tx_hook, fwd_hook = Some tesla_fwd_hook,
     get_checksum = Some tesla_get_checksum,
     compute_checksum = Some tesla_compute_checksum, get_counter = Some tesla_get_counter,
     get_quality_flag_valid = Some tesla_get_quality_flag_valid\<rparr>"

subsection \<open>The contract\<close>

lemma tesla_views [simp]:
  "rx_view (s\<lparr>tesla := t\<rparr>) = rx_view s" "samples_view (s\<lparr>tesla := t\<rparr>) = samples_view s"
  "init_view (s\<lparr>tesla := t\<rparr>) = init_view s"
  by (simp_all add: rx_view_def init_view_def views)

lemma tesla_autopark_lkas_views:
  "rx_view (tesla_autopark_latch a s) = rx_view s"
  "samples_view (tesla_autopark_latch a s) = samples_view s"
  "rx_view (tesla_lkas_latch b s) = rx_view s"
  "samples_view (tesla_lkas_latch b s) = samples_view s"
  by (simp_all add: tesla_autopark_latch_def tesla_lkas_latch_def Let_def)

lemma tesla_moving_views [simp]:
  "rx_view (s\<lparr>vehicle_moving := b\<rparr>) = rx_view s"
  "samples_view (s\<lparr>vehicle_moving := b\<rparr>) = samples_view s"
  by (simp_all add: rx_view_def views)

lemma tesla_rx_steps:
  "rx_view (tesla_rx_angle p s) = rx_view s"
  "rx_view (tesla_rx_speed p s) = rx_view s"
  "rx_view (tesla_rx_esp p s) = rx_view s"
  "rx_view (tesla_rx_pedals p s) = rx_view s"
  "rx_view (tesla_rx_state p s) = rx_view s"
  "rx_view (tesla_rx_camera p s) = rx_view s"
       apply (simp add: rx_view_def views Let_def tesla_rx_angle_def)
      apply (simp add: tesla_rx_speed_def Let_def rx_view_UPDATE_VEHICLE_SPEED)
     apply (simp add: tesla_rx_esp_def Let_def rx_view_speed_mismatch_check)
    apply (simp add: rx_view_def views Let_def tesla_rx_pedals_def)
   apply (simp add: tesla_rx_state_def Let_def rx_view_pcm_cruise_check tesla_autopark_lkas_views)
  apply (simp add: tesla_rx_camera_def Let_def tesla_autopark_lkas_views)
  done

lemma tesla_rx_samples_steps:
  "samples_ok s \<Longrightarrow> samples_ok (tesla_rx_angle p s)"
  "samples_ok s \<Longrightarrow> samples_ok (tesla_rx_speed p s)"
  "samples_view (tesla_rx_esp p s) = samples_view s"
  "samples_view (tesla_rx_pedals p s) = samples_view s"
  "samples_view (tesla_rx_state p s) = samples_view s"
  "samples_view (tesla_rx_camera p s) = samples_view s"
       apply (simp add: tesla_rx_angle_def Let_def samples_ok_def sample_ok_update)
      apply (simp add: tesla_rx_speed_def Let_def samples_ok_UPDATE_VEHICLE_SPEED)
     apply (simp add: tesla_rx_esp_def Let_def rx_view_speed_mismatch_check)
    apply (simp add: views Let_def tesla_rx_pedals_def)
   apply (simp add: tesla_rx_state_def Let_def rx_view_pcm_cruise_check tesla_autopark_lkas_views)
  apply (simp add: tesla_rx_camera_def Let_def tesla_autopark_lkas_views)
  done

lemma tesla_rx:
  "rx_view (tesla_rx_hook p s) = rx_view s"
  "samples_ok s \<Longrightarrow> samples_ok (tesla_rx_hook p s)"
  by (simp_all add: tesla_rx_hook_def Let_def tesla_rx_steps tesla_rx_samples_steps
      tesla_rx_samples_steps(3-6) [THEN samples_view_ok])

lemma tesla_tx_frame: "frame_view (snd (tesla_tx_hook p s)) = frame_view s"
  by (simp add: tesla_tx_hook_def tesla_tx_steering_def Let_def split_beta
      if_distrib [of frame_view] steering_frames)

interpretation tesla_mode: guarded_mode "tesla_hooks B" for B
  by (rule guarded_modeI)
    (auto simp: tesla_hooks_def tesla_tx_frame tesla_rx tesla_init_def Let_def)

end
