(* ===== verification/Mode_Ford.thy ===== *)
theory Mode_Ford
  imports Mode_Interface
begin

text \<open>
  \<^verbatim>\<open>car/opendbc/safety/modes/ford.h\<close>: steering by curvature, in a CAN and a CAN FD variant, and
  longitudinal control through separate gas and brake requests.
\<close>

abbreviation (input) FORD_EngBrakeData :: int where "FORD_EngBrakeData \<equiv> 0x165"
abbreviation (input) FORD_EngVehicleSpThrottle :: int where "FORD_EngVehicleSpThrottle \<equiv> 0x204"
abbreviation (input) FORD_DesiredTorqBrk :: int where "FORD_DesiredTorqBrk \<equiv> 0x213"
abbreviation (input) FORD_BrakeSysFeatures :: int where "FORD_BrakeSysFeatures \<equiv> 0x415"
abbreviation (input) FORD_EngVehicleSpThrottle2 :: int where "FORD_EngVehicleSpThrottle2 \<equiv> 0x202"
abbreviation (input) FORD_Yaw_Data_FD1 :: int where "FORD_Yaw_Data_FD1 \<equiv> 0x91"
abbreviation (input) FORD_Steering_Data_FD1 :: int where "FORD_Steering_Data_FD1 \<equiv> 0x083"
abbreviation (input) FORD_ACCDATA :: int where "FORD_ACCDATA \<equiv> 0x186"
abbreviation (input) FORD_ACCDATA_3 :: int where "FORD_ACCDATA_3 \<equiv> 0x18A"
abbreviation (input) FORD_Lane_Assist_Data1 :: int where "FORD_Lane_Assist_Data1 \<equiv> 0x3CA"
abbreviation (input) FORD_LateralMotionControl :: int where "FORD_LateralMotionControl \<equiv> 0x3D3"
abbreviation (input) FORD_LateralMotionControl2 :: int where "FORD_LateralMotionControl2 \<equiv> 0x3D6"
abbreviation (input) FORD_IPMA_Data :: int where "FORD_IPMA_Data \<equiv> 0x3D8"

abbreviation (input) FORD_MAIN_BUS :: int where "FORD_MAIN_BUS \<equiv> 0"

subsection \<open>Message checks\<close>

definition ford_get_counter :: "CANPacket \<Rightarrow> u8" where
  "ford_get_counter p =
     (if addr p = FORD_BrakeSysFeatures then drop_bit 2 (data p ! 2) AND 0xF
      else if addr p = FORD_Yaw_Data_FD1 then data p ! 5
      else 0)"

definition ford_get_checksum :: "CANPacket \<Rightarrow> u32" where
  "ford_get_checksum p =
     (if addr p = FORD_BrakeSysFeatures then ucast (data p ! 3)
      else if addr p = FORD_Yaw_Data_FD1 then ucast (data p ! 4)
      else 0)"

definition ford_compute_checksum :: "CANPacket \<Rightarrow> u32" where
  "ford_compute_checksum p =
     (if addr p = FORD_BrakeSysFeatures then
        let chksum = data p ! 0 + data p ! 1;
            chksum = chksum + drop_bit 6 (data p ! 2);
            chksum = chksum + (drop_bit 2 (data p ! 2) AND 0xF)
        in ucast (0xFF - chksum)
      else if addr p = FORD_Yaw_Data_FD1 then
        let chksum = data p ! 0 + data p ! 1;
            chksum = chksum + (data p ! 2 + data p ! 3);
            chksum = chksum + data p ! 5;
            chksum = chksum + drop_bit 6 (data p ! 6);
            chksum = chksum + (drop_bit 4 (data p ! 6) AND 0x3)
        in ucast (0xFF - chksum)
      else 0)"

definition ford_get_quality_flag_valid :: "CANPacket \<Rightarrow> bool" where
  "ford_get_quality_flag_valid p =
     (if addr p = FORD_BrakeSysFeatures then drop_bit 6 (byte p 2) = 0x3
      else if addr p = FORD_EngVehicleSpThrottle2 then (drop_bit 5 (byte p 4) AND 0x3) = 0x3
      else if addr p = FORD_Yaw_Data_FD1 then (drop_bit 4 (byte p 6) AND 0x3) = 0x3
      else False)"

subsection \<open>Limits\<close>

definition FORD_LIMITS :: "bool \<Rightarrow> AngleSteeringLimits" where
  "FORD_LIMITS limit_lateral_acceleration = angle_limits_zero\<lparr>
     max_angle := 1000, angle_deg_to_can := 50000, max_angle_error := 100,
     angle_rate_up_lookup := \<lparr>lx = [5, 25, 25],
       ly = [f32 (45 / 100000), f32 (1 / 10000), f32 (1 / 10000)]\<rparr>,
     angle_rate_down_lookup := \<lparr>lx = [5, 25, 25],
       ly = [f32 (45 / 100000), f32 (15 / 100000), f32 (15 / 100000)]\<rparr>,
     angle_error_min_speed := 10, angle_is_curvature := limit_lateral_acceleration,
     enforce_angle_error := True, inactive_angle_is_zero := True\<rparr>"

definition FORD_STEERING_LIMITS :: AngleSteeringLimits where
  "FORD_STEERING_LIMITS = FORD_LIMITS False"

definition FORD_CANFD_STEERING_LIMITS :: AngleSteeringLimits where
  "FORD_CANFD_STEERING_LIMITS = FORD_LIMITS True"

definition FORD_LONG_LIMITS :: LongitudinalLimits where
  "FORD_LONG_LIMITS = long_limits_zero\<lparr>max_accel := 5641, min_accel := 4231,
     inactive_accel := 5128, max_gas := 700, min_gas := 450, inactive_gas := 0\<rparr>"

abbreviation (input) FORD_INACTIVE_CURVATURE :: int where "FORD_INACTIVE_CURVATURE \<equiv> 1000"
abbreviation (input) FORD_INACTIVE_CURVATURE_RATE :: int where "FORD_INACTIVE_CURVATURE_RATE \<equiv> 4096"
abbreviation (input) FORD_INACTIVE_PATH_OFFSET :: int where "FORD_INACTIVE_PATH_OFFSET \<equiv> 512"
abbreviation (input) FORD_INACTIVE_PATH_ANGLE :: int where "FORD_INACTIVE_PATH_ANGLE \<equiv> 1000"
abbreviation (input) FORD_CANFD_INACTIVE_CURVATURE_RATE :: int
  where "FORD_CANFD_INACTIVE_CURVATURE_RATE \<equiv> 1024"

subsection \<open>Receive hook\<close>

definition ford_rx_speed :: "CANPacket \<Rightarrow> safety_state \<Rightarrow> safety_state" where
  "ford_rx_speed p s =
     (let s = (if addr p = FORD_DesiredTorqBrk
               then s\<lparr>vehicle_moving := ((drop_bit 3 (byte p 3) AND 0x3) \<noteq> 1)\<rparr> else s);
          s = (if addr p = FORD_BrakeSysFeatures
               then UPDATE_VEHICLE_SPEED
                 (fmul (fmul (fint (push_bit 8 (byte p 0) OR byte p 1)) (f32 (1 / 100))) KPH_TO_MS) s
               else s)
      in if addr p = FORD_EngVehicleSpThrottle2 then
           let filtered_pcm_speed =
                 fmul (fmul (fint (push_bit 8 (byte p 6) OR byte p 7)) (f32 (1 / 100))) KPH_TO_MS
           in speed_mismatch_check filtered_pcm_speed s
         else s)"

definition ford_rx_yaw :: "CANPacket \<Rightarrow> safety_state \<Rightarrow> safety_state" where
  "ford_rx_yaw p s =
     (if addr p = FORD_Yaw_Data_FD1 then
        let ford_yaw_rate =
              fsub (fmul (fint (push_bit 8 (byte p 2) OR byte p 3)) (f32 (2 / 10000))) (13 / 2);
            current_curvature =
              fdiv ford_yaw_rate
                (CMAX (fdiv (fint (sample_values (vehicle_speed s) ! 0)) 1000) (f32 (1 / 10)))
        in s\<lparr>angle_meas := update_sample (angle_meas s)
              (ROUND (fmul current_curvature (angle_deg_to_can FORD_STEERING_LIMITS)))\<rparr>
      else s)"

definition ford_rx_driver :: "CANPacket \<Rightarrow> safety_state \<Rightarrow> safety_state" where
  "ford_rx_driver p s =
     (let s = (if addr p = FORD_EngVehicleSpThrottle
               then s\<lparr>gas_pressed := ((push_bit 8 (byte p 0 AND 0x03) OR byte p 1) > 0)\<rparr> else s)
      in if addr p = FORD_EngBrakeData then
           let s = s\<lparr>brake_pressed := ((drop_bit 4 (byte p 0) AND 0x3) = 2)\<rparr>;
               cruise_state = byte p 1 AND 0x07;
               cruise_engaged = (cruise_state = 4 \<or> cruise_state = 5)
           in pcm_cruise_check cruise_engaged s
         else s)"

definition ford_rx_hook :: "CANPacket \<Rightarrow> safety_state \<Rightarrow> safety_state" where
  "ford_rx_hook p s =
     (if bus p = FORD_MAIN_BUS then ford_rx_driver p (ford_rx_yaw p (ford_rx_speed p s)) else s)"

subsection \<open>Transmit hook\<close>

definition ford_tx_accdata :: "CANPacket \<Rightarrow> safety_state \<Rightarrow> bool" where
  "ford_tx_accdata p s =
     (let gas = push_bit 8 (byte p 6 AND 0x3) OR byte p 7;
          gas_pred = push_bit 8 (byte p 2 AND 0x3) OR byte p 3;
          accel = push_bit 8 (byte p 0 AND 0x1F) OR byte p 1;
          cmbb_deny = (drop_bit 5 (byte p 4) AND 1) \<noteq> 0;
          brake_actuation =
            ((drop_bit 6 (byte p 6) AND 1) \<noteq> 0 \<or> (drop_bit 7 (byte p 6) AND 1) \<noteq> 0)
      in longitudinal_accel_checks accel FORD_LONG_LIMITS s \<or>
         longitudinal_gas_checks gas FORD_LONG_LIMITS s \<or>
         longitudinal_gas_checks gas_pred FORD_LONG_LIMITS s \<or>
         cmbb_deny \<or> (\<not> get_longitudinal_allowed s \<and> brake_actuation))"

definition ford_tx_buttons :: "CANPacket \<Rightarrow> safety_state \<Rightarrow> bool" where
  "ford_tx_buttons p s =
     (((byte p 1 AND 1) \<noteq> 0 \<and> \<not> cruise_engaged_prev s) \<or>
      ((drop_bit 1 (byte p 3) AND 1) \<noteq> 0 \<and> \<not> controls_allowed s))"

definition ford_curvature_cmd :: "CANPacket \<Rightarrow> int" where
  "ford_curvature_cmd p =
     (let raw_curvature = push_bit 3 (byte p 0) OR drop_bit 5 (byte p 1)
      in to_s32 (to_u32 (raw_curvature - FORD_INACTIVE_CURVATURE)))"

definition ford_curvature2_cmd :: "CANPacket \<Rightarrow> int" where
  "ford_curvature2_cmd p =
     (let raw_curvature = push_bit 3 (byte p 2) OR drop_bit 5 (byte p 3)
      in to_s32 (to_u32 (raw_curvature - FORD_INACTIVE_CURVATURE)))"

definition ford_steer_enabled :: "CANPacket \<Rightarrow> bool" where
  "ford_steer_enabled p =
     (if addr p = FORD_LateralMotionControl then (drop_bit 2 (byte p 4) AND 0x7) \<noteq> 0
      else (drop_bit 4 (byte p 0) AND 0x7) \<noteq> 0)"

text \<open>The two curvature messages: the signals next to the curvature must hold their inactive
  values.\<close>

definition ford_tx_curvature :: "CANPacket \<Rightarrow> safety_state \<Rightarrow> bool \<times> safety_state" where
  "ford_tx_curvature p s =
     (let steer_control_enabled = ford_steer_enabled p;
          raw_curvature_rate = push_bit 8 (byte p 1 AND 0x1F) OR byte p 2;
          raw_path_angle = push_bit 3 (byte p 3) OR drop_bit 5 (byte p 4);
          raw_path_offset = push_bit 2 (byte p 5) OR drop_bit 6 (byte p 6);
          violation = (raw_curvature_rate \<noteq> FORD_INACTIVE_CURVATURE_RATE \<or>
            raw_path_angle \<noteq> FORD_INACTIVE_PATH_ANGLE \<or>
            raw_path_offset \<noteq> FORD_INACTIVE_PATH_OFFSET);
          desired_curvature = ford_curvature_cmd p;
          (v, s) = steer_angle_cmd_checks desired_curvature steer_control_enabled
             FORD_STEERING_LIMITS s
      in (violation \<or> v, s))"

definition ford_tx_curvature2 :: "CANPacket \<Rightarrow> safety_state \<Rightarrow> bool \<times> safety_state" where
  "ford_tx_curvature2 p s =
     (let steer_control_enabled = ford_steer_enabled p;
          raw_curvature_rate = push_bit 3 (byte p 6) OR drop_bit 5 (byte p 7);
          raw_path_angle = push_bit 6 (byte p 3 AND 0x1F) OR drop_bit 2 (byte p 4);
          raw_path_offset = push_bit 8 (byte p 4 AND 0x3) OR byte p 5;
          violation = (raw_curvature_rate \<noteq> FORD_CANFD_INACTIVE_CURVATURE_RATE \<or>
            raw_path_angle \<noteq> FORD_INACTIVE_PATH_ANGLE \<or>
            raw_path_offset \<noteq> FORD_INACTIVE_PATH_OFFSET);
          desired_curvature = ford_curvature2_cmd p;
          (v, s) = steer_angle_cmd_checks desired_curvature steer_control_enabled
             FORD_CANFD_STEERING_LIMITS s
      in (violation \<or> v, s))"

definition ford_tx_hook :: "CANPacket \<Rightarrow> safety_state \<Rightarrow> bool \<times> safety_state" where
  "ford_tx_hook p s =
     (let tx = True;
          tx = (if addr p = FORD_ACCDATA \<and> ford_tx_accdata p s then False else tx);
          tx = (if addr p = FORD_Steering_Data_FD1 \<and> ford_tx_buttons p s then False else tx);
          tx = (if addr p = FORD_Lane_Assist_Data1 \<and> drop_bit 5 (byte p 0) \<noteq> 0 then False else tx);
          (violation, s) = (if addr p = FORD_LateralMotionControl
                            then ford_tx_curvature p s else (False, s));
          tx = (if violation then False else tx);
          (violation, s) = (if addr p = FORD_LateralMotionControl2
                            then ford_tx_curvature2 p s else (False, s));
          tx = (if violation then False else tx)
      in (tx, s))"

subsection \<open>Initialisation\<close>

definition ford_rx_checks :: "RxCheck list" where
  "ford_rx_checks =
     [rx_check [(msg_check FORD_BrakeSysFeatures 0 8 50)\<lparr>max_counter := 15\<rparr>],
      rx_check [(msg_check FORD_EngVehicleSpThrottle2 0 8 50)\<lparr>ignore_checksum := True,
        ignore_counter := True\<rparr>],
      rx_check [(msg_check FORD_Yaw_Data_FD1 0 8 100)\<lparr>max_counter := 255\<rparr>],
      rx_check [no_checks (msg_check FORD_EngBrakeData 0 8 10)],
      rx_check [no_checks (msg_check FORD_EngVehicleSpThrottle 0 8 100)],
      rx_check [no_checks (msg_check FORD_DesiredTorqBrk 0 8 50)]]"

definition FORD_COMMON_TX_MSGS :: "CanMsg list" where
  "FORD_COMMON_TX_MSGS =
     [tx_entry FORD_Steering_Data_FD1 0 8 False, tx_entry FORD_Steering_Data_FD1 2 8 False,
      tx_entry FORD_ACCDATA_3 0 8 True, tx_entry FORD_Lane_Assist_Data1 0 8 True,
      tx_entry FORD_IPMA_Data 0 8 True]"

definition FORD_CANFD_LONG_TX_MSGS :: "CanMsg list" where
  "FORD_CANFD_LONG_TX_MSGS = FORD_COMMON_TX_MSGS @
     [tx_entry FORD_ACCDATA 0 8 True, tx_entry FORD_LateralMotionControl2 0 8 True]"

definition FORD_CANFD_STOCK_TX_MSGS :: "CanMsg list" where
  "FORD_CANFD_STOCK_TX_MSGS = FORD_COMMON_TX_MSGS @ [tx_entry FORD_LateralMotionControl2 0 8 True]"

definition FORD_STOCK_TX_MSGS :: "CanMsg list" where
  "FORD_STOCK_TX_MSGS = FORD_COMMON_TX_MSGS @ [tx_entry FORD_LateralMotionControl 0 8 True]"

definition FORD_LONG_TX_MSGS :: "CanMsg list" where
  "FORD_LONG_TX_MSGS = FORD_COMMON_TX_MSGS @
     [tx_entry FORD_ACCDATA 0 8 True, tx_entry FORD_LateralMotionControl 0 8 True]"

definition ford_init :: "build \<Rightarrow> u16 \<Rightarrow> safety_state \<Rightarrow> safety_config \<times> safety_state" where
  "ford_init B param s =
     (let FORD_PARAM_CANFD = 2;
          ford_canfd = GET_FLAG param FORD_PARAM_CANFD;
          FORD_PARAM_LONGITUDINAL = 1;
          ford_longitudinal = (ALLOW_DEBUG B \<and> GET_FLAG param FORD_PARAM_LONGITUDINAL);
          ford_longitudinal = (\<not> ford_canfd \<or> ford_longitudinal)
      in (\<lparr>rx_checks = ford_rx_checks,
           tx_msgs = (if ford_canfd
                      then if ford_longitudinal then FORD_CANFD_LONG_TX_MSGS
                           else FORD_CANFD_STOCK_TX_MSGS
                      else if ford_longitudinal then FORD_LONG_TX_MSGS else FORD_STOCK_TX_MSGS),
           disable_forwarding = False\<rparr>, s))"

definition ford_hooks :: "build \<Rightarrow> safety_hooks" where
  "ford_hooks B = \<lparr>init_hook = Some (ford_init B), rx_hook = ford_rx_hook,
     tx_hook = ford_tx_hook, fwd_hook = None, get_checksum = Some ford_get_checksum,
     compute_checksum = Some ford_compute_checksum, get_counter = Some ford_get_counter,
     get_quality_flag_valid = Some ford_get_quality_flag_valid\<rparr>"

subsection \<open>The contract\<close>

lemma ford_rx_steps:
  "rx_view (ford_rx_speed p s) = rx_view s"
  "rx_view (ford_rx_yaw p s) = rx_view s"
  "rx_view (ford_rx_driver p s) = rx_view s"
  "samples_view (ford_rx_driver p s) = samples_view s"
  by (simp_all add: rx_view_def views Let_def ford_rx_speed_def ford_rx_yaw_def ford_rx_driver_def
      UPDATE_VEHICLE_SPEED_def speed_mismatch_check_def pcm_cruise_check_def)

lemma ford_rx_samples_steps:
  "samples_ok s \<Longrightarrow> samples_ok (ford_rx_speed p s)"
  "samples_ok s \<Longrightarrow> samples_ok (ford_rx_yaw p s)"
  by (simp_all add: ford_rx_speed_def ford_rx_yaw_def Let_def samples_ok_def
      UPDATE_VEHICLE_SPEED_def speed_mismatch_check_def sample_ok_update)

lemma ford_rx:
  "rx_view (ford_rx_hook p s) = rx_view s"
  "samples_ok s \<Longrightarrow> samples_ok (ford_rx_hook p s)"
  by (simp_all add: ford_rx_hook_def ford_rx_steps ford_rx_samples_steps
      ford_rx_steps(4) [THEN samples_view_ok])

lemma ford_tx_frame: "frame_view (snd (ford_tx_hook p s)) = frame_view s"
  by (simp add: ford_tx_hook_def ford_tx_curvature_def ford_tx_curvature2_def Let_def split_beta
      if_distrib [of frame_view] steering_frames)

interpretation ford_mode: guarded_mode "ford_hooks B" for B
  by (rule guarded_modeI)
    (auto simp: ford_hooks_def ford_tx_frame ford_rx ford_init_def init_view_def views Let_def)

end
