(* ===== verification/Mode_Volkswagen.thy ===== *)
theory Mode_Volkswagen
  imports Mode_Interface
begin

text \<open>
  \<^verbatim>\<open>car/opendbc/safety/modes/volkswagen_common.h\<close>, \<^verbatim>\<open>modes/volkswagen_mqb.h\<close> and
  \<^verbatim>\<open>modes/volkswagen_pq.h\<close>: torque steering on two generations of cars, engaged by the stock
  cruise control or, when the host controls the speed, by the buttons under the main switch.
  The CRC table the initialisation of MQB fills is written as the generator's result.
\<close>

abbreviation (input) MSG_LH_EPS_03 :: int where "MSG_LH_EPS_03 \<equiv> 0x09F"
abbreviation (input) MSG_ESP_19 :: int where "MSG_ESP_19 \<equiv> 0x0B2"
abbreviation (input) MSG_ESP_05 :: int where "MSG_ESP_05 \<equiv> 0x106"
abbreviation (input) MSG_TSK_06 :: int where "MSG_TSK_06 \<equiv> 0x120"
abbreviation (input) MSG_MOTOR_20 :: int where "MSG_MOTOR_20 \<equiv> 0x121"
abbreviation (input) MSG_ACC_06 :: int where "MSG_ACC_06 \<equiv> 0x122"
abbreviation (input) MSG_HCA_01 :: int where "MSG_HCA_01 \<equiv> 0x126"
abbreviation (input) MSG_GRA_ACC_01 :: int where "MSG_GRA_ACC_01 \<equiv> 0x12B"
abbreviation (input) MSG_ACC_07 :: int where "MSG_ACC_07 \<equiv> 0x12E"
abbreviation (input) MSG_ACC_02 :: int where "MSG_ACC_02 \<equiv> 0x30C"
abbreviation (input) MSG_LDW_02 :: int where "MSG_LDW_02 \<equiv> 0x397"
abbreviation (input) MSG_MOTOR_14 :: int where "MSG_MOTOR_14 \<equiv> 0x3BE"

subsection \<open>volkswagen_common.h\<close>

abbreviation (input) FLAG_VOLKSWAGEN_LONG_CONTROL :: u16
  where "FLAG_VOLKSWAGEN_LONG_CONTROL \<equiv> 1"

definition volkswagen_crc8_lut_8h2f :: "u8 list" where
  "volkswagen_crc8_lut_8h2f = gen_crc_lookup_table_8 0x2F"

definition volkswagen_mqb_meb_get_checksum :: "CANPacket \<Rightarrow> u32" where
  "volkswagen_mqb_meb_get_checksum p = ucast (data p ! 0)"

definition volkswagen_mqb_meb_get_counter :: "CANPacket \<Rightarrow> u8" where
  "volkswagen_mqb_meb_get_counter p = data p ! 1 AND 0xF"

text \<open>The constant each message adds to its CRC, indexed by its counter.\<close>

definition volkswagen_crc_padding :: "int \<Rightarrow> u8 list" where
  "volkswagen_crc_padding a =
     (if a = MSG_LH_EPS_03 then replicate 16 0xF5
      else if a = MSG_ESP_05 then replicate 16 0x07
      else if a = MSG_TSK_06 then
        [0xC4, 0xE2, 0x4F, 0xE4, 0xF8, 0x2F, 0x56, 0x81, 0x9F, 0xE5, 0x83, 0x44, 0x05, 0x3F, 0x97, 0xDF]
      else if a = MSG_MOTOR_20 then
        [0xE9, 0x65, 0xAE, 0x6B, 0x7B, 0x35, 0xE5, 0x5F, 0x4E, 0xC7, 0x86, 0xA2, 0xBB, 0xDD, 0xEB, 0xB4]
      else if a = MSG_GRA_ACC_01 then
        [0x6A, 0x38, 0xB4, 0x27, 0x22, 0xEF, 0xE1, 0xBB, 0xF8, 0x80, 0x84, 0x49, 0xC7, 0x9E, 0x1E, 0x2B]
      else replicate 16 0)"

definition volkswagen_mqb_meb_compute_crc :: "CANPacket \<Rightarrow> u32" where
  "volkswagen_mqb_meb_compute_crc p =
     (let crc = fold (\<lambda>i crc. volkswagen_crc8_lut_8h2f ! unat (crc XOR data p ! i))
                  [1..<nat (GET_LEN p)] 0xFF;
          counter = volkswagen_mqb_meb_get_counter p;
          crc = crc XOR volkswagen_crc_padding (addr p) ! unat counter;
          crc = volkswagen_crc8_lut_8h2f ! unat crc
      in ucast (crc XOR 0xFF))"

text \<open>Both generations engage on the falling edge of Set or Resume under the main switch.\<close>

definition volkswagen_buttons :: "bool \<Rightarrow> bool \<Rightarrow> safety_state \<Rightarrow> safety_state" where
  "volkswagen_buttons set_button resume_button s =
     (let v = volkswagen s;
          s = (if (volkswagen_set_button_prev v \<and> \<not> set_button) \<or>
                  (volkswagen_resume_button_prev v \<and> \<not> resume_button)
               then s\<lparr>controls_allowed := acc_main_on s\<rparr> else s)
      in s\<lparr>volkswagen := v\<lparr>volkswagen_set_button_prev := set_button,
            volkswagen_resume_button_prev := resume_button\<rparr>\<rparr>)"

subsection \<open>MQB: receive hook\<close>

definition volkswagen_mqb_rx_speed :: "CANPacket \<Rightarrow> safety_state \<Rightarrow> safety_state" where
  "volkswagen_mqb_rx_speed p s =
     (if addr p = MSG_ESP_19 then
        let speed = fold (\<lambda>i speed. speed + (byte p i OR push_bit 8 (byte p (i + 1)))) [0, 2, 4, 6] 0
        in s\<lparr>vehicle_moving := (speed > 0)\<rparr>
      else s)"

definition volkswagen_mqb_rx_torque :: "CANPacket \<Rightarrow> safety_state \<Rightarrow> safety_state" where
  "volkswagen_mqb_rx_torque p s =
     (if addr p = MSG_LH_EPS_03 then
        let torque_driver_new = byte p 5 OR push_bit 8 (byte p 6 AND 0x1F);
            sign = drop_bit 7 (byte p 6 AND 0x80);
            torque_driver_new = (if sign = 1 then torque_driver_new * -1 else torque_driver_new)
        in s\<lparr>torque_driver := update_sample (torque_driver s) torque_driver_new\<rparr>
      else s)"

definition volkswagen_mqb_rx_cruise :: "CANPacket \<Rightarrow> safety_state \<Rightarrow> safety_state" where
  "volkswagen_mqb_rx_cruise p s =
     (if addr p = MSG_TSK_06 then
        let acc_status = byte p 3 AND 0x7;
            cruise_engaged = (acc_status = 3 \<or> acc_status = 4 \<or> acc_status = 5);
            s = s\<lparr>acc_main_on := (cruise_engaged \<or> acc_status = 2)\<rparr>;
            s = (if \<not> volkswagen_longitudinal (volkswagen s)
                 then pcm_cruise_check cruise_engaged s else s)
        in if \<not> acc_main_on s then s\<lparr>controls_allowed := False\<rparr> else s
      else s)"

definition volkswagen_mqb_rx_buttons :: "CANPacket \<Rightarrow> safety_state \<Rightarrow> safety_state" where
  "volkswagen_mqb_rx_buttons p s =
     (if addr p = MSG_GRA_ACC_01 then
        let s = (if volkswagen_longitudinal (volkswagen s)
                 then volkswagen_buttons (GET_BIT p 16) (GET_BIT p 19) s else s)
        in if GET_BIT p 13 then s\<lparr>controls_allowed := False\<rparr> else s
      else s)"

definition volkswagen_mqb_rx_pedals :: "CANPacket \<Rightarrow> safety_state \<Rightarrow> safety_state" where
  "volkswagen_mqb_rx_pedals p s =
     (let s = (if addr p = MSG_MOTOR_20
               then s\<lparr>gas_pressed := ((drop_bit 12 (GET_BYTES p 0 4) AND 0xFF) \<noteq> 0)\<rparr> else s);
          s = (if addr p = MSG_MOTOR_14
               then s\<lparr>volkswagen := (volkswagen s)\<lparr>volkswagen_mqb_brake_pedal_switch :=
                      (drop_bit 4 (byte p 3 AND 0x10) \<noteq> 0)\<rparr>\<rparr> else s);
          s = (if addr p = MSG_ESP_05
               then s\<lparr>volkswagen := (volkswagen s)\<lparr>volkswagen_mqb_brake_pressure_detected :=
                      (drop_bit 2 (byte p 3 AND 0x4) \<noteq> 0)\<rparr>\<rparr> else s)
      in s\<lparr>brake_pressed := (volkswagen_mqb_brake_pedal_switch (volkswagen s) \<or>
             volkswagen_mqb_brake_pressure_detected (volkswagen s))\<rparr>)"

definition volkswagen_mqb_rx_hook :: "CANPacket \<Rightarrow> safety_state \<Rightarrow> safety_state" where
  "volkswagen_mqb_rx_hook p s =
     (if bus p = 0
      then volkswagen_mqb_rx_pedals p (volkswagen_mqb_rx_buttons p (volkswagen_mqb_rx_cruise p
             (volkswagen_mqb_rx_torque p (volkswagen_mqb_rx_speed p s))))
      else s)"

subsection \<open>MQB: transmit hook\<close>

definition VOLKSWAGEN_MQB_STEERING_LIMITS :: TorqueSteeringLimits where
  "VOLKSWAGEN_MQB_STEERING_LIMITS = torque_limits_zero\<lparr>max_torque := 300, max_rt_delta := 75,
     max_rate_up := 4, max_rate_down := 10, driver_torque_allowance := 80,
     driver_torque_multiplier := 3, control_type := TorqueDriverLimited\<rparr>"

text \<open>The longitudinal limits are the same on both generations.\<close>

definition VOLKSWAGEN_LONG_LIMITS :: LongitudinalLimits where
  "VOLKSWAGEN_LONG_LIMITS = long_limits_zero\<lparr>max_accel := 2000, min_accel := -3500,
     inactive_accel := 3010\<rparr>"

definition volkswagen_mqb_torque_cmd :: "CANPacket \<Rightarrow> int" where
  "volkswagen_mqb_torque_cmd p =
     (let desired_torque = byte p 2 OR push_bit 8 (byte p 3 AND 0x1)
      in if GET_BIT p 31 then desired_torque * -1 else desired_torque)"

definition volkswagen_mqb_tx_steering :: "CANPacket \<Rightarrow> safety_state \<Rightarrow> bool \<times> safety_state" where
  "volkswagen_mqb_tx_steering p s =
     (let steer_req = GET_BIT p 30
      in steer_torque_cmd_checks (volkswagen_mqb_torque_cmd p) (of_bool steer_req)
           VOLKSWAGEN_MQB_STEERING_LIMITS s)"

text \<open>The acceleration of \<open>ACC_06\<close> and \<open>ACC_07\<close>, in thousandths of a metre per square second;
  the second request of \<open>ACC_07\<close> must hold its inactive value.\<close>

definition volkswagen_mqb_accel_cmd :: "CANPacket \<Rightarrow> int" where
  "volkswagen_mqb_accel_cmd p =
     (if addr p = MSG_ACC_06
      then to_s32 (to_u32 ((push_bit 8 (byte p 4 AND 0x7) OR byte p 3) * 5 - 7220))
      else to_s32 (to_u32 ((push_bit 3 (byte p 7) OR drop_bit 5 (byte p 6 AND 0xE0)) * 5 - 7220)))"

definition volkswagen_mqb_secondary_accel :: "CANPacket \<Rightarrow> int" where
  "volkswagen_mqb_secondary_accel p = to_s32 (to_u32 (byte p 4 * 30 - 4600))"

definition volkswagen_mqb_tx_accel :: "CANPacket \<Rightarrow> safety_state \<Rightarrow> bool" where
  "volkswagen_mqb_tx_accel p s =
     (let violation = addr p \<noteq> MSG_ACC_06 \<and> volkswagen_mqb_secondary_accel p \<noteq> 3020
      in violation \<or> longitudinal_accel_checks (volkswagen_mqb_accel_cmd p) VOLKSWAGEN_LONG_LIMITS s)"

definition volkswagen_mqb_tx_hook :: "CANPacket \<Rightarrow> safety_state \<Rightarrow> bool \<times> safety_state" where
  "volkswagen_mqb_tx_hook p s =
     (let tx = True;
          (violation, s) = (if addr p = MSG_HCA_01 then volkswagen_mqb_tx_steering p s else (False, s));
          tx = (if violation then False else tx);
          tx = (if (addr p = MSG_ACC_06 \<or> addr p = MSG_ACC_07) \<and> volkswagen_mqb_tx_accel p s
                then False else tx);
          tx = (if addr p = MSG_GRA_ACC_01 \<and> \<not> controls_allowed s \<and> (byte p 2 AND 0x9) \<noteq> 0
                then False else tx)
      in (tx, s))"

subsection \<open>MQB: initialisation\<close>

definition VOLKSWAGEN_MQB_STOCK_TX_MSGS :: "CanMsg list" where
  "VOLKSWAGEN_MQB_STOCK_TX_MSGS =
     [tx_entry MSG_HCA_01 0 8 True, tx_entry MSG_GRA_ACC_01 0 8 False,
      tx_entry MSG_GRA_ACC_01 2 8 False, tx_entry MSG_LDW_02 0 8 True,
      tx_entry MSG_LH_EPS_03 2 8 True]"

definition VOLKSWAGEN_MQB_LONG_TX_MSGS :: "CanMsg list" where
  "VOLKSWAGEN_MQB_LONG_TX_MSGS =
     [tx_entry MSG_HCA_01 0 8 True, tx_entry MSG_LDW_02 0 8 True, tx_entry MSG_LH_EPS_03 2 8 True,
      tx_entry MSG_ACC_02 0 8 True, tx_entry MSG_ACC_06 0 8 True, tx_entry MSG_ACC_07 0 8 True]"

definition volkswagen_mqb_rx_checks :: "RxCheck list" where
  "volkswagen_mqb_rx_checks =
     [rx_check [no_checks (msg_check MSG_ESP_19 0 8 100)],
      rx_check [(msg_check MSG_LH_EPS_03 0 8 100)\<lparr>max_counter := 15, ignore_quality_flag := True\<rparr>],
      rx_check [(msg_check MSG_ESP_05 0 8 50)\<lparr>max_counter := 15, ignore_quality_flag := True\<rparr>],
      rx_check [(msg_check MSG_TSK_06 0 8 50)\<lparr>max_counter := 15, ignore_quality_flag := True\<rparr>],
      rx_check [(msg_check MSG_MOTOR_20 0 8 50)\<lparr>max_counter := 15, ignore_quality_flag := True\<rparr>],
      rx_check [no_checks (msg_check MSG_MOTOR_14 0 8 10)],
      rx_check [(msg_check MSG_GRA_ACC_01 0 8 33)\<lparr>max_counter := 15, ignore_quality_flag := True\<rparr>]]"

definition volkswagen_mqb_init :: "build \<Rightarrow> u16 \<Rightarrow> safety_state \<Rightarrow> safety_config \<times> safety_state" where
  "volkswagen_mqb_init B param s =
     (let s = s\<lparr>volkswagen := (volkswagen s)\<lparr>volkswagen_set_button_prev := False,
                volkswagen_resume_button_prev := False,
                volkswagen_mqb_brake_pedal_switch := False,
                volkswagen_mqb_brake_pressure_detected := False\<rparr>\<rparr>;
          s = (if ALLOW_DEBUG B
               then s\<lparr>volkswagen := (volkswagen s)\<lparr>volkswagen_longitudinal :=
                      GET_FLAG param FLAG_VOLKSWAGEN_LONG_CONTROL\<rparr>\<rparr>
               else s)
      in (\<lparr>rx_checks = volkswagen_mqb_rx_checks,
           tx_msgs = (if volkswagen_longitudinal (volkswagen s) then VOLKSWAGEN_MQB_LONG_TX_MSGS
                      else VOLKSWAGEN_MQB_STOCK_TX_MSGS),
           disable_forwarding = False\<rparr>, s))"

definition volkswagen_mqb_hooks :: "build \<Rightarrow> safety_hooks" where
  "volkswagen_mqb_hooks B = \<lparr>init_hook = Some (volkswagen_mqb_init B),
     rx_hook = volkswagen_mqb_rx_hook, tx_hook = volkswagen_mqb_tx_hook, fwd_hook = None,
     get_checksum = Some volkswagen_mqb_meb_get_checksum,
     compute_checksum = Some volkswagen_mqb_meb_compute_crc,
     get_counter = Some volkswagen_mqb_meb_get_counter, get_quality_flag_valid = None\<rparr>"

subsection \<open>PQ: message checks\<close>

abbreviation (input) MSG_LENKHILFE_3 :: int where "MSG_LENKHILFE_3 \<equiv> 0x0D0"
abbreviation (input) MSG_HCA_1 :: int where "MSG_HCA_1 \<equiv> 0x0D2"
abbreviation (input) MSG_BREMSE_1 :: int where "MSG_BREMSE_1 \<equiv> 0x1A0"
abbreviation (input) MSG_MOTOR_2 :: int where "MSG_MOTOR_2 \<equiv> 0x288"
abbreviation (input) MSG_ACC_SYSTEM :: int where "MSG_ACC_SYSTEM \<equiv> 0x368"
abbreviation (input) MSG_MOTOR_3 :: int where "MSG_MOTOR_3 \<equiv> 0x380"
abbreviation (input) MSG_GRA_NEU :: int where "MSG_GRA_NEU \<equiv> 0x38A"
abbreviation (input) MSG_MOTOR_5 :: int where "MSG_MOTOR_5 \<equiv> 0x480"
abbreviation (input) MSG_ACC_GRA_ANZEIGE :: int where "MSG_ACC_GRA_ANZEIGE \<equiv> 0x56A"
abbreviation (input) MSG_LDW_1 :: int where "MSG_LDW_1 \<equiv> 0x5BE"

definition volkswagen_pq_get_checksum :: "CANPacket \<Rightarrow> u32" where
  "volkswagen_pq_get_checksum p = ucast (data p ! (if addr p = MSG_MOTOR_5 then 7 else 0))"

definition volkswagen_pq_get_counter :: "CANPacket \<Rightarrow> u8" where
  "volkswagen_pq_get_counter p =
     (if addr p = MSG_LENKHILFE_3 then drop_bit 4 (data p ! 1 AND 0xF0)
      else if addr p = MSG_GRA_NEU then drop_bit 4 (data p ! 2 AND 0xF0)
      else 0)"

definition volkswagen_pq_compute_checksum :: "CANPacket \<Rightarrow> u32" where
  "volkswagen_pq_compute_checksum p =
     (let checksum_byte = (if addr p = MSG_MOTOR_5 then 7 else 0)
      in ucast (fold (\<lambda>i c. if i \<noteq> checksum_byte then c XOR data p ! i else c)
                  [0..<nat (GET_LEN p)] (0::u8)))"

subsection \<open>PQ: receive hook\<close>

definition volkswagen_pq_rx_speed :: "CANPacket \<Rightarrow> safety_state \<Rightarrow> safety_state" where
  "volkswagen_pq_rx_speed p s =
     (if addr p = MSG_BREMSE_1 then
        let speed = drop_bit 1 (byte p 2 AND 0xFE) OR push_bit 7 (byte p 3)
        in s\<lparr>vehicle_moving := (speed > 0)\<rparr>
      else s)"

definition volkswagen_pq_rx_torque :: "CANPacket \<Rightarrow> safety_state \<Rightarrow> safety_state" where
  "volkswagen_pq_rx_torque p s =
     (if addr p = MSG_LENKHILFE_3 then
        let torque_driver_new = byte p 2 OR push_bit 8 (byte p 3 AND 0x3);
            sign = drop_bit 2 (byte p 3 AND 0x4);
            torque_driver_new = (if sign = 1 then torque_driver_new * -1 else torque_driver_new)
        in s\<lparr>torque_driver := update_sample (torque_driver s) torque_driver_new\<rparr>
      else s)"

definition volkswagen_pq_rx_cruise :: "CANPacket \<Rightarrow> safety_state \<Rightarrow> safety_state" where
  "volkswagen_pq_rx_cruise p s =
     (if volkswagen_longitudinal (volkswagen s) then
        let s = (if addr p = MSG_MOTOR_5 then
                   let s = s\<lparr>acc_main_on := GET_BIT p 50\<rparr>
                   in if \<not> acc_main_on s then s\<lparr>controls_allowed := False\<rparr> else s
                 else s)
        in if addr p = MSG_GRA_NEU then
             let s = volkswagen_buttons (GET_BIT p 16) (GET_BIT p 17) s
             in if GET_BIT p 9 then s\<lparr>controls_allowed := False\<rparr> else s
           else s
      else
        if addr p = MSG_MOTOR_2 then
          let acc_status = drop_bit 6 (byte p 2 AND 0xC0);
              cruise_engaged = (acc_status = 1 \<or> acc_status = 2)
          in pcm_cruise_check cruise_engaged s
        else s)"

definition volkswagen_pq_rx_pedals :: "CANPacket \<Rightarrow> safety_state \<Rightarrow> safety_state" where
  "volkswagen_pq_rx_pedals p s =
     (let s = (if addr p = MSG_MOTOR_3 then s\<lparr>gas_pressed := (byte p 2 \<noteq> 0)\<rparr> else s)
      in if addr p = MSG_MOTOR_2 then s\<lparr>brake_pressed := ((byte p 2 AND 0x1) \<noteq> 0)\<rparr> else s)"

definition volkswagen_pq_rx_hook :: "CANPacket \<Rightarrow> safety_state \<Rightarrow> safety_state" where
  "volkswagen_pq_rx_hook p s =
     (if bus p = 0
      then volkswagen_pq_rx_pedals p (volkswagen_pq_rx_cruise p
             (volkswagen_pq_rx_torque p (volkswagen_pq_rx_speed p s)))
      else s)"

subsection \<open>PQ: transmit hook\<close>

definition VOLKSWAGEN_PQ_STEERING_LIMITS :: TorqueSteeringLimits where
  "VOLKSWAGEN_PQ_STEERING_LIMITS = torque_limits_zero\<lparr>max_torque := 300, max_rt_delta := 113,
     max_rate_up := 6, max_rate_down := 10, driver_torque_multiplier := 3,
     driver_torque_allowance := 80, control_type := TorqueDriverLimited\<rparr>"

definition volkswagen_pq_torque_cmd :: "CANPacket \<Rightarrow> int" where
  "volkswagen_pq_torque_cmd p =
     (let desired_torque = byte p 2 OR push_bit 8 (byte p 3 AND 0x7F);
          desired_torque = desired_torque div 32;
          sign = drop_bit 7 (byte p 3 AND 0x80)
      in if sign = 1 then desired_torque * -1 else desired_torque)"

definition volkswagen_pq_tx_steering :: "CANPacket \<Rightarrow> safety_state \<Rightarrow> bool \<times> safety_state" where
  "volkswagen_pq_tx_steering p s =
     (let hca_status = drop_bit 4 (byte p 1) AND 0xF;
          steer_req = (hca_status = 5 \<or> hca_status = 7)
      in steer_torque_cmd_checks (volkswagen_pq_torque_cmd p) (of_bool steer_req)
           VOLKSWAGEN_PQ_STEERING_LIMITS s)"

definition volkswagen_pq_accel_cmd :: "CANPacket \<Rightarrow> int" where
  "volkswagen_pq_accel_cmd p =
     to_s32 (to_u32 ((push_bit 8 (byte p 4 AND 0x7) OR byte p 3) * 5 - 7220))"

definition volkswagen_pq_tx_hook :: "CANPacket \<Rightarrow> safety_state \<Rightarrow> bool \<times> safety_state" where
  "volkswagen_pq_tx_hook p s =
     (let tx = True;
          (violation, s) = (if addr p = MSG_HCA_1 then volkswagen_pq_tx_steering p s else (False, s));
          tx = (if violation then False else tx);
          tx = (if addr p = MSG_ACC_SYSTEM then
                  if longitudinal_accel_checks (volkswagen_pq_accel_cmd p) VOLKSWAGEN_LONG_LIMITS s
                  then False else tx
                else tx);
          tx = (if addr p = MSG_GRA_NEU \<and> \<not> controls_allowed s \<and> (GET_BIT p 16 \<or> GET_BIT p 17)
                then False else tx)
      in (tx, s))"

subsection \<open>PQ: initialisation\<close>

definition VOLKSWAGEN_PQ_STOCK_TX_MSGS :: "CanMsg list" where
  "VOLKSWAGEN_PQ_STOCK_TX_MSGS =
     [tx_entry MSG_HCA_1 0 5 True, tx_entry MSG_LDW_1 0 8 True,
      tx_entry MSG_GRA_NEU 0 4 False, tx_entry MSG_GRA_NEU 2 4 False]"

definition VOLKSWAGEN_PQ_LONG_TX_MSGS :: "CanMsg list" where
  "VOLKSWAGEN_PQ_LONG_TX_MSGS =
     [tx_entry MSG_HCA_1 0 5 True, tx_entry MSG_LDW_1 0 8 True,
      tx_entry MSG_ACC_SYSTEM 0 8 True, tx_entry MSG_ACC_GRA_ANZEIGE 0 8 True]"

definition volkswagen_pq_rx_checks :: "RxCheck list" where
  "volkswagen_pq_rx_checks =
     [rx_check [(msg_check MSG_LENKHILFE_3 0 6 100)\<lparr>max_counter := 15, ignore_quality_flag := True\<rparr>],
      rx_check [no_checks (msg_check MSG_BREMSE_1 0 8 100)],
      rx_check [no_checks (msg_check MSG_MOTOR_2 0 8 50)],
      rx_check [no_checks (msg_check MSG_MOTOR_3 0 8 100)],
      rx_check [(msg_check MSG_MOTOR_5 0 8 50)\<lparr>ignore_counter := True, ignore_quality_flag := True\<rparr>],
      rx_check [(msg_check MSG_GRA_NEU 0 4 30)\<lparr>max_counter := 15, ignore_quality_flag := True\<rparr>]]"

definition volkswagen_pq_init :: "build \<Rightarrow> u16 \<Rightarrow> safety_state \<Rightarrow> safety_config \<times> safety_state" where
  "volkswagen_pq_init B param s =
     (let s = s\<lparr>volkswagen := (volkswagen s)\<lparr>volkswagen_set_button_prev := False,
                volkswagen_resume_button_prev := False\<rparr>\<rparr>;
          s = (if ALLOW_DEBUG B
               then s\<lparr>volkswagen := (volkswagen s)\<lparr>volkswagen_longitudinal :=
                      GET_FLAG param FLAG_VOLKSWAGEN_LONG_CONTROL\<rparr>\<rparr>
               else s)
      in (\<lparr>rx_checks = volkswagen_pq_rx_checks,
           tx_msgs = (if volkswagen_longitudinal (volkswagen s) then VOLKSWAGEN_PQ_LONG_TX_MSGS
                      else VOLKSWAGEN_PQ_STOCK_TX_MSGS),
           disable_forwarding = False\<rparr>, s))"

definition volkswagen_pq_hooks :: "build \<Rightarrow> safety_hooks" where
  "volkswagen_pq_hooks B = \<lparr>init_hook = Some (volkswagen_pq_init B),
     rx_hook = volkswagen_pq_rx_hook, tx_hook = volkswagen_pq_tx_hook, fwd_hook = None,
     get_checksum = Some volkswagen_pq_get_checksum,
     compute_checksum = Some volkswagen_pq_compute_checksum,
     get_counter = Some volkswagen_pq_get_counter, get_quality_flag_valid = None\<rparr>"

subsection \<open>The contract\<close>

lemma volkswagen_views [simp]:
  "rx_view (s\<lparr>volkswagen := t\<rparr>) = rx_view s" "samples_view (s\<lparr>volkswagen := t\<rparr>) = samples_view s"
  "init_view (s\<lparr>volkswagen := t\<rparr>) = init_view s"
  by (simp_all add: rx_view_def init_view_def views)

lemma volkswagen_field_views [simp]:
  "rx_view (s\<lparr>controls_allowed := b\<rparr>) = rx_view s" "samples_view (s\<lparr>controls_allowed := b\<rparr>) = samples_view s"
  "rx_view (s\<lparr>acc_main_on := b\<rparr>) = rx_view s" "samples_view (s\<lparr>acc_main_on := b\<rparr>) = samples_view s"
  "rx_view (s\<lparr>vehicle_moving := b\<rparr>) = rx_view s" "samples_view (s\<lparr>vehicle_moving := b\<rparr>) = samples_view s"
  "rx_view (s\<lparr>gas_pressed := b\<rparr>) = rx_view s" "samples_view (s\<lparr>gas_pressed := b\<rparr>) = samples_view s"
  "rx_view (s\<lparr>brake_pressed := b\<rparr>) = rx_view s" "samples_view (s\<lparr>brake_pressed := b\<rparr>) = samples_view s"
  by (simp_all add: rx_view_def views)

lemma volkswagen_torque_update:
  "rx_view (s\<lparr>torque_driver := t\<rparr>) = rx_view s"
  "samples_ok s \<Longrightarrow> samples_ok (s\<lparr>torque_driver := update_sample (torque_driver s) x\<rparr>)"
  by (simp_all add: rx_view_def views samples_ok_def sample_ok_update)

lemma volkswagen_rx_views:
  "rx_view (volkswagen_buttons a b s) = rx_view s"
  "rx_view (volkswagen_mqb_rx_speed p s) = rx_view s"
  "rx_view (volkswagen_mqb_rx_torque p s) = rx_view s"
  "rx_view (volkswagen_mqb_rx_cruise p s) = rx_view s"
  "rx_view (volkswagen_mqb_rx_pedals p s) = rx_view s"
  "rx_view (volkswagen_pq_rx_speed p s) = rx_view s"
  "rx_view (volkswagen_pq_rx_torque p s) = rx_view s"
  "rx_view (volkswagen_pq_rx_pedals p s) = rx_view s"
  by (simp_all add: Let_def volkswagen_buttons_def volkswagen_mqb_rx_speed_def
      volkswagen_mqb_rx_torque_def volkswagen_mqb_rx_cruise_def volkswagen_mqb_rx_pedals_def
      volkswagen_pq_rx_speed_def volkswagen_pq_rx_torque_def volkswagen_pq_rx_pedals_def
      rx_view_pcm_cruise_check volkswagen_torque_update if_distrib [of rx_view])

lemma volkswagen_rx_views2:
  "rx_view (volkswagen_mqb_rx_buttons p s) = rx_view s"
  "rx_view (volkswagen_pq_rx_cruise p s) = rx_view s"
  by (simp_all add: Let_def volkswagen_mqb_rx_buttons_def volkswagen_pq_rx_cruise_def
      volkswagen_rx_views rx_view_pcm_cruise_check if_distrib [of rx_view])

lemma volkswagen_rx_samples:
  "samples_view (volkswagen_buttons a b s) = samples_view s"
  "samples_view (volkswagen_mqb_rx_speed p s) = samples_view s"
  "samples_view (volkswagen_mqb_rx_cruise p s) = samples_view s"
  "samples_view (volkswagen_mqb_rx_pedals p s) = samples_view s"
  "samples_view (volkswagen_pq_rx_speed p s) = samples_view s"
  "samples_view (volkswagen_pq_rx_pedals p s) = samples_view s"
  by (simp_all add: Let_def volkswagen_buttons_def volkswagen_mqb_rx_speed_def
      volkswagen_mqb_rx_cruise_def volkswagen_mqb_rx_pedals_def
      volkswagen_pq_rx_speed_def volkswagen_pq_rx_pedals_def
      rx_view_pcm_cruise_check if_distrib [of samples_view])

lemma volkswagen_rx_samples2:
  "samples_view (volkswagen_mqb_rx_buttons p s) = samples_view s"
  "samples_view (volkswagen_pq_rx_cruise p s) = samples_view s"
  by (simp_all add: Let_def volkswagen_mqb_rx_buttons_def volkswagen_pq_rx_cruise_def
      volkswagen_rx_samples rx_view_pcm_cruise_check if_distrib [of samples_view])

lemma volkswagen_rx_torque_samples:
  "samples_ok s \<Longrightarrow> samples_ok (volkswagen_mqb_rx_torque p s)"
  "samples_ok s \<Longrightarrow> samples_ok (volkswagen_pq_rx_torque p s)"
  by (simp_all add: volkswagen_mqb_rx_torque_def volkswagen_pq_rx_torque_def Let_def
      volkswagen_torque_update)

lemma volkswagen_rx:
  "rx_view (volkswagen_mqb_rx_hook p s) = rx_view s"
  "samples_ok s \<Longrightarrow> samples_ok (volkswagen_mqb_rx_hook p s)"
  "rx_view (volkswagen_pq_rx_hook p s) = rx_view s"
  "samples_ok s \<Longrightarrow> samples_ok (volkswagen_pq_rx_hook p s)"
  by (simp_all add: volkswagen_mqb_rx_hook_def volkswagen_pq_rx_hook_def volkswagen_rx_views
      volkswagen_rx_views2 volkswagen_rx_torque_samples
      volkswagen_rx_samples(2-) [THEN samples_view_ok] volkswagen_rx_samples2 [THEN samples_view_ok])

lemma volkswagen_tx_frame:
  "frame_view (snd (volkswagen_mqb_tx_hook p s)) = frame_view s"
  "frame_view (snd (volkswagen_pq_tx_hook p s)) = frame_view s"
  by (simp_all add: volkswagen_mqb_tx_hook_def volkswagen_mqb_tx_steering_def
      volkswagen_pq_tx_hook_def volkswagen_pq_tx_steering_def Let_def split_beta
      if_distrib [of frame_view] steering_frames)

interpretation volkswagen_mqb_mode: guarded_mode "volkswagen_mqb_hooks B" for B
  by (rule guarded_modeI)
    (auto simp: volkswagen_mqb_hooks_def volkswagen_tx_frame volkswagen_rx volkswagen_mqb_init_def
      Let_def)

interpretation volkswagen_pq_mode: guarded_mode "volkswagen_pq_hooks B" for B
  by (rule guarded_modeI)
    (auto simp: volkswagen_pq_hooks_def volkswagen_tx_frame volkswagen_rx volkswagen_pq_init_def
      Let_def)

end
