(* ===== verification/Safety_Modes.thy ===== *)
theory Safety_Modes
  imports Core_Properties Mode_Defaults Mode_Mazda Mode_Toyota Mode_Honda Mode_GM Mode_Hyundai
    Mode_Hyundai_CANFD Mode_Chrysler Mode_Nissan Mode_PSA Mode_Subaru Mode_Rivian Mode_Tesla
    Mode_Ford Mode_Volkswagen
begin

text \<open>
  The registry of \<open>set_safety_hooks\<close> (\<^verbatim>\<open>car/opendbc/safety/safety.h\<close>) and the resolution of
  hook-table names to the tables of the mode theories; the safety layer as a system of events,
  its reachable states, and the invariants that hold in all of them, whatever the cars, the
  host and the clock do.
\<close>

subsection \<open>The tables\<close>

fun hooks_of :: "build \<Rightarrow> hooks_ptr \<Rightarrow> safety_hooks" where
  "hooks_of B nooutput_hooks_ptr = nooutput_hooks B"
| "hooks_of B alloutput_hooks_ptr = alloutput_hooks"
| "hooks_of B elm327_hooks_ptr = elm327_hooks B"
| "hooks_of B body_hooks_ptr = body_hooks"
| "hooks_of B mazda_hooks_ptr = mazda_hooks B"
| "hooks_of B toyota_hooks_ptr = toyota_hooks B"
| "hooks_of B honda_nidec_hooks_ptr = honda_nidec_hooks"
| "hooks_of B honda_bosch_hooks_ptr = honda_bosch_hooks B"
| "hooks_of B gm_hooks_ptr = gm_hooks B"
| "hooks_of B hyundai_hooks_ptr = hyundai_hooks B"
| "hooks_of B hyundai_legacy_hooks_ptr = hyundai_legacy_hooks B"
| "hooks_of B chrysler_hooks_ptr = chrysler_hooks B"
| "hooks_of B nissan_hooks_ptr = nissan_hooks"
| "hooks_of B psa_hooks_ptr = psa_hooks"
| "hooks_of B subaru_hooks_ptr = subaru_hooks B"
| "hooks_of B subaru_preglobal_hooks_ptr = subaru_preglobal_hooks"
| "hooks_of B rivian_hooks_ptr = rivian_hooks B"
| "hooks_of B tesla_hooks_ptr = tesla_hooks B"
| "hooks_of B ford_hooks_ptr = ford_hooks B"
| "hooks_of B volkswagen_mqb_hooks_ptr = volkswagen_mqb_hooks B"
| "hooks_of B volkswagen_pq_hooks_ptr = volkswagen_pq_hooks B"
| "hooks_of B hyundai_canfd_hooks_ptr = hyundai_canfd_hooks B"

definition SAFETY_SILENT :: u16 where "SAFETY_SILENT = 0"
definition SAFETY_NOOUTPUT :: u16 where "SAFETY_NOOUTPUT = 19"

definition safety_hook_registry :: "build \<Rightarrow> (u16 \<times> hooks_ptr) list" where
  "safety_hook_registry B =
     [(SAFETY_SILENT, nooutput_hooks_ptr), (1, honda_nidec_hooks_ptr), (2, toyota_hooks_ptr),
      (SAFETY_ELM327, elm327_hooks_ptr), (4, gm_hooks_ptr), (20, honda_bosch_hooks_ptr),
      (8, hyundai_hooks_ptr), (9, chrysler_hooks_ptr), (11, subaru_hooks_ptr),
      (15, volkswagen_mqb_hooks_ptr), (14, nissan_hooks_ptr), (SAFETY_NOOUTPUT, nooutput_hooks_ptr),
      (23, hyundai_legacy_hooks_ptr), (13, mazda_hooks_ptr), (27, body_hooks_ptr),
      (6, ford_hooks_ptr), (33, rivian_hooks_ptr), (10, tesla_hooks_ptr)] @
     (if CANFD B then [(28, hyundai_canfd_hooks_ptr)] else []) @
     (if ALLOW_DEBUG B
      then [(31, psa_hooks_ptr), (22, subaru_preglobal_hooks_ptr), (21, volkswagen_pq_hooks_ptr),
            (SAFETY_ALLOUTPUT, alloutput_hooks_ptr)]
      else [])"

lemma registry_distinct: "distinct (map fst (safety_hook_registry B))"
  by (cases "CANFD B"; cases "ALLOW_DEBUG B")
    (simp_all add: safety_hook_registry_def SAFETY_SILENT_def SAFETY_NOOUTPUT_def
      SAFETY_ELM327_def SAFETY_ALLOUTPUT_def)

subsection \<open>Every table meets the contract\<close>

lemma hooks_guarded: "h \<noteq> alloutput_hooks_ptr \<Longrightarrow> guarded_mode (hooks_of B h)"
  by (cases h) (simp_all add: nooutput_mode.guarded_mode_axioms elm327_mode.guarded_mode_axioms
      body_mode.guarded_mode_axioms mazda_mode.guarded_mode_axioms toyota_mode.guarded_mode_axioms
      honda_nidec_mode.guarded_mode_axioms honda_bosch_mode.guarded_mode_axioms
      gm_mode.guarded_mode_axioms hyundai_mode.guarded_mode_axioms
      hyundai_legacy_mode.guarded_mode_axioms chrysler_mode.guarded_mode_axioms
      nissan_mode.guarded_mode_axioms psa_mode.guarded_mode_axioms subaru_mode.guarded_mode_axioms
      subaru_preglobal_mode.guarded_mode_axioms rivian_mode.guarded_mode_axioms
      tesla_mode.guarded_mode_axioms ford_mode.guarded_mode_axioms
      volkswagen_mqb_mode.guarded_mode_axioms volkswagen_pq_mode.guarded_mode_axioms
      hyundai_canfd_mode.guarded_mode_axioms)

lemma hooks_safety_mode: "safety_mode (hooks_of B h)"
  using hooks_guarded [of h B] alloutput_mode.safety_mode_axioms
  by (cases "h = alloutput_hooks_ptr") (auto simp: guarded_mode_def)

interpretation fleet: safety_mode "hooks_of B h" for B h
  by (rule hooks_safety_mode)

end
