(* ===== verification/Safety_System.thy ===== *)
theory Safety_System
  imports Safety_Modes
begin

text \<open>
  The safety layer as a system. A step is one call the firmware makes into it: a received
  frame, a frame of the host, the 1 Hz tick, a mode switch, or one of the assignments the
  firmware makes to its globals directly (the clock, the mode counter, the heartbeat flags,
  the withdrawal of the controls, a fault a driver reports). A run is any sequence of steps; a state is reachable when a
  run leads to it from the state at boot. What is proved here holds for every mode of the
  registry, every frame and every order of the calls.
\<close>

subsection \<open>Steps and runs\<close>

datatype event =
    Rx CANPacket bool          \<comment> \<open>\<open>safety_rx_hook\<close> and its result\<close>
  | Tx CANPacket bool          \<comment> \<open>\<open>safety_tx_hook\<close> and its result\<close>
  | Tick                       \<comment> \<open>\<open>safety_tick\<close>\<close>
  | SetMode u16 u16 int        \<comment> \<open>\<open>set_safety_hooks\<close> with mode and parameter, and its result\<close>
  | Timer u32                  \<comment> \<open>the microsecond timer advances\<close>
  | Count u32                  \<comment> \<open>\<open>safety_mode_cnt\<close> is assigned\<close>
  | Heartbeat bool u32         \<comment> \<open>\<open>heartbeat_engaged\<close> and the count of mismatches\<close>
  | Disengage                  \<comment> \<open>\<open>controls_allowed = false\<close>\<close>
  | Experience int             \<comment> \<open>\<open>alternative_experience\<close>\<close>
  | Fault u32                  \<comment> \<open>\<open>fault_occurred\<close>, called by a driver\<close>

inductive safety_step :: "build \<Rightarrow> safety_state \<Rightarrow> event \<Rightarrow> safety_state \<Rightarrow> bool" for B where
  step_rx: "safety_rx_hook (hooks_of B) p s = (ok, s') \<Longrightarrow> safety_step B s (Rx p ok) s'"
| step_tx: "safety_tx_hook (hooks_of B) p s = (ok, s') \<Longrightarrow> safety_step B s (Tx p ok) s'"
| step_tick: "safety_step B s Tick (safety_tick s)"
| step_mode: "set_safety_hooks (hooks_of B) (safety_hook_registry B) mode param s = (r, s') \<Longrightarrow>
    safety_step B s (SetMode mode param r) s'"
| step_timer: "safety_step B s (Timer t) (s\<lparr>MICROSECOND_TIMER := t\<rparr>)"
| step_count: "safety_step B s (Count n) (s\<lparr>safety_mode_cnt := n\<rparr>)"
| step_heartbeat: "safety_step B s (Heartbeat b n)
    (s\<lparr>heartbeat_engaged := b, heartbeat_engaged_mismatches := n\<rparr>)"
| step_disengage: "safety_step B s Disengage (s\<lparr>controls_allowed := False\<rparr>)"
| step_experience: "safety_step B s (Experience n) (s\<lparr>alternative_experience := n\<rparr>)"
| step_fault: "safety_step B s (Fault f) (fault_occurred f s)"

code_pred (modes: i \<Rightarrow> i \<Rightarrow> i \<Rightarrow> o \<Rightarrow> bool) safety_step .

inductive_cases rx_stepE: "safety_step B s (Rx p ok) s'"
inductive_cases tx_stepE: "safety_step B s (Tx p ok) s'"
inductive_cases mode_stepE: "safety_step B s (SetMode mode param r) s'"
inductive_simps simple_steps: "safety_step B s Tick s'" "safety_step B s (Timer t) s'"
  "safety_step B s (Count n) s'" "safety_step B s (Heartbeat b n) s'"
  "safety_step B s Disengage s'" "safety_step B s (Experience n) s'" "safety_step B s (Fault f) s'"

inductive safety_run :: "build \<Rightarrow> safety_state \<Rightarrow> event list \<Rightarrow> safety_state \<Rightarrow> bool" for B where
  run_nil: "safety_run B s [] s"
| run_cons: "safety_step B s e t \<Longrightarrow> safety_run B t es u \<Longrightarrow> safety_run B s (e # es) u"

inductive_simps run_nil_iff [simp]: "safety_run B s [] t"
inductive_cases run_consE: "safety_run B s (e # es) t"

lemma safety_run_append:
  "safety_run B s es t \<Longrightarrow> safety_run B t fs u \<Longrightarrow> safety_run B s (es @ fs) u"
  by (induction rule: safety_run.induct) (auto intro: safety_run.intros)

lemma fault_occurred_frame [simp]:
  "controls_allowed (fault_occurred f s) = controls_allowed s"
  "relay_malfunction (fault_occurred f s) = relay_malfunction s"
  "current_safety_mode (fault_occurred f s) = current_safety_mode s"
  "current_hooks (fault_occurred f s) = current_hooks s"
  "samples_ok (fault_occurred f s) = samples_ok s"
  by (simp_all add: fault_occurred_def samples_ok_def)

text \<open>An invariant of the steps is an invariant of the runs.\<close>

lemma run_invariant:
  assumes "safety_run B s es t" and "I s"
    and "\<And>s e s'. safety_step B s e s' \<Longrightarrow> e \<in> set es \<Longrightarrow> I s \<Longrightarrow> I s'"
  shows "I t"
  using assms by (induction rule: safety_run.induct) auto

subsection \<open>What the steps leave alone\<close>

text \<open>Which mode runs: the table in use, its number and its message tables without the status
  of the receive checks.\<close>

definition mode_key :: "safety_state \<Rightarrow> u16 \<times> hooks_ptr \<times> CanMsg list \<times> bool" where
  "mode_key s = (current_safety_mode s, current_hooks s, tx_msgs (current_safety_config s),
     disable_forwarding (current_safety_config s))"

lemma mode_view_key: "mode_view t = mode_view s \<Longrightarrow> mode_key t = mode_key s"
  by (simp add: mode_view_def mode_key_def)

lemma mode_key_simps [simp]:
  "mode_key (set_rx_checks cs s) = mode_key s"
  "mode_key (s\<lparr>controls_allowed := b\<rparr>) = mode_key s"
  by (simp_all add: mode_key_def set_rx_checks_def)

lemma mode_key_generic: "mode_key (generic_rx_checks s) = mode_key s"
  by (rule mode_view_key) simp

lemma rx_core_key: "mode_key (rx_core (hooks_of B) p s) = mode_key s"
  by (simp add: rx_core_eq Let_def mode_key_generic fleet.rx_mode [THEN mode_view_key])

lemma rx_step_key: "mode_key (snd (safety_rx_hook (hooks_of B) p s)) = mode_key s"
  using rx_core_key [of B p s] by (simp add: mode_key_def safety_rx_hook_fields)

lemma rx_step_relay:
  "relay_malfunction s \<Longrightarrow> relay_malfunction (snd (safety_rx_hook (hooks_of B) p s))"
proof -
  assume r: "relay_malfunction s"
  have m: "mode_view t = mode_view u \<Longrightarrow> relay_malfunction t = relay_malfunction u" for t u
    by (simp add: mode_view_def)
  have "relay_malfunction (rx_core (hooks_of B) p s)"
    using r by (simp add: rx_core_eq Let_def m [OF generic_rx_checks_fields(7)] m [OF fleet.rx_mode])
  then show ?thesis by (simp add: safety_rx_hook_core Let_def relay_loop_eq)
qed

lemma generic_samples: "samples_view (generic_rx_checks s) = samples_view s"
  by (simp add: generic_rx_checks_def views Let_def)

lemma set_rx_checks_samples:
  "samples_view (set_rx_checks cs s) = samples_view s"
  "samples_view (s\<lparr>controls_allowed := b\<rparr>) = samples_view s"
  by (simp_all add: set_rx_checks_def views)

lemma rx_step_samples:
  assumes "samples_ok s"
  shows "samples_ok (snd (safety_rx_hook (hooks_of B) p s))"
proof -
  have "samples_ok (rx_core (hooks_of B) p s)"
    using assms by (simp add: rx_core_eq Let_def generic_samples [THEN samples_view_ok]
        fleet.rx_samples set_rx_checks_samples [THEN samples_view_ok])
  then show ?thesis
    using samples_view_ok [OF safety_rx_hook_fields(4)] by simp
qed

lemma generic_steer: "steer_view (generic_rx_checks s) = steer_view s"
  by (simp add: generic_rx_checks_def views Let_def)

lemma rx_step_steer: "steer_view (snd (safety_rx_hook (hooks_of B) p s)) = steer_view s"
proof -
  have "steer_view (set_rx_checks cs s) = steer_view s"
    "steer_view ((set_rx_checks cs s)\<lparr>controls_allowed := b\<rparr>) = steer_view s" for cs s b
    by (simp_all add: set_rx_checks_def steer_view_def)
  then have "steer_view (rx_core (hooks_of B) p s) = steer_view s"
    by (simp add: rx_core_eq Let_def generic_steer fleet.rx_steer)
  then show ?thesis by (simp add: safety_rx_hook_fields)
qed

lemma tx_step_state:
  "snd (safety_tx_hook (hooks_of B) p s) = s \<or>
   snd (safety_tx_hook (hooks_of B) p s) = snd (tx_hook (hooks_of B (current_hooks s)) p s)"
  by (simp add: safety_tx_hook_def Let_def split_beta)

lemma tx_step_views:
  "mode_view (snd (safety_tx_hook (hooks_of B) p s)) = mode_view s"
  "engagement_view (snd (safety_tx_hook (hooks_of B) p s)) = engagement_view s"
  "samples_view (snd (safety_tx_hook (hooks_of B) p s)) = samples_view s"
  using tx_step_state [of B p s] fleet.tx_mode fleet.tx_engagement fleet.tx_samples by metis+

lemma tick_step_views:
  "mode_key (safety_tick s) = mode_key s"
  "samples_view (safety_tick s) = samples_view s"
  "relay_malfunction (safety_tick s) = relay_malfunction s"
  "controls_allowed (safety_tick s) \<Longrightarrow> controls_allowed s"
  by (auto simp: safety_tick_eq Let_def mode_key_def views set_rx_checks_def split: if_splits)

subsection \<open>Switching the mode\<close>

lemma mode_step_cases:
  assumes "set_safety_hooks (hooks_of B) (safety_hook_registry B) mode param s = (r, s')"
  shows "(r = -1 \<and> mode \<notin> fst ` set (safety_hook_registry B) \<and> s' = reset_state s) \<or>
    (\<exists>h cfg t. r = 0 \<and> (mode, h) \<in> set (safety_hook_registry B) \<and>
       s' = t\<lparr>current_safety_config := cfg\<rparr> \<and>
       mode_view t = mode_view (mode_start h mode param s) \<and>
       samples_view t = samples_view (mode_start h mode param s) \<and>
       (controls_allowed t \<longrightarrow> h = alloutput_hooks_ptr))"
proof (cases "mode \<in> fst ` set (safety_hook_registry B)")
  case False
  with assms show ?thesis by (simp add: set_safety_hooks_unknown)
next
  case True
  then obtain h where h: "(mode, h) \<in> set (safety_hook_registry B)" by force
  let ?m = "mode_start h mode param s"
  note eq = set_safety_hooks_known [OF registry_distinct h, of "hooks_of B" param s] assms
  show ?thesis
  proof (cases "init_hook (hooks_of B h)")
    case None
    with eq have "r = 0" "s' = ?m\<lparr>current_safety_config := current_safety_config ?m\<rparr>" by simp_all
    with h show ?thesis by (metis mode_start_fields(1))
  next
    case (Some f)
    let ?t = "snd (f param ?m)"
    have "controls_allowed ?t \<Longrightarrow> h = alloutput_hooks_ptr"
      using guarded_mode.init_controls [OF hooks_guarded Some, of param ?m] by auto
    with eq Some h fleet.init_mode [OF Some, of param ?m] fleet.init_samples [OF Some, of param ?m]
    show ?thesis by (auto simp: Let_def)
  qed
qed

lemma registry_alloutput:
  "(mode, alloutput_hooks_ptr) \<in> set (safety_hook_registry B) \<Longrightarrow> mode = SAFETY_ALLOUTPUT \<and> ALLOW_DEBUG B"
  by (auto simp: safety_hook_registry_def split: if_splits)

lemma registry_silent:
  "(SAFETY_SILENT, h) \<in> set (safety_hook_registry B) \<Longrightarrow> h = nooutput_hooks_ptr"
  "(SAFETY_NOOUTPUT, h) \<in> set (safety_hook_registry B) \<Longrightarrow> h = nooutput_hooks_ptr"
  by (auto simp: safety_hook_registry_def SAFETY_SILENT_def SAFETY_NOOUTPUT_def SAFETY_ELM327_def
      SAFETY_ALLOUTPUT_def split: if_splits)

lemma mode_step_state:
  assumes "safety_step B s (SetMode mode param r) s'"
  shows "samples_ok s'" and "\<not> relay_malfunction s'"
    and "controls_allowed s' \<Longrightarrow> mode = SAFETY_ALLOUTPUT \<and> ALLOW_DEBUG B \<and> r = 0 \<and>
      current_hooks s' = alloutput_hooks_ptr"
    and "(current_safety_mode s', current_hooks s') = (current_safety_mode s, current_hooks s) \<or>
      (current_safety_mode s', current_hooks s') \<in> set (safety_hook_registry B)"
proof -
  from assms have "set_safety_hooks (hooks_of B) (safety_hook_registry B) mode param s = (r, s')"
    by (rule mode_stepE)
  note cases = mode_step_cases [OF this]
  have view: "mode_view t = mode_view u \<Longrightarrow> relay_malfunction t = relay_malfunction u \<and>
      current_safety_mode t = current_safety_mode u \<and> current_hooks t = current_hooks u" for t u
    by (simp add: mode_view_def)
  have samples: "samples_ok (t\<lparr>current_safety_config := c\<rparr>) = samples_ok t" for t c
    by (simp add: samples_ok_def)
  show "samples_ok s'"
    using cases reset_state_samples_ok samples_view_ok
    by (metis samples mode_start_fields(6))
  show "\<not> relay_malfunction s'" using cases by (auto dest!: view)
  show "controls_allowed s' \<Longrightarrow> mode = SAFETY_ALLOUTPUT \<and> ALLOW_DEBUG B \<and> r = 0 \<and>
      current_hooks s' = alloutput_hooks_ptr"
    using cases by (auto dest: registry_alloutput view)
  show "(current_safety_mode s', current_hooks s') = (current_safety_mode s, current_hooks s) \<or>
      (current_safety_mode s', current_hooks s') \<in> set (safety_hook_registry B)"
    using cases by (auto dest!: view)
qed

subsection \<open>Where the controls come from\<close>

text \<open>The events that can give the host control: a frame that passed every check of the entry
  it belongs to, and the debug mode that allows everything.\<close>

fun engaging :: "build \<Rightarrow> event \<Rightarrow> bool" where
  "engaging B (Rx p ok) = ok"
| "engaging B (SetMode mode param r) = (mode = SAFETY_ALLOUTPUT \<and> ALLOW_DEBUG B \<and> r = 0)"
| "engaging B e = False"

lemma controls_view:
  "engagement_view t = engagement_view s \<Longrightarrow> controls_allowed t = controls_allowed s"
  by (simp add: engagement_view_def)

lemma rx_step_controls:
  assumes "controls_allowed (snd (safety_rx_hook (hooks_of B) p s))"
  shows "fst (safety_rx_hook (hooks_of B) p s) \<and> (controls_allowed s \<or> matched p s \<noteq> None)"
proof -
  have ok: "fst (safety_rx_hook (hooks_of B) p s) =
      fst (rx_msg_safety_check (hooks_of B (current_hooks s)) p s)"
    by (simp add: safety_rx_hook_core)
  have "controls_allowed (rx_core (hooks_of B) p s)"
    using assms by (simp only: safety_rx_hook_fields)
  then show ?thesis unfolding ok
    by (auto simp: rx_core_eq Let_def generic_rx_checks_allowed split: if_splits)
qed

lemma step_controls:
  assumes "safety_step B s e s'" and "controls_allowed s'"
  shows "e \<noteq> Disengage \<and> (controls_allowed s \<or> engaging B e) \<and>
    (\<forall>mode param r. e = SetMode mode param r \<longrightarrow> engaging B e)"
  using assms
proof (cases rule: safety_step.cases)
  case (step_rx p ok)
  with assms(2) rx_step_controls [of B p s] show ?thesis by simp
next
  case (step_tx p ok)
  with assms(2) controls_view [OF tx_step_views(2), of B p s] show ?thesis by simp
next
  case step_tick
  with assms(2) tick_step_views(4) [of s] show ?thesis by simp
next
  case (step_mode mode param r)
  with assms mode_step_state(3) [of B s mode param r s'] show ?thesis by simp
qed simp_all

lemma run_consD: "safety_run B s (e # es) u \<Longrightarrow> \<exists>t. safety_step B s e t \<and> safety_run B t es u"
  by (elim run_consE) auto

definition keeps_controls :: "build \<Rightarrow> event \<Rightarrow> bool" where
  "keeps_controls B e \<longleftrightarrow> e \<noteq> Disengage \<and> (\<forall>mode param r. e = SetMode mode param r \<longrightarrow> engaging B e)"

lemma run_engaged:
  "safety_run B s es u \<Longrightarrow> controls_allowed u \<Longrightarrow>
     (controls_allowed s \<and> (\<forall>e \<in> set es. keeps_controls B e)) \<or>
     (\<exists>pre e post t v. es = pre @ e # post \<and> engaging B e \<and> safety_run B s pre t \<and>
        \<not> controls_allowed t \<and> safety_step B t e v \<and> controls_allowed v \<and>
        safety_run B v post u \<and> (\<forall>f \<in> set post. keeps_controls B f))"
proof (induction rule: safety_run.induct)
  case (run_nil s)
  then show ?case by simp
next
  case (run_cons s e t es u)
  from run_cons.IH [OF run_cons.prems] show ?case
  proof (elim disjE exE conjE)
    assume t: "controls_allowed t" and good: "\<forall>e \<in> set es. keeps_controls B e"
    from step_controls [OF run_cons.hyps(1) t]
    have e: "keeps_controls B e" "controls_allowed s \<or> engaging B e" by (simp_all add: keeps_controls_def)
    show ?case
    proof (cases "controls_allowed s")
      case True
      with e(1) good show ?thesis by simp
    next
      case False
      with e(2) have "es = [] @ es" "engaging B e" by simp_all
      with False t run_cons.hyps good show ?thesis
        by (intro disjI2 exI [of _ "[]"] exI [of _ e] exI [of _ es] exI [of _ s] exI [of _ t]) simp
    qed
  next
    fix pre f post v w
    assume "es = pre @ f # post" "engaging B f" "safety_run B t pre v" "\<not> controls_allowed v"
      "safety_step B v f w" "controls_allowed w" "safety_run B w post u"
      "\<forall>f \<in> set post. keeps_controls B f"
    with safety_run.run_cons [OF run_cons.hyps(1)] show ?case
      by (intro disjI2 exI [of _ "e # pre"] exI [of _ f] exI [of _ post] exI [of _ v] exI [of _ w]) simp
  qed
qed

text \<open>C29: Where the controls come from: in any run that ends with the controls allowed and
  began without them, some event gave them to the host - a received frame that passed the
  checks of the entry it belongs to, or the switch to the debug mode - and from then on neither
  another mode switch nor a withdrawal of the controls happened. The host's own frames, the
  tick, the clock and the heartbeat never give control.\<close>

theorem engagement_provenance:
  assumes "safety_run B s es u" and "\<not> controls_allowed s" and "controls_allowed u"
  shows "\<exists>pre e post t v. es = pre @ e # post \<and> engaging B e \<and> safety_run B s pre t \<and>
    \<not> controls_allowed t \<and> safety_step B t e v \<and> safety_run B v post u \<and>
    (\<forall>f \<in> set post. keeps_controls B f) \<and> (\<forall>p ok. e = Rx p ok \<longrightarrow> ok \<and> matched p t \<noteq> None)"
proof -
  from run_engaged [OF assms(1,3)] assms(2) obtain pre e post t v where
    *: "es = pre @ e # post" "engaging B e" "safety_run B s pre t" "\<not> controls_allowed t"
      "safety_step B t e v" "controls_allowed v" "safety_run B v post u"
      "\<forall>f \<in> set post. keeps_controls B f"
    by auto
  have "ok \<and> matched p t \<noteq> None" if "e = Rx p ok" for p ok
  proof -
    from *(5) that have "safety_rx_hook (hooks_of B) p t = (ok, v)" by (auto elim: rx_stepE)
    with rx_step_controls [of B p t] *(4,6) show ?thesis by simp
  qed
  with * show ?thesis by metis
qed

text \<open>A short run that engages: the body board engages on its first status frame.\<close>

definition engage_packet :: CANPacket where
  "engage_packet = \<lparr>fd = False, bus = 0, data_len_code = 8, rejected = False, returned = False,
     extended = False, addr = 0x201, checksum = 0, data = replicate 8 0\<rparr>"

definition body_mode_state :: safety_state where
  "body_mode_state =
     snd (set_safety_hooks (hooks_of build_release) (safety_hook_registry build_release) 27 0 boot_state)"

theorem engagement_provenance_witness:
  "\<exists>u. safety_run build_release body_mode_state [Rx engage_packet True] u \<and> controls_allowed u \<and>
    (\<exists>pre e post. [Rx engage_packet True] = pre @ e # post \<and> engaging build_release e)"
proof -
  define r where "r = safety_rx_hook (hooks_of build_release) engage_packet body_mode_state"
  have "fst r = True \<and> controls_allowed (snd r)"
    unfolding r_def body_mode_state_def engage_packet_def by code_simp
  then have r: "safety_rx_hook (hooks_of build_release) engage_packet body_mode_state = (True, snd r)"
    and c: "controls_allowed (snd r)"
    by (simp_all add: r_def prod_eq_iff)
  have run: "safety_run build_release body_mode_state [Rx engage_packet True] (snd r)"
    by (rule run_cons [OF step_rx [OF r] run_nil])
  have n: "\<not> controls_allowed body_mode_state" unfolding body_mode_state_def by code_simp
  from engagement_provenance [OF run n c] run c show ?thesis by blast
qed

subsection \<open>The relay fault is latched\<close>

fun is_mode_switch :: "event \<Rightarrow> bool" where
  "is_mode_switch (SetMode mode param r) = True"
| "is_mode_switch e = False"

lemma step_relay:
  assumes "safety_step B s e s'" and "relay_malfunction s" and "\<not> is_mode_switch e"
  shows "relay_malfunction s' \<and> (\<forall>p. e \<noteq> Tx p True)"
  using assms
proof (cases rule: safety_step.cases)
  case (step_rx p ok)
  with assms(2) rx_step_relay [of s B p] show ?thesis by simp
next
  case (step_tx p ok)
  have "relay_malfunction (snd (safety_tx_hook (hooks_of B) p s)) = relay_malfunction s"
    using tx_step_views(1) [of B p s] by (simp add: mode_view_def)
  moreover have "fst (safety_tx_hook (hooks_of B) p s) \<Longrightarrow>
      \<not> relay_malfunction (snd (safety_tx_hook (hooks_of B) p s))"
    by (simp add: safety_tx_hook_def Let_def split_beta)
  ultimately show ?thesis using step_tx assms(2) by auto
next
  case step_tick
  with assms(2) tick_step_views(3) [of s] show ?thesis by simp
qed (use assms in simp_all)

text \<open>C31: A relay malfunction is final until the next mode switch: whatever frames arrive and
  whatever the host sends in between, no frame of the host is accepted and no frame is
  forwarded in either direction.\<close>

theorem relay_fault_latched:
  assumes "safety_run B s es t" and "relay_malfunction s" and "\<forall>e \<in> set es. \<not> is_mode_switch e"
  shows "relay_malfunction t \<and> (\<forall>p. Tx p True \<notin> set es) \<and>
    (\<forall>b a. safety_fwd_hook (hooks_of B) b a t = -1) \<and>
    (\<forall>p. \<not> fst (safety_tx_hook (hooks_of B) p t))"
proof -
  have "relay_malfunction t \<and> (\<forall>p. Tx p True \<notin> set es)"
    using assms
  proof (induction rule: safety_run.induct)
    case (run_nil s)
    then show ?case by simp
  next
    case (run_cons s e t es u)
    from step_relay [OF run_cons.hyps(1)] run_cons.prems
    have "relay_malfunction t" and "\<forall>p. e \<noteq> Tx p True" by simp_all
    with run_cons.IH run_cons.prems(2) show ?case by auto
  qed
  moreover have "safety_fwd_hook (hooks_of B) b a t = -1" if "relay_malfunction t" for b a
    using that by (simp add: safety_fwd_hook_def Let_def split: option.splits)
  moreover have "\<not> fst (safety_tx_hook (hooks_of B) p t)" if "relay_malfunction t" for p
    using that step_relay [OF step_tx [of B p t "fst (safety_tx_hook (hooks_of B) p t)"
      "snd (safety_tx_hook (hooks_of B) p t)"]] by auto
  ultimately show ?thesis by simp
qed

text \<open>The fault itself: a frame the host is meant to replace, seen on the car's own bus once
  the mode has run for two ticks.\<close>

definition relay_state :: safety_state where
  "relay_state = (snd (set_safety_hooks (hooks_of build_release) (safety_hook_registry build_release)
     2 73 boot_state))\<lparr>safety_mode_cnt := 2\<rparr>"

definition stock_packet :: CANPacket where
  "stock_packet = \<lparr>fd = False, bus = 0, data_len_code = 5, rejected = False, returned = False,
     extended = False, addr = 0x2E4, checksum = 0, data = replicate 8 0\<rparr>"

theorem relay_fault_latched_witness:
  "\<exists>s t. safety_run build_release relay_state [Rx stock_packet True] s \<and>
    safety_run build_release s [Tx stock_packet False, Tick] t \<and> relay_malfunction t \<and>
    \<not> fst (safety_tx_hook (hooks_of build_release) stock_packet t)"
proof -
  define r where "r = safety_rx_hook (hooks_of build_release) stock_packet relay_state"
  define x where "x = safety_tx_hook (hooks_of build_release) stock_packet (snd r)"
  have "fst r = True \<and> relay_malfunction (snd r) \<and> fst x = False"
    unfolding x_def r_def relay_state_def stock_packet_def by code_simp
  then have r: "safety_rx_hook (hooks_of build_release) stock_packet relay_state = (True, snd r)"
    and x: "safety_tx_hook (hooks_of build_release) stock_packet (snd r) = (False, snd x)"
    and m: "relay_malfunction (snd r)"
    by (simp_all add: r_def x_def prod_eq_iff)
  have run: "safety_run build_release (snd r) [Tx stock_packet False, Tick] (safety_tick (snd x))"
    by (rule run_cons [OF step_tx [OF x] run_cons [OF step_tick run_nil]])
  have "safety_run build_release relay_state [Rx stock_packet True] (snd r)"
    by (rule run_cons [OF step_rx [OF r] run_nil])
  moreover have "relay_malfunction (safety_tick (snd x)) \<and>
      \<not> fst (safety_tx_hook (hooks_of build_release) stock_packet (safety_tick (snd x)))"
    using relay_fault_latched [OF run m] by simp
  ultimately show ?thesis using run by (intro exI [of _ "snd r"] exI [of _ "safety_tick (snd x)"]) simp
qed

subsection \<open>What holds in every reachable state\<close>

definition system_inv :: "build \<Rightarrow> safety_state \<Rightarrow> bool" where
  "system_inv B s \<longleftrightarrow> samples_ok s \<and>
     (current_safety_mode s, current_hooks s) \<in> set (safety_hook_registry B) \<and>
     (controls_allowed s \<longrightarrow> current_hooks s \<noteq> nooutput_hooks_ptr \<and> current_hooks s \<noteq> elm327_hooks_ptr)"

lemma default_rx_controls:
  assumes "current_hooks s = nooutput_hooks_ptr \<or> current_hooks s = elm327_hooks_ptr"
    and "controls_allowed (snd (safety_rx_hook (hooks_of B) p s))"
  shows "controls_allowed s"
proof -
  have "rx_hook (hooks_of B (current_hooks s)) q u = u" for q u
    using assms(1) by (auto simp: nooutput_hooks_def elm327_hooks_def default_rx_hook_def)
  then show ?thesis using assms(2)
    by (auto simp: safety_rx_hook_fields rx_core_eq Let_def generic_rx_checks_allowed split: if_splits)
qed

lemma step_system_inv:
  assumes "safety_step B s e s'" and "system_inv B s"
  shows "system_inv B s'"
proof -
  have mode: "current_safety_mode s' = current_safety_mode s \<and> current_hooks s' = current_hooks s"
    if "mode_key s' = mode_key s" using that by (simp add: mode_key_def)
  from assms(1) show ?thesis
  proof (cases rule: safety_step.cases)
    case (step_rx p ok)
    then have s': "s' = snd (safety_rx_hook (hooks_of B) p s)" by simp
    with assms(2) mode [unfolded s', OF rx_step_key] rx_step_samples [of s B p]
      default_rx_controls [of s B p]
    show ?thesis unfolding system_inv_def by metis
  next
    case (step_tx p ok)
    then have s': "s' = snd (safety_tx_hook (hooks_of B) p s)" by simp
    with assms(2) mode [unfolded s', OF tx_step_views(1) [THEN mode_view_key]]
      tx_step_views(3) [THEN samples_view_ok, of B p s] tx_step_views(2) [THEN controls_view, of B p s]
    show ?thesis by (simp add: system_inv_def)
  next
    case step_tick
    with assms(2) mode tick_step_views [of s] samples_view_ok [OF tick_step_views(2), of s]
    show ?thesis by (auto simp: system_inv_def)
  next
    case (step_mode mode param r)
    with assms mode_step_state [of B s mode param r s'] show ?thesis by (auto simp: system_inv_def)
  next
    case (step_fault f)
    with assms(2) show ?thesis by (simp add: system_inv_def)
  qed (use assms(2) in \<open>simp_all add: system_inv_def samples_ok_def\<close>)
qed

lemma boot_system_inv: "system_inv B boot_state"
  by (simp add: system_inv_def boot_state_def samples_ok_def sample_ok_def sample_zero_def
      MAX_SAMPLE_VALS_def safety_hook_registry_def SAFETY_SILENT_def)

lemma run_system_inv: "safety_run B s es t \<Longrightarrow> system_inv B s \<Longrightarrow> system_inv B t"
  by (rule run_invariant [where I = "system_inv B"]) (auto intro: step_system_inv)

text \<open>C30: In every state the firmware can reach from boot, the mode number and the hook table
  in use are an entry of the registry, every sample window lies between its recorded extremes,
  and the modes that must not actuate are never engaged; in the two silent modes the host
  cannot get a single frame onto a bus.\<close>

theorem reachable_state_sound:
  assumes "safety_run B boot_state es s"
  shows "samples_ok s \<and> (current_safety_mode s, current_hooks s) \<in> set (safety_hook_registry B) \<and>
    (controls_allowed s \<longrightarrow> current_safety_mode s \<notin> {SAFETY_SILENT, SAFETY_NOOUTPUT}) \<and>
    (current_safety_mode s \<in> {SAFETY_SILENT, SAFETY_NOOUTPUT} \<longrightarrow>
       \<not> fst (safety_tx_hook (hooks_of B) p s))"
proof -
  from run_system_inv [OF assms boot_system_inv] have inv: "system_inv B s" .
  have "current_hooks s = nooutput_hooks_ptr"
    if "current_safety_mode s \<in> {SAFETY_SILENT, SAFETY_NOOUTPUT}"
    using that inv registry_silent by (auto simp: system_inv_def)
  then show ?thesis using inv
    by (auto simp: system_inv_def safety_tx_hook_def nooutput_hooks_def nooutput_tx_hook_def
        Let_def split: if_splits)
qed

theorem reachable_state_sound_witness:
  "\<exists>s. safety_run build_release boot_state [Tick, Timer 7] s \<and>
    \<not> fst (safety_tx_hook (hooks_of build_release) stock_packet s)"
proof -
  have run: "safety_run build_release boot_state [Tick, Timer 7] ((safety_tick boot_state)\<lparr>MICROSECOND_TIMER := 7\<rparr>)"
    by (rule run_cons [OF step_tick run_cons [OF step_timer run_nil]])
  have "current_safety_mode ((safety_tick boot_state)\<lparr>MICROSECOND_TIMER := 7\<rparr>) = SAFETY_SILENT"
    by (simp add: safety_tick_eq set_rx_checks_def boot_state_def SAFETY_SILENT_def Let_def)
  with reachable_state_sound [OF run] run show ?thesis by blast
qed

end
