(* ===== verification/Fleet_Properties.thy ===== *)
theory Fleet_Properties
  imports Safety_System
begin

text \<open>
  What every mode of the registry guarantees alike. The requests a frame makes of the car are
  read here by the fields each mode's own messages carry; the theorems say that no frame the
  transmit path accepts makes a request the driver has not granted, and that accepted steering
  torque stays inside the limits of its mode.
\<close>

subsection \<open>What the checks establish\<close>

lemma torque_ok_controls:
  "\<not> fst (steer_torque_cmd_checks t r L s) \<Longrightarrow> t \<noteq> 0 \<Longrightarrow> controls_allowed s"
  by (auto simp: steer_torque_result dest!: steer_req_checks_violation split: if_splits)

lemma angle_ok_controls:
  "\<not> fst (steer_angle_cmd_checks a e L s) \<Longrightarrow> e \<Longrightarrow> controls_allowed s"
  by (simp add: steer_angle_cmd_checks_def Let_def)

lemma angle_vm_ok_controls:
  "\<not> fst (steer_angle_cmd_checks_vm a e L q s) \<Longrightarrow> e \<Longrightarrow> controls_allowed s"
  by (cases "controls_allowed s") (simp_all add: steer_angle_cmd_checks_vm_def Let_def)

lemma long_ok_allowed:
  "\<not> longitudinal_accel_checks a L s \<Longrightarrow> a \<noteq> inactive_accel L \<Longrightarrow> get_longitudinal_allowed s"
  "\<not> longitudinal_gas_checks g L s \<Longrightarrow> g \<noteq> inactive_gas L \<Longrightarrow> get_longitudinal_allowed s"
  "\<not> longitudinal_brake_checks b L s \<Longrightarrow> b \<noteq> 0 \<Longrightarrow> get_longitudinal_allowed s"
  "\<not> longitudinal_speed_checks v L s \<Longrightarrow> v \<noteq> inactive_speed L \<Longrightarrow> get_longitudinal_allowed s"
  "\<not> longitudinal_transmission_rpm_checks n L s \<Longrightarrow> n \<noteq> inactive_transmission_rpm L \<Longrightarrow>
     get_longitudinal_allowed s"
  by (auto simp: longitudinal_accel_checks_def longitudinal_gas_checks_def
      longitudinal_brake_checks_def longitudinal_speed_checks_def
      longitudinal_transmission_rpm_checks_def Let_def)

subsection \<open>Torque steering\<close>

text \<open>The torque command a frame carries: the torque, the request bit and the limits of the
  mode, for the modes whose transmit hook checks a torque.\<close>

fun torque_request ::
    "hooks_ptr \<Rightarrow> safety_state \<Rightarrow> CANPacket \<Rightarrow> (int \<times> int \<times> TorqueSteeringLimits) option" where
  "torque_request mazda_hooks_ptr s p =
     (if bus p = 0 \<and> addr p = 0x243 then Some (mazda_lkas_torque p, -1, MAZDA_STEERING_LIMITS) else None)"
| "torque_request toyota_hooks_ptr s p =
     (if bus p = 0 \<and> addr p = 0x2E4 \<and> \<not> toyota_lta (toyota s)
      then Some (toyota_torque_cmd p, of_bool (GET_BIT p 0), TOYOTA_TORQUE_STEERING_LIMITS) else None)"
| "torque_request gm_hooks_ptr s p =
     (if addr p = 0x180 then Some (gm_torque_cmd p, of_bool (GET_BIT p 3), GM_STEERING_LIMITS) else None)"
| "torque_request hyundai_hooks_ptr s p =
     (if addr p = 0x340 then Some (hyundai_torque_cmd p, of_bool (GET_BIT p 27), hyundai_limits s) else None)"
| "torque_request hyundai_legacy_hooks_ptr s p =
     (if addr p = 0x340 then Some (hyundai_torque_cmd p, of_bool (GET_BIT p 27), hyundai_limits s) else None)"
| "torque_request hyundai_canfd_hooks_ptr s p =
     (if addr p = hyundai_canfd_steer_addr s
      then Some (hyundai_canfd_torque_cmd p, of_bool (GET_BIT p 52), HYUNDAI_CANFD_STEERING_LIMITS) else None)"
| "torque_request chrysler_hooks_ptr s p =
     (if addr p = LKAS_COMMAND (chrysler_addrs (chrysler s))
      then Some (chrysler_torque_cmd p s,
        of_bool (if chrysler_platform (chrysler s) = CHRYSLER_PACIFICA then GET_BIT p 4
                 else (byte p 3 AND 0x7) = 2), chrysler_limits s) else None)"
| "torque_request subaru_hooks_ptr s p =
     (if addr p = MSG_SUBARU_ES_LKAS
      then Some (subaru_torque_cmd p, of_bool ((drop_bit 5 (byte p 3) AND 1) \<noteq> 0), subaru_limits s) else None)"
| "torque_request subaru_preglobal_hooks_ptr s p =
     (if addr p = MSG_SUBARU_PG_ES_LKAS
      then Some (subaru_pg_torque_cmd p, of_bool ((byte p 3 AND 1) \<noteq> 0), SUBARU_PG_STEERING_LIMITS) else None)"
| "torque_request rivian_hooks_ptr s p =
     (if bus p = 0 \<and> addr p = 0x120
      then Some (rivian_cmd p, of_bool ((drop_bit 4 (byte p 3) AND 1) \<noteq> 0), RIVIAN_STEERING_LIMITS) else None)"
| "torque_request volkswagen_mqb_hooks_ptr s p =
     (if addr p = MSG_HCA_01
      then Some (volkswagen_mqb_torque_cmd p, of_bool (GET_BIT p 30), VOLKSWAGEN_MQB_STEERING_LIMITS) else None)"
| "torque_request volkswagen_pq_hooks_ptr s p =
     (if addr p = MSG_HCA_1
      then Some (volkswagen_pq_torque_cmd p,
        of_bool ((drop_bit 4 (byte p 1) AND 0xF) = 5 \<or> (drop_bit 4 (byte p 1) AND 0xF) = 7),
        VOLKSWAGEN_PQ_STEERING_LIMITS) else None)"
| "torque_request h s p = None"

lemmas mode_tx_defs =
  mazda_hooks_def toyota_hooks_def gm_hooks_def hyundai_hooks_def hyundai_legacy_hooks_def
  hyundai_canfd_hooks_def chrysler_hooks_def subaru_hooks_def subaru_preglobal_hooks_def
  rivian_hooks_def volkswagen_mqb_hooks_def volkswagen_pq_hooks_def
  mazda_tx_hook_def toyota_tx_hook_def toyota_tx_steer_def gm_tx_hook_def hyundai_tx_hook_def
  hyundai_canfd_tx_hook_def chrysler_tx_hook_def subaru_tx_hook_def
  subaru_preglobal_tx_hook_def rivian_tx_hook_def volkswagen_mqb_tx_hook_def
  volkswagen_mqb_tx_steering_def volkswagen_pq_tx_hook_def volkswagen_pq_tx_steering_def

lemma torque_request_checked:
  assumes "fst (tx_hook (hooks_of B h) p s)" and "torque_request h s p = Some (t, r, L)"
  shows "\<not> fst (steer_torque_cmd_checks t r L s)"
  using assms
  by (cases h) (auto simp: mode_tx_defs Let_def split_beta split: if_splits)

lemma torque_request_limits:
  "torque_request h s p = Some (t, r, L) \<Longrightarrow> 0 \<le> max_torque L \<and> max_torque L \<le> 3840"
  by (cases h) (auto simp: MAZDA_STEERING_LIMITS_def TOYOTA_TORQUE_STEERING_LIMITS_def
      GM_STEERING_LIMITS_def hyundai_limits_def HYUNDAI_LIMITS_def HYUNDAI_CANFD_STEERING_LIMITS_def
      chrysler_limits_def CHRYSLER_STEERING_LIMITS_def CHRYSLER_RAM_DT_STEERING_LIMITS_def
      CHRYSLER_RAM_HD_STEERING_LIMITS_def subaru_limits_def SUBARU_STEERING_LIMITS_GENERATOR_def
      SUBARU_PG_STEERING_LIMITS_def RIVIAN_STEERING_LIMITS_def VOLKSWAGEN_MQB_STEERING_LIMITS_def
      VOLKSWAGEN_PQ_STEERING_LIMITS_def torque_limits_zero_def split: if_splits)

text \<open>A frame the transmit path accepts, seen from the hook of the mode.\<close>

lemma accepted_hook:
  assumes "fst (safety_tx_hook (hooks_of B) p s)"
  shows "fst (tx_hook (hooks_of B (current_hooks s)) p s)"
  using assms by (simp add: safety_tx_hook_def Let_def split_beta split: if_splits)

text \<open>C1: In every mode that steers by torque, a steering frame the transmit path accepts either
  carries no torque, or the controls are allowed and its torque is within the mode's own limit,
  within one rate step of the last accepted torque (measured away from zero) and within the
  real-time window. The check is reached from the raw bytes of the mode's own frame.\<close>

theorem fleet_steering_authority:
  assumes "fst (safety_tx_hook (hooks_of B) p s)"
    and "torque_request (current_hooks s) s p = Some (t, r, L)"
  shows "(\<not> controls_allowed s \<and> t = 0) \<or>
    (controls_allowed s \<and> \<bar>t\<bar> \<le> max_torque L \<and>
     min (desired_torque_last s) 0 - max_rate_up L \<le> t \<and>
     t \<le> max (desired_torque_last s) 0 + max_rate_up L \<and>
     min (rt_torque_last s) 0 - max_rt_delta L \<le> t \<and>
     t \<le> max (rt_torque_last s) 0 + max_rt_delta L)"
  using torque_cmd_bounds [OF torque_request_checked [OF accepted_hook [OF assms(1)] assms(2)]]
    torque_request_limits [OF assms(2)] by simp

text \<open>A mode state reached by the mode switch, with the controls granted.\<close>

definition mode_state :: "build \<Rightarrow> u16 \<Rightarrow> u16 \<Rightarrow> safety_state" where
  "mode_state B mode param =
     (snd (set_safety_hooks (hooks_of B) (safety_hook_registry B) mode param boot_state))
       \<lparr>controls_allowed := True\<rparr>"

definition frame :: "int \<Rightarrow> int \<Rightarrow> nat \<Rightarrow> u8 list \<Rightarrow> CANPacket" where
  "frame b a n d = \<lparr>fd = False, bus = b, data_len_code = n, rejected = False, returned = False,
     extended = False, addr = a, checksum = 0, data = d\<rparr>"

theorem fleet_steering_authority_witness:
  "\<exists>p s t r L. fst (safety_tx_hook (hooks_of build_release) p s) \<and>
    torque_request (current_hooks s) s p = Some (t, r, L) \<and> t = 5 \<and> \<bar>t\<bar> \<le> max_torque L"
proof -
  define p where "p = frame 0 0x180 4 [8, 5, 0, 0, 0, 0, 0, 0]"
  define s where "s = mode_state build_release 4 0"
  have t: "fst (safety_tx_hook (hooks_of build_release) p s)"
    unfolding p_def s_def by code_simp
  have r: "torque_request (current_hooks s) s p = Some (5, 1, GM_STEERING_LIMITS)"
    unfolding p_def s_def by code_simp
  from fleet_steering_authority [OF t r] t r show ?thesis by force
qed

subsection \<open>Requests a frame makes of the car\<close>

text \<open>Steering: a torque, an enable bit of an angle or curvature command, or any of the stock
  lane keeping actions.\<close>

fun lateral_request :: "hooks_ptr \<Rightarrow> safety_state \<Rightarrow> CANPacket \<Rightarrow> bool" where
  "lateral_request toyota_hooks_ptr s p \<longleftrightarrow> bus p = 0 \<and>
     (addr p = 0x2E4 \<and> toyota_torque_cmd p \<noteq> 0 \<or>
      addr p = 0x191 \<and> (GET_BIT p 0 \<or> GET_BIT p 25 \<or> byte p 5 \<noteq> 0) \<or>
      addr p = 0x131 \<and> toyota_secoc (toyota s) \<and> (GET_BIT p 3 \<or> GET_BIT p 0))"
| "lateral_request honda_nidec_hooks_ptr s p \<longleftrightarrow>
     (addr p = 0xE4 \<or> addr p = 0x194) \<and> (byte p 0 OR byte p 1) \<noteq> 0"
| "lateral_request honda_bosch_hooks_ptr s p \<longleftrightarrow>
     (addr p = 0xE4 \<or> addr p = 0x194) \<and> (byte p 0 OR byte p 1) \<noteq> 0"
| "lateral_request nissan_hooks_ptr s p \<longleftrightarrow> addr p = 0x169 \<and> (drop_bit 4 (byte p 6) AND 1) \<noteq> 0"
| "lateral_request psa_hooks_ptr s p \<longleftrightarrow>
     addr p = PSA_LANE_KEEP_ASSIST \<and> drop_bit 1 (byte p 5 AND 0xFE) = 100"
| "lateral_request tesla_hooks_ptr s p \<longleftrightarrow> addr p = 0x488 \<and> drop_bit 6 (byte p 2) \<noteq> 0"
| "lateral_request ford_hooks_ptr s p \<longleftrightarrow>
     addr p = FORD_Lane_Assist_Data1 \<and> drop_bit 5 (byte p 0) \<noteq> 0 \<or>
     (addr p = FORD_LateralMotionControl \<or> addr p = FORD_LateralMotionControl2) \<and> ford_steer_enabled p"
| "lateral_request h s p \<longleftrightarrow> (\<exists>t r L. torque_request h s p = Some (t, r, L) \<and> t \<noteq> 0)"

text \<open>Speed: an acceleration, gas, brake, speed or engine speed other than the inactive value of
  its message, or a brake request bit.\<close>

fun longitudinal_request :: "hooks_ptr \<Rightarrow> safety_state \<Rightarrow> CANPacket \<Rightarrow> bool" where
  "longitudinal_request mazda_hooks_ptr s p \<longleftrightarrow>
     bus p = 0 \<and> mazda_longitudinal (mazda s) \<and> addr p = MAZDA_CRZ_INFO \<and>
     mazda_accel_cmd p \<noteq> inactive_accel MAZDA_LONG_LIMITS"
| "longitudinal_request toyota_hooks_ptr s p \<longleftrightarrow> bus p = 0 \<and>
     (addr p = 0x343 \<and> toyota_accel_cmd p \<noteq> 0 \<or> addr p = 0x283 \<and> \<not> toyota_tx_aeb p)"
| "longitudinal_request honda_nidec_hooks_ptr s p \<longleftrightarrow> bus p = honda_get_pt_bus s \<and>
     (addr p = 0x30C \<and> ((push_bit 8 (byte p 0) OR byte p 1) \<noteq> 0 \<or> byte p 2 \<noteq> 0) \<or>
      addr p = 0x1FA \<and> honda_brake_cmd p \<noteq> 0 \<or>
      addr p = 0x1DF \<and> (honda_bosch_accel p \<noteq> 0 \<or> honda_bosch_gas p \<noteq> -30000) \<or>
      addr p = 0x1C8 \<and> honda_radarless_accel p \<noteq> 0)"
| "longitudinal_request honda_bosch_hooks_ptr s p \<longleftrightarrow> bus p = honda_get_pt_bus s \<and>
     (addr p = 0x30C \<and> ((push_bit 8 (byte p 0) OR byte p 1) \<noteq> 0 \<or> byte p 2 \<noteq> 0) \<or>
      addr p = 0x1FA \<and> honda_brake_cmd p \<noteq> 0 \<or>
      addr p = 0x1DF \<and> (honda_bosch_accel p \<noteq> 0 \<or> honda_bosch_gas p \<noteq> -30000) \<or>
      addr p = 0x1C8 \<and> honda_radarless_accel p \<noteq> 0)"
| "longitudinal_request gm_hooks_ptr s p \<longleftrightarrow>
     addr p = 0x315 \<and> gm_brake_cmd p \<noteq> 0 \<or>
     addr p = 0x2CB \<and> gm_gas_regen p \<noteq> inactive_gas (gm_long_limits (gm s))"
| "longitudinal_request hyundai_hooks_ptr s p \<longleftrightarrow>
     addr p = 0x421 \<and> (hyundai_accel_raw p \<noteq> 0 \<or> hyundai_accel_val p \<noteq> 0 \<or> byte p 2 \<noteq> 0 \<or> GET_BIT p 54) \<or>
     addr p = 0x38D \<and> \<not> hyundai_tx_fca p"
| "longitudinal_request hyundai_legacy_hooks_ptr s p \<longleftrightarrow>
     addr p = 0x421 \<and> (hyundai_accel_raw p \<noteq> 0 \<or> hyundai_accel_val p \<noteq> 0 \<or> byte p 2 \<noteq> 0 \<or> GET_BIT p 54) \<or>
     addr p = 0x38D \<and> \<not> hyundai_tx_fca p"
| "longitudinal_request hyundai_canfd_hooks_ptr s p \<longleftrightarrow>
     addr p = 0x1a0 \<and> (hyundai_canfd_accel_raw p \<noteq> 0 \<or> hyundai_canfd_accel_val p \<noteq> 0)"
| "longitudinal_request subaru_hooks_ptr s p \<longleftrightarrow>
     addr p = MSG_SUBARU_ES_Brake \<and> subaru_brake_cmd p \<noteq> 0 \<or>
     addr p = MSG_SUBARU_ES_Distance \<and> subaru_13bit p \<noteq> inactive_gas SUBARU_LONG_LIMITS \<or>
     addr p = MSG_SUBARU_ES_Status \<and> subaru_13bit p \<noteq> inactive_transmission_rpm SUBARU_LONG_LIMITS"
| "longitudinal_request rivian_hooks_ptr s p \<longleftrightarrow> bus p = 0 \<and> addr p = 0x160 \<and> rivian_cmd p \<noteq> 0"
| "longitudinal_request tesla_hooks_ptr s p \<longleftrightarrow> addr p = 0x2b9 \<and>
     ((push_bit 4 (byte p 6 AND 0x1F) OR drop_bit 4 (byte p 5)) \<noteq> 375 \<or>
      (push_bit 5 (byte p 5 AND 0x0F) OR drop_bit 3 (byte p 4)) \<noteq> 375 \<or> (byte p 2 AND 0x03) \<noteq> 0)"
| "longitudinal_request ford_hooks_ptr s p \<longleftrightarrow> addr p = FORD_ACCDATA \<and>
     ((push_bit 8 (byte p 6 AND 0x3) OR byte p 7) \<noteq> 0 \<or>
      (push_bit 8 (byte p 2 AND 0x3) OR byte p 3) \<noteq> 0 \<or>
      (push_bit 8 (byte p 0 AND 0x1F) OR byte p 1) \<noteq> 5128 \<or>
      (drop_bit 6 (byte p 6) AND 1) \<noteq> 0 \<or> (drop_bit 7 (byte p 6) AND 1) \<noteq> 0)"
| "longitudinal_request volkswagen_mqb_hooks_ptr s p \<longleftrightarrow>
     (addr p = MSG_ACC_06 \<or> addr p = MSG_ACC_07) \<and> volkswagen_mqb_accel_cmd p \<noteq> 3010"
| "longitudinal_request volkswagen_pq_hooks_ptr s p \<longleftrightarrow>
     addr p = MSG_ACC_SYSTEM \<and> volkswagen_pq_accel_cmd p \<noteq> 3010"
| "longitudinal_request h s p \<longleftrightarrow> False"

lemma torque_lateral_allowed:
  assumes "fst (tx_hook (hooks_of B h) p s)"
    and "\<exists>t r L. torque_request h s p = Some (t, r, L) \<and> t \<noteq> 0"
  shows "controls_allowed s"
  using assms torque_request_checked torque_ok_controls by blast

lemma toyota_lateral_allowed:
  assumes "fst (toyota_tx_hook p s)" and "lateral_request toyota_hooks_ptr s p"
  shows "controls_allowed s"
  using assms
  by (auto simp: toyota_tx_hook_def toyota_tx_steer_def toyota_tx_lta_def toyota_tx_lta2_def
      Let_def split_beta dest: torque_ok_controls angle_ok_controls split: if_splits)

lemma honda_lateral_allowed:
  assumes "fst (honda_tx_hook p s)"
    and "(addr p = 0xE4 \<or> addr p = 0x194) \<and> (byte p 0 OR byte p 1) \<noteq> 0"
  shows "controls_allowed s"
  using assms by (auto simp: honda_tx_hook_def Let_def split_beta split: if_splits)

lemma ford_lateral_allowed:
  assumes "fst (ford_tx_hook p s)" and "lateral_request ford_hooks_ptr s p"
  shows "controls_allowed s"
  using assms
  by (auto simp: ford_tx_hook_def ford_tx_curvature_def ford_tx_curvature2_def Let_def split_beta
      dest: angle_ok_controls split: if_splits)

lemma tesla_lateral_allowed:
  assumes "fst (tesla_tx_hook p s)" and "addr p = 0x488 \<and> drop_bit 6 (byte p 2) \<noteq> 0"
  shows "controls_allowed s"
  using assms
  by (auto simp: tesla_tx_hook_def tesla_tx_steering_def Let_def split_beta
      dest: angle_vm_ok_controls split: if_splits)

lemma lateral_allowed:
  assumes "fst (tx_hook (hooks_of B h) p s)" and "lateral_request h s p"
  shows "controls_allowed s"
proof (cases h)
  case nissan_hooks_ptr
  with assms show ?thesis
    by (auto simp: nissan_hooks_def nissan_tx_hook_def Let_def split_beta
        dest: angle_ok_controls split: if_splits)
next
  case psa_hooks_ptr
  with assms show ?thesis
    by (auto simp: psa_hooks_def psa_tx_hook_def Let_def split_beta
        dest: angle_ok_controls split: if_splits)
next
  case toyota_hooks_ptr
  with assms toyota_lateral_allowed show ?thesis by (simp add: toyota_hooks_def)
next
  case honda_nidec_hooks_ptr
  with assms honda_lateral_allowed [of p s] show ?thesis by (simp add: honda_nidec_hooks_def)
next
  case honda_bosch_hooks_ptr
  with assms honda_lateral_allowed [of p s] show ?thesis by (simp add: honda_bosch_hooks_def)
next
  case ford_hooks_ptr
  with assms ford_lateral_allowed [of p s] show ?thesis by (simp add: ford_hooks_def)
next
  case tesla_hooks_ptr
  with assms tesla_lateral_allowed [of p s] show ?thesis by (simp add: tesla_hooks_def)
qed (use assms torque_lateral_allowed [OF assms(1)] in \<open>simp_all del: torque_request.simps\<close>)

lemma mazda_long_allowed:
  "fst (mazda_tx_hook p s) \<Longrightarrow> longitudinal_request mazda_hooks_ptr s p \<Longrightarrow> get_longitudinal_allowed s"
  by (auto simp: mazda_tx_hook_def Let_def split_beta dest: long_ok_allowed split: if_splits)

lemma toyota_long_allowed:
  "fst (toyota_tx_hook p s) \<Longrightarrow> longitudinal_request toyota_hooks_ptr s p \<Longrightarrow> get_longitudinal_allowed s"
  by (auto simp: toyota_tx_hook_def toyota_tx_accel_def TOYOTA_LONG_LIMITS_def long_limits_zero_def
      Let_def split_beta dest!: long_ok_allowed(1) split: if_splits)

lemma honda_long_allowed:
  assumes "fst (honda_tx_hook p s)" and "longitudinal_request honda_nidec_hooks_ptr s p"
  shows "get_longitudinal_allowed s"
proof -
  have hud: "honda_tx_acc_hud p s \<Longrightarrow> (push_bit 8 (byte p 0) OR byte p 1) \<noteq> 0 \<or> byte p 2 \<noteq> 0 \<Longrightarrow>
      get_longitudinal_allowed s"
    by (auto simp: honda_tx_acc_hud_def HONDA_NIDEC_LONG_LIMITS_def long_limits_zero_def
        dest!: long_ok_allowed(2,4))
  have brake: "fst (honda_tx_brake p s) \<Longrightarrow> honda_brake_cmd p \<noteq> 0 \<Longrightarrow> get_longitudinal_allowed s"
    by (auto simp: honda_tx_brake_def get_longitudinal_allowed_def Let_def dest!: long_ok_allowed(3)
        split: if_splits)
  have bosch: "honda_tx_bosch_long p s \<Longrightarrow> honda_bosch_accel p \<noteq> 0 \<or> honda_bosch_gas p \<noteq> -30000 \<Longrightarrow>
      get_longitudinal_allowed s"
    by (auto simp: honda_tx_bosch_long_def HONDA_BOSCH_LONG_LIMITS_def long_limits_zero_def
        dest!: long_ok_allowed(1,2))
  have radarless: "\<not> longitudinal_accel_checks (honda_radarless_accel p) HONDA_BOSCH_LONG_LIMITS s \<Longrightarrow>
      honda_radarless_accel p \<noteq> 0 \<Longrightarrow> get_longitudinal_allowed s"
    by (auto simp: HONDA_BOSCH_LONG_LIMITS_def long_limits_zero_def dest!: long_ok_allowed(1))
  show ?thesis
    using assms hud brake bosch radarless
    by (auto simp: honda_tx_hook_def Let_def split_beta split: if_splits)
qed

lemma gm_long_allowed:
  "fst (gm_tx_hook p s) \<Longrightarrow> longitudinal_request gm_hooks_ptr s p \<Longrightarrow> get_longitudinal_allowed s"
  by (auto simp: gm_tx_hook_def Let_def split_beta dest: long_ok_allowed split: if_splits)

lemma hyundai_long_allowed:
  "fst (hyundai_tx_hook p s) \<Longrightarrow> longitudinal_request hyundai_hooks_ptr s p \<Longrightarrow> get_longitudinal_allowed s"
  by (auto simp: hyundai_tx_hook_def hyundai_tx_accel_def HYUNDAI_LONG_LIMITS_def
      long_limits_zero_def Let_def split_beta dest!: long_ok_allowed(1) split: if_splits)

lemma hyundai_canfd_long_allowed:
  "fst (hyundai_canfd_tx_hook p s) \<Longrightarrow> longitudinal_request hyundai_canfd_hooks_ptr s p \<Longrightarrow>
     get_longitudinal_allowed s"
proof -
  have *: "\<not> hyundai_canfd_tx_accel p s \<Longrightarrow>
      hyundai_canfd_accel_raw p \<noteq> 0 \<or> hyundai_canfd_accel_val p \<noteq> 0 \<Longrightarrow> get_longitudinal_allowed s"
    by (auto simp: hyundai_canfd_tx_accel_def HYUNDAI_LONG_LIMITS_def long_limits_zero_def Let_def
        dest!: long_ok_allowed(1) split: if_splits)
  have fields: "hyundai_canfd_steer_addr s \<noteq> 0x1a0"
    by (simp add: hyundai_canfd_steer_addr_def hyundai_canfd_get_lka_addr_def)
  show "fst (hyundai_canfd_tx_hook p s) \<Longrightarrow> longitudinal_request hyundai_canfd_hooks_ptr s p \<Longrightarrow>
     get_longitudinal_allowed s"
    using * fields by (auto simp: hyundai_canfd_tx_hook_def Let_def split_beta split: if_splits)
qed

lemma subaru_long_allowed:
  "fst (subaru_tx_hook p s) \<Longrightarrow> longitudinal_request subaru_hooks_ptr s p \<Longrightarrow> get_longitudinal_allowed s"
  by (auto simp: subaru_tx_hook_def subaru_distance_violation_def Let_def split_beta
      dest: long_ok_allowed split: if_splits)

lemma rivian_long_allowed:
  "fst (rivian_tx_hook p s) \<Longrightarrow> longitudinal_request rivian_hooks_ptr s p \<Longrightarrow> get_longitudinal_allowed s"
  by (auto simp: rivian_tx_hook_def RIVIAN_LONG_LIMITS_def long_limits_zero_def Let_def split_beta
      dest!: long_ok_allowed(1) split: if_splits)

lemma tesla_long_allowed:
  "fst (tesla_tx_hook p s) \<Longrightarrow> longitudinal_request tesla_hooks_ptr s p \<Longrightarrow> get_longitudinal_allowed s"
  by (auto simp: tesla_tx_hook_def tesla_tx_long_def TESLA_LONG_LIMITS_def long_limits_zero_def
      Let_def split_beta dest!: long_ok_allowed(1) split: if_splits)

lemma ford_long_allowed:
  "fst (ford_tx_hook p s) \<Longrightarrow> longitudinal_request ford_hooks_ptr s p \<Longrightarrow> get_longitudinal_allowed s"
  by (auto simp: ford_tx_hook_def ford_tx_accdata_def FORD_LONG_LIMITS_def long_limits_zero_def
      Let_def split_beta dest!: long_ok_allowed(1,2) split: if_splits)

lemma volkswagen_long_allowed:
  "fst (volkswagen_mqb_tx_hook p s) \<Longrightarrow> longitudinal_request volkswagen_mqb_hooks_ptr s p \<Longrightarrow>
     get_longitudinal_allowed s"
  "fst (volkswagen_pq_tx_hook p s) \<Longrightarrow> longitudinal_request volkswagen_pq_hooks_ptr s p \<Longrightarrow>
     get_longitudinal_allowed s"
  by (auto simp: volkswagen_mqb_tx_hook_def volkswagen_mqb_tx_accel_def volkswagen_pq_tx_hook_def
      VOLKSWAGEN_LONG_LIMITS_def long_limits_zero_def
      Let_def split_beta dest!: long_ok_allowed(1) split: if_splits)

lemma longitudinal_allowed:
  assumes "fst (tx_hook (hooks_of B h) p s)" and "longitudinal_request h s p"
  shows "get_longitudinal_allowed s"
proof (cases h)
  case honda_nidec_hooks_ptr
  with assms honda_long_allowed [of p s] show ?thesis by (simp add: honda_nidec_hooks_def)
next
  case honda_bosch_hooks_ptr
  with assms honda_long_allowed [of p s] show ?thesis by (simp add: honda_bosch_hooks_def)
next
  case hyundai_legacy_hooks_ptr
  with assms hyundai_long_allowed [of p s] show ?thesis by (simp add: hyundai_legacy_hooks_def)
qed (use assms mazda_long_allowed [of p s] toyota_long_allowed [of p s] gm_long_allowed [of p s]
       hyundai_long_allowed [of p s] hyundai_canfd_long_allowed [of p s] subaru_long_allowed [of p s]
       rivian_long_allowed [of p s] tesla_long_allowed [of p s] ford_long_allowed [of p s]
       volkswagen_long_allowed [of p s]
     in \<open>simp_all add: mazda_hooks_def toyota_hooks_def gm_hooks_def hyundai_hooks_def
       hyundai_canfd_hooks_def subaru_hooks_def rivian_hooks_def tesla_hooks_def ford_hooks_def
       volkswagen_mqb_hooks_def volkswagen_pq_hooks_def del: longitudinal_request.simps(1-13)\<close>)



end
