(* ===== verification/Can_Packet.thy ===== *)
theory Can_Packet
  imports Safety_Types "HOL-Library.Monad_Syntax"
begin

text \<open>
  The bytes of a CAN packet: the packed structure of \<^verbatim>\<open>firmware/board/can_declarations.h\<close>, its
  checksum (\<^verbatim>\<open>drivers/can_common.h\<close>) and the two copies between a structure and a byte buffer.
  Reading or writing outside an array is the value \<open>None\<close>, so that every bound the code relies
  on is a theorem.
\<close>

subsection \<open>Byte buffers\<close>

text \<open>\<open>memcpy(&dst[off], src, |src|)\<close> and the \<open>n\<close> bytes at \<open>src[off]\<close>.\<close>

definition memcpy :: "u8 list \<Rightarrow> nat \<Rightarrow> u8 list \<Rightarrow> u8 list option" where
  "memcpy dst off src =
     (if off + length src \<le> length dst
      then Some (take off dst @ src @ drop (off + length src) dst) else None)"

definition slice :: "u8 list \<Rightarrow> nat \<Rightarrow> nat \<Rightarrow> u8 list option" where
  "slice src off n = (if off + n \<le> length src then Some (take n (drop off src)) else None)"

lemma memcpy_prefix: "memcpy dst 0 src = Some d \<Longrightarrow> take (length src) d = src \<and> length d = length dst"
  by (auto simp: memcpy_def split: if_splits)

lemma memcpy_append:
  "memcpy dst off src = Some d \<Longrightarrow> off \<le> length dst \<Longrightarrow>
    take (off + length src) d = take off dst @ src \<and> length d = length dst"
  by (auto simp: memcpy_def split: if_splits)

subsection \<open>The structure\<close>

definition CANPACKET_HEAD_SIZE :: nat where "CANPACKET_HEAD_SIZE = 6"

text \<open>The second to fifth byte: three flags below the 29-bit address, little endian.\<close>

definition addr_word :: "CANPacket \<Rightarrow> int" where
  "addr_word p = of_bool (rejected p) + 2 * of_bool (returned p) + 4 * of_bool (extended p) + 8 * addr p"

definition packet_head :: "CANPacket \<Rightarrow> u8 list" where
  "packet_head p =
     word_of_int (of_bool (fd p) + 2 * bus p + 16 * int (data_len_code p)) #
     map (\<lambda>i. word_of_int (addr_word p div 256 ^ i)) [0..<4]"

definition packet_bytes :: "CANPacket \<Rightarrow> u8 list" where
  "packet_bytes p = packet_head p @ checksum p # data p"

definition packet_of_bytes :: "u8 list \<Rightarrow> CANPacket" where
  "packet_of_bytes bs =
     (let b = uint (bs ! 0);
          w = uint (bs ! 1) + 256 * uint (bs ! 2) + 65536 * uint (bs ! 3) + 16777216 * uint (bs ! 4)
      in \<lparr>fd = odd b, bus = b div 2 mod 8, data_len_code = nat (b div 16),
          rejected = odd w, returned = odd (w div 2), extended = odd (w div 4), addr = w div 8,
          checksum = bs ! 5, data = drop 6 bs\<rparr>)"

text \<open>The bytes that describe the message: the head and as many data bytes as the length code
  says. The copy leaves the structure when the code exceeds the data array. (Two bytes of padding
  follow the array; no length code ends inside them.)\<close>

definition wire_len :: "CANPacket \<Rightarrow> nat" where
  "wire_len p = CANPACKET_HEAD_SIZE + nat (GET_LEN p)"

definition wire_bytes :: "CANPacket \<Rightarrow> u8 list option" where
  "wire_bytes p = slice (packet_bytes p) 0 (wire_len p)"

text \<open>\<open>CANPacket_t to_push = {0}; memcpy(&to_push, bytes, n)\<close>.\<close>

definition packet_from :: "build \<Rightarrow> u8 list \<Rightarrow> CANPacket option" where
  "packet_from B bs =
     map_option packet_of_bytes
       (memcpy (replicate (CANPACKET_HEAD_SIZE + CANPACKET_DATA_SIZE_MAX B) 0) 0 bs)"

subsection \<open>The checksum\<close>

definition calculate_checksum :: "u8 list \<Rightarrow> nat \<Rightarrow> u8 option" where
  "calculate_checksum dat len =
     (if len \<le> length dat then Some (fold (\<lambda>b checksum. checksum XOR b) (take len dat) 0) else None)"

definition can_set_checksum :: "CANPacket \<Rightarrow> CANPacket option" where
  "can_set_checksum p =
     do { let p = p\<lparr>checksum := 0\<rparr>;
          c \<leftarrow> calculate_checksum (packet_bytes p) (wire_len p);
          Some (p\<lparr>checksum := c\<rparr>) }"

definition can_check_checksum :: "CANPacket \<Rightarrow> bool option" where
  "can_check_checksum p =
     do { c \<leftarrow> calculate_checksum (packet_bytes p) (wire_len p); Some (c = 0) }"

subsection \<open>Round trips\<close>

lemma packet_head_frame [simp]:
  "packet_head (p\<lparr>checksum := c\<rparr>) = packet_head p" "packet_head (p\<lparr>data := d\<rparr>) = packet_head p"
  "length (packet_head p) = 5" "GET_LEN (p\<lparr>checksum := c\<rparr>) = GET_LEN p"
  "GET_LEN (p\<lparr>data := d\<rparr>) = GET_LEN p" "wire_len (p\<lparr>checksum := c\<rparr>) = wire_len p"
  by (simp_all add: packet_head_def addr_word_def GET_LEN_def wire_len_def)

lemma length_packet_bytes [simp]: "length (packet_bytes p) = 6 + length (data p)"
  by (simp add: packet_bytes_def)

lemma uint_byte: "uint (word_of_int x :: u8) = x mod 256"
  by (simp add: unsigned_of_int take_bit_eq_mod)

lemma flag_below:
  "((of_bool f :: int) + 2 * x) div 2 = x" "odd ((of_bool f :: int) + 2 * x) = f"
  by (cases f; simp)+

lemma head_byte:
  assumes "0 \<le> b" and "b < 8" and "l < (16::nat)"
  shows "uint (word_of_int (of_bool f + 2 * b + 16 * int l) :: u8) = of_bool f + 2 * b + 16 * int l"
    and "odd (of_bool f + 2 * b + 16 * int l) = f"
    and "(of_bool f + 2 * b + 16 * int l) div 2 mod 8 = b"
    and "nat ((of_bool f + 2 * b + 16 * int l) div 16) = l"
proof -
  let ?x = "of_bool f + 2 * b + 16 * int l"
  have f01: "0 \<le> (of_bool f :: int)" "(of_bool f :: int) \<le> 1" by simp_all
  have split: "?x = of_bool f + 2 * (b + 8 * int l)" by simp
  have "0 \<le> ?x" "?x < 256" using assms f01 by linarith+
  then show "uint (word_of_int ?x :: u8) = ?x" by (simp only: uint_byte mod_pos_pos_trivial)
  show "odd ?x = f" unfolding split by (rule flag_below)
  have "?x div 2 = b + 8 * int l" unfolding split by (rule flag_below)
  then show "?x div 2 mod 8 = b" using assms by simp
  have "?x div 16 = (of_bool f + 2 * b) div 16 + int l" by simp
  moreover have "(of_bool f + 2 * b) div 16 = 0"
    using assms f01 by (intro div_pos_pos_trivial) linarith+
  ultimately show "nat (?x div 16) = l" by simp
qed

lemma div_less_intro: "w < b * a \<Longrightarrow> 0 < a \<Longrightarrow> w div a < (b::int)"
  using div_mult_mod_eq [of w a] pos_mod_sign [of a w] mult_right_mono [of b "w div a" a]
  by (smt (verit))

lemma combine_bytes:
  "q1 * 256 + r0 = w \<Longrightarrow> q2 * 256 + r1 = q1 \<Longrightarrow> q3 * 256 + r2 = q2 \<Longrightarrow>
    r0 + 256 * r1 + 65536 * r2 + 16777216 * q3 = (w::int)"
  by linarith

lemma bytes_of_word:
  assumes "0 \<le> w" and "w < 4294967296"
  shows "w mod 256 + 256 * (w div 256 mod 256) + 65536 * (w div 65536 mod 256) +
    16777216 * (w div 16777216 mod 256) = (w::int)"
proof -
  have d: "w div 65536 = w div 256 div 256" "w div 16777216 = w div 65536 div 256"
    by (simp_all add: zdiv_zmult2_eq [symmetric])
  have "0 \<le> w div 16777216" using assms(1) by (simp add: pos_imp_zdiv_nonneg_iff)
  moreover have "w div 16777216 < 256" using assms(2) by (intro div_less_intro) simp_all
  ultimately have top: "w div 16777216 mod 256 = w div 16777216" by (rule mod_pos_pos_trivial)
  show ?thesis unfolding top
  proof (rule combine_bytes)
    show "w div 256 * 256 + w mod 256 = w" by (rule div_mult_mod_eq)
    show "w div 65536 * 256 + w div 256 mod 256 = w div 256" unfolding d(1) by (rule div_mult_mod_eq)
    show "w div 16777216 * 256 + w div 65536 mod 256 = w div 65536"
      unfolding d(2) by (rule div_mult_mod_eq)
  qed
qed

lemma addr_word_fields:
  assumes "0 \<le> addr p" and "addr p < 536870912"
  shows "0 \<le> addr_word p" "addr_word p < 4294967296" "odd (addr_word p) = rejected p"
    "odd (addr_word p div 2) = returned p" "odd (addr_word p div 4) = extended p"
    "addr_word p div 8 = addr p"
proof -
  have w: "addr_word p = of_bool (rejected p) + 2 * (of_bool (returned p) +
      2 * (of_bool (extended p) + 2 * addr p))"
    by (simp add: addr_word_def)
  show "0 \<le> addr_word p" "addr_word p < 4294967296"
    unfolding w using assms
    by (cases "rejected p"; cases "returned p"; cases "extended p"; simp)+
  have d2: "addr_word p div 2 = of_bool (returned p) + 2 * (of_bool (extended p) + 2 * addr p)"
    unfolding w by (rule flag_below)
  have d4: "addr_word p div 4 = of_bool (extended p) + 2 * addr p"
    using zdiv_zmult2_eq [of 2 "addr_word p" 2] unfolding d2 by (simp add: flag_below)
  have d8: "addr_word p div 8 = addr p"
    using zdiv_zmult2_eq [of 2 "addr_word p" 4] unfolding d4 by (simp add: flag_below)
  show "odd (addr_word p) = rejected p" unfolding w by (rule flag_below)
  show "odd (addr_word p div 2) = returned p" unfolding d2 by (rule flag_below)
  show "odd (addr_word p div 4) = extended p" unfolding d4 by (rule flag_below)
  show "addr_word p div 8 = addr p" by (rule d8)
qed

lemma packet_roundtrip:
  assumes "wf_packet B p"
  shows "packet_of_bytes (packet_bytes p) = p"
proof -
  have f: "0 \<le> bus p" "bus p < 8" "data_len_code p < 16" "0 \<le> addr p" "addr p < 536870912"
    using assms by (simp_all add: wf_packet_def)
  define h where "h = of_bool (fd p) + 2 * bus p + 16 * int (data_len_code p)"
  define w where "w = addr_word p"
  have bytes: "packet_bytes p = word_of_int h # map word_of_int [w, w div 256, w div 65536, w div 16777216] @
      checksum p # data p"
    by (simp add: packet_bytes_def packet_head_def h_def w_def upt_rec)
  note h = head_byte [OF f(1-3), of "fd p", folded h_def]
  note w = addr_word_fields [OF f(4,5), folded w_def]
  have "packet_of_bytes (packet_bytes p) = \<lparr>fd = fd p, bus = bus p, data_len_code = data_len_code p,
      rejected = rejected p, returned = returned p, extended = extended p, addr = addr p,
      checksum = checksum p, data = data p\<rparr>"
    using h w(3-6) bytes_of_word [OF w(1,2)]
    by (simp add: packet_of_bytes_def bytes Let_def uint_byte numeral_eq_Suc)
  then show ?thesis by simp
qed

lemma wire_bytes_some:
  "wire_bytes p = (if nat (GET_LEN p) \<le> length (data p) then Some (take (wire_len p) (packet_bytes p)) else None)"
  by (simp add: wire_bytes_def slice_def wire_len_def CANPACKET_HEAD_SIZE_def)

lemma take_packet_bytes:
  "take (CANPACKET_HEAD_SIZE + n) (packet_bytes p) = packet_bytes (p\<lparr>data := take n (data p)\<rparr>)"
  by (simp add: packet_bytes_def CANPACKET_HEAD_SIZE_def)

lemma packet_bytes_pad: "packet_bytes p @ z = packet_bytes (p\<lparr>data := data p @ z\<rparr>)"
  by (simp add: packet_bytes_def)

text \<open>A packet sent as its wire bytes is received with its fields intact and its unused data
  bytes zero.\<close>

definition trim :: "build \<Rightarrow> CANPacket \<Rightarrow> CANPacket" where
  "trim B p = p\<lparr>data := take (nat (GET_LEN p)) (data p) @
     replicate (CANPACKET_DATA_SIZE_MAX B - nat (GET_LEN p)) 0\<rparr>"

lemma wf_trim: "wf_packet B p \<Longrightarrow> nat (GET_LEN p) \<le> CANPACKET_DATA_SIZE_MAX B \<Longrightarrow> wf_packet B (trim B p)"
  by (simp add: wf_packet_def trim_def)

lemma packet_from_wire:
  assumes "wf_packet B p" and "wire_bytes p = Some w"
  shows "packet_from B w = Some (trim B p)"
proof -
  let ?n = "nat (GET_LEN p)" and ?M = "CANPACKET_DATA_SIZE_MAX B"
  have le: "?n \<le> ?M" and w: "w = take (wire_len p) (packet_bytes p)"
    using assms by (auto simp: wire_bytes_some wf_packet_def split: if_splits)
  have len: "length w = CANPACKET_HEAD_SIZE + ?n"
    using le assms(1) by (simp add: w wire_len_def wf_packet_def CANPACKET_HEAD_SIZE_def)
  have "w @ replicate (?M - ?n) 0 = packet_bytes (trim B p)"
    by (simp add: w wire_len_def take_packet_bytes packet_bytes_pad trim_def)
  moreover have "packet_of_bytes (packet_bytes (trim B p)) = trim B p"
    by (rule packet_roundtrip [OF wf_trim [OF assms(1) le]])
  ultimately show ?thesis using le by (simp add: packet_from_def memcpy_def len)
qed

lemma packet_from_some: "packet_from B bs = None \<longleftrightarrow> CANPACKET_HEAD_SIZE + CANPACKET_DATA_SIZE_MAX B < length bs"
  by (simp add: packet_from_def memcpy_def)

subsection \<open>Checksums\<close>

lemma xor_cancel: "(z::u8) XOR u = z XOR v \<longleftrightarrow> u = v"
proof
  assume "z XOR u = z XOR v"
  then have "z XOR (z XOR u) = z XOR (z XOR v)" by simp
  then show "u = v" by (simp add: xor.assoc [symmetric])
qed simp

definition xor_sum :: "u8 list \<Rightarrow> u8" where
  "xor_sum bs = fold (\<lambda>b checksum. checksum XOR b) bs 0"

lemma fold_xor: "fold (\<lambda>b checksum. checksum XOR b) bs c = c XOR xor_sum bs"
proof (induction bs arbitrary: c)
  case (Cons b bs)
  show ?case using Cons.IH [of "c XOR b"] Cons.IH [of b] by (simp add: xor_sum_def xor.assoc)
qed (simp add: xor_sum_def)

lemma xor_sum_simps [simp]:
  "xor_sum [] = 0" "xor_sum (b # bs) = b XOR xor_sum bs" "xor_sum (xs @ ys) = xor_sum xs XOR xor_sum ys"
proof -
  show "xor_sum [] = 0" by (simp add: xor_sum_def)
  show "xor_sum (b # bs) = b XOR xor_sum bs" using fold_xor [of bs b] by (simp add: xor_sum_def)
  have "xor_sum (xs @ ys) = fold (\<lambda>b checksum. checksum XOR b) ys (xor_sum xs)"
    by (simp add: xor_sum_def)
  then show "xor_sum (xs @ ys) = xor_sum xs XOR xor_sum ys" by (simp only: fold_xor)
qed

lemma checksum_sum: "calculate_checksum dat len = (if len \<le> length dat then Some (xor_sum (take len dat)) else None)"
  by (simp add: calculate_checksum_def xor_sum_def)

lemma checksum_of_packet:
  "calculate_checksum (packet_bytes p) (wire_len p) =
     (if nat (GET_LEN p) \<le> length (data p)
      then Some (xor_sum (packet_head p) XOR checksum p XOR xor_sum (take (nat (GET_LEN p)) (data p)))
      else None)"
  by (simp add: checksum_sum wire_len_def CANPACKET_HEAD_SIZE_def packet_bytes_def xor.assoc)

lemma set_checksum_eq:
  "can_set_checksum p =
     (if nat (GET_LEN p) \<le> length (data p)
      then Some (p\<lparr>checksum := xor_sum (packet_head p) XOR xor_sum (take (nat (GET_LEN p)) (data p))\<rparr>)
      else None)"
  using checksum_of_packet [of "p\<lparr>checksum := 0\<rparr>"] by (simp add: can_set_checksum_def Let_def)

lemma check_checksum_eq:
  "can_check_checksum p =
     (if nat (GET_LEN p) \<le> length (data p)
      then Some (checksum p = xor_sum (packet_head p) XOR xor_sum (take (nat (GET_LEN p)) (data p)))
      else None)"
proof -
  have "(a XOR c XOR b = 0) = (c = a XOR b)" for a b c :: u8
    using xor_cancel [of "a XOR b" c "a XOR b"] by (simp add: ac_simps)
  then show ?thesis by (simp add: can_check_checksum_def checksum_of_packet)
qed

lemma xor_sum_one: "xor_sum (xs @ a # ys) = xor_sum (xs @ b # ys) \<longleftrightarrow> a = b"
proof -
  have "x XOR (a XOR y) = x XOR (b XOR y) \<longleftrightarrow> a = b" for x y :: u8
    using xor_cancel [of "x XOR y" a b] by (simp add: ac_simps)
  then show ?thesis by simp
qed

lemma checksum_pins_byte:
  assumes "calculate_checksum bs n = Some c" and "calculate_checksum (bs[i := b]) n = Some c" and "i < n"
  shows "b = bs ! i"
proof -
  have n: "n \<le> length bs" using assms(1) by (auto simp: checksum_sum split: if_splits)
  let ?t = "take n bs"
  have i: "i < length ?t" using n assms(3) by simp
  have "xor_sum ?t = xor_sum (?t[i := b])"
    using assms n by (simp add: checksum_sum take_update_swap)
  moreover have "?t = take i ?t @ ?t ! i # drop (Suc i) ?t" by (rule id_take_nth_drop [OF i])
  moreover have "?t[i := b] = take i ?t @ b # drop (Suc i) ?t" by (rule upd_conv_take_nth_drop [OF i])
  ultimately have "?t ! i = b" using xor_sum_one by metis
  then show ?thesis using assms(3) by simp
qed

text \<open>The byte image of a packet determines it; the checksum can be computed exactly when the
  length code does not exceed the data array (otherwise the code reads past the structure); a
  packet it was set on passes the check, and no other value of any single byte does.\<close>

lemma packet_checksum:
  assumes "wf_packet B p"
  shows "packet_of_bytes (packet_bytes p) = p \<and>
    (can_set_checksum p = None \<longleftrightarrow> int (CANPACKET_DATA_SIZE_MAX B) < GET_LEN p) \<and>
    (\<forall>p'. can_set_checksum p = Some p' \<longrightarrow> can_check_checksum p' = Some True \<and>
       (\<forall>i b. i < wire_len p \<longrightarrow>
          calculate_checksum ((packet_bytes p')[i := b]) (wire_len p) = Some 0 \<longrightarrow>
          b = packet_bytes p' ! i))"
proof (intro conjI allI impI)
  show "packet_of_bytes (packet_bytes p) = p" by (rule packet_roundtrip [OF assms])
  show "can_set_checksum p = None \<longleftrightarrow> int (CANPACKET_DATA_SIZE_MAX B) < GET_LEN p"
    using assms by (auto simp: set_checksum_eq wf_packet_def)
next
  fix p'
  assume p': "can_set_checksum p = Some p'"
  then have ok: "nat (GET_LEN p) \<le> length (data p)" by (auto simp: set_checksum_eq split: if_splits)
  from p' ok show check: "can_check_checksum p' = Some True"
    by (auto simp: set_checksum_eq check_checksum_eq)
  fix i b
  assume "i < wire_len p" and "calculate_checksum ((packet_bytes p')[i := b]) (wire_len p) = Some 0"
  moreover have "calculate_checksum (packet_bytes p') (wire_len p) = Some 0"
    using check p' ok by (auto simp: can_check_checksum_def set_checksum_eq bind_eq_Some_conv)
  ultimately show "b = packet_bytes p' ! i" using checksum_pins_byte by blast
qed

lemma packet_checksum_witness:
  "\<exists>B p p'. wf_packet B p \<and> can_set_checksum p = Some p' \<and> can_check_checksum p' = Some True \<and>
     checksum p' \<noteq> checksum p"
proof -
  define p :: CANPacket where "p = \<lparr>fd = False, bus = 2, data_len_code = 3, rejected = False, returned = False,
    extended = False, addr = 0x243, checksum = 0, data = [1, 2, 3, 0, 0, 0, 0, 0]\<rparr>"
  have wf: "wf_packet build_f407 p" unfolding p_def by code_simp
  have set: "can_set_checksum p = Some (p\<lparr>checksum := 0x3E\<rparr>)" unfolding p_def by code_simp
  have "can_check_checksum (p\<lparr>checksum := 0x3E\<rparr>) = Some True"
    using packet_checksum [OF wf] set by blast
  with wf set show ?thesis
    by (intro exI [of _ build_f407] exI [of _ p] exI [of _ "p\<lparr>checksum := 0x3E\<rparr>"]) (simp add: p_def)
qed

end
