(* ===== verification/Can_Queue.thy ===== *)
theory Can_Queue
  imports Prelude
begin

text \<open>
  The interrupt-safe ring buffer between the CAN cores and the host
  (\<^verbatim>\<open>firmware/board/drivers/can_common.h\<close>), the contract of a bounded queue its users rely on,
  and the proof that the ring meets it: a first-in first-out list with one slot less than the
  array has elements. A critical section is one step of the model.
\<close>

subsection \<open>The ring\<close>

record 'a can_ring =
  w_ptr :: u32
  r_ptr :: u32
  fifo_size :: u32
  elems :: "'a list"

definition can_pop :: "'a can_ring \<Rightarrow> 'a option \<times> 'a can_ring" where
  "can_pop q =
     (if w_ptr q \<noteq> r_ptr q then
        (Some (elems q ! unat (r_ptr q)),
         (if r_ptr q + 1 = fifo_size q then q\<lparr>r_ptr := 0\<rparr> else q\<lparr>r_ptr := r_ptr q + 1\<rparr>))
      else (None, q))"

definition can_push :: "'a can_ring \<Rightarrow> 'a \<Rightarrow> bool \<times> 'a can_ring" where
  "can_push q x =
     (let next_w_ptr = (if w_ptr q + 1 = fifo_size q then 0 else w_ptr q + 1) in
      if next_w_ptr \<noteq> r_ptr q
      then (True, q\<lparr>elems := (elems q)[unat (w_ptr q) := x], w_ptr := next_w_ptr\<rparr>)
      else (False, q))"

definition can_slots_empty :: "'a can_ring \<Rightarrow> u32" where
  "can_slots_empty q =
     (if w_ptr q \<ge> r_ptr q then fifo_size q - 1 - w_ptr q + r_ptr q
      else r_ptr q - w_ptr q - 1)"

text \<open>Clearing also restarts the host transfers that were held back (\<^verbatim>\<open>can_comms.h\<close>); that
  effect belongs to the transport.\<close>

definition can_clear :: "'a can_ring \<Rightarrow> 'a can_ring" where
  "can_clear q = q\<lparr>w_ptr := 0, r_ptr := 0\<rparr>"

text \<open>The macro \<open>can_buffer(x, size)\<close>: a static array, its pointers at zero.\<close>

definition can_buffer :: "'a \<Rightarrow> nat \<Rightarrow> 'a can_ring" where
  "can_buffer x n = \<lparr>w_ptr = 0, r_ptr = 0, fifo_size = of_nat n, elems = replicate n x\<rparr>"

subsection \<open>Well-formed rings and the list they hold\<close>

definition ring_ok :: "'a can_ring \<Rightarrow> bool" where
  "ring_ok q \<longleftrightarrow> length (elems q) = unat (fifo_size q) \<and> w_ptr q < fifo_size q \<and> r_ptr q < fifo_size q"

definition ring_len :: "'a can_ring \<Rightarrow> nat" where
  "ring_len q = (unat (w_ptr q) + unat (fifo_size q) - unat (r_ptr q)) mod unat (fifo_size q)"

definition ring_list :: "'a can_ring \<Rightarrow> 'a list" where
  "ring_list q = map (\<lambda>i. elems q ! ((unat (r_ptr q) + i) mod unat (fifo_size q))) [0..<ring_len q]"

definition ring_cap :: "'a can_ring \<Rightarrow> nat" where
  "ring_cap q = unat (fifo_size q) - 1"

subsection \<open>The contract of a bounded queue\<close>

text \<open>What a user of the queue may rely on: elements come out in the order they went in, an
  element is refused exactly when the queue is full, the number of free slots is exact, and the
  capacity does not change.\<close>

locale bounded_queue =
  fixes enq :: "'q \<Rightarrow> 'a \<Rightarrow> bool \<times> 'q"
    and deq :: "'q \<Rightarrow> 'a option \<times> 'q"
    and free :: "'q \<Rightarrow> nat"
    and ok :: "'q \<Rightarrow> bool"
    and contents :: "'q \<Rightarrow> 'a list"
    and cap :: "'q \<Rightarrow> nat"
  assumes enq_ok: "ok q \<Longrightarrow> ok (snd (enq q x))"
    and enq_cap: "ok q \<Longrightarrow> cap (snd (enq q x)) = cap q"
    and enq_room: "ok q \<Longrightarrow> length (contents q) < cap q \<Longrightarrow>
          fst (enq q x) \<and> contents (snd (enq q x)) = contents q @ [x]"
    and enq_full: "ok q \<Longrightarrow> cap q \<le> length (contents q) \<Longrightarrow> enq q x = (False, q)"
    and deq_ok: "ok q \<Longrightarrow> ok (snd (deq q))"
    and deq_cap: "ok q \<Longrightarrow> cap (snd (deq q)) = cap q"
    and deq_contents: "ok q \<Longrightarrow> contents q =
          (case fst (deq q) of None \<Rightarrow> [] | Some x \<Rightarrow> x # contents (snd (deq q)))"
    and deq_empty: "ok q \<Longrightarrow> contents q = [] \<Longrightarrow> deq q = (None, q)"
    and free_exact: "ok q \<Longrightarrow> free q = cap q - length (contents q)"
    and bounded: "ok q \<Longrightarrow> length (contents q) \<le> cap q"

text \<open>A run of operations: the elements the queue accepted, those it refused, those it gave out.\<close>

datatype 'a queue_op = Enq 'a | Deq

fun queue_run :: "('q \<Rightarrow> 'a \<Rightarrow> bool \<times> 'q) \<Rightarrow> ('q \<Rightarrow> 'a option \<times> 'q) \<Rightarrow> 'a queue_op list \<Rightarrow> 'q
    \<Rightarrow> 'a list \<times> 'a list \<times> 'q" where
  "queue_run enq deq [] q = ([], [], q)"
| "queue_run enq deq (Enq x # ops) q =
     (let (done, q) = enq q x; (ins, outs, q) = queue_run enq deq ops q
      in (if done then x # ins else ins, outs, q))"
| "queue_run enq deq (Deq # ops) q =
     (let (y, q) = deq q; (ins, outs, q) = queue_run enq deq ops q
      in (ins, (case y of None \<Rightarrow> outs | Some y \<Rightarrow> y # outs), q))"

context bounded_queue begin

lemma enq_cases:
  assumes "ok q"
  obtains "fst (enq q x)" "contents (snd (enq q x)) = contents q @ [x]" "length (contents q) < cap q"
  | "\<not> fst (enq q x)" "contents (snd (enq q x)) = contents q" "length (contents q) = cap q"
proof (cases "length (contents q) < cap q")
  case True
  with assms that(1) show thesis using enq_room by blast
next
  case False
  with assms have "length (contents q) = cap q" using bounded [of q] by simp
  with assms that(2) show thesis using enq_full [of q x] by simp
qed

text \<open>Nothing is lost, duplicated or reordered: what was in the queue, followed by what it
  accepted, is what it gave out, followed by what it still holds.\<close>

lemma run_fifo:
  "ok q \<Longrightarrow> queue_run enq deq ops q = (ins, outs, q') \<Longrightarrow>
    ok q' \<and> cap q' = cap q \<and> contents q @ ins = outs @ contents q'"
proof (induction ops arbitrary: q ins outs q')
  case Nil
  then show ?case by simp
next
  case (Cons opn ops)
  show ?case
  proof (cases opn)
    case (Enq x)
    obtain ins' where run: "queue_run enq deq ops (snd (enq q x)) = (ins', outs, q')"
      and ins: "ins = (if fst (enq q x) then x # ins' else ins')"
      using Cons.prems(2) Enq by (auto split: prod.splits)
    from Cons.IH [OF enq_ok [OF Cons.prems(1)] run]
    have "ok q' \<and> cap q' = cap q \<and> contents (snd (enq q x)) @ ins' = outs @ contents q'"
      using enq_cap [OF Cons.prems(1)] by simp
    then show ?thesis using ins
      by (cases rule: enq_cases [OF Cons.prems(1), of x]) simp_all
  next
    case Deq
    obtain outs' where run: "queue_run enq deq ops (snd (deq q)) = (ins, outs', q')"
      and outs: "outs = (case fst (deq q) of None \<Rightarrow> outs' | Some y \<Rightarrow> y # outs')"
      using Cons.prems(2) Deq by (auto split: prod.splits)
    from Cons.IH [OF deq_ok [OF Cons.prems(1)] run]
    have "ok q' \<and> cap q' = cap q \<and> contents (snd (deq q)) @ ins = outs' @ contents q'"
      using deq_cap [OF Cons.prems(1)] by simp
    moreover have "contents (snd (deq q)) = []" if "fst (deq q) = None"
      using that deq_contents [OF Cons.prems(1)] deq_empty [OF Cons.prems(1)] by simp
    ultimately show ?thesis using deq_contents [OF Cons.prems(1)] outs
      by (auto split: option.splits)
  qed
qed

text \<open>A caller that saw \<open>n\<close> free slots can put \<open>n\<close> elements: none is refused.\<close>

lemma free_slots_suffice:
  "ok q \<Longrightarrow> length xs \<le> free q \<Longrightarrow>
    queue_run enq deq (map Enq xs) q = (ins, outs, q') \<Longrightarrow>
    ins = xs \<and> outs = [] \<and> contents q' = contents q @ xs \<and> free q' = free q - length xs"
proof (induction xs arbitrary: q ins outs q')
  case Nil
  then show ?case by simp
next
  case (Cons x xs)
  from Cons.prems(1,2) have "length (contents q) < cap q"
    using free_exact [of q] by auto
  with Cons.prems(1) have room: "fst (enq q x)" "contents (snd (enq q x)) = contents q @ [x]"
    using enq_room by blast+
  obtain ins' where run: "queue_run enq deq (map Enq xs) (snd (enq q x)) = (ins', outs, q')"
    and ins: "ins = x # ins'"
    using Cons.prems(3) room(1) by (auto split: prod.splits)
  have fr: "free (snd (enq q x)) = free q - 1"
    using free_exact [OF Cons.prems(1)] free_exact [OF enq_ok [OF Cons.prems(1), of x]]
      enq_cap [OF Cons.prems(1), of x] room(2) by simp
  with Cons.prems(2) have "length xs \<le> free (snd (enq q x))" by simp
  from Cons.IH [OF enq_ok [OF Cons.prems(1)] this run] ins room(2) fr show ?case by simp
qed

end

subsection \<open>The ring meets the contract\<close>

lemma next_ptr:
  assumes "p < (n::u32)"
  shows "unat (if p + 1 = n then 0 else p + 1) = (unat p + 1) mod unat n"
    and "(if p + 1 = n then 0 else p + 1) < n"
proof -
  have lt: "unat p < unat n" using assms by (simp add: word_less_nat_alt)
  then have "unat p + 1 < 2 ^ 32" using unsigned_less [of n, where 'a = nat] by simp
  then have p1: "unat (p + 1) = unat p + 1" by (simp add: unat_word_ariths)
  show "unat (if p + 1 = n then 0 else p + 1) = (unat p + 1) mod unat n"
  proof (cases "p + 1 = n")
    case True
    then have "unat n = unat p + 1" using p1 by simp
    with True show ?thesis by simp
  next
    case False
    then have "unat p + 1 \<noteq> unat n" using p1 by (simp add: word_unat_eq_iff)
    with lt False p1 show ?thesis by simp
  qed
  show "(if p + 1 = n then 0 else p + 1) < n"
  proof (cases "p + 1 = n")
    case True
    with assms show ?thesis by (auto simp: word_less_nat_alt)
  next
    case False
    then have "unat p + 1 \<noteq> unat n" using p1 by (simp add: word_unat_eq_iff)
    with lt False p1 show ?thesis by (simp add: word_less_nat_alt)
  qed
qed

lemma ring_nat:
  assumes "ring_ok q"
  shows "unat (w_ptr q) < unat (fifo_size q)" "unat (r_ptr q) < unat (fifo_size q)"
    "length (elems q) = unat (fifo_size q)"
  using assms by (simp_all add: ring_ok_def word_less_nat_alt)

lemma mod_wrap:
  assumes "(r::nat) < n" and "w < n"
  shows "(r + (w + n - r) mod n) mod n = w" and "(w + n - r) mod n = 0 \<longleftrightarrow> w = r"
    and "(w + n - r) mod n < n"
    and "((w + 1) mod n + n - r) mod n = ((w + n - r) mod n + 1) mod n"
    and "w \<noteq> r \<Longrightarrow> (w + n - (r + 1) mod n) mod n = (w + n - r) mod n - 1"
    and "(w + 1) mod n = r \<longleftrightarrow> (w + n - r) mod n = n - 1"
    and "(w + n - r) mod n = (if r \<le> w then w - r else w + n - r)"
proof -
  show k: "(w + n - r) mod n = (if r \<le> w then w - r else w + n - r)"
    using assms by (auto simp: mod_if)
  have w1: "(w + 1) mod n = (if w + 1 = n then 0 else w + 1)"
    and r1: "(r + 1) mod n = (if r + 1 = n then 0 else r + 1)"
    using assms by (auto simp: mod_if)
  show "(r + (w + n - r) mod n) mod n = w" "(w + n - r) mod n = 0 \<longleftrightarrow> w = r"
    "(w + n - r) mod n < n"
    using assms by (auto simp: k)
  show "((w + 1) mod n + n - r) mod n = ((w + n - r) mod n + 1) mod n"
    using assms unfolding k w1 by (auto simp: mod_if)
  show "(w + n - (r + 1) mod n) mod n = (w + n - r) mod n - 1" if "w \<noteq> r"
    using assms that unfolding k r1 by (auto simp: mod_if)
  show "(w + 1) mod n = r \<longleftrightarrow> (w + n - r) mod n = n - 1"
    using assms unfolding k w1 by auto
qed

lemma ring_len_bound: "ring_ok q \<Longrightarrow> ring_len q \<le> ring_cap q"
  using mod_wrap(3) [OF ring_nat(2,1)] by (fastforce simp: ring_len_def ring_cap_def)

lemma ring_push_room:
  assumes q: "ring_ok q" and room: "ring_len q < ring_cap q"
  shows "fst (can_push q x)" and "ring_ok (snd (can_push q x))"
    and "ring_list (snd (can_push q x)) = ring_list q @ [x]"
proof -
  let ?n = "unat (fifo_size q)" and ?w = "unat (w_ptr q)" and ?r = "unat (r_ptr q)"
  let ?next = "if w_ptr q + 1 = fifo_size q then 0 else w_ptr q + 1"
  note rw = ring_nat [OF q]
  have nx: "unat ?next = (?w + 1) mod ?n" "?next < fifo_size q"
    using next_ptr [of "w_ptr q" "fifo_size q"] q by (simp_all add: ring_ok_def)
  have "(?w + 1) mod ?n \<noteq> ?r"
    using room mod_wrap(6) [OF rw(2,1)] by (simp add: ring_len_def ring_cap_def)
  then have ne: "?next \<noteq> r_ptr q" using nx(1) by auto
  have eq: "can_push q x = (True, q\<lparr>elems := (elems q)[?w := x], w_ptr := ?next\<rparr>)"
    using ne by (simp add: can_push_def Let_def)
  show "fst (can_push q x)" by (simp add: eq)
  show "ring_ok (snd (can_push q x))" using q nx(2) by (simp add: eq ring_ok_def)
  have len: "ring_len (snd (can_push q x)) = Suc (ring_len q)"
    using mod_wrap(4) [OF rw(2,1)] room nx(1) by (simp add: eq ring_len_def ring_cap_def)
  have old: "(?r + i) mod ?n \<noteq> ?w" if i: "i < ring_len q" for i
  proof
    assume "(?r + i) mod ?n = ?w"
    then have "(?r + i) mod ?n = (?r + ring_len q) mod ?n"
      using mod_wrap(1) [OF rw(2,1)] by (simp add: ring_len_def)
    moreover have "i < ?n" "ring_len q < ?n" using i room by (simp_all add: ring_cap_def)
    ultimately show False using i rw(2)
      by (cases "?r + i < ?n"; cases "?r + ring_len q < ?n") (simp_all add: le_mod_geq)
  qed
  have last_slot: "(?r + ring_len q) mod ?n = ?w"
    using mod_wrap(1) [OF rw(2,1)] by (simp add: ring_len_def)
  have "map (\<lambda>i. (elems q)[?w := x] ! ((?r + i) mod ?n)) [0..<ring_len q] = ring_list q"
    using old by (simp add: ring_list_def) (metis atLeastLessThan_iff nth_list_update_neq)
  moreover have "ring_list (snd (can_push q x)) =
      map (\<lambda>i. (elems q)[?w := x] ! ((?r + i) mod ?n)) [0..<Suc (ring_len q)]"
    by (simp only: ring_list_def len) (simp add: eq)
  ultimately show "ring_list (snd (can_push q x)) = ring_list q @ [x]"
    using last_slot rw by simp
qed

lemma ring_push_full:
  assumes q: "ring_ok q" and full: "ring_cap q \<le> ring_len q"
  shows "can_push q x = (False, q)"
proof -
  have "ring_len q = unat (fifo_size q) - 1"
    using full ring_len_bound [OF q] by (simp add: ring_cap_def)
  then have "(unat (w_ptr q) + 1) mod unat (fifo_size q) = unat (r_ptr q)"
    using mod_wrap(6) [OF ring_nat(2,1) [OF q]] by (simp add: ring_len_def)
  then have "(if w_ptr q + 1 = fifo_size q then 0 else w_ptr q + 1) = r_ptr q"
    using next_ptr(1) [of "w_ptr q" "fifo_size q"] q
    by (simp add: ring_ok_def word_unat_eq_iff)
  then show ?thesis by (simp add: can_push_def Let_def)
qed

lemma ring_pop_some:
  assumes q: "ring_ok q" and ne: "w_ptr q \<noteq> r_ptr q"
  shows "ring_ok (snd (can_pop q))" and "fifo_size (snd (can_pop q)) = fifo_size q"
    and "\<exists>x. fst (can_pop q) = Some x \<and> ring_list q = x # ring_list (snd (can_pop q))"
proof -
  let ?n = "unat (fifo_size q)" and ?r = "unat (r_ptr q)"
  let ?next = "if r_ptr q + 1 = fifo_size q then 0 else r_ptr q + 1"
  note rw = ring_nat [OF q]
  have nx: "unat ?next = (?r + 1) mod ?n" "?next < fifo_size q"
    using next_ptr [of "r_ptr q" "fifo_size q"] q by (simp_all add: ring_ok_def)
  have eq: "can_pop q = (Some (elems q ! ?r), q\<lparr>r_ptr := ?next\<rparr>)"
    using ne by (simp add: can_pop_def)
  show "ring_ok (snd (can_pop q))" using q nx(2) by (simp add: eq ring_ok_def)
  show "fifo_size (snd (can_pop q)) = fifo_size q" by (simp add: eq)
  have "unat (w_ptr q) \<noteq> ?r" using ne by (simp add: word_unat_eq_iff)
  then have len: "ring_len q = Suc (ring_len (snd (can_pop q)))"
    using mod_wrap(2,5) [OF rw(2,1)] nx(1) by (simp add: eq ring_len_def)
  have "(?r + Suc i) mod ?n = (unat ?next + i) mod ?n" for i
    unfolding nx(1) by (simp add: mod_simps)
  then have "ring_list q = elems q ! ?r # ring_list (snd (can_pop q))"
    using len rw(2)
    by (simp add: ring_list_def eq upt_conv_Cons map_Suc_upt [symmetric] comp_def del: upt_Suc)
  then show "\<exists>x. fst (can_pop q) = Some x \<and> ring_list q = x # ring_list (snd (can_pop q))"
    by (simp add: eq)
qed

lemma ring_push_size [simp]: "fifo_size (snd (can_push q x)) = fifo_size q"
  by (simp add: can_push_def Let_def)

lemma ring_length: "length (ring_list q) = ring_len q"
  by (simp add: ring_list_def)

lemma int_dist:
  "(r::nat) < n \<Longrightarrow> w < n \<Longrightarrow>
    int (if r \<le> w then w - r else w + n - r) = (if int r \<le> int w then int w - int r else int w + int n - int r)"
  by auto

lemma can_slots_exact:
  assumes "ring_ok q"
  shows "unat (can_slots_empty q) = ring_cap q - ring_len q"
proof -
  let ?n = "uint (fifo_size q)" and ?w = "uint (w_ptr q)" and ?r = "uint (r_ptr q)"
  have lt: "?w < ?n" "?r < ?n" using assms by (simp_all add: ring_ok_def word_less_def)
  have n32: "?n < 2 ^ 32" using uint_lt2p [of "fifo_size q"] by simp
  have pos: "0 \<le> ?w" "0 \<le> ?r" by simp_all
  have len: "ring_len q = (if unat (r_ptr q) \<le> unat (w_ptr q) then unat (w_ptr q) - unat (r_ptr q)
      else unat (w_ptr q) + unat (fifo_size q) - unat (r_ptr q))"
    unfolding ring_len_def by (rule mod_wrap(7) [OF ring_nat(2,1) [OF assms]])
  have nats: "int (unat (w_ptr q)) = ?w" "int (unat (r_ptr q)) = ?r" "int (unat (fifo_size q)) = ?n"
    by simp_all
  have int_len: "int (ring_len q) = (if ?r \<le> ?w then ?w - ?r else ?w + ?n - ?r)"
    using int_dist [OF ring_nat(2,1) [OF assms]] unfolding len nats by simp
  have "uint (can_slots_empty q) = ?n - 1 - int (ring_len q)"
  proof (cases "r_ptr q \<le> w_ptr q")
    case True
    then have le: "?r \<le> ?w" by (simp add: word_le_def)
    have "uint (fifo_size q - 1 - w_ptr q + r_ptr q) = (?n - 1 - ?w + ?r) mod 2 ^ 32"
      by (simp add: uint_word_ariths mod_simps)
    with True le lt n32 pos show ?thesis by (simp add: can_slots_empty_def int_len)
  next
    case False
    then have le: "\<not> ?r \<le> ?w" by (simp add: word_le_def)
    have "uint (r_ptr q - w_ptr q - 1) = (?r - ?w - 1) mod 2 ^ 32"
      by (simp add: uint_word_ariths mod_simps)
    moreover have "(?r - ?w - 1) mod 2 ^ 32 = ?r - ?w - 1"
      using le lt n32 pos by (intro mod_pos_pos_trivial) linarith+
    ultimately show ?thesis using False le by (simp add: can_slots_empty_def int_len)
  qed
  then have "int (unat (can_slots_empty q)) = int (unat (fifo_size q)) - 1 - int (ring_len q)"
    by simp
  then show ?thesis using ring_len_bound [OF assms] ring_nat(2) [OF assms]
    unfolding ring_cap_def by linarith
qed

interpretation ring: bounded_queue can_push can_pop "\<lambda>q. unat (can_slots_empty q)"
  ring_ok ring_list ring_cap
proof
  fix q :: "'a can_ring" and x :: 'a
  assume ok: "ring_ok q"
  show "ring_ok (snd (can_push q x))"
    using ring_push_room(2) [OF ok] ring_push_full [OF ok, of x] ok
    by (cases "ring_len q < ring_cap q") auto
  show "ring_cap (snd (can_push q x)) = ring_cap q" by (simp add: ring_cap_def)
  show "length (ring_list q) \<le> ring_cap q" using ring_len_bound [OF ok] by (simp add: ring_length)
  show "unat (can_slots_empty q) = ring_cap q - length (ring_list q)"
    using can_slots_exact [OF ok] by (simp add: ring_length)
next
  fix q :: "'a can_ring" and x :: 'a
  assume ok: "ring_ok q" and "length (ring_list q) < ring_cap q"
  then show "fst (can_push q x) \<and> ring_list (snd (can_push q x)) = ring_list q @ [x]"
    using ring_push_room(1,3) [OF ok] by (simp add: ring_length)
next
  fix q :: "'a can_ring" and x :: 'a
  assume ok: "ring_ok q" and "ring_cap q \<le> length (ring_list q)"
  then show "can_push q x = (False, q)" using ring_push_full [OF ok] by (simp add: ring_length)
next
  fix q :: "'a can_ring"
  assume ok: "ring_ok q"
  have empty: "can_pop q = (None, q)" "ring_list q = []" if "w_ptr q = r_ptr q"
    using that by (simp_all add: can_pop_def ring_list_def ring_len_def)
  show "ring_ok (snd (can_pop q))" "ring_cap (snd (can_pop q)) = ring_cap q"
    using ring_pop_some [OF ok] empty ok
    by (cases "w_ptr q = r_ptr q"; simp add: ring_cap_def)+
  show "ring_list q = (case fst (can_pop q) of None \<Rightarrow> [] | Some x \<Rightarrow> x # ring_list (snd (can_pop q)))"
    using ring_pop_some(3) [OF ok] empty by (cases "w_ptr q = r_ptr q") auto
  show "can_pop q = (None, q)" if "ring_list q = []"
    using ring_pop_some(3) [OF ok] empty that by (cases "w_ptr q = r_ptr q") auto
qed

lemma can_buffer_ok: "0 < n \<Longrightarrow> n < 2 ^ 32 \<Longrightarrow> ring_ok (can_buffer x n)"
  by (simp add: can_buffer_def ring_ok_def unat_of_nat word_less_nat_alt)

lemma can_clear_ok:
  "ring_ok q \<Longrightarrow> ring_ok (can_clear q) \<and> ring_list (can_clear q) = [] \<and> ring_cap (can_clear q) = ring_cap q"
  by (auto simp: can_clear_def ring_ok_def ring_list_def ring_len_def ring_cap_def word_less_nat_alt)

subsection \<open>Properties\<close>

text \<open>C38: The ring is a first-in first-out queue, whatever the order of pushes and pops: what it
  held, followed by what it accepted, is what it gave out, followed by what it holds then. A
  push is refused only when the ring holds one element less than its array, and its pointers
  stay inside the array.\<close>

theorem can_queue_fifo:
  assumes "ring_ok q" and "queue_run can_push can_pop ops q = (ins, outs, q')"
  shows "ring_list q @ ins = outs @ ring_list q' \<and> ring_ok q' \<and>
    length (ring_list q') \<le> unat (fifo_size q) - 1 \<and>
    fst (can_push q x) = (length (ring_list q) < unat (fifo_size q) - 1)"
proof -
  note run = ring.run_fifo [OF assms]
  moreover have "length (ring_list q') \<le> unat (fifo_size q) - 1"
    using ring.bounded [of q'] run by (simp add: ring_cap_def)
  moreover have "fst (can_push q x) = (length (ring_list q) < unat (fifo_size q) - 1)"
    by (rule ring.enq_cases [OF assms(1), of x]) (simp_all add: ring_cap_def)
  ultimately show ?thesis by simp
qed

lemma can_queue_fifo_witness:
  "\<exists>(q :: nat can_ring) ops ins outs q'. ring_ok q \<and> queue_run can_push can_pop ops q = (ins, outs, q') \<and>
     ins = [1, 2, 4] \<and> outs = [1, 2] \<and> ring_list q @ ins = outs @ ring_list q'"
proof -
  define q :: "nat can_ring" where "q = can_buffer 0 3"
  define ops :: "nat queue_op list" where "ops = [Enq 1, Enq 2, Enq 3, Deq, Enq 4, Deq]"
  obtain ins outs q' where run: "queue_run can_push can_pop ops q = (ins, outs, q')"
    by (cases "queue_run can_push can_pop ops q")
  have "ring_ok q" unfolding q_def by (rule can_buffer_ok) simp_all
  moreover have "(ins, outs) = ([1, 2, 4], [1, 2])"
  proof -
    have "(fst (queue_run can_push can_pop ops q), fst (snd (queue_run can_push can_pop ops q))) =
        ([1, 2, 4], [1, 2])" unfolding q_def ops_def by code_simp
    then show ?thesis using run by simp
  qed
  ultimately show ?thesis
    using can_queue_fifo [of q ops ins outs q' 0] run by (intro exI [of _ q]) auto
qed

end
