(* ===== verification/Can_Comms.thy ===== *)
theory Can_Comms
  imports Can_Packet Can_Queue
begin

text \<open>
  The byte stream between the host and the queues (\<^verbatim>\<open>firmware/board/can_comms.h\<close>): packets are
  cut into transfers of any size in both directions, and an overflow buffer of each direction
  carries the part of a packet that spans two of them. The lemmas relate both functions to a
  plain stream of bytes, so that the cuts cannot be seen.
\<close>

definition CAN_SYNC_MARKER :: u8 where "CAN_SYNC_MARKER = 0xAA"

text \<open>The pointer and the tail size never exceed the 72 bytes of the buffer, so they are plain
  numbers.\<close>

record asm_buffer =
  ptr :: nat
  tail_size :: nat
  ab_data :: "u8 list"

definition asm_empty :: asm_buffer where
  "asm_empty = \<lparr>ptr = 0, tail_size = 0, ab_data = replicate 72 0\<rparr>"

subsection \<open>To the host\<close>

text \<open>One packet of the stream: the marker, then the bytes of the packet.\<close>

definition framed :: "CANPacket \<Rightarrow> u8 list option" where
  "framed p = map_option (\<lambda>w. CAN_SYNC_MARKER # w) (wire_bytes p)"

text \<open>The loop that fills the rest of the transfer: each pass appends a whole packet, or as much
  of one as fits and keeps the rest.\<close>

function comms_read_loop :: "nat \<Rightarrow> u8 list \<Rightarrow> asm_buffer \<Rightarrow> CANPacket can_ring
    \<Rightarrow> (u8 list \<times> asm_buffer \<times> CANPacket can_ring) option" where
  "comms_read_loop max_len out buf q =
     (if length out < max_len then
        (case can_pop q of
           (None, q') \<Rightarrow> Some (out, buf, q')
         | (Some p, q') \<Rightarrow>
             (case framed p of
                None \<Rightarrow> None
              | Some fr \<Rightarrow>
                  if length out + length fr \<le> max_len then comms_read_loop max_len (out @ fr) buf q'
                  else
                    let n = max_len - length out; rest = ptr buf + (length fr - n)
                    in do { bytes \<leftarrow> slice fr n rest;
                            d \<leftarrow> memcpy (ab_data buf) 0 bytes;
                            Some (out @ take n fr, buf\<lparr>ptr := rest, ab_data := d\<rparr>, q') }))
      else Some (out, buf, q))"
  by pat_completeness auto

termination
  by (relation "measure (\<lambda>(max_len, out, buf, q). max_len - length out)") (auto simp: framed_def)

text \<open>The tail of the previous transfer goes first; new packets only follow when all of it is
  out.\<close>

definition comms_can_read :: "nat \<Rightarrow> asm_buffer \<Rightarrow> CANPacket can_ring
    \<Rightarrow> (u8 list \<times> asm_buffer \<times> CANPacket can_ring) option" where
  "comms_can_read max_len buf q =
     do { (out, buf) \<leftarrow>
            (if ptr buf > 0 then
               let overflow_len = CMIN max_len (ptr buf)
               in do { out \<leftarrow> slice (ab_data buf) 0 overflow_len;
                       rest \<leftarrow> slice (ab_data buf) overflow_len (ptr buf - overflow_len);
                       d \<leftarrow> memcpy (ab_data buf) 0 rest;
                       Some (out, buf\<lparr>ptr := ptr buf - overflow_len, ab_data := d\<rparr>) }
             else Some ([], buf));
          if ptr buf = 0 then comms_read_loop max_len out buf q else Some (out, buf, q) }"

subsection \<open>From the host\<close>

text \<open>The packets go to \<open>can_send\<close>, and the state it changes is a parameter here; \<open>refresh\<close> is
  \<open>refresh_can_tx_slots_available\<close>.\<close>

definition packet_len :: "u8 \<Rightarrow> nat" where
  "packet_len b = CANPACKET_HEAD_SIZE + nat (dlc_to_len ! unat (drop_bit 4 b))"

lemma packet_len_pos [simp]: "0 < packet_len b"
  by (simp add: packet_len_def CANPACKET_HEAD_SIZE_def)

function comms_write_loop :: "build \<Rightarrow> (CANPacket \<Rightarrow> 's \<Rightarrow> 's option) \<Rightarrow> u8 list \<Rightarrow> asm_buffer \<Rightarrow> 's
    \<Rightarrow> (asm_buffer \<times> 's) option" where
  "comms_write_loop B can_send bytes buf s =
     (if bytes = [] then Some (buf, s)
      else
        let pckt_len = packet_len (hd bytes)
        in if pckt_len \<le> length bytes then
             do { to_push \<leftarrow> packet_from B (take pckt_len bytes);
                  s \<leftarrow> can_send to_push s;
                  comms_write_loop B can_send (drop pckt_len bytes) buf s }
           else
             do { d \<leftarrow> memcpy (ab_data buf) 0 bytes;
                  Some (buf\<lparr>ptr := length bytes, tail_size := pckt_len - length bytes, ab_data := d\<rparr>, s) })"
  by pat_completeness auto

termination
  by (relation "measure (\<lambda>(B, send, bytes, buf, s). length bytes)") auto

definition comms_can_write :: "build \<Rightarrow> (CANPacket \<Rightarrow> 's \<Rightarrow> 's option) \<Rightarrow> ('s \<Rightarrow> 's) \<Rightarrow> u8 list
    \<Rightarrow> asm_buffer \<Rightarrow> 's \<Rightarrow> (asm_buffer \<times> 's) option" where
  "comms_can_write B can_send refresh bytes buf s =
     do { (bytes, buf, s) \<leftarrow>
            (if ptr buf \<noteq> 0 then
               if tail_size buf \<le> length bytes then
                 do { d \<leftarrow> memcpy (ab_data buf) (ptr buf) (take (tail_size buf) bytes);
                      whole \<leftarrow> slice d 0 (ptr buf + tail_size buf);
                      to_push \<leftarrow> packet_from B whole;
                      s \<leftarrow> can_send to_push s;
                      Some (drop (tail_size buf) bytes, buf\<lparr>ptr := 0, tail_size := 0, ab_data := d\<rparr>, s) }
               else
                 do { d \<leftarrow> memcpy (ab_data buf) (ptr buf) bytes;
                      Some ([], buf\<lparr>ptr := ptr buf + length bytes,
                        tail_size := tail_size buf - length bytes, ab_data := d\<rparr>, s) }
             else Some (bytes, buf, s));
          (buf, s) \<leftarrow> comms_write_loop B can_send bytes buf s;
          Some (buf, refresh s) }"

definition comms_can_reset :: "asm_buffer \<Rightarrow> asm_buffer" where
  "comms_can_reset buf = buf\<lparr>ptr := 0, tail_size := 0\<rparr>"

declare comms_read_loop.simps [simp del] comms_write_loop.simps [simp del]

subsection \<open>The stream to the host\<close>

definition pending :: "asm_buffer \<Rightarrow> u8 list" where
  "pending buf = take (ptr buf) (ab_data buf)"

definition frame_bytes :: "CANPacket \<Rightarrow> u8 list" where
  "frame_bytes p = CAN_SYNC_MARKER # take (wire_len p) (packet_bytes p)"

definition read_stream :: "asm_buffer \<Rightarrow> CANPacket can_ring \<Rightarrow> u8 list" where
  "read_stream buf q = pending buf @ concat (map frame_bytes (ring_list q))"

text \<open>A packet whose length code does not exceed its data array.\<close>

definition fits :: "CANPacket \<Rightarrow> bool" where
  "fits p \<longleftrightarrow> data_len_code p < 16 \<and> nat (GET_LEN p) \<le> length (data p)"

definition read_ok :: "asm_buffer \<Rightarrow> CANPacket can_ring \<Rightarrow> bool" where
  "read_ok buf q \<longleftrightarrow> length (ab_data buf) = 72 \<and> ptr buf \<le> 72 \<and> ring_ok q \<and> list_all fits (ring_list q)"

lemma dlc_to_len_le: "i < 16 \<Longrightarrow> nat (dlc_to_len ! i) \<le> 64"
proof -
  assume "i < 16"
  then have "i \<in> {0..<16}" by simp
  moreover have "\<forall>i \<in> set [0..<16]. nat (dlc_to_len ! i) \<le> 64" by code_simp
  ultimately show ?thesis by simp
qed

lemma framed_fits: "fits p \<Longrightarrow> framed p = Some (frame_bytes p) \<and> length (frame_bytes p) \<le> 71 \<and> 0 < length (frame_bytes p)"
  using dlc_to_len_le [of "data_len_code p"]
  by (auto simp: fits_def framed_def frame_bytes_def wire_bytes_some wire_len_def
      CANPACKET_HEAD_SIZE_def GET_LEN_def)

lemma read_loop_stream:
  assumes "read_ok buf q" and "ptr buf = 0" and "length out \<le> max_len"
  shows "\<exists>out' buf' q'. comms_read_loop max_len out buf q = Some (out', buf', q') \<and>
    out' @ read_stream buf' q' = out @ read_stream buf q \<and> read_ok buf' q' \<and>
    length out' \<le> max_len \<and> (length out' = max_len \<or> read_stream buf' q' = [])"
  using assms
proof (induction max_len out buf q rule: comms_read_loop.induct)
  case (1 max_len out buf q)
  have ok: "ring_ok q" "list_all fits (ring_list q)" "length (ab_data buf) = 72"
    using "1.prems"(1) by (simp_all add: read_ok_def)
  have pend: "pending buf = []" using "1.prems"(2) by (simp add: pending_def)
  show ?case
  proof (cases "length out < max_len")
    case False
    with "1.prems" show ?thesis by (subst comms_read_loop.simps) simp
  next
    case room: True
    show ?thesis
    proof (cases "fst (can_pop q)")
      case None
      then have "ring_list q = []" "can_pop q = (None, q)"
        using ring.deq_contents [OF ok(1)] ring.deq_empty [OF ok(1)] by simp_all
      with room pend "1.prems" show ?thesis
        by (subst comms_read_loop.simps) (simp add: read_stream_def)
    next
      case (Some p)
      define q' where "q' = snd (can_pop q)"
      have pop: "can_pop q = (Some p, q')" using Some by (simp add: q'_def prod_eq_iff)
      have lst: "ring_list q = p # ring_list q'" and q': "ring_ok q'"
        using ring.deq_contents [OF ok(1)] ring.deq_ok [OF ok(1)] by (simp_all add: pop)
      have fp: "framed p = Some (frame_bytes p)" "length (frame_bytes p) \<le> 71" and
        ok': "list_all fits (ring_list q')"
        using ok(2) framed_fits by (simp_all add: lst)
      show ?thesis
      proof (cases "length out + length (frame_bytes p) \<le> max_len")
        case fit: True
        have "read_ok buf q'" using "1.prems"(1) q' ok' by (simp add: read_ok_def)
        from "1.IH" [OF room pop [symmetric] refl fp(1) fit this "1.prems"(2)] fit
        show ?thesis
          using room pend
          by (subst comms_read_loop.simps) (simp add: pop fp(1) read_stream_def lst)
      next
        case False
        define n where "n = max_len - length out"
        have n: "n < length (frame_bytes p)" using False room by (simp add: n_def)
        define bytes where "bytes = drop n (frame_bytes p)"
        have sl: "slice (frame_bytes p) n (ptr buf + (length (frame_bytes p) - n)) = Some bytes"
          using n "1.prems"(2) by (simp add: slice_def bytes_def)
        have "length bytes \<le> 71" using fp(2) by (simp add: bytes_def)
        then obtain d where d: "memcpy (ab_data buf) 0 bytes = Some d"
          using ok(3) by (simp add: memcpy_def)
        have d': "take (length bytes) d = bytes" "length d = 72"
          using memcpy_prefix [OF d] ok(3) by simp_all
        define buf' where "buf' = buf\<lparr>ptr := length bytes, ab_data := d\<rparr>"
        have "comms_read_loop max_len out buf q = Some (out @ take n (frame_bytes p), buf', q')"
          using room False sl d "1.prems"(2)
          by (subst comms_read_loop.simps)
            (simp add: pop fp(1) n_def [symmetric] Let_def buf'_def bytes_def)
        moreover have "pending buf' = bytes" by (simp add: buf'_def pending_def d'(1))
        moreover have "read_ok buf' q'"
          using q' ok' d'(2) \<open>length bytes \<le> 71\<close> by (simp add: read_ok_def buf'_def)
        moreover have "length (out @ take n (frame_bytes p)) = max_len"
          using n room by (simp add: n_def)
        ultimately show ?thesis
          by (simp add: read_stream_def pend lst bytes_def)
      qed
    qed
  qed
qed

text \<open>One transfer takes the next bytes of the stream, as many as it asks for or all there are.\<close>

lemma comms_can_read_stream:
  assumes "read_ok buf q"
  shows "\<exists>buf' q'. comms_can_read max_len buf q = Some (take max_len (read_stream buf q), buf', q') \<and>
    read_stream buf' q' = drop max_len (read_stream buf q) \<and> read_ok buf' q'"
proof (cases "ptr buf = 0")
  case True
  from read_loop_stream [OF assms True, of "[]" max_len]
  obtain out' buf' q' where "comms_read_loop max_len [] buf q = Some (out', buf', q')"
    "out' @ read_stream buf' q' = read_stream buf q" "read_ok buf' q'"
    "length out' \<le> max_len" "length out' = max_len \<or> read_stream buf' q' = []"
    by auto
  then show ?thesis using True
    by (auto simp: comms_can_read_def simp flip: \<open>out' @ read_stream buf' q' = read_stream buf q\<close>)
next
  case False
  let ?n = "CMIN max_len (ptr buf)"
  have sz: "length (ab_data buf) = 72" "ptr buf \<le> 72" and n: "?n \<le> ptr buf" "?n \<le> max_len"
    using assms by (simp_all add: read_ok_def CMIN_min)
  define rest where "rest = take (ptr buf - ?n) (drop ?n (ab_data buf))"
  have rest_len: "length rest = ptr buf - ?n" using sz n by (simp add: rest_def)
  then have "length rest \<le> length (ab_data buf)" using sz by simp
  then obtain d where d: "memcpy (ab_data buf) 0 rest = Some d" by (simp add: memcpy_def)
  define buf1 where "buf1 = buf\<lparr>ptr := ptr buf - ?n, ab_data := d\<rparr>"
  have d': "pending buf1 = rest" "length d = 72"
    using memcpy_prefix [OF d] sz by (simp_all add: buf1_def pending_def rest_len)
  have split: "pending buf = take ?n (ab_data buf) @ rest"
    using take_add [of ?n "ptr buf - ?n" "ab_data buf"] n(1) by (simp add: pending_def rest_def)
  have ok1: "read_ok buf1 q" using assms d'(2) by (auto simp: read_ok_def buf1_def)
  have first: "comms_can_read max_len buf q =
      (if ptr buf1 = 0 then comms_read_loop max_len (take ?n (ab_data buf)) buf1 q
       else Some (take ?n (ab_data buf), buf1, q))"
    using False sz n d by (simp add: comms_can_read_def slice_def rest_def Let_def buf1_def)
  have stream: "read_stream buf q = take ?n (ab_data buf) @ read_stream buf1 q"
    by (simp add: read_stream_def split d'(1))
  have len: "length (take ?n (ab_data buf)) = ?n" using sz n by simp
  show ?thesis
  proof (cases "ptr buf1 = 0")
    case True
    from read_loop_stream [OF ok1 True, of "take ?n (ab_data buf)" max_len] len n
    obtain out' buf' q' where *: "comms_read_loop max_len (take ?n (ab_data buf)) buf1 q = Some (out', buf', q')"
      "out' @ read_stream buf' q' = read_stream buf q" "read_ok buf' q'"
      "length out' \<le> max_len" "length out' = max_len \<or> read_stream buf' q' = []"
      unfolding stream by auto
    then show ?thesis using True unfolding first by (auto simp flip: *(2))
  next
    case False
    then have "?n = max_len" by (simp add: buf1_def CMIN_def split: if_splits)
    then show ?thesis using False ok1 len unfolding first stream by simp
  qed
qed

subsection \<open>The stream from the host\<close>

text \<open>What the byte stream means: complete packets, and the beginning of the next one.\<close>

function split_stream :: "u8 list \<Rightarrow> u8 list list \<times> u8 list" where
  "split_stream bytes =
     (if bytes = [] \<or> length bytes < packet_len (hd bytes) then ([], bytes)
      else let (ws, rest) = split_stream (drop (packet_len (hd bytes)) bytes)
           in (take (packet_len (hd bytes)) bytes # ws, rest))"
  by pat_completeness auto

termination
  by (relation "measure length") auto

declare split_stream.simps [simp del]

fun send_all :: "build \<Rightarrow> (CANPacket \<Rightarrow> 's \<Rightarrow> 's option) \<Rightarrow> u8 list list \<Rightarrow> 's \<Rightarrow> 's option" where
  "send_all B can_send [] s = Some s"
| "send_all B can_send (w # ws) s =
     do { p \<leftarrow> packet_from B w; s \<leftarrow> can_send p s; send_all B can_send ws s }"

lemma send_all_append:
  "send_all B send (ws @ ws') = (\<lambda>s. Option.bind (send_all B send ws s) (send_all B send ws'))"
proof (induction ws)
  case (Cons w ws)
  show ?case by (rule ext) (simp add: Cons.IH Option.bind_assoc)
qed (simp add: fun_eq_iff)

lemma split_short: "bytes = [] \<or> length bytes < packet_len (hd bytes) \<Longrightarrow> split_stream bytes = ([], bytes)"
  by (subst split_stream.simps) simp

lemma split_long:
  "bytes \<noteq> [] \<Longrightarrow> packet_len (hd bytes) \<le> length bytes \<Longrightarrow> split_stream bytes =
    (take (packet_len (hd bytes)) bytes # fst (split_stream (drop (packet_len (hd bytes)) bytes)),
     snd (split_stream (drop (packet_len (hd bytes)) bytes)))"
  by (subst split_stream.simps) (simp add: split_beta)

lemma split_append:
  "split_stream (xs @ ys) =
    (fst (split_stream xs) @ fst (split_stream (snd (split_stream xs) @ ys)),
     snd (split_stream (snd (split_stream xs) @ ys)))"
proof (induction xs rule: split_stream.induct)
  case (1 xs)
  show ?case
  proof (cases "xs = [] \<or> length xs < packet_len (hd xs)")
    case True
    then show ?thesis by (simp add: split_short)
  next
    case False
    then have xs: "xs \<noteq> []" "packet_len (hd xs) \<le> length xs" by auto
    then show ?thesis
      using "1.IH" [OF False] by (simp add: split_long [of "xs @ ys"] split_long [of xs])
  qed
qed

lemma uint_shiftr_16: "uint (drop_bit 4 (b::u8)) = uint b div 16"
  using uint_lt2p [of b] by (simp add: unsigned_drop_bit_eq take_bit_int_eq_self) (simp add: drop_bit_eq_div)

lemma packet_len_le: "packet_len b \<le> 70"
proof -
  have "unat (drop_bit 4 b) < 16"
    using unsigned_less [of b, where 'a = nat]
    by (simp only: unsigned_drop_bit_eq) (simp add: take_bit_nat_eq_self drop_bit_eq_div less_mult_imp_div_less)
  then show ?thesis
    using dlc_to_len_le [of "unat (drop_bit 4 b)"] by (simp add: packet_len_def CANPACKET_HEAD_SIZE_def)
qed

text \<open>The overflow buffer holds a proper beginning of a packet and knows what is missing.\<close>

definition write_ok :: "asm_buffer \<Rightarrow> bool" where
  "write_ok buf \<longleftrightarrow> length (ab_data buf) = 72 \<and>
     (ptr buf \<noteq> 0 \<longrightarrow> ptr buf < packet_len (hd (ab_data buf)) \<and>
        tail_size buf = packet_len (hd (ab_data buf)) - ptr buf)"

lemma write_ok_split:
  assumes "write_ok buf"
  shows "split_stream (pending buf) = ([], pending buf)"
proof (rule split_short, cases "ptr buf = 0")
  case False
  then have "ptr buf < packet_len (hd (ab_data buf))" "length (ab_data buf) = 72"
    using assms by (simp_all add: write_ok_def)
  then show "pending buf = [] \<or> length (pending buf) < packet_len (hd (pending buf))"
    using packet_len_le [of "hd (ab_data buf)"] False by (simp add: pending_def)
qed (simp add: pending_def)

lemma write_loop_stream:
  assumes "write_ok buf" and "ptr buf = 0"
  shows "case send_all B send (fst (split_stream bytes)) s of
      None \<Rightarrow> comms_write_loop B send bytes buf s = None
    | Some s' \<Rightarrow> \<exists>buf'. comms_write_loop B send bytes buf s = Some (buf', s') \<and>
        write_ok buf' \<and> pending buf' = snd (split_stream bytes)"
  using assms
proof (induction B send bytes buf s rule: comms_write_loop.induct)
  case (1 B send bytes buf s)
  show ?case
  proof (cases "bytes = []")
    case True
    with "1.prems" show ?thesis
      by (subst (1 2) comms_write_loop.simps) (simp add: split_short pending_def)
  next
    case ne: False
    show ?thesis
    proof (cases "packet_len (hd bytes) \<le> length bytes")
      case True
      let ?w = "take (packet_len (hd bytes)) bytes"
      note unf = comms_write_loop.simps [of B send bytes] split_long [OF ne True]
      show ?thesis
      proof (cases "packet_from B ?w")
        case None
        with ne True show ?thesis by (simp add: unf)
      next
        case (Some p)
        show ?thesis
        proof (cases "send p s")
          case None
          with Some ne True show ?thesis by (simp add: unf)
        next
          case (Some s1)
          with \<open>packet_from B ?w = Some p\<close> "1.IH" [OF ne refl True _ Some "1.prems"] ne True
          show ?thesis by (auto simp: unf split: option.splits)
        qed
      qed
    next
      case False
      have len: "length bytes < 70" using False packet_len_le [of "hd bytes"] by simp
      then obtain d where d: "memcpy (ab_data buf) 0 bytes = Some d"
        using "1.prems"(1) by (simp add: memcpy_def write_ok_def)
      have d': "take (length bytes) d = bytes" "length d = 72"
        using memcpy_prefix [OF d] "1.prems"(1) by (simp_all add: write_ok_def)
      have "hd d = hd bytes" using d'(1) ne by (metis hd_take length_greater_0_conv)
      with False ne d d' show ?thesis
        by (subst (1 2) comms_write_loop.simps) (simp add: split_short Let_def write_ok_def pending_def)
    qed
  qed
qed

lemma comms_can_write_stream:
  fixes s :: 's
  assumes "write_ok buf"
  shows "case send_all B send (fst (split_stream (pending buf @ bytes))) s of
      None \<Rightarrow> comms_can_write B send refresh bytes buf s = None
    | Some s' \<Rightarrow> \<exists>buf'. comms_can_write B send refresh bytes buf s = Some (buf', refresh s') \<and>
        write_ok buf' \<and> pending buf' = snd (split_stream (pending buf @ bytes))"
proof (cases "ptr buf = 0")
  case True
  then show ?thesis
    using write_loop_stream [OF assms True, of B send bytes s]
    by (auto simp: comms_can_write_def pending_def split: option.splits)
next
  case ptr: False
  let ?h = "hd (ab_data buf)"
  have sz: "length (ab_data buf) = 72" "ptr buf < packet_len ?h" "tail_size buf = packet_len ?h - ptr buf"
    using assms ptr by (simp_all add: write_ok_def)
  have pend: "pending buf \<noteq> []" "hd (pending buf) = ?h" "length (pending buf) = ptr buf"
    using ptr sz packet_len_le [of ?h] by (auto simp: pending_def)
  show ?thesis
  proof (cases "tail_size buf \<le> length bytes")
    case True
    let ?tl = "take (tail_size buf) bytes"
    have fit: "ptr buf + length ?tl \<le> length (ab_data buf)"
      using sz True packet_len_le [of ?h] by simp
    then obtain d where d: "memcpy (ab_data buf) (ptr buf) ?tl = Some d" by (simp add: memcpy_def)
    have d': "take (ptr buf + tail_size buf) d = pending buf @ ?tl" "length d = 72"
      using memcpy_append [OF d] sz True packet_len_le [of ?h] by (simp_all add: pending_def)
    have whole: "slice d 0 (ptr buf + tail_size buf) = Some (pending buf @ ?tl)"
      using d' sz packet_len_le [of ?h] by (simp add: slice_def)
    have long: "split_stream (pending buf @ bytes) =
        ((pending buf @ ?tl) # fst (split_stream (drop (tail_size buf) bytes)),
         snd (split_stream (drop (tail_size buf) bytes)))"
      using split_long [of "pending buf @ bytes"] pend sz True by simp
    define buf1 where "buf1 = buf\<lparr>ptr := 0, tail_size := 0, ab_data := d\<rparr>"
    have ok1: "write_ok buf1" "ptr buf1 = 0" using d'(2) by (simp_all add: buf1_def write_ok_def)
    have first: "comms_can_write B send refresh bytes buf s =
        do { p \<leftarrow> packet_from B (pending buf @ ?tl); s \<leftarrow> send p s;
             (buf, s) \<leftarrow> comms_write_loop B send (drop (tail_size buf) bytes) buf1 s;
             Some (buf, refresh s) }"
      using ptr True d whole by (simp add: comms_can_write_def buf1_def Option.bind_assoc)
    show ?thesis
    proof (cases "packet_from B (pending buf @ ?tl)")
      case None
      then show ?thesis unfolding first long by simp
    next
      case (Some p)
      note p = this
      show ?thesis
      proof (cases "send p s")
        case None
        with p show ?thesis unfolding first long by simp
      next
        case (Some s1)
        with p show ?thesis
          using write_loop_stream [OF ok1, of B send "drop (tail_size buf) bytes" s1]
          unfolding first long by (auto split: option.splits)
      qed
    qed
  next
    case False
    have fit: "ptr buf + length bytes \<le> length (ab_data buf)"
      using False sz packet_len_le [of ?h] by simp
    then obtain d where d: "memcpy (ab_data buf) (ptr buf) bytes = Some d" by (simp add: memcpy_def)
    have d': "take (ptr buf + length bytes) d = pending buf @ bytes" "length d = 72"
      using memcpy_append [OF d] sz packet_len_le [of ?h] by (simp_all add: pending_def)
    have hd': "hd d = ?h"
      using d'(1) pend ptr by (metis add_gr_0 hd_append2 hd_take neq0_conv)
    have short: "split_stream (pending buf @ bytes) = ([], pending buf @ bytes)"
      using False sz pend by (intro split_short) simp
    have stop: "comms_write_loop B send [] b t = Some (b, t)" for b and t :: 's
      by (subst comms_write_loop.simps) simp
    show ?thesis
      unfolding short using ptr False d d' hd' sz
      by (simp add: comms_can_write_def stop write_ok_def pending_def)
  qed
qed

subsection \<open>Runs of transfers\<close>

fun comms_read_all :: "nat list \<Rightarrow> asm_buffer \<Rightarrow> CANPacket can_ring
    \<Rightarrow> (u8 list \<times> asm_buffer \<times> CANPacket can_ring) option" where
  "comms_read_all [] buf q = Some ([], buf, q)"
| "comms_read_all (n # ns) buf q =
     do { (out, buf, q) \<leftarrow> comms_can_read n buf q;
          (outs, buf, q) \<leftarrow> comms_read_all ns buf q;
          Some (out @ outs, buf, q) }"

fun comms_write_all :: "build \<Rightarrow> (CANPacket \<Rightarrow> 's \<Rightarrow> 's option) \<Rightarrow> u8 list list \<Rightarrow> asm_buffer \<Rightarrow> 's
    \<Rightarrow> (asm_buffer \<times> 's) option" where
  "comms_write_all B can_send [] buf s = Some (buf, s)"
| "comms_write_all B can_send (c # cs) buf s =
     do { (buf, s) \<leftarrow> comms_can_write B can_send id c buf s;
          comms_write_all B can_send cs buf s }"

lemma comms_read_all_stream:
  assumes "read_ok buf q"
  shows "\<exists>buf' q'. comms_read_all ns buf q = Some (take (sum_list ns) (read_stream buf q), buf', q') \<and>
    read_stream buf' q' = drop (sum_list ns) (read_stream buf q) \<and> read_ok buf' q'"
  using assms
proof (induction ns arbitrary: buf q)
  case Nil
  then show ?case by simp
next
  case (Cons n ns)
  obtain buf1 q1 where 1: "comms_can_read n buf q = Some (take n (read_stream buf q), buf1, q1)"
    "read_stream buf1 q1 = drop n (read_stream buf q)" "read_ok buf1 q1"
    using comms_can_read_stream [OF Cons.prems] by blast
  from Cons.IH [OF 1(3)] show ?case
    by (auto simp: 1(1,2) take_add add.commute)
qed

lemma comms_write_all_stream:
  assumes "write_ok buf"
  shows "case send_all B send (fst (split_stream (pending buf @ concat cs))) s of
      None \<Rightarrow> comms_write_all B send cs buf s = None
    | Some s' \<Rightarrow> \<exists>buf'. comms_write_all B send cs buf s = Some (buf', s') \<and> write_ok buf' \<and>
        pending buf' = snd (split_stream (pending buf @ concat cs))"
  using assms
proof (induction cs arbitrary: buf s)
  case Nil
  then show ?case by (simp add: write_ok_split)
next
  case (Cons c cs)
  let ?a = "split_stream (pending buf @ c)"
  have sp: "split_stream (pending buf @ c @ concat cs) =
      (fst ?a @ fst (split_stream (snd ?a @ concat cs)), snd (split_stream (snd ?a @ concat cs)))"
    using split_append [of "pending buf @ c" "concat cs"] by simp
  show ?case
  proof (cases "send_all B send (fst ?a) s")
    case None
    with comms_can_write_stream [OF Cons.prems, where B = B and send = send and bytes = c and s = s and refresh = id]
    show ?thesis by (simp add: sp send_all_append)
  next
    case (Some s1)
    with comms_can_write_stream [OF Cons.prems, where B = B and send = send and bytes = c and s = s and refresh = id] obtain buf1 where
      1: "comms_can_write B send id c buf s = Some (buf1, s1)" "write_ok buf1" "pending buf1 = snd ?a"
      by auto
    from Cons.IH [OF 1(2), of s1] show ?thesis
      by (auto simp: 1(1,3) sp send_all_append Some split: option.splits)
  qed
qed

lemma split_wire:
  assumes "\<forall>p \<in> set ps. wf_packet B p \<and> fits p"
  shows "split_stream (concat (map (\<lambda>p. take (wire_len p) (packet_bytes p)) ps)) =
    (map (\<lambda>p. take (wire_len p) (packet_bytes p)) ps, [])"
  using assms
proof (induction ps)
  case Nil
  then show ?case by (simp add: split_short)
next
  case (Cons p ps)
  let ?w = "take (wire_len p) (packet_bytes p)"
  have wf: "wf_packet B p" "fits p" using Cons.prems by simp_all
  let ?h = "of_bool (fd p) + 2 * bus p + 16 * int (data_len_code p)"
  have w: "?w \<noteq> []" "hd ?w = word_of_int ?h" "length ?w = wire_len p"
    using wf(2) by (auto simp: fits_def wire_len_def CANPACKET_HEAD_SIZE_def packet_bytes_def packet_head_def)
  have h: "uint (word_of_int ?h :: u8) = ?h" "nat (?h div 16) = data_len_code p" "0 \<le> ?h"
    using head_byte [of "bus p" "data_len_code p" "fd p"] wf(1) by (simp_all add: wf_packet_def)
  have "unat (drop_bit 4 (word_of_int ?h :: u8)) = nat (uint (word_of_int ?h :: u8) div 16)"
    by (simp only: unat_eq_nat_uint uint_shiftr_16)
  then have "packet_len (word_of_int ?h) = wire_len p"
    by (simp only: h(1,2) packet_len_def wire_len_def GET_LEN_def)
  then have "packet_len (hd ?w) = wire_len p" by (simp only: w(2))
  then show ?case
    using split_long [of "?w @ concat (map (\<lambda>p. take (wire_len p) (packet_bytes p)) ps)"] w Cons
    by simp
qed

lemma send_log:
  "\<forall>p \<in> set ps. wf_packet B p \<and> fits p \<Longrightarrow>
    send_all B (\<lambda>p sent. Some (sent @ [p])) (map (\<lambda>p. take (wire_len p) (packet_bytes p)) ps) sent =
    Some (sent @ map (trim B) ps)"
proof (induction ps arbitrary: sent)
  case (Cons p ps)
  have "packet_from B (take (wire_len p) (packet_bytes p)) = Some (trim B p)"
    using Cons.prems by (intro packet_from_wire) (auto simp: wire_bytes_some fits_def)
  with Cons show ?case by simp
qed simp

subsection \<open>Properties\<close>

text \<open>Transfers to the host, of any sizes, deliver the marked packets of the queue as one
  byte stream: nothing is lost, repeated or reordered where a packet spans two transfers, and
  what is not yet delivered stays available.\<close>

lemma comms_read_exact:
  assumes "read_ok buf q"
  shows "\<exists>buf' q'. comms_read_all ns buf q = Some (take (sum_list ns) (read_stream buf q), buf', q') \<and>
    read_stream buf' q' = drop (sum_list ns) (read_stream buf q) \<and> read_ok buf' q'"
  by (rule comms_read_all_stream [OF assms])

text \<open>How the host cuts its data into transfers makes no difference: a run of writes calls
  \<open>can_send\<close> on the same packets, in the same order, with the same outcome, and leaves the same
  unfinished packet, as one write of all the bytes.\<close>

lemma comms_write_chunks:
  assumes "write_ok buf"
  shows "map_option (\<lambda>(buf, s). (pending buf, s)) (comms_write_all B send cs buf s) =
    map_option (\<lambda>(buf, s). (pending buf, s)) (comms_can_write B send id (concat cs) buf s)"
  using comms_write_all_stream [OF assms, of B send cs s]
    comms_can_write_stream [OF assms, where B = B and send = send and bytes = "concat cs" and s = s and refresh = id]
  by (auto split: option.splits)

text \<open>A list of packets, written as its wire bytes in any cuts, arrives as that list: every
  field, the data up to the length of the packet, zeros behind it.\<close>

lemma comms_write_roundtrip:
  assumes "\<forall>p \<in> set ps. wf_packet B p \<and> fits p"
    and "concat cs = concat (map (\<lambda>p. take (wire_len p) (packet_bytes p)) ps)"
  shows "\<exists>buf. comms_write_all B (\<lambda>p sent. Some (sent @ [p])) cs asm_empty [] =
    Some (buf, map (trim B) ps) \<and> pending buf = []"
proof -
  have ok: "write_ok asm_empty" and pend: "pending asm_empty = []"
    by (simp_all add: write_ok_def asm_empty_def pending_def)
  show ?thesis
    using comms_write_all_stream [OF ok, of B "\<lambda>p sent. Some (sent @ [p])" cs "[]"]
    by (auto simp: pend assms(2) split_wire [OF assms(1)] send_log [OF assms(1)])
qed

text \<open>The one way a write leaves its buffers: a complete packet whose length code promises
  more bytes than the packet structure has. Nothing in the code excludes it - in a build without
  CAN FD any of the length codes 9 to 15 from the host writes past the structure on the stack.\<close>

lemma comms_write_overflow:
  assumes "write_ok buf" and "\<forall>p s. send p s \<noteq> None"
  shows "comms_can_write B send refresh bytes buf s = None \<longleftrightarrow>
    (\<exists>w \<in> set (fst (split_stream (pending buf @ bytes))).
       CANPACKET_HEAD_SIZE + CANPACKET_DATA_SIZE_MAX B < length w)"
proof -
  have all: "send_all B send ws s = None \<longleftrightarrow> (\<exists>w \<in> set ws. packet_from B w = None)" for ws
  proof (induction ws arbitrary: s)
    case (Cons w ws)
    show ?case
    proof (cases "packet_from B w")
      case (Some p)
      moreover obtain s1 where "send p s = Some s1" using assms(2) by blast
      ultimately show ?thesis by (simp add: Cons.IH)
    qed simp
  qed simp
  show ?thesis
    using comms_can_write_stream [OF assms(1), where B = B and send = send and bytes = bytes and s = s
        and refresh = refresh] all [of "fst (split_stream (pending buf @ bytes))"]
    unfolding packet_from_some
    by (cases "send_all B send (fst (split_stream (pending buf @ bytes))) s") auto
qed

subsection \<open>Examples\<close>

definition lkas_packet :: CANPacket where
  "lkas_packet = \<lparr>fd = False, bus = 0, data_len_code = 8, rejected = False, returned = False,
     extended = False, addr = 0x243, checksum = 0x17, data = [1, 2, 3, 4, 5, 6, 7, 8]\<rparr>"

definition bus2_packet :: CANPacket where
  "bus2_packet = \<lparr>fd = False, bus = 2, data_len_code = 2, rejected = False, returned = True,
     extended = False, addr = 0x440, checksum = 0, data = [9, 10, 0, 0, 0, 0, 0, 0]\<rparr>"

lemma comms_read_exact_witness:
  "\<exists>buf q buf' q' out. read_ok buf q \<and> comms_read_all [5, 16, 30] buf q = Some (out, buf', q') \<and>
     out = frame_bytes lkas_packet @ frame_bytes bus2_packet"
proof -
  define q where "q = snd (can_push (snd (can_push (can_buffer lkas_packet 4) lkas_packet)) bus2_packet)"
  have ring: "ring_ok q" unfolding q_def
    by (intro ring.enq_ok can_buffer_ok) simp_all
  have lst: "ring_list q = [lkas_packet, bus2_packet]" unfolding q_def by code_simp
  have fits: "list_all fits [lkas_packet, bus2_packet]" by code_simp
  have ok: "read_ok asm_empty q" using ring lst fits by (simp add: read_ok_def asm_empty_def)
  have "read_stream asm_empty q = frame_bytes lkas_packet @ frame_bytes bus2_packet"
    by (simp add: read_stream_def pending_def asm_empty_def lst)
  moreover have "length (frame_bytes lkas_packet @ frame_bytes bus2_packet) \<le> 51" by code_simp
  moreover obtain buf' q' where "comms_read_all [5, 16, 30] asm_empty q =
      Some (take (sum_list [5, 16, 30]) (read_stream asm_empty q), buf', q')"
    using comms_read_exact [OF ok, of "[5, 16, 30]"] by blast
  ultimately show ?thesis using ok
    by (intro exI [of _ asm_empty] exI [of _ q] exI [of _ buf'] exI [of _ q']) simp
qed

lemma comms_write_chunks_witness:
  "\<exists>buf cs (s :: CANPacket list). write_ok buf \<and> cs = [[0x80, 0x18], [0x12, 0, 0], [0x17, 1, 2, 3, 4, 5, 6, 7, 8, 0x20]] \<and>
     map_option (\<lambda>(buf, s). (pending buf, s)) (comms_write_all build_f407 (\<lambda>p sent. Some (sent @ [p])) cs buf s) =
     Some ([0x20], [lkas_packet])"
proof -
  define cs :: "u8 list list" where "cs = [[0x80, 0x18], [0x12, 0, 0], [0x17, 1, 2, 3, 4, 5, 6, 7, 8, 0x20]]"
  have ok: "write_ok asm_empty" by (simp add: write_ok_def asm_empty_def)
  have "map_option (\<lambda>(buf, s). (pending buf, s))
      (comms_can_write build_f407 (\<lambda>p sent. Some (sent @ [p])) id (concat cs) asm_empty []) =
      Some ([0x20], [lkas_packet])"
    unfolding cs_def lkas_packet_def by code_simp
  with comms_write_chunks [OF ok, of build_f407 "\<lambda>p sent. Some (sent @ [p])" cs "[]"] ok show ?thesis
    by (intro exI [of _ asm_empty] exI [of _ cs] exI [of _ "[]"]) (simp add: cs_def)
qed

lemma comms_write_roundtrip_witness:
  "\<exists>cs buf. comms_write_all build_f407 (\<lambda>p sent. Some (sent @ [p])) cs asm_empty [] =
     Some (buf, [lkas_packet, bus2_packet]) \<and> length cs = 3"
proof -
  define ps where "ps = [lkas_packet, bus2_packet]"
  define bytes where "bytes = concat (map (\<lambda>p. take (wire_len p) (packet_bytes p)) ps)"
  define cs where "cs = [take 3 bytes, [], drop 3 bytes]"
  have wf: "\<forall>p \<in> set ps. wf_packet build_f407 p \<and> fits p" unfolding ps_def by code_simp
  have "concat cs = bytes" by (simp add: cs_def)
  moreover have "map (trim build_f407) ps = ps" unfolding ps_def by code_simp
  ultimately obtain buf where
    "comms_write_all build_f407 (\<lambda>p sent. Some (sent @ [p])) cs asm_empty [] = Some (buf, ps)"
    using comms_write_roundtrip [OF wf, of cs] unfolding bytes_def by auto
  then show ?thesis by (intro exI [of _ cs] exI [of _ buf]) (simp add: ps_def cs_def)
qed

lemma comms_write_overflow_witness:
  "\<exists>buf bytes. write_ok buf \<and> bytes = 0x90 # replicate 17 0 \<and>
     comms_can_write build_f407 (\<lambda>p sent. Some (sent @ [p])) id bytes buf [] = None"
proof -
  define bytes :: "u8 list" where "bytes = 0x90 # replicate 17 0"
  have ok: "write_ok asm_empty" by (simp add: write_ok_def asm_empty_def)
  have "fst (split_stream (pending asm_empty @ bytes)) = [bytes]"
    unfolding bytes_def by code_simp
  moreover have "CANPACKET_HEAD_SIZE + CANPACKET_DATA_SIZE_MAX build_f407 < length bytes"
    unfolding bytes_def by code_simp
  ultimately have "comms_can_write build_f407 (\<lambda>p sent. Some (sent @ [p])) id bytes asm_empty [] = None"
    by (subst comms_write_overflow [OF ok]) auto
  with ok show ?thesis by (intro exI [of _ asm_empty] exI [of _ bytes]) (simp add: bytes_def)
qed

end
