(* ===== verification/Vehicle_State.thy ===== *)
theory Vehicle_State
  imports Prelude
begin

text \<open>
  The on-device decoding of Mazda signals (\<^verbatim>\<open>firmware/board/vehicle_state.h\<close>): a bit walker for
  big-endian signals, and the structure served to the host. The lemmas relate the walker to
  the integer the eight bytes spell, and give the exact range in which each conversion to a
  narrower type keeps its value.
\<close>

record VehicleState_t =
  vs_counter :: u16
  steer_angle :: u16     \<comment> \<open>\<open>int16_t\<close>\<close>
  steer_rate :: u16      \<comment> \<open>\<open>int16_t\<close>\<close>
  steer_torque :: u16    \<comment> \<open>\<open>int16_t\<close>\<close>
  torque_sensor :: u8    \<comment> \<open>\<open>int8_t\<close>\<close>
  vs_speed :: u16
  rpm :: u16
  pedal_gas :: u16
  wheel_fl :: u16
  wheel_fr :: u16
  wheel_rl :: u16
  wheel_rr :: u16
  rx_frames :: u32

definition vehicle_state_init :: VehicleState_t where
  "vehicle_state_init = \<lparr>vs_counter = 0, steer_angle = 0, steer_rate = 0, steer_torque = 0,
     torque_sensor = 0, vs_speed = 0, rpm = 0, pedal_gas = 0, wheel_fl = 0, wheel_fr = 0,
     wheel_rl = 0, wheel_rr = 0, rx_frames = 0\<rparr>"

text \<open>The walk goes from bit 7 to bit 0 of a byte and on to the next byte, and stops at the end
  of the eight bytes.\<close>

fun vs_sig_loop :: "u8 list \<Rightarrow> nat \<Rightarrow> nat \<Rightarrow> nat \<Rightarrow> u32 \<Rightarrow> u32" where
  "vs_sig_loop d 0 byte_i bit_i val = val"
| "vs_sig_loop d (Suc n) byte_i bit_i val =
     (if byte_i \<ge> 8 then val
      else
        let val = push_bit 1 val OR (ucast (drop_bit bit_i (d ! byte_i)) AND 1)
        in if bit_i = 0 then vs_sig_loop d n (byte_i + 1) 7 val
           else vs_sig_loop d n byte_i (bit_i - 1) val)"

definition vs_sig :: "u8 list \<Rightarrow> nat \<Rightarrow> nat \<Rightarrow> u32" where
  "vs_sig d start_bit len = vs_sig_loop d len (start_bit div 8) (start_bit mod 8) 0"

definition vehicle_state_update :: "int \<Rightarrow> u8 list \<Rightarrow> VehicleState_t \<Rightarrow> VehicleState_t" where
  "vehicle_state_update a d v =
     (let sig = (\<lambda>start len. uint (vs_sig d start len));
          known = a = 0x082 \<or> a = 0x241 \<or> a = 0x240 \<or> a = 0x202 \<or> a = 0x215;
          v = (if a = 0x082 then
                 v\<lparr>steer_angle := word_of_int (sig 23 16 * 5 div 10 - 16000)\<rparr>
               else if a = 0x241 then
                 v\<lparr>steer_rate := word_of_int (sig 23 16 * 25 div 10 - 81920)\<rparr>
               else if a = 0x240 then
                 let raw = sig 46 15;
                     sgn = (if raw AND 0x4000 \<noteq> 0 then raw - 32768 else raw)
                 in v\<lparr>steer_torque := word_of_int sgn, torque_sensor := word_of_int (sig 7 8 - 127)\<rparr>
               else if a = 0x202 then
                 v\<lparr>rpm := word_of_int (sig 7 16 div 4), vs_speed := word_of_int (sig 23 16),
                   pedal_gas := word_of_int (sig 39 12)\<rparr>
               else if a = 0x215 then
                 v\<lparr>wheel_fl := word_of_int (sig 7 16), wheel_fr := word_of_int (sig 23 16),
                   wheel_rl := word_of_int (sig 39 16), wheel_rr := word_of_int (sig 55 16)\<rparr>
               else v)
      in if known then v\<lparr>vs_counter := vs_counter v + 1, rx_frames := rx_frames v + 1\<rparr> else v)"

subsection \<open>The walker and the integer the bytes spell\<close>

definition be_int :: "u8 list \<Rightarrow> nat" where
  "be_int d = fold (\<lambda>b n. 256 * n + unat b) d 0"

text \<open>The signal of \<open>len\<close> bits from \<open>start\<close>, counted from the most significant bit of the
  message.\<close>

definition be_field :: "u8 list \<Rightarrow> nat \<Rightarrow> nat \<Rightarrow> nat" where
  "be_field d start_bit len =
     be_int d div 2 ^ (64 - (8 * (start_bit div 8) + (7 - start_bit mod 8)) - len) mod 2 ^ len"

definition be_bit :: "u8 list \<Rightarrow> nat \<Rightarrow> bool" where
  "be_bit d i = bit (d ! (i div 8)) (7 - i mod 8)"

lemma fold_be: "fold (\<lambda>b n. 256 * n + unat b) ds n = n * 256 ^ length ds + be_int ds"
proof (induction ds arbitrary: n)
  case (Cons b ds)
  show ?case
    using Cons.IH [of "256 * n + unat b"] Cons.IH [of "unat b"]
    by (simp add: be_int_def algebra_simps)
qed (simp add: be_int_def)

lemma be_int_snoc: "be_int (ds @ [b]) = 256 * be_int ds + unat (b :: u8)"
  by (simp add: be_int_def)

lemma be_int_bit:
  "i < 8 * length ds \<Longrightarrow> bit (be_int ds) (8 * length ds - 1 - i) = be_bit ds i"
proof (induction ds arbitrary: i rule: rev_induct)
  case Nil
  then show ?case by simp
next
  case (snoc b ds)
  have b: "be_int (ds @ [b]) = push_bit 8 (be_int ds) OR unat b"
  proof -
    have "8 \<le> n \<Longrightarrow> \<not> bit b n" for n
      using bit_imp_le_length [of b n] by auto
    then have "push_bit 8 (be_int ds) AND unat b = 0"
      by (intro bit_eqI) (auto simp: bit_simps)
    then show ?thesis
      by (simp add: be_int_snoc disjunctive_add_eq_or [symmetric] push_bit_eq_mult)
  qed
  show ?case
  proof (cases "i < 8 * length ds")
    case True
    then have pos: "8 * length (ds @ [b]) - 1 - i = 8 + (8 * length ds - 1 - i)" by simp
    have high: "\<not> bit (unat b) (8 + k)" for k
      using bit_imp_le_length [of b "8 + k"] by (auto simp: bit_unsigned_iff)
    have "bit (be_int (ds @ [b])) (8 + m) = bit (be_int ds) m" for m
      using high [of m] by (simp add: b bit_or_iff bit_push_bit_iff)
    moreover have "i div 8 < length ds"
      using True less_mult_imp_div_less [of i "length ds" 8] by (simp only: mult.commute)
    ultimately show ?thesis
      using snoc.IH [OF True] by (simp only: pos be_bit_def nth_append if_True)
  next
    case False
    define j where "j = i - 8 * length ds"
    have j: "i = 8 * length ds + j" "j < 8" using False snoc.prems by (simp_all add: j_def)
    then have "8 * length (ds @ [b]) - 1 - i = 7 - j" "i div 8 = length ds" "i mod 8 = j" by auto
    moreover from j(2) have "\<not> 8 \<le> 7 - j" by simp
    ultimately show ?thesis using j(2) by (simp add: b bit_simps be_bit_def)
  qed
qed

lemma walk_bits:
  "length d = 8 \<Longrightarrow> i + n \<le> 64 \<Longrightarrow> k < 32 \<Longrightarrow>
    bit (vs_sig_loop d n (i div 8) (7 - i mod 8) val) k =
      (if k < n then be_bit d (i + n - 1 - k) else bit val (k - n))"
proof (induction n arbitrary: i val)
  case 0
  then show ?case by simp
next
  case (Suc n)
  let ?b = "d ! (i div 8)" and ?j = "7 - i mod 8"
  let ?val = "push_bit 1 val OR (ucast (drop_bit ?j ?b) AND 1)"
  have i8: "i div 8 < 8" using Suc.prems(2) by simp
  have step: "vs_sig_loop d (Suc n) (i div 8) ?j val =
      vs_sig_loop d n ((i + 1) div 8) (7 - (i + 1) mod 8) ?val"
  proof (cases "i mod 8 = 7")
    case True
    then have "(i + 1) div 8 = i div 8 + 1" "(i + 1) mod 8 = 0" by (simp_all add: div_Suc mod_Suc)
    with True i8 show ?thesis by simp
  next
    case False
    then have "(i + 1) div 8 = i div 8" "(i + 1) mod 8 = i mod 8 + 1" "?j \<noteq> 0"
      using mod_less_divisor [of 8 i] by (simp_all add: div_Suc mod_Suc)
    with i8 show ?thesis by simp
  qed
  have head: "bit ?val k = (if k = 0 then be_bit d i else bit val (k - 1))" if "k < 32" for k
    using that by (auto simp: bit_simps be_bit_def mult.commute [of val 2] bit_double_iff)
  show ?case
  proof (cases "k < n")
    case True
    then show ?thesis using Suc.IH [of "i + 1" ?val] Suc.prems unfolding step by simp
  next
    case False
    then have "bit (vs_sig_loop d (Suc n) (i div 8) ?j val) k = bit ?val (k - n)"
      using Suc.IH [of "i + 1" ?val] Suc.prems unfolding step by simp
    with False Suc.prems head [of "k - n"] show ?thesis by (cases "k = n") auto
  qed
qed

lemma byte_pos:
  assumes "r < (8::nat)"
  shows "(8 * a + (7 - r)) div 8 = a" "7 - (8 * a + (7 - r)) mod 8 = r"
proof -
  define j where "j = 7 - r"
  have "j < 8" "r = 7 - j" using assms by (simp_all add: j_def)
  then show "(8 * a + (7 - r)) div 8 = a" "7 - (8 * a + (7 - r)) mod 8 = r"
    unfolding j_def [symmetric] by simp_all
qed

lemma vs_sig_field:
  assumes "length d = 8" and "start < 64" and "len \<le> 32"
    and "8 * (start div 8) + (7 - start mod 8) + len \<le> 64"
  shows "unat (vs_sig d start len) = be_field d start len"
proof (rule bit_eqI)
  fix k
  define i where "i = 8 * (start div 8) + (7 - start mod 8)"
  have i: "i div 8 = start div 8" "7 - i mod 8 = start mod 8" "i + len \<le> 64"
    using assms(4) byte_pos [of "start mod 8" "start div 8"] by (simp_all only: i_def)
  have field: "be_field d start len = take_bit len (drop_bit (64 - i - len) (be_int d))"
    by (simp add: be_field_def i_def take_bit_eq_mod drop_bit_eq_div)
  show "bit (unat (vs_sig d start len)) k = bit (be_field d start len) k"
  proof (cases "k < 32")
    case True
    have "bit (vs_sig d start len) k = (k < len \<and> be_bit d (i + len - 1 - k))"
      using walk_bits [OF assms(1) i(3) True, of 0] by (simp add: vs_sig_def i)
    moreover have "bit (be_int d) (64 - i - len + k) = be_bit d (i + len - 1 - k)" if "k < len"
    proof -
      have "i + len - 1 - k < 8 * length d" "8 * length d - 1 - (i + len - 1 - k) = 64 - i - len + k"
        using that assms(1) i(3) by simp_all
      then show ?thesis using be_int_bit [of "i + len - 1 - k" d] by simp
    qed
    ultimately show ?thesis using True by (auto simp: field bit_simps)
  next
    case False
    then show ?thesis using assms(3) bit_imp_le_length [of "vs_sig d start len" k]
      by (auto simp: field bit_simps)
  qed
qed

subsection \<open>Properties\<close>

text \<open>The bit walker reads what the signal database means: for every signal that lies in the
  eight bytes, the field of the big-endian integer they spell. So the decoded steering angle is
  exact for every frame (its conversion to 16 bits never wraps), while the steering rate keeps
  its value only for raw values from 19661 to 45875 and the driver torque of raw 255 wraps from
  128 to -128.\<close>

lemma vehicle_decoding:
  assumes "length d = 8"
  shows "(start < 64 \<and> len \<le> 32 \<and> 8 * (start div 8) + (7 - start mod 8) + len \<le> 64 \<longrightarrow>
      unat (vs_sig d start len) = be_field d start len) \<and>
    sint (steer_angle (vehicle_state_update 0x082 d v)) = int (be_field d 23 16) * 5 div 10 - 16000 \<and>
    (sint (steer_rate (vehicle_state_update 0x241 d v)) = int (be_field d 23 16) * 25 div 10 - 81920 \<longleftrightarrow>
       19661 \<le> be_field d 23 16 \<and> be_field d 23 16 \<le> 45875) \<and>
    (sint (torque_sensor (vehicle_state_update 0x240 d v)) = int (be_field d 7 8) - 127 \<longleftrightarrow>
       be_field d 7 8 \<noteq> 255)"
proof (intro conjI impI)
  have sig: "uint (vs_sig d start len) = int (be_field d start len)"
    if "start < 64" "len \<le> 32" "8 * (start div 8) + (7 - start mod 8) + len \<le> 64" for start len
    using vs_sig_field [OF assms that] by (metis uint_nat)
  have bound: "be_field d start len < 2 ^ len" for start len by (simp add: be_field_def)
  define a where "a = int (be_field d 23 16)"
  define t where "t = int (be_field d 7 8)"
  have a: "0 \<le> a" "a < 65536" "uint (vs_sig d 23 16) = a"
    using bound [of 23 16] sig [of 23 16] by (simp_all add: a_def)
  have t: "0 \<le> t" "t < 256" "uint (vs_sig d 7 8) = t"
    using bound [of 7 8] sig [of 7 8] by (simp_all add: t_def)
  have sint16: "sint (word_of_int x :: u16) = x \<longleftrightarrow> - 32768 \<le> x \<and> x < 32768" for x
    using signed_take_bit_int_eq_self_iff [of 15 x] by (simp add: signed_of_int)
  have sint8: "sint (word_of_int x :: u8) = x \<longleftrightarrow> - 128 \<le> x \<and> x < 128" for x
    using signed_take_bit_int_eq_self_iff [of 7 x] by (simp add: signed_of_int)
  show "unat (vs_sig d start len) = be_field d start len"
    if "start < 64 \<and> len \<le> 32 \<and> 8 * (start div 8) + (7 - start mod 8) + len \<le> 64"
    using that by (intro vs_sig_field [OF assms]) simp_all
  show "sint (steer_angle (vehicle_state_update 0x082 d v)) = int (be_field d 23 16) * 5 div 10 - 16000"
    using sint16 [of "a * 5 div 10 - 16000"] a
    by (simp add: vehicle_state_update_def a_def [symmetric])
  show "(sint (steer_rate (vehicle_state_update 0x241 d v)) = int (be_field d 23 16) * 25 div 10 - 81920) =
      (19661 \<le> be_field d 23 16 \<and> be_field d 23 16 \<le> 45875)"
  proof -
    have e: "steer_rate (vehicle_state_update 0x241 d v) = word_of_int (a * 25 div 10 - 81920)"
      using a by (simp add: vehicle_state_update_def)
    have "- 32768 \<le> a * 25 div 10 - 81920 \<and> a * 25 div 10 - 81920 < 32768 \<longleftrightarrow> 19661 \<le> a \<and> a \<le> 45875"
    proof -
      define x where "x = a * 25"
      define q where "q = x div 10"
      define r where "r = x mod 10"
      have "q * 10 + r = x" "0 \<le> r" "r < 10" by (simp_all add: q_def r_def)
      then show ?thesis unfolding x_def [symmetric] q_def [symmetric]
        by (intro iffI conjI; elim conjE; use x_def in linarith)
    qed
    then have "sint (steer_rate (vehicle_state_update 0x241 d v)) = a * 25 div 10 - 81920 \<longleftrightarrow> 19661 \<le> a \<and> a \<le> 45875"
      unfolding e sint16 .
    then show ?thesis unfolding a_def by linarith
  qed
  show "(sint (torque_sensor (vehicle_state_update 0x240 d v)) = int (be_field d 7 8) - 127) =
      (be_field d 7 8 \<noteq> 255)"
  proof -
    have "sint (torque_sensor (vehicle_state_update 0x240 d v)) = t - 127 \<longleftrightarrow> t \<noteq> 255"
      using sint8 [of "t - 127"] t by (simp add: vehicle_state_update_def Let_def) linarith
    then show ?thesis unfolding t_def by linarith
  qed
qed

lemma vehicle_decoding_witness:
  "\<exists>d. length d = 8 \<and> sint (steer_angle (vehicle_state_update 0x082 d vehicle_state_init)) = 384 \<and>
    be_field d 23 16 = 0x8000"
proof -
  define d :: "u8 list" where "d = [1, 2, 0x80, 0, 5, 6, 7, 8]"
  have "length d = 8" "be_field d 23 16 = 0x8000"
    by (simp_all add: d_def be_field_def be_int_def)
  moreover from this(1) have "sint (steer_angle (vehicle_state_update 0x082 d vehicle_state_init)) =
      int (be_field d 23 16) * 5 div 10 - 16000"
    using vehicle_decoding [of d 23 16 vehicle_state_init] by blast
  ultimately show ?thesis by (intro exI [of _ d]) simp
qed

end
