(* ===== verification/Can_Driver.thy ===== *)
theory Can_Driver
  imports Can_Comms Vehicle_State Safety_System
begin

text \<open>
  The CAN driver of the firmware (\<^verbatim>\<open>firmware/board/drivers/can_common.h\<close>, \<^verbatim>\<open>bxcan.h\<close>,
  \<^verbatim>\<open>mazda_filter.h\<close>): sending through the safety layer, the transmit and receive interrupts of
  the CAN cores, forwarding, the ignition detection and the filter of the host feed.

  The registers of a core that the code reads or writes are state. What the peripheral does on
  its own is a parameter: the value the transmit status register reads back after a write, and
  after a transmission request. Frames waiting in a receive FIFO are a list of register images;
  releasing the mailbox drops its head. An access outside an array is \<open>None\<close>.
\<close>

subsection \<open>Configuration and state\<close>

record fw_build =
  sb :: build
  STM32F446 :: bool
  STM32F407 :: bool
  MAZDA_FILTER :: bool
  MAZDA_HOST_CENSUS :: bool
  PANDA_SERIAL_LINK :: bool

definition PANDA_CAN_CNT :: nat where "PANDA_CAN_CNT = 3"
definition PANDA_BUS_CNT :: nat where "PANDA_BUS_CNT = 3"
definition F446_CAN_CNT :: nat where "F446_CAN_CNT = 2"

definition CAN_RX_BUFFER_SIZE :: "fw_build \<Rightarrow> nat" where
  "CAN_RX_BUFFER_SIZE F = (if STM32F446 F \<or> STM32F407 F then 2048 else 4096)"

definition CAN_TX_BUFFER_SIZE :: "fw_build \<Rightarrow> nat" where
  "CAN_TX_BUFFER_SIZE F = (if STM32F446 F \<or> STM32F407 F then 128 else 416)"

record bus_config_t =
  bus_lookup :: nat
  can_num_lookup :: nat
  forwarding_bus :: int
  can_speed :: u32
  can_data_speed :: u32
  canfd_auto :: bool
  canfd_enabled :: bool
  brs_enabled :: bool
  canfd_non_iso :: bool

definition bus_cfg :: "nat \<Rightarrow> nat \<Rightarrow> u32 \<Rightarrow> u32 \<Rightarrow> bus_config_t" where
  "bus_cfg b c speed data_speed = \<lparr>bus_lookup = b, can_num_lookup = c, forwarding_bus = -1,
     can_speed = speed, can_data_speed = data_speed, canfd_auto = False, canfd_enabled = False,
     brs_enabled = False, canfd_non_iso = False\<rparr>"

definition bus_config_init :: "fw_build \<Rightarrow> bus_config_t list" where
  "bus_config_init F =
     (if STM32F446 F
      then [bus_cfg 0 0 5000 20000, bus_cfg 2 0xFF 5000 20000, bus_cfg 0xFF 1 5000 20000,
            bus_cfg 0xFF 0xFF 333 333]
      else [bus_cfg 0 0 5000 20000, bus_cfg 1 1 5000 20000, bus_cfg 2 2 5000 20000,
            bus_cfg 0xFF 0xFF 333 333])"

definition can_set_orientation :: "fw_build \<Rightarrow> bool \<Rightarrow> bus_config_t list \<Rightarrow> bus_config_t list" where
  "can_set_orientation F flipped cfg =
     (if STM32F446 F then cfg
      else
        let cfg = cfg[0 := (cfg ! 0)\<lparr>bus_lookup := if flipped then 2 else 0,
                                      can_num_lookup := if flipped then 2 else 0\<rparr>]
        in cfg[2 := (cfg ! 2)\<lparr>bus_lookup := if flipped then 0 else 2,
                               can_num_lookup := if flipped then 0 else 2\<rparr>])"

text \<open>The counters of \<open>can_health_t\<close> that the driver keeps.\<close>

record can_health_t =
  bus_off :: u32
  bus_off_cnt :: u32
  error_warning :: u32
  error_passive :: u32
  last_error :: u32
  last_stored_error :: u32
  receive_error_cnt :: u32
  transmit_error_cnt :: u32
  total_error_cnt :: u32
  total_tx_lost_cnt :: u32
  total_rx_lost_cnt :: u32
  total_tx_cnt :: u32
  total_rx_cnt :: u32
  total_fwd_cnt :: u32
  total_tx_checksum_error_cnt :: u32
  can_core_reset_cnt :: u32

text \<open>A receive mailbox: the identifier, length and data registers.\<close>

record rx_mailbox =
  RIR :: u32
  RDTR :: u32
  RDLR :: u32
  RDHR :: u32

record can_core =
  TSR :: u32
  TIR :: u32
  TDTR :: u32
  TDLR :: u32
  TDHR :: u32
  ESR :: u32
  fifo_overrun :: bool
  rx_fifo :: "rx_mailbox list"
  core_speed :: u32
  core_loopback :: bool
  core_silent :: bool

record can_hw =
  tsr_write :: "u32 \<Rightarrow> u32"      \<comment> \<open>what TSR reads after a value was written to it\<close>
  tsr_request :: "u32 \<Rightarrow> u32"    \<comment> \<open>what TSR reads after a transmission request\<close>
  stack_bytes :: "u8 list"       \<comment> \<open>the content of an uninitialised data array\<close>
  set_speed_ok :: bool           \<comment> \<open>the core enters and leaves its initialisation mode in time\<close>
  init_ok :: bool

record can_state =
  safety :: safety_state
  can_rx_q :: "CANPacket can_ring"
  can_queues :: "CANPacket can_ring list"
  bus_config :: "bus_config_t list"
  can_health :: "can_health_t list"
  cans :: "can_core list"
  can_irq :: "bool list"  \<comment> \<open>the interrupts of a core are enabled\<close>
  safety_tx_blocked :: u32
  safety_rx_invalid :: u32
  tx_buffer_overflow :: u32
  rx_buffer_overflow :: u32
  ignition_can :: bool
  ignition_can_cnt :: u32
  prev_counter_rivian :: int
  prev_counter_tesla :: int
  pending_can_live :: int
  can_silent :: int
  can_loopback :: bool
  vstate :: VehicleState_t
  usb_resumed :: bool     \<comment> \<open>\<open>can_tx_comms_resume_usb\<close> was called\<close>
  spi_resumed :: bool

text \<open>Two of the boards have two cores; the third entry of \<open>cans\<close> is the second core again.\<close>

definition CANIF_FROM_CAN_NUM :: "fw_build \<Rightarrow> nat \<Rightarrow> nat" where
  "CANIF_FROM_CAN_NUM F n = (if n = 2 \<and> (STM32F446 F \<or> STM32F407 F) then 1 else n)"

definition upd_health :: "nat \<Rightarrow> (can_health_t \<Rightarrow> can_health_t) \<Rightarrow> can_state \<Rightarrow> can_state" where
  "upd_health n f st = st\<lparr>can_health := (can_health st)[n := f (can_health st ! n)]\<rparr>"

definition upd_core :: "nat \<Rightarrow> (can_core \<Rightarrow> can_core) \<Rightarrow> can_state \<Rightarrow> can_state" where
  "upd_core n f st = st\<lparr>cans := (cans st)[n := f (cans st ! n)]\<rparr>"

subsection \<open>Host transfers held back until the queues have room\<close>

definition can_tx_check_min_slots_free :: "u32 \<Rightarrow> can_state \<Rightarrow> bool" where
  "can_tx_check_min_slots_free n st \<longleftrightarrow> list_all (\<lambda>q. can_slots_empty q \<ge> n) (can_queues st)"

definition refresh_can_tx_slots_available :: "can_state \<Rightarrow> can_state" where
  "refresh_can_tx_slots_available st =
     (let st = (if can_tx_check_min_slots_free 51 st then st\<lparr>usb_resumed := True\<rparr> else st)
      in if can_tx_check_min_slots_free 170 st then st\<lparr>spi_resumed := True\<rparr> else st)"

definition push_rx :: "CANPacket \<Rightarrow> can_state \<Rightarrow> can_state" where
  "push_rx p st =
     (let (done, q) = can_push (can_rx_q st) p
      in st\<lparr>can_rx_q := q, rx_buffer_overflow := rx_buffer_overflow st + (if done then 0 else 1)\<rparr>)"

subsection \<open>The filter of the host feed\<close>

definition MAZDA_HOST_IDS :: "int list" where
  "MAZDA_HOST_IDS = [0x078, 0x082, 0x09A, 0x09D, 0x165, 0x202, 0x215, 0x21B, 0x21C, 0x21F, 0x228,
     0x240, 0x241, 0x243, 0x340, 0x43E, 0x440, 0x477, 0x76C, 0x361, 0x362, 0x363, 0x364, 0x365,
     0x366, 0x499]"

definition mazda_cam_host_visible :: "int \<Rightarrow> bool" where
  "mazda_cam_host_visible a \<longleftrightarrow> a = 0x243 \<or> a = 0x440"

definition mazda_host_visible :: "fw_build \<Rightarrow> int \<Rightarrow> bool" where
  "mazda_host_visible F a = (if MAZDA_HOST_CENSUS F then True else list_ex (\<lambda>i. i = a) MAZDA_HOST_IDS)"

subsection \<open>Mailbox registers\<close>

definition word_bytes :: "u32 \<Rightarrow> u8 list" where
  "word_bytes w = map (\<lambda>i. ucast (drop_bit (8 * i) w)) [0..<4]"

definition word_of_bytes :: "u8 list \<Rightarrow> u32" where
  "word_of_bytes bs = ucast (bs ! 0) OR push_bit 8 (ucast (bs ! 1)) OR
     push_bit 16 (ucast (bs ! 2)) OR push_bit 24 (ucast (bs ! 3))"

text \<open>The packet a mailbox describes, before its checksum is set; \<open>ext\<close> is bit 2 of the
  identifier register.\<close>

definition packet_of_mailbox :: "u32 \<Rightarrow> u32 \<Rightarrow> u32 \<Rightarrow> u32 \<Rightarrow> nat \<Rightarrow> bool \<Rightarrow> CANPacket" where
  "packet_of_mailbox ir dtr dlr dhr bus_number is_echo =
     \<lparr>fd = False, bus = int bus_number mod 8, data_len_code = unat (dtr AND 0xF), rejected = False,
       returned = is_echo, extended = bit ir 2,
       addr = (if bit ir 2 then uint (drop_bit 3 ir) else uint (drop_bit 21 ir)), checksum = 0,
       data = word_bytes dlr @ word_bytes dhr\<rparr>"

definition tir_of_packet :: "CANPacket \<Rightarrow> u32" where
  "tir_of_packet p =
     word_of_int (if extended p then addr p * 2 ^ 3 else addr p * 2 ^ 21) OR (if extended p then 4 else 0)"

subsection \<open>The transmit interrupt\<close>

text \<open>A finished transmission is echoed to the host, then the next packet of the queue is put
  into the mailbox if its checksum is right.\<close>

definition process_echo :: "fw_build \<Rightarrow> nat \<Rightarrow> can_core \<Rightarrow> can_state \<Rightarrow> can_state option" where
  "process_echo F bus_number c st =
     do { to_push \<leftarrow> can_set_checksum (packet_of_mailbox (TIR c) (TDTR c) (TDLR c) (TDHR c) bus_number True);
          Some (if \<not> MAZDA_FILTER F \<or> (bus_number = 0 \<and> mazda_host_visible F (addr to_push))
                then push_rx to_push st else st) }"

definition load_mailbox :: "can_hw \<Rightarrow> CANPacket \<Rightarrow> can_core \<Rightarrow> can_core" where
  "load_mailbox hw p c = c\<lparr>TIR := tir_of_packet p OR 1, TDTR := of_nat (data_len_code p),
     TDLR := word_of_bytes (take 4 (data p)), TDHR := word_of_bytes (take 4 (drop 4 (data p))),
     TSR := tsr_request hw (TSR c)\<rparr>"

definition process_next :: "can_hw \<Rightarrow> nat \<Rightarrow> nat \<Rightarrow> nat \<Rightarrow> can_state \<Rightarrow> can_state option" where
  "process_next hw can_number core bus_number st =
     (if length (can_queues st) \<le> bus_number then None
      else case can_pop (can_queues st ! bus_number) of
        (None, _) \<Rightarrow> Some st
      | (Some to_send, q) \<Rightarrow>
          let st = st\<lparr>can_queues := (can_queues st)[bus_number := q]\<rparr>
          in do { good \<leftarrow> can_check_checksum to_send;
                  let st = (if good then
                        upd_core core (load_mailbox hw to_send)
                          (upd_health can_number (\<lambda>h. h\<lparr>total_tx_cnt := total_tx_cnt h + 1\<rparr>) st)
                      else upd_health can_number
                          (\<lambda>h. h\<lparr>total_tx_checksum_error_cnt := total_tx_checksum_error_cnt h + 1\<rparr>) st);
                  Some (refresh_can_tx_slots_available st) })"

definition clear_tx_error :: "can_hw \<Rightarrow> nat \<Rightarrow> nat \<Rightarrow> can_state \<Rightarrow> can_state" where
  "clear_tx_error hw can_number core st =
     (if TSR (cans st ! core) AND (8 OR 4) \<noteq> 0 then
        upd_core core (\<lambda>c. c\<lparr>TSR := tsr_write hw (TSR c OR (8 OR 4))\<rparr>)
          (upd_health can_number (\<lambda>h. h\<lparr>total_tx_lost_cnt := total_tx_lost_cnt h + 1\<rparr>) st)
      else st)"

definition process_done :: "fw_build \<Rightarrow> can_hw \<Rightarrow> nat \<Rightarrow> nat \<Rightarrow> can_state \<Rightarrow> can_state option" where
  "process_done F hw core bus_number st =
     (if bit (TSR (cans st ! core)) 0 then
        do { st \<leftarrow> (if bit (TSR (cans st ! core)) 1
                   then process_echo F bus_number (cans st ! core) st else Some st);
             Some (upd_core core (\<lambda>c. c\<lparr>TSR := tsr_write hw (TSR c OR 1)\<rparr>) st) }
      else Some st)"

definition process_can :: "fw_build \<Rightarrow> can_hw \<Rightarrow> nat \<Rightarrow> can_state \<Rightarrow> can_state option" where
  "process_can F hw can_number st =
     (if can_number = 0xFF then Some st
      else
        let core = CANIF_FROM_CAN_NUM F can_number;
            bus_number = bus_lookup (bus_config st ! can_number);
            st = clear_tx_error hw can_number core st
        in if bit (TSR (cans st ! core)) 26 then
             do { st \<leftarrow> process_done F hw core bus_number st;
                  process_next hw can_number core bus_number st }
           else Some st)"

subsection \<open>Sending\<close>

text \<open>The host's packets pass the transmit hook of the safety layer; a forwarded frame skips
  it. What the safety layer refuses goes back to the host, marked.\<close>

definition enqueue_tx :: "fw_build \<Rightarrow> can_hw \<Rightarrow> CANPacket \<Rightarrow> nat \<Rightarrow> can_state \<Rightarrow> can_state option" where
  "enqueue_tx F hw to_push bus_number st =
     (if bus_number < PANDA_BUS_CNT then
        let (done, q) = can_push (can_queues st ! bus_number) to_push;
            st = st\<lparr>can_queues := (can_queues st)[bus_number := q],
                    tx_buffer_overflow := tx_buffer_overflow st + (if done then 0 else 1)\<rparr>
        in process_can F hw (can_num_lookup (bus_config st ! bus_number)) st
      else Some st)"

definition reject_tx :: "CANPacket \<Rightarrow> can_state \<Rightarrow> can_state option" where
  "reject_tx to_push st =
     (let st = st\<lparr>safety_tx_blocked := safety_tx_blocked st + 1\<rparr>
      in do { to_push \<leftarrow> can_set_checksum (to_push\<lparr>returned := False, rejected := True\<rparr>);
              Some (push_rx to_push st) })"

definition can_send :: "fw_build \<Rightarrow> can_hw \<Rightarrow> bool \<Rightarrow> nat \<Rightarrow> CANPacket \<Rightarrow> can_state \<Rightarrow> can_state option" where
  "can_send F hw skip_tx_hook bus_number to_push st =
     (if skip_tx_hook then enqueue_tx F hw to_push bus_number st
      else
        let (allowed, s) = safety_tx_hook (hooks_of (sb F)) to_push (safety st);
            st = st\<lparr>safety := s\<rparr>
        in if allowed then enqueue_tx F hw to_push bus_number st else reject_tx to_push st)"

text \<open>The packets of the host, as \<open>comms_can_write\<close> calls it.\<close>

definition host_send :: "fw_build \<Rightarrow> can_hw \<Rightarrow> CANPacket \<Rightarrow> can_state \<Rightarrow> can_state option" where
  "host_send F hw to_push = can_send F hw False (nat (bus to_push)) to_push"

subsection \<open>Ignition\<close>

definition MAZDA_IGNITION_MIN_RPM :: int where "MAZDA_IGNITION_MIN_RPM = 400"

definition set_ignition :: "bool \<Rightarrow> can_state \<Rightarrow> can_state" where
  "set_ignition ign st = st\<lparr>ignition_can := ign, ignition_can_cnt := 0\<rparr>"

text \<open>One function per exception of \<open>ignition_can_hook\<close>, in the order of the code.\<close>

definition ignition_gm :: "CANPacket \<Rightarrow> can_state \<Rightarrow> can_state" where
  "ignition_gm p st =
     (if addr p = 0x1F1 \<and> GET_LEN p = 8 then set_ignition (byte p 0 AND 2 \<noteq> 0) st else st)"

definition ignition_rivian :: "CANPacket \<Rightarrow> can_state \<Rightarrow> can_state" where
  "ignition_rivian p st =
     (if addr p = 0x152 \<and> GET_LEN p = 8 then
        let counter = byte p 1 AND 0xF;
            st = (if counter = (prev_counter_rivian st + 1) mod 15 \<and> prev_counter_rivian st \<noteq> -1
                  then set_ignition ((byte p 7 div 16) AND 3 = 1) st else st)
        in st\<lparr>prev_counter_rivian := counter\<rparr>
      else st)"

definition ignition_tesla :: "CANPacket \<Rightarrow> can_state \<Rightarrow> can_state" where
  "ignition_tesla p st =
     (if addr p = 0x221 \<and> GET_LEN p = 8 then
        let counter = byte p 6 div 16;
            st = (if counter = (prev_counter_tesla st + 1) mod 16 \<and> prev_counter_tesla st \<noteq> -1
                  then set_ignition ((byte p 0 div 32) AND 3 = 3) st else st)
        in st\<lparr>prev_counter_tesla := counter\<rparr>
      else st)"

definition ignition_mazda :: "CANPacket \<Rightarrow> can_state \<Rightarrow> can_state" where
  "ignition_mazda p st =
     (if addr p = 0x9E \<and> GET_LEN p = 8 then set_ignition (byte p 0 div 32 = 6) st else st)"

definition ignition_cx5 :: "fw_build \<Rightarrow> CANPacket \<Rightarrow> can_state \<Rightarrow> can_state" where
  "ignition_cx5 F p st =
     (if PANDA_NUCLEO (sb F) \<and> addr p = 0x202 \<and> GET_LEN p = 8
      then set_ignition ((byte p 0 * 256 + byte p 1) div 4 > MAZDA_IGNITION_MIN_RPM) st else st)"

definition ignition_can_hook :: "fw_build \<Rightarrow> CANPacket \<Rightarrow> can_state \<Rightarrow> can_state" where
  "ignition_can_hook F p st =
     (if bus p = 0 then ignition_cx5 F p (ignition_mazda p (ignition_tesla p (ignition_rivian p (ignition_gm p st))))
      else st)"

subsection \<open>The receive interrupt\<close>

text \<open>The copy that is forwarded: its data beyond the length is whatever the stack held.\<close>

definition forwarded_copy :: "can_hw \<Rightarrow> CANPacket \<Rightarrow> CANPacket option" where
  "forwarded_copy hw to_push =
     do { bytes \<leftarrow> slice (data to_push) 0 (nat (GET_LEN to_push));
          d \<leftarrow> memcpy (stack_bytes hw) 0 bytes;
          can_set_checksum (to_push\<lparr>fd := False, returned := False, rejected := False, data := d\<rparr>) }"

definition host_visible :: "fw_build \<Rightarrow> nat \<Rightarrow> int \<Rightarrow> bool" where
  "host_visible F bus_number a =
     (if bus_number = 0 then mazda_host_visible F a
      else if bus_number = 2 then mazda_cam_host_visible a else True)"

definition can_rx_forward :: "fw_build \<Rightarrow> can_hw \<Rightarrow> nat \<Rightarrow> nat \<Rightarrow> CANPacket \<Rightarrow> can_state \<Rightarrow> can_state option" where
  "can_rx_forward F hw can_number bus_number to_push st =
     (let bus_fwd_num = safety_fwd_hook (hooks_of (sb F)) (int bus_number) (addr to_push) (safety st)
      in if bus_fwd_num \<noteq> -1 then
           do { to_send \<leftarrow> forwarded_copy hw to_push;
                st \<leftarrow> can_send F hw True (nat bus_fwd_num) to_send st;
                Some (upd_health can_number (\<lambda>h. h\<lparr>total_fwd_cnt := total_fwd_cnt h + 1\<rparr>) st) }
         else Some st)"

definition can_rx_hooks :: "fw_build \<Rightarrow> CANPacket \<Rightarrow> can_state \<Rightarrow> can_state" where
  "can_rx_hooks F to_push st =
     (let st = (if PANDA_NUCLEO (sb F)
                then st\<lparr>vstate := vehicle_state_update (addr to_push) (data to_push) (vstate st)\<rparr>
                else st);
          (valid, s) = safety_rx_hook (hooks_of (sb F)) to_push (safety st);
          st = st\<lparr>safety := s, safety_rx_invalid := safety_rx_invalid st + (if valid then 0 else 1)\<rparr>
      in ignition_can_hook F to_push st)"

definition can_rx_frame :: "fw_build \<Rightarrow> can_hw \<Rightarrow> nat \<Rightarrow> rx_mailbox \<Rightarrow> can_state \<Rightarrow> can_state option" where
  "can_rx_frame F hw can_number mb st =
     (let bus_number = bus_lookup (bus_config st ! can_number);
          st = upd_health can_number (\<lambda>h. h\<lparr>total_rx_cnt := total_rx_cnt h + 1\<rparr>) st;
          st = st\<lparr>pending_can_live := 1\<rparr>
      in do { to_push \<leftarrow> can_set_checksum
                (packet_of_mailbox (RIR mb) (RDTR mb) (RDLR mb) (RDHR mb) bus_number False);
              st \<leftarrow> can_rx_forward F hw can_number bus_number to_push st;
              let st = can_rx_hooks F to_push st;
              let st = (if MAZDA_FILTER F \<and> \<not> host_visible F bus_number (addr to_push)
                        then st else push_rx to_push st);
              Some (upd_core (CANIF_FROM_CAN_NUM F can_number) (\<lambda>c. c\<lparr>rx_fifo := tl (rx_fifo c)\<rparr>) st) })"

fun can_rx_loop :: "fw_build \<Rightarrow> can_hw \<Rightarrow> nat \<Rightarrow> rx_mailbox list \<Rightarrow> can_state \<Rightarrow> can_state option" where
  "can_rx_loop F hw can_number [] st = Some st"
| "can_rx_loop F hw can_number (mb # mbs) st =
     do { st \<leftarrow> can_rx_frame F hw can_number mb st; can_rx_loop F hw can_number mbs st }"

definition can_rx :: "fw_build \<Rightarrow> can_hw \<Rightarrow> nat \<Rightarrow> can_state \<Rightarrow> can_state option" where
  "can_rx F hw can_number st =
     (let core = CANIF_FROM_CAN_NUM F can_number;
          st = upd_core core (\<lambda>c. c\<lparr>fifo_overrun := False\<rparr>) st
      in can_rx_loop F hw can_number (rx_fifo (cans st ! core)) st)"

subsection \<open>Error interrupt and initialisation\<close>

text \<open>Aborting the pending transmission of a core.\<close>

definition llcan_clear_send :: "can_hw \<Rightarrow> nat \<Rightarrow> can_state \<Rightarrow> can_state" where
  "llcan_clear_send hw core st = upd_core core (\<lambda>c. c\<lparr>TSR := tsr_write hw (TSR c OR 0x80)\<rparr>) st"

definition can_clear_send :: "can_hw \<Rightarrow> nat \<Rightarrow> nat \<Rightarrow> can_state \<Rightarrow> can_state" where
  "can_clear_send hw core can_number st =
     llcan_clear_send hw core
       (upd_health can_number (\<lambda>h. h\<lparr>can_core_reset_cnt := can_core_reset_cnt h + 1\<rparr>) st)"

definition update_can_health_pkt :: "fw_build \<Rightarrow> can_hw \<Rightarrow> nat \<Rightarrow> u32 \<Rightarrow> can_state \<Rightarrow> can_state" where
  "update_can_health_pkt F hw can_number ir_reg st =
     (let core = CANIF_FROM_CAN_NUM F can_number;
          esr = ESR (cans st ! core);
          lec = drop_bit 4 esr AND 7;
          boff = drop_bit 2 esr AND 1;
          st = upd_health can_number (\<lambda>h. h\<lparr>bus_off := boff, bus_off_cnt := bus_off_cnt h + boff,
                 error_warning := esr AND 1, error_passive := drop_bit 1 esr AND 1, last_error := lec,
                 last_stored_error := if lec \<noteq> 0 \<and> lec \<noteq> 7 then lec else last_stored_error h,
                 receive_error_cnt := drop_bit 24 esr AND 0xFF,
                 transmit_error_cnt := drop_bit 16 esr AND 0xFF\<rparr>) st
      in if ir_reg \<noteq> 0 then
           let st = upd_health can_number (\<lambda>h. h\<lparr>total_error_cnt := total_error_cnt h + 1\<rparr>) st;
               st = (if fifo_overrun (cans st ! core) then
                       upd_core core (\<lambda>c. c\<lparr>fifo_overrun := False\<rparr>)
                         (upd_health can_number (\<lambda>h. h\<lparr>total_rx_lost_cnt := total_rx_lost_cnt h + 1\<rparr>) st)
                     else st)
           in can_clear_send hw core can_number st
         else st)"

definition can_sce :: "fw_build \<Rightarrow> can_hw \<Rightarrow> nat \<Rightarrow> can_state \<Rightarrow> can_state" where
  "can_sce F hw can_number st =
     update_can_health_pkt F hw can_number 1
       (upd_core (CANIF_FROM_CAN_NUM F can_number) (\<lambda>c. c\<lparr>fifo_overrun := False\<rparr>) st)"

text \<open>The register writes of \<open>llcan_set_speed\<close> and \<open>llcan_init\<close> that later code observes.\<close>

definition can_set_speed :: "fw_build \<Rightarrow> can_hw \<Rightarrow> nat \<Rightarrow> can_state \<Rightarrow> can_state" where
  "can_set_speed F hw can_number st =
     (if set_speed_ok hw then
        upd_core (CANIF_FROM_CAN_NUM F can_number)
          (\<lambda>c. c\<lparr>core_speed := can_speed (bus_config st ! bus_lookup (bus_config st ! can_number)),
                 core_loopback := can_loopback st, core_silent := bit (can_silent st) can_number\<rparr>) st
      else st)"

definition llcan_init :: "can_hw \<Rightarrow> nat \<Rightarrow> can_state \<Rightarrow> can_state" where
  "llcan_init hw core st =
     (if init_ok hw then
        (upd_core core (\<lambda>c. c\<lparr>fifo_overrun := False\<rparr>) st)\<lparr>can_irq := (can_irq st)[core := True]\<rparr>
      else st)"

text \<open>The index of the bus configuration is not checked: with a core that serves no bus it is out
  of the array.\<close>

definition can_init :: "fw_build \<Rightarrow> can_hw \<Rightarrow> nat \<Rightarrow> can_state \<Rightarrow> can_state option" where
  "can_init F hw can_number st =
     (if can_number \<noteq> 0xFF then
        if length (bus_config st) \<le> bus_lookup (bus_config st ! can_number) then None
        else process_can F hw can_number
               (llcan_init hw (CANIF_FROM_CAN_NUM F can_number) (can_set_speed F hw can_number st))
      else Some st)"

definition can_init_one :: "fw_build \<Rightarrow> can_hw \<Rightarrow> nat \<Rightarrow> can_state \<Rightarrow> can_state option" where
  "can_init_one F hw i st =
     (let st = (if CANFD (sb F) then st
                else st\<lparr>bus_config := (bus_config st)[i := (bus_config st ! i)\<lparr>can_data_speed := 0\<rparr>]\<rparr>);
          st = refresh_can_tx_slots_available
                 (st\<lparr>can_queues := (can_queues st)[i := can_clear (can_queues st ! i)]\<rparr>)
      in if (STM32F446 F \<or> STM32F407 F) \<and> i \<ge> F446_CAN_CNT then Some st else can_init F hw i st)"

definition can_init_all :: "fw_build \<Rightarrow> can_hw \<Rightarrow> can_state \<Rightarrow> can_state option" where
  "can_init_all F hw st =
     do { st \<leftarrow> can_init_one F hw 0 st; st \<leftarrow> can_init_one F hw 1 st; can_init_one F hw 2 st }"

text \<open>The state before \<open>main\<close> runs: the initialisers of the globals, registers at their reset
  values.\<close>

definition empty_packet :: CANPacket where
  "empty_packet = \<lparr>fd = False, bus = 0, data_len_code = 0, rejected = False, returned = False,
     extended = False, addr = 0, checksum = 0, data = replicate 8 0\<rparr>"

definition can_health_zero :: can_health_t where
  "can_health_zero = \<lparr>bus_off = 0, bus_off_cnt = 0, error_warning = 0, error_passive = 0, last_error = 0,
     last_stored_error = 0, receive_error_cnt = 0, transmit_error_cnt = 0, total_error_cnt = 0,
     total_tx_lost_cnt = 0, total_rx_lost_cnt = 0, total_tx_cnt = 0, total_rx_cnt = 0,
     total_fwd_cnt = 0, total_tx_checksum_error_cnt = 0, can_core_reset_cnt = 0\<rparr>"

definition core_reset :: can_core where
  "core_reset = \<lparr>TSR = 0x1C000000, TIR = 0, TDTR = 0, TDLR = 0, TDHR = 0, ESR = 0, fifo_overrun = False,
     rx_fifo = [], core_speed = 0, core_loopback = False, core_silent = False\<rparr>"

definition can_state_init :: "fw_build \<Rightarrow> can_state" where
  "can_state_init F = \<lparr>safety = boot_state,
     can_rx_q = can_buffer empty_packet (CAN_RX_BUFFER_SIZE F),
     can_queues = replicate 3 (can_buffer empty_packet (CAN_TX_BUFFER_SIZE F)),
     bus_config = bus_config_init F, can_health = replicate 3 can_health_zero, cans = replicate 3 core_reset,
     can_irq = replicate 3 False,
     safety_tx_blocked = 0, safety_rx_invalid = 0, tx_buffer_overflow = 0, rx_buffer_overflow = 0,
     ignition_can = False, ignition_can_cnt = 0, prev_counter_rivian = -1, prev_counter_tesla = -1,
     pending_can_live = 0, can_silent = 0xFF, can_loopback = False, vstate = vehicle_state_init,
     usb_resumed = False, spi_resumed = False\<rparr>"

subsection \<open>Examples\<close>

text \<open>The F407 build of \<^verbatim>\<open>firmware/SConscript\<close>, and peripherals that read back what was written.\<close>

definition fw_f407 :: fw_build where
  "fw_f407 = \<lparr>sb = build_f407, STM32F446 = False, STM32F407 = True, MAZDA_FILTER = True,
     MAZDA_HOST_CENSUS = False, PANDA_SERIAL_LINK = False\<rparr>"

definition plain_hw :: can_hw where
  "plain_hw = \<lparr>tsr_write = \<lambda>w. w, tsr_request = \<lambda>w. w, stack_bytes = replicate 8 0,
     set_speed_ok = True, init_ok = True\<rparr>"

end
