(* ===== verification/Host_Filter.thy ===== *)
theory Host_Filter
  imports Can_Driver
begin
text \<open>
  The filter of the host feed (\<^verbatim>\<open>firmware/board/drivers/mazda_filter.h\<close>) concerns the host only: two
  builds that differ in the filter take the same steps on the buses. Each step is compared on
  the part of the state without the feed, and such steps compose.
\<close>

unbundle bit_operations_syntax

subsection \<open>The state without the host feed\<close>

text \<open>Everything but the feed of the host: its queue and the count of frames lost there.\<close>

definition bus_view :: "can_state \<Rightarrow> can_state" where
  "bus_view st = st\<lparr>can_rx_q := can_buffer empty_packet 1, rx_buffer_overflow := 0\<rparr>"

abbreviation seen :: "can_state option \<Rightarrow> can_state option" where
  "seen \<equiv> map_option bus_view"

definition refilter :: "bool \<Rightarrow> bool \<Rightarrow> fw_build \<Rightarrow> fw_build" where
  "refilter filtered census F = F\<lparr>MAZDA_FILTER := filtered, MAZDA_HOST_CENSUS := census\<rparr>"

lemma refilter_simps [simp]:
  "sb (refilter b c F) = sb F" "STM32F446 (refilter b c F) = STM32F446 F"
  "STM32F407 (refilter b c F) = STM32F407 F"
  "CANIF_FROM_CAN_NUM (refilter b c F) = CANIF_FROM_CAN_NUM F"
  by (simp_all add: refilter_def CANIF_FROM_CAN_NUM_def [abs_def])

lemma bus_view_reads [simp]:
  "can_queues (bus_view st) = can_queues st" "cans (bus_view st) = cans st"
  "bus_config (bus_view st) = bus_config st" "safety (bus_view st) = safety st"
  "can_health (bus_view st) = can_health st" "vstate (bus_view st) = vstate st"
  "tx_buffer_overflow (bus_view st) = tx_buffer_overflow st"
  "safety_tx_blocked (bus_view st) = safety_tx_blocked st"
  "safety_rx_invalid (bus_view st) = safety_rx_invalid st"
  "bus_view (bus_view st) = bus_view st" "bus_view (push_rx p st) = bus_view st"
  by (simp_all add: bus_view_def push_rx_def split_beta)

lemma bus_view_writes:
  "upd_core n f (bus_view st) = bus_view (upd_core n f st)"
  "upd_health n g (bus_view st) = bus_view (upd_health n g st)"
  "(bus_view st)\<lparr>can_queues := qs\<rparr> = bus_view (st\<lparr>can_queues := qs\<rparr>)"
  "(bus_view st)\<lparr>safety := s\<rparr> = bus_view (st\<lparr>safety := s\<rparr>)"
  "(bus_view st)\<lparr>safety_rx_invalid := w\<rparr> = bus_view (st\<lparr>safety_rx_invalid := w\<rparr>)"
  "(bus_view st)\<lparr>safety_tx_blocked := w\<rparr> = bus_view (st\<lparr>safety_tx_blocked := w\<rparr>)"
  "(bus_view st)\<lparr>tx_buffer_overflow := w\<rparr> = bus_view (st\<lparr>tx_buffer_overflow := w\<rparr>)"
  "(bus_view st)\<lparr>pending_can_live := i\<rparr> = bus_view (st\<lparr>pending_can_live := i\<rparr>)"
  "(bus_view st)\<lparr>vstate := v\<rparr> = bus_view (st\<lparr>vstate := v\<rparr>)"
  by (simp_all add: bus_view_def upd_core_def upd_health_def)

lemma bus_view_refresh:
  "refresh_can_tx_slots_available (bus_view st) = bus_view (refresh_can_tx_slots_available st)"
  by (simp add: refresh_can_tx_slots_available_def can_tx_check_min_slots_free_def Let_def)
     (simp add: bus_view_def)

lemma if_view: "(if b then bus_view s else bus_view s') = bus_view (if b then s else s')"
  by simp

lemma bus_view_ignition:
  "ignition_can_hook F p (bus_view st) = bus_view (ignition_can_hook F p st)"
proof -
  have ign: "set_ignition i (bus_view s) = bus_view (set_ignition i s)" for i s
    by (simp add: set_ignition_def bus_view_def)
  have reads: "prev_counter_rivian (bus_view s) = prev_counter_rivian s"
    "prev_counter_tesla (bus_view s) = prev_counter_tesla s" for s
    by (simp_all add: bus_view_def)
  have writes: "(bus_view s)\<lparr>prev_counter_rivian := i\<rparr> = bus_view (s\<lparr>prev_counter_rivian := i\<rparr>)"
    "(bus_view s)\<lparr>prev_counter_tesla := i\<rparr> = bus_view (s\<lparr>prev_counter_tesla := i\<rparr>)" for s i
    by (simp_all add: bus_view_def)
  have "ignition_gm p (bus_view s) = bus_view (ignition_gm p s)" for s
    by (simp add: ignition_gm_def ign)
  moreover have "ignition_rivian p (bus_view s) = bus_view (ignition_rivian p s)" for s
    unfolding ignition_rivian_def Let_def reads ign by (simp add: writes ign if_view split del: if_split cong: if_cong)
  moreover have "ignition_tesla p (bus_view s) = bus_view (ignition_tesla p s)" for s
    unfolding ignition_tesla_def Let_def reads ign by (simp add: writes ign if_view split del: if_split cong: if_cong)
  moreover have "ignition_mazda p (bus_view s) = bus_view (ignition_mazda p s)" for s
    by (simp add: ignition_mazda_def ign)
  moreover have "ignition_cx5 F p (bus_view s) = bus_view (ignition_cx5 F p s)" for s
    by (simp add: ignition_cx5_def ign)
  ultimately show ?thesis by (simp add: ignition_can_hook_def)
qed

lemma bus_view_hooks: "can_rx_hooks F p (bus_view st) = bus_view (can_rx_hooks F p st)"
  by (simp add: can_rx_hooks_def Let_def split_beta bus_view_writes bus_view_ignition)

text \<open>A step that treats its state alike in both builds, up to the feed; such steps compose.\<close>

definition blind :: "(can_state \<Rightarrow> can_state option) \<Rightarrow> (can_state \<Rightarrow> can_state option) \<Rightarrow> bool" where
  "blind f g \<longleftrightarrow> (\<forall>st. seen (f st) = seen (g (bus_view st)) \<and> seen (g st) = seen (g (bus_view st)))"

lemma blindI:
  "(\<And>st. seen (f st) = seen (g (bus_view st))) \<Longrightarrow> (\<And>st. seen (g st) = seen (g (bus_view st))) \<Longrightarrow> blind f g"
  by (simp add: blind_def)

lemma blind_same: "blind f g \<Longrightarrow> bus_view st = bus_view st' \<Longrightarrow> seen (f st) = seen (g st')"
  by (metis blind_def)

lemma blind_bind:
  assumes "seen x = seen y" and "blind f g"
  shows "seen (x \<bind> f) = seen (y \<bind> g)"
  using assms blind_same [OF assms(2)] by (cases x; cases y) auto

lemma seen_process_next:
  "seen (process_next hw n c b (bus_view st)) = seen (process_next hw n c b st)"
  by (cases "length (can_queues st) \<le> b"; cases "can_pop (can_queues st ! b)"; cases "fst (can_pop (can_queues st ! b))";
      cases "can_check_checksum (the (fst (can_pop (can_queues st ! b))))")
    (simp_all add: process_next_def bus_view_writes bus_view_refresh Let_def if_view split del: if_split cong: if_cong)

lemma seen_process_echo:
  "seen (process_echo F b c st) = seen (process_echo F' b c (bus_view st))"
  by (cases "can_set_checksum (packet_of_mailbox (TIR c) (TDTR c) (TDLR c) (TDHR c) b True)")
     (simp_all add: process_echo_def)

lemma blind_process_next: "blind (process_next hw n c b) (process_next hw n c b)"
  by (rule blindI) (simp_all add: seen_process_next)

lemma seen_bind:
  assumes "seen x = seen y" and "\<And>s. seen (f s) = seen (g (bus_view s))" and "\<And>s. seen (g (bus_view s)) = seen (g s)"
  shows "seen (x \<bind> f) = seen (y \<bind> g)"
  by (rule blind_bind [OF assms(1)]) (simp add: blind_def assms(2,3))

lemma seen_process_done:
  "seen (process_done F hw core b st) = seen (process_done F' hw core b (bus_view st))"
proof -
  have "seen (process_echo F b c st \<bind> (\<lambda>s. Some (upd_core core f s))) =
      seen (process_echo F' b c (bus_view st) \<bind> (\<lambda>s. Some (upd_core core f s)))" for c f
    by (rule seen_bind [OF seen_process_echo]) (simp_all add: bus_view_writes)
  then show ?thesis by (simp add: process_done_def bus_view_writes)
qed

lemma bus_view_clear_tx_error:
  "clear_tx_error hw n core (bus_view st) = bus_view (clear_tx_error hw n core st)"
  by (simp add: clear_tx_error_def bus_view_writes)

lemma seen_process_can:
  "seen (process_can F hw n st) = seen (process_can (refilter b c F) hw n (bus_view st))"
proof -
  let ?core = "CANIF_FROM_CAN_NUM F n" and ?b = "bus_lookup (bus_config st ! n)"
  have "seen (process_done F hw ?core ?b s \<bind> process_next hw n ?core ?b) =
      seen (process_done (refilter b c F) hw ?core ?b (bus_view s) \<bind> process_next hw n ?core ?b)" for s
    by (rule seen_bind [OF seen_process_done]) (simp_all add: seen_process_next)
  then show ?thesis
    by (simp add: process_can_def Let_def bus_view_clear_tx_error cong del: option.case_cong)
qed

lemma seen_enqueue:
  "seen (enqueue_tx F hw p i st) = seen (enqueue_tx (refilter b c F) hw p i (bus_view st))"
  by (simp add: enqueue_tx_def Let_def split_beta bus_view_writes seen_process_can [symmetric])

lemma seen_reject: "seen (reject_tx p st) = seen (reject_tx p (bus_view st))"
  by (cases "can_set_checksum (p\<lparr>returned := False, rejected := True\<rparr>)")
     (simp_all add: reject_tx_def Let_def bus_view_writes)

lemma seen_can_send:
  "seen (can_send F hw skip i p st) = seen (can_send (refilter b c F) hw skip i p (bus_view st))"
  using seen_enqueue [of F hw p i _ b c] seen_reject [of p]
  by (simp add: can_send_def split_beta Let_def bus_view_writes)

lemma seen_forward:
  "seen (can_rx_forward F hw n i p st) = seen (can_rx_forward (refilter b c F) hw n i p (bus_view st))"
proof (cases "forwarded_copy hw p")
  case None
  then show ?thesis by (simp add: can_rx_forward_def Let_def)
next
  case (Some q)
  have "seen (can_send F hw True k q st \<bind> (\<lambda>s. Some (upd_health n f s))) =
      seen (can_send (refilter b c F) hw True k q (bus_view st) \<bind> (\<lambda>s. Some (upd_health n f s)))" for k f
    by (rule seen_bind [OF seen_can_send]) (simp_all add: bus_view_writes)
  then show ?thesis by (simp add: can_rx_forward_def Let_def Some)
qed

lemma upd_push_rx: "upd_core n f (push_rx p st) = push_rx p (upd_core n f st)"
  by (simp add: push_rx_def upd_core_def split_beta)

lemma ignition_refilter: "ignition_can_hook (refilter b c F) p s = ignition_can_hook F p s"
  by (simp add: ignition_can_hook_def ignition_cx5_def)

lemma seen_rx_frame:
  "seen (can_rx_frame F hw n mb st) = seen (can_rx_frame (refilter b c F) hw n mb (bus_view st))"
proof -
  let ?b = "bus_lookup (bus_config st ! n)" and ?core = "CANIF_FROM_CAN_NUM F n"
  let ?st = "(upd_health n (\<lambda>h. h\<lparr>total_rx_cnt := total_rx_cnt h + 1\<rparr>) st)\<lparr>pending_can_live := 1\<rparr>"
  let ?rest = "\<lambda>F' p s. Some (upd_core ?core (\<lambda>c. c\<lparr>rx_fifo := tl (rx_fifo c)\<rparr>)
      (if MAZDA_FILTER F' \<and> \<not> host_visible F' ?b (addr p) then can_rx_hooks F p s else push_rx p (can_rx_hooks F p s)))"
  have hooks: "can_rx_hooks (refilter b c F) p s = can_rx_hooks F p s" for p s
    by (simp add: can_rx_hooks_def ignition_refilter)
  have rest: "seen (?rest F' p s) = Some (bus_view (upd_core ?core (\<lambda>c. c\<lparr>rx_fifo := tl (rx_fifo c)\<rparr>) (can_rx_hooks F p s)))"
    for F' p s by (cases "MAZDA_FILTER F' \<and> \<not> host_visible F' ?b (addr p)")
      (simp_all add: upd_push_rx)
  have "seen (can_rx_forward F hw n ?b p ?st \<bind> ?rest F p) =
      seen (can_rx_forward (refilter b c F) hw n ?b p (bus_view ?st) \<bind> ?rest (refilter b c F) p)" for p
    by (rule seen_bind [OF seen_forward]) (simp_all only: rest, simp_all only: bus_view_hooks bus_view_writes bus_view_reads)
  then show ?thesis
    by (cases "can_set_checksum (packet_of_mailbox (RIR mb) (RDTR mb) (RDLR mb) (RDHR mb) ?b False)")
       (simp_all add: can_rx_frame_def Let_def bus_view_writes hooks)
qed

lemma refilter_refilter [simp]: "refilter b c (refilter b c F) = refilter b c F"
  by (simp add: refilter_def)

lemma seen_rx_loop:
  "seen (can_rx_loop F hw n mbs st) = seen (can_rx_loop (refilter b c F) hw n mbs (bus_view st))"
proof (induction mbs arbitrary: F st)
  case Nil
  then show ?case by simp
next
  case (Cons mb mbs)
  have "seen (can_rx_loop (refilter b c F) hw n mbs (bus_view s)) = seen (can_rx_loop (refilter b c F) hw n mbs s)" for s
    using Cons.IH [of "refilter b c F" s] by simp
  then have "seen (can_rx_frame F hw n mb st \<bind> can_rx_loop F hw n mbs) =
      seen (can_rx_frame (refilter b c F) hw n mb (bus_view st) \<bind> can_rx_loop (refilter b c F) hw n mbs)"
    by (intro seen_bind [OF seen_rx_frame]) (rule Cons.IH)
  then show ?case by simp
qed

lemma seen_can_rx:
  "seen (can_rx F hw n st) = seen (can_rx (refilter b c F) hw n (bus_view st))"
  using seen_rx_loop [of F hw n _ "upd_core (CANIF_FROM_CAN_NUM F n) (\<lambda>c. c\<lparr>fifo_overrun := False\<rparr>) st" b c]
  by (simp add: can_rx_def Let_def bus_view_writes)

text \<open>The filter of the host feed, and the census build that opens it, change what the host is
  told and nothing else: with the filter on or off, every interrupt and every host frame leave the
  same queues, cores, counters, ignition, vehicle and safety state, or fail alike; only the
  receive queue of the host and its overflow count may differ.\<close>

lemma host_filter_blind:
  "seen (can_rx (refilter b c F) hw n st) = seen (can_rx F hw n st) \<and>
   seen (process_can (refilter b c F) hw n st) = seen (process_can F hw n st) \<and>
   seen (host_send (refilter b c F) hw p st) = seen (host_send F hw p st)"
  using seen_can_rx [of F hw n st b c] seen_can_rx [of "refilter b c F" hw n st b c]
    seen_process_can [of F hw n st b c] seen_process_can [of "refilter b c F" hw n st b c]
    seen_can_send [of F hw False "nat (bus p)" p st b c]
    seen_can_send [of "refilter b c F" hw False "nat (bus p)" p st b c]
  by (simp add: host_send_def)

end
