(* ===== verification/Can_Driver_Properties.thy ===== *)
theory Can_Driver_Properties
  imports Can_Driver
begin

text \<open>
  What the CAN driver guarantees: its buffers stay well-formed and it leaves no array unless a
  frame of the bus carries a length code above eight; its effect on the safety layer is a run of
  the events of \<^verbatim>\<open>Safety_System\<close>, so that the invariants proved there hold for the driver; a frame
  the safety layer refuses goes back to the host and nowhere else; the filter of the host feed
  cannot be seen by anything but the host.
\<close>

unbundle bit_operations_syntax

subsection \<open>Well-formed driver states\<close>

definition pkt_ok :: "CANPacket \<Rightarrow> bool" where
  "pkt_ok p \<longleftrightarrow> length (data p) = 8 \<and> data_len_code p \<le> 8"

definition queue_ok :: "CANPacket can_ring \<Rightarrow> bool" where
  "queue_ok q \<longleftrightarrow> ring_ok q \<and> list_all pkt_ok (ring_list q)"

definition core_ok :: "can_core \<Rightarrow> bool" where
  "core_ok c \<longleftrightarrow> unat (TDTR c AND 0xF) \<le> 8"

text \<open>Every bus either has no core or one that serves an existing queue.\<close>

definition config_ok :: "bus_config_t list \<Rightarrow> bool" where
  "config_ok cfg \<longleftrightarrow> length cfg = 4 \<and>
     (\<forall>b < 3. can_num_lookup (cfg ! b) = 0xFF \<or>
        (can_num_lookup (cfg ! b) < 3 \<and> bus_lookup (cfg ! can_num_lookup (cfg ! b)) < 3))"

definition driver_ok :: "can_state \<Rightarrow> bool" where
  "driver_ok st \<longleftrightarrow> length (can_queues st) = 3 \<and> list_all queue_ok (can_queues st) \<and>
     queue_ok (can_rx_q st) \<and> length (cans st) = 3 \<and> list_all core_ok (cans st) \<and> config_ok (bus_config st)"

lemma list_all_update: "list_all P xs \<Longrightarrow> (i < length xs \<Longrightarrow> P x) \<Longrightarrow> list_all P (xs[i := x])"
  by (cases "i < length xs") (auto simp: list_all_length nth_list_update)

lemma queue_push:
  assumes "queue_ok q" and "pkt_ok p"
  shows "queue_ok (snd (can_push q p))"
proof -
  have ok: "ring_ok q" using assms(1) by (simp add: queue_ok_def)
  have "list_all pkt_ok (ring_list (snd (can_push q p)))"
  proof (rule ring.enq_cases [OF ok, of p])
    assume "ring_list (snd (can_push q p)) = ring_list q @ [p]"
    then show ?thesis using assms by (simp add: queue_ok_def)
  next
    assume "ring_list (snd (can_push q p)) = ring_list q"
    then show ?thesis using assms by (simp add: queue_ok_def)
  qed
  then show ?thesis using ring.enq_ok [OF ok] by (simp add: queue_ok_def)
qed

lemma queue_pop:
  "queue_ok q \<Longrightarrow> queue_ok (snd (can_pop q)) \<and> (\<forall>p. fst (can_pop q) = Some p \<longrightarrow> pkt_ok p)"
proof -
  assume q: "queue_ok q"
  then have ok: "ring_ok q" and all: "list_all pkt_ok (ring_list q)" by (simp_all add: queue_ok_def)
  note deq = ring.deq_ok [OF ok] ring.deq_contents [OF ok]
  show ?thesis
  proof (cases "fst (can_pop q)")
    case None
    then have "ring_list q = []" using deq(2) by simp
    then have "can_pop q = (None, q)" by (rule ring.deq_empty [OF ok])
    with q show ?thesis by simp
  next
    case (Some p)
    then have "ring_list q = p # ring_list (snd (can_pop q))" using deq(2) by simp
    with all deq(1) Some show ?thesis by (simp add: queue_ok_def)
  qed
qed

lemma queue_clear: "ring_ok q \<Longrightarrow> queue_ok (can_clear q)"
  using can_clear_ok [of q] by (simp add: queue_ok_def)

lemma dlc_classic: "d < 16 \<Longrightarrow> nat (dlc_to_len ! d) \<le> 8 \<longleftrightarrow> d \<le> 8"
proof -
  assume "d < 16"
  then have "d \<in> set [0..<16]" by simp
  moreover have "\<forall>d \<in> set [0..<16]. (nat (dlc_to_len ! d) \<le> 8) = (d \<le> 8)" by code_simp
  ultimately show ?thesis by blast
qed

lemma set_checksum_classic:
  assumes "length (data p) = 8" and "data_len_code p < 16"
  shows "can_set_checksum p = None \<longleftrightarrow> 8 < data_len_code p"
    and "can_set_checksum p = Some p' \<Longrightarrow> pkt_ok p' \<and> (\<exists>c. p' = p\<lparr>checksum := c\<rparr>)"
  using assms dlc_classic [of "data_len_code p"]
  by (auto simp: set_checksum_eq pkt_ok_def GET_LEN_def split: if_splits)

lemma check_checksum_ok: "pkt_ok p \<Longrightarrow> can_check_checksum p \<noteq> None"
  using dlc_classic [of "data_len_code p"] by (auto simp: check_checksum_eq pkt_ok_def GET_LEN_def)

lemma mailbox_dlc: "unat (w AND 0xF :: u32) < 16"
proof -
  have "w AND 0xF \<le> 0xF" by (rule word_and_le1)
  then show ?thesis by (simp add: word_le_nat_alt)
qed

lemma packet_of_mailbox_simps [simp]:
  "length (data (packet_of_mailbox ir dtr lo hi b e)) = 8"
  "data_len_code (packet_of_mailbox ir dtr lo hi b e) = unat (dtr AND 0xF)"
  by (simp_all add: packet_of_mailbox_def word_bytes_def)

subsection \<open>Preservation\<close>

text \<open>The ignition detection writes its own five variables only.\<close>

definition unlit :: "can_state \<Rightarrow> can_state" where
  "unlit st = st\<lparr>ignition_can := False, ignition_can_cnt := 0, prev_counter_rivian := 0, prev_counter_tesla := 0\<rparr>"

lemma ignition_unlit:
  "unlit (ignition_gm p st) = unlit st" "unlit (ignition_rivian p st) = unlit st"
  "unlit (ignition_tesla p st) = unlit st" "unlit (ignition_mazda p st) = unlit st"
  "unlit (ignition_cx5 F p st) = unlit st"
  by (simp_all add: ignition_gm_def ignition_rivian_def ignition_tesla_def ignition_mazda_def
      ignition_cx5_def set_ignition_def unlit_def Let_def)

lemma ignition_hook_unlit: "unlit (ignition_can_hook F p st) = unlit st"
  by (simp add: ignition_can_hook_def ignition_unlit)

lemma unlit_frame:
  assumes "unlit st = unlit st'"
  shows "can_queues st = can_queues st'" "can_rx_q st = can_rx_q st'" "cans st = cans st'"
    "bus_config st = bus_config st'" "safety st = safety st'" "can_health st = can_health st'"
    "rx_buffer_overflow st = rx_buffer_overflow st'"
  using arg_cong [OF assms, of can_queues] arg_cong [OF assms, of can_rx_q] arg_cong [OF assms, of cans]
    arg_cong [OF assms, of bus_config] arg_cong [OF assms, of safety]
    arg_cong [OF assms, of can_health] arg_cong [OF assms, of rx_buffer_overflow]
  by (simp_all add: unlit_def)

lemmas ignition_frame [simp] = unlit_frame [OF ignition_hook_unlit]

lemma driver_ok_simps [simp]:
  "driver_ok (upd_health n f st) = driver_ok st"
  "driver_ok (st\<lparr>safety := s\<rparr>) = driver_ok st"
  "driver_ok (st\<lparr>vstate := v\<rparr>) = driver_ok st"
  "driver_ok (st\<lparr>safety_tx_blocked := w\<rparr>) = driver_ok st"
  "driver_ok (st\<lparr>safety_rx_invalid := w\<rparr>) = driver_ok st"
  "driver_ok (st\<lparr>tx_buffer_overflow := w\<rparr>) = driver_ok st"
  "driver_ok (st\<lparr>pending_can_live := i\<rparr>) = driver_ok st"
  "driver_ok (refresh_can_tx_slots_available st) = driver_ok st"
  "driver_ok (ignition_can_hook F p st) = driver_ok st"
  by (simp_all add: driver_ok_def upd_health_def refresh_can_tx_slots_available_def Let_def)

lemma driver_ok_core:
  assumes "driver_ok st" and "\<And>c. core_ok c \<Longrightarrow> core_ok (f c)"
  shows "driver_ok (upd_core n f st)"
proof -
  have "list_all core_ok ((cans st)[n := f (cans st ! n)])"
    using assms by (intro list_all_update) (simp_all add: driver_ok_def list_all_length)
  then show ?thesis using assms(1) by (simp add: driver_ok_def upd_core_def)
qed

lemma driver_ok_push_rx: "driver_ok st \<Longrightarrow> pkt_ok p \<Longrightarrow> driver_ok (push_rx p st)"
  using queue_push [of "can_rx_q st" p] by (simp add: driver_ok_def push_rx_def split_beta)

lemma driver_ok_queue:
  "driver_ok st \<Longrightarrow> queue_ok q \<Longrightarrow> driver_ok (st\<lparr>can_queues := (can_queues st)[i := q]\<rparr>)"
  by (simp add: driver_ok_def list_all_update)

lemma driver_queue: "driver_ok st \<Longrightarrow> b < 3 \<Longrightarrow> queue_ok (can_queues st ! b)"
  by (simp add: driver_ok_def list_all_length)

lemma driver_core: "driver_ok st \<Longrightarrow> n < 3 \<Longrightarrow> core_ok (cans st ! n)"
  by (simp add: driver_ok_def list_all_length)

text \<open>Where transmitted frames come from. \<open>A b\<close> are the frames a call may add to the queue of bus
  \<open>b\<close>; a mailbox either keeps its content or takes a frame with a right checksum from the queue
  of the bus its core serves.\<close>

definition queued :: "nat \<Rightarrow> can_state \<Rightarrow> CANPacket set" where
  "queued b st = set (ring_list (can_queues st ! b))"

definition mail :: "can_core \<Rightarrow> u32 \<times> u32 \<times> u32 \<times> u32" where
  "mail c = (TIR c, TDTR c, TDLR c, TDHR c)"

definition mail_of :: "CANPacket \<Rightarrow> u32 \<times> u32 \<times> u32 \<times> u32" where
  "mail_of p = (tir_of_packet p OR 1, of_nat (data_len_code p), word_of_bytes (take 4 (data p)),
     word_of_bytes (take 4 (drop 4 (data p))))"

definition loaded :: "fw_build \<Rightarrow> (nat \<Rightarrow> CANPacket set) \<Rightarrow> can_state \<Rightarrow> nat \<Rightarrow> can_core \<Rightarrow> bool" where
  "loaded F A st c core \<longleftrightarrow> (\<exists>n b p. n < 3 \<and> b < 3 \<and> c = CANIF_FROM_CAN_NUM F n \<and>
     b = bus_lookup (bus_config st ! n) \<and> p \<in> queued b st \<union> A b \<and> can_check_checksum p = Some True \<and>
     mail core = mail_of p)"

definition flow :: "fw_build \<Rightarrow> (nat \<Rightarrow> CANPacket set) \<Rightarrow> can_state \<Rightarrow> can_state \<Rightarrow> bool" where
  "flow F A st st' \<longleftrightarrow> (\<forall>b < 3. queued b st' \<subseteq> queued b st \<union> A b) \<and>
     (\<forall>c < 3. mail (cans st' ! c) = mail (cans st ! c) \<or> loaded F A st c (cans st' ! c))"

lemma flow_trans:
  assumes "flow F A st st'" and "flow F A st' st''" and cfg: "bus_config st' = bus_config st"
  shows "flow F A st st''"
proof -
  have q: "queued b st' \<subseteq> queued b st \<union> A b" "queued b st'' \<subseteq> queued b st' \<union> A b" if "b < 3" for b
    using assms(1,2) that by (simp_all add: flow_def)
  have "loaded F A st c core" if l: "loaded F A st' c core" for c core
    using l q(1) unfolding loaded_def cfg by blast
  moreover have "loaded F A st c core'" if "loaded F A st c core" "mail core' = mail core" for c core core'
    using that unfolding loaded_def by simp
  ultimately have "mail (cans st'' ! c) = mail (cans st ! c) \<or> loaded F A st c (cans st'' ! c)" if "c < 3" for c
    using assms(1,2) that unfolding flow_def by metis
  moreover have "queued b st'' \<subseteq> queued b st \<union> A b" if "b < 3" for b using q [OF that] by blast
  ultimately show ?thesis by (simp add: flow_def)
qed

text \<open>What one call may change: the state stays well-formed, the configuration stays, the
  safety layer sees nothing, and transmitted frames come from the queues.\<close>

definition calm :: "fw_build \<Rightarrow> (nat \<Rightarrow> CANPacket set) \<Rightarrow> can_state \<Rightarrow> can_state \<Rightarrow> bool" where
  "calm F A st st' \<longleftrightarrow> driver_ok st' \<and> safety st' = safety st \<and> bus_config st' = bus_config st \<and>
     flow F A st st'"

lemma calm_refl: "driver_ok st \<Longrightarrow> calm F A st st"
  by (simp add: calm_def flow_def)

lemma calm_trans: "calm F A st st' \<Longrightarrow> calm F A st' st'' \<Longrightarrow> calm F A st st''"
  using flow_trans [of F A st st' st''] by (simp add: calm_def)

lemma calmD: "calm F A st st' \<Longrightarrow> driver_ok st' \<and> safety st' = safety st \<and> bus_config st' = bus_config st"
  by (simp add: calm_def)

lemma calm_same:
  "driver_ok st' \<Longrightarrow> safety st' = safety st \<Longrightarrow> bus_config st' = bus_config st \<Longrightarrow>
    can_queues st' = can_queues st \<Longrightarrow> cans st' = cans st \<Longrightarrow> calm F A st st'"
  by (simp add: calm_def flow_def queued_def)

lemma calm_health: "driver_ok st \<Longrightarrow> calm F A st (upd_health n f st)"
  by (rule calm_same) (simp_all add: upd_health_def [of n f st], simp add: upd_health_def [symmetric])

lemma upd_core_mail:
  assumes "\<And>c. mail (f c) = mail c"
  shows "mail (cans (upd_core n f st) ! m) = mail (cans st ! m)"
  using assms by (cases "n < length (cans st)") (simp_all add: upd_core_def nth_list_update not_less list_update_beyond)

lemma calm_core:
  assumes "driver_ok st" and "\<And>c. core_ok c \<Longrightarrow> core_ok (f c)" and "\<And>c. mail (f c) = mail c"
  shows "calm F A st (upd_core n f st)"
  using driver_ok_core [OF assms(1,2)] upd_core_mail [OF assms(3)]
  by (simp add: calm_def flow_def queued_def) (simp add: upd_core_def)

lemma calm_push_rx: "driver_ok st \<Longrightarrow> pkt_ok p \<Longrightarrow> calm F A st (push_rx p st)"
  by (rule calm_same) (simp_all add: driver_ok_push_rx, simp_all add: push_rx_def split_beta)

lemma calm_refresh: "driver_ok st \<Longrightarrow> calm F A st (refresh_can_tx_slots_available st)"
  by (rule calm_same) (simp_all, simp_all add: refresh_can_tx_slots_available_def Let_def)

lemma calm_queue:
  assumes "driver_ok st" and "queue_ok q" and "set (ring_list q) \<subseteq> queued b st \<union> A b"
  shows "calm F A st (st\<lparr>can_queues := (can_queues st)[b := q]\<rparr>)"
proof -
  have "queued b' (st\<lparr>can_queues := (can_queues st)[b := q]\<rparr>) \<subseteq> queued b' st \<union> A b'" for b'
    using assms(3) by (cases "b' = b"; cases "b < length (can_queues st)") (auto simp: queued_def not_less list_update_beyond)
  then show ?thesis using driver_ok_queue [OF assms(1,2)] by (simp add: calm_def flow_def)
qed

lemma CANIF_range: "n < 3 \<Longrightarrow> CANIF_FROM_CAN_NUM F n < 3"
  by (simp add: CANIF_FROM_CAN_NUM_def)

lemma core_ok_simps [simp]:
  "core_ok (c\<lparr>TSR := w\<rparr>) = core_ok c" "core_ok (c\<lparr>fifo_overrun := b\<rparr>) = core_ok c"
  "core_ok (c\<lparr>rx_fifo := mbs\<rparr>) = core_ok c" "core_ok (c\<lparr>core_speed := w\<rparr>) = core_ok c"
  "core_ok (c\<lparr>core_loopback := b\<rparr>) = core_ok c" "core_ok (c\<lparr>core_silent := b\<rparr>) = core_ok c"
  by (simp_all add: core_ok_def)

lemma dlc_register: "d \<le> 8 \<Longrightarrow> unat (of_nat d AND 0xF :: u32) \<le> 8"
proof -
  assume d: "d \<le> 8"
  have "(of_nat d AND 0xF :: u32) \<le> of_nat d" by (rule word_and_le2)
  then have "unat (of_nat d AND 0xF :: u32) \<le> unat (of_nat d :: u32)" by (simp add: word_le_nat_alt)
  with d show ?thesis by (simp add: unat_of_nat)
qed

lemma process_echo_ok:
  assumes "driver_ok st" and "core_ok c"
  shows "\<exists>st'. process_echo F b c st = Some st' \<and> calm F A st st'"
proof -
  let ?p = "packet_of_mailbox (TIR c) (TDTR c) (TDLR c) (TDHR c) b True"
  obtain p where p: "can_set_checksum ?p = Some p"
    using set_checksum_classic(1) [of ?p] mailbox_dlc [of "TDTR c"] assms(2)
    by (auto simp: core_ok_def)
  then have "pkt_ok p" using set_checksum_classic(2) [of ?p p] mailbox_dlc [of "TDTR c"] by simp
  with p show ?thesis using calm_refl [OF assms(1)] calm_push_rx [OF assms(1)]
    by (auto simp: process_echo_def)
qed

lemma mail_load [simp]: "mail (load_mailbox hw p c) = mail_of p"
  by (simp add: load_mailbox_def mail_def mail_of_def)

lemma core_ok_load: "pkt_ok p \<Longrightarrow> core_ok (load_mailbox hw p c)"
  using dlc_register [of "data_len_code p"] by (simp add: load_mailbox_def core_ok_def pkt_ok_def)

text \<open>Taking a frame from a queue into the mailbox of the core that serves its bus.\<close>

lemma calm_load:
  assumes st: "driver_ok st" and n: "n < 3" and b: "b < 3" "b = bus_lookup (bus_config st ! n)"
    and pop: "can_pop (can_queues st ! b) = (Some p, q)" and good: "can_check_checksum p = Some True"
  shows "calm F A st (upd_core (CANIF_FROM_CAN_NUM F n) (load_mailbox hw p)
    (upd_health n f (st\<lparr>can_queues := (can_queues st)[b := q]\<rparr>)))" (is "calm F A st ?st'")
proof -
  have ring: "ring_ok (can_queues st ! b)" using driver_queue [OF st b(1)] by (simp add: queue_ok_def)
  have list: "ring_list (can_queues st ! b) = p # ring_list q"
    using ring.deq_contents [OF ring] pop by simp
  have q: "queue_ok q" and p: "pkt_ok p" using queue_pop [OF driver_queue [OF st b(1)]] pop by auto
  have calm: "calm F A st (upd_health n f (st\<lparr>can_queues := (can_queues st)[b := q]\<rparr>))"
    by (rule calm_trans [OF calm_queue [OF st q] calm_health [OF driver_ok_queue [OF st q]]])
       (use list in \<open>auto simp: queued_def\<close>)
  have "mail (cans ?st' ! c) = mail (cans st ! c) \<or> loaded F A st c (cans ?st' ! c)" if "c < 3" for c
  proof (cases "c = CANIF_FROM_CAN_NUM F n \<and> c < length (cans st)")
    case True
    then have "mail (cans ?st' ! c) = mail_of p" by (simp add: upd_core_def upd_health_def)
    then have "loaded F A st c (cans ?st' ! c)" unfolding loaded_def using True n b good list
      by (intro exI [of _ n] exI [of _ b] exI [of _ p]) (simp add: queued_def)
    then show ?thesis ..
  next
    case False
    then show ?thesis using st that by (auto simp: upd_core_def upd_health_def driver_ok_def)
  qed
  moreover have "driver_ok ?st'" using calm driver_ok_core [OF _ core_ok_load [OF p]] by (simp add: calm_def)
  moreover have "queued b' ?st' = queued b' (upd_health n f (st\<lparr>can_queues := (can_queues st)[b := q]\<rparr>))" for b'
    by (simp add: queued_def upd_core_def)
  ultimately show ?thesis using calm unfolding calm_def flow_def by (simp add: upd_core_def)
qed

lemma process_next_ok:
  assumes st: "driver_ok st" and n: "n < 3" and b: "b < 3" "b = bus_lookup (bus_config st ! n)"
  shows "\<exists>st'. process_next hw n (CANIF_FROM_CAN_NUM F n) b st = Some st' \<and> calm F A st st'"
proof -
  have len: "\<not> length (can_queues st) \<le> b" using st b by (simp add: driver_ok_def)
  note q = queue_pop [OF driver_queue [OF st b(1)]]
  show ?thesis
  proof (cases "fst (can_pop (can_queues st ! b))")
    case None
    then show ?thesis using len calm_refl [OF st] by (simp add: process_next_def split_beta)
  next
    case (Some p)
    then obtain q where pop: "can_pop (can_queues st ! b) = (Some p, q)" and "queue_ok q" and p: "pkt_ok p"
      using q by (cases "can_pop (can_queues st ! b)") auto
    let ?st = "st\<lparr>can_queues := (can_queues st)[b := q]\<rparr>"
    have ring: "ring_ok (can_queues st ! b)" using driver_queue [OF st b(1)] by (simp add: queue_ok_def)
    have "set (ring_list q) \<subseteq> queued b st"
      using ring.deq_contents [OF ring] pop by (auto simp: queued_def)
    then have "calm F A st ?st" by (intro calm_queue [OF st \<open>queue_ok q\<close>]) blast
    from calm_trans [OF this calm_health] calmD [OF this]
    have bad: "calm F A st (upd_health n f ?st)" for f by blast
    obtain good where good: "can_check_checksum p = Some good" using check_checksum_ok [OF p] by auto
    have refresh: "calm F A st (refresh_can_tx_slots_available s)" if "calm F A st s" for s
      using calm_trans [OF that calm_refresh] calmD [OF that] by blast
    show ?thesis
    proof (cases good)
      case True
      then show ?thesis using len good refresh [OF calm_load [OF st n b pop]]
        by (simp add: process_next_def pop Let_def)
    next
      case False
      then show ?thesis using len good refresh [OF bad] by (simp add: process_next_def pop Let_def)
    qed
  qed
qed

definition serves :: "bus_config_t list \<Rightarrow> nat \<Rightarrow> bool" where
  "serves cfg n \<longleftrightarrow> n < 3 \<and> bus_lookup (cfg ! n) < 3"

lemma clear_tx_error_ok: "driver_ok st \<Longrightarrow> calm F A st (clear_tx_error hw n core st)"
  by (simp add: clear_tx_error_def calm_refl)
     (intro impI calm_trans [OF calm_health calm_core]; simp add: mail_def)

lemma process_done_ok:
  assumes st: "driver_ok st" and core: "core < 3"
  shows "\<exists>st'. process_done F hw core b st = Some st' \<and> calm F A st st'"
proof -
  have ack: "calm F A s (upd_core core (\<lambda>c. c\<lparr>TSR := tsr_write hw (TSR c OR 1)\<rparr>) s)" if "driver_ok s" for s
    using that by (intro calm_core) (simp_all add: mail_def)
  obtain st' where "process_echo F b (cans st ! core) st = Some st'" and echo: "calm F A st st'"
    using process_echo_ok [OF st driver_core [OF st core]] by blast
  with ack [OF st] calm_trans [OF echo ack] calmD [OF echo] show ?thesis
    by (simp add: process_done_def calm_refl [OF st])
qed

lemma process_can_ok:
  assumes st: "driver_ok st" and n: "n = 0xFF \<or> serves (bus_config st) n"
  shows "\<exists>st'. process_can F hw n st = Some st' \<and> calm F A st st'"
proof (cases "n = 0xFF")
  case True
  then show ?thesis using calm_refl [OF st] by (simp add: process_can_def)
next
  case False
  let ?core = "CANIF_FROM_CAN_NUM F n" and ?b = "bus_lookup (bus_config st ! n)"
  have core: "?core < 3" and b: "?b < 3" "n < 3" using n False CANIF_range by (auto simp: serves_def)
  define st1 where "st1 = clear_tx_error hw n ?core st"
  have q1: "calm F A st st1" unfolding st1_def by (rule clear_tx_error_ok [OF st])
  obtain st2 where d: "process_done F hw ?core ?b st1 = Some st2" and "calm F A st1 st2"
    using process_done_ok [OF _ core] calmD [OF q1] by blast
  then have q2: "calm F A st st2" using calm_trans [OF q1] by blast
  have st2: "driver_ok st2" "?b = bus_lookup (bus_config st2 ! n)" using calmD [OF q2] by simp_all
  obtain st3 where e: "process_next hw n ?core ?b st2 = Some st3" and "calm F A st2 st3"
    using process_next_ok [OF st2(1) b(2,1) st2(2)] by blast
  then show ?thesis using q1 calm_trans [OF q2] False d
    by (simp add: process_can_def Let_def st1_def)
qed

subsection \<open>Sending and receiving as events of the safety layer\<close>

lemma config_serves:
  "config_ok cfg \<Longrightarrow> b < 3 \<Longrightarrow> can_num_lookup (cfg ! b) = 0xFF \<or> serves cfg (can_num_lookup (cfg ! b))"
  by (auto simp: config_ok_def serves_def)

lemma enqueue_tx_ok:
  assumes st: "driver_ok st" and p: "pkt_ok p" and A: "p \<in> A b"
  shows "\<exists>st'. enqueue_tx F hw p b st = Some st' \<and> calm F A st st'"
proof (cases "b < PANDA_BUS_CNT")
  case False
  then show ?thesis using calm_refl [OF st] by (simp add: enqueue_tx_def)
next
  case True
  then have b: "b < 3" by (simp add: PANDA_BUS_CNT_def)
  obtain d q where push: "can_push (can_queues st ! b) p = (d, q)" by fastforce
  have ring: "ring_ok (can_queues st ! b)" using driver_queue [OF st b] by (simp add: queue_ok_def)
  have "set (ring_list q) \<subseteq> queued b st \<union> A b"
    by (rule ring.enq_cases [OF ring, of p]) (use push A in \<open>auto simp: queued_def\<close>)
  moreover have "queue_ok q" using queue_push [OF driver_queue [OF st b] p] push by simp
  ultimately have q1: "calm F A st (st\<lparr>can_queues := (can_queues st)[b := q]\<rparr>)" (is "calm F A st ?st0")
    by (intro calm_queue [OF st])
  define st1 where "st1 = st\<lparr>can_queues := (can_queues st)[b := q],
      tx_buffer_overflow := tx_buffer_overflow st + (if d then 0 else 1)\<rparr>"
  have "calm F A ?st0 st1" unfolding st1_def using calmD [OF q1] by (intro calm_same) simp_all
  with q1 have q2: "calm F A st st1" by (rule calm_trans)
  then have "driver_ok st1" "bus_config st1 = bus_config st" by (simp_all add: calm_def)
  then obtain st' where "process_can F hw (can_num_lookup (bus_config st1 ! b)) st1 = Some st'" "calm F A st1 st'"
    using process_can_ok [of st1 "can_num_lookup (bus_config st1 ! b)" F hw]
      config_serves [of "bus_config st1" b] b by (auto simp: driver_ok_def)
  then show ?thesis using calm_trans [OF q2] True push
    by (simp add: enqueue_tx_def Let_def st1_def)
qed

lemma reject_tx_ok:
  assumes st: "driver_ok st" and p: "pkt_ok p"
  shows "\<exists>st'. reject_tx p st = Some st' \<and> calm F A st st'"
proof -
  let ?p = "p\<lparr>returned := False, rejected := True\<rparr>" and ?st = "st\<lparr>safety_tx_blocked := safety_tx_blocked st + 1\<rparr>"
  obtain p' where p': "can_set_checksum ?p = Some p'"
    using set_checksum_classic(1) [of ?p] p by (auto simp: pkt_ok_def)
  have ok: "pkt_ok p'" using set_checksum_classic(2) [OF _ _ p'] p by (simp add: pkt_ok_def)
  have "calm F A st ?st" using st by (intro calm_same) simp_all
  from calm_trans [OF this calm_push_rx [OF _ ok]] st show ?thesis by (simp add: reject_tx_def p')
qed

text \<open>Sending consults the transmit hook once, unless the frame is a forwarded one; a frame the
  hook refuses joins no queue.\<close>

definition send_events :: "fw_build \<Rightarrow> bool \<Rightarrow> CANPacket \<Rightarrow> safety_state \<Rightarrow> event list" where
  "send_events F skip p s = (if skip then [] else [Tx p (fst (safety_tx_hook (hooks_of (sb F)) p s))])"

definition sends :: "fw_build \<Rightarrow> bool \<Rightarrow> nat \<Rightarrow> CANPacket \<Rightarrow> safety_state \<Rightarrow> nat \<Rightarrow> CANPacket set" where
  "sends F skip b p s b' = (if b' = b \<and> (skip \<or> fst (safety_tx_hook (hooks_of (sb F)) p s)) then {p} else {})"

lemma flow_safety [simp]: "flow F A (st\<lparr>safety := s\<rparr>) st' = flow F A st st'"
  by (simp add: flow_def loaded_def queued_def)

lemma can_send_ok:
  assumes st: "driver_ok st" and p: "pkt_ok p"
  shows "\<exists>st'. can_send F hw skip b p st = Some st' \<and> driver_ok st' \<and> bus_config st' = bus_config st \<and>
    flow F (sends F skip b p (safety st)) st st' \<and>
    safety_run (sb F) (safety st) (send_events F skip p (safety st)) (safety st')"
proof (cases skip)
  case True
  then show ?thesis using enqueue_tx_ok [OF st p, of "sends F skip b p (safety st)" b F hw]
    by (auto simp: can_send_def send_events_def sends_def calm_def)
next
  case False
  obtain allowed s where tx: "safety_tx_hook (hooks_of (sb F)) p (safety st) = (allowed, s)" by fastforce
  let ?st = "st\<lparr>safety := s\<rparr>" and ?A = "sends F skip b p (safety st)"
  have ok: "driver_ok ?st" using st by simp
  have "safety_run (sb F) (safety st) [Tx p allowed] s"
    using step_tx [OF tx] by (intro run_cons [OF _ run_nil])
  moreover have "\<exists>st'. can_send F hw skip b p st = Some st' \<and> calm F ?A ?st st'"
  proof (cases allowed)
    case True
    then have "p \<in> ?A b" using tx by (simp add: sends_def)
    from enqueue_tx_ok [where A = ?A and b = b, OF ok p this, of F hw] True show ?thesis using False tx by (simp add: can_send_def)
  next
    case not: False
    then show ?thesis using reject_tx_ok [OF ok p, of F ?A] False tx by (simp add: can_send_def)
  qed
  ultimately show ?thesis using False tx by (auto simp: send_events_def calm_def)
qed

lemma forwarded_copy_ok:
  assumes "length (stack_bytes hw) = 8" and "pkt_ok p"
  shows "\<exists>q. forwarded_copy hw p = Some q \<and> pkt_ok q"
proof -
  have len: "nat (GET_LEN p) \<le> 8" using assms(2) dlc_classic [of "data_len_code p"]
    by (simp add: GET_LEN_def pkt_ok_def)
  let ?d = "take (nat (GET_LEN p)) (data p) @ drop (nat (GET_LEN p)) (stack_bytes hw)"
  have "length ?d = 8" using assms len by (simp add: pkt_ok_def)
  moreover from this obtain q where q: "can_set_checksum (p\<lparr>fd := False, returned := False, rejected := False, data := ?d\<rparr>) = Some q"
    using set_checksum_classic(1) [of "p\<lparr>fd := False, returned := False, rejected := False, data := ?d\<rparr>"]
      assms(2) by (auto simp: pkt_ok_def)
  ultimately have "pkt_ok q" using set_checksum_classic(2) [OF _ _ q] assms(2) by (simp add: pkt_ok_def)
  moreover have "forwarded_copy hw p = Some q"
    using q len assms by (simp add: forwarded_copy_def slice_def memcpy_def pkt_ok_def)
  ultimately show ?thesis by blast
qed

text \<open>What the forwarding of a received frame may add to the queue of a bus.\<close>

definition forwards :: "fw_build \<Rightarrow> can_hw \<Rightarrow> safety_state \<Rightarrow> nat \<Rightarrow> CANPacket \<Rightarrow> nat \<Rightarrow> CANPacket set" where
  "forwards F hw s b p b' =
     (let fwd = safety_fwd_hook (hooks_of (sb F)) (int b) (addr p) s
      in if fwd \<noteq> -1 \<and> b' = nat fwd then {q. forwarded_copy hw p = Some q} else {})"

lemma can_rx_forward_ok:
  assumes "length (stack_bytes hw) = 8" and st: "driver_ok st" and p: "pkt_ok p"
  shows "\<exists>st'. can_rx_forward F hw n b p st = Some st' \<and> calm F (forwards F hw (safety st) b p) st st'"
proof (cases "safety_fwd_hook (hooks_of (sb F)) (int b) (addr p) (safety st) = -1")
  case True
  then show ?thesis using calm_refl [OF st] by (simp add: can_rx_forward_def)
next
  case False
  let ?fwd = "nat (safety_fwd_hook (hooks_of (sb F)) (int b) (addr p) (safety st))"
    and ?A = "forwards F hw (safety st) b p"
  obtain q where q: "forwarded_copy hw p = Some q" "pkt_ok q"
    using forwarded_copy_ok [OF assms(1) p] by blast
  then have "q \<in> ?A ?fwd" using False by (simp add: forwards_def)
  from enqueue_tx_ok [where A = ?A and b = ?fwd, OF st q(2) this, of F hw]
  obtain st' where send: "can_send F hw True ?fwd q st = Some st'" and c: "calm F ?A st st'"
    by (auto simp: can_send_def)
  then have "calm F ?A st (upd_health n f st')" for f
    using calm_trans [OF c calm_health] calmD [OF c] by blast
  with False q send show ?thesis by (simp add: can_rx_forward_def)
qed

lemma can_rx_hooks_ok:
  assumes "driver_ok st"
  shows "driver_ok (can_rx_hooks F p st)" "bus_config (can_rx_hooks F p st) = bus_config st"
    "safety (can_rx_hooks F p st) = snd (safety_rx_hook (hooks_of (sb F)) p (safety st))"
    "can_queues (can_rx_hooks F p st) = can_queues st" "cans (can_rx_hooks F p st) = cans st"
  using assms by (simp_all add: can_rx_hooks_def Let_def split_beta)

definition mailbox_ok :: "rx_mailbox \<Rightarrow> bool" where
  "mailbox_ok mb \<longleftrightarrow> unat (RDTR mb AND 0xF) \<le> 8"

definition rx_packet :: "can_state \<Rightarrow> nat \<Rightarrow> rx_mailbox \<Rightarrow> CANPacket option" where
  "rx_packet st n mb =
     can_set_checksum (packet_of_mailbox (RIR mb) (RDTR mb) (RDLR mb) (RDHR mb) (bus_lookup (bus_config st ! n)) False)"

lemma rx_packet_ok:
  "rx_packet st n mb = None \<longleftrightarrow> \<not> mailbox_ok mb" "rx_packet st n mb = Some p \<Longrightarrow> pkt_ok p"
  using set_checksum_classic [of "packet_of_mailbox (RIR mb) (RDTR mb) (RDLR mb) (RDHR mb)
      (bus_lookup (bus_config st ! n)) False"] mailbox_dlc [of "RDTR mb"]
  by (auto simp: rx_packet_def mailbox_ok_def)

text \<open>One received frame: a \<open>None\<close> exactly for a length code above eight, otherwise one receive
  event of the safety layer, and only forwarded copies join the queues.\<close>

definition rx_effect :: "fw_build \<Rightarrow> can_hw \<Rightarrow> nat \<Rightarrow> CANPacket \<Rightarrow> can_state \<Rightarrow> can_state \<Rightarrow> bool" where
  "rx_effect F hw n p st st' \<longleftrightarrow> driver_ok st' \<and> bus_config st' = bus_config st \<and>
     flow F (forwards F hw (safety st) (bus_lookup (bus_config st ! n)) p) st st' \<and>
     safety_step (sb F) (safety st) (Rx p (fst (safety_rx_hook (hooks_of (sb F)) p (safety st)))) (safety st')"

lemma can_rx_frame_some:
  assumes hw: "length (stack_bytes hw) = 8" and st: "driver_ok st" and p: "rx_packet st n mb = Some p"
  shows "\<exists>st'. can_rx_frame F hw n mb st = Some st' \<and> rx_effect F hw n p st st'"
proof -
  let ?b = "bus_lookup (bus_config st ! n)"
  let ?A = "forwards F hw (safety st) ?b p"
  note ok = rx_packet_ok(2) [OF p]
  define st1 where "st1 = (upd_health n (\<lambda>h. h\<lparr>total_rx_cnt := total_rx_cnt h + 1\<rparr>) st)\<lparr>pending_can_live := 1\<rparr>"
  have q1: "calm F ?A st st1" unfolding st1_def
    by (rule calm_trans [OF calm_health [OF st]]) (intro calm_same; simp add: st)
  then obtain st2 where fwd: "can_rx_forward F hw n ?b p st1 = Some st2" and "calm F ?A st1 st2"
    using can_rx_forward_ok [OF hw _ ok, of st1 F n ?b] by (auto simp: calm_def)
  then have q2: "calm F ?A st st2" using calm_trans [OF q1] by blast
  then have ok2: "driver_ok st2" by (simp add: calm_def)
  note hooks = can_rx_hooks_ok [OF ok2, of F p]
  define st3 where "st3 = can_rx_hooks F p st2"
  have f3: "flow F ?A st st3" using q2 hooks(2,4,5)
    by (simp add: st3_def calm_def flow_def queued_def)
  have step: "safety_step (sb F) (safety st) (Rx p (fst (safety_rx_hook (hooks_of (sb F)) p (safety st)))) (safety st3)"
    unfolding st3_def hooks(3) using calmD [OF q2] by (intro step_rx) simp
  have ok3: "driver_ok st3" and cfg: "bus_config st3 = bus_config st"
    using hooks(1,2) calmD [OF q2] by (simp_all add: st3_def)
  define st4 where "st4 = (if MAZDA_FILTER F \<and> \<not> host_visible F ?b (addr p) then st3 else push_rx p st3)"
  have "calm F ?A st3 st4" using calm_refl [OF ok3] calm_push_rx [OF ok3 ok] by (simp add: st4_def)
  from calm_trans [OF this calm_core] calmD [OF this]
  have q5: "calm F ?A st3 (upd_core (CANIF_FROM_CAN_NUM F n) (\<lambda>c. c\<lparr>rx_fifo := tl (rx_fifo c)\<rparr>) st4)"
    by (simp add: mail_def)
  have "can_rx_frame F hw n mb st = Some (upd_core (CANIF_FROM_CAN_NUM F n) (\<lambda>c. c\<lparr>rx_fifo := tl (rx_fifo c)\<rparr>) st4)"
    using p fwd by (simp add: can_rx_frame_def Let_def st1_def [symmetric] rx_packet_def st3_def st4_def)
  then show ?thesis using q5 f3 step cfg flow_trans [OF f3 _ cfg, of "upd_core (CANIF_FROM_CAN_NUM F n) (\<lambda>c. c\<lparr>rx_fifo := tl (rx_fifo c)\<rparr>) st4"]
    by (simp add: rx_effect_def calm_def)
qed

lemma can_rx_frame_none: "rx_packet st n mb = None \<Longrightarrow> can_rx_frame F hw n mb st = None"
  by (simp add: can_rx_frame_def rx_packet_def Let_def)

inductive rx_effects :: "fw_build \<Rightarrow> can_hw \<Rightarrow> nat \<Rightarrow> can_state \<Rightarrow> CANPacket list \<Rightarrow> can_state \<Rightarrow> bool" for F hw n where
  rx_none: "rx_effects F hw n st [] st"
| rx_more: "rx_effect F hw n p st st' \<Longrightarrow> rx_effects F hw n st' ps st'' \<Longrightarrow> rx_effects F hw n st (p # ps) st''"

lemma can_rx_loop_ok:
  assumes hw: "length (stack_bytes hw) = 8"
  shows "driver_ok st \<Longrightarrow>
    (if list_all mailbox_ok mbs
     then \<exists>st' ps. can_rx_loop F hw n mbs st = Some st' \<and> rx_effects F hw n st ps st' \<and>
       map Some ps = map (rx_packet st n) mbs
     else can_rx_loop F hw n mbs st = None)"
proof (induction mbs arbitrary: st)
  case Nil
  then show ?case using rx_none by fastforce
next
  case (Cons mb mbs)
  show ?case
  proof (cases "rx_packet st n mb")
    case None
    then show ?thesis using rx_packet_ok(1) [of st n mb] by (simp add: can_rx_frame_none)
  next
    case (Some p)
    obtain st1 where frame: "can_rx_frame F hw n mb st = Some st1" and eff: "rx_effect F hw n p st st1"
      using can_rx_frame_some [OF hw Cons.prems Some] by blast
    have same: "rx_packet st1 n = rx_packet st n"
      using eff by (intro ext) (simp add: rx_effect_def rx_packet_def)
    have "mailbox_ok mb" using rx_packet_ok(1) [of st n mb] Some by simp
    with Cons.IH [of st1] eff frame show ?thesis
      by (auto simp: rx_effect_def [of F hw n p st st1] same Some split: if_splits
          intro!: exI [of _ "p # _"] rx_more [OF eff])
  qed
qed

subsection \<open>The mailbox carries the packet\<close>

lemma word_of_bytes_bytes:
  "length bs = 4 \<Longrightarrow> word_bytes (word_of_bytes bs) = bs"
proof -
  assume "length bs = 4"
  then obtain a b c d where bs: "bs = [a, b, c, d]"
    by (auto simp: length_Suc_conv numeral_eq_Suc)
  have out: "\<not> bit x m" if "8 \<le> m" for x :: u8 and m using bit_imp_le_length [of x m] that by auto
  have "word_bytes (word_of_bytes [a, b, c, d]) = [a, b, c, d]"
    by (auto simp: word_bytes_def word_of_bytes_def upt_rec bit_simps out intro!: bit_word_eqI)
  then show ?thesis by (simp add: bs)
qed

lemma tir_fields:
  assumes "0 \<le> addr p" and "addr p < 2 ^ 29"
  shows "bit (tir_of_packet p OR 1) 2 = extended p"
    and "extended p \<Longrightarrow> uint (drop_bit 3 (tir_of_packet p OR 1)) = addr p"
    and "\<not> extended p \<Longrightarrow> uint (drop_bit 21 (tir_of_packet p OR 1)) = addr p mod 2 ^ 11"
proof -
  define w :: u32 where "w = word_of_int (addr p)"
  have addr: "uint w = addr p" using assms by (simp add: w_def unsigned_of_int take_bit_int_eq_self)
  have hi: "\<not> bit w n" if "29 \<le> n" for n
  proof -
    have "\<not> bit (uint w) n" using assms that addr
      by (metis bit_take_bit_iff not_less take_bit_int_eq_self)
    then show ?thesis by (auto simp: bit_uint_iff dest: bit_imp_le_length)
  qed
  have lo: "n < 29" if "bit w n" for n using hi [of n] that by force
  have tir: "tir_of_packet p OR 1 =
      (if extended p then push_bit 3 w OR 5 else push_bit 21 w OR 1)"
    by (simp add: tir_of_packet_def w_def push_bit_eq_mult or.assoc)
  show "bit (tir_of_packet p OR 1) 2 = extended p"
    by (simp add: tir bit_simps)
  show "uint (drop_bit 3 (tir_of_packet p OR 1)) = addr p" if "extended p"
  proof -
    have "drop_bit 3 (push_bit 3 w OR 5) = drop_bit 3 (push_bit 3 w)" by simp
    also have "\<dots> = w" by (rule bit_word_eqI) (auto simp: bit_simps dest: lo)
    finally have "drop_bit 3 (push_bit 3 w OR 5) = w" .
    then show ?thesis using that addr tir by simp
  qed
  show "uint (drop_bit 21 (tir_of_packet p OR 1)) = addr p mod 2 ^ 11" if "\<not> extended p"
  proof -
    have "drop_bit 21 (push_bit 21 w OR 1) = take_bit 11 w"
      by (rule bit_word_eqI) (auto simp: bit_simps dest: bit_imp_le_length)
    moreover have "uint (take_bit 11 w) = addr p mod 2 ^ 11"
      by (simp only: unsigned_take_bit_eq addr) (simp add: take_bit_eq_mod)
    ultimately show ?thesis using that by (simp only: tir if_False)
  qed
qed

subsection \<open>The state at boot\<close>

lemma queue_ok_buffer: "0 < n \<Longrightarrow> n < 2 ^ 32 \<Longrightarrow> queue_ok (can_buffer x n)"
  using can_buffer_ok [of n x] by (simp add: queue_ok_def) (simp add: can_buffer_def ring_list_def ring_len_def)

lemma core_ok_reset [simp]: "core_ok core_reset"
  by (simp add: core_ok_def core_reset_def)

lemma driver_ok_init: "driver_ok (can_state_init F)"
  by (simp add: driver_ok_def can_state_init_def queue_ok_buffer CAN_RX_BUFFER_SIZE_def
      CAN_TX_BUFFER_SIZE_def numeral_3_eq_3 config_ok_def bus_config_init_def bus_cfg_def All_less_Suc)

subsection \<open>Properties\<close>

definition is_rx :: "event \<Rightarrow> bool" where
  "is_rx e \<longleftrightarrow> (\<exists>p ok. e = Rx p ok)"

lemma is_rx_Rx [simp]: "is_rx (Rx p ok)"
  by (simp add: is_rx_def)

lemma rx_effects_run:
  "rx_effects F hw n st ps st' \<Longrightarrow> driver_ok st \<Longrightarrow> driver_ok st' \<and>
    (\<exists>es. length es = length ps \<and> list_all is_rx es \<and> safety_run (sb F) (safety st) es (safety st'))"
proof (induction rule: rx_effects.induct)
  case (rx_none st)
  then show ?case by simp
next
  case (rx_more p st st' ps st'')
  let ?e = "Rx p (fst (safety_rx_hook (hooks_of (sb F)) p (safety st)))"
  obtain es where "length es = length ps" "list_all is_rx es" "driver_ok st''"
    "safety_run (sb F) (safety st') es (safety st'')"
    using rx_more by (auto simp: rx_effect_def)
  moreover have "safety_step (sb F) (safety st) ?e (safety st')" using rx_more by (simp add: rx_effect_def)
  ultimately show ?case by (intro conjI exI [of _ "?e # es"]) (auto intro: run_cons)
qed

lemma can_rx_ok:
  fixes F :: fw_build and n :: nat
  assumes hw: "length (stack_bytes hw) = 8" and st: "driver_ok st"
  defines "mbs \<equiv> rx_fifo (cans st ! CANIF_FROM_CAN_NUM F n)"
  shows "if list_all mailbox_ok mbs
    then \<exists>st' ps. can_rx F hw n st = Some st' \<and> rx_effects F hw n
        (upd_core (CANIF_FROM_CAN_NUM F n) (\<lambda>c. c\<lparr>fifo_overrun := False\<rparr>) st) ps st' \<and>
      map Some ps = map (rx_packet st n) mbs
    else can_rx F hw n st = None"
proof -
  let ?core = "CANIF_FROM_CAN_NUM F n"
  let ?st = "upd_core ?core (\<lambda>c. c\<lparr>fifo_overrun := False\<rparr>) st"
  have ok: "driver_ok ?st" using driver_ok_core [OF st] by simp
  have fifo: "rx_fifo (cans ?st ! ?core) = mbs"
    by (cases "?core < length (cans st)") (simp_all add: upd_core_def mbs_def not_less list_update_beyond)
  have same: "rx_packet ?st n = rx_packet st n" by (intro ext) (simp add: rx_packet_def upd_core_def)
  show ?thesis using can_rx_loop_ok [OF hw ok, of mbs F n] unfolding same can_rx_def Let_def fifo .
qed

text \<open>C36: The receive interrupt reads and writes inside its arrays exactly when no waiting frame
  carries a length code above eight, which a frame of the bus may do and nothing in the interrupt
  tests. Otherwise it leaves a well-formed state, and the safety layer has seen one receive event
  for each waiting frame and nothing else.\<close>

theorem can_rx_total:
  assumes "length (stack_bytes hw) = 8" and "driver_ok st"
  shows "(can_rx F hw n st = None \<longleftrightarrow>
      (\<exists>mb \<in> set (rx_fifo (cans st ! CANIF_FROM_CAN_NUM F n)). 8 < unat (RDTR mb AND 0xF))) \<and>
    (\<forall>st'. can_rx F hw n st = Some st' \<longrightarrow> driver_ok st' \<and>
      (\<exists>es. length es = length (rx_fifo (cans st ! CANIF_FROM_CAN_NUM F n)) \<and> list_all is_rx es \<and>
        safety_run (sb F) (safety st) es (safety st')))"
proof -
  let ?mbs = "rx_fifo (cans st ! CANIF_FROM_CAN_NUM F n)"
  let ?st = "upd_core (CANIF_FROM_CAN_NUM F n) (\<lambda>c. c\<lparr>fifo_overrun := False\<rparr>) st"
  have ok: "driver_ok ?st" "safety ?st = safety st"
    using driver_ok_core [OF assms(2)] by (simp_all, simp add: upd_core_def)
  note rx = can_rx_ok [OF assms, of F n]
  show ?thesis
  proof (cases "list_all mailbox_ok ?mbs")
    case True
    then obtain st' ps where "can_rx F hw n st = Some st'" and eff: "rx_effects F hw n ?st ps st'"
      and "map Some ps = map (rx_packet st n) ?mbs" using rx by auto
    moreover from this(3) have "length ps = length ?mbs" by (metis length_map)
    ultimately show ?thesis using rx_effects_run [OF eff ok(1)] True ok(2)
      by (auto simp: list_all_iff mailbox_ok_def not_less)
  next
    case False
    then show ?thesis using rx by (auto simp: list_all_iff mailbox_ok_def not_le)
  qed
qed

text \<open>C35: A frame of the host reaches a bus only through the safety layer: after a host frame the
  queue of a bus holds what it held before and, when the transmit hook allowed the frame and it is
  for this bus, the frame; a mailbox keeps its content or holds a frame with a right checksum from
  the queue of the bus that the core of the mailbox serves.\<close>

theorem tx_provenance:
  assumes "driver_ok st" and "pkt_ok p" and "host_send F hw p st = Some st'"
  defines "new \<equiv> \<lambda>b. if b = nat (bus p) \<and> fst (safety_tx_hook (hooks_of (sb F)) p (safety st)) then {p} else {}"
  shows "(\<forall>b < 3. queued b st' \<subseteq> queued b st \<union> new b) \<and>
    (\<forall>c < 3. mail (cans st' ! c) = mail (cans st ! c) \<or>
      (\<exists>n < 3. \<exists>x. c = CANIF_FROM_CAN_NUM F n \<and> can_check_checksum x = Some True \<and>
        x \<in> queued (bus_lookup (bus_config st ! n)) st \<union> new (bus_lookup (bus_config st ! n)) \<and>
        mail (cans st' ! c) = mail_of x))"
proof -
  have "new = sends F False (nat (bus p)) p (safety st)" by (auto simp: new_def sends_def)
  with can_send_ok [OF assms(1,2), of F hw False "nat (bus p)"] assms(3) have flow: "flow F new st st'"
    by (simp add: host_send_def)
  then have "loaded F new st c (cans st' ! c) \<or> mail (cans st' ! c) = mail (cans st ! c)" if "c < 3" for c
    using that by (auto simp: flow_def)
  then show ?thesis using flow unfolding flow_def loaded_def by metis
qed

text \<open>A frame of the host that the safety layer refuses goes back to the host and nowhere else:
  the queues and the cores are untouched, and the host receives it with the rejected bit set and
  a checksum that is right, if its receive queue has room.\<close>

lemma host_rejection:
  assumes "driver_ok st" and "pkt_ok p" and "\<not> fst (safety_tx_hook (hooks_of (sb F)) p (safety st))"
  shows "\<exists>st' p'. host_send F hw p st = Some st' \<and> can_queues st' = can_queues st \<and> cans st' = cans st \<and>
    can_rx_q st' = snd (can_push (can_rx_q st) p') \<and> safety_tx_blocked st' = safety_tx_blocked st + 1 \<and>
    rejected p' \<and> \<not> returned p' \<and> addr p' = addr p \<and> data p' = data p \<and> can_check_checksum p' = Some True"
proof -
  let ?p = "p\<lparr>returned := False, rejected := True\<rparr>"
  obtain p' where p': "can_set_checksum ?p = Some p'"
    using set_checksum_classic(1) [of ?p] assms(2) by (auto simp: pkt_ok_def)
  then obtain c where c: "p' = ?p\<lparr>checksum := c\<rparr>"
    using set_checksum_classic(2) [OF _ _ p'] assms(2) by (auto simp: pkt_ok_def)
  have len: "nat (GET_LEN ?p) \<le> length (data ?p)" using p' by (simp add: set_checksum_eq split: if_splits)
  have "can_check_checksum p' = Some True"
    using p' len by (auto simp: set_checksum_eq check_checksum_eq)
  moreover obtain s where tx: "safety_tx_hook (hooks_of (sb F)) p (safety st) = (False, s)"
    using assms(3) by (cases "safety_tx_hook (hooks_of (sb F)) p (safety st)") auto
  ultimately show ?thesis using p' c tx
    by (intro exI [of _ "push_rx p' (st\<lparr>safety := s, safety_tx_blocked := safety_tx_blocked st + 1\<rparr>)"] exI [of _ p'])
       (simp add: host_send_def can_send_def reject_tx_def push_rx_def split_beta)
qed

text \<open>C37: What a mailbox sends is the packet it was loaded with: reading the registers of the mailbox
  back, as the echo to the host does, gives its length, its data and its identifier. The one
  exception is a packet without the extended flag and with an identifier of more than eleven
  bits: the bus sees the lower eleven bits, while the safety layer compared all of them.\<close>

theorem mailbox_roundtrip:
  assumes "pkt_ok p" and "0 \<le> addr p" and "addr p < 2 ^ 29"
  shows "(let c = load_mailbox hw p core in
      packet_of_mailbox (TIR c) (TDTR c) (TDLR c) (TDHR c) b echo =
      p\<lparr>fd := False, bus := int b mod 8, rejected := False, returned := echo, checksum := 0,
        addr := (if extended p then addr p else addr p mod 2 ^ 11)\<rparr>)"
proof -
  have dlc: "data_len_code p \<le> 8" using assms(1) by (simp add: pkt_ok_def)
  have bytes: "word_bytes (word_of_bytes (take 4 (data p))) @
      word_bytes (word_of_bytes (take 4 (drop 4 (data p)))) = data p"
  proof -
    have "take 4 (data p) @ take 4 (drop 4 (data p)) = data p"
      using assms(1) by (simp add: pkt_ok_def take_add [of 4 4, simplified, symmetric])
    then show ?thesis using assms(1) by (simp add: word_of_bytes_bytes pkt_ok_def)
  qed
  have "data_len_code p \<in> set [0..<9]" using dlc by simp
  moreover have "\<forall>d \<in> set [0..<9]. unat (of_nat d AND 0xF :: u32) = d" by code_simp
  ultimately show ?thesis
    using tir_fields [OF assms(2,3)] bytes by (cases p) (simp add: load_mailbox_def packet_of_mailbox_def Let_def)
qed

lemma boot_refuses: "\<not> fst (safety_tx_hook H p (safety (can_state_init F)))"
proof -
  have "tx_msgs (current_safety_config boot_state) = []" "current_safety_mode boot_state = 0"
    by (simp_all add: boot_state_def config_zero_def)
  then show ?thesis
    by (simp add: can_state_init_def safety_tx_hook_def SAFETY_ALLOUTPUT_def SAFETY_ELM327_def)
qed

lemma can_rx_total_witness:
  "\<exists>st. driver_ok st \<and> can_rx fw_f407 plain_hw 0 st = None \<and>
     RDTR (hd (rx_fifo (cans st ! 0))) = 9"
proof -
  define mb where "mb = \<lparr>RIR = 0x24300000, RDTR = 9, RDLR = 0, RDHR = 0\<rparr>"
  define st where "st = (can_state_init fw_f407)\<lparr>cans := [core_reset\<lparr>rx_fifo := [mb]\<rparr>, core_reset, core_reset]\<rparr>"
  have ok: "driver_ok st"
    using driver_ok_init [of fw_f407] by (simp add: st_def driver_ok_def)
  have fifo: "rx_fifo (cans st ! CANIF_FROM_CAN_NUM fw_f407 0) = [mb]"
    by (simp add: st_def CANIF_FROM_CAN_NUM_def)
  have "can_rx fw_f407 plain_hw 0 st = None"
    using can_rx_total [OF _ ok, of plain_hw fw_f407 0] fifo by (simp add: plain_hw_def mb_def)
  with ok show ?thesis by (intro exI [of _ st]) (simp add: st_def mb_def)
qed

lemma tx_provenance_witness:
  "\<exists>st'. host_send fw_f407 plain_hw lkas_packet (can_state_init fw_f407) = Some st' \<and>
     queued 0 st' \<subseteq> queued 0 (can_state_init fw_f407)"
proof -
  let ?st = "can_state_init fw_f407"
  have pkt: "pkt_ok lkas_packet" by (simp add: pkt_ok_def lkas_packet_def)
  have no: "\<not> fst (safety_tx_hook (hooks_of (sb fw_f407)) lkas_packet (safety ?st))"
    by (rule boot_refuses)
  obtain st' where send: "host_send fw_f407 plain_hw lkas_packet ?st = Some st'"
    unfolding host_send_def using can_send_ok [OF driver_ok_init pkt] by blast
  from tx_provenance [OF driver_ok_init pkt send] no send show ?thesis by auto
qed

lemma host_rejection_witness:
  "\<exists>st' p'. host_send fw_f407 plain_hw lkas_packet (can_state_init fw_f407) = Some st' \<and> rejected p' \<and>
     addr p' = 0x243 \<and> can_rx_q st' = snd (can_push (can_rx_q (can_state_init fw_f407)) p')"
proof -
  let ?st = "can_state_init fw_f407"
  have pkt: "pkt_ok lkas_packet" by (simp add: pkt_ok_def lkas_packet_def)
  have no: "\<not> fst (safety_tx_hook (hooks_of (sb fw_f407)) lkas_packet (safety ?st))"
    by (rule boot_refuses)
  show ?thesis using host_rejection [OF driver_ok_init pkt no, of plain_hw]
    by (auto simp: lkas_packet_def)
qed

text \<open>A diagnostic frame that the OBD mode allows by its 29-bit address leaves as the 11-bit frame
  \<open>0x0F1\<close> when the host clears the extended flag.\<close>

lemma mailbox_roundtrip_witness:
  "\<exists>p. elm327_tx_hook p boot_state = (True, boot_state) \<and> addr p = 0x18DA00F1 \<and>
     (let c = load_mailbox plain_hw p core_reset in
      addr (packet_of_mailbox (TIR c) (TDTR c) (TDLR c) (TDHR c) 1 False) = 0x0F1)"
proof -
  define p where "p = lkas_packet\<lparr>addr := 0x18DA00F1, bus := 1\<rparr>"
  have "pkt_ok p" "0 \<le> addr p" "addr p < 2 ^ 29" by (simp_all add: pkt_ok_def p_def lkas_packet_def)
  note mailbox_roundtrip [OF this, of plain_hw core_reset 1 False]
  moreover have "elm327_tx_hook p boot_state = (True, boot_state)"
    by (simp add: elm327_tx_hook_def p_def lkas_packet_def GET_LEN_def dlc_to_len_def Let_def)
  ultimately show ?thesis by (intro exI [of _ p]) (simp add: p_def lkas_packet_def Let_def)
qed

end
