(* ===== verification/Board_Drivers.thy ===== *)
theory Board_Drivers
  imports Safety_Utils
begin

text \<open>
  The small drivers the main loop ticks: the harness and its relay
  (\<^verbatim>\<open>firmware/board/drivers/harness.h\<close>), the bootkick of the computer (\<^verbatim>\<open>bootkick.h\<close>), the fan
  (\<^verbatim>\<open>fan.h\<close>) and the watchdog of the loop (\<^verbatim>\<open>simple_watchdog.h\<close>). What the board measures is an
  input record; the pins the code drives are fields of the state.
\<close>

subsection \<open>The board and what it senses\<close>

record board =
  has_spi :: bool
  fan_max_rpm :: u16
  avdd_mV :: u16
  fan_stall_recovery :: bool
  fan_enable_cooldown_time :: u8
  fan_max_pwm :: u8

definition board_nucleo :: board where
  "board_nucleo = \<lparr>has_spi = False, fan_max_rpm = 0, avdd_mV = 3300, fan_stall_recovery = False,
     fan_enable_cooldown_time = 0, fan_max_pwm = 0\<rparr>"

record senses =
  adc_SBU1 :: u16            \<comment> \<open>the two harness voltages in mV\<close>
  adc_SBU2 :: u16
  gpio_SBU1 :: bool          \<comment> \<open>the two ignition inputs\<close>
  gpio_SBU2 :: bool
  som_gpio :: bool           \<comment> \<open>\<open>read_som_gpio\<close>\<close>
  som_serial_ptr :: u16      \<comment> \<open>\<open>uart_ring_som_debug.w_ptr_tx\<close>\<close>
  register_divergent :: bool \<comment> \<open>\<open>check_registers\<close> finds a register changed\<close>

subsection \<open>Harness\<close>

definition HARNESS_STATUS_NC :: u8 where "HARNESS_STATUS_NC = 0"
definition HARNESS_STATUS_NORMAL :: u8 where "HARNESS_STATUS_NORMAL = 1"
definition HARNESS_STATUS_FLIPPED :: u8 where "HARNESS_STATUS_FLIPPED = 2"

lemmas harness_status_defs = HARNESS_STATUS_NC_def HARNESS_STATUS_NORMAL_def HARNESS_STATUS_FLIPPED_def

text \<open>\<open>sbu_adc_lock\<close> is held only inside the measurement, which is one step here; the two relay
  outputs are active low.\<close>

record harness_t =
  harness_status :: u8
  sbu1_voltage_mV :: u16
  sbu2_voltage_mV :: u16
  relay_driven :: bool
  relay_SBU1 :: bool
  relay_SBU2 :: bool

definition harness_zero :: harness_t where
  "harness_zero = \<lparr>harness_status = HARNESS_STATUS_NC, sbu1_voltage_mV = 0, sbu2_voltage_mV = 0,
     relay_driven = False, relay_SBU1 = False, relay_SBU2 = False\<rparr>"

definition set_intercept_relay :: "bool \<Rightarrow> bool \<Rightarrow> harness_t \<Rightarrow> harness_t" where
  "set_intercept_relay intercept ignition_relay h =
     (let drive_relay = (if harness_status h = HARNESS_STATUS_NC then False else intercept);
          h = (if drive_relay \<or> ignition_relay then h\<lparr>relay_driven := True\<rparr> else h);
          h = (if harness_status h = HARNESS_STATUS_NORMAL
               then h\<lparr>relay_SBU1 := \<not> ignition_relay, relay_SBU2 := \<not> drive_relay\<rparr>
               else h\<lparr>relay_SBU1 := \<not> drive_relay, relay_SBU2 := \<not> ignition_relay\<rparr>)
      in if \<not> (drive_relay \<or> ignition_relay) then h\<lparr>relay_driven := False\<rparr> else h)"

definition harness_check_ignition :: "senses \<Rightarrow> harness_t \<Rightarrow> bool" where
  "harness_check_ignition e h =
     (if harness_status h = HARNESS_STATUS_NORMAL then \<not> gpio_SBU1 e
      else if harness_status h = HARNESS_STATUS_FLIPPED then \<not> gpio_SBU2 e
      else False)"

definition harness_detect_orientation :: "board \<Rightarrow> senses \<Rightarrow> harness_t \<Rightarrow> u8 \<times> harness_t" where
  "harness_detect_orientation bd e h =
     (if \<not> relay_driven h then
        let h = h\<lparr>sbu1_voltage_mV := adc_SBU1 e, sbu2_voltage_mV := adc_SBU2 e\<rparr>;
            detection_threshold = avdd_mV bd div 2
        in (if sbu1_voltage_mV h < detection_threshold \<or> sbu2_voltage_mV h < detection_threshold
            then (if sbu1_voltage_mV h < sbu2_voltage_mV h then HARNESS_STATUS_FLIPPED
                  else HARNESS_STATUS_NORMAL)
            else HARNESS_STATUS_NC, h)
      else (harness_status h, h))"

definition harness_tick :: "board \<Rightarrow> senses \<Rightarrow> harness_t \<Rightarrow> harness_t" where
  "harness_tick bd e h =
     (let (orient, h) = harness_detect_orientation bd e h in h\<lparr>harness_status := orient\<rparr>)"

definition harness_init :: "build \<Rightarrow> board \<Rightarrow> senses \<Rightarrow> harness_t \<Rightarrow> harness_t" where
  "harness_init B bd e h =
     (let h = h\<lparr>relay_SBU1 := True, relay_SBU2 := True\<rparr>;
          h = (if PANDA_NUCLEO B then h\<lparr>harness_status := HARNESS_STATUS_NC\<rparr>
               else let (orient, h) = harness_detect_orientation bd e h in h\<lparr>harness_status := orient\<rparr>)
      in set_intercept_relay False False h)"

text \<open>What holds of every harness state: the flag says whether an output is active, and the
  interceptor is only driven with a harness.\<close>

definition harness_ok :: "harness_t \<Rightarrow> bool" where
  "harness_ok h \<longleftrightarrow> (relay_driven h \<longleftrightarrow> \<not> relay_SBU1 h \<or> \<not> relay_SBU2 h)"

lemma harness_ok_relay: "harness_ok (set_intercept_relay intercept ignition_relay h)"
  by (auto simp: set_intercept_relay_def harness_ok_def Let_def)

lemma harness_ok_tick: "harness_ok h \<Longrightarrow> harness_ok (harness_tick bd e h)"
  by (auto simp: harness_tick_def harness_detect_orientation_def harness_ok_def Let_def)

lemma harness_ok_init: "harness_ok (harness_init B bd e h)"
  by (simp add: harness_init_def Let_def harness_ok_relay)

lemma harness_driven_steady:
  "relay_driven h \<Longrightarrow> harness_status (harness_tick bd e h) = harness_status h"
  by (simp add: harness_tick_def harness_detect_orientation_def)

subsection \<open>Bootkick\<close>

datatype BootState = BOOT_STANDBY | BOOT_BOOTKICK | BOOT_RESET

record bootkick_t =
  bootkick_reset_triggered :: bool
  bootkick_last_serial_ptr :: u16
  waiting_to_boot_countdown :: u8
  boot_reset_countdown :: u8
  bootkick_harness_status_prev :: u8
  bootkick_ign_prev :: bool
  bootkick_state :: BootState

definition bootkick_init :: bootkick_t where
  "bootkick_init = \<lparr>bootkick_reset_triggered = False, bootkick_last_serial_ptr = 0,
     waiting_to_boot_countdown = 0, boot_reset_countdown = 0,
     bootkick_harness_status_prev = HARNESS_STATUS_NC, bootkick_ign_prev = False,
     bootkick_state = BOOT_BOOTKICK\<rparr>"

text \<open>The state the inputs ask for, the countdown to a reset attempt, the reset itself: the three
  parts of \<open>bootkick_tick\<close>.\<close>

definition bootkick_request :: "u8 \<Rightarrow> bool \<Rightarrow> bool \<Rightarrow> bootkick_t \<Rightarrow> bootkick_t" where
  "bootkick_request orient ignition recent_heartbeat b =
     (let harness_inserted = orient \<noteq> bootkick_harness_status_prev b \<and> orient \<noteq> HARNESS_STATUS_NC
      in if (ignition \<and> \<not> bootkick_ign_prev b) \<or> harness_inserted
         then b\<lparr>bootkick_state := BOOT_BOOTKICK\<rparr>
         else if recent_heartbeat then b\<lparr>bootkick_state := BOOT_STANDBY\<rparr> else b)"

definition bootkick_wait :: "senses \<Rightarrow> BootState \<Rightarrow> bootkick_t \<Rightarrow> bootkick_t" where
  "bootkick_wait e boot_state_prev b =
     (let b = (if \<not> bootkick_reset_triggered b \<and> bootkick_state b = BOOT_BOOTKICK \<and>
                  boot_state_prev = BOOT_STANDBY
               then b\<lparr>waiting_to_boot_countdown := 20\<rparr> else b)
      in if waiting_to_boot_countdown b > 0 then
           (if som_serial_ptr e \<noteq> bootkick_last_serial_ptr b \<or> som_gpio e \<or> bootkick_state b \<noteq> BOOT_BOOTKICK
            then b\<lparr>waiting_to_boot_countdown := 0\<rparr>
            else if waiting_to_boot_countdown b = 1 then b\<lparr>boot_reset_countdown := 5\<rparr> else b)
         else b)"

definition bootkick_reset :: "bootkick_t \<Rightarrow> bootkick_t" where
  "bootkick_reset b =
     (if boot_reset_countdown b > 0
      then b\<lparr>bootkick_state := BOOT_RESET, bootkick_reset_triggered := True\<rparr>
      else if bootkick_state b = BOOT_RESET then b\<lparr>bootkick_state := BOOT_BOOTKICK\<rparr> else b)"

definition bootkick_tick :: "senses \<Rightarrow> u8 \<Rightarrow> bool \<Rightarrow> bool \<Rightarrow> bootkick_t \<Rightarrow> bootkick_t" where
  "bootkick_tick e orient ignition recent_heartbeat b =
     (let b = bootkick_reset (bootkick_wait e (bootkick_state b)
                (bootkick_request orient ignition recent_heartbeat b));
          b = b\<lparr>bootkick_ign_prev := ignition, bootkick_harness_status_prev := orient,
                bootkick_last_serial_ptr := som_serial_ptr e\<rparr>;
          b = (if waiting_to_boot_countdown b > 0
               then b\<lparr>waiting_to_boot_countdown := waiting_to_boot_countdown b - 1\<rparr> else b)
      in if boot_reset_countdown b > 0
         then b\<lparr>boot_reset_countdown := boot_reset_countdown b - 1\<rparr> else b)"

subsection \<open>Fan\<close>

definition FAN_TICK_FREQ :: nat where "FAN_TICK_FREQ = 8"
definition FAN_STALL_THRESHOLD_MIN :: nat where "FAN_STALL_THRESHOLD_MIN = 3"

record fan_state_t =
  tach_counter :: u16
  fan_rpm :: u16
  target_rpm :: u16
  fan_power :: u8
  error_integral :: rat
  stall_counter :: u8
  stall_threshold :: u8
  total_stall_count :: u8
  cooldown_counter :: u8
  fan_enabled :: bool

definition fan_zero :: fan_state_t where
  "fan_zero = \<lparr>tach_counter = 0, fan_rpm = 0, target_rpm = 0, fan_power = 0, error_integral = 0,
     stall_counter = 0, stall_threshold = 0, total_stall_count = 0, cooldown_counter = 0,
     fan_enabled = False\<rparr>"

definition fan_set_power :: "board \<Rightarrow> u8 \<Rightarrow> fan_state_t \<Rightarrow> fan_state_t" where
  "fan_set_power bd percentage f =
     f\<lparr>target_rpm := of_nat (unat (fan_max_rpm bd) * (if unat percentage > 100 then 100 else unat percentage)
        div 100)\<rparr>"

definition fan_cooldown :: "board \<Rightarrow> u8" where
  "fan_cooldown bd = of_nat (unat (fan_enable_cooldown_time bd) * FAN_TICK_FREQ)"

definition fan_init :: "board \<Rightarrow> fan_state_t \<Rightarrow> fan_state_t" where
  "fan_init bd f = f\<lparr>stall_threshold := of_nat FAN_STALL_THRESHOLD_MIN, cooldown_counter := fan_cooldown bd\<rparr>"

definition fan_stall :: "board \<Rightarrow> u16 \<Rightarrow> fan_state_t \<Rightarrow> bool \<times> fan_state_t" where
  "fan_stall bd fan_rpm_fast f =
     (if fan_stall_recovery bd then
        (if target_rpm f > 0 then
           let f = (if fan_rpm_fast = 0
                    then f\<lparr>stall_counter := of_nat (if unat (stall_counter f) + 1 < 254 then unat (stall_counter f) + 1 else 254)\<rparr>
                    else f\<lparr>stall_counter := 0\<rparr>)
           in if unat (stall_counter f) > unat (stall_threshold f) * FAN_TICK_FREQ then
                (True, f\<lparr>stall_counter := 0,
                   stall_threshold := (let t = unat (stall_threshold f) + 2
                      in of_nat (if t > 8 then 8 else if t < FAN_STALL_THRESHOLD_MIN then FAN_STALL_THRESHOLD_MIN else t)),
                   total_stall_count := total_stall_count f + 1,
                   error_integral := (if error_integral f > 45 then 45 else if error_integral f < 20 then 20
                      else error_integral f)\<rparr>)
              else (False, f)
         else (False, f\<lparr>stall_counter := 0, stall_threshold := of_nat FAN_STALL_THRESHOLD_MIN\<rparr>))
      else (False, f))"

definition fan_control :: "board \<Rightarrow> u16 \<Rightarrow> fan_state_t \<Rightarrow> fan_state_t" where
  "fan_control bd fan_rpm_fast f =
     (let ei = (if target_rpm f = 0 then 0
                else fadd (error_integral f)
                       (fmul (13 / 2) (fdiv (fint (uint (target_rpm f) - uint fan_rpm_fast)) (fint (uint (fan_max_rpm bd))))));
          top = of_nat (unat (fan_max_pwm bd));
          ei = (if ei > top then top else if ei < 0 then 0 else ei)
      in f\<lparr>error_integral := ei, fan_power := word_of_int (trunc ei)\<rparr>)"

definition fan_tick :: "board \<Rightarrow> fan_state_t \<Rightarrow> fan_state_t" where
  "fan_tick bd f =
     (if fan_max_rpm bd > 0 then
        let fan_rpm_fast = of_nat (unat (tach_counter f) * (60 * FAN_TICK_FREQ div 4));
            f = f\<lparr>tach_counter := 0, fan_rpm := of_nat ((unat fan_rpm_fast + 3 * unat (fan_rpm f)) div 4)\<rparr>;
            (fan_stalled, f) = fan_stall bd fan_rpm_fast f;
            f = (if target_rpm f > 0 then f\<lparr>cooldown_counter := fan_cooldown bd\<rparr>
                 else if cooldown_counter f > 0 then f\<lparr>cooldown_counter := cooldown_counter f - 1\<rparr> else f);
            f = fan_control bd fan_rpm_fast f
        in f\<lparr>fan_enabled := \<not> fan_stalled \<and> (target_rpm f > 0 \<or> cooldown_counter f > 0)\<rparr>
      else f)"

subsection \<open>Watchdog\<close>

definition FAULT_HEARTBEAT_LOOP_WATCHDOG :: u32 where "FAULT_HEARTBEAT_LOOP_WATCHDOG = 2 ^ 26"

record simple_watchdog_state_t =
  wd_fault :: u32
  wd_last_ts :: u32
  wd_threshold :: u32

text \<open>The faults are globals of the safety layer's fault words.\<close>

definition simple_watchdog_kick ::
    "u32 \<Rightarrow> simple_watchdog_state_t \<times> safety_state \<Rightarrow> simple_watchdog_state_t \<times> safety_state" where
  "simple_watchdog_kick ts = (\<lambda>(w, s).
     (w\<lparr>wd_last_ts := ts\<rparr>, if get_ts_elapsed ts (wd_last_ts w) > wd_threshold w
                           then fault_occurred (wd_fault w) s else s))"

definition simple_watchdog_init :: "u32 \<Rightarrow> u32 \<Rightarrow> u32 \<Rightarrow> simple_watchdog_state_t" where
  "simple_watchdog_init fault threshold now = \<lparr>wd_fault = fault, wd_last_ts = now, wd_threshold = threshold\<rparr>"

end
