(* ===== verification/Panda_State.thy ===== *)
theory Panda_State
  imports Can_Driver Board_Drivers
begin

text \<open>
  The state of the firmware (\<^verbatim>\<open>firmware/board/main_definitions.h\<close> and the statics of
  \<^verbatim>\<open>main.c\<close>), the mode switch of \<^verbatim>\<open>main.c\<close> and the power-saving state
  (\<^verbatim>\<open>power_saving.h\<close>).
\<close>

subsection \<open>State\<close>

record panda_state =
  can :: can_state
  can_read_buffer :: asm_buffer
  can_write_buffer :: asm_buffer
  harness :: harness_t
  bootkick :: bootkick_t
  fan :: fan_state_t
  wd :: simple_watchdog_state_t
  power_save_status :: int
  transceivers :: "bool list"     \<comment> \<open>\<open>enable_can_transceiver\<close>, numbered from 1\<close>
  can_mode :: u8                  \<comment> \<open>\<open>set_can_mode\<close>\<close>
  ir_power :: u8                  \<comment> \<open>\<open>set_ir_power\<close>\<close>
  siren_on :: bool                \<comment> \<open>\<open>set_siren\<close>\<close>
  green_led :: bool
  blue_led :: bool
  can_live :: int
  uptime_cnt :: u32
  green_led_enabled :: bool
  heartbeat_counter :: u32
  heartbeat_lost :: bool
  heartbeat_disabled :: bool
  siren_enabled :: bool
  siren_countdown :: u32
  controls_allowed_countdown :: u32
  prev_harness_status :: u8
  loop_counter :: u8
  enter_bootloader_mode :: u32
  timer_params :: "u16 \<times> u16"    \<comment> \<open>\<open>clock_source_set_timer_params\<close>\<close>

text \<open>The safety layer inside the firmware.\<close>

abbreviation sfty :: "panda_state \<Rightarrow> safety_state" where "sfty st \<equiv> safety (can st)"

definition upd_can :: "(can_state \<Rightarrow> can_state) \<Rightarrow> panda_state \<Rightarrow> panda_state" where
  "upd_can f st = st\<lparr>can := f (can st)\<rparr>"

definition upd_safety :: "(safety_state \<Rightarrow> safety_state) \<Rightarrow> panda_state \<Rightarrow> panda_state" where
  "upd_safety f = upd_can (\<lambda>c. c\<lparr>safety := f (safety c)\<rparr>)"

definition try_can :: "(can_state \<Rightarrow> can_state option) \<Rightarrow> panda_state \<Rightarrow> panda_state option" where
  "try_can f st = map_option (\<lambda>c. st\<lparr>can := c\<rparr>) (f (can st))"

subsection \<open>Mode switch\<close>

definition ALL_CAN_SILENT :: int where "ALL_CAN_SILENT = 0xFF"
definition ALL_CAN_LIVE :: int where "ALL_CAN_LIVE = 0"
definition CAN_MODE_NORMAL :: u8 where "CAN_MODE_NORMAL = 0"
definition CAN_MODE_OBD_CAN2 :: u8 where "CAN_MODE_OBD_CAN2 = 1"

text \<open>The hooks of the mode, or those of the silent mode when the mode is unknown; a failure of
  the silent mode hangs.\<close>

definition switch_hooks :: "fw_build \<Rightarrow> u16 \<Rightarrow> u16 \<Rightarrow> safety_state \<Rightarrow> (u16 \<times> safety_state) option" where
  "switch_hooks F mode param s =
     (let (err, s) = set_safety_hooks (hooks_of (sb F)) (safety_hook_registry (sb F)) mode param s
      in if err = -1 then
           let (err, s) = set_safety_hooks (hooks_of (sb F)) (safety_hook_registry (sb F)) SAFETY_SILENT 0 s
           in if err = 0 then Some (SAFETY_SILENT, s) else None
         else Some (mode, s))"

text \<open>What the board and the driver do for the mode.\<close>

definition apply_mode :: "fw_build \<Rightarrow> can_hw \<Rightarrow> u16 \<Rightarrow> u16 \<Rightarrow> panda_state \<Rightarrow> panda_state" where
  "apply_mode F hw mode param st =
     (if mode = SAFETY_SILENT then
        upd_can (\<lambda>c. c\<lparr>can_silent := ALL_CAN_SILENT\<rparr>)
          (st\<lparr>harness := set_intercept_relay False False (harness st), can_mode := CAN_MODE_NORMAL\<rparr>)
      else if mode = SAFETY_NOOUTPUT then
        upd_can (\<lambda>c. c\<lparr>can_silent := ALL_CAN_LIVE\<rparr>)
          (st\<lparr>harness := set_intercept_relay False False (harness st), can_mode := CAN_MODE_NORMAL\<rparr>)
      else if mode = SAFETY_ELM327 then
        upd_can (\<lambda>c. (can_clear_send hw (CANIF_FROM_CAN_NUM F 1) 1 c)\<lparr>can_silent := ALL_CAN_LIVE\<rparr>)
          (st\<lparr>harness := set_intercept_relay False False (harness st), heartbeat_counter := 0,
              heartbeat_lost := False,
              can_mode := (if param = 0 then CAN_MODE_OBD_CAN2 else CAN_MODE_NORMAL)\<rparr>)
      else
        upd_can (\<lambda>c. c\<lparr>can_silent := ALL_CAN_LIVE\<rparr>)
          (st\<lparr>harness := set_intercept_relay True False (harness st), heartbeat_counter := 0,
              heartbeat_lost := False, can_mode := CAN_MODE_NORMAL\<rparr>))"

definition set_safety_mode :: "fw_build \<Rightarrow> can_hw \<Rightarrow> u16 \<Rightarrow> u16 \<Rightarrow> panda_state \<Rightarrow> panda_state option" where
  "set_safety_mode F hw mode param st =
     do { (mode_copy, s) \<leftarrow> switch_hooks F mode param (sfty st);
          let st = upd_can (\<lambda>c. c\<lparr>safety := s, safety_tx_blocked := 0, safety_rx_invalid := 0\<rparr>) st;
          try_can (can_init_all F hw) (apply_mode F hw mode_copy param st) }"

definition is_car_safety_mode :: "u16 \<Rightarrow> bool" where
  "is_car_safety_mode mode \<longleftrightarrow>
     mode \<noteq> SAFETY_SILENT \<and> mode \<noteq> SAFETY_NOOUTPUT \<and> mode \<noteq> SAFETY_ALLOUTPUT \<and> mode \<noteq> SAFETY_ELM327"

subsection \<open>Power saving\<close>

definition POWER_SAVE_STATUS_DISABLED :: int where "POWER_SAVE_STATUS_DISABLED = 0"
definition POWER_SAVE_STATUS_ENABLED :: int where "POWER_SAVE_STATUS_ENABLED = 1"

definition enable_can_transceivers :: "bool \<Rightarrow> panda_state \<Rightarrow> panda_state" where
  "enable_can_transceivers enabled st =
     (let main_bus = (if harness_status (harness st) = HARNESS_STATUS_FLIPPED then 3 else 1)
      in st\<lparr>transceivers := map (\<lambda>i. i = main_bus \<or> enabled) [1..<5]\<rparr>)"

text \<open>\<open>llcan_irq_enable\<close> and \<open>llcan_irq_disable\<close> of \<open>cans[n]\<close>.\<close>

definition set_can_irq :: "fw_build \<Rightarrow> bool \<Rightarrow> nat \<Rightarrow> panda_state \<Rightarrow> panda_state" where
  "set_can_irq F on n = upd_can (\<lambda>c. c\<lparr>can_irq := (can_irq c)[CANIF_FROM_CAN_NUM F n := on]\<rparr>)"

definition set_power_save_state :: "fw_build \<Rightarrow> int \<Rightarrow> panda_state \<Rightarrow> panda_state" where
  "set_power_save_state F state st =
     (let is_valid_state = state = POWER_SAVE_STATUS_ENABLED \<or> state = POWER_SAVE_STATUS_DISABLED
      in if is_valid_state \<and> state \<noteq> power_save_status st then
           let enable = state \<noteq> POWER_SAVE_STATUS_ENABLED;
               other = (if harness_status (harness st) = HARNESS_STATUS_FLIPPED then 0 else 2);
               st = set_can_irq F enable 1 (set_can_irq F enable other st);
               st = enable_can_transceivers enable st;
               st = (if \<not> enable then st\<lparr>ir_power := 0\<rparr> else st)
           in st\<lparr>power_save_status := state\<rparr>
         else st)"

end
