(* ===== verification/Panda_Main.thy ===== *)
theory Panda_Main
  imports Panda_State
begin

text \<open>
  The periodic work of the firmware (\<^verbatim>\<open>tick_handler\<close> of \<^verbatim>\<open>firmware/board/main.c\<close>): the drivers and
  the harness at 8 Hz; ignition, heartbeat, controls timeout and the safety tick at 1 Hz; and
  the start of \<^verbatim>\<open>main\<close>. A call of a handler is one step: the code runs it as an interrupt, and no
  interrupt of the firmware is given a priority above another.
\<close>

unbundle bit_operations_syntax

subsection \<open>8 Hz\<close>

definition HEARTBEAT_IGNITION_CNT_ON :: u32 where "HEARTBEAT_IGNITION_CNT_ON = 5"
definition HEARTBEAT_IGNITION_CNT_OFF :: u32 where "HEARTBEAT_IGNITION_CNT_OFF = 2"

definition tick_drivers :: "board \<Rightarrow> senses \<Rightarrow> panda_state \<Rightarrow> panda_state" where
  "tick_drivers bd e st =
     (let st = st\<lparr>siren_on := bit (loop_counter st) 0 \<and> (siren_enabled st \<or> siren_countdown st > 0),
                  fan := fan_tick bd (fan st), harness := harness_tick bd e (harness st)\<rparr>;
          (w, s) = simple_watchdog_kick (MICROSECOND_TIMER (sfty st)) (wd st, sfty st)
      in upd_safety (\<lambda>_. s) (st\<lparr>wd := w\<rparr>))"

definition tick_harness :: "fw_build \<Rightarrow> can_hw \<Rightarrow> panda_state \<Rightarrow> panda_state option" where
  "tick_harness F hw st =
     (if harness_status (harness st) \<noteq> prev_harness_status st then
        let st = st\<lparr>prev_harness_status := harness_status (harness st)\<rparr>;
            st = upd_can (\<lambda>c. c\<lparr>bus_config :=
                   can_set_orientation F (harness_status (harness st) = HARNESS_STATUS_FLIPPED) (bus_config c)\<rparr>) st
        in do { st \<leftarrow> try_can (can_init_all F hw) st;
                st \<leftarrow> set_safety_mode F hw (current_safety_mode (sfty st)) (current_safety_param (sfty st)) st;
                Some (set_power_save_state F (power_save_status st) st) }
      else Some st)"

subsection \<open>1 Hz\<close>

text \<open>The parts of the 1 Hz branch, in the order of the code.\<close>

definition tick_live :: "panda_state \<Rightarrow> panda_state" where
  "tick_live st =
     (let st = st\<lparr>can_live := pending_can_live (can st)\<rparr>;
          st = (if uptime_cnt st AND 0xF = 0 then upd_can (\<lambda>c. c\<lparr>pending_can_live := 0\<rparr>) st else st)
      in st\<lparr>green_led := controls_allowed (sfty st) \<or> green_led_enabled st,
            blue_led := bit (uptime_cnt st) 0 \<and> power_save_status st = POWER_SAVE_STATUS_ENABLED\<rparr>)"

definition tick_counters :: "panda_state \<Rightarrow> panda_state" where
  "tick_counters st =
     (let st = (if heartbeat_counter st < 0xFFFFFFFF
                then st\<lparr>heartbeat_counter := heartbeat_counter st + 1\<rparr> else st);
          st = (if is_car_safety_mode (current_safety_mode (sfty st)) then st\<lparr>heartbeat_disabled := False\<rparr> else st);
          st = (if siren_countdown st > 0 then st\<lparr>siren_countdown := siren_countdown st - 1\<rparr> else st)
      in if controls_allowed (sfty st) \<or> heartbeat_engaged (sfty st)
         then st\<lparr>controls_allowed_countdown := 5\<rparr>
         else if controls_allowed_countdown st > 0
         then st\<lparr>controls_allowed_countdown := controls_allowed_countdown st - 1\<rparr> else st)"

definition tick_engaged :: "safety_state \<Rightarrow> safety_state" where
  "tick_engaged s =
     (if controls_allowed s \<and> \<not> heartbeat_engaged s then
        let s = s\<lparr>heartbeat_engaged_mismatches := heartbeat_engaged_mismatches s + 1\<rparr>
        in if heartbeat_engaged_mismatches s \<ge> 3 then s\<lparr>controls_allowed := False\<rparr> else s
      else s\<lparr>heartbeat_engaged_mismatches := 0\<rparr>)"

text \<open>The idle mode of the board and its power saving once the heartbeat is gone.\<close>

definition heartbeat_idle :: "fw_build \<Rightarrow> can_hw \<Rightarrow> bool \<Rightarrow> panda_state \<Rightarrow> panda_state option" where
  "heartbeat_idle F hw started st =
     (if PANDA_NUCLEO (sb F) then
        do { st \<leftarrow> (if current_safety_mode (sfty st) \<noteq> SAFETY_NOOUTPUT
                   then set_safety_mode F hw SAFETY_NOOUTPUT 0 st else Some st);
             Some (if \<not> started \<and> power_save_status st \<noteq> POWER_SAVE_STATUS_ENABLED
                   then set_power_save_state F POWER_SAVE_STATUS_ENABLED st else st) }
      else
        do { st \<leftarrow> (if current_safety_mode (sfty st) \<noteq> SAFETY_SILENT
                   then set_safety_mode F hw SAFETY_SILENT 0 st else Some st);
             Some (if power_save_status st \<noteq> POWER_SAVE_STATUS_ENABLED
                   then set_power_save_state F POWER_SAVE_STATUS_ENABLED st else st) })"

definition tick_heartbeat ::
    "fw_build \<Rightarrow> can_hw \<Rightarrow> board \<Rightarrow> senses \<Rightarrow> bool \<Rightarrow> panda_state \<Rightarrow> panda_state option" where
  "tick_heartbeat F hw bd e started st =
     (if \<not> heartbeat_disabled st \<and>
         heartbeat_counter st \<ge> (if started then HEARTBEAT_IGNITION_CNT_ON else HEARTBEAT_IGNITION_CNT_OFF)
      then
        let st = (if controls_allowed_countdown st > 0
                  then st\<lparr>siren_countdown := 3, controls_allowed_countdown := 0\<rparr> else st);
            st = (if is_car_safety_mode (current_safety_mode (sfty st)) then st\<lparr>heartbeat_lost := True\<rparr> else st);
            st = upd_safety (\<lambda>s. s\<lparr>heartbeat_engaged := False\<rparr>) st
        in do { st \<leftarrow> heartbeat_idle F hw started st;
                Some (st\<lparr>ir_power := 0, fan := fan_set_power bd (if som_gpio e then 30 else 0) (fan st)\<rparr>) }
      else Some st)"

definition FAULT_REGISTER_DIVERGENT :: u32 where "FAULT_REGISTER_DIVERGENT = 2 ^ 18"

definition tick_safety :: "senses \<Rightarrow> panda_state \<Rightarrow> panda_state" where
  "tick_safety e st =
     (let st = (if register_divergent e then upd_safety (fault_occurred FAULT_REGISTER_DIVERGENT) st else st);
          st = upd_can (\<lambda>c. if ignition_can_cnt c > 2 then c\<lparr>ignition_can := False\<rparr> else c) st;
          st = st\<lparr>uptime_cnt := uptime_cnt st + 1\<rparr>;
          st = upd_safety (\<lambda>s. s\<lparr>safety_mode_cnt := safety_mode_cnt s + 1\<rparr>) st;
          st = upd_can (\<lambda>c. c\<lparr>ignition_can_cnt := ignition_can_cnt c + 1\<rparr>) st
      in upd_safety safety_tick st)"

definition tick_second :: "fw_build \<Rightarrow> can_hw \<Rightarrow> board \<Rightarrow> senses \<Rightarrow> panda_state \<Rightarrow> panda_state option" where
  "tick_second F hw bd e st =
     (let st = tick_live st;
          recent_heartbeat = heartbeat_counter st = 0;
          started = harness_check_ignition e (harness st) \<or> ignition_can (can st);
          st = st\<lparr>bootkick := bootkick_tick e (harness_status (harness st)) started recent_heartbeat (bootkick st)\<rparr>;
          st = tick_counters st;
          st = upd_safety tick_engaged st
      in do { st \<leftarrow> tick_heartbeat F hw bd e started st; Some (tick_safety e st) })"

text \<open>The handler; the timer's status flag is set when it is called.\<close>

definition tick_handler :: "fw_build \<Rightarrow> can_hw \<Rightarrow> board \<Rightarrow> senses \<Rightarrow> panda_state \<Rightarrow> panda_state option" where
  "tick_handler F hw bd e st =
     do { st \<leftarrow> tick_harness F hw (tick_drivers bd e st);
          st \<leftarrow> (if loop_counter st = 0 then tick_second F hw bd e st else Some st);
          Some (st\<lparr>loop_counter := (loop_counter st + 1) mod 8\<rparr>) }"

subsection \<open>Start\<close>

definition panda_reset :: "fw_build \<Rightarrow> panda_state" where
  "panda_reset F = \<lparr>can = can_state_init F, can_read_buffer = asm_empty, can_write_buffer = asm_empty,
     harness = harness_zero, bootkick = bootkick_init, fan = fan_zero,
     wd = \<lparr>wd_fault = 0, wd_last_ts = 0, wd_threshold = 0\<rparr>,
     power_save_status = POWER_SAVE_STATUS_DISABLED, transceivers = replicate 4 False,
     can_mode = 0, ir_power = 0, siren_on = False, green_led = False, blue_led = False, can_live = 0,
     uptime_cnt = 0, green_led_enabled = False, heartbeat_counter = 0, heartbeat_lost = False,
     heartbeat_disabled = False, siren_enabled = False, siren_countdown = 0,
     controls_allowed_countdown = 0, prev_harness_status = HARNESS_STATUS_NC, loop_counter = 0,
     enter_bootloader_mode = 0, timer_params = (0, 0)\<rparr>"

definition main_init :: "fw_build \<Rightarrow> can_hw \<Rightarrow> board \<Rightarrow> senses \<Rightarrow> panda_state option" where
  "main_init F hw bd e =
     (let st = panda_reset F;
          st = st\<lparr>can_mode := CAN_MODE_NORMAL, harness := harness_init (sb F) bd e (harness st),
                  siren_on := False,
                  fan := (if fan_max_rpm bd > 0 then fan_init bd (fan st) else fan st)\<rparr>
      in do { st \<leftarrow> set_safety_mode F hw (if PANDA_NUCLEO (sb F) then SAFETY_NOOUTPUT else SAFETY_SILENT) 0 st;
              Some ((enable_can_transceivers True st)
                \<lparr>wd := simple_watchdog_init FAULT_HEARTBEAT_LOOP_WATCHDOG (3 * 1000000 div 8)
                        (MICROSECOND_TIMER (sfty st))\<rparr>) })"

end
