(* ===== verification/Panda_Control.thy ===== *)
theory Panda_Control
  imports Panda_Main
begin

text \<open>
  The control requests of the host (\<^verbatim>\<open>firmware/board/main_comms.h\<close>). What a request reads from
  the hardware or the flash is an input; \<open>None\<close> is an access outside an array or a hang. The
  switch of the code is split in two: the requests that only answer, and those that act.
\<close>

unbundle bit_operations_syntax

subsection \<open>Requests and what they read\<close>

record ControlPacket_t =
  request :: u8
  param1 :: u16
  param2 :: u16
  req_length :: u16

record control_env =
  voltage_mV :: u32
  current_mA :: u32
  interrupt_load :: u32           \<comment> \<open>the bits of the \<open>float\<close>\<close>
  spi_error_bytes :: "u8 list"    \<comment> \<open>not written on F4 boards: what the response buffer held\<close>
  hw_type :: u8
  uid_bytes :: "u8 list"
  call_rates :: "u32 list"        \<comment> \<open>\<open>interrupts[i].call_rate\<close>\<close>
  serial_number :: "u8 list"
  provision_chunk :: "u8 list"
  signature_at :: "nat \<Rightarrow> u8 list" \<comment> \<open>64 bytes of the image after its code, from an offset\<close>
  serial_stats_bytes :: "u8 list"
  ep1_counters :: "u32 \<times> u32"
  can_registers :: "nat \<Rightarrow> u32 list"
  gitversion :: "u8 list"
  uart_pending :: "int \<Rightarrow> u8 list option"  \<comment> \<open>\<open>get_ring_by_number\<close> and the bytes waiting in the ring\<close>

definition le16 :: "u16 \<Rightarrow> u8 list" where
  "le16 w = [ucast w, ucast (drop_bit 8 w)]"

definition bool_byte :: "bool \<Rightarrow> u8" where
  "bool_byte b = (if b then 1 else 0)"

text \<open>The packed decoded state, and the dongle identity or its replacement when the flash is blank
  (\<^verbatim>\<open>provision.h\<close>).\<close>

definition vehicle_state_bytes :: "VehicleState_t \<Rightarrow> u8 list" where
  "vehicle_state_bytes v =
     le16 (vs_counter v) @ le16 (steer_angle v) @ le16 (steer_rate v) @ le16 (steer_torque v) @
     [torque_sensor v] @ le16 (vs_speed v) @ le16 (rpm v) @ le16 (pedal_gas v) @ le16 (wheel_fl v) @
     le16 (wheel_fr v) @ le16 (wheel_rl v) @ le16 (wheel_rr v) @ word_bytes (rx_frames v)"

definition PROVISION_CHUNK_LEN :: nat where "PROVISION_CHUNK_LEN = 0x20"

definition get_provision_chunk :: "u8 list \<Rightarrow> u8 list" where
  "get_provision_chunk flash =
     (if flash = replicate PROVISION_CHUNK_LEN 0xff
      then map (of_nat \<circ> of_char) ''unprovisioned'' @ [0, 0, 0] @ map (of_nat \<circ> of_char) ''testing123'' @
        [0, 0, 0xa3, 0xa6, 0x99, 0xec]
      else flash)"

subsection \<open>Health packets\<close>

definition get_health_pkt :: "control_env \<Rightarrow> senses \<Rightarrow> panda_state \<Rightarrow> u8 list" where
  "get_health_pkt ce e st =
     word_bytes (uptime_cnt st) @ word_bytes (voltage_mV ce) @ word_bytes (current_mA ce) @
     word_bytes (safety_tx_blocked (can st)) @ word_bytes (safety_rx_invalid (can st)) @
     word_bytes (tx_buffer_overflow (can st)) @ word_bytes (rx_buffer_overflow (can st)) @
     word_bytes (faults (sfty st)) @
     [bool_byte (harness_check_ignition e (harness st)), bool_byte (ignition_can (can st)),
      bool_byte (controls_allowed (sfty st)), harness_status (harness st),
      ucast (current_safety_mode (sfty st))] @
     le16 (current_safety_param (sfty st)) @
     [fault_status (sfty st), bool_byte (power_save_status st = POWER_SAVE_STATUS_ENABLED),
      bool_byte (heartbeat_lost st)] @
     le16 (word_of_int (alternative_experience (sfty st))) @ word_bytes (interrupt_load ce) @
     [fan_power (fan st), bool_byte (safety_rx_checks_invalid (sfty st))] @ spi_error_bytes ce @
     [total_stall_count (fan st)] @ le16 (sbu1_voltage_mV (harness st)) @
     le16 (sbu2_voltage_mV (harness st)) @ [bool_byte (bootkick_reset_triggered (bootkick st))]"

definition can_health_bytes :: "control_env \<Rightarrow> nat list \<Rightarrow> can_health_t \<Rightarrow> bus_config_t \<Rightarrow> u8 list" where
  "can_health_bytes ce irqs h b =
     [ucast (bus_off h)] @ word_bytes (bus_off_cnt h) @
     [ucast (error_warning h), ucast (error_passive h), ucast (last_error h), ucast (last_stored_error h),
      0, 0, ucast (receive_error_cnt h), ucast (transmit_error_cnt h)] @
     word_bytes (total_error_cnt h) @ word_bytes (total_tx_lost_cnt h) @ word_bytes (total_rx_lost_cnt h) @
     word_bytes (total_tx_cnt h) @ word_bytes (total_rx_cnt h) @ word_bytes (total_fwd_cnt h) @
     word_bytes (total_tx_checksum_error_cnt h) @
     le16 (ucast (can_speed b div 10)) @ le16 (ucast (can_data_speed b div 10)) @
     [bool_byte (canfd_enabled b), bool_byte (brs_enabled b), bool_byte (canfd_non_iso b)] @
     concat (map (\<lambda>i. word_bytes (call_rates ce ! i)) irqs) @ word_bytes (can_core_reset_cnt h)"

text \<open>The interrupt numbers of the cores; the third entry is the second core on two-core boards.\<close>

definition can_irq_number :: "fw_build \<Rightarrow> nat \<Rightarrow> nat list" where
  "can_irq_number F n =
     (let c = CANIF_FROM_CAN_NUM F n in
      if c = 0 then [19, 20, 22] else if c = 1 then [63, 64, 66] else [74, 75, 77])"

subsection \<open>Requests that only answer\<close>

definition USBPACKET_MAX_SIZE :: nat where "USBPACKET_MAX_SIZE = 0x40"

definition control_query ::
    "fw_build \<Rightarrow> control_env \<Rightarrow> senses \<Rightarrow> ControlPacket_t \<Rightarrow> panda_state \<Rightarrow> u8 list option" where
  "control_query F ce e req st =
     (let r = request req; p1 = unat (param1 req) in
      if r = 0xa8 then Some (word_bytes (MICROSECOND_TIMER (sfty st)))
      else if r = 0xb2 then Some (le16 (fan_rpm (fan st)))
      else if r = 0xc1 then Some [hw_type ce]
      else if r = 0xc3 then Some (uid_bytes ce)
      else if r = 0xc4 then Some (if p1 < length (call_rates ce) then word_bytes (call_rates ce ! p1) else [])
      else if r = 0xc6 then Some [bool_byte (som_gpio e)]
      else if r = 0xd0 then Some (if p1 = 1 then serial_number ce else get_provision_chunk (provision_chunk ce))
      else if r = 0xd2 then Some (get_health_pkt ce e st)
      else if r = 0xd3 then Some (signature_at ce 0)
      else if r = 0xd4 then Some (signature_at ce 64)
      else if r = 0xd5 \<and> PANDA_NUCLEO (sb F) then Some (vehicle_state_bytes (vstate (can st)))
      else if r = 0xd9 \<and> PANDA_NUCLEO (sb F) \<and> PANDA_SERIAL_LINK F then Some (serial_stats_bytes ce)
      else if r = 0xda \<and> PANDA_NUCLEO (sb F)
        then Some (word_bytes (fst (ep1_counters ce)) @ word_bytes (snd (ep1_counters ce)))
      else if r = 0xd7 \<and> PANDA_NUCLEO (sb F)
        then Some (if p1 < 3 then concat (map word_bytes (can_registers ce (CANIF_FROM_CAN_NUM F p1))) else [])
      else if r = 0xd6 then Some (gitversion ce)
      else if r = 0xdd then Some [16, 4, 5]
      else if r = 0xe0 then Some (case uart_pending ce (int p1) of None \<Rightarrow> []
        | Some cs \<Rightarrow> take (min (unat (req_length req)) USBPACKET_MAX_SIZE) cs)
      else None)"

subsection \<open>Requests that act\<close>

datatype control_outcome =
    Replied "u8 list" panda_state
  | Reset panda_state               \<comment> \<open>\<open>NVIC_SystemReset\<close>\<close>

definition ENTER_BOOTLOADER_MAGIC :: u32 where "ENTER_BOOTLOADER_MAGIC = 0xdeadbeef"
definition ENTER_SOFTLOADER_MAGIC :: u32 where "ENTER_SOFTLOADER_MAGIC = 0xdeadc0de"

text \<open>Bit rates in kbps times ten; the boards without CAN FD have no data rate but zero.\<close>

definition speeds :: "u32 list" where
  "speeds = [100, 200, 500, 1000, 1250, 2500, 5000, 10000]"

definition data_speeds :: "u32 list" where "data_speeds = [0]"

definition is_speed_valid :: "u32 \<Rightarrow> u32 list \<Rightarrow> bool" where
  "is_speed_valid speed all_speeds = fold (\<lambda>s ret. if s = speed then True else ret) all_speeds False"

definition upd_bus :: "nat \<Rightarrow> (bus_config_t \<Rightarrow> bus_config_t) \<Rightarrow> can_state \<Rightarrow> can_state" where
  "upd_bus n f c = c\<lparr>bus_config := (bus_config c)[n := f (bus_config c ! n)]\<rparr>"

definition reinit_bus :: "fw_build \<Rightarrow> can_hw \<Rightarrow> nat \<Rightarrow> can_state \<Rightarrow> can_state option" where
  "reinit_bus F hw n c = can_init F hw (can_num_lookup (bus_config c ! n)) c"

definition set_bitrate :: "fw_build \<Rightarrow> can_hw \<Rightarrow> nat \<Rightarrow> u32 \<Rightarrow> can_state \<Rightarrow> can_state option" where
  "set_bitrate F hw n speed c =
     (if n < PANDA_BUS_CNT \<and> is_speed_valid speed speeds
      then reinit_bus F hw n (upd_bus n (\<lambda>b. b\<lparr>can_speed := speed\<rparr>) c) else Some c)"

definition set_data_bitrate :: "fw_build \<Rightarrow> can_hw \<Rightarrow> nat \<Rightarrow> u32 \<Rightarrow> can_state \<Rightarrow> can_state option" where
  "set_data_bitrate F hw n speed c =
     (if n < PANDA_CAN_CNT \<and> is_speed_valid speed data_speeds
      then reinit_bus F hw n (upd_bus n (\<lambda>b. b\<lparr>can_data_speed := speed,
             canfd_enabled := speed \<ge> can_speed b, brs_enabled := speed > can_speed b\<rparr>) c)
      else Some c)"

definition set_non_iso :: "fw_build \<Rightarrow> can_hw \<Rightarrow> nat \<Rightarrow> bool \<Rightarrow> can_state \<Rightarrow> can_state option" where
  "set_non_iso F hw n v c =
     (if n < PANDA_CAN_CNT
      then reinit_bus F hw n (upd_bus n (\<lambda>b. b\<lparr>canfd_non_iso := v\<rparr>) c) else Some c)"

text \<open>The index of this request is not checked.\<close>

definition set_canfd_auto :: "nat \<Rightarrow> bool \<Rightarrow> can_state \<Rightarrow> can_state option" where
  "set_canfd_auto n v c =
     (if n < length (bus_config c) then Some (upd_bus n (\<lambda>b. b\<lparr>canfd_auto := v\<rparr>) c) else None)"

definition clear_queue :: "nat \<Rightarrow> can_state \<Rightarrow> can_state" where
  "clear_queue p c =
     (if p = 0xFFFF then refresh_can_tx_slots_available (c\<lparr>can_rx_q := can_clear (can_rx_q c)\<rparr>)
      else if p < PANDA_BUS_CNT then
        refresh_can_tx_slots_available (c\<lparr>can_queues := (can_queues c)[p := can_clear (can_queues c ! p)]\<rparr>)
      else c)"

definition enter_bootloader :: "fw_build \<Rightarrow> nat \<Rightarrow> panda_state \<Rightarrow> control_outcome" where
  "enter_bootloader F p st =
     (if p = 0 \<and> ALLOW_DEBUG (sb F) then Reset (st\<lparr>enter_bootloader_mode := ENTER_BOOTLOADER_MAGIC\<rparr>)
      else if p = 1 then Reset (st\<lparr>enter_bootloader_mode := ENTER_SOFTLOADER_MAGIC\<rparr>)
      else Replied [] st)"

definition heartbeat_received :: "bool \<Rightarrow> panda_state \<Rightarrow> panda_state" where
  "heartbeat_received engaged st =
     upd_safety (\<lambda>s. s\<lparr>heartbeat_engaged := engaged\<rparr>)
       (st\<lparr>heartbeat_counter := 0, heartbeat_lost := False, heartbeat_disabled := False\<rparr>)"

text \<open>The requests that change the state of the CAN driver and nothing else.\<close>

definition control_can :: "fw_build \<Rightarrow> can_hw \<Rightarrow> ControlPacket_t \<Rightarrow> can_state \<Rightarrow> can_state option" where
  "control_can F hw req c =
     (let r = request req; p1 = unat (param1 req) in
      if r = 0xde then set_bitrate F hw p1 (ucast (param2 req)) c
      else if r = 0xe5 then can_init_all F hw (c\<lparr>can_loopback := param1 req > 0\<rparr>)
      else if r = 0xe8 then set_canfd_auto p1 (param2 req > 0) c
      else if r = 0xf1 then Some (clear_queue p1 c)
      else if r = 0xf9 then set_data_bitrate F hw p1 (ucast (param2 req)) c
      else if r = 0xfc then set_non_iso F hw p1 (param2 req \<noteq> 0) c
      else Some c)"

text \<open>The requests that act on one variable or one driver each.\<close>

definition control_simple :: "fw_build \<Rightarrow> board \<Rightarrow> ControlPacket_t \<Rightarrow> panda_state \<Rightarrow> panda_state" where
  "control_simple F bd req st =
     (let r = request req; p1 = param1 req in
      if r = 0xb0 then st\<lparr>ir_power := ucast p1\<rparr>
      else if r = 0xb1 then st\<lparr>fan := fan_set_power bd (ucast p1) (fan st)\<rparr>
      else if r = 0xc0 then st\<lparr>can_read_buffer := comms_can_reset (can_read_buffer st),
                               can_write_buffer := comms_can_reset (can_write_buffer st)\<rparr>
      else if r = 0xc5 then st\<lparr>harness := set_intercept_relay (bit p1 0) (bit p1 1) (harness st)\<rparr>
      else if r = 0xdb then st\<lparr>can_mode := (if p1 = 1 then CAN_MODE_OBD_CAN2 else CAN_MODE_NORMAL)\<rparr>
      else if r = 0xdf then
        (if \<not> is_car_safety_mode (current_safety_mode (sfty st))
         then upd_safety (\<lambda>s. s\<lparr>alternative_experience := uint p1\<rparr>) st else st)
      else if r = 0xe6 then st\<lparr>timer_params := (p1, param2 req)\<rparr>
      else if r = 0xe7 then set_power_save_state F (uint p1) st
      else if r = 0xf3 then heartbeat_received (p1 = 1) st
      else if r = 0xf6 then st\<lparr>siren_enabled := p1 \<noteq> 0\<rparr>
      else if r = 0xf7 then st\<lparr>green_led_enabled := p1 \<noteq> 0\<rparr>
      else if r = 0xf8 then
        (if \<not> is_car_safety_mode (current_safety_mode (sfty st)) then st\<lparr>heartbeat_disabled := True\<rparr> else st)
      else st)"

text \<open>The statistics of a core are refreshed before they are sent.\<close>

definition control_can_health ::
    "fw_build \<Rightarrow> can_hw \<Rightarrow> control_env \<Rightarrow> nat \<Rightarrow> panda_state \<Rightarrow> control_outcome" where
  "control_can_health F hw ce n st =
     (if n < 3 then
        let st = upd_can (update_can_health_pkt F hw n 0) st
        in Replied (can_health_bytes ce (can_irq_number F n) (can_health (can st) ! n) (bus_config (can st) ! n)) st
      else Replied [] st)"

definition comms_control_handler ::
    "fw_build \<Rightarrow> can_hw \<Rightarrow> board \<Rightarrow> control_env \<Rightarrow> senses \<Rightarrow> ControlPacket_t \<Rightarrow> panda_state
     \<Rightarrow> control_outcome option" where
  "comms_control_handler F hw bd ce e req st =
     (case control_query F ce e req st of
        Some resp \<Rightarrow> Some (Replied resp st)
      | None \<Rightarrow>
          let r = request req; p1 = unat (param1 req) in
          if r = 0xc2 then Some (control_can_health F hw ce p1 st)
          else if r = 0xd1 then Some (enter_bootloader F p1 st)
          else if r = 0xd8 then Some (Reset st)
          else if r = 0xdc then map_option (Replied []) (set_safety_mode F hw (param1 req) (param2 req) st)
          else if r \<in> {0xde, 0xe5, 0xe8, 0xf1, 0xf9, 0xfc}
            then map_option (Replied []) (try_can (control_can F hw req) st)
          else Some (Replied [] (control_simple F bd req st)))"

end
