(* ===== verification/Panda_System.thy ===== *)
theory Panda_System
  imports Can_Driver_Properties Panda_Control
begin

text \<open>
  The firmware as a system: the interrupts of the CAN cores, the timer tick, the transfers and
  the control requests of the host, in any order, from the start of \<^verbatim>\<open>main\<close> on. Every run of
  the firmware is a run of the safety layer (\<^verbatim>\<open>Safety_System\<close>), and what is in a transmit queue
  or a mailbox was allowed or forwarded in that run.
\<close>

subsection \<open>The invariant of the driver in the system\<close>

text \<open>The frames a run of the safety layer accounts for.\<close>

definition origin :: "event list \<Rightarrow> CANPacket set" where
  "origin es = {p. Tx p True \<in> set es} \<union> {p. \<exists>q ok hw. Rx q ok \<in> set es \<and> forwarded_copy hw q = Some p}"

lemma origin_append: "origin (es @ fs) = origin es \<union> origin fs"
  by (auto simp: origin_def)

definition lookups :: "bus_config_t list \<Rightarrow> (nat \<times> nat) list" where
  "lookups cfg = map (\<lambda>b. (bus_lookup b, can_num_lookup b)) cfg"

definition config_shape :: "fw_build \<Rightarrow> bus_config_t list \<Rightarrow> bool" where
  "config_shape F cfg \<longleftrightarrow>
     (if STM32F446 F then lookups cfg = [(0, 0), (2, 0xFF), (0xFF, 1), (0xFF, 0xFF)]
      else lookups cfg = [(0, 0), (1, 1), (2, 2), (0xFF, 0xFF)] \<or>
           lookups cfg = [(2, 2), (1, 1), (0, 0), (0xFF, 0xFF)])"

lemma lookups_nth: "n < length cfg \<Longrightarrow>
    bus_lookup (cfg ! n) = fst (lookups cfg ! n) \<and> can_num_lookup (cfg ! n) = snd (lookups cfg ! n)"
  by (simp add: lookups_def)

lemma lookups_length [simp]: "length (lookups cfg) = length cfg"
  by (simp add: lookups_def)

lemma below_three: "b < (3::nat) \<longleftrightarrow> b = 0 \<or> b = 1 \<or> b = 2" by auto

lemma config_shape_facts:
  assumes "config_shape F cfg"
  shows "length cfg = 4" and "config_ok cfg" and "serves cfg 0" and "serves cfg 1"
    and "\<not> STM32F446 F \<Longrightarrow> serves cfg 2"
proof -
  have "length (lookups cfg) = 4"
    using assms by (auto simp: config_shape_def simp del: lookups_length split: if_splits)
  then show len: "length cfg = 4" by simp
  note nth = lookups_nth [of 0 cfg] lookups_nth [of 1 cfg] lookups_nth [of 2 cfg] len
  show "config_ok cfg" "serves cfg 0" "serves cfg 1" "\<not> STM32F446 F \<Longrightarrow> serves cfg 2"
    using assms nth by (auto simp: config_shape_def config_ok_def serves_def below_three split: if_splits)
qed

lemma config_shape_update:
  assumes "bus_lookup (f (cfg ! n)) = bus_lookup (cfg ! n)" and "can_num_lookup (f (cfg ! n)) = can_num_lookup (cfg ! n)"
  shows "config_shape F (cfg[n := f (cfg ! n)]) = config_shape F cfg"
proof -
  have "lookups (cfg[n := f (cfg ! n)]) = lookups cfg"
    using assms by (cases "n < length cfg")
      (simp_all add: lookups_def map_update list_update_same_conv list_update_beyond)
  then show ?thesis by (simp add: config_shape_def)
qed

lemma config_shape_orientation:
  assumes "config_shape F cfg"
  shows "config_shape F (can_set_orientation F flipped cfg)"
proof (cases "STM32F446 F")
  case True
  with assms show ?thesis by (simp add: can_set_orientation_def)
next
  case False
  have "length cfg = 4" by (rule config_shape_facts(1) [OF assms])
  then obtain a b c d where cfg: "cfg = [a, b, c, d]" by (auto simp: numeral_eq_Suc length_Suc_conv)
  show ?thesis using assms False
    by (auto simp: cfg config_shape_def lookups_def can_set_orientation_def Let_def numeral_2_eq_2)
qed

definition mailbox_from :: "event list \<Rightarrow> can_core \<Rightarrow> bool" where
  "mailbox_from es c \<longleftrightarrow> mail c = mail core_reset \<or>
     (\<exists>p \<in> origin es. can_check_checksum p = Some True \<and> mail c = mail_of p)"

definition accounted :: "fw_build \<Rightarrow> event list \<Rightarrow> can_state \<Rightarrow> bool" where
  "accounted F es c \<longleftrightarrow> safety_run (sb F) boot_state es (safety c) \<and>
     (\<forall>b < 3. queued b c \<subseteq> origin es) \<and> (\<forall>k < 3. mailbox_from es (cans c ! k))"

definition sound :: "fw_build \<Rightarrow> can_state \<Rightarrow> bool" where
  "sound F c \<longleftrightarrow> driver_ok c \<and> config_shape F (bus_config c) \<and> (\<exists>es. accounted F es c)"

lemma mailbox_from_mono: "mailbox_from es c \<Longrightarrow> mailbox_from (es @ fs) c"
  by (auto simp: mailbox_from_def origin_append)

lemma accounted_flow:
  assumes "accounted F es c" and "flow F (\<lambda>_. origin fs) c c'"
    and "safety_run (sb F) (safety c) fs (safety c')"
  shows "accounted F (es @ fs) c'"
proof -
  have q: "queued b c \<subseteq> origin es" "queued b c' \<subseteq> queued b c \<union> origin fs" if "b < 3" for b
    using assms(1,2) that by (auto simp: accounted_def flow_def)
  have "mailbox_from (es @ fs) (cans c' ! k)" if k: "k < 3" for k
  proof (cases "mail (cans c' ! k) = mail (cans c ! k)")
    case True
    have "mailbox_from (es @ fs) (cans c ! k)"
      using assms(1) k by (simp add: accounted_def mailbox_from_mono)
    with True show ?thesis by (simp add: mailbox_from_def)
  next
    case False
    then have "loaded F (\<lambda>_. origin fs) c k (cans c' ! k)" using assms(2) k by (auto simp: flow_def)
    then obtain b p where "b < 3" "p \<in> queued b c \<union> origin fs" "can_check_checksum p = Some True"
      "mail (cans c' ! k) = mail_of p"
      by (auto simp: loaded_def)
    moreover from this q(1) have "p \<in> origin (es @ fs)" by (auto simp: origin_append)
    ultimately show ?thesis by (auto simp: mailbox_from_def)
  qed
  moreover have "queued b c' \<subseteq> origin (es @ fs)" if "b < 3" for b
    using q [OF that] by (auto simp: origin_append)
  moreover have "safety_run (sb F) boot_state (es @ fs) (safety c')"
    using assms(1,3) safety_run_append unfolding accounted_def by blast
  ultimately show ?thesis by (simp add: accounted_def)
qed

lemma origin_nil [simp]: "origin [] = {}"
  by (simp add: origin_def)

lemma flow_mono: "flow F A c c' \<Longrightarrow> (\<And>b. A b \<subseteq> B b) \<Longrightarrow> flow F B c c'"
proof -
  assume flow: "flow F A c c'" and sub: "\<And>b. A b \<subseteq> B b"
  have "loaded F A c k core \<Longrightarrow> loaded F B c k core" for k core
    using sub unfolding loaded_def by blast
  moreover have "queued b c \<union> A b \<subseteq> queued b c \<union> B b" for b using sub by blast
  ultimately show ?thesis using flow unfolding flow_def by (meson order_trans)
qed

lemma sound_flow:
  assumes "sound F c" and "driver_ok c'" and "config_shape F (bus_config c')"
    and "flow F A c c'" and "\<And>b. A b \<subseteq> origin fs" and "safety_run (sb F) (safety c) fs (safety c')"
  shows "sound F c'"
  using assms(1-3) accounted_flow [OF _ flow_mono [OF assms(4,5)] assms(6)] by (auto simp: sound_def)

lemma sound_calm: "sound F c \<Longrightarrow> calm F (\<lambda>_. {}) c c' \<Longrightarrow> sound F c'"
  by (rule sound_flow [where A = "\<lambda>_. {}" and fs = "[]"]) (auto simp: calm_def sound_def)

text \<open>Fields the invariant does not look at.\<close>

lemma accounted_same:
  "safety c' = safety c \<Longrightarrow> can_queues c' = can_queues c \<Longrightarrow> cans c' = cans c \<Longrightarrow>
    accounted F es c' = accounted F es c"
  by (simp add: accounted_def queued_def)

lemma sound_config_rx:
  assumes "sound F c" and "safety c' = safety c" and "can_queues c' = can_queues c" and "cans c' = cans c"
    and "config_shape F (bus_config c')" and "queue_ok (can_rx_q c')"
  shows "sound F c'"
  using assms(1,5,6) config_shape_facts(2) [OF assms(5)] accounted_same [OF assms(2-4), of F]
  by (simp add: sound_def driver_ok_def assms(2-4))

lemma sound_same:
  assumes "sound F c" and "safety c' = safety c" and "can_queues c' = can_queues c" and "cans c' = cans c"
    and "bus_config c' = bus_config c" and "can_rx_q c' = can_rx_q c"
  shows "sound F c'"
  using assms(1) by (intro sound_config_rx [OF assms(1-4)]) (simp_all add: assms sound_def driver_ok_def)

lemma sound_event:
  assumes "sound F c" and "safety_step (sb F) (safety c) e s"
  shows "sound F (c\<lparr>safety := s\<rparr>)"
proof (rule sound_flow [OF assms(1)])
  show "driver_ok (c\<lparr>safety := s\<rparr>)" "config_shape F (bus_config (c\<lparr>safety := s\<rparr>))"
    using assms(1) by (simp_all add: sound_def)
  show "flow F (\<lambda>_. {}) c (c\<lparr>safety := s\<rparr>)" by (simp add: flow_def queued_def)
  show "safety_run (sb F) (safety c) [e] (safety (c\<lparr>safety := s\<rparr>))"
    using run_cons [OF assms(2) run_nil] by simp
qed simp

subsection \<open>The driver keeps the invariant\<close>

lemma sound_driver: "sound F c \<Longrightarrow> driver_ok c" "sound F c \<Longrightarrow> config_shape F (bus_config c)"
  by (simp_all add: sound_def)

lemma send_origin: "sends F False b p s b' \<subseteq> origin (send_events F False p s)"
  by (auto simp: sends_def send_events_def origin_def)

lemma sound_send:
  assumes "sound F c" and "pkt_ok p"
  shows "\<exists>c'. host_send F hw p c = Some c' \<and> sound F c'"
proof -
  obtain c' where "host_send F hw p c = Some c'" and ok: "driver_ok c'" "bus_config c' = bus_config c"
    and flow: "flow F (sends F False (nat (bus p)) p (safety c)) c c'"
    and run: "safety_run (sb F) (safety c) (send_events F False p (safety c)) (safety c')"
    using can_send_ok [OF sound_driver(1) [OF assms(1)] assms(2), of F hw False "nat (bus p)"]
    by (auto simp: host_send_def)
  moreover have "config_shape F (bus_config c')" using ok(2) sound_driver(2) [OF assms(1)] by simp
  ultimately show ?thesis using sound_flow [OF assms(1) ok(1) _ flow send_origin run] by blast
qed

lemma forwards_origin: "forwards F hw s b p b' \<subseteq> origin [Rx p ok]"
  by (auto simp: forwards_def origin_def Let_def)

lemma sound_rx_effects: "rx_effects F hw n c ps c' \<Longrightarrow> sound F c \<Longrightarrow> sound F c'"
proof (induction rule: rx_effects.induct)
  case (rx_none c)
  then show ?case .
next
  case (rx_more p c c' ps c'')
  let ?e = "Rx p (fst (safety_rx_hook (hooks_of (sb F)) p (safety c)))"
  have eff: "driver_ok c'" "bus_config c' = bus_config c"
    "flow F (forwards F hw (safety c) (bus_lookup (bus_config c ! n)) p) c c'"
    "safety_step (sb F) (safety c) ?e (safety c')"
    using rx_more.hyps(1) by (simp_all add: rx_effect_def)
  have "config_shape F (bus_config c')" using eff(2) sound_driver(2) [OF rx_more.prems] by simp
  from sound_flow [OF rx_more.prems eff(1) this eff(3) forwards_origin run_cons [OF eff(4) run_nil]]
  show ?case by (rule rx_more.IH)
qed

lemma sound_core:
  assumes "sound F c" and "\<And>k. core_ok k \<Longrightarrow> core_ok (f k)" and "\<And>k. mail (f k) = mail k"
  shows "sound F (upd_core n f c)"
  by (rule sound_calm [OF assms(1) calm_core [OF sound_driver(1) [OF assms(1)] assms(2,3)]])

lemma sound_health: "sound F c \<Longrightarrow> sound F (upd_health n f c)"
  by (rule sound_calm [OF _ calm_health]) (simp_all add: sound_driver)

lemma sound_refresh: "sound F c \<Longrightarrow> sound F (refresh_can_tx_slots_available c)"
  by (rule sound_calm [OF _ calm_refresh]) (simp_all add: sound_driver)

lemma sound_can_rx:
  assumes "length (stack_bytes hw) = 8" and c: "sound F c"
  shows "if list_all mailbox_ok (rx_fifo (cans c ! CANIF_FROM_CAN_NUM F n))
    then \<exists>c'. can_rx F hw n c = Some c' \<and> sound F c' else can_rx F hw n c = None"
proof -
  let ?c = "upd_core (CANIF_FROM_CAN_NUM F n) (\<lambda>c. c\<lparr>fifo_overrun := False\<rparr>) c"
  have "sound F ?c" by (rule sound_core [OF c]) (simp_all add: mail_def)
  then show ?thesis using can_rx_ok [OF assms(1) sound_driver(1) [OF c], of F n] sound_rx_effects
    by (metis (no_types, lifting))
qed

lemma sound_process_can:
  assumes "sound F c" and "n = 0xFF \<or> serves (bus_config c) n"
  shows "\<exists>c'. process_can F hw n c = Some c' \<and> sound F c'"
  using process_can_ok [OF sound_driver(1) [OF assms(1)] assms(2)] sound_calm [OF assms(1)] by blast

lemma sound_can_clear_send: "sound F c \<Longrightarrow> sound F (can_clear_send hw core n c)"
  unfolding can_clear_send_def llcan_clear_send_def
  by (intro sound_core sound_health) (simp_all add: mail_def)

lemma sound_can_health: "sound F c \<Longrightarrow> sound F (update_can_health_pkt F hw n ir c)"
  unfolding update_can_health_pkt_def Let_def
  by (auto intro!: sound_can_clear_send sound_health sound_core simp: mail_def)

lemma sound_can_sce: "sound F c \<Longrightarrow> sound F (can_sce F hw n c)"
  unfolding can_sce_def by (intro sound_can_health sound_core) (simp_all add: mail_def)

lemma set_speed_frame:
  "bus_config (can_set_speed F hw n c) = bus_config c" "bus_config (llcan_init hw k c) = bus_config c"
  by (simp_all add: can_set_speed_def llcan_init_def upd_core_def)

lemma sound_set_speed: "sound F c \<Longrightarrow> sound F (can_set_speed F hw n c)"
  unfolding can_set_speed_def by (auto intro!: sound_core simp: mail_def)

lemma sound_llcan_init: "sound F c \<Longrightarrow> sound F (llcan_init hw k c)"
proof -
  assume "sound F c"
  then have "sound F (upd_core k (\<lambda>c. c\<lparr>fifo_overrun := False\<rparr>) c)" by (rule sound_core) (simp_all add: mail_def)
  then have "sound F ((upd_core k (\<lambda>c. c\<lparr>fifo_overrun := False\<rparr>) c)\<lparr>can_irq := i\<rparr>)" for i
    by (rule sound_same) simp_all
  with \<open>sound F c\<close> show ?thesis by (simp add: llcan_init_def)
qed

lemma sound_can_init:
  assumes c: "sound F c" and n: "n = 0xFF \<or> serves (bus_config c) n"
  shows "\<exists>c'. can_init F hw n c = Some c' \<and> sound F c'"
proof (cases "n = 0xFF")
  case True
  with c show ?thesis by (simp add: can_init_def)
next
  case False
  let ?c = "llcan_init hw (CANIF_FROM_CAN_NUM F n) (can_set_speed F hw n c)"
  have "\<not> length (bus_config c) \<le> bus_lookup (bus_config c ! n)"
    using n False config_shape_facts(1) [OF sound_driver(2) [OF c]] by (auto simp: serves_def)
  moreover have "\<exists>c'. process_can F hw n ?c = Some c' \<and> sound F c'"
    using n by (intro sound_process_can sound_llcan_init sound_set_speed c) (simp add: set_speed_frame)
  ultimately show ?thesis using False by (simp add: can_init_def)
qed

text \<open>A cleared queue.\<close>

lemma sound_clear:
  assumes c: "sound F c" and b: "b < 3"
  shows "sound F (c\<lparr>can_queues := (can_queues c)[b := can_clear (can_queues c ! b)]\<rparr>)"
proof -
  have ring: "ring_ok (can_queues c ! b)"
    using driver_queue [OF sound_driver(1) [OF c] b] by (simp add: queue_ok_def)
  show ?thesis
    using can_clear_ok [OF ring]
    by (intro sound_calm [OF c] calm_queue sound_driver(1) [OF c] queue_clear [OF ring]) simp
qed

lemma sound_can_init_one:
  assumes c: "sound F c" and i: "i < 3"
  shows "\<exists>c'. can_init_one F hw i c = Some c' \<and> sound F c'"
proof -
  define c1 where "c1 = (if CANFD (sb F) then c
    else c\<lparr>bus_config := (bus_config c)[i := (bus_config c ! i)\<lparr>can_data_speed := 0\<rparr>]\<rparr>)"
  have shape: "config_shape F (bus_config c1)"
    using sound_driver(2) [OF c] config_shape_update [of "\<lambda>b. b\<lparr>can_data_speed := 0\<rparr>" "bus_config c" i F]
    by (simp add: c1_def)
  have "sound F c1"
    by (rule sound_config_rx [OF c _ _ _ shape])
      (use c in \<open>simp_all add: c1_def sound_def driver_ok_def\<close>)
  then have c2: "sound F (refresh_can_tx_slots_available
      (c1\<lparr>can_queues := (can_queues c1)[i := can_clear (can_queues c1 ! i)]\<rparr>))" (is "sound F ?c2")
    using i by (intro sound_refresh sound_clear)
  have one: "can_init_one F hw i c = (if (STM32F446 F \<or> STM32F407 F) \<and> i \<ge> F446_CAN_CNT then Some ?c2
      else can_init F hw i ?c2)"
    by (simp add: can_init_one_def c1_def Let_def)
  show ?thesis
  proof (cases "(STM32F446 F \<or> STM32F407 F) \<and> i \<ge> F446_CAN_CNT")
    case True
    with c2 one show ?thesis by simp
  next
    case False
    then have "serves (bus_config ?c2) i"
      using i config_shape_facts(3-5) [OF sound_driver(2) [OF c2]] by (auto simp: F446_CAN_CNT_def below_three)
    from sound_can_init [OF c2, of i hw] this False one show ?thesis by auto
  qed
qed

lemma sound_can_init_all:
  assumes "sound F c"
  shows "\<exists>c'. can_init_all F hw c = Some c' \<and> sound F c'"
proof -
  obtain c0 where "can_init_one F hw 0 c = Some c0" "sound F c0" using sound_can_init_one [OF assms, of 0] by auto
  moreover from this(2) obtain c1 where "can_init_one F hw 1 c0 = Some c1" "sound F c1"
    using sound_can_init_one [of F c0 1] by auto
  moreover from this(2) obtain c2 where "can_init_one F hw 2 c1 = Some c2" "sound F c2"
    using sound_can_init_one [of F c1 2] by auto
  ultimately show ?thesis by (simp add: can_init_all_def)
qed

end
