(* ===== verification/Firmware.thy ===== *)
theory Firmware
  imports Panda_Control
begin

text \<open>
  The running firmware: what may happen next, and what the firmware does about it. The interrupts of
  the CAN cores call the handlers of \<^verbatim>\<open>bxcan.h\<close> (a core's interrupts only while they are enabled),
  the timer calls \<open>tick_handler\<close>, the transport calls the functions of \<^verbatim>\<open>can_comms.h\<close> and
  \<open>comms_control_handler\<close>. Each handler is one step.
\<close>

datatype fw_event =
    Registers nat u32 u32 bool "rx_mailbox list"  \<comment> \<open>a core changes its TSR, ESR, overrun flag and FIFO\<close>
  | TxIrq nat
  | RxIrq nat
  | ErrIrq nat
  | TickIrq senses
  | HostWrite "u8 list"
  | HostRead nat
  | Request ControlPacket_t control_env senses
  | Clock u32

datatype fw_outcome =
    Running panda_state
  | Restarted u32      \<comment> \<open>with \<open>enter_bootloader_mode\<close>, which survives the reset\<close>
  | Undefined          \<comment> \<open>an access outside an array, or a hang\<close>

text \<open>The handlers of \<^verbatim>\<open>bxcan.h\<close> by the number they pass on. On the F446 the third pair is not
  compiled; on the F407 it is registered last, for the vectors of the second core.\<close>

definition irq_numbers :: "fw_build \<Rightarrow> nat list" where
  "irq_numbers F = (if STM32F446 F then [0, 1] else if STM32F407 F then [0, 2] else [0, 1, 2])"

definition irq_enabled :: "fw_build \<Rightarrow> nat \<Rightarrow> panda_state \<Rightarrow> bool" where
  "irq_enabled F n st \<longleftrightarrow> n \<in> set (irq_numbers F) \<and> can_irq (can st) ! CANIF_FROM_CAN_NUM F n"

definition set_registers :: "nat \<Rightarrow> u32 \<Rightarrow> u32 \<Rightarrow> bool \<Rightarrow> rx_mailbox list \<Rightarrow> can_state \<Rightarrow> can_state" where
  "set_registers k tsr esr overrun fifo =
     upd_core k (\<lambda>c. c\<lparr>TSR := tsr, ESR := esr, fifo_overrun := overrun, rx_fifo := fifo\<rparr>)"

definition continue :: "panda_state option \<Rightarrow> fw_outcome" where
  "continue r = (case r of None \<Rightarrow> Undefined | Some st \<Rightarrow> Running st)"

definition host_write :: "fw_build \<Rightarrow> can_hw \<Rightarrow> u8 list \<Rightarrow> panda_state \<Rightarrow> panda_state option" where
  "host_write F hw bytes st =
     do { (buf, c) \<leftarrow> comms_can_write (sb F) (host_send F hw) refresh_can_tx_slots_available bytes
            (can_write_buffer st) (can st);
          Some (st\<lparr>can_write_buffer := buf, can := c\<rparr>) }"

definition host_read :: "nat \<Rightarrow> panda_state \<Rightarrow> (u8 list \<times> panda_state) option" where
  "host_read n st =
     do { (out, buf, q) \<leftarrow> comms_can_read n (can_read_buffer st) (can_rx_q (can st));
          Some (out, st\<lparr>can_read_buffer := buf, can := (can st)\<lparr>can_rx_q := q\<rparr>\<rparr>) }"

fun fw_step :: "fw_build \<Rightarrow> board \<Rightarrow> can_hw \<Rightarrow> fw_event \<Rightarrow> panda_state \<Rightarrow> fw_outcome" where
  "fw_step F bd hw (Registers k tsr esr overrun fifo) st =
     Running (upd_can (set_registers k tsr esr overrun fifo) st)"
| "fw_step F bd hw (TxIrq n) st =
     (if irq_enabled F n st then continue (try_can (process_can F hw n) st) else Running st)"
| "fw_step F bd hw (RxIrq n) st =
     (if irq_enabled F n st then continue (try_can (can_rx F hw n) st) else Running st)"
| "fw_step F bd hw (ErrIrq n) st =
     (if irq_enabled F n st then Running (upd_can (can_sce F hw n) st) else Running st)"
| "fw_step F bd hw (TickIrq e) st = continue (tick_handler F hw bd e st)"
| "fw_step F bd hw (HostWrite bytes) st = continue (host_write F hw bytes st)"
| "fw_step F bd hw (HostRead n) st = continue (map_option snd (host_read n st))"
| "fw_step F bd hw (Request req ce e) st =
     (case comms_control_handler F hw bd ce e req st of
        None \<Rightarrow> Undefined
      | Some (Replied resp st) \<Rightarrow> Running st
      | Some (Reset st) \<Rightarrow> Restarted (enter_bootloader_mode st))"
| "fw_step F bd hw (Clock t) st = Running (upd_safety (\<lambda>s. s\<lparr>MICROSECOND_TIMER := t\<rparr>) st)"

text \<open>The states the firmware reaches from its start, with any behaviour of the hardware. An array
  of eight bytes on the stack holds what it holds.\<close>

inductive fw_reaches :: "fw_build \<Rightarrow> board \<Rightarrow> panda_state \<Rightarrow> bool" for F bd where
  reach_init: "main_init F hw bd e = Some st \<Longrightarrow> fw_reaches F bd st"
| reach_step: "fw_reaches F bd st \<Longrightarrow> length (stack_bytes hw) = 8 \<Longrightarrow>
    fw_step F bd hw ev st = Running st' \<Longrightarrow> fw_reaches F bd st'"

fun fw_run :: "fw_build \<Rightarrow> board \<Rightarrow> (can_hw \<times> fw_event) list \<Rightarrow> panda_state \<Rightarrow> fw_outcome" where
  "fw_run F bd [] st = Running st"
| "fw_run F bd ((hw, ev) # evs) st =
     (case fw_step F bd hw ev st of Running st \<Rightarrow> fw_run F bd evs st | r \<Rightarrow> r)"

end
