(* ===== verification/Firmware_System.thy ===== *)
theory Firmware_System
  imports Panda_System Firmware
begin

text \<open>
  The invariant of \<^verbatim>\<open>Panda_System\<close> carried through the mode switch, the tick, the requests and the
  transfers of the host, so through every step of the firmware.
\<close>


subsection \<open>Mode switch\<close>

lemma silent_known: "SAFETY_SILENT \<in> fst ` set (safety_hook_registry B)"
  by (simp add: safety_hook_registry_def SAFETY_SILENT_def)

lemma switch_hooks_some:
  "\<exists>m t es. switch_hooks F mode param s = Some (m, t) \<and> safety_run (sb F) s es t \<and>
    m \<in> fst ` set (safety_hook_registry (sb F))"
proof -
  let ?set = "set_safety_hooks (hooks_of (sb F)) (safety_hook_registry (sb F))"
  obtain r t where set: "?set mode param s = (r, t)" by fastforce
  have run: "safety_run (sb F) s [SetMode mode param r] t" by (rule run_cons [OF step_mode [OF set] run_nil])
  show ?thesis
  proof (cases "r = -1")
    case False
    then have "mode \<in> fst ` set (safety_hook_registry (sb F))" using mode_step_cases [OF set] by force
    with False run set show ?thesis unfolding switch_hooks_def by auto
  next
    case True
    obtain q u where silent: "?set SAFETY_SILENT 0 t = (q, u)" by fastforce
    have "q = 0" using mode_step_cases [OF silent] silent_known [of "sb F"] by blast
    moreover have "safety_run (sb F) s ([SetMode mode param r] @ [SetMode SAFETY_SILENT 0 q]) u"
      by (rule safety_run_append [OF run run_cons [OF step_mode [OF silent] run_nil]])
    ultimately show ?thesis using True set silent silent_known [of "sb F"] unfolding switch_hooks_def by auto
  qed
qed

lemma sound_run:
  assumes "sound F c" and "safety_run (sb F) (safety c) es s"
  shows "sound F (c\<lparr>safety := s\<rparr>)"
proof (rule sound_flow [OF assms(1)])
  show "driver_ok (c\<lparr>safety := s\<rparr>)" "config_shape F (bus_config (c\<lparr>safety := s\<rparr>))"
    using assms(1) by (simp_all add: sound_def)
  show "flow F (\<lambda>_. {}) c (c\<lparr>safety := s\<rparr>)" by (simp add: flow_def queued_def)
  show "safety_run (sb F) (safety c) es (safety (c\<lparr>safety := s\<rparr>))" using assms(2) by simp
qed simp

subsection \<open>The whole firmware\<close>

definition psound :: "fw_build \<Rightarrow> panda_state \<Rightarrow> bool" where
  "psound F st \<longleftrightarrow> sound F (can st) \<and> write_ok (can_write_buffer st) \<and>
     length (ab_data (can_read_buffer st)) = 72 \<and> ptr (can_read_buffer st) \<le> 72"

lemma psound_can:
  "psound F st \<Longrightarrow> can_write_buffer st' = can_write_buffer st \<Longrightarrow> can_read_buffer st' = can_read_buffer st \<Longrightarrow>
    sound F (can st') \<Longrightarrow> psound F st'"
  by (simp add: psound_def)

lemma psound_same:
  "psound F st \<Longrightarrow> can st' = can st \<Longrightarrow> can_write_buffer st' = can_write_buffer st \<Longrightarrow>
    can_read_buffer st' = can_read_buffer st \<Longrightarrow> psound F st'"
  by (simp add: psound_def)

lemma psound_upd:
  "psound F st \<Longrightarrow> (\<And>c. sound F c \<Longrightarrow> sound F (f c)) \<Longrightarrow> psound F (upd_can f st)"
  by (simp add: psound_def upd_can_def)

lemma psound_safety:
  assumes "psound F st" and "\<And>s. \<exists>es. safety_run (sb F) s es (f s)"
  shows "psound F (upd_safety f st)"
  unfolding upd_safety_def by (rule psound_upd [OF assms(1)]) (use assms(2) sound_run in blast)

lemma psound_try:
  assumes "psound F st" and "\<And>c. sound F c \<Longrightarrow> \<exists>c'. f c = Some c' \<and> sound F c'"
  shows "\<exists>st'. try_can f st = Some st' \<and> psound F st'"
  using assms by (fastforce simp: psound_def try_can_def)

lemma init_all_sound:
  "psound F st \<Longrightarrow> \<exists>st'. try_can (can_init_all F hw) st = Some st' \<and> psound F st'"
  by (rule psound_try) (auto intro: sound_can_init_all)

lemma apply_mode_sound:
  assumes "psound F st"
  shows "psound F (apply_mode F hw mode param st)"
proof -
  have silent: "sound F c \<Longrightarrow> sound F (c\<lparr>can_silent := v\<rparr>)" for c v by (rule sound_same) simp_all
  have other: "psound F (st\<lparr>harness := h, can_mode := m\<rparr>)"
    "psound F (st\<lparr>harness := h, heartbeat_counter := k, heartbeat_lost := l, can_mode := m\<rparr>)" for h m k l
    by (rule psound_same [OF assms]; simp)+
  show ?thesis
    unfolding apply_mode_def
    by (auto intro!: psound_upd other silent sound_can_clear_send)
qed

lemma set_safety_mode_sound:
  assumes st: "psound F st"
  shows "\<exists>st'. set_safety_mode F hw mode param st = Some st' \<and> psound F st'"
proof -
  obtain m t es where sw: "switch_hooks F mode param (sfty st) = Some (m, t)"
    and run: "safety_run (sb F) (sfty st) es t" using switch_hooks_some by blast
  let ?st = "upd_can (\<lambda>c. c\<lparr>safety := t, safety_tx_blocked := 0, safety_rx_invalid := 0\<rparr>) st"
  have "sound F ((can st)\<lparr>safety := t\<rparr>)" using st run by (auto simp: psound_def intro: sound_run)
  then have "sound F ((can st)\<lparr>safety := t, safety_tx_blocked := 0, safety_rx_invalid := 0\<rparr>)"
    by (rule sound_same) simp_all
  then have "psound F ?st" by (intro psound_can [OF st]) (simp_all add: upd_can_def)
  from init_all_sound [OF apply_mode_sound [OF this]]
  show ?thesis by (simp add: set_safety_mode_def sw)
qed

lemma power_save_sound:
  assumes "psound F st"
  shows "psound F (set_power_save_state F state st)"
proof -
  have irq: "psound F st \<Longrightarrow> psound F (set_can_irq F on n st)" for on n st
    unfolding set_can_irq_def by (erule psound_upd, erule sound_same) simp_all
  have trx: "psound F st \<Longrightarrow> psound F (enable_can_transceivers on st)" for on st
    by (rule psound_same) (simp_all add: enable_can_transceivers_def Let_def)
  define st1 where "st1 on n = enable_can_transceivers on (set_can_irq F on 1 (set_can_irq F on n st))" for on n
  have st1: "psound F (st1 on n)" for on n unfolding st1_def by (intro trx irq assms)
  have "psound F ((st1 on n)\<lparr>power_save_status := v\<rparr>)" "psound F ((st1 on n)\<lparr>ir_power := i, power_save_status := v\<rparr>)"
    for on n i v by (rule psound_same [OF st1]; simp)+
  with assms show ?thesis unfolding set_power_save_state_def Let_def st1_def by simp
qed

subsection \<open>The tick\<close>

lemma run_one: "safety_step B s e t \<Longrightarrow> \<exists>es. safety_run B s es t"
  using run_cons [OF _ run_nil] by blast

lemma tick_drivers_sound:
  assumes "psound F st"
  shows "psound F (tick_drivers bd e st)"
proof -
  define st1 where "st1 = st\<lparr>siren_on := bit (loop_counter st) 0 \<and> (siren_enabled st \<or> siren_countdown st > 0),
                  fan := fan_tick bd (fan st), harness := harness_tick bd e (harness st)\<rparr>"
  obtain w s where kick: "simple_watchdog_kick (MICROSECOND_TIMER (sfty st1)) (wd st1, sfty st1) = (w, s)" by fastforce
  have "psound F (st1\<lparr>wd := w\<rparr>)" by (rule psound_same [OF assms]) (simp_all add: st1_def)
  moreover have "\<exists>es. safety_run (sb F) (sfty st1) es s"
    using kick run_one [OF step_fault, of "sb F" "sfty st1"] run_nil [of "sb F" "sfty st1"]
    by (auto simp: simple_watchdog_kick_def split: if_splits intro: exI [of _ "[]"])
  ultimately have "psound F (upd_safety (\<lambda>_. s) (st1\<lparr>wd := w\<rparr>))"
    using sound_run [of F "can st1"] by (auto simp: psound_def upd_safety_def upd_can_def)
  then show ?thesis using kick by (simp add: tick_drivers_def st1_def [symmetric] Let_def)
qed

lemma tick_harness_sound:
  assumes "psound F st"
  shows "\<exists>st'. tick_harness F hw st = Some st' \<and> psound F st'"
proof (cases "harness_status (harness st) = prev_harness_status st")
  case True
  with assms show ?thesis by (simp add: tick_harness_def)
next
  case False
  let ?pre = "st\<lparr>prev_harness_status := harness_status (harness st)\<rparr>"
  let ?st = "upd_can (\<lambda>c. c\<lparr>bus_config := can_set_orientation F (harness_status (harness ?pre) = HARNESS_STATUS_FLIPPED) (bus_config c)\<rparr>) ?pre"
  have pre: "psound F ?pre" by (rule psound_same [OF assms]) simp_all
  have "psound F ?st"
    by (rule psound_upd [OF pre], rule sound_config_rx, assumption,
      simp_all add: config_shape_orientation sound_driver, simp add: sound_def driver_ok_def)
  then obtain st1 where st1: "try_can (can_init_all F hw) ?st = Some st1" "psound F st1"
    using init_all_sound by blast
  then obtain st2 where "set_safety_mode F hw (current_safety_mode (sfty st1)) (current_safety_param (sfty st1)) st1 = Some st2"
    "psound F st2" using set_safety_mode_sound by blast
  with False st1 power_save_sound show ?thesis by (simp add: tick_harness_def Let_def)
qed


lemma tick_live_sound: "psound F st \<Longrightarrow> psound F (tick_live st)"
  by (rule psound_can, assumption)
    (auto simp: tick_live_def Let_def upd_can_def psound_def intro: sound_same)

definition same_can :: "panda_state \<Rightarrow> panda_state \<Rightarrow> bool" where
  "same_can st st' \<longleftrightarrow> can st' = can st \<and> can_write_buffer st' = can_write_buffer st \<and>
     can_read_buffer st' = can_read_buffer st"

lemma psound_if: "psound F a \<Longrightarrow> psound F b \<Longrightarrow> psound F (if c then a else b)"
  by simp

lemma tick_counters_can: "same_can st (tick_counters st)"
proof -
  define a where "a = (if heartbeat_counter st < 0xFFFFFFFF
                then st\<lparr>heartbeat_counter := heartbeat_counter st + 1\<rparr> else st)"
  define b where "b = (if is_car_safety_mode (current_safety_mode (sfty a)) then a\<lparr>heartbeat_disabled := False\<rparr> else a)"
  define c where "c = (if siren_countdown b > 0 then b\<lparr>siren_countdown := siren_countdown b - 1\<rparr> else b)"
  have "same_can st a" by (simp add: a_def same_can_def)
  then have "same_can st b" by (simp add: b_def same_can_def)
  then have "same_can st c" by (simp add: c_def same_can_def)
  then have "same_can st (if p then c\<lparr>controls_allowed_countdown := 5\<rparr>
      else if q then c\<lparr>controls_allowed_countdown := k\<rparr> else c)" for p q k
    by (simp add: same_can_def)
  then show ?thesis unfolding tick_counters_def Let_def a_def [symmetric] b_def [symmetric] c_def [symmetric] .
qed

lemma tick_engaged_run: "\<exists>es. safety_run B s es (tick_engaged s)"
proof -
  let ?n = "heartbeat_engaged_mismatches s + 1"
  have eq: "s\<lparr>heartbeat_engaged_mismatches := n\<rparr> =
      s\<lparr>heartbeat_engaged := heartbeat_engaged s, heartbeat_engaged_mismatches := n\<rparr>" for n by simp
  have hb: "safety_step B s (Heartbeat (heartbeat_engaged s) n) (s\<lparr>heartbeat_engaged_mismatches := n\<rparr>)" for n
    unfolding eq by (rule step_heartbeat)
  have off: "safety_step B u Disengage (u\<lparr>controls_allowed := False\<rparr>)" for u by (rule step_disengage)
  show ?thesis
    using run_one [OF hb, of ?n] run_one [OF hb, of 0] run_cons [OF hb run_cons [OF off run_nil], of ?n]
    unfolding tick_engaged_def Let_def by auto
qed

lemma heartbeat_idle_sound:
  assumes "psound F st"
  shows "\<exists>st'. heartbeat_idle F hw started st = Some st' \<and> psound F st'"
proof -
  obtain a b where "set_safety_mode F hw SAFETY_NOOUTPUT 0 st = Some a" "psound F a"
    "set_safety_mode F hw SAFETY_SILENT 0 st = Some b" "psound F b"
    using set_safety_mode_sound [OF assms] by metis
  then show ?thesis using assms power_save_sound by (auto simp: heartbeat_idle_def)
qed

lemma tick_heartbeat_sound:
  assumes "psound F st"
  shows "\<exists>st'. tick_heartbeat F hw bd e started st = Some st' \<and> psound F st'"
proof -
  define due where "due \<longleftrightarrow> \<not> heartbeat_disabled st \<and>
      heartbeat_counter st \<ge> (if started then HEARTBEAT_IGNITION_CNT_ON else HEARTBEAT_IGNITION_CNT_OFF)"
  define st1 where "st1 = (if controls_allowed_countdown st > 0
                  then st\<lparr>siren_countdown := 3, controls_allowed_countdown := 0\<rparr> else st)"
  define st2 where "st2 = (if is_car_safety_mode (current_safety_mode (sfty st1)) then st1\<lparr>heartbeat_lost := True\<rparr> else st1)"
  have "psound F st1" by (rule psound_same [OF assms]) (simp_all add: st1_def)
  then have "psound F st2" by (rule psound_same) (simp_all add: st2_def)
  moreover have "\<exists>es. safety_run B s es (s\<lparr>heartbeat_engaged := False\<rparr>)" for B s
  proof -
    have "safety_step B s (Heartbeat False (heartbeat_engaged_mismatches s)) (s\<lparr>heartbeat_engaged := False\<rparr>)"
      using step_heartbeat [of B s False "heartbeat_engaged_mismatches s"] by simp
    then show ?thesis by (rule run_one)
  qed
  ultimately have "psound F (upd_safety (\<lambda>s. s\<lparr>heartbeat_engaged := False\<rparr>) st2)" by (rule psound_safety)
  from heartbeat_idle_sound [OF this]
  obtain st' where idle: "heartbeat_idle F hw started (upd_safety (\<lambda>s. s\<lparr>heartbeat_engaged := False\<rparr>) st2) = Some st'"
    and st': "psound F st'" by blast
  have "psound F (st'\<lparr>ir_power := 0, fan := f\<rparr>)" for f by (rule psound_same [OF st']) simp_all
  then show ?thesis
    using idle assms
    by (simp add: tick_heartbeat_def due_def [symmetric] st1_def [symmetric] st2_def [symmetric] Let_def)
qed

lemma tick_safety_sound:
  assumes "psound F st"
  shows "psound F (tick_safety e st)"
proof -
  define st1 where "st1 = (if register_divergent e then upd_safety (fault_occurred FAULT_REGISTER_DIVERGENT) st else st)"
  define st2 where "st2 = (upd_can (\<lambda>c. if ignition_can_cnt c > 2 then c\<lparr>ignition_can := False\<rparr> else c) st1)
      \<lparr>uptime_cnt := uptime_cnt st1 + 1\<rparr>"
  define st3 where "st3 = upd_can (\<lambda>c. c\<lparr>ignition_can_cnt := ignition_can_cnt c + 1\<rparr>)
      (upd_safety (\<lambda>s. s\<lparr>safety_mode_cnt := safety_mode_cnt s + 1\<rparr>) st2)"
  have "psound F st1"
    unfolding st1_def using assms psound_safety [OF assms run_one [OF step_fault]] by simp
  then have "psound F st2"
    by (rule psound_can) (auto simp: st2_def upd_can_def intro!: sound_same [OF \<open>psound F st1\<close> [unfolded psound_def, THEN conjunct1]]
      \<open>psound F st1\<close> [unfolded psound_def, THEN conjunct1])
  then have "psound F (upd_safety (\<lambda>s. s\<lparr>safety_mode_cnt := safety_mode_cnt s + 1\<rparr>) st2)"
    by (rule psound_safety) (rule run_one [OF step_count])
  then have "psound F st3" unfolding st3_def by (rule psound_upd) (erule sound_same, simp_all)
  then have "psound F (upd_safety safety_tick st3)" by (rule psound_safety) (rule run_one [OF step_tick])
  moreover have "uptime_cnt (upd_can f st) = uptime_cnt st" for f st by (simp add: upd_can_def)
  ultimately show ?thesis
    by (simp add: tick_safety_def st1_def [symmetric] st2_def [symmetric] st3_def [symmetric] Let_def)
qed

lemma tick_second_sound:
  assumes "psound F st"
  shows "\<exists>st'. tick_second F hw bd e st = Some st' \<and> psound F st'"
proof -
  define st1 where "st1 = tick_live st"
  define started where "started \<longleftrightarrow> harness_check_ignition e (harness st1) \<or> ignition_can (can st1)"
  define st2 where "st2 = tick_counters (st1\<lparr>bootkick := bootkick_tick e (harness_status (harness st1)) started
      (heartbeat_counter st1 = 0) (bootkick st1)\<rparr>)"
  have "psound F st1" unfolding st1_def by (rule tick_live_sound [OF assms])
  then have "psound F st2"
    using tick_counters_can by (rule_tac psound_same) (simp_all add: st2_def same_can_def)
  then have "psound F (upd_safety tick_engaged st2)" by (rule psound_safety) (rule tick_engaged_run)
  from tick_heartbeat_sound [OF this, of hw bd e started] obtain st3 where
    "tick_heartbeat F hw bd e started (upd_safety tick_engaged st2) = Some st3" "psound F st3" by blast
  with tick_safety_sound show ?thesis
    by (simp add: tick_second_def Let_def st1_def [symmetric] started_def [symmetric] st2_def [symmetric])
qed

lemma tick_handler_sound:
  assumes "psound F st"
  shows "\<exists>st'. tick_handler F hw bd e st = Some st' \<and> psound F st'"
proof -
  obtain st1 where st1: "tick_harness F hw (tick_drivers bd e st) = Some st1" "psound F st1"
    using tick_harness_sound [OF tick_drivers_sound [OF assms]] by blast
  obtain st2 where "(if loop_counter st1 = 0 then tick_second F hw bd e st1 else Some st1) = Some st2" "psound F st2"
    using tick_second_sound [OF st1(2), of hw bd e] st1(2) by (cases "loop_counter st1 = 0") auto
  moreover have "psound F (st2\<lparr>loop_counter := k\<rparr>)" for k by (rule psound_same [OF \<open>psound F st2\<close>]) simp_all
  ultimately show ?thesis using st1(1) by (simp add: tick_handler_def)
qed

subsection \<open>Start\<close>

lemma sound_start: "sound F (can_state_init F)"
proof -
  have "config_shape F (bus_config (can_state_init F))"
    by (simp add: can_state_init_def bus_config_init_def config_shape_def lookups_def bus_cfg_def)
  moreover have "accounted F [] (can_state_init F)"
    by (auto simp: accounted_def can_state_init_def queued_def can_buffer_def ring_list_def ring_len_def
        mailbox_from_def below_three numeral_2_eq_2)
  ultimately show ?thesis using driver_ok_init by (auto simp: sound_def)
qed

lemma main_init_sound: "\<exists>st. main_init F hw bd e = Some st \<and> psound F st"
proof -
  define st1 where "st1 = (panda_reset F)\<lparr>can_mode := CAN_MODE_NORMAL,
      harness := harness_init (sb F) bd e (harness (panda_reset F)), siren_on := False,
      fan := (if fan_max_rpm bd > 0 then fan_init bd (fan (panda_reset F)) else fan (panda_reset F))\<rparr>"
  have "psound F st1"
    using sound_start [of F] by (simp add: st1_def psound_def panda_reset_def write_ok_def asm_empty_def)
  from set_safety_mode_sound [OF this] obtain st2 where
    "set_safety_mode F hw (if PANDA_NUCLEO (sb F) then SAFETY_NOOUTPUT else SAFETY_SILENT) 0 st1 = Some st2"
    and st2: "psound F st2" by blast
  moreover have "psound F ((enable_can_transceivers True st2)\<lparr>wd := w\<rparr>)" for w
    by (rule psound_same [OF st2]) (simp_all add: enable_can_transceivers_def Let_def)
  ultimately show ?thesis by (simp add: main_init_def st1_def Let_def)
qed


subsection \<open>Requests\<close>

lemma sound_upd_bus:
  assumes "sound F c" and "\<And>b. bus_lookup (f b) = bus_lookup b" and "\<And>b. can_num_lookup (f b) = can_num_lookup b"
  shows "sound F (upd_bus n f c)"
  unfolding upd_bus_def
  by (rule sound_config_rx [OF assms(1)])
    (use assms config_shape_update [of f "bus_config c" n F] in \<open>simp_all add: sound_def driver_ok_def\<close>)

lemma sound_reinit:
  assumes "sound F c" and "n < 3"
  shows "\<exists>c'. reinit_bus F hw n c = Some c' \<and> sound F c'"
  unfolding reinit_bus_def
  using config_serves [OF config_shape_facts(2) [OF sound_driver(2) [OF assms(1)]] assms(2)]
  by (intro sound_can_init assms(1)) auto

lemma sound_clear_queue:
  assumes "sound F c"
  shows "sound F (clear_queue p c)"
proof -
  have "ring_ok (can_rx_q c)" using sound_driver(1) [OF assms] by (simp add: driver_ok_def queue_ok_def)
  then have "sound F (c\<lparr>can_rx_q := can_clear (can_rx_q c)\<rparr>)"
    using assms by (intro sound_config_rx [OF assms]) (simp_all add: sound_driver queue_clear)
  then show ?thesis
    using assms by (auto simp: clear_queue_def PANDA_BUS_CNT_def intro!: sound_refresh sound_clear)
qed

lemma control_can_sound:
  assumes "sound F c"
  shows "(request req = 0xe8 \<and> 4 \<le> unat (param1 req) \<longrightarrow> control_can F hw req c = None) \<and>
    (\<not> (request req = 0xe8 \<and> 4 \<le> unat (param1 req)) \<longrightarrow>
      (\<exists>c'. control_can F hw req c = Some c' \<and> sound F c'))"
proof -
  let ?p = "unat (param1 req)"
  have bus: "\<exists>c'. reinit_bus F hw n (upd_bus n f c) = Some c' \<and> sound F c'"
    if "n < 3" "\<And>b. bus_lookup (f b) = bus_lookup b" "\<And>b. can_num_lookup (f b) = can_num_lookup b" for n f
    by (rule sound_reinit [OF sound_upd_bus [OF assms that(2,3)] that(1)])
  have len: "length (bus_config c) = 4" by (rule config_shape_facts(1) [OF sound_driver(2) [OF assms]])
  have "\<exists>c'. set_bitrate F hw ?p s c = Some c' \<and> sound F c'" for s
    using assms by (auto simp: set_bitrate_def PANDA_BUS_CNT_def intro!: bus)
  moreover have "\<exists>c'. set_data_bitrate F hw ?p s c = Some c' \<and> sound F c'" for s
    using assms by (auto simp: set_data_bitrate_def PANDA_CAN_CNT_def intro!: bus)
  moreover have "\<exists>c'. set_non_iso F hw ?p v c = Some c' \<and> sound F c'" for v
    using assms by (auto simp: set_non_iso_def PANDA_CAN_CNT_def intro!: bus)
  moreover have "\<exists>c'. can_init_all F hw (c\<lparr>can_loopback := l\<rparr>) = Some c' \<and> sound F c'" for l
    by (rule sound_can_init_all, rule sound_same [OF assms]) simp_all
  moreover have "if 4 \<le> ?p then set_canfd_auto ?p v c = None
      else \<exists>c'. set_canfd_auto ?p v c = Some c' \<and> sound F c'" for v
    using len by (auto simp: set_canfd_auto_def intro!: sound_upd_bus assms)
  ultimately show ?thesis
    using assms sound_clear_queue [OF assms] by (simp add: control_can_def Let_def)
qed

lemma control_simple_sound:
  assumes "psound F st"
  shows "psound F (control_simple F bd req st)"
proof -
  note same = psound_same [OF assms]
  have buf: "psound F (st\<lparr>can_read_buffer := comms_can_reset (can_read_buffer st),
      can_write_buffer := comms_can_reset (can_write_buffer st)\<rparr>)"
    using assms by (simp add: psound_def write_ok_def comms_can_reset_def)
  have exp: "psound F (upd_safety (\<lambda>s. s\<lparr>alternative_experience := n\<rparr>) st)" for n
    by (rule psound_safety [OF assms run_one [OF step_experience]])
  have hb: "psound F (heartbeat_received v st)" for v
  proof -
    have "safety_step B s (Heartbeat v (heartbeat_engaged_mismatches s)) (s\<lparr>heartbeat_engaged := v\<rparr>)" for B s
      using step_heartbeat [of B s v "heartbeat_engaged_mismatches s"] by simp
    moreover have "psound F (st\<lparr>heartbeat_counter := 0, heartbeat_lost := False, heartbeat_disabled := False\<rparr>)"
      by (rule same) simp_all
    ultimately show ?thesis unfolding heartbeat_received_def by (intro psound_safety run_one) auto
  qed
  have upd: "psound F (st\<lparr>ir_power := a\<rparr>)" "psound F (st\<lparr>fan := b\<rparr>)" "psound F (st\<lparr>harness := c\<rparr>)"
    "psound F (st\<lparr>can_mode := a\<rparr>)" "psound F (st\<lparr>timer_params := d\<rparr>)" "psound F (st\<lparr>siren_enabled := f\<rparr>)"
    "psound F (st\<lparr>green_led_enabled := f\<rparr>)" "psound F (st\<lparr>heartbeat_disabled := f\<rparr>)" for a b c d f
    by (rule same; simp)+
  show ?thesis
    unfolding control_simple_def Let_def by (intro psound_if upd buf exp hb assms power_save_sound)
qed


subsection \<open>Transfers\<close>

lemma queue_drop: "queue_ok q \<Longrightarrow> list_all pkt_ok (ring_list q) \<and> ring_ok q"
  by (simp add: queue_ok_def)

lemma fits_pkt_ok: "pkt_ok p \<Longrightarrow> fits p"
  using dlc_classic [of "data_len_code p"] by (auto simp: pkt_ok_def fits_def GET_LEN_def)

text \<open>A transfer to the host leaves in the queue what was in it.\<close>

lemma read_loop_queue:
  assumes "queue_ok q" and "comms_read_loop max_len out buf q = Some (out', buf', q')"
  shows "queue_ok q'"
  using assms
proof (induction max_len out buf q rule: comms_read_loop.induct)
  case (1 max_len out buf q)
  obtain r q1 where pop: "can_pop q = (r, q1)" by fastforce
  then have q1: "queue_ok q1" using queue_pop [OF "1.prems"(1)] by simp
  note loop = "1.prems"(2) [unfolded comms_read_loop.simps [of max_len out buf q] pop]
  show ?case
  proof (cases "length out < max_len \<and> r \<noteq> None")
    case False
    with loop "1.prems"(1) q1 show ?thesis by (cases r) (auto split: if_splits)
  next
    case True
    then obtain p where p: "r = Some p" and room: "length out < max_len" by auto
    show ?thesis
    proof (cases "framed p")
      case None
      with loop p room show ?thesis by simp
    next
      case (Some fr)
      show ?thesis
      proof (cases "length out + length fr \<le> max_len")
        case True
        from "1.IH" [OF room pop [symmetric] p Some True q1] loop room p Some True show ?thesis by simp
      next
        case False
        with loop room p Some q1 show ?thesis by (auto simp: Let_def split: bind_splits)
      qed
    qed
  qed
qed

lemma comms_read_queue:
  assumes "queue_ok q" and "comms_can_read max_len buf q = Some (out', buf', q')"
  shows "queue_ok q'"
  using assms read_loop_queue [OF assms(1)]
  by (auto simp: comms_can_read_def Let_def split: if_splits bind_splits)

lemma host_read_sound:
  assumes "psound F st"
  shows "\<exists>out st'. host_read n st = Some (out, st') \<and> psound F st'"
proof -
  let ?q = "can_rx_q (can st)"
  have q: "queue_ok ?q" using assms by (simp add: psound_def sound_def driver_ok_def)
  have "list_all fits (ring_list ?q)" using queue_drop [OF q] fits_pkt_ok by (auto simp: list_all_iff)
  then have "read_ok (can_read_buffer st) ?q" using assms q by (simp add: psound_def read_ok_def queue_ok_def)
  from comms_can_read_stream [OF this, of n] obtain buf' q' where
    read: "comms_can_read n (can_read_buffer st) ?q = Some (take n (read_stream (can_read_buffer st) ?q), buf', q')"
    and ok: "read_ok buf' q'" by blast
  have "sound F ((can st)\<lparr>can_rx_q := q'\<rparr>)"
    using assms comms_read_queue [OF q read]
    by (rule_tac sound_config_rx [of F "can st"]) (simp_all add: psound_def sound_driver)
  then show ?thesis using assms ok by (simp add: host_read_def read psound_def read_ok_def)
qed

lemma split_stream_lengths:
  "\<forall>w \<in> set (fst (split_stream bytes)). w \<noteq> [] \<and> length w = packet_len (hd w)"
proof (induction bytes rule: split_stream.induct)
  case (1 bytes)
  show ?case
  proof (cases "bytes = [] \<or> length bytes < packet_len (hd bytes)")
    case True
    then show ?thesis by (simp add: split_short)
  next
    case False
    then have ne: "bytes \<noteq> []" and long: "packet_len (hd bytes) \<le> length bytes" by auto
    define n where "n = packet_len (hd bytes)"
    have n: "0 < n" "n \<le> length bytes" using long by (simp_all add: n_def)
    have len: "length (take n bytes) = n" by (rule min_absorb2 [OF n(2), folded length_take])
    have hd: "hd (take n bytes) = hd bytes" using n(1) by (rule hd_take)
    have "packet_len (hd (take n bytes)) = n" by (rule arg_cong [OF hd, of packet_len, folded n_def])
    with len n(1) have "take n bytes \<noteq> [] \<and> length (take n bytes) = packet_len (hd (take n bytes))" by auto
    moreover have "\<forall>w \<in> set (fst (split_stream (drop n bytes))). w \<noteq> [] \<and> length w = packet_len (hd w)"
      unfolding n_def by (rule "1.IH" [OF False])
    ultimately show ?thesis
      unfolding split_long [OF ne long, folded n_def] fst_conv list.set ball_simps by (rule conjI)
  qed
qed

text \<open>Without CAN FD a packet holds eight data bytes.\<close>

lemma host_packet:
  assumes "\<not> CANFD B" and "w \<noteq> []" and "length w = packet_len (hd w)"
  shows "if length w \<le> 14 then \<exists>p. packet_from B w = Some p \<and> pkt_ok p else packet_from B w = None"
proof (cases "length w \<le> 14")
  case False
  then show ?thesis using assms(1) packet_from_some [of B w]
    by (simp add: CANPACKET_HEAD_SIZE_def CANPACKET_DATA_SIZE_MAX_def)
next
  case True
  let ?d = "w @ replicate (14 - length w) 0"
  have p: "packet_from B w = Some (packet_of_bytes ?d)"
    using True assms(1) by (simp add: packet_from_def memcpy_def CANPACKET_HEAD_SIZE_def CANPACKET_DATA_SIZE_MAX_def)
  have code: "data_len_code (packet_of_bytes ?d) = unat (drop_bit 4 (hd w))"
    using assms(2) by (simp add: packet_of_bytes_def Let_def nth_append hd_conv_nth)
      (simp add: unat_eq_nat_uint uint_shiftr_16)
  have "nat (dlc_to_len ! unat (drop_bit 4 (hd w))) \<le> 8"
    using True assms(3) by (simp add: packet_len_def CANPACKET_HEAD_SIZE_def)
  moreover have "unat (drop_bit 4 (hd w)) < 16"
    using uint_lt2p [of "hd w"] by (simp add: unat_eq_nat_uint uint_shiftr_16)
  ultimately have "unat (drop_bit 4 (hd w)) \<le> 8"
    using dlc_classic [of "unat (drop_bit 4 (hd w))"] by simp
  then show ?thesis using True p code by (simp add: pkt_ok_def packet_of_bytes_def Let_def)
qed

lemma send_all_sound:
  assumes "\<not> CANFD (sb F)" and "\<forall>w \<in> set ws. w \<noteq> [] \<and> length w = packet_len (hd w)" and "sound F c"
  shows "if \<forall>w \<in> set ws. length w \<le> 14 then \<exists>c'. send_all (sb F) (host_send F hw) ws c = Some c' \<and> sound F c'
    else send_all (sb F) (host_send F hw) ws c = None"
  using assms(2,3)
proof (induction ws arbitrary: c)
  case Nil
  then show ?case by simp
next
  case (Cons w ws)
  have w: "w \<noteq> []" "length w = packet_len (hd w)" using Cons.prems(1) by simp_all
  show ?case
  proof (cases "length w \<le> 14")
    case False
    then show ?thesis using host_packet [OF assms(1) w] by auto
  next
    case True
    then obtain p where p: "packet_from (sb F) w = Some p" "pkt_ok p" using host_packet [OF assms(1) w] by auto
    obtain c1 where c1: "host_send F hw p c = Some c1" "sound F c1" using sound_send [OF Cons.prems(2) p(2)] by blast
    with p True Cons.IH [OF _ c1(2)] Cons.prems(1) show ?thesis by simp
  qed
qed

definition overlong :: "u8 list \<Rightarrow> panda_state \<Rightarrow> bool" where
  "overlong bytes st \<longleftrightarrow> (\<exists>w \<in> set (fst (split_stream (pending (can_write_buffer st) @ bytes))). 14 < length w)"

lemma host_write_sound:
  assumes "\<not> CANFD (sb F)" and "psound F st"
  shows "if overlong bytes st then host_write F hw bytes st = None
    else \<exists>st'. host_write F hw bytes st = Some st' \<and> psound F st'"
proof -
  let ?ws = "fst (split_stream (pending (can_write_buffer st) @ bytes))"
  have st: "sound F (can st)" "write_ok (can_write_buffer st)" using assms(2) by (simp_all add: psound_def)
  note all = send_all_sound [OF assms(1) split_stream_lengths st(1), of "pending (can_write_buffer st) @ bytes" hw]
  note stream = comms_can_write_stream [OF st(2), where B = "sb F" and send = "host_send F hw" and bytes = bytes and s = "can st"
      and refresh = refresh_can_tx_slots_available]
  show ?thesis
  proof (cases "overlong bytes st")
    case True
    then have "send_all (sb F) (host_send F hw) ?ws (can st) = None" using all by (auto simp: overlong_def not_le split: if_splits)
    with stream True show ?thesis by (simp add: host_write_def)
  next
    case False
    then obtain c' where "send_all (sb F) (host_send F hw) ?ws (can st) = Some c'" and c': "sound F c'"
      using all by (auto simp: overlong_def not_less split: if_splits)
    with stream obtain buf' where "comms_can_write (sb F) (host_send F hw) refresh_can_tx_slots_available bytes
        (can_write_buffer st) (can st) = Some (buf', refresh_can_tx_slots_available c')" "write_ok buf'" by auto
    with False c' assms(2) show ?thesis by (simp add: host_write_def psound_def sound_refresh)
  qed
qed


subsection \<open>Every step\<close>

text \<open>What the outside world can do that the firmware does not survive: a frame of the bus with a
  length code above eight, a packet of the host longer than the packet structure, and a request
  whose index is not tested.\<close>

fun hostile :: "fw_build \<Rightarrow> fw_event \<Rightarrow> panda_state \<Rightarrow> bool" where
  "hostile F (RxIrq n) st \<longleftrightarrow> irq_enabled F n st \<and>
     (\<exists>mb \<in> set (rx_fifo (cans (can st) ! CANIF_FROM_CAN_NUM F n)). 8 < unat (RDTR mb AND 0xF))"
| "hostile F (HostWrite bytes) st \<longleftrightarrow> overlong bytes st"
| "hostile F (Request req ce e) st \<longleftrightarrow> request req = 0xe8 \<and> 4 \<le> unat (param1 req)"
| "hostile F ev st \<longleftrightarrow> False"

definition answered :: "fw_build \<Rightarrow> bool \<Rightarrow> fw_outcome \<Rightarrow> bool" where
  "answered F bad r \<longleftrightarrow> (case r of Undefined \<Rightarrow> bad | Running st \<Rightarrow> \<not> bad \<and> psound F st | Restarted m \<Rightarrow> \<not> bad)"

lemma answered_continue:
  "if bad then r = None else \<exists>st. r = Some st \<and> psound F st \<Longrightarrow> answered F bad (continue r)"
  by (auto simp: answered_def continue_def split: if_splits)

lemma answered_try:
  assumes "psound F st"
    and "sound F (can st) \<Longrightarrow> if bad then f (can st) = None else \<exists>c'. f (can st) = Some c' \<and> sound F c'"
  shows "answered F bad (continue (try_can f st))"
  by (rule answered_continue) (use assms in \<open>auto simp: psound_def try_can_def split: if_splits\<close>)

lemma irq_serves:
  assumes "sound F c" and "n \<in> set (irq_numbers F)"
  shows "serves (bus_config c) n"
  using assms(2) config_shape_facts(3-5) [OF sound_driver(2) [OF assms(1)]]
  by (auto simp: irq_numbers_def split: if_splits)

lemma query_e8: "request req = 0xe8 \<Longrightarrow> control_query F ce e req st = None"
  by (simp add: control_query_def Let_def)

lemma request_answered:
  assumes st: "psound F st"
  shows "answered F (hostile F (Request req ce e) st) (fw_step F bd hw (Request req ce e) st)"
proof -
  let ?bad = "request req = 0xe8 \<and> 4 \<le> unat (param1 req)"
  obtain st1 where mode: "set_safety_mode F hw (param1 req) (param2 req) st = Some st1" "psound F st1"
    using set_safety_mode_sound [OF st] by blast
  have sc: "sound F (can st)" using st by (simp add: psound_def)
  note simple = control_simple_sound [OF st, of bd req]
  have health: "psound F (upd_can (update_can_health_pkt F hw n 0) st)" for n
    by (rule psound_upd [OF st]) (rule sound_can_health)
  show ?thesis
  proof (cases "request req \<in> {0xde, 0xe5, 0xe8, 0xf1, 0xf9, 0xfc}")
    case True
    have "control_query F ce e req st = None" using True by (elim insertE emptyE) (simp_all add: control_query_def Let_def)
    moreover have "request req \<notin> {0xc2, 0xd1, 0xd8, 0xdc}" using True by auto
    ultimately have handler: "comms_control_handler F hw bd ce e req st =
        map_option (Replied []) (try_can (control_can F hw req) st)"
      using True by (simp add: comms_control_handler_def Let_def)
    show ?thesis
    proof (cases ?bad)
      case True
      then have "control_can F hw req (can st) = None" using control_can_sound [OF sc] by blast
      with True handler show ?thesis by (simp add: answered_def try_can_def)
    next
      case False
      then obtain c' where "control_can F hw req (can st) = Some c'" "sound F c'"
        using control_can_sound [OF sc] by blast
      with False handler st show ?thesis by (simp add: answered_def try_can_def psound_def)
    qed
  next
    case False
    then have "\<not> ?bad" by auto
    with False mode simple st health show ?thesis
      by (auto simp: comms_control_handler_def answered_def Let_def control_can_health_def enter_bootloader_def
          split: option.splits)
  qed
qed

lemma step_answered:
  assumes hw: "length (stack_bytes hw) = 8" and F: "\<not> CANFD (sb F)" and st: "psound F st"
  shows "answered F (hostile F ev st) (fw_step F bd hw ev st)"
proof (cases ev)
  case (Registers k tsr esr overrun fifo)
  have "psound F (upd_can (set_registers k tsr esr overrun fifo) st)"
    unfolding set_registers_def by (rule psound_upd [OF st], rule sound_core) (simp_all add: mail_def core_ok_def)
  with Registers show ?thesis by (simp add: answered_def)
next
  case (TxIrq n)
  have "answered F False (continue (try_can (process_can F hw n) st))" if "n \<in> set (irq_numbers F)"
    using irq_serves [OF _ that] by (intro answered_try [OF st]) (simp add: sound_process_can)
  with TxIrq st show ?thesis by (simp add: irq_enabled_def answered_def)
next
  case (RxIrq n)
  let ?mbs = "rx_fifo (cans (can st) ! CANIF_FROM_CAN_NUM F n)"
  have ok: "list_all mailbox_ok ?mbs \<longleftrightarrow> \<not> (\<exists>mb \<in> set ?mbs. 8 < unat (RDTR mb AND 0xF))"
    by (auto simp: list_all_iff mailbox_ok_def not_less)
  have "answered F (\<exists>mb \<in> set ?mbs. 8 < unat (RDTR mb AND 0xF)) (continue (try_can (can_rx F hw n) st))"
    by (rule answered_try [OF st]) (use sound_can_rx [OF hw, of F "can st" n] ok in \<open>auto split: if_splits\<close>)
  with RxIrq st show ?thesis
    by (cases "irq_enabled F n st") (simp, simp add: answered_def)
next
  case (ErrIrq n)
  have "psound F (upd_can (can_sce F hw n) st)" by (rule psound_upd [OF st]) (rule sound_can_sce)
  with ErrIrq st show ?thesis by (simp add: answered_def)
next
  case (TickIrq e)
  with tick_handler_sound [OF st, of hw bd e] show ?thesis by (auto simp: answered_def continue_def)
next
  case (HostWrite bytes)
  have "answered F (overlong bytes st) (continue (host_write F hw bytes st))"
    by (rule answered_continue) (rule host_write_sound [OF F st])
  with HostWrite show ?thesis by simp
next
  case (HostRead n)
  with host_read_sound [OF st, of n] show ?thesis by (auto simp: answered_def continue_def)
next
  case (Request req ce e)
  with request_answered [OF st] show ?thesis by blast
next
  case (Clock t)
  have "psound F (upd_safety (\<lambda>s. s\<lparr>MICROSECOND_TIMER := t\<rparr>) st)"
    by (rule psound_safety [OF st run_one [OF step_timer]])
  with Clock show ?thesis by (simp add: answered_def)
qed

lemma reaches_sound: "fw_reaches F bd st \<Longrightarrow> \<not> CANFD (sb F) \<Longrightarrow> psound F st"
proof (induction rule: fw_reaches.induct)
  case (reach_init hw e st)
  with main_init_sound [of F hw bd e] show ?case by auto
next
  case (reach_step st hw ev st')
  with step_answered [of hw F st ev bd] show ?case by (simp add: answered_def)
qed

text \<open>C3: The whole firmware behind the safety layer. In every state the firmware reaches from its
  start - whatever the buses, the host, the timer and the CAN cores do, in any order - the safety
  variables are those of a run of the safety layer from boot; every frame waiting in a transmit
  queue and every frame in a transmit mailbox was accepted by the transmit hook in that run, or is
  the copy the forwarding rule made of a received frame; and the controls are allowed only if some
  event of that run gave them.\<close>

theorem firmware_safe:
  assumes "fw_reaches F bd st" and "\<not> CANFD (sb F)"
  shows "\<exists>es. safety_run (sb F) boot_state es (sfty st) \<and>
    (\<forall>b < 3. queued b (can st) \<subseteq> origin es) \<and> (\<forall>k < 3. mailbox_from es (cans (can st) ! k)) \<and>
    (controls_allowed (sfty st) \<longrightarrow> (\<exists>e \<in> set es. engaging (sb F) e))"
proof -
  obtain es where es: "accounted F es (can st)"
    using reaches_sound [OF assms] by (auto simp: psound_def sound_def)
  then have run: "safety_run (sb F) boot_state es (sfty st)" by (simp add: accounted_def)
  have "\<not> controls_allowed boot_state" by (simp add: boot_state_def)
  then have "\<exists>e \<in> set es. engaging (sb F) e" if "controls_allowed (sfty st)"
    using run_engaged [OF run that] by auto
  with es run show ?thesis by (auto simp: accounted_def)
qed



text \<open>Both on the board in use, from its start.\<close>

lemma f407_start: "\<exists>st. fw_reaches fw_f407 board_nucleo st"
  using main_init_sound [of fw_f407 plain_hw board_nucleo e] reach_init by blast

theorem firmware_safe_witness:
  "\<exists>st es. fw_reaches fw_f407 board_nucleo st \<and> safety_run (sb fw_f407) boot_state es (sfty st) \<and>
    (\<forall>b < 3. queued b (can st) \<subseteq> origin es)"
proof -
  obtain st where "fw_reaches fw_f407 board_nucleo st" using f407_start by blast
  moreover have "\<not> CANFD (sb fw_f407)" by (simp add: fw_f407_def build_f407_def)
  ultimately show ?thesis using firmware_safe [of fw_f407 board_nucleo st] by blast
qed


end
