(* ===== verification/Firmware_Liveness.thy ===== *)
theory Firmware_Liveness
  imports Firmware_System
begin

text \<open>
  What happens when the host falls silent. Only a request may keep the heartbeat alive, so in a run
  without requests the periodic tick counts the seconds and ends in the idle mode of the board. The
  lemmas say which steps keep the variables this depends on; the time left is a measure every tick
  decreases.
\<close>

subsection \<open>The driver leaves the safety layer alone\<close>

lemma process_next_safety: "process_next hw n k b c = Some c' \<Longrightarrow> safety c' = safety c"
  by (auto simp: process_next_def refresh_can_tx_slots_available_def upd_core_def upd_health_def Let_def
      split: if_splits option.splits prod.splits bind_splits)

lemma process_done_safety: "process_done F hw k b c = Some c' \<Longrightarrow> safety c' = safety c"
  by (auto simp: process_done_def process_echo_def push_rx_def upd_core_def Let_def split_beta
      split: if_splits bind_splits)

lemma process_can_safety: "process_can F hw n c = Some c' \<Longrightarrow> safety c' = safety c"
proof -
  have "safety (clear_tx_error hw n k c) = safety c" for k
    by (simp add: clear_tx_error_def upd_core_def upd_health_def)
  then show "process_can F hw n c = Some c' \<Longrightarrow> safety c' = safety c"
    by (auto simp: process_can_def Let_def dest!: process_done_safety process_next_safety
        split: if_splits bind_splits)
qed

lemma can_init_safety: "can_init F hw n c = Some c' \<Longrightarrow> safety c' = safety c"
  by (auto simp: can_init_def llcan_init_def can_set_speed_def upd_core_def Let_def
      dest!: process_can_safety split: if_splits)

lemma can_init_one_safety: "can_init_one F hw n c = Some c' \<Longrightarrow> safety c' = safety c"
  by (auto simp: can_init_one_def refresh_can_tx_slots_available_def Let_def dest!: can_init_safety split: if_splits)

lemma can_init_all_safety: "can_init_all F hw c = Some c' \<Longrightarrow> safety c' = safety c"
  by (auto simp: can_init_all_def dest!: can_init_one_safety split: bind_splits)

text \<open>Events that are no mode switch keep the mode.\<close>

lemma step_keeps_mode:
  assumes "safety_step B s e s'" and "\<not> is_mode_switch e"
  shows "mode_key s' = mode_key s"
  using assms(1)
proof (cases rule: safety_step.cases)
  case (step_rx p ok)
  with rx_step_key [of B p s] show ?thesis by simp
next
  case (step_tx p ok)
  with mode_view_key [OF tx_step_views(1), of B p s] show ?thesis by simp
next
  case step_tick
  with tick_step_views(1) show ?thesis by simp
qed (use assms(2) in \<open>simp_all add: mode_key_def fault_occurred_def\<close>)

lemma run_keeps_mode:
  "safety_run B s es s' \<Longrightarrow> \<forall>e \<in> set es. \<not> is_mode_switch e \<Longrightarrow> current_safety_mode s' = current_safety_mode s"
proof (induction rule: safety_run.induct)
  case (run_nil s)
  then show ?case by simp
next
  case (run_cons s e t es u)
  with step_keeps_mode [OF run_cons.hyps(1)] show ?case by (simp add: mode_key_def)
qed

lemma rx_no_switch: "list_all is_rx es \<Longrightarrow> \<forall>e \<in> set es. \<not> is_mode_switch e"
  by (auto simp: list_all_iff is_rx_def)

lemma can_rx_mode:
  assumes "length (stack_bytes hw) = 8" and "driver_ok c" and "can_rx F hw n c = Some c'"
  shows "current_safety_mode (safety c') = current_safety_mode (safety c)"
proof -
  let ?c = "upd_core (CANIF_FROM_CAN_NUM F n) (\<lambda>c. c\<lparr>fifo_overrun := False\<rparr>) c"
  obtain ps where eff: "rx_effects F hw n ?c ps c'"
    using can_rx_ok [OF assms(1,2), of F n] assms(3) by (auto split: if_splits)
  have "driver_ok ?c" using driver_ok_core [OF assms(2)] by simp
  from rx_effects_run [OF eff this] obtain es where "list_all is_rx es" "safety_run (sb F) (safety ?c) es (safety c')"
    by blast
  from run_keeps_mode [OF this(2) rx_no_switch [OF this(1)]] show ?thesis by (simp add: upd_core_def)
qed

lemma enqueue_safety: "enqueue_tx F hw p b c = Some c' \<Longrightarrow> safety c' = safety c"
  by (auto simp: enqueue_tx_def Let_def split_beta dest!: process_can_safety split: if_splits)

lemma host_send_mode:
  assumes "host_send F hw p c = Some c'"
  shows "current_safety_mode (safety c') = current_safety_mode (safety c)"
proof -
  obtain ok s where tx: "safety_tx_hook (hooks_of (sb F)) p (safety c) = (ok, s)" by fastforce
  have "safety c' = s"
    using assms tx by (auto simp: host_send_def can_send_def reject_tx_def push_rx_def Let_def split_beta
      dest!: enqueue_safety split: if_splits bind_splits)
  with step_keeps_mode [OF step_tx [OF tx]] show ?thesis by (simp add: mode_key_def)
qed

lemma send_all_mode:
  "send_all (sb F) (host_send F hw) ws c = Some c' \<Longrightarrow> current_safety_mode (safety c') = current_safety_mode (safety c)"
proof (induction ws arbitrary: c)
  case (Cons w ws)
  then show ?case by (auto dest!: host_send_mode split: bind_splits)
qed simp


subsection \<open>The variables the timeout depends on\<close>

definition idle_mode :: "fw_build \<Rightarrow> u16" where
  "idle_mode F = (if PANDA_NUCLEO (sb F) then SAFETY_NOOUTPUT else SAFETY_SILENT)"

abbreviation mode_of :: "panda_state \<Rightarrow> u16" where "mode_of st \<equiv> current_safety_mode (sfty st)"

definition plug :: "panda_state \<Rightarrow> u8 \<times> u8 \<times> u8 \<times> bool" where
  "plug st = (loop_counter st, prev_harness_status st, harness_status (harness st), heartbeat_disabled st)"

definition vital :: "panda_state \<Rightarrow> u16 \<times> u32 \<times> u8 \<times> u8 \<times> u8 \<times> bool" where
  "vital st = (mode_of st, heartbeat_counter st, plug st)"

lemma plug_upd [simp]:
  "plug (upd_can f st) = plug st" "plug (upd_safety g st) = plug st"
  "heartbeat_counter (upd_can f st) = heartbeat_counter st"
  "heartbeat_counter (upd_safety g st) = heartbeat_counter st"
  by (simp_all add: plug_def upd_can_def upd_safety_def)

lemma sfty_upd [simp]:
  "sfty (upd_can f st) = safety (f (can st))" "sfty (upd_safety g st) = g (sfty st)"
  by (simp_all add: upd_can_def upd_safety_def)

lemma try_can_plug: "try_can f st = Some st' \<Longrightarrow> plug st' = plug st \<and> heartbeat_counter st' = heartbeat_counter st \<and>
    f (can st) = Some (can st')"
  by (auto simp: try_can_def plug_def)

lemma relay_plug [simp]: "harness_status (set_intercept_relay a b h) = harness_status h"
  by (simp add: set_intercept_relay_def Let_def)

lemma apply_mode_plug: "plug (apply_mode F hw m p st) = plug st \<and> sfty (apply_mode F hw m p st) = sfty st"
  by (simp add: apply_mode_def plug_def upd_can_def can_clear_send_def llcan_clear_send_def upd_core_def upd_health_def)

text \<open>A switch to a mode of the registry ends in that mode.\<close>

lemma switch_hooks_known:
  assumes "m \<in> fst ` set (safety_hook_registry (sb F))" and "switch_hooks F m p s = Some (m', t)"
  shows "current_safety_mode t = m"
proof -
  obtain r u where set: "set_safety_hooks (hooks_of (sb F)) (safety_hook_registry (sb F)) m p s = (r, u)" by fastforce
  from mode_step_cases [OF this] assms(1) obtain h cfg v where r: "r = 0" and u: "u = v\<lparr>current_safety_config := cfg\<rparr>"
    and v: "mode_view v = mode_view (mode_start h m p s)" by auto
  have "t = u" using assms(2) set r by (simp add: switch_hooks_def)
  then show ?thesis using u mode_view_key [OF v] by (simp add: mode_key_def)
qed

lemma set_safety_mode_known:
  assumes "m \<in> fst ` set (safety_hook_registry (sb F))" and "set_safety_mode F hw m p st = Some st'"
  shows "mode_of st' = m \<and> plug st' = plug st"
proof -
  obtain m' t st1 where sw: "switch_hooks F m p (sfty st) = Some (m', t)"
    and st1: "st1 = upd_can (\<lambda>c. c\<lparr>safety := t, safety_tx_blocked := 0, safety_rx_invalid := 0\<rparr>) st"
    and init: "try_can (can_init_all F hw) (apply_mode F hw m' p st1) = Some st'"
    using assms(2) by (auto simp: set_safety_mode_def split: bind_splits)
  have "safety (can st') = sfty (apply_mode F hw m' p st1)" "plug st' = plug (apply_mode F hw m' p st1)"
    using try_can_plug [OF init] can_init_all_safety by blast+
  then show ?thesis using apply_mode_plug [of F hw m' p st1] switch_hooks_known [OF assms(1) sw]
    by (simp add: st1)
qed

lemma idle_known: "idle_mode F \<in> fst ` set (safety_hook_registry (sb F))"
  by (simp add: idle_mode_def safety_hook_registry_def SAFETY_SILENT_def SAFETY_NOOUTPUT_def)

lemma power_save_plug:
  "plug (set_power_save_state F v st) = plug st \<and> sfty (set_power_save_state F v st) = sfty st \<and>
   heartbeat_counter (set_power_save_state F v st) = heartbeat_counter st"
  by (simp add: set_power_save_state_def set_can_irq_def enable_can_transceivers_def upd_can_def plug_def Let_def)

lemma heartbeat_idle_mode:
  assumes "heartbeat_idle F hw started st = Some st'"
  shows "mode_of st' = idle_mode F \<and> plug st' = plug st"
proof -
  obtain st1 where st1: "(if mode_of st \<noteq> idle_mode F then set_safety_mode F hw (idle_mode F) 0 st else Some st) = Some st1"
    and st': "st' = st1 \<or> st' = set_power_save_state F POWER_SAVE_STATUS_ENABLED st1"
    using assms by (auto simp: heartbeat_idle_def idle_mode_def split: if_splits bind_splits)
  have "mode_of st1 = idle_mode F \<and> plug st1 = plug st"
    using st1 set_safety_mode_known [OF idle_known] by (auto split: if_splits)
  with st' power_save_plug show ?thesis by auto
qed

subsection \<open>The tick\<close>

text \<open>The measured orientation is the one the firmware works with.\<close>

definition steady :: "board \<Rightarrow> senses \<Rightarrow> u8 \<Rightarrow> bool" where
  "steady bd e h \<longleftrightarrow> fst (harness_detect_orientation bd e harness_zero) = h"

lemma steady_tick:
  "steady bd e (harness_status h) \<Longrightarrow> harness_status (harness_tick bd e h) = harness_status h"
  by (auto simp: steady_def harness_tick_def harness_detect_orientation_def harness_zero_def Let_def split: if_splits)

lemma tick_drivers_vital:
  "steady bd e (harness_status (harness st)) \<Longrightarrow> vital (tick_drivers bd e st) = vital st"
  by (simp add: tick_drivers_def vital_def plug_def upd_safety_def upd_can_def simple_watchdog_kick_def Let_def steady_tick)

lemma tick_live_vital: "vital (tick_live st) = vital st"
  by (simp add: tick_live_def vital_def plug_def upd_can_def Let_def)

lemma tick_engaged_mode [simp]: "current_safety_mode (tick_engaged s) = current_safety_mode s"
  by (simp add: tick_engaged_def Let_def)

lemma safety_tick_mode [simp]: "current_safety_mode (safety_tick s) = current_safety_mode s"
  using tick_step_views(1) [of s] by (simp add: mode_key_def)

lemma tick_safety_vital: "vital (tick_safety e st) = vital st"
  by (simp add: tick_safety_def vital_def plug_def upd_safety_def upd_can_def Let_def)

definition counted :: "u32 \<Rightarrow> u32" where "counted k = (if k < 0xFFFFFFFF then k + 1 else k)"

definition still_off :: "panda_state \<Rightarrow> bool" where
  "still_off st \<longleftrightarrow> heartbeat_disabled st \<and> \<not> is_car_safety_mode (mode_of st)"

lemma tick_counters_vital:
  "vital (tick_counters st) = (mode_of st, counted (heartbeat_counter st), loop_counter st, prev_harness_status st,
     harness_status (harness st), still_off st)"
proof -
  define a where "a = (if heartbeat_counter st < 0xFFFFFFFF
                then st\<lparr>heartbeat_counter := heartbeat_counter st + 1\<rparr> else st)"
  define b where "b = (if is_car_safety_mode (current_safety_mode (sfty a)) then a\<lparr>heartbeat_disabled := False\<rparr> else a)"
  define c where "c = (if siren_countdown b > 0 then b\<lparr>siren_countdown := siren_countdown b - 1\<rparr> else b)"
  have "vital a = (mode_of st, counted (heartbeat_counter st), plug st)"
    by (simp add: a_def vital_def plug_def counted_def)
  then have "vital b = (mode_of st, counted (heartbeat_counter st), loop_counter st, prev_harness_status st,
     harness_status (harness st), still_off st)"
    by (auto simp: b_def vital_def plug_def still_off_def a_def)
  then have "vital c = \<dots>" by (simp add: c_def vital_def plug_def)
  then have "vital (if p then c\<lparr>controls_allowed_countdown := 5\<rparr>
      else if q then c\<lparr>controls_allowed_countdown := k\<rparr> else c) = (mode_of st, counted (heartbeat_counter st),
      loop_counter st, prev_harness_status st, harness_status (harness st), still_off st)" for p q k
    by (simp add: vital_def plug_def)
  then show ?thesis unfolding tick_counters_def Let_def a_def [symmetric] b_def [symmetric] c_def [symmetric] .
qed

lemma tick_heartbeat_cases:
  assumes "tick_heartbeat F hw bd e started st = Some st'"
  shows "(heartbeat_disabled st \<or> heartbeat_counter st < 5) \<and> st' = st \<or>
    mode_of st' = idle_mode F \<and> plug st' = plug st"
proof (cases "\<not> heartbeat_disabled st \<and>
    heartbeat_counter st \<ge> (if started then HEARTBEAT_IGNITION_CNT_ON else HEARTBEAT_IGNITION_CNT_OFF)")
  case False
  then have "heartbeat_disabled st \<or> heartbeat_counter st < 5"
    by (auto simp: HEARTBEAT_IGNITION_CNT_ON_def HEARTBEAT_IGNITION_CNT_OFF_def word_less_nat_alt word_le_nat_alt
        split: if_splits)
  moreover have "st' = st" using assms False by (simp add: tick_heartbeat_def)
  ultimately show ?thesis by simp
next
  case True
  define st1 where "st1 = (if controls_allowed_countdown st > 0
                  then st\<lparr>siren_countdown := 3, controls_allowed_countdown := 0\<rparr> else st)"
  define st2 where "st2 = upd_safety (\<lambda>s. s\<lparr>heartbeat_engaged := False\<rparr>)
      (if is_car_safety_mode (current_safety_mode (sfty st1)) then st1\<lparr>heartbeat_lost := True\<rparr> else st1)"
  obtain st3 where idle: "heartbeat_idle F hw started st2 = Some st3"
    and st': "st' = st3\<lparr>ir_power := 0, fan := fan_set_power bd (if som_gpio e then 30 else 0) (fan st3)\<rparr>"
    using assms True unfolding tick_heartbeat_def Let_def st1_def [symmetric] st2_def [symmetric]
    by (auto split: bind_splits)
  have "plug st1 = plug st" by (simp add: st1_def plug_def)
  then have "plug st2 = plug st" by (simp add: st2_def) (simp add: plug_def)
  with heartbeat_idle_mode [OF idle] show ?thesis by (simp add: st' plug_def)
qed


lemma tick_second_cases:
  assumes "tick_second F hw bd e st = Some st'"
  shows "(loop_counter st', prev_harness_status st', harness_status (harness st'), heartbeat_disabled st') =
      (loop_counter st, prev_harness_status st, harness_status (harness st), still_off st) \<and>
    (mode_of st' = idle_mode F \<or>
     mode_of st' = mode_of st \<and> heartbeat_counter st' = counted (heartbeat_counter st) \<and>
     (still_off st \<or> heartbeat_counter st' < 5))"
proof -
  define st1 where "st1 = tick_live st"
  define started where "started \<longleftrightarrow> harness_check_ignition e (harness st1) \<or> ignition_can (can st1)"
  define st2 where "st2 = st1\<lparr>bootkick := bootkick_tick e (harness_status (harness st1)) started
      (heartbeat_counter st1 = 0) (bootkick st1)\<rparr>"
  define st3 where "st3 = upd_safety tick_engaged (tick_counters st2)"
  obtain st4 where hb: "tick_heartbeat F hw bd e started st3 = Some st4" and st': "st' = tick_safety e st4"
    using assms by (auto simp: tick_second_def Let_def st1_def [symmetric] started_def [symmetric] st2_def [symmetric]
        st3_def [symmetric] split: bind_splits)
  have "vital st2 = vital st" using tick_live_vital [of st] by (simp add: st2_def st1_def [symmetric] vital_def plug_def)
  then have same: "mode_of st2 = mode_of st" "heartbeat_counter st2 = heartbeat_counter st" "plug st2 = plug st"
    "still_off st2 = still_off st"
    by (simp_all add: vital_def plug_def still_off_def)
  have "vital st3 = vital (tick_counters st2)" by (simp add: st3_def vital_def)
  then have st3: "vital st3 = (mode_of st, counted (heartbeat_counter st), loop_counter st, prev_harness_status st,
     harness_status (harness st), still_off st)"
    using same by (simp add: tick_counters_vital) (simp add: plug_def)
  from tick_heartbeat_cases [OF hb] st3 tick_safety_vital [of e st4] show ?thesis
    by (auto simp: st' vital_def plug_def)
qed

subsection \<open>The time left\<close>

definition time_left :: "panda_state \<Rightarrow> nat" where
  "time_left st = 8 * (4 - unat (heartbeat_counter st)) + (8 - unat (loop_counter st)) mod 8 + 1"

lemma time_left_bounds: "1 \<le> time_left st" "time_left st \<le> 40"
proof -
  have "(8 - unat (loop_counter st)) mod 8 < 8" by simp
  moreover have "8 * (4 - unat (heartbeat_counter st)) \<le> 32" by simp
  ultimately show "1 \<le> time_left st" "time_left st \<le> 40" unfolding time_left_def by linarith+
qed

lemma next_loop: "l < 8 \<Longrightarrow> unat ((l + 1) mod 8 :: u8) = (unat l + 1) mod 8"
  by (simp add: word_less_nat_alt unat_mod unat_word_ariths)

text \<open>What a run without requests keeps: the loop counter in its range, the harness as it is, and
  the idle mode once it is reached; until then the timeout is armed.\<close>

definition armed :: "fw_build \<Rightarrow> panda_state \<Rightarrow> bool" where
  "armed F st \<longleftrightarrow> loop_counter st < 8 \<and> prev_harness_status st = harness_status (harness st) \<and>
     (mode_of st = idle_mode F \<or> \<not> still_off st)"

lemma vital_armed: "vital st' = vital st \<Longrightarrow> armed F st' = armed F st \<and> time_left st' = time_left st \<and>
    mode_of st' = mode_of st \<and> harness_status (harness st') = harness_status (harness st)"
  by (simp add: armed_def vital_def plug_def still_off_def time_left_def)

lemma tick_armed:
  assumes "tick_handler F hw bd e st = Some st'" and "armed F st" and "steady bd e (harness_status (harness st))"
  shows "armed F st' \<and> harness_status (harness st') = harness_status (harness st) \<and>
    (mode_of st = idle_mode F \<longrightarrow> mode_of st' = idle_mode F) \<and>
    (mode_of st' = idle_mode F \<or> time_left st' + 1 \<le> time_left st)"
proof -
  define st1 where "st1 = tick_drivers bd e st"
  have v: "vital st1 = vital st" unfolding st1_def by (rule tick_drivers_vital [OF assms(3)])
  then have a: "armed F st1" "time_left st1 = time_left st" "mode_of st1 = mode_of st"
    "harness_status (harness st1) = harness_status (harness st)" using vital_armed assms(2) by blast+
  have "tick_harness F hw st1 = Some st1" using a(1) by (simp add: tick_harness_def armed_def)
  then obtain st2 where st2: "(if loop_counter st1 = 0 then tick_second F hw bd e st1 else Some st1) = Some st2"
    and st': "st' = st2\<lparr>loop_counter := (loop_counter st2 + 1) mod 8\<rparr>"
    using assms(1) by (auto simp: tick_handler_def st1_def [symmetric] split: bind_splits)
  have loop: "loop_counter st1 < 8" using a(1) by (simp add: armed_def)
  have next_lt: "(l + 1) mod 8 < (8 :: u8)" for l by (simp add: word_less_nat_alt unat_mod)
  show ?thesis
  proof (cases "loop_counter st1 = 0")
    case False
    then have "st2 = st1" using st2 by simp
    moreover have "0 < unat (loop_counter st1)" "unat (loop_counter st1) < 8"
      using False loop by (simp_all add: word_less_nat_alt unat_gt_0)
    then have "(8 - (unat (loop_counter st1) + 1) mod 8) mod 8 + 1 = (8 - unat (loop_counter st1)) mod 8"
      by (cases "unat (loop_counter st1) = 7") simp_all
    ultimately show ?thesis using a next_lt next_loop [OF loop]
      by (simp add: st' armed_def still_off_def time_left_def)
  next
    case True
    then have sec: "tick_second F hw bd e st1 = Some st2" using st2 by simp
    note c = tick_second_cases [OF sec]
    have keep: "armed F st' \<and> harness_status (harness st') = harness_status (harness st)"
      using c a(1,4) next_lt by (auto simp: st' armed_def still_off_def)
    show ?thesis
    proof (cases "mode_of st2 = idle_mode F")
      case True
      with keep show ?thesis by (simp add: st')
    next
      case False
      then have m: "mode_of st2 = mode_of st1" "heartbeat_counter st2 = counted (heartbeat_counter st1)"
        "heartbeat_counter st2 < 5" using c a(1) by (auto simp: armed_def)
      have "unat (heartbeat_counter st2) = unat (heartbeat_counter st1) + 1 \<and> unat (heartbeat_counter st1) < 4"
        using m(2,3) by (auto simp: counted_def word_less_nat_alt unat_word_ariths split: if_splits)
      moreover have "loop_counter st2 = 0" using c True by simp
      ultimately have "time_left st' + 1 \<le> time_left st1" using True by (simp add: st' time_left_def) arith
      with keep False m(1) a(2,3) show ?thesis by (simp add: st')
    qed
  qed
qed


subsection \<open>Runs without requests\<close>

fun quiet :: "board \<Rightarrow> u8 \<Rightarrow> fw_event \<Rightarrow> bool" where
  "quiet bd h (Request req ce e) = False"
| "quiet bd h (TickIrq e) = steady bd e h"
| "quiet bd h ev = True"

fun is_tick :: "fw_event \<Rightarrow> bool" where
  "is_tick (TickIrq e) = True"
| "is_tick ev = False"

definition ticks :: "(can_hw \<times> fw_event) list \<Rightarrow> nat" where
  "ticks evs = length (filter (is_tick \<circ> snd) evs)"

lemma continue_running [simp]: "continue r = Running st \<longleftrightarrow> r = Some st"
  by (simp add: continue_def split: option.splits)

lemma try_can_vital:
  assumes "try_can f st = Some st'"
    and "\<And>c'. f (can st) = Some c' \<Longrightarrow> current_safety_mode (safety c') = mode_of st"
  shows "vital st' = vital st"
proof -
  have t: "plug st' = plug st" "heartbeat_counter st' = heartbeat_counter st" "f (can st) = Some (can st')"
    using try_can_plug [OF assms(1)] by blast+
  then show ?thesis using assms(2) [OF t(3)] by (simp add: vital_def)
qed

lemma upd_can_vital:
  "current_safety_mode (safety (f (can st))) = mode_of st \<Longrightarrow> vital (upd_can f st) = vital st"
  by (simp add: vital_def)

lemma upd_safety_frame:
  "safety (upd_core n f c) = safety c" "safety (upd_health n g c) = safety c"
  "safety (can_clear_send hw k n c) = safety c"
  by (simp_all add: upd_core_def upd_health_def can_clear_send_def llcan_clear_send_def)

lemma can_sce_safety: "safety (can_sce F hw n c) = safety c"
  by (simp add: can_sce_def update_can_health_pkt_def upd_safety_frame Let_def)

lemma host_write_vital:
  assumes "psound F st" and "host_write F hw bytes st = Some st'"
  shows "vital st' = vital st"
proof -
  let ?ws = "fst (split_stream (pending (can_write_buffer st) @ bytes))"
  have "write_ok (can_write_buffer st)" using assms(1) by (simp add: psound_def)
  note stream = comms_can_write_stream [OF this, where B = "sb F" and send = "host_send F hw" and bytes = bytes
      and s = "can st" and refresh = refresh_can_tx_slots_available]
  obtain buf c where w: "comms_can_write (sb F) (host_send F hw) refresh_can_tx_slots_available bytes
      (can_write_buffer st) (can st) = Some (buf, c)" and st': "st' = st\<lparr>can_write_buffer := buf, can := c\<rparr>"
    using assms(2) by (auto simp: host_write_def split: bind_splits)
  obtain c1 where "send_all (sb F) (host_send F hw) ?ws (can st) = Some c1" "c = refresh_can_tx_slots_available c1"
    using stream w by (cases "send_all (sb F) (host_send F hw) ?ws (can st)") auto
  with send_all_mode [of F hw ?ws "can st" c1] show ?thesis
    by (simp add: st' vital_def plug_def refresh_can_tx_slots_available_def Let_def)
qed

lemma quiet_vital:
  assumes "psound F st" and "length (stack_bytes hw) = 8" and "fw_step F bd hw ev st = Running st'"
    and "quiet bd h ev" and "\<not> is_tick ev"
  shows "vital st' = vital st"
proof (cases ev)
  case (Registers k tsr esr overrun fifo)
  with assms(3) show ?thesis by (auto intro!: upd_can_vital simp: set_registers_def upd_core_def)
next
  case (TxIrq n)
  then have "st' = st \<or> try_can (process_can F hw n) st = Some st'" using assms(3) by (simp split: if_splits)
  then show ?thesis
    by (elim disjE) (simp, erule try_can_vital, simp add: process_can_safety)
next
  case (RxIrq n)
  have "driver_ok (can st)" using assms(1) by (simp add: psound_def sound_def)
  note mode = can_rx_mode [OF assms(2) this]
  have "st' = st \<or> try_can (can_rx F hw n) st = Some st'" using assms(3) RxIrq by (simp split: if_splits)
  then show ?thesis by (elim disjE) (simp, erule try_can_vital, erule mode)
next
  case (ErrIrq n)
  with assms(3) show ?thesis by (auto intro!: upd_can_vital simp: can_sce_safety split: if_splits)
next
  case (HostWrite bytes)
  with assms(3) host_write_vital [OF assms(1)] show ?thesis by simp
next
  case (HostRead n)
  with assms(3) show ?thesis by (auto simp: host_read_def vital_def plug_def split: bind_splits)
next
  case (Clock t)
  with assms(3) show ?thesis by (auto simp: vital_def plug_def upd_safety_def upd_can_def)
qed (use assms(4,5) in simp_all)

lemma quiet_run:
  assumes "fw_run F bd evs st = Running st'" and "psound F st" and "\<not> CANFD (sb F)"
    and "\<forall>(hw, ev) \<in> set evs. length (stack_bytes hw) = 8 \<and> quiet bd (harness_status (harness st)) ev"
    and "armed F st"
  shows "psound F st' \<and> (mode_of st = idle_mode F \<longrightarrow> mode_of st' = idle_mode F) \<and>
    (mode_of st' = idle_mode F \<or> time_left st' + ticks evs \<le> time_left st)"
  using assms
proof (induction evs arbitrary: st)
  case Nil
  then show ?case by (simp add: ticks_def)
next
  case (Cons p evs)
  obtain hw ev where p: "p = (hw, ev)" by fastforce
  obtain st1 where step: "fw_step F bd hw ev st = Running st1" and run: "fw_run F bd evs st1 = Running st'"
    using Cons.prems(1) by (auto simp: p split: fw_outcome.splits)
  have hw: "length (stack_bytes hw) = 8" and ev: "quiet bd (harness_status (harness st)) ev"
    using Cons.prems(4) by (auto simp: p)
  have sound: "psound F st1"
    using step_answered [OF hw Cons.prems(3,2), of ev bd] step by (simp add: answered_def)
  have one: "armed F st1 \<and> harness_status (harness st1) = harness_status (harness st) \<and>
      (mode_of st = idle_mode F \<longrightarrow> mode_of st1 = idle_mode F) \<and>
      (mode_of st1 = idle_mode F \<or> time_left st1 + (if is_tick ev then 1 else 0) \<le> time_left st)"
  proof (cases "is_tick ev")
    case True
    then obtain e where e: "ev = TickIrq e" by (cases ev) auto
    then have "tick_handler F hw bd e st = Some st1" "steady bd e (harness_status (harness st))"
      using step ev by simp_all
    with tick_armed [OF this(1) Cons.prems(5) this(2)] show ?thesis by (simp add: e)
  next
    case False
    with vital_armed [OF quiet_vital [OF Cons.prems(2) hw step ev False], of F] Cons.prems(5)
    show ?thesis by simp
  qed
  have "\<forall>(hw, ev) \<in> set evs. length (stack_bytes hw) = 8 \<and> quiet bd (harness_status (harness st1)) ev"
    using Cons.prems(4) one by auto
  from Cons.IH [OF run sound Cons.prems(3) this] one show ?case by (auto simp: p ticks_def split: if_splits)
qed


subsection \<open>The loop counter stays in its range\<close>

lemma set_safety_mode_plug: "set_safety_mode F hw m p st = Some st' \<Longrightarrow> plug st' = plug st"
  by (auto simp: set_safety_mode_def apply_mode_plug dest!: try_can_plug split: bind_splits)

lemma control_simple_loop: "loop_counter (control_simple F bd req st) = loop_counter st"
proof -
  have "loop_counter (set_power_save_state F v st) = loop_counter st" for v
    using power_save_plug [of F v st] by (simp add: plug_def)
  then show ?thesis
    by (simp add: control_simple_def heartbeat_received_def upd_safety_def upd_can_def Let_def)
qed

lemma plug_loop: "plug a = plug b \<Longrightarrow> loop_counter a = loop_counter b"
  by (simp add: plug_def)

lemma request_loop:
  assumes "comms_control_handler F hw bd ce e req st = Some (Replied resp st')"
  shows "loop_counter st' = loop_counter st"
proof (cases "control_query F ce e req st")
  case (Some r)
  with assms show ?thesis by (simp add: comms_control_handler_def)
next
  case None
  have health: "control_can_health F hw ce n st = Replied resp st' \<Longrightarrow> loop_counter st' = loop_counter st" for n
    by (auto simp: control_can_health_def upd_can_def Let_def split: if_splits)
  have boot: "enter_bootloader F n st = Replied resp st' \<Longrightarrow> loop_counter st' = loop_counter st" for n
    by (auto simp: enter_bootloader_def split: if_splits)
  show ?thesis
    using assms health boot control_simple_loop [of F bd req st]
    by (auto simp: comms_control_handler_def None Let_def split: if_splits
        dest!: set_safety_mode_plug plug_loop try_can_plug)
qed

lemma tick_loop: "tick_handler F hw bd e st = Some st' \<Longrightarrow> loop_counter st' < 8"
  by (auto simp: tick_handler_def word_less_nat_alt unat_mod split: bind_splits)

lemma main_init_plug:
  assumes "main_init F hw bd e = Some st"
  shows "plug st = (0, HARNESS_STATUS_NC, harness_status (harness_init (sb F) bd e harness_zero), False)"
  using assms
  by (auto simp: main_init_def panda_reset_def enable_can_transceivers_def plug_def Let_def
      dest!: set_safety_mode_plug split: bind_splits)

lemma reaches_loop:
  assumes "fw_reaches F bd st" and "\<not> CANFD (sb F)"
  shows "loop_counter st < 8"
  using assms
proof (induction rule: fw_reaches.induct)
  case (reach_init hw e st)
  from main_init_plug [OF reach_init.hyps] show ?case by (simp add: plug_def)
next
  case (reach_step st hw ev st')
  have st: "psound F st" by (rule reaches_sound [OF reach_step.hyps(1) reach_step.prems])
  show ?case
  proof (cases "is_tick ev")
    case True
    with reach_step.hyps(3) tick_loop show ?thesis by (cases ev) auto
  next
    case False
    show ?thesis
    proof (cases "quiet bd 0 ev")
      case True
      from quiet_vital [OF st reach_step.hyps(2,3) True False] have "loop_counter st' = loop_counter st"
        by (simp add: vital_def plug_def)
      then show ?thesis using reach_step.IH reach_step.prems by simp
    next
      case no: False
      then obtain req ce e where "ev = Request req ce e" using False by (cases ev) auto
      with reach_step.hyps(3) have "loop_counter st' = loop_counter st"
        by (auto dest: request_loop split: option.splits control_outcome.splits)
      then show ?thesis using reach_step.IH reach_step.prems by simp
    qed
  qed
qed

lemma idle_silent:
  assumes "system_inv B s" and "current_safety_mode s \<in> {SAFETY_SILENT, SAFETY_NOOUTPUT}"
  shows "\<not> controls_allowed s \<and> \<not> fst (safety_tx_hook (hooks_of B) p s)"
proof -
  have "current_hooks s = nooutput_hooks_ptr" using assms registry_silent by (auto simp: system_inv_def)
  then show ?thesis using assms(1)
    by (auto simp: system_inv_def safety_tx_hook_def nooutput_hooks_def nooutput_tx_hook_def Let_def split: if_splits)
qed

text \<open>C4: When the host falls silent. From any state the firmware reaches with the timeout not
  disabled, in any run in which the host sends no request and the harness keeps its position -
  with whatever frames, interrupts and transfers of the byte stream in between - forty ticks of the
  8 Hz timer, five seconds, end in the idle mode of the board with the controls withdrawn, and no
  frame of the host is accepted any more.\<close>

theorem heartbeat_loss:
  assumes "fw_reaches F bd st" and "\<not> CANFD (sb F)" and "fw_run F bd evs st = Running st'"
    and "\<forall>(hw, ev) \<in> set evs. length (stack_bytes hw) = 8 \<and> quiet bd (harness_status (harness st)) ev"
    and "prev_harness_status st = harness_status (harness st)"
    and "heartbeat_disabled st \<longrightarrow> is_car_safety_mode (mode_of st)" and "40 \<le> ticks evs"
  shows "mode_of st' = idle_mode F \<and> \<not> controls_allowed (sfty st') \<and>
    (\<forall>p. \<not> fst (safety_tx_hook (hooks_of (sb F)) p (sfty st')))"
proof -
  have st: "psound F st" by (rule reaches_sound [OF assms(1,2)])
  have "armed F st" using reaches_loop [OF assms(1,2)] assms(5,6) by (auto simp: armed_def still_off_def)
  from quiet_run [OF assms(3) st assms(2,4) this] time_left_bounds [of st'] time_left_bounds [of st] assms(7)
  have sound: "psound F st'" and mode: "mode_of st' = idle_mode F" by auto
  obtain es where "safety_run (sb F) boot_state es (sfty st')"
    using sound by (auto simp: psound_def sound_def accounted_def)
  from run_system_inv [OF this boot_system_inv] have "system_inv (sb F) (sfty st')" .
  moreover have "mode_of st' \<in> {SAFETY_SILENT, SAFETY_NOOUTPUT}" using mode by (simp add: idle_mode_def)
  ultimately show ?thesis using mode idle_silent by blast
qed


text \<open>The board in use, driving the Mazda of this port, and a host that stops.\<close>

definition parked :: senses where
  "parked = \<lparr>adc_SBU1 = 3300, adc_SBU2 = 3300, gpio_SBU1 = True, gpio_SBU2 = True, som_gpio = False,
     som_serial_ptr = 0, register_divergent = False\<rparr>"

lemma ticks_run: "psound F st \<Longrightarrow> \<exists>st'. fw_run F bd (replicate n (hw, TickIrq e)) st = Running st'"
proof (induction n arbitrary: st)
  case (Suc n)
  obtain st1 where "tick_handler F hw bd e st = Some st1" "psound F st1"
    using tick_handler_sound [OF Suc.prems, of hw bd e] by blast
  with Suc.IH [of st1] show ?case by (simp add: continue_def)
qed simp

theorem heartbeat_loss_witness:
  "\<exists>st st'. fw_reaches fw_f407 board_nucleo st \<and> mode_of st = 13 \<and>
    fw_run fw_f407 board_nucleo (replicate 40 (plain_hw, TickIrq parked)) st = Running st' \<and>
    mode_of st' = SAFETY_NOOUTPUT \<and> \<not> controls_allowed (sfty st')"
proof -
  have F: "\<not> CANFD (sb fw_f407)" "length (stack_bytes plain_hw) = 8" "PANDA_NUCLEO (sb fw_f407)"
    by (simp_all add: fw_f407_def build_f407_def plain_hw_def)
  obtain st0 where st0: "main_init fw_f407 plain_hw board_nucleo parked = Some st0" "psound fw_f407 st0"
    using main_init_sound by blast
  obtain st where mode: "set_safety_mode fw_f407 plain_hw 13 0 st0 = Some st" "psound fw_f407 st"
    using set_safety_mode_sound [OF st0(2)] by blast
  let ?req = "\<lparr>request = 0xdc, param1 = 13, param2 = 0, req_length = 0\<rparr>"
  have "fw_step fw_f407 board_nucleo plain_hw (Request ?req ce parked) st0 = Running st" for ce
    using mode(1) by (simp add: comms_control_handler_def control_query_def Let_def)
  with reach_step [OF reach_init [OF st0(1)] F(2)] have reach: "fw_reaches fw_f407 board_nucleo st" by blast
  have "13 \<in> fst ` set (safety_hook_registry (sb fw_f407))"
    by (simp add: safety_hook_registry_def fw_f407_def build_f407_def)
  from set_safety_mode_known [OF this mode(1)] main_init_plug [OF st0(1)]
  have st: "mode_of st = 13" "plug st = (0, HARNESS_STATUS_NC, HARNESS_STATUS_NC, False)"
    using F(3) by (simp_all add: harness_init_def Let_def)
  have "steady board_nucleo parked HARNESS_STATUS_NC" by code_simp
  then have quiet: "\<forall>(hw, ev) \<in> set (replicate 40 (plain_hw, TickIrq parked)).
      length (stack_bytes hw) = 8 \<and> quiet board_nucleo (harness_status (harness st)) ev"
    using F(2) st(2) by (simp add: plug_def)
  have count: "40 \<le> ticks (replicate 40 (plain_hw, TickIrq parked))" by (simp add: ticks_def)
  obtain st' where run: "fw_run fw_f407 board_nucleo (replicate 40 (plain_hw, TickIrq parked)) st = Running st'"
    using ticks_run [OF mode(2)] by blast
  have pre: "prev_harness_status st = harness_status (harness st)"
    "heartbeat_disabled st \<longrightarrow> is_car_safety_mode (mode_of st)" using st(2) by (simp_all add: plug_def)
  from heartbeat_loss [OF reach F(1) run quiet pre count] reach run st(1) F(3) show ?thesis
    by (auto simp: idle_mode_def)
qed


subsection \<open>Shapes\<close>

text \<open>C23: Every variable of the firmware keeps its shape. In every state it reaches there are three
  queues, three cores and four bus entries; every queue is a well-formed ring of packets with eight
  data bytes and a length code of at most eight; the two overflow buffers have 72 bytes with their
  pointers inside; the loop counter is below eight; and the safety variables satisfy the system
  invariant of the safety layer.\<close>

theorem firmware_wellformed:
  assumes "fw_reaches F bd st" and "\<not> CANFD (sb F)"
  shows "driver_ok (can st) \<and> config_shape F (bus_config (can st)) \<and> write_ok (can_write_buffer st) \<and>
    read_ok (can_read_buffer st) (can_rx_q (can st)) \<and> loop_counter st < 8 \<and> system_inv (sb F) (sfty st)"
proof -
  have st: "psound F st" by (rule reaches_sound [OF assms])
  then have d: "driver_ok (can st)" "config_shape F (bus_config (can st))" by (simp_all add: psound_def sound_def)
  have "read_ok (can_read_buffer st) (can_rx_q (can st))"
    using st queue_drop fits_pkt_ok d(1) by (auto simp: psound_def read_ok_def driver_ok_def list_all_iff)
  moreover obtain es where "safety_run (sb F) boot_state es (sfty st)"
    using st by (auto simp: psound_def sound_def accounted_def)
  ultimately show ?thesis
    using d st reaches_loop [OF assms] run_system_inv [OF _ boot_system_inv] by (auto simp: psound_def)
qed

theorem firmware_wellformed_witness:
  "\<exists>st. fw_reaches fw_f407 board_nucleo st \<and> driver_ok (can st) \<and> loop_counter st < 8"
proof -
  obtain st where "fw_reaches fw_f407 board_nucleo st" using f407_start by blast
  moreover have "\<not> CANFD (sb fw_f407)" by (simp add: fw_f407_def build_f407_def)
  ultimately show ?thesis using firmware_wellformed [of fw_f407 board_nucleo st] by blast
qed

end
