(* ===== verification/Board_Properties.thy ===== *)
theory Board_Properties
  imports Board_Drivers
begin

text \<open>
  What the small drivers promise over any run of their ticks: the reset attempts of the bootkick and
  the output of the fan controller.
\<close>

subsection \<open>One reset per boot\<close>

fun bootkick_trace :: "(senses \<times> u8 \<times> bool \<times> bool) list \<Rightarrow> bootkick_t \<Rightarrow> BootState list" where
  "bootkick_trace [] b = []"
| "bootkick_trace ((e, orient, ign, hb) # ins) b =
     (let b = bootkick_tick e orient ign hb b in bootkick_state b # bootkick_trace ins b)"

definition bootkick_ok :: "bootkick_t \<Rightarrow> bool" where
  "bootkick_ok b \<longleftrightarrow> boot_reset_countdown b \<le> 4 \<and>
     (bootkick_reset_triggered b \<longrightarrow> waiting_to_boot_countdown b = 0) \<and>
     (\<not> bootkick_reset_triggered b \<longrightarrow> boot_reset_countdown b = 0 \<and> bootkick_state b \<noteq> BOOT_RESET)"

text \<open>How many more ticks may end in the reset state, and whether the computer has been up.\<close>

definition resets_left :: "bootkick_t \<Rightarrow> nat" where
  "resets_left b = (if bootkick_reset_triggered b then unat (boot_reset_countdown b) else 5)"

definition bootkick_up :: "bootkick_t \<Rightarrow> bool" where
  "bootkick_up b \<longleftrightarrow> bootkick_state b = BOOT_STANDBY \<or> 0 < waiting_to_boot_countdown b \<or>
     0 < boot_reset_countdown b \<or> bootkick_reset_triggered b"

lemma bootkick_request_frame [simp]:
  "bootkick_reset_triggered (bootkick_request q i h b) = bootkick_reset_triggered b"
  "waiting_to_boot_countdown (bootkick_request q i h b) = waiting_to_boot_countdown b"
  "boot_reset_countdown (bootkick_request q i h b) = boot_reset_countdown b"
  "bootkick_last_serial_ptr (bootkick_request q i h b) = bootkick_last_serial_ptr b"
  by (simp_all add: bootkick_request_def Let_def)

lemma bootkick_request_state:
  "bootkick_state (bootkick_request q i h b) \<in> {bootkick_state b, BOOT_BOOTKICK, BOOT_STANDBY}"
  by (simp add: bootkick_request_def Let_def)

lemma bootkick_wait_frame:
  "bootkick_reset_triggered (bootkick_wait e prev b) = bootkick_reset_triggered b"
  "bootkick_state (bootkick_wait e prev b) = bootkick_state b"
  by (simp_all add: bootkick_wait_def Let_def)

lemma bootkick_wait_triggered:
  assumes "bootkick_reset_triggered b" and "waiting_to_boot_countdown b = 0"
  shows "bootkick_wait e prev b = b"
  using assms by (simp add: bootkick_wait_def)

lemma bootkick_wait_fresh:
  assumes "boot_reset_countdown b = 0"
  shows "(boot_reset_countdown (bootkick_wait e prev b) = 5 \<and> waiting_to_boot_countdown (bootkick_wait e prev b) = 1 \<or>
      boot_reset_countdown (bootkick_wait e prev b) = 0) \<and>
    (0 < waiting_to_boot_countdown (bootkick_wait e prev b) \<longrightarrow>
      0 < waiting_to_boot_countdown b \<or> prev = BOOT_STANDBY)"
  using assms by (auto simp: bootkick_wait_def Let_def)

definition bootkick_turn :: "bootkick_t \<Rightarrow> bootkick_t \<Rightarrow> bool" where
  "bootkick_turn b b' \<longleftrightarrow> bootkick_ok b' \<and>
     resets_left b' + (if bootkick_state b' = BOOT_RESET then 1 else 0) \<le> resets_left b \<and>
     (bootkick_up b' \<longrightarrow> bootkick_up b \<or> bootkick_state b' = BOOT_STANDBY) \<and>
     (bootkick_state b' = BOOT_RESET \<longrightarrow> bootkick_up b)"

lemma small_countdown: "(c::u8) \<le> 4 \<Longrightarrow> 0 < c \<Longrightarrow> c - 1 \<le> 4 \<and> unat (c - 1) + 1 = unat c"
proof -
  assume c: "c \<le> 4" "0 < c"
  then have "c \<noteq> 0" by auto
  from unat_minus_one [OF this] c show ?thesis by (simp add: word_le_nat_alt word_less_nat_alt)
qed

lemma bootkick_tick_turn:
  assumes "bootkick_ok b"
  shows "bootkick_turn b (bootkick_tick e q i h b)"
proof -
  define b1 where "b1 = bootkick_request q i h b"
  define b2 where "b2 = bootkick_wait e (bootkick_state b) b1"
  have st1: "bootkick_state b1 \<in> {bootkick_state b, BOOT_BOOTKICK, BOOT_STANDBY}"
    unfolding b1_def by (rule bootkick_request_state)
  show ?thesis
  proof (cases "bootkick_reset_triggered b")
    case True
    then have b2: "b2 = b1" using assms by (simp add: b2_def b1_def bootkick_wait_triggered bootkick_ok_def)
    have c: "boot_reset_countdown b \<le> 4" "waiting_to_boot_countdown b = 0" using True assms by (simp_all add: bootkick_ok_def)
    show ?thesis
      using True b2 c small_countdown [OF c(1)] st1
      by (auto simp: bootkick_tick_def b1_def [symmetric] b2_def [symmetric] bootkick_reset_def bootkick_turn_def
          bootkick_ok_def resets_left_def bootkick_up_def Let_def) (simp_all add: b1_def)
  next
    case False
    have b1: "boot_reset_countdown b1 = 0" "\<not> bootkick_reset_triggered b1" "bootkick_state b1 \<noteq> BOOT_RESET"
      using False assms st1 by (auto simp: b1_def bootkick_ok_def)
    have b2: "\<not> bootkick_reset_triggered b2" "bootkick_state b2 \<noteq> BOOT_RESET"
      using b1 by (simp_all add: b2_def bootkick_wait_frame)
    have w: "boot_reset_countdown b2 = 5 \<and> waiting_to_boot_countdown b2 = 1 \<or> boot_reset_countdown b2 = 0"
      "0 < waiting_to_boot_countdown b2 \<Longrightarrow> 0 < waiting_to_boot_countdown b \<or> bootkick_state b = BOOT_STANDBY"
      using bootkick_wait_fresh [OF b1(1), of e "bootkick_state b"] by (auto simp: b2_def b1_def)
    show ?thesis
      using False assms b2 w
      by (auto simp: bootkick_tick_def b1_def [symmetric] b2_def [symmetric] bootkick_reset_def bootkick_turn_def
          bootkick_ok_def resets_left_def bootkick_up_def Let_def)
  qed
qed


lemma bootkick_trace_resets:
  "bootkick_ok b \<Longrightarrow> length (filter (\<lambda>s. s = BOOT_RESET) (bootkick_trace ins b)) \<le> resets_left b"
proof (induction ins b rule: bootkick_trace.induct)
  case (2 e q i h ins b)
  from bootkick_tick_turn [OF "2.prems", of e q i h] "2.IH" [OF refl]
  show ?case by (auto simp: bootkick_turn_def Let_def)
qed simp

lemma bootkick_trace_up:
  "bootkick_ok b \<Longrightarrow> \<not> bootkick_up b \<Longrightarrow> n < length ins \<Longrightarrow> bootkick_trace ins b ! n = BOOT_RESET \<Longrightarrow>
    BOOT_STANDBY \<in> set (take n (bootkick_trace ins b))"
proof (induction ins b arbitrary: n rule: bootkick_trace.induct)
  case (2 e q i h ins b)
  let ?b = "bootkick_tick e q i h b"
  have turn: "bootkick_ok ?b" "bootkick_up ?b \<Longrightarrow> bootkick_state ?b = BOOT_STANDBY" "bootkick_state ?b \<noteq> BOOT_RESET"
    using bootkick_tick_turn [OF "2.prems"(1), of e q i h] "2.prems"(2) by (auto simp: bootkick_turn_def)
  then obtain m where n: "n = Suc m" using "2.prems"(4) by (cases n) (auto simp: Let_def)
  show ?case
  proof (cases "bootkick_up ?b")
    case True
    with turn(2) show ?thesis by (simp add: n Let_def)
  next
    case False
    with "2.IH" [OF refl turn(1) False, of m] "2.prems"(3,4) show ?thesis by (simp add: n Let_def)
  qed
qed simp

text \<open>The computer is reset at most once per boot of the firmware. Over any sequence of ticks -
  whatever the ignition, the harness, the heartbeat, the serial line and the pin of the computer
  do - at most five ticks leave the power in the reset state, and none of them comes before a
  heartbeat has put it into standby, so the first start of the computer is never cut.\<close>

lemma bootkick_reset_once:
  "length (filter (\<lambda>s. s = BOOT_RESET) (bootkick_trace ins bootkick_init)) \<le> 5 \<and>
   (\<forall>n < length ins. bootkick_trace ins bootkick_init ! n = BOOT_RESET \<longrightarrow>
     BOOT_STANDBY \<in> set (take n (bootkick_trace ins bootkick_init)))"
proof -
  have ok: "bootkick_ok bootkick_init" and down: "\<not> bootkick_up bootkick_init"
    by (simp_all add: bootkick_init_def bootkick_ok_def bootkick_up_def)
  have "resets_left bootkick_init = 5" by (simp add: bootkick_init_def resets_left_def)
  then show ?thesis using bootkick_trace_resets [OF ok, of ins] bootkick_trace_up [OF ok down] by simp
qed

text \<open>A computer that came up once, went away and stays silent is reset after twenty ticks.\<close>

definition cold :: senses where
  "cold = \<lparr>adc_SBU1 = 3300, adc_SBU2 = 3300, gpio_SBU1 = True, gpio_SBU2 = True, som_gpio = False,
     som_serial_ptr = 0, register_divergent = False\<rparr>"

definition silent_start :: "(senses \<times> u8 \<times> bool \<times> bool) list" where
  "silent_start = (cold, 0, False, True) # replicate 30 (cold, 0, True, False)"

lemma bootkick_reset_once_witness:
  "length (filter (\<lambda>s. s = BOOT_RESET) (bootkick_trace silent_start bootkick_init)) = 5 \<and>
   length (filter (\<lambda>s. s = BOOT_RESET) (bootkick_trace silent_start bootkick_init)) \<le> 5 \<and>
   BOOT_STANDBY \<in> set (take 20 (bootkick_trace silent_start bootkick_init))"
proof -
  have five: "length (filter (\<lambda>s. s = BOOT_RESET) (bootkick_trace silent_start bootkick_init)) = 5"
    and at: "bootkick_trace silent_start bootkick_init ! 20 = BOOT_RESET" by code_simp+
  have "20 < length silent_start" by (simp add: silent_start_def)
  with bootkick_reset_once [of silent_start] at have "BOOT_STANDBY \<in> set (take 20 (bootkick_trace silent_start bootkick_init))" by blast
  with bootkick_reset_once [of silent_start] five show ?thesis by blast
qed


subsection \<open>The fan\<close>

datatype fan_act = FanTick | SetPower u8 | Tach u16

fun fan_step :: "board \<Rightarrow> fan_act \<Rightarrow> fan_state_t \<Rightarrow> fan_state_t" where
  "fan_step bd FanTick f = fan_tick bd f"
| "fan_step bd (SetPower p) f = fan_set_power bd p f"
| "fan_step bd (Tach n) f = f\<lparr>tach_counter := n\<rparr>"

definition fan_run :: "board \<Rightarrow> fan_act list \<Rightarrow> fan_state_t \<Rightarrow> fan_state_t" where
  "fan_run bd acts f = fold (fan_step bd) acts f"

definition fan_ok :: "board \<Rightarrow> fan_state_t \<Rightarrow> bool" where
  "fan_ok bd f \<longleftrightarrow> fan_power f \<le> fan_max_pwm bd \<and> target_rpm f \<le> fan_max_rpm bd \<and>
     3 \<le> stall_threshold f \<and> stall_threshold f \<le> 8 \<and> stall_counter f \<le> 254"

lemma fan_control_power:
  "fan_power (fan_control bd n f) \<le> fan_max_pwm bd \<and> (target_rpm f = 0 \<longrightarrow> fan_power (fan_control bd n f) = 0)"
proof -
  define top :: rat where "top = of_nat (unat (fan_max_pwm bd))"
  define clamp where "clamp x = (if x > top then top else if x < 0 then 0 else x)" for x :: rat
  have top: "0 \<le> top" unfolding top_def by (rule of_nat_0_le_iff)
  have range: "0 \<le> clamp x \<and> clamp x \<le> top" for x using top by (auto simp: clamp_def)
  have fl: "0 \<le> \<lfloor>clamp x\<rfloor> \<and> \<lfloor>clamp x\<rfloor> \<le> int (unat (fan_max_pwm bd))" for x
  proof -
    have "\<lfloor>clamp x\<rfloor> \<le> \<lfloor>top\<rfloor>" using range [of x] by (intro floor_mono) simp
    moreover have "\<lfloor>top\<rfloor> = int (unat (fan_max_pwm bd))" unfolding top_def by (rule floor_of_nat)
    ultimately show ?thesis using range [of x] by simp
  qed
  have bound: "unat (word_of_int (trunc (clamp x)) :: u8) \<le> unat (fan_max_pwm bd)" for x
  proof -
    have "trunc (clamp x) = \<lfloor>clamp x\<rfloor>" using range [of x] by (simp add: trunc_def)
    moreover obtain k where k: "\<lfloor>clamp x\<rfloor> = int k" "k \<le> unat (fan_max_pwm bd)"
      using fl [of x] nonneg_int_cases [of "\<lfloor>clamp x\<rfloor>"] by (metis of_nat_le_iff)
    moreover have "k < 256" using k(2) unsigned_less [of "fan_max_pwm bd", where 'a = nat] by simp
    ultimately show ?thesis by (simp add: unat_of_nat)
  qed
  have "fan_power (fan_control bd n f) = word_of_int (trunc (clamp (if target_rpm f = 0 then 0
      else fadd (error_integral f) (fmul (13 / 2) (fdiv (fint (uint (target_rpm f) - uint n)) (fint (uint (fan_max_rpm bd))))))))"
    by (simp add: fan_control_def Let_def clamp_def top_def)
  then show ?thesis using bound top by (auto simp: word_le_nat_alt clamp_def trunc_def)
qed

lemma fan_control_frame [simp]:
  "target_rpm (fan_control bd n f) = target_rpm f" "stall_threshold (fan_control bd n f) = stall_threshold f"
  "stall_counter (fan_control bd n f) = stall_counter f" "cooldown_counter (fan_control bd n f) = cooldown_counter f"
  by (simp_all add: fan_control_def Let_def)

lemma fan_stall_frame:
  assumes "3 \<le> stall_threshold f" and "stall_threshold f \<le> 8" and "stall_counter f \<le> 254"
  shows "target_rpm (snd (fan_stall bd n f)) = target_rpm f \<and> 3 \<le> stall_threshold (snd (fan_stall bd n f)) \<and>
    stall_threshold (snd (fan_stall bd n f)) \<le> 8 \<and> stall_counter (snd (fan_stall bd n f)) \<le> 254"
  using assms
  by (auto simp: fan_stall_def FAN_STALL_THRESHOLD_MIN_def FAN_TICK_FREQ_def word_le_nat_alt unat_of_nat Let_def)

lemma fan_ok_tick:
  assumes "fan_ok bd f"
  shows "fan_ok bd (fan_tick bd f)"
proof (cases "fan_max_rpm bd > 0")
  case False
  with assms show ?thesis by (simp add: fan_tick_def)
next
  case True
  define fast :: u16 where "fast = of_nat (unat (tach_counter f) * (60 * FAN_TICK_FREQ div 4))"
  define f1 where "f1 = f\<lparr>tach_counter := 0, fan_rpm := of_nat ((unat fast + 3 * unat (fan_rpm f)) div 4)\<rparr>"
  obtain stalled f2 where stall: "fan_stall bd fast f1 = (stalled, f2)" by fastforce
  define f3 where "f3 = (if target_rpm f2 > 0 then f2\<lparr>cooldown_counter := fan_cooldown bd\<rparr>
      else if cooldown_counter f2 > 0 then f2\<lparr>cooldown_counter := cooldown_counter f2 - 1\<rparr> else f2)"
  have f1: "3 \<le> stall_threshold f1" "stall_threshold f1 \<le> 8" "stall_counter f1 \<le> 254" "target_rpm f1 \<le> fan_max_rpm bd"
    using assms by (simp_all add: f1_def fan_ok_def)
  have f2: "target_rpm f2 \<le> fan_max_rpm bd \<and> 3 \<le> stall_threshold f2 \<and> stall_threshold f2 \<le> 8 \<and> stall_counter f2 \<le> 254"
    using fan_stall_frame [OF f1(1-3), of bd fast] f1(4) by (simp add: stall)
  have "target_rpm f3 = target_rpm f2" "stall_threshold f3 = stall_threshold f2" "stall_counter f3 = stall_counter f2"
    by (simp_all add: f3_def)
  moreover have "fan_tick bd f = (fan_control bd fast f3)
      \<lparr>fan_enabled := \<not> stalled \<and> (target_rpm (fan_control bd fast f3) > 0 \<or> cooldown_counter (fan_control bd fast f3) > 0)\<rparr>"
    using True unfolding fan_tick_def Let_def fast_def [symmetric] f1_def [symmetric] stall
    by (simp add: f3_def)
  ultimately show ?thesis using f2 fan_control_power [of bd fast f3] by (simp add: fan_ok_def)
qed

lemma fan_ok_set: "fan_ok bd f \<Longrightarrow> fan_ok bd (fan_set_power bd p f)"
proof -
  assume ok: "fan_ok bd f"
  define q where "q = (if unat p > 100 then 100 else unat p)"
  have "unat (fan_max_rpm bd) * q div 100 \<le> unat (fan_max_rpm bd)"
  proof -
    have "q \<le> 100" by (simp add: q_def)
    then have "unat (fan_max_rpm bd) * q div 100 \<le> unat (fan_max_rpm bd) * 100 div 100"
      by (intro div_le_mono mult_le_mono2)
    then show ?thesis by simp
  qed
  moreover from this have "unat (fan_max_rpm bd) * q div 100 < 65536"
    using unsigned_less [of "fan_max_rpm bd", where 'a = nat] by simp
  ultimately show ?thesis
    using ok by (simp add: fan_set_power_def fan_ok_def q_def [symmetric] word_le_nat_alt unat_of_nat)
qed

text \<open>The fan stays inside its hardware limits. Over any sequence of controller ticks, speed
  requests and tachometer readings from its initialisation on, the duty never exceeds the board's
  maximum, the target never exceeds its top speed, the stall detection waits between three and
  eight seconds, and a tick with the target at zero leaves the duty at zero - with every step of
  the controller rounded to single precision.\<close>

lemma fan_bounds:
  "fan_ok bd (fan_run bd acts (fan_init bd fan_zero)) \<and>
   (0 < fan_max_rpm bd \<and> target_rpm (fan_run bd acts (fan_init bd fan_zero)) = 0 \<longrightarrow>
     fan_power (fan_run bd (acts @ [FanTick]) (fan_init bd fan_zero)) = 0)"
proof -
  have step: "fan_ok bd (fan_step bd a f)" if "fan_ok bd f" for a f
    using that by (cases a) (simp_all add: fan_ok_tick fan_ok_set, simp add: fan_ok_def)
  have run: "fan_ok bd f \<Longrightarrow> fan_ok bd (fan_run bd as f)" for as f
    unfolding fan_run_def by (induction as arbitrary: f) (simp_all add: step)
  have init: "fan_ok bd (fan_init bd fan_zero)"
    by (simp add: fan_ok_def fan_init_def fan_zero_def FAN_STALL_THRESHOLD_MIN_def)
  have off: "fan_power (fan_tick bd f) = 0" if "target_rpm f = 0" "0 < fan_max_rpm bd" for f
  proof -
    define fast :: u16 where "fast = of_nat (unat (tach_counter f) * (60 * FAN_TICK_FREQ div 4))"
    define f1 where "f1 = f\<lparr>tach_counter := 0, fan_rpm := of_nat ((unat fast + 3 * unat (fan_rpm f)) div 4)\<rparr>"
    have "target_rpm (snd (fan_stall bd fast f1)) = 0" using that(1) by (simp add: fan_stall_def f1_def Let_def)
    moreover have "fan_power (fan_control bd fast (g\<lparr>cooldown_counter := c\<rparr>)) = 0"
      "fan_power (fan_control bd fast g) = 0" if "target_rpm g = 0" for g c
      using fan_control_power [of bd fast "g\<lparr>cooldown_counter := c\<rparr>"] fan_control_power [of bd fast g] that by simp_all
    ultimately show ?thesis using that(2)
      unfolding fan_tick_def Let_def fast_def [symmetric] f1_def [symmetric]
      by (simp add: split_beta)
  qed
  show ?thesis using run [OF init] off by (auto simp: fan_run_def)
qed


definition board_dos :: board where
  "board_dos = \<lparr>has_spi = False, fan_max_rpm = 6500, avdd_mV = 3300, fan_stall_recovery = True,
     fan_enable_cooldown_time = 3, fan_max_pwm = 100\<rparr>"

lemma fan_bounds_witness:
  "target_rpm (fan_run board_dos [SetPower 50] (fan_init board_dos fan_zero)) = 3250 \<and>
   target_rpm (fan_run board_dos [SetPower 50] (fan_init board_dos fan_zero)) \<le> fan_max_rpm board_dos \<and>
   fan_power (fan_run board_dos ([SetPower 50, Tach 7, SetPower 0] @ [FanTick]) (fan_init board_dos fan_zero)) = 0"
proof -
  have now: "target_rpm (fan_run board_dos [SetPower 50] (fan_init board_dos fan_zero)) = 3250"
    "target_rpm (fan_run board_dos [SetPower 50, Tach 7, SetPower 0] (fan_init board_dos fan_zero)) = 0"
    "0 < fan_max_rpm board_dos"
    by (simp_all add: fan_run_def fan_set_power_def fan_init_def fan_zero_def board_dos_def)
  with fan_bounds [of board_dos "[SetPower 50]"] fan_bounds [of board_dos "[SetPower 50, Tach 7, SetPower 0]"]
  show ?thesis unfolding fan_ok_def by blast
qed

end
