(* ===== verification/Sha1.thy ===== *)
theory Sha1
  imports Prelude
begin

text \<open>
  The hash of the secure boot (\<^verbatim>\<open>firmware/crypto/sha.c\<close>): the incremental code - a 64-byte buffer
  that is hashed whenever it is full - and the standard it implements, a fold of the compression
  function over the blocks of the padded message. The theorem says that both give the same digest
  for every message.
\<close>

unbundle bit_operations_syntax

subsection \<open>The code\<close>

text \<open>\<open>HASH_CTX\<close> without the table of function pointers; only the first five words of the state
  are used by this hash.\<close>

record HASH_CTX =
  hash_count :: "64 word"
  hash_buf :: "u8 list"
  hash_state :: "u32 list"

definition rol :: "nat \<Rightarrow> u32 \<Rightarrow> u32" where
  "rol bits value = push_bit bits value OR drop_bit (32 - bits) value"

definition be32 :: "u8 \<Rightarrow> u8 \<Rightarrow> u8 \<Rightarrow> u8 \<Rightarrow> u32" where
  "be32 a b c d = push_bit 24 (ucast a) OR push_bit 16 (ucast b) OR push_bit 8 (ucast c) OR ucast d"

definition sha_words :: "u8 list \<Rightarrow> u32 list" where
  "sha_words p = map (\<lambda>t. be32 (p ! (4 * t)) (p ! (4 * t + 1)) (p ! (4 * t + 2)) (p ! (4 * t + 3))) [0..<16]"

definition sha_schedule :: "u8 list \<Rightarrow> u32 list" where
  "sha_schedule p =
     fold (\<lambda>t W. W @ [rol 1 (W ! (t - 3) XOR W ! (t - 8) XOR W ! (t - 14) XOR W ! (t - 16))]) [16..<80] (sha_words p)"

definition sha_round :: "u32 list \<Rightarrow> nat \<Rightarrow> u32 \<times> u32 \<times> u32 \<times> u32 \<times> u32 \<Rightarrow> u32 \<times> u32 \<times> u32 \<times> u32 \<times> u32" where
  "sha_round W t = (\<lambda>(A, B, C, D, E).
     let tmp = rol 5 A + E + W ! t;
         tmp = tmp + (if t < 20 then (D XOR (B AND (C XOR D))) + 0x5A827999
                      else if t < 40 then (B XOR C XOR D) + 0x6ED9EBA1
                      else if t < 60 then ((B AND C) OR (D AND (B OR C))) + 0x8F1BBCDC
                      else (B XOR C XOR D) + 0xCA62C1D6)
     in (tmp, A, rol 30 B, C, D))"

definition SHA1_Transform :: "HASH_CTX \<Rightarrow> HASH_CTX" where
  "SHA1_Transform ctx =
     (let s = hash_state ctx;
          (A, B, C, D, E) = fold (sha_round (sha_schedule (hash_buf ctx))) [0..<80] (s ! 0, s ! 1, s ! 2, s ! 3, s ! 4)
      in ctx\<lparr>hash_state := [s ! 0 + A, s ! 1 + B, s ! 2 + C, s ! 3 + D, s ! 4 + E] @ drop 5 s\<rparr>)"

definition SHA_init :: "HASH_CTX \<Rightarrow> HASH_CTX" where
  "SHA_init ctx = ctx\<lparr>hash_state := [0x67452301, 0xEFCDAB89, 0x98BADCFE, 0x10325476, 0xC3D2E1F0] @ drop 5 (hash_state ctx),
     hash_count := 0\<rparr>"

definition sha_byte :: "u8 \<Rightarrow> HASH_CTX \<times> nat \<Rightarrow> HASH_CTX \<times> nat" where
  "sha_byte b = (\<lambda>(ctx, i).
     let ctx = ctx\<lparr>hash_buf := (hash_buf ctx)[i := b]\<rparr>
     in if i + 1 = 64 then (SHA1_Transform ctx, 0) else (ctx, i + 1))"

definition SHA_update :: "HASH_CTX \<Rightarrow> u8 list \<Rightarrow> HASH_CTX" where
  "SHA_update ctx data =
     (let i = unat (hash_count ctx AND 63)
      in fst (fold sha_byte data (ctx\<lparr>hash_count := hash_count ctx + of_nat (length data)\<rparr>, i)))"

lemma sha_transform_count [simp]: "hash_count (SHA1_Transform ctx) = hash_count ctx"
  by (simp add: SHA1_Transform_def Let_def split_beta)

lemma sha_bytes_count: "hash_count (fst (fold sha_byte data p)) = hash_count (fst p)"
  by (induction data arbitrary: p) (auto simp: sha_byte_def Let_def split_beta)

lemma SHA_update_count [simp]: "hash_count (SHA_update ctx data) = hash_count ctx + of_nat (length data)"
  by (simp add: SHA_update_def Let_def sha_bytes_count)

lemma and_63: "unat (w AND 63 :: 64 word) = unat w mod 64"
proof -
  have "w AND 63 = take_bit 6 w" by (simp add: take_bit_eq_mask mask_eq_exp_minus_1)
  moreover have "unat (take_bit 6 w) = take_bit 6 (unat w)" by (simp only: unsigned_take_bit_eq)
  moreover have "take_bit 6 n = n mod 64" for n :: nat by (simp add: take_bit_eq_mod)
  ultimately show ?thesis by (simp only:)
qed

lemma unat_suc_mod: "unat (w + 1 :: 64 word) mod 64 = (unat w + 1) mod 64"
proof -
  have "unat (w + 1) = (unat w + 1) mod 2 ^ 64" by (simp add: unat_word_ariths)
  then show ?thesis by (simp add: mod_mod_cancel)
qed

text \<open>The loop that pads to eight bytes below a full block.\<close>

function sha_pad :: "HASH_CTX \<Rightarrow> HASH_CTX" where
  "sha_pad ctx = (if unat (hash_count ctx AND 63) \<noteq> 56 then sha_pad (SHA_update ctx [0]) else ctx)"
  by pat_completeness auto

termination
proof (relation "measure (\<lambda>ctx. (120 - unat (hash_count ctx) mod 64) mod 64)")
  fix ctx :: HASH_CTX assume "unat (hash_count ctx AND 63) \<noteq> 56"
  then have c: "unat (hash_count ctx) mod 64 \<noteq> 56" by (simp add: and_63)
  define k where "k = unat (hash_count ctx) mod 64"
  have "unat (hash_count (SHA_update ctx [0])) mod 64 = (k + 1) mod 64" by (simp add: unat_suc_mod k_def mod_Suc_eq)
  moreover have k: "k < 64" "k \<noteq> 56" using c by (simp_all add: k_def)
  have m: "(120 - j) mod 64 = (if j \<le> 56 then 56 - j else 120 - j)" if "j < 64" for j :: nat
  proof (cases "j \<le> 56")
    case True
    then have "120 - j = (56 - j) + 64" by simp
    then show ?thesis using True by (simp only: mod_add_self2) simp
  qed (use that in simp)
  have "(120 - (k + 1) mod 64) mod 64 < (120 - k) mod 64"
    using k m [of k] m [of "k + 1"] by (cases "k = 63"; cases "k < 56") simp_all
  ultimately show "(SHA_update ctx [0], ctx) \<in> measure (\<lambda>ctx. (120 - unat (hash_count ctx) mod 64) mod 64)"
    by (simp add: k_def)
qed simp

declare sha_pad.simps [simp del]

definition be_bytes :: "u32 \<Rightarrow> u8 list" where
  "be_bytes w = [ucast (drop_bit 24 w), ucast (drop_bit 16 w), ucast (drop_bit 8 w), ucast w]"

definition SHA_final :: "HASH_CTX \<Rightarrow> HASH_CTX" where
  "SHA_final ctx =
     (let cnt = hash_count ctx * 8;
          ctx = sha_pad (SHA_update ctx [0x80]);
          ctx = fold (\<lambda>i ctx. SHA_update ctx [ucast (drop_bit ((7 - i) * 8) cnt)]) [0..<8] ctx;
          digest = concat (map be_bytes (take 5 (hash_state ctx)))
      in ctx\<lparr>hash_buf := digest @ drop (length digest) (hash_buf ctx)\<rparr>)"

definition SHA_DIGEST_SIZE :: nat where "SHA_DIGEST_SIZE = 20"

text \<open>The context is a variable on the stack: what it holds before \<open>SHA_init\<close> is a parameter.\<close>

definition SHA_hash :: "HASH_CTX \<Rightarrow> u8 list \<Rightarrow> u8 list" where
  "SHA_hash stack data = take SHA_DIGEST_SIZE (hash_buf (SHA_final (SHA_update (SHA_init stack) data)))"


subsection \<open>The standard\<close>

text \<open>FIPS 180-4, section 6.1: the functions and constants of a round, the message schedule, the
  compression of a block, the padding, and the digest.\<close>

definition sha_f :: "nat \<Rightarrow> u32 \<Rightarrow> u32 \<Rightarrow> u32 \<Rightarrow> u32" where
  "sha_f t x y z =
     (if t < 20 then (x AND y) XOR (NOT x AND z)
      else if t < 40 then x XOR y XOR z
      else if t < 60 then (x AND y) XOR (x AND z) XOR (y AND z)
      else x XOR y XOR z)"

definition sha_K :: "nat \<Rightarrow> u32" where
  "sha_K t = (if t < 20 then 0x5A827999 else if t < 40 then 0x6ED9EBA1 else if t < 60 then 0x8F1BBCDC else 0xCA62C1D6)"

fun sha_W :: "u8 list \<Rightarrow> nat \<Rightarrow> u32" where
  "sha_W blk t =
     (if t < 16 then be32 (blk ! (4 * t)) (blk ! (4 * t + 1)) (blk ! (4 * t + 2)) (blk ! (4 * t + 3))
      else word_rotl 1 (sha_W blk (t - 3) XOR sha_W blk (t - 8) XOR sha_W blk (t - 14) XOR sha_W blk (t - 16)))"

declare sha_W.simps [simp del]

type_synonym sha_value = "u32 \<times> u32 \<times> u32 \<times> u32 \<times> u32"

definition sha_step :: "u8 list \<Rightarrow> nat \<Rightarrow> sha_value \<Rightarrow> sha_value" where
  "sha_step blk t = (\<lambda>(a, b, c, d, e).
     (word_rotl 5 a + sha_f t b c d + e + sha_K t + sha_W blk t, a, word_rotl 30 b, c, d))"

fun sha_add :: "sha_value \<Rightarrow> sha_value \<Rightarrow> sha_value" where
  "sha_add (a, b, c, d, e) (a', b', c', d', e') = (a + a', b + b', c + c', d + d', e + e')"

definition sha_compress :: "sha_value \<Rightarrow> u8 list \<Rightarrow> sha_value" where
  "sha_compress H blk = sha_add H (fold (sha_step blk) [0..<80] H)"

definition sha_H0 :: sha_value where
  "sha_H0 = (0x67452301, 0xEFCDAB89, 0x98BADCFE, 0x10325476, 0xC3D2E1F0)"

function sha_absorb :: "sha_value \<Rightarrow> u8 list \<Rightarrow> sha_value" where
  "sha_absorb H m = (if length m < 64 then H else sha_absorb (sha_compress H (take 64 m)) (drop 64 m))"
  by pat_completeness auto

termination by (relation "measure (length \<circ> snd)") auto

declare sha_absorb.simps [simp del]

definition be64 :: "64 word \<Rightarrow> u8 list" where
  "be64 w = map (\<lambda>i. ucast (drop_bit ((7 - i) * 8) w)) [0..<8]"

definition sha_padding :: "u8 list \<Rightarrow> u8 list" where
  "sha_padding m = m @ [0x80] @ replicate ((119 - length m mod 64) mod 64) 0 @ be64 (of_nat (8 * length m))"

fun sha_digest :: "sha_value \<Rightarrow> u8 list" where
  "sha_digest (a, b, c, d, e) = be_bytes a @ be_bytes b @ be_bytes c @ be_bytes d @ be_bytes e"

definition sha1 :: "u8 list \<Rightarrow> u8 list" where
  "sha1 m = sha_digest (sha_absorb sha_H0 (sha_padding m))"

subsection \<open>One block\<close>

lemma rol_rotl:
  assumes n: "0 < n" "n < 32"
  shows "rol n w = word_rotl n w"
proof (rule bit_word_eqI)
  fix k assume "k < LENGTH(32)"
  then have k: "k < 32" by simp
  have idx: "(k + 32 - n) mod 32 = (if k < n then k + 32 - n else k - n)"
  proof (cases "k < n")
    case False
    then have "k + 32 - n = (k - n) + 32" by simp
    moreover have "((k - n) + 32) mod 32 = k - n" using k by simp
    ultimately show ?thesis using False by (simp only: if_False)
  qed (use n in simp)
  have out: "\<not> bit w j" if "32 \<le> j" for j using that bit_imp_le_length [of w j] by auto
  have "bit (word_rotl n w) k = bit w ((k + 32 - n) mod 32)" using n k by (simp add: bit_word_rotl_iff)
  moreover have "bit (rol n w) k = (n \<le> k \<and> bit w (k - n) \<or> bit w (k + 32 - n))"
    using n k by (simp add: rol_def bit_or_iff bit_push_bit_iff bit_drop_bit_eq add.commute)
  ultimately show "bit (rol n w) k = bit (word_rotl n w) k"
    using idx out [of "k + 32 - n"] by (cases "k < n") auto
qed

lemma sha_f_code:
  "t < 20 \<Longrightarrow> D XOR (B AND (C XOR D)) = sha_f t B C D"
  "20 \<le> t \<Longrightarrow> t < 40 \<Longrightarrow> B XOR C XOR D = sha_f t B C D"
  "40 \<le> t \<Longrightarrow> t < 60 \<Longrightarrow> (B AND C) OR (D AND (B OR C)) = sha_f t B C D"
  "60 \<le> t \<Longrightarrow> B XOR C XOR D = sha_f t B C D"
  by (simp_all add: sha_f_def) (rule bit_word_eqI, auto simp: bit_simps)+

definition sha_extend :: "nat \<Rightarrow> u32 list \<Rightarrow> u32 list" where
  "sha_extend t W = W @ [rol 1 (W ! (t - 3) XOR W ! (t - 8) XOR W ! (t - 14) XOR W ! (t - 16))]"

lemma sha_extend_eq: "16 \<le> t \<Longrightarrow> sha_extend t (map (sha_W p) [0..<t]) = map (sha_W p) [0..<Suc t]"
proof -
  assume t: "16 \<le> t"
  have nth: "map (sha_W p) [0..<t] ! k = sha_W p k" if "k < t" for k
    using that by (simp only: length_upt nth_map nth_upt add_0 diff_zero)
  have W: "sha_W p t = word_rotl 1 (sha_W p (t - 3) XOR sha_W p (t - 8) XOR sha_W p (t - 14) XOR sha_W p (t - 16))"
    using t by (subst sha_W.simps) simp
  have "rol 1 w = word_rotl 1 w" for w by (rule rol_rotl) simp_all
  then have "sha_extend t (map (sha_W p) [0..<t]) = map (sha_W p) [0..<t] @ [sha_W p t]"
    using t unfolding sha_extend_def W by (simp add: nth)
  then show ?thesis by simp
qed

lemma schedule_prefix:
  "fold sha_extend [16..<16 + n] (sha_words p) = map (sha_W p) [0..<16 + n]"
proof (induction n)
  case 0
  show ?case by (simp add: sha_words_def sha_W.simps)
next
  case (Suc n)
  have e: "[16..<Suc (16 + n)] = [16..<16 + n] @ [16 + n]" by (rule upt_Suc_append) simp
  have "sha_extend (16 + n) (map (sha_W p) [0..<16 + n]) = map (sha_W p) [0..<Suc (16 + n)]"
    by (rule sha_extend_eq) simp
  then show ?case unfolding add_Suc_right e fold_append o_apply Suc.IH fold_simps .
qed

lemma sha_schedule_eq: "sha_schedule p = map (sha_W p) [0..<80]"
proof -
  have "16 + 64 = (80 :: nat)" by simp
  from schedule_prefix [of 64 p, unfolded this] show ?thesis unfolding sha_schedule_def sha_extend_def .
qed

lemma sha_round_eq: "t < 80 \<Longrightarrow> sha_round (sha_schedule p) t = sha_step p t"
proof (rule ext, clarify)
  fix A B C D E :: u32 assume t: "t < 80"
  have W: "sha_schedule p ! t = sha_W p t" using t by (simp add: sha_schedule_eq del: upt_Suc)
  have f: "(if t < 20 then (D XOR (B AND (C XOR D))) + 0x5A827999
        else if t < 40 then (B XOR C XOR D) + 0x6ED9EBA1
        else if t < 60 then ((B AND C) OR (D AND (B OR C))) + 0x8F1BBCDC
        else (B XOR C XOR D) + 0xCA62C1D6) = sha_f t B C D + sha_K t"
    using sha_f_code [where t = t and B = B and C = C and D = D] by (auto simp: sha_K_def not_less)
  show "sha_round (sha_schedule p) t (A, B, C, D, E) = sha_step p t (A, B, C, D, E)"
    unfolding sha_round_def sha_step_def Let_def prod.case f W
    by (simp add: rol_rotl algebra_simps)
qed

lemma sha_rounds_eq: "fold (sha_round (sha_schedule p)) [0..<80] H = fold (sha_step p) [0..<80] H"
  by (rule fold_cong) (auto simp: sha_round_eq)

text \<open>The five words of the state in use.\<close>

definition state5 :: "HASH_CTX \<Rightarrow> sha_value" where
  "state5 ctx = (let s = hash_state ctx in (s ! 0, s ! 1, s ! 2, s ! 3, s ! 4))"

lemma transform_state:
  "state5 (SHA1_Transform ctx) = sha_compress (state5 ctx) (hash_buf ctx)"
  "length (hash_state ctx) = 8 \<Longrightarrow> length (hash_state (SHA1_Transform ctx)) = 8"
  "hash_buf (SHA1_Transform ctx) = hash_buf ctx"
proof -
  obtain A B C D E where "fold (sha_step (hash_buf ctx)) [0..<80] (state5 ctx) = (A, B, C, D, E)"
    by (metis prod_cases5)
  then show "state5 (SHA1_Transform ctx) = sha_compress (state5 ctx) (hash_buf ctx)"
    "length (hash_state ctx) = 8 \<Longrightarrow> length (hash_state (SHA1_Transform ctx)) = 8"
    "hash_buf (SHA1_Transform ctx) = hash_buf ctx"
    by (simp_all add: SHA1_Transform_def sha_rounds_eq state5_def sha_compress_def Let_def)
qed


subsection \<open>The incremental code follows the message\<close>

lemma absorb_short: "length m < 64 \<Longrightarrow> sha_absorb H m = H"
  by (subst sha_absorb.simps) simp

lemma absorb_long: "64 \<le> length m \<Longrightarrow> sha_absorb H m = sha_absorb (sha_compress H (take 64 m)) (drop 64 m)"
  by (subst sha_absorb.simps) simp

lemma absorb_snoc:
  "length m mod 64 = 0 \<Longrightarrow> length blk = 64 \<Longrightarrow> sha_absorb H (m @ blk) = sha_compress (sha_absorb H m) blk"
proof (induction H m rule: sha_absorb.induct)
  case (1 H m)
  show ?case
  proof (cases "length m < 64")
    case True
    then have "m = []" using "1.prems"(1) by simp
    then show ?thesis using "1.prems"(2) by (simp add: absorb_short absorb_long [of blk])
  next
    case False
    then have "(length m - 64) mod 64 = 0" using "1.prems"(1) by (simp add: le_mod_geq [of 64 "length m"])
    with "1.IH" [OF False] "1.prems"(2) False show ?thesis by (simp add: absorb_long [of m] absorb_long [of "m @ blk"])
  qed
qed

text \<open>The whole blocks of the message so far are in the state, the rest is in the buffer.\<close>

definition holds :: "u8 list \<Rightarrow> HASH_CTX \<Rightarrow> bool" where
  "holds m ctx \<longleftrightarrow> length (hash_buf ctx) = 64 \<and> length (hash_state ctx) = 8 \<and>
     take (length m mod 64) (hash_buf ctx) = drop (64 * (length m div 64)) m \<and>
     state5 ctx = sha_absorb sha_H0 (take (64 * (length m div 64)) m)"

lemma holds_byte:
  assumes "holds m ctx"
  shows "\<exists>ctx'. sha_byte b (ctx, length m mod 64) = (ctx', length (m @ [b]) mod 64) \<and> holds (m @ [b]) ctx' \<and>
    hash_count ctx' = hash_count ctx"
proof -
  define i where "i = length m mod 64"
  define q where "q = 64 * (length m div 64)"
  define ctx1 where "ctx1 = ctx\<lparr>hash_buf := (hash_buf ctx)[i := b]\<rparr>"
  have i: "i < 64" and len: "length m = q + i" by (simp_all add: i_def q_def)
  have h: "length (hash_buf ctx) = 64" "length (hash_state ctx) = 8" "take i (hash_buf ctx) = drop q m"
    "state5 ctx = sha_absorb sha_H0 (take q m)" using assms by (simp_all add: holds_def i_def q_def)
  have buf1: "take (Suc i) (hash_buf ctx1) = drop q m @ [b]"
    using h(1,3) i by (simp add: ctx1_def take_Suc_conv_app_nth)
  have s1: "state5 ctx1 = state5 ctx" by (simp add: ctx1_def state5_def)
  show ?thesis
  proof (cases "i + 1 = 64")
    case False
    then have m1: "length (m @ [b]) mod 64 = i + 1" and "length (m @ [b]) div 64 = length m div 64"
      using i by (simp_all add: i_def mod_Suc div_Suc)
    then have d1: "64 * (length (m @ [b]) div 64) = q" by (simp add: q_def)
    have "holds (m @ [b]) ctx1" unfolding holds_def m1 d1 using h buf1 s1 len by (simp add: ctx1_def)
    moreover have "sha_byte b (ctx, i) = (ctx1, i + 1)" using False by (simp add: sha_byte_def ctx1_def)
    moreover have "hash_count ctx1 = hash_count ctx" by (simp add: ctx1_def)
    ultimately show ?thesis unfolding m1 i_def [symmetric] by blast
  next
    case True
    then have m0: "length (m @ [b]) mod 64 = 0" and div: "length (m @ [b]) div 64 = length m div 64 + 1"
      by (simp_all add: i_def mod_Suc div_Suc)
    moreover have step: "sha_byte b (ctx, i) = (SHA1_Transform ctx1, 0)" using True by (simp add: sha_byte_def ctx1_def)
    moreover have full: "hash_buf ctx1 = drop q m @ [b]" using buf1 True h(1) by (simp add: ctx1_def)
    have "holds (m @ [b]) (SHA1_Transform ctx1)"
    proof -
      have "take (q + 64) (m @ [b]) = take q m @ (drop q m @ [b])" using len True by simp
      moreover have "length (take q m) mod 64 = 0" using len by (simp add: q_def)
      moreover have "length (drop q m @ [b]) = 64" using len True by simp
      ultimately have "sha_absorb sha_H0 (take (q + 64) (m @ [b])) = sha_compress (state5 ctx1) (hash_buf ctx1)"
        using h(4) s1 full absorb_snoc [of "take q m" "drop q m @ [b]" sha_H0] by (simp only:)
      moreover have d0: "64 * (length (m @ [b]) div 64) = q + 64" using div by (simp add: q_def)
      have "length (hash_buf ctx1) = 64" "length (hash_state ctx1) = 8" "length (m @ [b]) = q + 64"
        using h(1,2) len True by (simp_all add: ctx1_def)
      ultimately show ?thesis
        unfolding holds_def m0 d0 using transform_state [of ctx1] by simp
    qed
    moreover have "hash_count ctx1 = hash_count ctx" by (simp add: ctx1_def)
    ultimately show ?thesis by (simp add: i_def [symmetric])
  qed
qed

lemma holds_bytes:
  "holds m ctx \<Longrightarrow> \<exists>ctx'. fold sha_byte data (ctx, length m mod 64) = (ctx', length (m @ data) mod 64) \<and>
    holds (m @ data) ctx' \<and> hash_count ctx' = hash_count ctx"
proof (induction data arbitrary: m ctx)
  case (Cons b data)
  obtain ctx1 where "sha_byte b (ctx, length m mod 64) = (ctx1, length (m @ [b]) mod 64)" "holds (m @ [b]) ctx1"
    "hash_count ctx1 = hash_count ctx" using holds_byte [OF Cons.prems, of b] by blast
  with Cons.IH [of "m @ [b]" ctx1] show ?case by simp
qed simp

definition fed :: "u8 list \<Rightarrow> HASH_CTX \<Rightarrow> bool" where
  "fed m ctx \<longleftrightarrow> holds m ctx \<and> hash_count ctx = of_nat (length m)"

lemma count_63: "unat (of_nat n AND 63 :: 64 word) = n mod 64"
proof -
  have "unat (of_nat n :: 64 word) mod 64 = n mod 64" by (simp add: unat_of_nat mod_mod_cancel)
  then show ?thesis by (simp add: and_63)
qed

lemma fed_update: "fed m ctx \<Longrightarrow> fed (m @ data) (SHA_update ctx data)"
proof -
  assume f: "fed m ctx"
  let ?c = "ctx\<lparr>hash_count := hash_count ctx + of_nat (length data)\<rparr>"
  have "holds m ?c" using f by (simp add: fed_def holds_def state5_def)
  from holds_bytes [OF this, of data] obtain ctx' where
    "fold sha_byte data (?c, length m mod 64) = (ctx', length (m @ data) mod 64)" "holds (m @ data) ctx'"
    "hash_count ctx' = hash_count ?c" by blast
  moreover have "unat (hash_count ctx AND 63) = length m mod 64" using f count_63 by (simp add: fed_def)
  ultimately show ?thesis using f by (simp add: SHA_update_def fed_def Let_def)
qed

lemma fed_init:
  "length (hash_buf stack) = 64 \<Longrightarrow> length (hash_state stack) = 8 \<Longrightarrow> fed [] (SHA_init stack)"
  by (simp add: fed_def holds_def SHA_init_def state5_def absorb_short sha_H0_def)

lemma fed_pad: "fed m ctx \<Longrightarrow> fed (m @ replicate ((120 - length m mod 64) mod 64) 0) (sha_pad ctx)"
proof (induction ctx arbitrary: m rule: sha_pad.induct)
  case (1 ctx)
  have c: "unat (hash_count ctx AND 63) = length m mod 64" using "1.prems" count_63 by (simp add: fed_def)
  show ?case
  proof (cases "length m mod 64 = 56")
    case True
    with c "1.prems" show ?thesis by (subst sha_pad.simps) simp
  next
    case False
    define k where "k = length m mod 64"
    have k: "k < 64" "k \<noteq> 56" using False by (simp_all add: k_def)
    have m: "(120 - j) mod 64 = (if j \<le> 56 then 56 - j else 120 - j)" if "j < 64" for j :: nat
    proof (cases "j \<le> 56")
      case True
      then have "120 - j = (56 - j) + 64" by simp
      then show ?thesis using True by (simp only: mod_add_self2) simp
    qed (use that in simp)
    have next_k: "(length m + 1) mod 64 = (k + 1) mod 64" by (simp add: k_def mod_Suc_eq)
    have count: "(120 - k) mod 64 = Suc ((120 - (k + 1) mod 64) mod 64)"
      using k m [of k] m [of "k + 1"] by (cases "k = 63"; cases "k < 56") simp_all
    have "fed ((m @ [0]) @ replicate ((120 - length (m @ [0]) mod 64) mod 64) 0) (sha_pad (SHA_update ctx [0]))"
      using "1.IH" [OF _ fed_update [OF "1.prems"]] c False by simp
    then show ?thesis using c False next_k count by (subst sha_pad.simps) (simp add: k_def [symmetric])
  qed
qed

lemma fed_length_bytes:
  "fed m ctx \<Longrightarrow> fed (m @ map f is) (fold (\<lambda>i ctx. SHA_update ctx [f i]) is ctx)"
proof (induction "is" arbitrary: m ctx)
  case (Cons i js)
  from Cons.IH [OF fed_update [OF Cons.prems, of "[f i]"]] show ?case by simp
qed simp

lemma be_bytes_length [simp]: "length (be_bytes w) = 4"
  by (simp add: be_bytes_def)

lemma digest_length: "length (sha_digest H) = 20"
  by (cases H) simp

lemma state5_digest: "length (hash_state ctx) = 8 \<Longrightarrow> concat (map be_bytes (take 5 (hash_state ctx))) = sha_digest (state5 ctx)"
  by (auto simp: state5_def Let_def numeral_eq_Suc length_Suc_conv)

lemma SHA_hash_sha1:
  assumes "length (hash_buf stack) = 64" and "length (hash_state stack) = 8"
  shows "SHA_hash stack data = sha1 data"
proof -
  define ctx where "ctx = SHA_update (SHA_init stack) data"
  have f: "fed data ctx" using fed_update [OF fed_init [OF assms], of data] by (simp add: ctx_def)
  have cnt: "hash_count ctx * 8 = of_nat (8 * length data)" using f by (simp add: fed_def)
  define padded where "padded = sha_pad (SHA_update ctx [0x80])"
  have "fed ((data @ [0x80]) @ replicate ((120 - length (data @ [0x80]) mod 64) mod 64) 0) padded"
    unfolding padded_def by (intro fed_pad fed_update f)
  moreover have "(120 - length (data @ [0x80]) mod 64) mod 64 = (119 - length data mod 64) mod 64"
    by (simp add: mod_Suc)
  ultimately have p: "fed (data @ [0x80] @ replicate ((119 - length data mod 64) mod 64) 0) padded" by simp
  define final where "final = fold (\<lambda>i ctx. SHA_update ctx [ucast (drop_bit ((7 - i) * 8) (hash_count (SHA_update (SHA_init stack) data) * 8))]) [0..<8] padded"
  have "fed (sha_padding data) final"
    using fed_length_bytes [OF p, of "\<lambda>i. ucast (drop_bit ((7 - i) * 8) (hash_count ctx * 8))" "[0..<8]"]
    unfolding sha_padding_def be64_def final_def ctx_def [symmetric] cnt by simp
  then have h: "holds (sha_padding data) final" by (simp add: fed_def)
  have "length (sha_padding data) mod 64 = 0"
  proof -
    define k where "k = length data mod 64"
    have "(k + 1 + (119 - k) mod 64 + 8) mod 64 = 0"
    proof (cases "k \<le> 55")
      case True
      then have "119 - k = (55 - k) + 64" by simp
      then have "(119 - k) mod 64 = 55 - k" by (simp only: mod_add_self2) simp
      then show ?thesis using True by simp
    next
      case False
      then have "(119 - k) mod 64 = 119 - k" by (simp add: k_def)
      then show ?thesis using False by (simp add: k_def)
    qed
    moreover have "length (sha_padding data) = (k + 1 + (119 - k) mod 64 + 8) + 64 * (length data div 64)"
      by (simp add: sha_padding_def be64_def k_def)
    ultimately show ?thesis by (simp only: mod_mult_self2)
  qed
  then have "64 * (length (sha_padding data) div 64) = length (sha_padding data)" by (simp add: mult_div_mod_eq minus_mod_eq_mult_div [symmetric])
  then have "state5 final = sha_absorb sha_H0 (sha_padding data)" and len: "length (hash_buf final) = 64" "length (hash_state final) = 8"
    using h by (simp_all add: holds_def)
  then show ?thesis
    using digest_length [of "sha_absorb sha_H0 (sha_padding data)"]
    unfolding SHA_hash_def SHA_final_def Let_def SHA_DIGEST_SIZE_def ctx_def [symmetric] padded_def [symmetric]
    using final_def ctx_def by (simp add: state5_digest sha1_def)
qed

text \<open>C27: The hash of the secure boot is SHA-1: for every message, whatever the context on the stack
  held before, the incremental code - buffer, in-place padding loop, and its rewritten choice and
  majority functions - returns the digest FIPS 180-4 defines by padding the message and folding
  the compression function over its blocks.\<close>

theorem sha1_correct:
  assumes "length (hash_buf stack) = 64" and "length (hash_state stack) = 8"
  shows "SHA_hash stack data = sha1 data"
  using assms by (rule SHA_hash_sha1)

definition used_stack :: HASH_CTX where
  "used_stack = \<lparr>hash_count = 0xDEADBEEF, hash_buf = replicate 64 0xCC, hash_state = replicate 8 7\<rparr>"

theorem sha1_correct_witness:
  "SHA_hash used_stack [0x61, 0x62, 0x63] = sha1 [0x61, 0x62, 0x63] \<and> length (SHA_hash used_stack [0x61, 0x62, 0x63]) = 20"
  using sha1_correct [of used_stack "[0x61, 0x62, 0x63]"]
  by (simp add: used_stack_def sha1_def digest_length)

end
