(* ===== verification/Rsa.thy ===== *)
theory Rsa
  imports Prelude "HOL-Library.Monad_Syntax"
begin

text \<open>
  The signature check of the secure boot (\<^verbatim>\<open>firmware/crypto/rsa.c\<close>): Montgomery multiplication on
  arrays of 32-bit words with 64-bit intermediate values, exponentiation with one of the two public
  exponents, and the comparison with the padded hash. The lemmas read an array as the number it
  stands for; the theorem says the check is \<open>signature ^ e mod n = padded hash\<close>.
\<close>

unbundle bit_operations_syntax

subsection \<open>The code\<close>

type_synonym u64 = "64 word"

definition RSANUMBYTES :: nat where "RSANUMBYTES = 128"
definition RSANUMWORDS :: nat where "RSANUMWORDS = RSANUMBYTES div 4"

text \<open>Arrays are lists of the words in use; index loops from the low word up are recursions.\<close>

record RSAPublicKey =
  key_len :: int
  n0inv :: u32
  key_n :: "u32 list"
  rr :: "u32 list"
  exponent :: int

fun subM_loop :: "u32 list \<Rightarrow> u32 list \<Rightarrow> u64 \<Rightarrow> u32 list" where
  "subM_loop (a # as) (n # ns) A =
     (let A = A + (ucast a - ucast n) in ucast A # subM_loop as ns (signed_drop_bit 32 A))"
| "subM_loop as ns A = []"

definition subM :: "RSAPublicKey \<Rightarrow> u32 list \<Rightarrow> u32 list" where
  "subM key a = subM_loop a (key_n key) 0"

text \<open>From the high word down.\<close>

fun geM_loop :: "u32 list \<Rightarrow> u32 list \<Rightarrow> bool" where
  "geM_loop (a # as) (n # ns) = (if a < n then False else if a > n then True else geM_loop as ns)"
| "geM_loop as ns = True"

definition geM :: "RSAPublicKey \<Rightarrow> u32 list \<Rightarrow> bool" where
  "geM key a = geM_loop (rev a) (rev (key_n key))"

fun mont_loop :: "u32 \<Rightarrow> u32 \<Rightarrow> u64 \<Rightarrow> u64 \<Rightarrow> u32 list \<Rightarrow> u32 list \<Rightarrow> u32 list \<Rightarrow> u32 list \<times> u64 \<times> u64" where
  "mont_loop a d0 A B (b # bs) (c # cs) (n # ns) =
     (let A = drop_bit 32 A + ucast a * ucast b + ucast c;
          B = drop_bit 32 B + ucast d0 * ucast n + ucast (ucast A :: u32);
          (out, A', B') = mont_loop a d0 A B bs cs ns
      in (ucast B # out, A', B'))"
| "mont_loop a d0 A B bs cs ns = ([], A, B)"

definition montMulAdd :: "RSAPublicKey \<Rightarrow> u32 list \<Rightarrow> u32 \<Rightarrow> u32 list \<Rightarrow> u32 list" where
  "montMulAdd key c a b =
     (let A = ucast a * ucast (hd b) + ucast (hd c) :: u64;
          d0 = ucast A * n0inv key :: u32;
          B = ucast d0 * ucast (hd (key_n key)) + ucast (ucast A :: u32) :: u64;
          (out, A, B) = mont_loop a d0 A B (tl b) (tl c) (tl (key_n key));
          A = drop_bit 32 A + drop_bit 32 B;
          c = out @ [ucast A]
      in if drop_bit 32 A \<noteq> 0 then subM key c else c)"

definition montMul :: "RSAPublicKey \<Rightarrow> u32 list \<Rightarrow> u32 list \<Rightarrow> u32 list" where
  "montMul key a b = fold (\<lambda>ai c. montMulAdd key c ai b) a (replicate (nat (key_len key)) 0)"

definition word_at :: "u8 list \<Rightarrow> nat \<Rightarrow> u32" where
  "word_at bs i = push_bit 24 (ucast (bs ! i)) OR push_bit 16 (ucast (bs ! (i + 1))) OR
     push_bit 8 (ucast (bs ! (i + 2))) OR ucast (bs ! (i + 3))"

definition words_of_bytes :: "nat \<Rightarrow> u8 list \<Rightarrow> u32 list" where
  "words_of_bytes len bs = map (\<lambda>i. word_at bs ((len - 1 - i) * 4)) [0..<len]"

definition bytes_of_word :: "u32 \<Rightarrow> u8 list" where
  "bytes_of_word w = [ucast (drop_bit 24 w), ucast (drop_bit 16 w), ucast (drop_bit 8 w), ucast w]"

definition bytes_of_words :: "u32 list \<Rightarrow> u8 list" where
  "bytes_of_words ws = concat (map bytes_of_word (rev ws))"

definition mont_power :: "RSAPublicKey \<Rightarrow> u32 list \<Rightarrow> u32 list option" where
  "mont_power key a =
     (if exponent key = 65537 then
        let aR = montMul key a (rr key);
            aR = fold (\<lambda>i aR. let aaR = montMul key aR aR in montMul key aaR aaR) [0..<8] aR
        in Some (montMul key aR a)
      else if exponent key = 3 then
        let aR = montMul key a (rr key);
            aaR = montMul key aR aR
        in Some (montMul key aaR a)
      else None)"

text \<open>With another exponent the code would read through a null pointer: \<open>None\<close>.\<close>

definition modpow :: "RSAPublicKey \<Rightarrow> u8 list \<Rightarrow> u8 list option" where
  "modpow key inout =
     map_option (\<lambda>aaa. bytes_of_words (if geM key aaa then subM key aaa else aaa))
       (mont_power key (words_of_bytes (nat (key_len key)) inout))"

definition sha_padding_1024 :: "u8 list" where
  "sha_padding_1024 = [0x00, 0x01] @ replicate 105 0xff @ [0x00] @ replicate 20 0"

definition RSA_verify :: "RSAPublicKey \<Rightarrow> u8 list \<Rightarrow> nat \<Rightarrow> u8 list \<Rightarrow> nat \<Rightarrow> bool option" where
  "RSA_verify key signature len hash hash_len =
     (if key_len key \<noteq> int RSANUMWORDS then Some False
      else if len \<noteq> RSANUMBYTES then Some False
      else if hash_len \<noteq> 20 then Some False
      else if exponent key \<noteq> 3 \<and> exponent key \<noteq> 65537 then Some False
      else do { buf \<leftarrow> modpow key (take len signature);
                let buf = take (len - hash_len) buf @ map2 (XOR) (drop (len - hash_len) buf) (take hash_len hash);
                Some (buf = sha_padding_1024) })"

subsection \<open>Arrays as numbers\<close>

fun val :: "u32 list \<Rightarrow> int" where
  "val [] = 0"
| "val (w # ws) = uint w + 2 ^ 32 * val ws"

definition radix :: "nat \<Rightarrow> int" where "radix k = (2 ^ 32) ^ k"

lemma radix_simps [simp]: "radix 0 = 1" "radix (Suc k) = 2 ^ 32 * radix k" "0 < radix k"
  by (simp_all add: radix_def)

lemma val_range: "0 \<le> val ws \<and> val ws < radix (length ws)"
proof (induction ws)
  case (Cons w ws)
  have "uint w \<ge> 0" "uint w < 2 ^ 32" using uint_lt2p [of w] by simp_all
  with Cons show ?case by simp
qed simp

lemma val_append: "val (xs @ ys) = val xs + radix (length xs) * val ys"
  by (induction xs) (simp_all add: algebra_simps)

lemma val_inj: "length xs = length ys \<Longrightarrow> val xs = val ys \<Longrightarrow> xs = ys"
proof (induction xs ys rule: list_induct2)
  case (Cons x xs y ys)
  have digit: "(uint u + 2 ^ 32 * k) mod 2 ^ 32 = uint u" for u :: u32 and k
    using uint_lt2p [of u] by (simp only: mod_mult_self2) simp
  have "uint x = uint y" using arg_cong [OF Cons.prems, of "\<lambda>k. k mod 2 ^ 32"] by (simp only: val.simps digit)
  then show ?case using Cons by (simp add: word_uint_eq_iff)
qed simp

text \<open>64-bit values.\<close>

lemma uint_low: "uint (ucast (A :: u64) :: u32) = uint A mod 2 ^ 32"
  by (simp add: unsigned_ucast_eq take_bit_eq_mod)

lemma uint_high: "uint (drop_bit 32 A :: u64) = uint A div 2 ^ 32"
proof -
  have "take_bit 64 (uint A) = uint A" using uint_lt2p [of A] by (intro take_bit_int_eq_self) simp_all
  then show ?thesis by (simp add: unsigned_drop_bit_eq drop_bit_eq_div [where 'a = int])
qed

lemma uint_wide: "uint (ucast (a :: u32) :: u64) = uint a"
proof -
  have "take_bit 64 (uint a) = uint a" using uint_lt2p [of a] by (intro take_bit_int_eq_self) simp_all
  then show ?thesis by (simp add: unsigned_ucast_eq)
qed

lemma uint_below: "0 \<le> uint (a :: u32) \<and> uint a \<le> 2 ^ 32 - 1"
  using uint_lt2p [of a] by simp

lemma mul_below: "uint (a :: u32) * uint (b :: u32) \<le> (2 ^ 32 - 1) * (2 ^ 32 - 1)"
  using uint_below [of a] uint_below [of b] by (intro mult_mono) simp_all

lemma mac_exact:
  fixes A :: u64 and a b c :: u32
  shows "uint (drop_bit 32 A + ucast a * ucast b + ucast c) = uint A div 2 ^ 32 + uint a * uint b + uint c"
proof -
  have "uint A div 2 ^ 32 \<le> 2 ^ 32 - 1" "0 \<le> uint A div 2 ^ 32"
    using uint_lt2p [of A] by (simp_all add: pos_imp_zdiv_nonneg_iff)
  moreover note uint_below [of a] uint_below [of b] uint_below [of c] mul_below [of a b]
  moreover have "0 \<le> uint a * uint b" using uint_below [of a] uint_below [of b] by simp
  ultimately show ?thesis by (simp add: uint_plus_if' uint_word_ariths uint_high uint_wide)
qed


lemma word_ops_exact:
  fixes A :: u64 and a b c :: u32
  shows "uint (ucast a * ucast b + ucast c :: u64) = uint a * uint b + uint c"
  using mac_exact [of 0 a b c] by simp

lemma word_of_int_uint_wide: "word_of_int (uint (a :: u32)) = (ucast a :: u64)"
  by (metis uint_wide word_of_int_uint)

lemma sint_uint_mod: "sint (A :: u64) mod 2 ^ 32 = uint A mod 2 ^ 32"
proof -
  have "take_bit 32 (sint A) = take_bit 32 (uint A)"
    by (simp add: sint_uint take_bit_signed_take_bit)
  then show ?thesis by (simp add: take_bit_eq_mod)
qed

subsection \<open>Subtraction and comparison\<close>

lemma digit_mod: "(x mod W + W * ((x div W + y) mod r) :: int) = (x + W * y) mod (W * r)" if "0 < W" "0 < r"
proof -
  have "(x + W * y) mod (W * r) = W * ((x + W * y) div W mod r) + (x + W * y) mod W"
    using that by (simp add: zmod_zmult2_eq)
  then show ?thesis using that by (simp add: add.commute)
qed

lemma borrow_bit: "- 1 \<le> x div 2 ^ 32 \<and> x div 2 ^ 32 \<le> 0" if "- (2 ^ 32) \<le> x" "x < 2 ^ 32" for x :: int
  using zdiv_mono1 [of "- (2 ^ 32)" x "2 ^ 32"] zdiv_mono1 [of x "2 ^ 32 - 1" "2 ^ 32"] that by simp

lemma subM_loop_val:
  assumes "length as = length ns" and "- 1 \<le> sint A" "sint A \<le> 0"
  shows "length (subM_loop as ns A) = length as \<and>
    val (subM_loop as ns A) = (sint A + val as - val ns) mod radix (length as)"
  using assms
proof (induction as ns arbitrary: A rule: list_induct2)
  case (Cons a as n ns)
  define A1 where "A1 = A + (ucast a - ucast n)"
  have r: "0 \<le> uint a" "uint a < 2 ^ 32" "0 \<le> uint n" "uint n < 2 ^ 32"
    using uint_lt2p [of a] uint_lt2p [of n] by simp_all
  have s: "sint A1 = sint A + uint a - uint n"
  proof -
    have "A1 = word_of_int (sint A + uint a - uint n)"
      unfolding A1_def by (simp only: of_int_add of_int_diff of_int_sint word_of_int_uint_wide) (simp add: algebra_simps)
    then have "sint A1 = sint (word_of_int (sint A + uint a - uint n) :: u64)" by (rule arg_cong)
    also have "\<dots> = signed_take_bit 63 (sint A + uint a - uint n)" unfolding signed_of_int by simp
    also have "\<dots> = sint A + uint a - uint n"
    proof (rule signed_take_bit_int_eq_self)
      have nums: "(2 :: int) ^ 63 = 9223372036854775808" "(2 :: int) ^ 32 = 4294967296" by simp_all
      show "- (2 ^ 63) \<le> sint A + uint a - uint n" using r Cons.prems nums by linarith
      show "sint A + uint a - uint n < 2 ^ 63" using r Cons.prems nums by linarith
    qed
    finally show ?thesis .
  qed
  have h: "sint (signed_drop_bit 32 A1) = sint A1 div 2 ^ 32"
    by (simp add: sint_signed_drop_bit_eq drop_bit_eq_div)
  have l: "uint (ucast A1 :: u32) = sint A1 mod 2 ^ 32"
    by (simp only: uint_low sint_uint_mod)
  have rng: "- (2 ^ 32) \<le> sint A1" "sint A1 < 2 ^ 32"
    using r Cons.prems unfolding s by linarith+
  have b: "- 1 \<le> sint (signed_drop_bit 32 A1)" "sint (signed_drop_bit 32 A1) \<le> 0"
    unfolding h using borrow_bit [OF rng] by simp_all
  note ih = Cons.IH [OF b]
  have step: "subM_loop (a # as) (n # ns) A = ucast A1 # subM_loop as ns (signed_drop_bit 32 A1)"
    by (simp only: subM_loop.simps Let_def A1_def)
  have "val (subM_loop (a # as) (n # ns) A) = sint A1 mod 2 ^ 32 + 2 ^ 32 * ((sint A1 div 2 ^ 32 + (val as - val ns)) mod radix (length as))"
    using ih by (simp add: step l h add_diff_eq del: subM_loop.simps)
  also have "\<dots> = (sint A1 + 2 ^ 32 * (val as - val ns)) mod (2 ^ 32 * radix (length as))"
    by (rule digit_mod) simp_all
  also have "\<dots> = (sint A + val (a # as) - val (n # ns)) mod radix (length (a # as))"
    by (simp add: s algebra_simps)
  finally show ?case using ih by (simp add: step del: subM_loop.simps)
qed simp

lemma geM_loop_val: "length as = length ns \<Longrightarrow> geM_loop as ns \<longleftrightarrow> val (rev ns) \<le> val (rev as)"
proof (induction as ns rule: list_induct2)
  case (Cons a as n ns)
  define R where "R = radix (length ns)"
  have v: "0 \<le> val (rev as)" "val (rev as) < R" "0 \<le> val (rev ns)" "val (rev ns) < R"
    using val_range [of "rev as"] val_range [of "rev ns"] Cons.hyps by (simp_all add: R_def)
  have s: "R * (uint x + 1) \<le> R * uint y" if "x < y" for x y :: u32
    using that v by (intro mult_left_mono) (simp_all add: word_less_def)
  consider "a < n" | "n < a" | "a = n" by (cases a n rule: linorder_cases) blast+
  then show ?case
  proof cases
    case 1
    then show ?thesis using v s [OF 1] Cons.hyps by (simp add: val_append R_def [symmetric] algebra_simps)
  next
    case 2
    then have "\<not> a < n" by simp
    then show ?thesis using 2 v s [OF 2] Cons.hyps by (simp add: val_append R_def [symmetric] algebra_simps)
  next
    case 3
    then show ?thesis using Cons by (simp add: val_append)
  qed
qed simp

subsection \<open>Montgomery multiplication\<close>

lemma mont_loop_val:
  assumes "length bs = length cs" "length cs = length ns"
  shows "case mont_loop a d0 A B bs cs ns of (out, A', B') \<Rightarrow> length out = length bs \<and>
    val out + radix (length bs) * (uint A' div 2 ^ 32 + uint B' div 2 ^ 32) =
    uint A div 2 ^ 32 + uint B div 2 ^ 32 + uint a * val bs + val cs + uint d0 * val ns"
  using assms
proof (induction bs cs ns arbitrary: A B rule: list_induct3)
  case (Cons b bs c cs n ns)
  define A1 where "A1 = drop_bit 32 A + ucast a * ucast b + ucast c"
  define B1 where "B1 = drop_bit 32 B + ucast d0 * ucast n + ucast (ucast A1 :: u32)"
  obtain out A' B' where o: "mont_loop a d0 A1 B1 bs cs ns = (out, A', B')" by (cases "mont_loop a d0 A1 B1 bs cs ns") auto
  have A1: "uint A1 = uint A div 2 ^ 32 + uint a * uint b + uint c" unfolding A1_def by (rule mac_exact)
  have B1: "uint B1 = uint B div 2 ^ 32 + uint d0 * uint n + uint A1 mod 2 ^ 32"
    unfolding B1_def mac_exact uint_low by simp
  have ih: "length out = length bs"
    "val out + radix (length bs) * (uint A' div 2 ^ 32 + uint B' div 2 ^ 32) =
     uint A1 div 2 ^ 32 + uint B1 div 2 ^ 32 + uint a * val bs + val cs + uint d0 * val ns"
    using Cons.IH [of A1 B1] o by simp_all
  define T where "T = uint A' div 2 ^ 32 + uint B' div 2 ^ 32"
  have "val (ucast B1 # out) + radix (length (b # bs)) * T = uint B1 mod 2 ^ 32 + 2 ^ 32 * (val out + radix (length bs) * T)"
    by (simp add: uint_low algebra_simps)
  also have "\<dots> = (uint B1 mod 2 ^ 32 + 2 ^ 32 * (uint B1 div 2 ^ 32)) + 2 ^ 32 * (uint A1 div 2 ^ 32) +
      2 ^ 32 * (uint a * val bs + val cs + uint d0 * val ns)"
    unfolding T_def ih(2) by (simp add: algebra_simps)
  also have "\<dots> = uint B div 2 ^ 32 + uint d0 * uint n + (uint A1 mod 2 ^ 32 + 2 ^ 32 * (uint A1 div 2 ^ 32)) +
      2 ^ 32 * (uint a * val bs + val cs + uint d0 * val ns)"
    by (simp only: mod_mult_div_eq B1 add.assoc)
  also have "\<dots> = uint A div 2 ^ 32 + uint B div 2 ^ 32 + uint a * val (b # bs) + val (c # cs) + uint d0 * val (n # ns)"
    by (simp only: mod_mult_div_eq A1 val.simps) (simp add: algebra_simps)
  finally show ?case
    using o ih(1) by (simp add: A1_def [symmetric] B1_def [symmetric] Let_def T_def)
qed simp


text \<open>What the code expects of a key: an odd modulus in the upper half of its word range, \<open>-1/n\<close>
  modulo the word size, and the square of the radix modulo \<open>n\<close>.\<close>

definition key_ok :: "RSAPublicKey \<Rightarrow> bool" where
  "key_ok key \<longleftrightarrow> key_len key = 32 \<and> length (key_n key) = 32 \<and> length (rr key) = 32 \<and>
     (uint (hd (key_n key)) * uint (n0inv key) + 1) mod 2 ^ 32 = 0 \<and>
     radix 32 < 2 * val (key_n key) \<and>
     (val (rr key) - radix 32 * radix 32) mod val (key_n key) = 0"

text \<open>One step of Montgomery's reduction: an exact equation, and the range the final subtraction
  restores.\<close>

definition limbs :: "RSAPublicKey \<Rightarrow> u32 list \<Rightarrow> bool" where
  "limbs key xs \<longleftrightarrow> length xs = length (key_n key)"

lemma subM_once:
  assumes "limbs key c" and "val (key_n key) \<le> x" and "x - val (key_n key) < radix (length c)"
    and "val c mod radix (length c) = x mod radix (length c)"
  shows "limbs key (subM key c) \<and> val (subM key c) = x - val (key_n key)"
proof -
  have "val (subM key c) = (val c - val (key_n key)) mod radix (length c)"
    using subM_loop_val [of c "key_n key" 0] assms(1) by (simp add: subM_def limbs_def)
  also have "\<dots> = (x - val (key_n key)) mod radix (length c)"
    using assms(4) by (rule mod_diff_cong) simp
  also have "\<dots> = x - val (key_n key)" using assms(2,3) by simp
  finally show ?thesis
    using subM_loop_val [of c "key_n key" 0] assms(1) by (simp add: subM_def limbs_def)
qed

lemma d0_cancels:
  assumes "(uint n0 * uint (n0inv key) + 1) mod 2 ^ 32 = 0"
  shows "(uint (ucast (A :: u64) * n0inv key :: u32) * uint n0 + uint A mod 2 ^ 32) mod 2 ^ 32 = 0"
proof -
  have "uint (ucast A * n0inv key :: u32) = (uint A * uint (n0inv key)) mod 2 ^ 32"
    by (simp only: uint_word_ariths uint_low) (simp add: mod_mult_left_eq)
  then have e: "uint (ucast A * n0inv key :: u32) mod 2 ^ 32 = (uint A * uint (n0inv key)) mod 2 ^ 32" by simp
  have "(uint (ucast A * n0inv key :: u32) * uint n0 + uint A mod 2 ^ 32) mod 2 ^ 32 =
      (uint A * uint (n0inv key) * uint n0 + uint A) mod 2 ^ 32"
    by (intro mod_add_cong mod_mult_cong e refl mod_mod_trivial)
  also have "\<dots> = (uint A * (uint n0 * uint (n0inv key) + 1)) mod 2 ^ 32" by (simp add: algebra_simps)
  also have "\<dots> = 0" using assms by (metis mod_mult_right_eq mult_zero_right mod_0)
  finally show ?thesis .
qed

lemma high_sum: "uint (drop_bit 32 A + drop_bit 32 B :: u64) = uint A div 2 ^ 32 + uint B div 2 ^ 32"
proof -
  have "uint X div 2 ^ 32 \<le> 2 ^ 32 - 1" "0 \<le> uint X div 2 ^ 32" for X :: u64
    using uint_lt2p [of X] by (simp_all add: pos_imp_zdiv_nonneg_iff)
  from this [of A] this [of B] show ?thesis by (simp add: uint_plus_if' uint_high)
qed

lemma step_bound:
  fixes S R N bv cv dv av :: int and a d :: u32
  assumes "2 ^ 32 * S = uint a * bv + cv + uint d * N"
    and "0 \<le> bv \<and> bv < R" "0 \<le> cv \<and> cv < R" "0 \<le> N" "0 < R"
  shows "S < R + N"
proof -
  have "uint a * bv \<le> (2 ^ 32 - 1) * (R - 1)" using assms uint_below [of a] by (intro mult_mono) simp_all
  moreover have "uint d * N \<le> (2 ^ 32 - 1) * N" using assms uint_below [of d] by (intro mult_right_mono) simp_all
  ultimately have "2 ^ 32 * S < 2 ^ 32 * (R + N)" using assms by (simp add: algebra_simps)
  then show ?thesis by simp
qed

lemma montMulAdd_val:
  assumes "length b = k" "length c = k" "length (key_n key) = k" "0 < k"
    and inv: "(uint (hd (key_n key)) * uint (n0inv key) + 1) mod 2 ^ 32 = 0"
  shows "length (montMulAdd key c a b) = k \<and>
    (\<exists>m. 2 ^ 32 * val (montMulAdd key c a b) = uint a * val b + val c + m * val (key_n key))"
proof -
  obtain b0 bs c0 cs n0 ns where l: "b = b0 # bs" "c = c0 # cs" "key_n key = n0 # ns"
    using assms by (cases b; cases c; cases "key_n key") auto
  define N where "N = val (key_n key)"
  define R where "R = radix (length bs)"
  define A where "A = (ucast a * ucast b0 + ucast c0 :: u64)"
  define d0 where "d0 = (ucast A * n0inv key :: u32)"
  define B where "B = (ucast d0 * ucast n0 + ucast (ucast A :: u32) :: u64)"
  obtain out A' B' where o: "mont_loop a d0 A B bs cs ns = (out, A', B')" by (cases "mont_loop a d0 A B bs cs ns") auto
  define A2 where "A2 = drop_bit 32 A' + drop_bit 32 B'"
  define c' where "c' = out @ [ucast A2]"
  have eq: "montMulAdd key c a b = (if drop_bit 32 A2 \<noteq> 0 then subM key c' else c')"
    by (simp add: montMulAdd_def l A_def [symmetric] d0_def [symmetric] B_def [symmetric] o A2_def [symmetric] c'_def [symmetric] Let_def)
  have A: "uint A = uint a * uint b0 + uint c0" unfolding A_def by (rule word_ops_exact)
  have B: "uint B = uint d0 * uint n0 + uint A mod 2 ^ 32" unfolding B_def by (simp only: word_ops_exact uint_low)
  have B0: "uint B mod 2 ^ 32 = 0" unfolding B d0_def using inv l by (intro d0_cancels) simp
  define S where "S = val out + R * (uint A' div 2 ^ 32 + uint B' div 2 ^ 32)"
  have lens: "length bs = length cs" "length cs = length ns" using assms l by simp_all
  have out: "length out = length bs" and
    S: "S = uint A div 2 ^ 32 + uint B div 2 ^ 32 + uint a * val bs + val cs + uint d0 * val ns"
    using lens mont_loop_val [OF lens, of A B a d0] o by (simp_all add: S_def R_def)
  have WS: "2 ^ 32 * S = uint a * val b + val c + uint d0 * N"
  proof -
    have "2 ^ 32 * S = 2 ^ 32 * (uint A div 2 ^ 32) + 2 ^ 32 * (uint B div 2 ^ 32) +
        2 ^ 32 * (uint a * val bs + val cs + uint d0 * val ns)"
      unfolding S by (simp only: distrib_left add.assoc)
    also have "\<dots> = (uint A - uint A mod 2 ^ 32) + (uint B - uint B mod 2 ^ 32) +
        2 ^ 32 * (uint a * val bs + val cs + uint d0 * val ns)"
      by (simp only: minus_mod_eq_mult_div)
    also have "\<dots> = uint A + uint d0 * uint n0 + 2 ^ 32 * (uint a * val bs + val cs + uint d0 * val ns)"
      unfolding B0 using B by simp
    also have "\<dots> = uint a * val b + val c + uint d0 * N"
      unfolding N_def A l by (simp add: algebra_simps)
    finally show ?thesis .
  qed
  have A2: "uint A2 = uint A' div 2 ^ 32 + uint B' div 2 ^ 32"
    unfolding A2_def by (rule high_sum)
  have c': "S = val c' + radix k * (uint A2 div 2 ^ 32)"
  proof -
    have "val c' = val out + R * (uint A2 mod 2 ^ 32)"
      by (simp add: c'_def val_append out R_def uint_low)
    moreover have "R * uint A2 = R * (uint A2 mod 2 ^ 32) + R * (2 ^ 32 * (uint A2 div 2 ^ 32))"
      by (simp only: distrib_left [symmetric] mod_mult_div_eq)
    moreover have "radix k = 2 ^ 32 * R" using assms l by (auto simp: R_def)
    ultimately show ?thesis unfolding S_def A2 [symmetric] by (simp add: mult.assoc mult.left_commute)
  qed
  have len: "length c' = k" using assms l out by (simp add: c'_def)
  have N: "0 \<le> N" "N < radix k" using val_range [of "key_n key"] assms by (simp_all add: N_def)
  have bound: "S < radix k + N"
    using step_bound [OF WS] val_range [of b] val_range [of c] N assms by simp
  show ?thesis
  proof (cases "drop_bit 32 A2 = 0")
    case True
    then have "uint A2 div 2 ^ 32 = 0" using uint_high [of A2] by simp
    then show ?thesis using eq True WS c' len N_def by auto
  next
    case False
    then have "uint A2 div 2 ^ 32 \<noteq> 0" using uint_high [of A2] uint_0_iff [of "drop_bit 32 A2"] by simp
    then have "1 \<le> uint A2 div 2 ^ 32" by (simp add: pos_imp_zdiv_nonneg_iff int_one_le_iff_zero_less less_le)
    then have "radix k * 1 \<le> radix k * (uint A2 div 2 ^ 32)" by (intro mult_left_mono) (simp_all add: less_imp_le)
    then have "N \<le> S" using c' N val_range [of c'] by linarith
    moreover have "val c' mod radix k = S mod radix k" unfolding c' by simp
    ultimately have "limbs key (subM key c') \<and> val (subM key c') = S - N"
      unfolding N_def using bound len assms by (intro subM_once) (simp_all add: limbs_def N_def)
    moreover have "2 ^ 32 * (S - N) = uint a * val b + val c + (uint d0 - 2 ^ 32) * N"
      using WS by (simp add: algebra_simps)
    ultimately show ?thesis using eq False assms N_def by (auto simp: limbs_def)
  qed
qed


lemma montMul_fold:
  assumes "length b = k" "length c = k" "length (key_n key) = k" "0 < k"
    and inv: "(uint (hd (key_n key)) * uint (n0inv key) + 1) mod 2 ^ 32 = 0"
  shows "length (fold (\<lambda>ai c. montMulAdd key c ai b) as c) = k \<and>
    (\<exists>m. radix (length as) * val (fold (\<lambda>ai c. montMulAdd key c ai b) as c) =
      val as * val b + val c + m * val (key_n key))"
  using assms(2)
proof (induction as arbitrary: c)
  case Nil
  then show ?case by (auto intro: exI [of _ 0])
next
  case (Cons a as)
  define c1 where "c1 = montMulAdd key c a b"
  obtain m where m: "length c1 = k" "2 ^ 32 * val c1 = uint a * val b + val c + m * val (key_n key)"
    using montMulAdd_val [OF assms(1) Cons.prems assms(3,4) inv, of a] unfolding c1_def by blast
  define r where "r = fold (\<lambda>ai c. montMulAdd key c ai b) as c1"
  obtain m' where r: "length r = k" "radix (length as) * val r = val as * val b + val c1 + m' * val (key_n key)"
    using Cons.IH [OF m(1)] unfolding r_def by blast
  have "radix (length (a # as)) * val r = 2 ^ 32 * (radix (length as) * val r)" by simp
  also have "\<dots> = 2 ^ 32 * (val as * val b) + 2 ^ 32 * val c1 + 2 ^ 32 * (m' * val (key_n key))"
    unfolding r(2) by (simp only: distrib_left)
  also have "\<dots> = val (a # as) * val b + val c + (m + 2 ^ 32 * m') * val (key_n key)"
    unfolding m(2) by (simp add: algebra_simps)
  finally show ?case using r(1) unfolding fold_simps c1_def [symmetric] r_def [symmetric] by blast
qed

lemma val_replicate_0 [simp]: "val (replicate k 0) = 0"
  by (induction k) simp_all

lemma montMul_val:
  assumes "key_ok key" "length a = 32" "length b = 32"
  shows "length (montMul key a b) = 32 \<and>
    (\<exists>m. radix 32 * val (montMul key a b) = val a * val b + m * val (key_n key))"
  using montMul_fold [of b 32 "replicate 32 0" key a] assms by (simp add: montMul_def key_ok_def)

subsection \<open>Residues\<close>

text \<open>\<open>reps key x u\<close>: \<open>x\<close> is the Montgomery form \<open>u * R\<close> of \<open>u\<close>, modulo \<open>n\<close>.\<close>

definition reps :: "RSAPublicKey \<Rightarrow> u32 list \<Rightarrow> int \<Rightarrow> bool" where
  "reps key x u \<longleftrightarrow> length x = 32 \<and> val (key_n key) dvd val x - u * radix 32"

lemma odd_modulus:
  assumes "key_ok key"
  shows "coprime (val (key_n key)) (radix 32)"
proof -
  obtain n0 ns where n: "key_n key = n0 # ns" using assms by (cases "key_n key") (auto simp: key_ok_def)
  then have "(uint n0 * uint (n0inv key) + 1) mod 2 ^ 32 = 0" using assms by (simp add: key_ok_def)
  then have "even (uint n0 * uint (n0inv key) + 1)"
    by (metis dvd_trans even_numeral mod_0_imp_dvd dvd_power zero_less_numeral)
  then have "odd (val (key_n key))" using n by auto
  then show ?thesis by (simp only: radix_def coprime_power_right_iff coprime_right_2_iff_odd simp_thms)
qed

lemma cancel_radix:
  assumes "key_ok key" and "val (key_n key) dvd radix 32 * x"
  shows "val (key_n key) dvd x"
  using assms odd_modulus [of key] by (simp add: coprime_dvd_mult_right_iff)

lemma reps_mul:
  assumes k: "key_ok key" and x: "reps key x u" and y: "reps key y v"
  shows "reps key (montMul key x y) (u * v)"
proof -
  define N where "N = val (key_n key)"
  define R where "R = radix 32"
  obtain m where l: "length (montMul key x y) = 32" and m: "R * val (montMul key x y) = val x * val y + m * N"
    using montMul_val [OF k, of x y] x y by (auto simp: reps_def N_def R_def)
  obtain p q where "val x - u * R = N * p" "val y - v * R = N * q"
    using x y by (auto simp: reps_def N_def R_def elim!: dvdE)
  then have p: "val x = u * R + N * p" and q: "val y = v * R + N * q" by simp_all
  have "R * (val (montMul key x y) - u * v * R) = N * (u * R * q + v * R * p + N * p * q + m)"
    unfolding right_diff_distrib m p q by (simp add: algebra_simps)
  then have "N dvd R * (val (montMul key x y) - u * v * R)" by (rule dvdI)
  then have "N dvd val (montMul key x y) - u * v * R" unfolding N_def R_def by (rule cancel_radix [OF k])
  then show ?thesis using l by (simp only: reps_def N_def R_def simp_thms)
qed

lemma reps_enter:
  assumes k: "key_ok key" and x: "length x = 32"
  shows "reps key (montMul key x (rr key)) (val x)"
proof -
  define N where "N = val (key_n key)"
  define R where "R = radix 32"
  obtain m where l: "length (montMul key x (rr key)) = 32" and m: "R * val (montMul key x (rr key)) = val x * val (rr key) + m * N"
    using montMul_val [OF k x, of "rr key"] k by (auto simp: key_ok_def N_def R_def)
  have "N dvd val (rr key) - R * R" using k by (simp add: key_ok_def N_def R_def dvd_eq_mod_eq_0)
  then obtain q where "val (rr key) - R * R = N * q" by (elim dvdE)
  then have q: "val (rr key) = R * R + N * q" by simp
  have "R * (val (montMul key x (rr key)) - val x * R) = N * (val x * q + m)"
    unfolding right_diff_distrib m q by (simp add: algebra_simps)
  then have "N dvd R * (val (montMul key x (rr key)) - val x * R)" by (rule dvdI)
  then have "N dvd val (montMul key x (rr key)) - val x * R" unfolding N_def R_def by (rule cancel_radix [OF k])
  then show ?thesis using l by (simp only: reps_def N_def R_def simp_thms)
qed

lemma reps_leave:
  assumes k: "key_ok key" and x: "reps key x u" and y: "length y = 32"
  shows "length (montMul key x y) = 32 \<and> val (key_n key) dvd val (montMul key x y) - u * val y"
proof -
  define N where "N = val (key_n key)"
  define R where "R = radix 32"
  obtain m where l: "length (montMul key x y) = 32" and m: "R * val (montMul key x y) = val x * val y + m * N"
    using montMul_val [OF k, of x y] x y by (auto simp: reps_def N_def R_def)
  obtain p where "val x - u * R = N * p" using x by (auto simp: reps_def N_def R_def elim!: dvdE)
  then have p: "val x = u * R + N * p" by simp
  have "R * (val (montMul key x y) - u * val y) = N * (p * val y + m)"
    unfolding right_diff_distrib m p by (simp add: algebra_simps)
  then have "N dvd R * (val (montMul key x y) - u * val y)" by (rule dvdI)
  then have "N dvd val (montMul key x y) - u * val y" unfolding N_def R_def by (rule cancel_radix [OF k])
  then show ?thesis using l by (simp only: N_def R_def simp_thms)
qed

lemma mont_power_val:
  assumes k: "key_ok key" and a: "length a = 32" and e: "exponent key = 3 \<or> exponent key = 65537"
  shows "\<exists>r. mont_power key a = Some r \<and> length r = 32 \<and>
    val (key_n key) dvd val r - val a ^ nat (exponent key)"
  using e
proof
  assume e: "exponent key = 3"
  note enter = reps_enter [OF k a]
  show ?thesis
    using reps_leave [OF k reps_mul [OF k enter enter] a]
    by (simp add: mont_power_def e power3_eq_cube Let_def)
next
  assume e: "exponent key = 65537"
  define sq where "sq = (\<lambda>(i :: nat) aR. let aaR = montMul key aR aR in montMul key aaR aaR)"
  have step: "reps key x u \<Longrightarrow> reps key (sq i x) (u ^ 4)" for i x u
    using reps_mul [OF k reps_mul [OF k, of x u x u] reps_mul [OF k, of x u x u]]
    by (simp add: sq_def Let_def power4_eq_xxxx mult.assoc)
  have "reps key (fold sq is x) (u ^ (4 ^ length is))" if "reps key x u" for "is" x u
    using that
  proof (induction "is" arbitrary: x u)
    case (Cons i "is")
    from Cons.IH [OF step [OF Cons.prems], of i] show ?case by (simp add: power_mult [symmetric])
  qed simp
  from this [OF reps_enter [OF k a], of "[0..<8]"]
  have "reps key (fold sq [0..<8] (montMul key a (rr key))) (val a ^ 65536)" by simp
  from reps_leave [OF k this a]
  have "length (montMul key (fold sq [0..<8] (montMul key a (rr key))) a) = 32 \<and>
    val (key_n key) dvd val (montMul key (fold sq [0..<8] (montMul key a (rr key))) a) - val a ^ 65536 * val a" .
  moreover have "val a ^ 65536 * val a = val a ^ nat (exponent key)"
    unfolding e using power_Suc2 [of "val a" 65536] by simp
  ultimately show ?thesis unfolding mont_power_def e sq_def [symmetric] by (simp add: Let_def)
qed


lemma modpow_reduced:
  assumes k: "key_ok key" and r: "length r = 32" "val (key_n key) dvd val r - x"
  shows "length (if geM key r then subM key r else r) = 32 \<and>
    val (if geM key r then subM key r else r) = x mod val (key_n key)"
proof -
  define N where "N = val (key_n key)"
  have len: "length (key_n key) = 32" using k by (simp add: key_ok_def)
  have ge: "geM key r \<longleftrightarrow> N \<le> val r"
    using geM_loop_val [of "rev r" "rev (key_n key)"] r(1) len by (simp add: geM_def N_def)
  have R: "0 \<le> val r" "val r < 2 * N" "radix 32 < 2 * N" "0 \<le> N" "N < radix 32"
    using val_range [of r] val_range [of "key_n key"] k r(1) len by (auto simp: key_ok_def N_def)
  have x: "x mod N = val r mod N"
    using r(2) unfolding N_def by (metis dvd_diff_commute mod_eq_dvd_iff)
  show ?thesis
  proof (cases "N \<le> val r")
    case True
    have "limbs key (subM key r) \<and> val (subM key r) = val r - N"
      unfolding N_def using True R r(1) len by (intro subM_once) (simp_all add: limbs_def N_def)
    moreover have "val r mod N = val r - N"
      using mod_pos_pos_trivial [of "val r - N" N] True R by simp
    ultimately show ?thesis using True ge x len by (simp add: limbs_def N_def)
  next
    case False
    then show ?thesis using ge x R r(1) by (simp add: N_def)
  qed
qed

subsection \<open>Arrays as big-endian bytes\<close>

fun be_val :: "u8 list \<Rightarrow> int" where
  "be_val [] = 0"
| "be_val (b # bs) = uint b * 256 ^ length bs + be_val bs"

lemma be_val_append: "be_val (xs @ ys) = be_val xs * 256 ^ length ys + be_val ys"
  by (induction xs) (simp_all add: algebra_simps power_add)

lemma byte_below: "0 \<le> uint (b :: u8) \<and> uint b \<le> 255"
  using uint_lt2p [of b] by simp

lemma be_val_range: "0 \<le> be_val bs \<and> be_val bs < 256 ^ length bs"
proof (induction bs)
  case (Cons b bs)
  have "uint b * 256 ^ length bs \<le> 255 * 256 ^ length bs"
    using byte_below [of b] by (intro mult_right_mono) simp_all
  moreover have "0 \<le> uint b * 256 ^ length bs" by simp
  ultimately show ?case using Cons by (simp only: be_val.simps length_Cons power_Suc) linarith
qed simp

lemma be_val_inj: "length xs = length ys \<Longrightarrow> be_val xs = be_val ys \<longleftrightarrow> xs = ys"
proof (induction xs ys rule: list_induct2)
  case (Cons x xs y ys)
  define p :: int where "p = 256 ^ length ys"
  have r: "0 \<le> be_val xs" "be_val xs < p" "0 \<le> be_val ys" "be_val ys < p" "0 < p"
    using be_val_range [of xs] be_val_range [of ys] Cons.hyps by (simp_all add: p_def)
  have "uint x = uint y" if "uint x * p + be_val xs = uint y * p + be_val ys"
    using arg_cong [OF that, of "\<lambda>k. k div p"] r by simp
  then show ?case using Cons by (auto simp: p_def word_uint_eq_iff)
qed simp

lemma push_or:
  assumes "0 \<le> (b :: int)" "b < 2 ^ n"
  shows "push_bit n a OR b = a * 2 ^ n + b"
proof -
  have "take_bit n b = b" using assms by (rule take_bit_int_eq_self)
  then have d: "\<not> bit (push_bit n a) m \<or> \<not> bit b m" for m
    by (metis bit_push_bit_iff bit_take_bit_iff not_less)
  from d have "push_bit n a + b = push_bit n a OR b" by (intro disjunctive_add_eq_or bit_eqI) (auto simp: bit_and_iff)
  then show ?thesis by (simp add: push_bit_eq_mult)
qed

lemma uint_shifted:
  assumes "n \<le> 24" shows "uint (push_bit n (ucast (b :: u8)) :: u32) = push_bit n (uint b)"
proof -
  have b: "take_bit 32 (uint b) = uint b" using byte_below [of b] by (intro take_bit_int_eq_self) simp_all
  have "uint b * 2 ^ n \<le> 255 * 2 ^ 24"
    using byte_below [of b] power_increasing [OF assms, of "2 :: int"] by (intro mult_mono) simp_all
  then have "take_bit 32 (push_bit n (uint b)) = push_bit n (uint b)"
    by (intro take_bit_int_eq_self) (simp_all add: push_bit_eq_mult)
  then show ?thesis using b by (simp add: unsigned_push_bit_eq unsigned_ucast_eq)
qed

lemma word_at_val:
  "uint (word_at (b0 # b1 # b2 # b3 # bs) 0) = be_val [b0, b1, b2, b3]"
proof -
  define c where "c = push_bit 8 (uint b2) OR uint b3"
  define d where "d = push_bit 16 (uint b1) OR c"
  note r = byte_below [of b0] byte_below [of b1] byte_below [of b2] byte_below [of b3]
  have c: "c = uint b2 * 2 ^ 8 + uint b3" unfolding c_def using r by (intro push_or) simp_all
  have d: "d = uint b1 * 2 ^ 16 + c" unfolding d_def using r c by (intro push_or) simp_all
  have e: "push_bit 24 (uint b0) OR d = uint b0 * 2 ^ 24 + d" using r c d by (intro push_or) simp_all
  have "uint (ucast b3 :: u32) = uint b3" using uint_shifted [of 0 b3] by simp
  then have "uint (word_at (b0 # b1 # b2 # b3 # bs) 0) = push_bit 24 (uint b0) OR d"
    by (simp add: word_at_def unsigned_or_eq uint_shifted c_def d_def)
  then show ?thesis using c d e by simp
qed

lemma word_at_later: "word_at (b0 # b1 # b2 # b3 # bs) (j + 4) = word_at bs j"
  by (simp add: word_at_def numeral_eq_Suc)

lemma words_of_bytes_val: "length bs = 4 * k \<Longrightarrow> length (words_of_bytes k bs) = k \<and> val (words_of_bytes k bs) = be_val bs"
proof (induction k arbitrary: bs)
  case 0
  then show ?case by (simp add: words_of_bytes_def)
next
  case (Suc k)
  then obtain b0 b1 b2 b3 bs' where bs: "bs = b0 # b1 # b2 # b3 # bs'"
    by (auto simp: length_Suc_conv eval_nat_numeral)
  have l: "length bs' = 4 * k" using Suc.prems bs by simp
  have "word_at bs ((k - i) * 4) = word_at bs' ((k - 1 - i) * 4)" if "i < k" for i
  proof -
    have "(k - i) * 4 = (k - 1 - i) * 4 + 4" using that by simp
    then show ?thesis by (simp only: bs word_at_later)
  qed
  then have w: "words_of_bytes (Suc k) bs = words_of_bytes k bs' @ [word_at bs 0]"
    by (simp add: words_of_bytes_def)
  have "radix k = 256 ^ (4 * k)" by (simp add: radix_def power_mult)
  then show ?case
    using Suc.IH [OF l] w word_at_val [of b0 b1 b2 b3 bs'] bs l
      be_val_append [of "[b0, b1, b2, b3]" bs'] by (simp add: val_append)
qed

lemma uint_low_byte: "uint (ucast (w :: u32) :: u8) = uint w mod 256"
  by (simp add: unsigned_ucast_eq take_bit_eq_mod)

lemma uint_take: "take_bit LENGTH(32) (uint (w :: u32)) = uint w"
  using uint_lt2p [of w] by (intro take_bit_int_eq_self) simp_all

lemma bytes_of_word_val: "be_val (bytes_of_word w) = uint w"
proof -
  have u: "uint (ucast (drop_bit n w) :: u8) = uint w div 2 ^ n mod 256" for n
  proof -
    have "uint (drop_bit n w) = uint w div 2 ^ n"
      by (simp only: unsigned_drop_bit_eq drop_bit_eq_div [where 'a = int] uint_take)
    then show ?thesis by (simp only: uint_low_byte)
  qed
  define x where "x = uint w"
  define p where "p = x div 256"
  define q where "q = p div 256"
  define r where "r = q div 256"
  have d: "x div 2 ^ 16 = q" "x div 2 ^ 24 = r"
    using div_mult2_eq' [of x 256 256] by (simp_all add: p_def q_def r_def zdiv_zmult2_eq [symmetric])
  have "0 \<le> x" "x < 2 ^ 32" using uint_lt2p [of w] by (simp_all add: x_def)
  then have "r mod 256 = r" unfolding d(2) [symmetric] by (simp add: pos_imp_zdiv_nonneg_iff)
  moreover have "x = 256 * p + x mod 256" "p = 256 * q + p mod 256" "q = 256 * r + q mod 256"
    unfolding p_def q_def r_def by (simp_all only: mult_div_mod_eq)
  moreover have "be_val (bytes_of_word w) = 16777216 * (r mod 256) + 65536 * (q mod 256) + 256 * (p mod 256) + x mod 256"
    using u [of 24] u [of 16] u [of 8] u [of 0] unfolding x_def [symmetric] d
    by (simp add: bytes_of_word_def p_def)
  ultimately show ?thesis unfolding x_def [symmetric] by linarith
qed

lemma bytes_of_words_val: "length (bytes_of_words ws) = 4 * length ws \<and> be_val (bytes_of_words ws) = val ws"
proof (induction ws)
  case (Cons w ws)
  have "bytes_of_words (w # ws) = bytes_of_words ws @ bytes_of_word w" by (simp add: bytes_of_words_def)
  moreover have "length (bytes_of_word w) = 4" by (simp add: bytes_of_word_def)
  ultimately show ?case using Cons bytes_of_word_val [of w] by (simp add: be_val_append)
qed (simp add: bytes_of_words_def)

lemma modpow_val:
  assumes "key_ok key" and "length bs = 128" and "exponent key = 3 \<or> exponent key = 65537"
  shows "\<exists>out. modpow key bs = Some out \<and> length out = 128 \<and>
    be_val out = be_val bs ^ nat (exponent key) mod val (key_n key)"
proof -
  have l: "nat (key_len key) = 32" using assms by (simp add: key_ok_def)
  have a: "length (words_of_bytes 32 bs) = 32" "val (words_of_bytes 32 bs) = be_val bs"
    using words_of_bytes_val [of bs 32] assms by simp_all
  obtain r where r: "mont_power key (words_of_bytes 32 bs) = Some r" "length r = 32"
    "val (key_n key) dvd val r - be_val bs ^ nat (exponent key)"
    using mont_power_val [OF assms(1) a(1) assms(3)] a(2) by auto
  show ?thesis
    using modpow_reduced [OF assms(1) r(2,3)] bytes_of_words_val [of "if geM key r then subM key r else r"] r(1) l
    by (simp add: modpow_def)
qed


subsection \<open>The check\<close>

text \<open>The padded hash a signature has to open to.\<close>

definition encoded_hash :: "u8 list \<Rightarrow> u8 list" where
  "encoded_hash hash = [0x00, 0x01] @ replicate 105 0xff @ [0x00] @ hash"

lemma xor_zero: "length xs = length ys \<Longrightarrow> map2 (XOR) xs ys = replicate (length ys) 0 \<longleftrightarrow> xs = (ys :: u8 list)"
proof (induction xs ys rule: list_induct2)
  case (Cons x xs y ys)
  have "x XOR y = 0 \<longleftrightarrow> x = y" by (metis xor.assoc xor.left_neutral xor_self_eq)
  then show ?case using Cons by simp
qed simp

lemma padding_split:
  fixes buf hash :: "u8 list"
  assumes "length buf = 128" and "length hash = 20"
  shows "take 108 buf @ map2 (XOR) (drop 108 buf) hash = sha_padding_1024 \<longleftrightarrow> buf = encoded_hash hash"
proof -
  define pad :: "u8 list" where "pad = [0x00, 0x01] @ replicate 105 0xff @ [0x00]"
  have l: "length pad = 108" by (simp add: pad_def)
  have e: "sha_padding_1024 = pad @ replicate 20 0" "encoded_hash hash = pad @ hash"
    by (simp_all add: sha_padding_1024_def encoded_hash_def pad_def)
  have "buf = pad @ hash \<longleftrightarrow> take 108 buf = pad \<and> drop 108 buf = hash"
    by (metis append_eq_conv_conj l)
  moreover have "length (take 108 buf) = length pad" using assms l by simp
  ultimately show ?thesis
    unfolding e using xor_zero [of "drop 108 buf" hash] assms by simp
qed

lemma RSA_verify_iff:
  assumes "key_ok key" and "len \<le> length signature" and "hash_len \<le> length hash"
  shows "RSA_verify key signature len hash hash_len =
    Some (len = 128 \<and> hash_len = 20 \<and> (exponent key = 3 \<or> exponent key = 65537) \<and>
      be_val (take len signature) ^ nat (exponent key) mod val (key_n key) = be_val (encoded_hash (take hash_len hash)))"
proof (cases "len = 128 \<and> hash_len = 20 \<and> (exponent key = 3 \<or> exponent key = 65537)")
  case False
  then show ?thesis using assms(1) by (auto simp: RSA_verify_def key_ok_def RSANUMWORDS_def RSANUMBYTES_def)
next
  case True
  then obtain buf where buf: "modpow key (take 128 signature) = Some buf" "length buf = 128"
    "be_val buf = be_val (take 128 signature) ^ nat (exponent key) mod val (key_n key)"
    using modpow_val [OF assms(1), of "take 128 signature"] assms(2) by auto
  have h: "length (take 20 hash) = 20" using True assms(3) by simp
  have "buf = encoded_hash (take 20 hash) \<longleftrightarrow> be_val buf = be_val (encoded_hash (take 20 hash))"
    using buf(2) h by (intro be_val_inj [symmetric]) (simp add: encoded_hash_def)
  then show ?thesis
    using True assms(1) buf padding_split [OF buf(2) h]
    by (auto simp: RSA_verify_def key_ok_def RSANUMWORDS_def RSANUMBYTES_def)
qed

text \<open>C26: The signature check decides textbook RSA: for a well-formed key, \<open>RSA_verify\<close> accepts exactly
  when the lengths and the exponent are the supported ones and the signature, read as a big-endian
  number and raised to the public exponent modulo the key's modulus, is the padded hash. In
  particular the Montgomery arithmetic on 32-bit words, with its lazy subtractions, never loses a
  carry.\<close>

theorem rsa_verify_correct:
  assumes "key_ok key" and "len \<le> length signature" and "hash_len \<le> length hash"
  shows "RSA_verify key signature len hash hash_len =
    Some (len = 128 \<and> hash_len = 20 \<and> (exponent key = 3 \<or> exponent key = 65537) \<and>
      be_val (take len signature) ^ nat (exponent key) mod val (key_n key) = be_val (encoded_hash (take hash_len hash)))"
  using assms by (rule RSA_verify_iff)

definition demo_key :: RSAPublicKey where
  "demo_key = \<lparr>key_len = 32, n0inv = 0x3fcd5173,
   key_n =
     [0x303fc445, 0xdef5734d, 0xb84f4548, 0x34252857, 0x3772354c, 0xe4f2b5b1, 0x22d78d23, 0x8ef2166,
     0xd2c20cb4, 0xfc2ab44e, 0x3a023366, 0xf9854e33, 0x5c9afdc2, 0xdbb5faed, 0x66ba11df, 0x6c261247,
     0x64cdff48, 0xecf32820, 0x76e9bbf7, 0x3a0ccab3, 0x3e1dd0f0, 0x16b9, 0x0, 0x0, 0x0, 0x0, 0x0, 0x0,
     0x0, 0x0, 0x0, 0xbffe0000],
   rr =
     [0x620530a5, 0x33e7f708, 0x72fe6180, 0xf2579fb1, 0x1ed5882, 0x26af844a, 0xbb0400d0, 0x5cad966f,
     0xe1dd87ee, 0xa631b9e4, 0x89d11234, 0x7de332a3, 0x322005f2, 0x6d9da9c6, 0xe54705da, 0xd57d1da3,
     0x3d200835, 0x7358faa3, 0xdc68fc03, 0xb89dcb0a, 0x83552d21, 0x4d31ab3b, 0x6dc0cdaf, 0x7e566260,
     0x48388f77, 0xa08e6355, 0x48a057da, 0xcb56dca8, 0x5d855b3b, 0xdcdc763a, 0x9ddebdbf, 0xa57b2845],
   exponent = 3\<rparr>"

definition demo_hash :: "u8 list" where
  "demo_hash =
     [0xf9, 0x1a, 0x8e, 0xe6, 0x46, 0xa2, 0x77, 0xa2, 0xf1, 0x35, 0x97, 0x9, 0x60, 0x4b, 0x99, 0xc1,
     0xb3, 0x2d, 0x9f, 0x24]"

definition demo_signature :: "u8 list" where
  "demo_signature = replicate 85 0 @
     [0x24, 0xa1, 0x7f, 0xc3, 0x61, 0x5, 0xe9, 0xf3, 0x71, 0xa9, 0x9d, 0xb, 0x94, 0xff, 0x9e, 0xd0, 0xc4,
     0x98, 0xfa, 0x39, 0x3, 0xf5, 0xb9, 0x28, 0x87, 0x89, 0x24, 0xff, 0xd, 0x1e, 0xff, 0xa8, 0x74, 0xf4,
     0xe1, 0xc4, 0x8b, 0xd0, 0x1a, 0x16, 0x7d, 0x30, 0x39]"

lemma demo_key_ok: "key_ok demo_key"
proof -
  have "val (rr demo_key) - radix 32 * radix 32 = - (239702171487968942683515249203559562446363660817829101832584207502607703796323725734795173342854532668772464037516803229236510787351804383791185931719828363080428387871236474270517500472904184917291418994596383874472199127004238858618479627057522282426512435833904804094830282908865361731312922709885670002463) * val (key_n demo_key)"
    by (simp add: demo_key_def radix_def)
  then have "(val (rr demo_key) - radix 32 * radix 32) mod val (key_n demo_key) = 0" by (simp only: mod_mult_self2_is_0)
  moreover have "key_len demo_key = 32" "length (key_n demo_key) = 32" "length (rr demo_key) = 32"
    "(uint (hd (key_n demo_key)) * uint (n0inv demo_key) + 1) mod 2 ^ 32 = 0"
    by (simp_all add: demo_key_def)
  moreover have "radix 32 < 2 * val (key_n demo_key)" by (simp add: demo_key_def radix_def)
  ultimately show ?thesis unfolding key_ok_def by blast
qed

lemma be_val_padding [simp]: "be_val (replicate n 0) = 0" "be_val (replicate n 0xff) = 256 ^ n - 1"
  by (induction n) simp_all

theorem rsa_verify_correct_witness:
  "RSA_verify demo_key demo_signature 128 demo_hash 20 = Some True"
proof -
  have l: "128 \<le> length demo_signature" "20 \<le> length demo_hash" by (simp_all add: demo_signature_def demo_hash_def)
  have "take 128 demo_signature = demo_signature" "take 20 demo_hash = demo_hash" by (simp_all add: demo_signature_def demo_hash_def)
  moreover have "be_val demo_signature ^ 3 mod val (key_n demo_key) = be_val (encoded_hash demo_hash)"
  proof -
    define N where "N = val (key_n demo_key)"
    have "be_val demo_signature ^ 3 = be_val (encoded_hash demo_hash) + N"
      unfolding N_def demo_signature_def demo_key_def encoded_hash_def be_val_append be_val_padding
      by (simp add: demo_hash_def)
    moreover have "0 \<le> be_val (encoded_hash demo_hash)" "be_val (encoded_hash demo_hash) < N"
      unfolding N_def demo_key_def encoded_hash_def be_val_append be_val_padding
      by (simp_all add: demo_hash_def)
    ultimately show ?thesis unfolding N_def [symmetric] by simp
  qed
  moreover have "exponent demo_key = 3" by (simp add: demo_key_def)
  ultimately show ?thesis using rsa_verify_correct [OF demo_key_ok l] by simp
qed

end
