(* ===== verification/Bootstub.thy ===== *)
theory Bootstub
  imports Panda_Control Sha1 Rsa
begin

text \<open>
  The boot stub (\<^verbatim>\<open>firmware/board/bootstub.c\<close>, \<^verbatim>\<open>early_init.h\<close>): what runs after a reset. It either
  enters the boot loader of the chip, or stays in the flasher, or jumps to the application - which
  it does only for an image whose length, version tag and signature are right. Memory is a function
  from addresses to bytes; the keys, which the build generates, and what the stack held before
  are parameters.
\<close>

unbundle bit_operations_syntax

subsection \<open>After a reset\<close>

definition BOOT_NORMAL :: u32 where "BOOT_NORMAL = 0xdeadb111"

datatype early = Early_Reset u32 | Early_Bootloader | Early_Continue u32

text \<open>\<open>early_initialization idcode mcu_id mode\<close>: the argument \<open>mode\<close> is the variable \<open>enter_bootloader_mode\<close>,
  which survives a reset and has any value after power-on; \<open>idcode\<close> is the identity register of the
  chip and \<open>mcu_id\<close> the constant of the build.\<close>

definition early_initialization :: "u32 \<Rightarrow> u32 \<Rightarrow> u32 \<Rightarrow> early" where
  "early_initialization idcode mcu_id mode =
     (if mode \<noteq> BOOT_NORMAL \<and> mode \<noteq> ENTER_BOOTLOADER_MAGIC \<and> mode \<noteq> ENTER_SOFTLOADER_MAGIC then Early_Reset BOOT_NORMAL
      else
        let mode = (if idcode AND 0xFFF \<noteq> mcu_id then ENTER_BOOTLOADER_MAGIC else mode)
        in if mode = ENTER_BOOTLOADER_MAGIC then Early_Bootloader else Early_Continue mode)"

subsection \<open>The choice of what to run\<close>

definition APP_START_ADDRESS :: u32 where "APP_START_ADDRESS = 0x8004000"
definition VERS_TAG :: u32 where "VERS_TAG = 0x53524556"
definition MIN_VERSION :: u32 where "MIN_VERSION = 2"

type_synonym flash_mem = "u32 \<Rightarrow> u8"

definition bytes_at :: "flash_mem \<Rightarrow> u32 \<Rightarrow> nat \<Rightarrow> u8 list" where
  "bytes_at mem a n = map (\<lambda>i. mem (a + of_nat i)) [0..<n]"

definition load_word :: "flash_mem \<Rightarrow> u32 \<Rightarrow> u32" where
  "load_word mem a = ucast (mem a) OR push_bit 8 (ucast (mem (a + 1))) OR
     push_bit 16 (ucast (mem (a + 2))) OR push_bit 24 (ucast (mem (a + 3)))"

record boot_build =
  release_rsa_key :: RSAPublicKey
  debug_rsa_key :: RSAPublicKey
  allow_debug :: bool
  mcu_idcode :: u32

datatype boot = Jump_App u32 | Soft_Flasher | Chip_Bootloader | Null_Read

text \<open>\<open>bootstub_main\<close> is \<open>main\<close> from the test for the flasher on; \<open>Null_Read\<close> is a signature check that
  would read through a null pointer.\<close>

definition verify_image :: "RSAPublicKey \<Rightarrow> flash_mem \<Rightarrow> u32 \<Rightarrow> u8 list \<Rightarrow> bool option" where
  "verify_image key mem len digest =
     RSA_verify key (bytes_at mem (APP_START_ADDRESS + len) RSANUMBYTES) RSANUMBYTES digest SHA_DIGEST_SIZE"

definition bootstub_main :: "boot_build \<Rightarrow> HASH_CTX \<Rightarrow> flash_mem \<Rightarrow> u32 \<Rightarrow> boot" where
  "bootstub_main build stack mem mode =
     (if mode = ENTER_SOFTLOADER_MAGIC then Soft_Flasher
      else
        let len = load_word mem APP_START_ADDRESS
        in if sint len < 8 \<or> sint len > 0x1000000 - 0x4000 - 4 - int RSANUMBYTES then Soft_Flasher
        else
          let digest = SHA_hash stack (bytes_at mem (APP_START_ADDRESS + 4) (unat len - 4));
              vers0 = load_word mem (APP_START_ADDRESS + len - 8);
              vers1 = load_word mem (APP_START_ADDRESS + len - 4)
          in if vers0 \<noteq> VERS_TAG \<or> vers1 < MIN_VERSION then Soft_Flasher
          else case verify_image (release_rsa_key build) mem len digest of
            None \<Rightarrow> Null_Read
          | Some True \<Rightarrow> Jump_App (load_word mem (APP_START_ADDRESS + 4))
          | Some False \<Rightarrow>
              (if allow_debug build then
                 case verify_image (debug_rsa_key build) mem len digest of
                   None \<Rightarrow> Null_Read
                 | Some True \<Rightarrow> Jump_App (load_word mem (APP_START_ADDRESS + 4))
                 | Some False \<Rightarrow> Soft_Flasher
               else Soft_Flasher))"

text \<open>A reset, and the resets that follow until something runs.\<close>

function boot_from_reset :: "boot_build \<Rightarrow> HASH_CTX \<Rightarrow> u32 \<Rightarrow> flash_mem \<Rightarrow> u32 \<Rightarrow> boot" where
  "boot_from_reset build stack idcode mem mode =
     (case early_initialization idcode (mcu_idcode build) mode of
        Early_Reset mode \<Rightarrow> boot_from_reset build stack idcode mem mode
      | Early_Bootloader \<Rightarrow> Chip_Bootloader
      | Early_Continue mode \<Rightarrow> bootstub_main build stack mem mode)"
  by pat_completeness auto

termination
  by (relation "measure (\<lambda>(_, _, _, _, mode). if mode = BOOT_NORMAL then 0 else 1)")
    (auto simp: early_initialization_def Let_def split: if_splits)

declare boot_from_reset.simps [simp del]

subsection \<open>What a signed image is\<close>

text \<open>The specification: plain arithmetic, and the hash of the standard.\<close>

definition rsa_signed :: "RSAPublicKey \<Rightarrow> u8 list \<Rightarrow> u8 list \<Rightarrow> bool" where
  "rsa_signed key message signature \<longleftrightarrow>
     be_val signature ^ nat (exponent key) mod val (key_n key) = be_val (encoded_hash (sha1 message))"

definition image_signed :: "boot_build \<Rightarrow> flash_mem \<Rightarrow> bool" where
  "image_signed build mem \<longleftrightarrow>
     (let len = load_word mem APP_START_ADDRESS;
          message = bytes_at mem (APP_START_ADDRESS + 4) (unat len - 4);
          signature = bytes_at mem (APP_START_ADDRESS + len) 128
      in 8 \<le> sint len \<and> sint len \<le> 16760700 \<and>
         load_word mem (APP_START_ADDRESS + len - 8) = VERS_TAG \<and>
         MIN_VERSION \<le> load_word mem (APP_START_ADDRESS + len - 4) \<and>
         (rsa_signed (release_rsa_key build) message signature \<or>
          allow_debug build \<and> rsa_signed (debug_rsa_key build) message signature))"

definition build_ok :: "boot_build \<Rightarrow> bool" where
  "build_ok build \<longleftrightarrow> (\<forall>key \<in> {release_rsa_key build, debug_rsa_key build}.
     key_ok key \<and> (exponent key = 3 \<or> exponent key = 65537))"

definition stack_ok :: "HASH_CTX \<Rightarrow> bool" where
  "stack_ok stack \<longleftrightarrow> length (hash_buf stack) = 64 \<and> length (hash_state stack) = 8"

lemma length_bytes_at [simp]: "length (bytes_at mem a n) = n"
  by (simp add: bytes_at_def)

lemma verify_image_iff:
  assumes "key_ok key" "exponent key = 3 \<or> exponent key = 65537" and "stack_ok stack"
  shows "verify_image key mem len (SHA_hash stack message) =
    Some (rsa_signed key message (bytes_at mem (APP_START_ADDRESS + len) 128))"
proof -
  have h: "SHA_hash stack message = sha1 message" using assms(3) by (intro SHA_hash_sha1) (simp_all add: stack_ok_def)
  have l: "length (sha1 message) = 20" by (simp add: sha1_def digest_length)
  have "verify_image key mem len (sha1 message) =
      Some ((exponent key = 3 \<or> exponent key = 65537) \<and> rsa_signed key message (bytes_at mem (APP_START_ADDRESS + len) 128))"
    using RSA_verify_iff [OF assms(1), of 128 "bytes_at mem (APP_START_ADDRESS + len) 128" 20 "sha1 message"] l
    by (simp add: verify_image_def RSANUMBYTES_def SHA_DIGEST_SIZE_def rsa_signed_def)
  then show ?thesis using assms(2) h by simp
qed

lemma bootstub_main_iff:
  assumes "build_ok build" and "stack_ok stack"
  shows "bootstub_main build stack mem mode =
    (if mode \<noteq> ENTER_SOFTLOADER_MAGIC \<and> image_signed build mem
     then Jump_App (load_word mem (APP_START_ADDRESS + 4)) else Soft_Flasher)"
proof -
  have r: "key_ok (release_rsa_key build)" "exponent (release_rsa_key build) = 3 \<or> exponent (release_rsa_key build) = 65537"
    and d: "key_ok (debug_rsa_key build)" "exponent (debug_rsa_key build) = 3 \<or> exponent (debug_rsa_key build) = 65537"
    using assms(1) by (auto simp: build_ok_def)
  show ?thesis
    unfolding bootstub_main_def image_signed_def Let_def verify_image_iff [OF r assms(2)] verify_image_iff [OF d assms(2)]
    by (auto simp: RSANUMBYTES_def not_less not_le split: bool.splits)
qed



text \<open>A flash that holds an image of eight bytes signed with the key of the signature check's example.\<close>

definition demo_build :: boot_build where
  "demo_build = \<lparr>release_rsa_key = demo_key, debug_rsa_key = demo_key, allow_debug = False, mcu_idcode = 0x463\<rparr>"

definition blank_stack :: HASH_CTX where
  "blank_stack = \<lparr>hash_count = 7, hash_buf = replicate 64 1, hash_state = replicate 8 2\<rparr>"


subsection \<open>The flasher\<close>

text \<open>
  \<^verbatim>\<open>firmware/board/flasher.h\<close> and \<^verbatim>\<open>stm32f4/llflash.h\<close>. The flash controller is a parameter: three
  operations on a device state of type \<open>'d\<close>, and what it documents of them is \<open>flash_laws\<close>. The \<open>while\<close>
  loops on its busy flag end when its operation does, inside one step.
\<close>

record 'd flash_hw =
  flash_locked :: "'d \<Rightarrow> bool"            \<comment> \<open>\<open>FLASH_CR_LOCK\<close>\<close>
  flash_keys :: "'d \<Rightarrow> 'd"               \<comment> \<open>the two writes to \<open>FLASH->KEYR\<close>\<close>
  sector_erase :: "u8 \<Rightarrow> 'd \<Rightarrow> 'd"        \<comment> \<open>\<open>SER\<close> and \<open>STRT\<close> with a sector number\<close>
  word_program :: "u32 \<Rightarrow> u32 \<Rightarrow> 'd \<Rightarrow> 'd" \<comment> \<open>a store with \<open>PG\<close> set\<close>
  flash_byte :: "'d \<Rightarrow> flash_mem"

record 'd flasher_state =
  prog_ptr :: u32
  flash_is_unlocked :: bool              \<comment> \<open>\<open>unlocked\<close>\<close>
  flash_dev :: 'd
  loader_mode :: u32                     \<comment> \<open>\<open>enter_bootloader_mode\<close>\<close>

record flasher_env =
  env_hw_type :: u8
  env_uid :: "u8 list"
  env_serial :: "u8 list"
  env_provision :: "u8 list"
  env_version :: "u8 list"

definition flasher_init :: "'d \<Rightarrow> 'd flasher_state" where
  "flasher_init d = \<lparr>prog_ptr = 0, flash_is_unlocked = False, flash_dev = d, loader_mode = 0\<rparr>"

definition flash_erase_sector :: "'d flash_hw \<Rightarrow> u8 \<Rightarrow> 'd flasher_state \<Rightarrow> bool \<times> 'd flasher_state" where
  "flash_erase_sector H sector st =
     (if sector \<noteq> 0 \<and> sector < 12 \<and> flash_is_unlocked st
      then (True, st\<lparr>flash_dev := sector_erase H sector (flash_dev st)\<rparr>) else (False, st))"

definition flash_write_word :: "'d flash_hw \<Rightarrow> u32 \<Rightarrow> u32 \<Rightarrow> 'd flasher_state \<Rightarrow> 'd flasher_state" where
  "flash_write_word H pp w st = st\<lparr>flash_dev := word_program H pp w (flash_dev st)\<rparr>"

text \<open>The twelve bytes every answer starts from.\<close>

definition flasher_header :: "u8 \<Rightarrow> u32 \<Rightarrow> u8 list" where
  "flasher_header req p = [0xff, 0, req, NOT req, 0xde, 0xad, 0xd0, 0x0d,
     ucast p, ucast (drop_bit 8 p), ucast (drop_bit 16 p), ucast (drop_bit 24 p)]"

definition acked :: "u8 list \<Rightarrow> u8 list" where
  "acked resp = resp[1 := 0xff]"

text \<open>An answer and the next state, or a reset with the mode variable it leaves.\<close>

datatype 'd flasher_outcome = Answered "u8 list" "'d flasher_state" | Restarted "'d flasher_state"

definition flasher_control :: "'d flash_hw \<Rightarrow> flasher_env \<Rightarrow> ControlPacket_t \<Rightarrow> 'd flasher_state \<Rightarrow> 'd flasher_outcome" where
  "flasher_control H env req st =
     (let r = request req; resp = flasher_header r (prog_ptr st)
      in if r = 0xb0 then Answered (acked resp) st
      else if r = 0xb1 then
        let locked = flash_locked H (flash_dev st);
            st = (if locked then st\<lparr>flash_dev := flash_keys H (flash_dev st)\<rparr> else st)
        in Answered (if locked then acked resp else resp) (st\<lparr>flash_is_unlocked := True, prog_ptr := APP_START_ADDRESS\<rparr>)
      else if r = 0xb2 then
        let (erased, st) = flash_erase_sector H (ucast (param1 req)) st
        in Answered (if erased then acked resp else resp) st
      else if r = 0xc1 then Answered [env_hw_type env] st
      else if r = 0xc3 then Answered (take 12 (env_uid env)) st
      else if r = 0xd0 then
        Answered (if param1 req = 1 then take 16 (env_serial env) else get_provision_chunk (env_provision env)) st
      else if r = 0xd1 then
        (if param1 req = 0 then Restarted (st\<lparr>loader_mode := ENTER_BOOTLOADER_MAGIC\<rparr>)
         else if param1 req = 1 then Restarted (st\<lparr>loader_mode := ENTER_SOFTLOADER_MAGIC\<rparr>)
         else Answered resp st)
      else if r = 0xd6 then Answered (env_version env) st
      else if r = 0xd8 then Restarted st
      else Answered resp st)"

definition flasher_endpoint2_write :: "'d flash_hw \<Rightarrow> u8 list \<Rightarrow> 'd flasher_state \<Rightarrow> 'd flasher_state" where
  "flasher_endpoint2_write H bs st =
     fold (\<lambda>i st. let word = ucast (bs ! (4 * i)) OR push_bit 8 (ucast (bs ! (4 * i + 1))) OR
                        push_bit 16 (ucast (bs ! (4 * i + 2))) OR push_bit 24 (ucast (bs ! (4 * i + 3)));
                      st = flash_write_word H (prog_ptr st) word st
                  in st\<lparr>prog_ptr := prog_ptr st + 4\<rparr>) [0..<length bs div 4] st"

text \<open>One run of the flasher, up to the reset that ends it, if one does.\<close>

datatype flasher_msg = Msg_Control ControlPacket_t | Msg_Endpoint2 "u8 list"

fun flasher_run :: "'d flash_hw \<Rightarrow> flasher_env \<Rightarrow> flasher_msg list \<Rightarrow> 'd flasher_state \<Rightarrow> 'd flasher_state" where
  "flasher_run H env [] st = st"
| "flasher_run H env (Msg_Control req # ms) st =
     (case flasher_control H env req st of Answered resp st \<Rightarrow> flasher_run H env ms st | Restarted st \<Rightarrow> st)"
| "flasher_run H env (Msg_Endpoint2 bs # ms) st = flasher_run H env ms (flasher_endpoint2_write H bs st)"

subsection \<open>The flasher leaves the boot stub alone\<close>

text \<open>What the controller documents: a locked controller programs nothing; programming a word at or
  above the application touches nothing below it; erasing a sector other than the first leaves the first.\<close>

definition stub_bytes :: "'d flash_hw \<Rightarrow> 'd \<Rightarrow> u8 list" where
  "stub_bytes H d = map (flash_byte H d) (map (\<lambda>i. 0x8000000 + of_nat i) [0..<0x4000])"

definition flash_laws :: "'d flash_hw \<Rightarrow> bool" where
  "flash_laws H \<longleftrightarrow>
     (\<forall>d. stub_bytes H (flash_keys H d) = stub_bytes H d) \<and>
     (\<forall>d sector. sector \<noteq> 0 \<and> sector < 12 \<longrightarrow>
        stub_bytes H (sector_erase H sector d) = stub_bytes H d) \<and>
     (\<forall>d a w. flash_locked H d \<or> APP_START_ADDRESS \<le> a \<longrightarrow>
        stub_bytes H (word_program H a w d) = stub_bytes H d \<and> flash_locked H (word_program H a w d) = flash_locked H d)"

fun words_sent :: "flasher_msg \<Rightarrow> nat" where
  "words_sent (Msg_Control req) = 0"
| "words_sent (Msg_Endpoint2 bs) = length bs div 4"

text \<open>The invariant: the pointer is in the application area unless the controller is locked.\<close>

definition flasher_inv :: "'d flash_hw \<Rightarrow> u8 list \<Rightarrow> nat \<Rightarrow> 'd flasher_state \<Rightarrow> bool" where
  "flasher_inv H stub n st \<longleftrightarrow> stub_bytes H (flash_dev st) = stub \<and>
     (flash_locked H (flash_dev st) \<and> \<not> flash_is_unlocked st \<or>
      APP_START_ADDRESS \<le> prog_ptr st \<and> unat (prog_ptr st) \<le> 0x8004000 + 4 * n)"


lemma flasher_control_inv:
  assumes L: "flash_laws H" and "flasher_inv H stub n st"
  shows "case flasher_control H env req st of Answered resp st \<Rightarrow> flasher_inv H stub n st | Restarted st \<Rightarrow> stub_bytes H (flash_dev st) = stub"
proof -
  have keys: "stub_bytes H (flash_keys H d) = stub_bytes H d" for d using L by (simp add: flash_laws_def)
  have erase: "flasher_inv H stub n (snd (flash_erase_sector H sector st))" for sector
    using L assms(2) by (auto simp: flash_erase_sector_def flasher_inv_def flash_laws_def)
  have unlock: "flasher_inv H stub n (st'\<lparr>flash_is_unlocked := True, prog_ptr := APP_START_ADDRESS\<rparr>)"
    if "stub_bytes H (flash_dev st') = stub" for st'
    using that by (simp add: flasher_inv_def APP_START_ADDRESS_def)
  have stub: "stub_bytes H (flash_dev st) = stub" using assms(2) by (simp add: flasher_inv_def)
  show ?thesis
    using assms(2) erase [of "ucast (param1 req)"] erase [of 0] erase [of 1] keys stub
    by (simp add: flasher_control_def Let_def unlock split_beta)
qed

lemma flasher_write_inv:
  assumes L: "flash_laws H" and "flasher_inv H stub n st" and "0x8004000 + 4 * n + 4 < 2 ^ 32"
  shows "flasher_inv H stub (Suc n) (flash_write_word H (prog_ptr st) w st\<lparr>prog_ptr := prog_ptr st + 4\<rparr>)"
proof -
  have p: "stub_bytes H (word_program H (prog_ptr st) w (flash_dev st)) = stub"
    using L assms(2) by (auto simp: flasher_inv_def flash_laws_def)
  have "unat (prog_ptr st + 4) = unat (prog_ptr st) + 4 \<and> APP_START_ADDRESS \<le> prog_ptr st + 4"
    if "APP_START_ADDRESS \<le> prog_ptr st" "unat (prog_ptr st) \<le> 0x8004000 + 4 * n"
  proof -
    have u: "unat (prog_ptr st + 4) = unat (prog_ptr st) + 4"
      using that(2) assms(3) by (simp add: unat_plus_if')
    then show ?thesis using that by (simp add: word_le_nat_alt)
  qed
  moreover have "flash_locked H (word_program H (prog_ptr st) w (flash_dev st))" if "flash_locked H (flash_dev st)"
    using L that unfolding flash_laws_def by blast
  ultimately show ?thesis
    using p assms(2) unfolding flasher_inv_def flash_write_word_def by fastforce
qed

lemma flasher_endpoint2_inv:
  assumes L: "flash_laws H" and "flasher_inv H stub n st" and "0x8004000 + 4 * (n + length bs div 4) < 2 ^ 32"
  shows "flasher_inv H stub (n + length bs div 4) (flasher_endpoint2_write H bs st)"
proof -
  define word where "word = (\<lambda>i. ucast (bs ! (4 * i)) OR push_bit 8 (ucast (bs ! (4 * i + 1))) OR
    push_bit 16 (ucast (bs ! (4 * i + 2))) OR push_bit 24 (ucast (bs ! (4 * i + 3))) :: u32)"
  define step where "step = (\<lambda>i st. (flash_write_word H (prog_ptr st) (word i) st)\<lparr>prog_ptr := prog_ptr st + 4\<rparr>)"
  have "flasher_inv H stub (n + length is) (fold step is st)" if "0x8004000 + 4 * (n + length is) < 2 ^ 32" for "is"
    using that
  proof (induction "is" rule: rev_induct)
    case (snoc i "is")
    then have "flasher_inv H stub (n + length is) (fold step is st)" by simp
    from flasher_write_inv [OF L this, of "word i"] show ?case using snoc.prems by (simp add: step_def)
  qed (simp add: assms(2))
  from this [of "[0..<length bs div 4]"] show ?thesis
    using assms(3) by (simp add: flasher_endpoint2_write_def Let_def step_def word_def flash_write_word_def)
qed

lemma flasher_run_stub:
  assumes L: "flash_laws H"
  shows "flasher_inv H stub n st \<Longrightarrow> 0x8004000 + 4 * (n + sum_list (map words_sent ms)) < 2 ^ 32 \<Longrightarrow>
    stub_bytes H (flash_dev (flasher_run H env ms st)) = stub"
proof (induction ms arbitrary: n st)
  case Nil
  then show ?case by (simp add: flasher_inv_def)
next
  case (Cons m ms)
  show ?case
  proof (cases m)
    case (Msg_Control req)
    then show ?thesis
      using Cons flasher_control_inv [OF L Cons.prems(1), of env req]
      by (simp split: flasher_outcome.splits)
  next
    case (Msg_Endpoint2 bs)
    have "flasher_inv H stub (n + length bs div 4) (flasher_endpoint2_write H bs st)"
      using Cons.prems Msg_Endpoint2 by (intro flasher_endpoint2_inv [OF L]) simp_all
    from Cons.IH [OF this] show ?thesis using Cons.prems(2) Msg_Endpoint2 by (simp add: add.assoc)
  qed
qed

text \<open>C25: The boot stub survives its flasher: however the host drives it - unlocking, erasing, writing,
  in any order and as often as it likes, up to the billion words it takes the write pointer to wrap -
  no byte of the first sector, where the boot stub and its keys are, changes. (Bits 0 to 15 of the
  sector number are cut to eight before the check, which is harmless.)\<close>

theorem flasher_keeps_bootstub:
  assumes "flash_laws H" and "flash_locked H d"
    and "sum_list (map words_sent ms) \<le> 1000000000"
  shows "stub_bytes H (flash_dev (flasher_run H env ms (flasher_init d))) = stub_bytes H d"
proof (rule flasher_run_stub [OF assms(1)])
  show "flasher_inv H (stub_bytes H d) 0 (flasher_init d)"
    using assms(2) by (simp add: flasher_inv_def flasher_init_def)
  show "0x8004000 + 4 * (0 + sum_list (map words_sent ms)) < 2 ^ 32" using assms(3) by simp
qed


text \<open>The controller of the F4 parts: sectors of 16, 64 and 128 kilobytes; programming only clears bits.\<close>

record f4_flash =
  f4_locked :: bool
  f4_mem :: flash_mem

definition f4_sector :: "u32 \<Rightarrow> u8" where
  "f4_sector a = (if a < 0x8004000 then 0 else if a < 0x8008000 then 1 else if a < 0x800C000 then 2
     else if a < 0x8010000 then 3 else if a < 0x8020000 then 4 else ucast (drop_bit 17 (a - 0x8020000)) + 5)"

definition f4_flash_hw :: "f4_flash flash_hw" where
  "f4_flash_hw = \<lparr>flash_locked = f4_locked, flash_keys = (\<lambda>d. d\<lparr>f4_locked := False\<rparr>),
     sector_erase = (\<lambda>s d. if f4_locked d then d
       else d\<lparr>f4_mem := (\<lambda>a. if 0x8000000 \<le> a \<and> f4_sector a = s then 0xff else f4_mem d a)\<rparr>),
     word_program = (\<lambda>p w d. if f4_locked d then d
       else d\<lparr>f4_mem := (\<lambda>a. if a - p < 4 then f4_mem d a AND ucast (drop_bit (8 * unat (a - p)) w) else f4_mem d a)\<rparr>),
     flash_byte = f4_mem\<rparr>"

lemma stub_bytes_eqI:
  "(\<And>a. 0x8000000 \<le> a \<Longrightarrow> a < 0x8004000 \<Longrightarrow> flash_byte H d a = flash_byte H d' a) \<Longrightarrow> stub_bytes H d = stub_bytes H d'"
proof (unfold stub_bytes_def, intro map_cong refl)
  fix a :: u32
  assume h: "\<And>a. 0x8000000 \<le> a \<Longrightarrow> a < 0x8004000 \<Longrightarrow> flash_byte H d a = flash_byte H d' a"
    and "a \<in> set (map (\<lambda>i. 0x8000000 + of_nat i) [0..<0x4000])"
  then obtain i where i: "i < 0x4000" "a = 0x8000000 + of_nat i" by auto
  have "unat (of_nat i :: u32) = i" using i(1) by (simp add: unat_of_nat)
  then have "unat a = 0x8000000 + i" using i by (simp add: unat_plus_if')
  then show "flash_byte H d a = flash_byte H d' a" using i(1) by (intro h) (simp_all add: word_le_nat_alt word_less_nat_alt)
qed

lemma f4_flash_laws: "flash_laws f4_flash_hw"
proof -
  have prog: "\<not> a - p < 4" if "0x8000000 \<le> a" "a < 0x8004000" "0x8004000 \<le> p" for a p :: u32
    using that unsigned_less [of p, where 'a = nat] by (simp add: word_le_nat_alt word_less_nat_alt unat_sub_if')
  show ?thesis
    unfolding flash_laws_def
  proof (intro conjI allI impI)
    fix d :: f4_flash and sector a w
    show "stub_bytes f4_flash_hw (flash_keys f4_flash_hw d) = stub_bytes f4_flash_hw d"
      by (rule stub_bytes_eqI) (simp add: f4_flash_hw_def)
    show "stub_bytes f4_flash_hw (sector_erase f4_flash_hw sector d) = stub_bytes f4_flash_hw d" if "sector \<noteq> 0 \<and> sector < 12"
      using that by (intro stub_bytes_eqI) (simp add: f4_flash_hw_def f4_sector_def)
    show "stub_bytes f4_flash_hw (word_program f4_flash_hw a w d) = stub_bytes f4_flash_hw d"
      if "flash_locked f4_flash_hw d \<or> APP_START_ADDRESS \<le> a"
      using that prog by (intro stub_bytes_eqI) (auto simp: f4_flash_hw_def APP_START_ADDRESS_def)
    show "flash_locked f4_flash_hw (word_program f4_flash_hw a w d) = flash_locked f4_flash_hw d"
      by (simp add: f4_flash_hw_def)
  qed
qed

definition reflash :: "flasher_msg list" where
  "reflash =
     [Msg_Endpoint2 [1, 2, 3, 4],
      Msg_Control \<lparr>request = 0xb1, param1 = 0, param2 = 0, req_length = 0\<rparr>,
      Msg_Control \<lparr>request = 0xb2, param1 = 0x100, param2 = 0, req_length = 0\<rparr>,
      Msg_Control \<lparr>request = 0xb2, param1 = 1, param2 = 0, req_length = 0\<rparr>,
      Msg_Endpoint2 [0xde, 0xad, 0xbe, 0xef, 1, 2, 3, 4],
      Msg_Control \<lparr>request = 0xd8, param1 = 0, param2 = 0, req_length = 0\<rparr>]"

definition demo_env :: flasher_env where
  "demo_env = \<lparr>env_hw_type = 0, env_uid = replicate 12 0, env_serial = replicate 16 0,
     env_provision = replicate 32 0xff, env_version = [0x44]\<rparr>"

theorem flasher_keeps_bootstub_witness:
  "stub_bytes f4_flash_hw (flash_dev (flasher_run f4_flash_hw demo_env reflash (flasher_init \<lparr>f4_locked = True, f4_mem = (\<lambda>_. 0)\<rparr>))) =
   stub_bytes f4_flash_hw \<lparr>f4_locked = True, f4_mem = (\<lambda>_. 0)\<rparr>"
proof (rule flasher_keeps_bootstub [OF f4_flash_laws])
  show "flash_locked f4_flash_hw \<lparr>f4_locked = True, f4_mem = (\<lambda>_. 0)\<rparr>" by (simp add: f4_flash_hw_def)
  show "sum_list (map words_sent reflash) \<le> 1000000000" by (simp add: reflash_def)
qed

end
