(* ===== verification/Uart.thy ===== *)
theory Uart
  imports Can_Queue "HOL-Library.Monad_Syntax" "HOL-Library.Sublist" "HOL-Library.While_Combinator"
begin

text \<open>
  The byte rings of the serial ports (\<^verbatim>\<open>firmware/board/drivers/uart.h\<close>, \<^verbatim>\<open>stm32f4/lluart.h\<close>) and the
  host's write to them (\<^verbatim>\<open>comms_endpoint2_write\<close> in \<^verbatim>\<open>main_comms.h\<close>). The rings drop their oldest byte
  when they are full. Pointers are below the size of their array, which is at most \<open>FIFO_SIZE_INT\<close>,
  so the 16-bit sums never wrap. A critical section is one step.
\<close>

subsection \<open>The rings\<close>

text \<open>One direction of a port: \<open>w_ptr_tx\<close>, \<open>r_ptr_tx\<close>, \<open>tx_fifo_size\<close>, \<open>elems_tx\<close>, and the same for \<open>rx\<close>.\<close>

record byte_ring =
  bw_ptr :: nat
  br_ptr :: nat
  b_size :: nat
  b_elems :: "u8 list"

record uart_ring =
  ring_tx :: byte_ring
  ring_rx :: byte_ring
  ring_overwrite :: bool
  uart_dr :: "u8 list"     \<comment> \<open>what was written to the data register, latest last\<close>
  uart_txeie :: bool       \<comment> \<open>\<open>USART_CR1_TXEIE\<close>\<close>

definition FIFO_SIZE_INT :: nat where "FIFO_SIZE_INT = 0x400"

definition UART_BUFFER :: "nat \<Rightarrow> nat \<Rightarrow> bool \<Rightarrow> uart_ring" where
  "UART_BUFFER size_rx size_tx overwrite_mode =
     \<lparr>ring_tx = \<lparr>bw_ptr = 0, br_ptr = 0, b_size = size_tx, b_elems = replicate size_tx 0\<rparr>,
      ring_rx = \<lparr>bw_ptr = 0, br_ptr = 0, b_size = size_rx, b_elems = replicate size_rx 0\<rparr>,
      ring_overwrite = overwrite_mode, uart_dr = [], uart_txeie = False\<rparr>"

text \<open>The two ports; UART7 is not available on F4 parts and gets arrays of one byte.\<close>

record uart_rings =
  uart_ring_debug :: uart_ring
  uart_ring_som_debug :: uart_ring

definition uart_rings_init :: "bool \<Rightarrow> uart_rings" where
  "uart_rings_init h7 =
     \<lparr>uart_ring_debug = UART_BUFFER FIFO_SIZE_INT FIFO_SIZE_INT True,
      uart_ring_som_debug = (if h7 then UART_BUFFER FIFO_SIZE_INT FIFO_SIZE_INT True else UART_BUFFER 1 1 True)\<rparr>"

definition get_ring_by_number :: "int \<Rightarrow> uart_rings \<Rightarrow> uart_ring option" where
  "get_ring_by_number a rs =
     (if a = 0 then Some (uart_ring_debug rs) else if a = 4 then Some (uart_ring_som_debug rs) else None)"

definition get_char :: "uart_ring \<Rightarrow> u8 option \<times> uart_ring" where
  "get_char q =
     (let b = ring_rx q in
      if bw_ptr b \<noteq> br_ptr b
      then (Some (b_elems b ! br_ptr b), q\<lparr>ring_rx := b\<lparr>br_ptr := (br_ptr b + 1) mod b_size b\<rparr>\<rparr>)
      else (None, q))"

text \<open>The part \<open>injectc\<close> and \<open>put_char\<close> have in common.\<close>

definition byte_store :: "bool \<Rightarrow> byte_ring \<Rightarrow> u8 \<Rightarrow> bool \<times> byte_ring" where
  "byte_store overwrite b elem =
     (let next_w_ptr = (bw_ptr b + 1) mod b_size b;
          b = (if next_w_ptr = br_ptr b \<and> overwrite then b\<lparr>br_ptr := (br_ptr b + 1) mod b_size b\<rparr> else b)
      in if next_w_ptr \<noteq> br_ptr b
         then (True, b\<lparr>b_elems := (b_elems b)[bw_ptr b := elem], bw_ptr := next_w_ptr\<rparr>) else (False, b))"

definition injectc :: "uart_ring \<Rightarrow> u8 \<Rightarrow> bool \<times> uart_ring" where
  "injectc q elem = (let (ret, b) = byte_store (ring_overwrite q) (ring_rx q) elem in (ret, q\<lparr>ring_rx := b\<rparr>))"

text \<open>\<open>txe\<close>: the transmit register is empty.\<close>

definition uart_tx_ring :: "bool \<Rightarrow> uart_ring \<Rightarrow> uart_ring" where
  "uart_tx_ring txe q =
     (if bw_ptr (ring_tx q) \<noteq> br_ptr (ring_tx q) then
        let b = ring_tx q;
            q = (if txe then q\<lparr>uart_dr := uart_dr q @ [b_elems b ! br_ptr b],
                                ring_tx := b\<lparr>br_ptr := (br_ptr b + 1) mod b_size b\<rparr>\<rparr> else q)
        in q\<lparr>uart_txeie := (br_ptr (ring_tx q) \<noteq> bw_ptr (ring_tx q))\<rparr>
      else q)"

definition put_char :: "bool \<Rightarrow> uart_ring \<Rightarrow> u8 \<Rightarrow> bool \<times> uart_ring" where
  "put_char txe q elem =
     (let (ret, b) = byte_store (ring_overwrite q) (ring_tx q) elem
      in (ret, uart_tx_ring txe (q\<lparr>ring_tx := b\<rparr>)))"

subsection \<open>Debug output\<close>

definition putch :: "u8 \<Rightarrow> uart_rings \<Rightarrow> uart_rings" where
  "putch a rs = rs\<lparr>uart_ring_debug := snd (injectc (uart_ring_debug rs) a)\<rparr>"

definition print :: "u8 list \<Rightarrow> uart_rings \<Rightarrow> uart_rings" where
  "print cs = fold (\<lambda>c rs. putch c (if c = 10 then putch 13 rs else rs)) cs"

definition hex_digit :: "u32 \<Rightarrow> u8" where
  "hex_digit d = map (of_nat \<circ> of_char) ''0123456789abcdef'' ! unat d"

definition puthx :: "u32 \<Rightarrow> nat \<Rightarrow> uart_rings \<Rightarrow> uart_rings" where
  "puthx i len = fold (\<lambda>pos. putch (hex_digit (drop_bit pos i AND 0xF))) (map (\<lambda>k. 4 * k) (rev [0..<len]))"

definition puth :: "u32 \<Rightarrow> uart_rings \<Rightarrow> uart_rings" where
  "puth i = puthx i 8"

subsection \<open>The write of the host\<close>

text \<open>A loop that waits until the byte is in the ring; \<open>txe n\<close> is the state of the transmit register in
  its \<open>n\<close>th turn. \<open>None\<close>: it never ends.\<close>

definition put_wait :: "(nat \<Rightarrow> bool) \<Rightarrow> uart_ring \<Rightarrow> u8 \<Rightarrow> uart_ring option" where
  "put_wait txe q x =
     map_option (\<lambda>(ret, n, q). q)
       (while_option (\<lambda>(ret, n, q). \<not> ret) (\<lambda>(ret, n, q). let (ret, q) = put_char (txe n) q x in (ret, Suc n, q)) (False, 0, q))"

fun put_all :: "(nat \<Rightarrow> bool) list \<Rightarrow> u8 list \<Rightarrow> uart_ring \<Rightarrow> uart_ring option" where
  "put_all txes [] q = Some q"
| "put_all txes (x # xs) q = put_wait (case txes of [] \<Rightarrow> \<lambda>_. False | t # _ \<Rightarrow> t) q x \<bind> put_all (tl txes) xs"

text \<open>The first byte names the port; it is read even if nothing was sent. \<open>txes\<close>: one waiting loop each.\<close>

definition comms_endpoint2_write :: "(nat \<Rightarrow> bool) list \<Rightarrow> u8 \<Rightarrow> u8 list \<Rightarrow> uart_rings \<Rightarrow> uart_rings option" where
  "comms_endpoint2_write txes stale bytes rs =
     (let first = (case bytes of [] \<Rightarrow> stale | b # _ \<Rightarrow> b) in
      case get_ring_by_number (uint first) rs of
        None \<Rightarrow> Some rs
      | Some ur \<Rightarrow>
          if bytes \<noteq> [] \<and> (first < 2 \<or> first \<ge> 4) then
            map_option (\<lambda>ur. if uint first = 0 then rs\<lparr>uart_ring_debug := ur\<rparr> else rs\<lparr>uart_ring_som_debug := ur\<rparr>)
              (put_all txes (tl bytes) ur)
          else Some rs)"

subsection \<open>What a ring holds\<close>

definition byte_ok :: "byte_ring \<Rightarrow> bool" where
  "byte_ok b \<longleftrightarrow> bw_ptr b < b_size b \<and> br_ptr b < b_size b \<and> length (b_elems b) = b_size b"

definition byte_len :: "byte_ring \<Rightarrow> nat" where
  "byte_len b = (bw_ptr b + b_size b - br_ptr b) mod b_size b"

definition byte_list :: "byte_ring \<Rightarrow> u8 list" where
  "byte_list b = map (\<lambda>i. b_elems b ! ((br_ptr b + i) mod b_size b)) [0..<byte_len b]"

text \<open>The specification of a ring that overwrites: the last \<open>n\<close> elements of a list.\<close>

definition newest :: "nat \<Rightarrow> 'a list \<Rightarrow> 'a list" where
  "newest n xs = drop (length xs - n) xs"

lemma newest_newest [simp]: "newest n (newest n xs @ ys) = newest n (xs @ ys)"
  by (cases "length xs \<le> n") (auto simp: newest_def add.commute)

lemma byte_len_less: "byte_ok b \<Longrightarrow> byte_len b < b_size b"
  by (auto simp: byte_len_def byte_ok_def)

lemma byte_drop:
  assumes ok: "byte_ok b" and ne: "bw_ptr b \<noteq> br_ptr b"
  shows "byte_ok (b\<lparr>br_ptr := (br_ptr b + 1) mod b_size b\<rparr>)"
    and "byte_list b = b_elems b ! br_ptr b # byte_list (b\<lparr>br_ptr := (br_ptr b + 1) mod b_size b\<rparr>)"
proof -
  let ?n = "b_size b" and ?r = "br_ptr b" and ?w = "bw_ptr b"
  let ?b = "b\<lparr>br_ptr := (?r + 1) mod ?n\<rparr>"
  have rw: "?r < ?n" "?w < ?n" using ok by (simp_all add: byte_ok_def)
  show "byte_ok ?b" using ok by (simp add: byte_ok_def)
  have len: "byte_len b = Suc (byte_len ?b)"
    using mod_wrap(2,5) [OF rw] ne by (simp add: byte_len_def)
  have "(?r + Suc i) mod ?n = ((?r + 1) mod ?n + i) mod ?n" for i by (simp add: mod_simps)
  then show "byte_list b = b_elems b ! ?r # byte_list ?b"
    using len rw by (simp add: byte_list_def upt_conv_Cons map_Suc_upt [symmetric] comp_def del: upt_Suc)
qed

lemma byte_append:
  assumes ok: "byte_ok b" and room: "(bw_ptr b + 1) mod b_size b \<noteq> br_ptr b"
  shows "byte_ok (b\<lparr>b_elems := (b_elems b)[bw_ptr b := x], bw_ptr := (bw_ptr b + 1) mod b_size b\<rparr>)"
    and "byte_list (b\<lparr>b_elems := (b_elems b)[bw_ptr b := x], bw_ptr := (bw_ptr b + 1) mod b_size b\<rparr>) = byte_list b @ [x]"
proof -
  let ?n = "b_size b" and ?r = "br_ptr b" and ?w = "bw_ptr b"
  let ?b = "b\<lparr>b_elems := (b_elems b)[?w := x], bw_ptr := (?w + 1) mod ?n\<rparr>"
  have rw: "?r < ?n" "?w < ?n" "length (b_elems b) = ?n" using ok by (simp_all add: byte_ok_def)
  show "byte_ok ?b" using ok by (simp add: byte_ok_def)
  have short: "byte_len b < ?n - 1"
    using room mod_wrap(3,6) [OF rw(1,2)] by (fastforce simp: byte_len_def)
  have len: "byte_len ?b = Suc (byte_len b)"
    using mod_wrap(4) [OF rw(1,2)] short by (simp add: byte_len_def)
  have at: "(?r + byte_len b) mod ?n = ?w" using mod_wrap(1) [OF rw(1,2)] by (simp add: byte_len_def)
  have old: "(?r + i) mod ?n \<noteq> ?w" if i: "i < byte_len b" for i
  proof
    assume "(?r + i) mod ?n = ?w"
    then have "(?r + i) mod ?n = (?r + byte_len b) mod ?n" using at by simp
    moreover have "i < ?n" "byte_len b < ?n" using i short by simp_all
    ultimately show False using i rw(1)
      by (cases "?r + i < ?n"; cases "?r + byte_len b < ?n") (simp_all add: le_mod_geq)
  qed
  have "map (\<lambda>i. (b_elems b)[?w := x] ! ((?r + i) mod ?n)) [0..<byte_len b] = byte_list b"
    using old by (simp add: byte_list_def) (metis atLeastLessThan_iff nth_list_update_neq)
  moreover have "byte_list ?b = map (\<lambda>i. (b_elems b)[?w := x] ! ((?r + i) mod ?n)) [0..<Suc (byte_len b)]"
    by (simp only: byte_list_def len) simp
  ultimately show "byte_list ?b = byte_list b @ [x]" using at rw by simp
qed

lemma byte_full: "byte_ok b \<Longrightarrow> (bw_ptr b + 1) mod b_size b = br_ptr b \<longleftrightarrow> byte_len b = b_size b - 1"
  using mod_wrap(6) [of "br_ptr b" "b_size b" "bw_ptr b"] by (simp add: byte_len_def byte_ok_def)

text \<open>A ring of at least two bytes that overwrites takes every byte and keeps the newest.\<close>

lemma byte_store_newest:
  assumes ok: "byte_ok b" and two: "2 \<le> b_size b"
  shows "\<exists>b'. byte_store True b x = (True, b') \<and> byte_ok b' \<and> b_size b' = b_size b \<and>
    byte_list b' = newest (b_size b - 1) (byte_list b @ [x])"
proof (cases "(bw_ptr b + 1) mod b_size b = br_ptr b")
  case False
  have "length (byte_list b) < b_size b - 1"
    using byte_full [OF ok] byte_len_less [OF ok] False by (simp add: byte_list_def)
  then show ?thesis
    using byte_append [OF ok False, of x] False by (simp add: byte_store_def Let_def newest_def)
next
  case True
  let ?b = "b\<lparr>br_ptr := (br_ptr b + 1) mod b_size b\<rparr>"
  have len: "byte_len b = b_size b - 1" using byte_full [OF ok] True by simp
  then have ne: "bw_ptr b \<noteq> br_ptr b"
    using two mod_wrap(2) [of "br_ptr b" "b_size b" "bw_ptr b"] ok by (auto simp: byte_len_def byte_ok_def)
  note d = byte_drop [OF ok ne]
  have "(br_ptr b + 1) mod b_size b \<noteq> br_ptr b" using ok two by (auto simp: byte_ok_def mod_if)
  then have room: "(bw_ptr ?b + 1) mod b_size ?b \<noteq> br_ptr ?b" using True by simp
  have "length (byte_list b) = b_size b - 1" using len by (simp add: byte_list_def)
  then have "newest (b_size b - 1) (byte_list b @ [x]) = byte_list ?b @ [x]"
    unfolding d(2) newest_def using two by simp
  then show ?thesis
    using byte_append [OF d(1) room, of x] room True by (simp add: byte_store_def Let_def)
qed

text \<open>A ring of one byte takes none, in any mode.\<close>

lemma byte_store_one:
  assumes "byte_ok b" and "b_size b = 1"
  shows "byte_store overwrite b x = (False, b)"
proof -
  have "bw_ptr b = 0" "br_ptr b = 0" using assms by (simp_all add: byte_ok_def)
  then show ?thesis using assms by (cases b) (simp add: byte_store_def)
qed


subsection \<open>The write of the host, again\<close>

text \<open>What the port has handed out and what waits in its ring, together: nothing but the oldest
  waiting bytes is ever lost.\<close>

definition port_ok :: "uart_ring \<Rightarrow> bool" where
  "port_ok q \<longleftrightarrow> ring_overwrite q \<and> byte_ok (ring_tx q) \<and> b_size (ring_tx q) = FIFO_SIZE_INT"

lemma uart_tx_ring_ok:
  assumes "port_ok q"
  shows "port_ok (uart_tx_ring txe q) \<and>
    uart_dr (uart_tx_ring txe q) @ byte_list (ring_tx (uart_tx_ring txe q)) = uart_dr q @ byte_list (ring_tx q) \<and>
    uart_txeie (uart_tx_ring txe q) = (if byte_list (ring_tx q) = [] then uart_txeie q else byte_list (ring_tx (uart_tx_ring txe q)) \<noteq> [])"
proof -
  have emp: "byte_list b = [] \<longleftrightarrow> bw_ptr b = br_ptr b" if "byte_ok b" for b
    using mod_wrap(2) [of "br_ptr b" "b_size b" "bw_ptr b"] that
    by (auto simp: byte_list_def byte_len_def byte_ok_def)
  have ok: "byte_ok (ring_tx q)" using assms by (simp add: port_ok_def)
  show ?thesis
  proof (cases "bw_ptr (ring_tx q) = br_ptr (ring_tx q)")
    case True
    then show ?thesis using assms emp [OF ok] by (simp add: uart_tx_ring_def)
  next
    case False
    note d = byte_drop [OF ok False]
    show ?thesis using assms emp [OF ok] emp [OF d(1)] d False
      by (auto simp: uart_tx_ring_def Let_def port_ok_def)
  qed
qed

lemma put_char_ok:
  assumes "port_ok q"
  shows "\<exists>q' sent. put_char txe q x = (True, q') \<and> port_ok q' \<and> uart_dr q' = uart_dr q @ sent \<and>
    sent @ byte_list (ring_tx q') = newest (FIFO_SIZE_INT - 1) (byte_list (ring_tx q) @ [x])"
proof -
  obtain b where b: "byte_store True (ring_tx q) x = (True, b)" "byte_ok b" "b_size b = b_size (ring_tx q)"
    "byte_list b = newest (b_size (ring_tx q) - 1) (byte_list (ring_tx q) @ [x])"
    using byte_store_newest [of "ring_tx q" x] assms by (auto simp: port_ok_def FIFO_SIZE_INT_def)
  define q1 where "q1 = q\<lparr>ring_tx := b\<rparr>"
  have q1: "port_ok q1" using assms b by (simp add: port_ok_def q1_def)
  note t = uart_tx_ring_ok [OF q1, of txe]
  define sent where "sent = (if bw_ptr b \<noteq> br_ptr b \<and> txe then [b_elems b ! br_ptr b] else [])"
  have dr: "uart_dr (uart_tx_ring txe q1) = uart_dr q @ sent"
    by (simp add: uart_tx_ring_def q1_def sent_def Let_def)
  have "uart_dr q1 = uart_dr q" "byte_list (ring_tx q1) = byte_list b" by (simp_all add: q1_def)
  then have stream: "sent @ byte_list (ring_tx (uart_tx_ring txe q1)) = newest (FIFO_SIZE_INT - 1) (byte_list (ring_tx q) @ [x])"
    using t dr b(4) assms unfolding port_ok_def by simp
  have put: "put_char txe q x = (True, uart_tx_ring txe q1)"
    using assms b(1) by (simp add: put_char_def port_ok_def q1_def)
  show ?thesis
    by (intro exI conjI, rule put, rule t [THEN conjunct1], rule dr, rule stream)
qed

lemma put_wait_ok:
  assumes "port_ok q"
  shows "put_wait txe q x = Some (snd (put_char (txe 0) q x))"
proof -
  obtain q' where "put_char (txe 0) q x = (True, q')"
    using put_char_ok [OF assms, of "txe 0" x] by (elim exE conjE) (rule that)
  then show ?thesis by (simp add: put_wait_def while_option_unfold)
qed

text \<open>The port of one byte keeps the loop waiting for ever.\<close>

definition stuck :: "uart_ring \<Rightarrow> bool" where
  "stuck q \<longleftrightarrow> byte_ok (ring_tx q) \<and> b_size (ring_tx q) = 1"

lemma stuck_put_char: "stuck q \<Longrightarrow> put_char txe q x = (False, q)"
proof -
  assume s: "stuck q"
  then have "bw_ptr (ring_tx q) = br_ptr (ring_tx q)" by (auto simp: stuck_def byte_ok_def)
  then show ?thesis
    using s byte_store_one [of "ring_tx q" "ring_overwrite q" x]
    by (simp add: put_char_def stuck_def uart_tx_ring_def)
qed

lemma put_wait_stuck:
  assumes "stuck q"
  shows "put_wait txe q x = None"
proof -
  define w where "w = while_option (\<lambda>(ret, n, q). \<not> ret) (\<lambda>(ret, n, q). let (ret, q) = put_char (txe n) q x in (ret, Suc n, q)) (False, 0 :: nat, q)"
  have "w \<noteq> Some r" for r
  proof
    assume r: "w = Some r"
    note w = r [unfolded w_def]
    have "case r of (ret, n, q') \<Rightarrow> \<not> ret \<and> q' = q"
      by (rule while_option_rule [OF _ w]) (auto simp: stuck_put_char [OF assms])
    with while_option_stop [OF w] show False by auto
  qed
  then have "w = None" by (cases w) blast+
  then show ?thesis by (simp add: put_wait_def w_def)
qed

lemma newest_suffix: "suffix (newest n xs) xs"
  by (simp add: newest_def suffix_drop)

lemma put_all_ok:
  "port_ok q \<Longrightarrow> \<exists>q' sent. put_all txes xs q = Some q' \<and> port_ok q' \<and> uart_dr q' = uart_dr q @ sent \<and>
    suffix (byte_list (ring_tx q')) (byte_list (ring_tx q) @ xs) \<and>
    subseq (sent @ byte_list (ring_tx q')) (byte_list (ring_tx q) @ xs) \<and>
    (length (byte_list (ring_tx q)) + length xs < FIFO_SIZE_INT \<longrightarrow>
      sent @ byte_list (ring_tx q') = byte_list (ring_tx q) @ xs)"
proof (induction xs arbitrary: q txes)
  case Nil
  then show ?case by simp
next
  case (Cons x xs)
  define txe where "txe = (case txes of [] \<Rightarrow> \<lambda>_. False | t # _ \<Rightarrow> t)"
  let ?l = "byte_list (ring_tx q)"
  obtain q1 s1 where q1: "put_char (txe 0) q x = (True, q1)" "port_ok q1" "uart_dr q1 = uart_dr q @ s1"
    "s1 @ byte_list (ring_tx q1) = newest (FIFO_SIZE_INT - 1) (?l @ [x])"
    using put_char_ok [OF Cons.prems, of "txe 0" x] by (elim exE conjE) (rule that)
  let ?l1 = "byte_list (ring_tx q1)"
  obtain q2 s2 where q2: "put_all (tl txes) xs q1 = Some q2" "port_ok q2" "uart_dr q2 = uart_dr q1 @ s2"
    "suffix (byte_list (ring_tx q2)) (?l1 @ xs)" "subseq (s2 @ byte_list (ring_tx q2)) (?l1 @ xs)"
    "length ?l1 + length xs < FIFO_SIZE_INT \<longrightarrow> s2 @ byte_list (ring_tx q2) = ?l1 @ xs"
    using Cons.IH [OF q1(2), of "tl txes"] by (elim exE conjE) (rule that)
  have eq: "put_all txes (x # xs) q = Some q2"
    using q1(1) q2(1) by (simp add: put_wait_ok [OF Cons.prems] txe_def [symmetric])
  have suf: "suffix (s1 @ ?l1 @ xs) (?l @ x # xs)"
    using newest_suffix [of "FIFO_SIZE_INT - 1" "?l @ [x]"] unfolding q1(4) [symmetric]
    by (auto simp: suffix_def)
  have "suffix (byte_list (ring_tx q2)) (?l @ x # xs)"
    using q2(4) suf by (meson suffix_appendI suffix_order.trans suffix_appendD)
  moreover have "subseq (s1 @ s2 @ byte_list (ring_tx q2)) (?l @ x # xs)"
    using q2(5) suf by (meson subseq_append' list_emb_append_mono subseq_order.trans suffix_imp_subseq subseq_order.refl)
  moreover have "s1 @ s2 @ byte_list (ring_tx q2) = ?l @ x # xs" if "length ?l + length (x # xs) < FIFO_SIZE_INT"
  proof -
    have e: "s1 @ ?l1 = ?l @ [x]" using q1(4) that by (simp add: newest_def)
    then have "length ?l1 \<le> length ?l + 1" by (metis le_add2 length_append list.size(3,4) One_nat_def add.right_neutral add_Suc_right)
    then have "s2 @ byte_list (ring_tx q2) = ?l1 @ xs" using q2(6) that by simp
    then show ?thesis using e by (metis append.assoc append_Cons append_Nil)
  qed
  ultimately show ?case using eq q1(3) q2(2,3) by (intro exI [of _ q2] exI [of _ "s1 @ s2"]) simp
qed

lemma put_all_stuck: "stuck q \<Longrightarrow> xs \<noteq> [] \<Longrightarrow> put_all txes xs q = None"
  by (cases xs) (simp_all add: put_wait_stuck)


definition rings_ok :: "uart_rings \<Rightarrow> bool" where
  "rings_ok rs \<longleftrightarrow> port_ok (uart_ring_debug rs) \<and> stuck (uart_ring_som_debug rs)"

lemma rings_init_ok: "rings_ok (uart_rings_init False)"
  by (simp add: rings_ok_def uart_rings_init_def UART_BUFFER_def port_ok_def stuck_def byte_ok_def FIFO_SIZE_INT_def)

lemma endpoint2_exact:
  assumes "rings_ok rs"
  shows "(comms_endpoint2_write txes stale bytes rs = None \<longleftrightarrow> (\<exists>x xs. bytes = 4 # x # xs)) \<and>
    (\<forall>rs'. comms_endpoint2_write txes stale bytes rs = Some rs' \<longrightarrow>
      rings_ok rs' \<and> uart_ring_som_debug rs' = uart_ring_som_debug rs \<and>
      (if bytes \<noteq> [] \<and> hd bytes = 0 then
         \<exists>sent waiting. uart_dr (uart_ring_debug rs') = uart_dr (uart_ring_debug rs) @ sent \<and>
           byte_list (ring_tx (uart_ring_debug rs')) = waiting \<and>
           suffix waiting (byte_list (ring_tx (uart_ring_debug rs)) @ tl bytes) \<and>
           subseq (sent @ waiting) (byte_list (ring_tx (uart_ring_debug rs)) @ tl bytes) \<and>
           (length (byte_list (ring_tx (uart_ring_debug rs))) + length (tl bytes) < 1024 \<longrightarrow>
              sent @ waiting = byte_list (ring_tx (uart_ring_debug rs)) @ tl bytes)
       else uart_ring_debug rs' = uart_ring_debug rs))"
proof -
  define first where "first = (case bytes of [] \<Rightarrow> stale | b # _ \<Rightarrow> b)"
  have ring: "get_ring_by_number (uint first) rs =
      (if first = 0 then Some (uart_ring_debug rs) else if first = 4 then Some (uart_ring_som_debug rs) else None)"
    by (simp add: get_ring_by_number_def word_uint_eq_iff)
  obtain q' sent where q': "put_all txes (tl bytes) (uart_ring_debug rs) = Some q'" "port_ok q'"
    "uart_dr q' = uart_dr (uart_ring_debug rs) @ sent"
    "suffix (byte_list (ring_tx q')) (byte_list (ring_tx (uart_ring_debug rs)) @ tl bytes)"
    "subseq (sent @ byte_list (ring_tx q')) (byte_list (ring_tx (uart_ring_debug rs)) @ tl bytes)"
    "length (byte_list (ring_tx (uart_ring_debug rs))) + length (tl bytes) < FIFO_SIZE_INT \<longrightarrow>
      sent @ byte_list (ring_tx q') = byte_list (ring_tx (uart_ring_debug rs)) @ tl bytes"
    using put_all_ok [OF assms [unfolded rings_ok_def, THEN conjunct1], of txes "tl bytes"]
    by (elim exE conjE) (rule that)
  have som: "put_all txes (tl bytes) (uart_ring_som_debug rs) = (if tl bytes = [] then Some (uart_ring_som_debug rs) else None)"
    using put_all_stuck [of "uart_ring_som_debug rs" "tl bytes" txes] assms by (simp add: rings_ok_def)
  show ?thesis
  proof (cases bytes)
    case Nil
    then show ?thesis using assms ring by (simp add: comms_endpoint2_write_def first_def split: option.split)
  next
    case (Cons b bs)
    then have f: "first = b" by (simp add: first_def)
    show ?thesis
    proof (cases "b = 0")
      case True
      then show ?thesis
        using q' assms ring f Cons by (auto simp: comms_endpoint2_write_def rings_ok_def FIFO_SIZE_INT_def)
    next
      case False
      then show ?thesis
        using som assms ring f Cons
        by (cases "b = 4"; cases bs) (simp_all add: comms_endpoint2_write_def first_def [symmetric] Let_def)
    qed
  qed
qed

text \<open>C22: What the host's write to a serial port does on F4 parts. It hangs - the loop that waits for room
  never ends, whatever the port does - exactly when the host names port 4 and sends a byte: that port
  is compiled with an array of one byte, which never has room. Otherwise it returns. Port 0 hands its bytes
  out in order and loses nothing but the oldest waiting bytes, and none while they fit its ring; the
  other numbers change nothing.\<close>

theorem endpoint2_write_exact:
  assumes "rings_ok rs"
  shows "(comms_endpoint2_write txes stale bytes rs = None \<longleftrightarrow> (\<exists>x xs. bytes = 4 # x # xs)) \<and>
    (\<forall>rs'. comms_endpoint2_write txes stale bytes rs = Some rs' \<longrightarrow>
      rings_ok rs' \<and> uart_ring_som_debug rs' = uart_ring_som_debug rs \<and>
      (if bytes \<noteq> [] \<and> hd bytes = 0 then
         \<exists>sent waiting. uart_dr (uart_ring_debug rs') = uart_dr (uart_ring_debug rs) @ sent \<and>
           byte_list (ring_tx (uart_ring_debug rs')) = waiting \<and>
           suffix waiting (byte_list (ring_tx (uart_ring_debug rs)) @ tl bytes) \<and>
           subseq (sent @ waiting) (byte_list (ring_tx (uart_ring_debug rs)) @ tl bytes) \<and>
           (length (byte_list (ring_tx (uart_ring_debug rs))) + length (tl bytes) < 1024 \<longrightarrow>
              sent @ waiting = byte_list (ring_tx (uart_ring_debug rs)) @ tl bytes)
       else uart_ring_debug rs' = uart_ring_debug rs))"
  using assms by (rule endpoint2_exact)

theorem endpoint2_write_exact_witness:
  "comms_endpoint2_write [] 0 [4, 0x41] (uart_rings_init False) = None \<and>
   (\<exists>rs'. comms_endpoint2_write [\<lambda>_. True] 0 [0, 0x41, 0x42] (uart_rings_init False) = Some rs' \<and>
      uart_ring_som_debug rs' = uart_ring_som_debug (uart_rings_init False))"
proof -
  have "comms_endpoint2_write [\<lambda>_. True] 0 [0, 0x41, 0x42] (uart_rings_init False) \<noteq> None"
    using endpoint2_write_exact [OF rings_init_ok, of "[\<lambda>_. True]" 0 "[0, 0x41, 0x42]"] by simp
  then show ?thesis
    using endpoint2_write_exact [OF rings_init_ok, of "[]" 0 "[4, 0x41]"]
      endpoint2_write_exact [OF rings_init_ok, of "[\<lambda>_. True]" 0 "[0, 0x41, 0x42]"] by auto
qed

end
