(* ===== verification/Serial_Comms.thy ===== *)
theory Serial_Comms
  imports Firmware Uart
begin

text \<open>
  The serial transport (\<^verbatim>\<open>firmware/board/drivers/serial_comms.h\<close>, \<^verbatim>\<open>serial_uart_raw.h\<close>): requests of the
  host arrive through a ring the DMA controller fills, are framed by a sync byte, lengths and
  checksums, and are handed to the functions of the protocol. The theorems say that the framing never leaves
  its buffers, and that it finds its way back to the next frame after any garbage.

  Time appears as what the line delivers: one batch of bytes for each place where the code looks at the
  ring or waits for it. A wait fails if its batch is empty and nothing is left in the ring.
\<close>

unbundle bit_operations_syntax

subsection \<open>The functions behind a transport\<close>

text \<open>\<open>comms_definitions.h\<close>: what a transport calls, on some state. \<open>None\<close>: the call does not return (a reset,
  a hang, an access outside an array).\<close>

record 'p comms =
  control_handler :: "ControlPacket_t \<Rightarrow> 'p \<Rightarrow> (u8 list \<times> 'p) option"
  can_read_handler :: "nat \<Rightarrow> 'p \<Rightarrow> (u8 list \<times> 'p) option"
  endpoint2_handler :: "u8 list \<Rightarrow> 'p \<Rightarrow> 'p option"
  can_write_handler :: "u8 list \<Rightarrow> 'p \<Rightarrow> 'p option"

text \<open>The packed request, seven bytes.\<close>

definition control_of_bytes :: "u8 list \<Rightarrow> ControlPacket_t" where
  "control_of_bytes bs = \<lparr>request = bs ! 0, param1 = ucast (bs ! 1) OR push_bit 8 (ucast (bs ! 2)),
     param2 = ucast (bs ! 3) OR push_bit 8 (ucast (bs ! 4)), req_length = ucast (bs ! 5) OR push_bit 8 (ucast (bs ! 6))\<rparr>"

definition xor_bytes :: "u8 \<Rightarrow> u8 list \<Rightarrow> u8" where
  "xor_bytes start bs = fold (\<lambda>b c. c XOR b) bs start"

subsection \<open>Bytes from the ring\<close>

definition UART_RX_BUF_SIZE :: nat where "UART_RX_BUF_SIZE = 4096"

record serial_stats_t =
  txn_ok :: u32
  hdr_resync :: u32
  hdr_timeout :: u32
  mosi_timeout :: u32
  mosi_checksum :: u32
  mosi_oversize :: u32
  overrun :: u32
  rx_late :: u32
  last_bad_hdr :: "u8 list"
  reread_hdr :: "u8 list"

text \<open>What the line delivers while the code waits: bytes, and whether the first read of the next byte was
  too early.\<close>

type_synonym batch = "u8 list \<times> bool"

record serial_state =
  uart_rx_buf :: "u8 list"
  uart_rx_rd :: nat
  uart_rx_wr :: nat           \<comment> \<open>the DMA cursor, from \<open>NDTR\<close>\<close>
  ser_rx :: "u8 list"
  ser_tx :: "u8 list"
  serial_stats :: serial_stats_t
  line_in :: "batch list"
  line_out :: "u8 list"

definition dma_byte :: "u8 \<Rightarrow> serial_state \<Rightarrow> serial_state" where
  "dma_byte b s = s\<lparr>uart_rx_buf := (uart_rx_buf s)[uart_rx_wr s := b], uart_rx_wr := (uart_rx_wr s + 1) mod UART_RX_BUF_SIZE\<rparr>"

definition dma_arrive :: "serial_state \<Rightarrow> bool \<times> serial_state" where
  "dma_arrive s = (case line_in s of
     [] \<Rightarrow> (False, s) | (bs, late) # rest \<Rightarrow> (late, fold dma_byte bs (s\<lparr>line_in := rest\<rparr>)))"

definition uart_rx_avail :: "serial_state \<Rightarrow> nat" where
  "uart_rx_avail s = (uart_rx_wr s + UART_RX_BUF_SIZE - uart_rx_rd s) mod UART_RX_BUF_SIZE"

definition uart_flush_rx :: "serial_state \<Rightarrow> serial_state" where
  "uart_flush_rx s = s\<lparr>uart_rx_rd := uart_rx_wr s\<rparr>"

definition uart_rx_rewind_past :: "nat \<Rightarrow> serial_state \<Rightarrow> serial_state" where
  "uart_rx_rewind_past mark s = s\<lparr>uart_rx_rd := (mark + 1) mod UART_RX_BUF_SIZE\<rparr>"

definition uart_rx_peek :: "nat \<Rightarrow> nat \<Rightarrow> serial_state \<Rightarrow> u8" where
  "uart_rx_peek mark off s = uart_rx_buf s ! ((mark + off) mod UART_RX_BUF_SIZE)"

definition count_stat :: "(serial_stats_t \<Rightarrow> serial_stats_t) \<Rightarrow> serial_state \<Rightarrow> serial_state" where
  "count_stat f s = s\<lparr>serial_stats := f (serial_stats s)\<rparr>"

definition uart_recv_byte :: "serial_state \<Rightarrow> u8 option \<times> serial_state" where
  "uart_recv_byte s =
     (let (late, s) = dma_arrive s in
      if uart_rx_avail s = 0 then (None, s)
      else
        let settled = uart_rx_buf s ! uart_rx_rd s;
            s = (if late then count_stat (\<lambda>t. t\<lparr>rx_late := rx_late t + 1\<rparr>) s else s)
        in (Some settled, s\<lparr>uart_rx_rd := (uart_rx_rd s + 1) mod UART_RX_BUF_SIZE\<rparr>))"

text \<open>Into \<open>ser_rx\<close> from an index on; \<open>None\<close> is a store outside the array.\<close>

definition put_rx :: "nat \<Rightarrow> u8 \<Rightarrow> serial_state \<Rightarrow> serial_state option" where
  "put_rx i b s = (if i < length (ser_rx s) then Some (s\<lparr>ser_rx := (ser_rx s)[i := b]\<rparr>) else None)"

fun uart_recv_raw :: "nat \<Rightarrow> nat \<Rightarrow> serial_state \<Rightarrow> (bool \<times> serial_state) option" where
  "uart_recv_raw i 0 s = Some (True, s)"
| "uart_recv_raw i (Suc len) s =
     (case uart_recv_byte s of
        (None, s) \<Rightarrow> Some (False, s)
      | (Some b, s) \<Rightarrow> put_rx i b s \<bind> uart_recv_raw (i + 1) len)"

definition uart_send_raw :: "u8 list \<Rightarrow> serial_state \<Rightarrow> serial_state" where
  "uart_send_raw d s = s\<lparr>line_out := line_out s @ d\<rparr>"

definition SERIAL_BUF_SIZE :: nat where "SERIAL_BUF_SIZE = 2048"

text \<open>The start: \<open>serial_comms_init\<close>.\<close>

definition serial_init :: serial_state where
  "serial_init = \<lparr>uart_rx_buf = replicate UART_RX_BUF_SIZE 0, uart_rx_rd = 0, uart_rx_wr = 0,
     ser_rx = replicate SERIAL_BUF_SIZE 0, ser_tx = replicate SERIAL_BUF_SIZE 0,
     serial_stats = \<lparr>txn_ok = 0, hdr_resync = 0, hdr_timeout = 0, mosi_timeout = 0, mosi_checksum = 0,
       mosi_oversize = 0, overrun = 0, rx_late = 0, last_bad_hdr = replicate 8 0, reread_hdr = replicate 8 0\<rparr>,
     line_in = [], line_out = []\<rparr>"

subsection \<open>One transaction\<close>

definition SERIAL_SYNC_BYTE :: u8 where "SERIAL_SYNC_BYTE = 0x5A"
definition SERIAL_HACK :: u8 where "SERIAL_HACK = 0x79"
definition SERIAL_NACK :: u8 where "SERIAL_NACK = 0x1F"
definition SERIAL_CHECKSUM_START :: u8 where "SERIAL_CHECKSUM_START = 0xAB"
definition SERIAL_HEADER_SIZE :: nat where "SERIAL_HEADER_SIZE = 7"
definition SERIAL_RESP_OVERHEAD :: nat where "SERIAL_RESP_OVERHEAD = 4"

definition serial_checksum :: "u8 list \<Rightarrow> u8" where
  "serial_checksum = xor_bytes SERIAL_CHECKSUM_START"

definition le_word :: "u8 \<Rightarrow> u8 \<Rightarrow> nat" where
  "le_word lo hi = unat (ucast lo OR push_bit 8 (ucast hi) :: u16)"

text \<open>The call a request asks for. \<open>Some (None, p)\<close>: refused.\<close>

definition serial_dispatch :: "'p comms \<Rightarrow> u8 \<Rightarrow> u8 list \<Rightarrow> nat \<Rightarrow> 'p \<Rightarrow> (u8 list option \<times> 'p) option" where
  "serial_dispatch C endpoint mosi miso_len p =
     (if endpoint = 0 then
        (if length mosi \<ge> 7 then map_option (apfst Some) (control_handler C (control_of_bytes mosi) p) else Some (None, p))
      else if endpoint = 1 \<or> endpoint = 0x81 then
        (if mosi = [] then map_option (apfst Some) (can_read_handler C miso_len p) else Some (None, p))
      else if endpoint = 2 then map_option (Pair (Some [])) (endpoint2_handler C mosi p)
      else if endpoint = 3 then
        (if mosi \<noteq> [] then map_option (Pair (Some [])) (can_write_handler C mosi p) else Some (None, p))
      else Some (None, p))"

text \<open>The answer is laid out in \<open>ser_tx\<close>: the acknowledgement, the length, the data, the checksum.\<close>

definition serial_respond :: "u8 list option \<Rightarrow> serial_state \<Rightarrow> serial_state option" where
  "serial_respond resp s =
     (case resp of
        None \<Rightarrow> Some (uart_send_raw [SERIAL_NACK] s)
      | Some r \<Rightarrow>
          let resp_len = of_nat (length r) :: u16;
              head = [SERIAL_HACK, ucast resp_len, ucast (drop_bit 8 resp_len)] @ r;
              frame = head @ [serial_checksum head]
          in if length frame \<le> length (ser_tx s)
             then Some (count_stat (\<lambda>t. t\<lparr>txn_ok := txn_ok t + 1\<rparr>)
                    (uart_send_raw frame (s\<lparr>ser_tx := frame @ drop (length frame) (ser_tx s)\<rparr>)))
             else None)"

definition serial_payload :: "'p comms \<Rightarrow> serial_state \<times> 'p \<Rightarrow> (serial_state \<times> 'p) option" where
  "serial_payload C = (\<lambda>(s, p).
     let endpoint = ser_rx s ! 1; mosi_len = le_word (ser_rx s ! 2) (ser_rx s ! 3); miso_len = le_word (ser_rx s ! 4) (ser_rx s ! 5)
     in if mosi_len > SERIAL_BUF_SIZE - SERIAL_HEADER_SIZE - 1
        then Some (uart_send_raw [SERIAL_NACK] (count_stat (\<lambda>t. t\<lparr>mosi_oversize := mosi_oversize t + 1\<rparr>) s), p)
     else
       let miso_len = min miso_len (SERIAL_BUF_SIZE - SERIAL_RESP_OVERHEAD);
           s = uart_send_raw [SERIAL_HACK] s
       in do { (received, s) \<leftarrow> (if mosi_len > 0 then uart_recv_raw SERIAL_HEADER_SIZE (mosi_len + 1) s else Some (True, s));
               if \<not> received then Some (count_stat (\<lambda>t. t\<lparr>mosi_timeout := mosi_timeout t + 1\<rparr>) s, p)
               else if mosi_len > 0 \<and> serial_checksum (take (mosi_len + 1) (drop SERIAL_HEADER_SIZE (ser_rx s))) \<noteq> 0
               then Some (uart_send_raw [SERIAL_NACK] (count_stat (\<lambda>t. t\<lparr>mosi_checksum := mosi_checksum t + 1\<rparr>) s), p)
               else do { (resp, p) \<leftarrow> serial_dispatch C endpoint (take mosi_len (drop SERIAL_HEADER_SIZE (ser_rx s))) miso_len p;
                         s \<leftarrow> serial_respond resp s;
                         Some (s, p) } })"

definition serial_comms_tick :: "'p comms \<Rightarrow> serial_state \<times> 'p \<Rightarrow> (serial_state \<times> 'p) option" where
  "serial_comms_tick C = (\<lambda>(s, p).
     let (late, s) = dma_arrive s in
     if uart_rx_avail s > (UART_RX_BUF_SIZE * 3) div 4
     then Some (uart_flush_rx (count_stat (\<lambda>t. t\<lparr>overrun := overrun t + 1\<rparr>) s), p)
     else
       let mark = uart_rx_rd s in
       case uart_recv_byte s of
         (None, s) \<Rightarrow> Some (s, p)
       | (Some b, s) \<Rightarrow>
           do { s \<leftarrow> put_rx 0 b s;
                if b \<noteq> SERIAL_SYNC_BYTE then Some (s, p)
                else do { (received, s) \<leftarrow> uart_recv_raw 1 (SERIAL_HEADER_SIZE - 1) s;
                          if \<not> received
                          then Some (uart_rx_rewind_past mark (count_stat (\<lambda>t. t\<lparr>hdr_timeout := hdr_timeout t + 1\<rparr>) s), p)
                          else if serial_checksum (take SERIAL_HEADER_SIZE (ser_rx s)) \<noteq> 0
                          then Some (uart_rx_rewind_past mark (count_stat (\<lambda>t. t\<lparr>hdr_resync := hdr_resync t + 1,
                                 last_bad_hdr := take SERIAL_HEADER_SIZE (ser_rx s) @ drop SERIAL_HEADER_SIZE (last_bad_hdr t),
                                 reread_hdr := map (\<lambda>i. uart_rx_peek mark i s) [0..<SERIAL_HEADER_SIZE] @ drop SERIAL_HEADER_SIZE (reread_hdr t)\<rparr>) s), p)
                          else serial_payload C (s, p) } })"


subsection \<open>The ring as a stream\<close>

definition serial_ok :: "serial_state \<Rightarrow> bool" where
  "serial_ok s \<longleftrightarrow> length (uart_rx_buf s) = UART_RX_BUF_SIZE \<and> uart_rx_rd s < UART_RX_BUF_SIZE \<and>
     uart_rx_wr s < UART_RX_BUF_SIZE \<and> length (ser_rx s) = SERIAL_BUF_SIZE \<and> length (ser_tx s) = SERIAL_BUF_SIZE"

definition rx_pending :: "serial_state \<Rightarrow> u8 list" where
  "rx_pending s = map (\<lambda>i. uart_rx_buf s ! ((uart_rx_rd s + i) mod UART_RX_BUF_SIZE)) [0..<uart_rx_avail s]"

definition consumed :: "nat \<Rightarrow> serial_state \<Rightarrow> serial_state" where
  "consumed n s = s\<lparr>uart_rx_rd := (uart_rx_rd s + n) mod UART_RX_BUF_SIZE\<rparr>"

lemma buf_pos [simp]: "0 < UART_RX_BUF_SIZE"
  by (simp add: UART_RX_BUF_SIZE_def)

lemma rx_pending_length [simp]: "length (rx_pending s) = uart_rx_avail s"
  by (simp add: rx_pending_def)

lemma rx_pending_Nil [simp]: "rx_pending s = [] \<longleftrightarrow> uart_rx_avail s = 0"
  by (metis length_0_conv rx_pending_length)

lemma consumed_ok [simp]: "serial_ok s \<Longrightarrow> serial_ok (consumed n s)"
  by (simp add: serial_ok_def consumed_def)

lemma consumed_consumed [simp]: "consumed m (consumed n s) = consumed (n + m) s"
  by (simp add: consumed_def mod_simps add.assoc)

lemma consumed_0 [simp]: "serial_ok s \<Longrightarrow> consumed 0 s = s"
  by (simp add: consumed_def serial_ok_def)

lemma consumed_fields [simp]:
  "ser_rx (consumed n s) = ser_rx s" "uart_rx_buf (consumed n s) = uart_rx_buf s" "line_in (consumed n s) = line_in s" "line_out (consumed n s) = line_out s"
  "uart_rx_wr (consumed n s) = uart_rx_wr s" "ser_tx (consumed n s) = ser_tx s"
  by (simp_all add: consumed_def)

lemma ring_distance: "(w + n - (r + k) mod n) mod n = (w + n - r) mod n - k"
  if "(r :: nat) < n" "w < n" "k \<le> (w + n - r) mod n"
  using that
proof (induction k)
  case (Suc k)
  define r' where "r' = (r + k) mod n"
  have r': "r' < n" using that by (simp add: r'_def)
  have ih: "(w + n - r') mod n = (w + n - r) mod n - k" using Suc by (simp add: r'_def)
  then have "(w + n - r') mod n \<noteq> 0" using Suc.prems(3) by simp
  then have "w \<noteq> r'" using mod_wrap(2) [OF r' that(2)] by simp
  then have "(w + n - (r' + 1) mod n) mod n = (w + n - r') mod n - 1" by (rule mod_wrap(5) [OF r' that(2)])
  moreover have "(r' + 1) mod n = (r + Suc k) mod n" by (simp add: r'_def mod_simps)
  ultimately show ?case using ih by simp
qed simp

lemma rx_avail_consumed: "serial_ok s \<Longrightarrow> k \<le> uart_rx_avail s \<Longrightarrow> uart_rx_avail (consumed k s) = uart_rx_avail s - k"
  unfolding uart_rx_avail_def consumed_def serial_ok_def by (simp add: ring_distance)

lemma rx_pending_consumed:
  assumes "serial_ok s" and "k \<le> uart_rx_avail s"
  shows "rx_pending (consumed k s) = drop k (rx_pending s)"
proof (rule nth_equalityI)
  show "length (rx_pending (consumed k s)) = length (drop k (rx_pending s))"
    using assms by (simp add: rx_avail_consumed)
  fix i assume "i < length (rx_pending (consumed k s))"
  then have i: "i < uart_rx_avail s - k" using assms by (simp add: rx_avail_consumed)
  then show "rx_pending (consumed k s) ! i = drop k (rx_pending s) ! i"
    using assms by (simp add: rx_pending_def rx_avail_consumed) (simp add: consumed_def mod_simps add.assoc)
qed

text \<open>What a quiet line gives.\<close>

lemma recv_byte_quiet:
  assumes "serial_ok s" and "line_in s = []"
  shows "uart_recv_byte s = (if rx_pending s = [] then (None, s) else (Some (hd (rx_pending s)), consumed 1 s))"
proof (cases "uart_rx_avail s = 0")
  case True
  then have "rx_pending s = []" using rx_pending_length [of s] by (simp del: rx_pending_length)
  then show ?thesis using assms True by (simp add: uart_recv_byte_def dma_arrive_def)
next
  case False
  then have "rx_pending s \<noteq> []" using rx_pending_length [of s] by (auto simp del: rx_pending_length)
  moreover have "hd (rx_pending s) = uart_rx_buf s ! uart_rx_rd s"
    using False assms by (simp add: rx_pending_def hd_map serial_ok_def)
  ultimately show ?thesis using assms False by (simp add: uart_recv_byte_def dma_arrive_def consumed_def)
qed

lemma recv_raw_quiet:
  assumes "serial_ok s" and "line_in s = []" and "n \<le> length (rx_pending s)" and "i + n \<le> SERIAL_BUF_SIZE"
  shows "uart_recv_raw i n s =
    Some (True, (consumed n s)\<lparr>ser_rx := take i (ser_rx s) @ take n (rx_pending s) @ drop (i + n) (ser_rx s)\<rparr>)"
  using assms
proof (induction n arbitrary: i s)
  case 0
  then show ?case by (simp add: consumed_def serial_ok_def)
next
  case (Suc n)
  define s1 where "s1 = (consumed 1 s)\<lparr>ser_rx := (ser_rx s)[i := hd (rx_pending s)]\<rparr>"
  have ne: "rx_pending s \<noteq> []" using Suc.prems(3) by simp
  have len: "i < length (ser_rx s)" using Suc.prems by (simp add: serial_ok_def)
  have av: "1 \<le> uart_rx_avail s" using Suc.prems(3) by simp
  have p1: "rx_pending s1 = tl (rx_pending s)"
    using rx_pending_consumed [OF Suc.prems(1) av]
    by (simp add: s1_def rx_pending_def uart_rx_avail_def drop_Suc)
  have ok1: "serial_ok s1" using consumed_ok [OF Suc.prems(1), of 1] by (simp add: s1_def serial_ok_def)
  have "uart_recv_raw (i + 1) n s1 =
      Some (True, (consumed n s1)\<lparr>ser_rx := take (i + 1) (ser_rx s1) @ take n (rx_pending s1) @ drop (i + 1 + n) (ser_rx s1)\<rparr>)"
    using Suc.prems ok1 p1 by (intro Suc.IH) (simp_all add: s1_def)
  moreover have "uart_recv_raw i (Suc n) s = uart_recv_raw (i + 1) n s1"
    using Suc.prems ne len by (simp add: recv_byte_quiet put_rx_def s1_def)
  moreover have "(consumed n s1)\<lparr>ser_rx := x\<rparr> = (consumed (Suc n) s)\<lparr>ser_rx := x\<rparr>" for x
    by (simp add: s1_def consumed_def mod_simps)
  moreover have "take (i + 1) (ser_rx s1) @ take n (rx_pending s1) @ drop (i + 1 + n) (ser_rx s1) =
      take i (ser_rx s) @ take (Suc n) (rx_pending s) @ drop (i + Suc n) (ser_rx s)"
    using ne len unfolding p1 by (cases "rx_pending s") (simp_all add: s1_def take_Suc_conv_app_nth)
  ultimately show ?case by simp
qed

subsection \<open>Finding the next frame\<close>

definition header_good :: "u8 list \<Rightarrow> bool" where
  "header_good h \<longleftrightarrow> hd h = SERIAL_SYNC_BYTE \<and> serial_checksum h = 0"

definition quiet :: "serial_state \<Rightarrow> bool" where
  "quiet s \<longleftrightarrow> serial_ok s \<and> line_in s = []"

lemma not_overrun: "n \<le> 3072 \<Longrightarrow> \<not> UART_RX_BUF_SIZE * 3 div 4 < n"
  by (simp add: UART_RX_BUF_SIZE_def)

text \<open>The state when a header has been read.\<close>

definition header_read :: "serial_state \<Rightarrow> serial_state" where
  "header_read s = (consumed 7 s)\<lparr>ser_rx := take 7 (rx_pending s) @ drop 7 (ser_rx s)\<rparr>"

lemma tick_header:
  assumes q: "quiet s" and n: "7 \<le> length (rx_pending s)" "length (rx_pending s) \<le> 3072"
  shows "serial_comms_tick C (s, p) =
    (if hd (rx_pending s) \<noteq> SERIAL_SYNC_BYTE
     then Some ((consumed 1 s)\<lparr>ser_rx := (ser_rx s)[0 := hd (rx_pending s)]\<rparr>, p)
     else if serial_checksum (take 7 (rx_pending s)) \<noteq> 0
     then (let h = header_read s in
       Some (uart_rx_rewind_past (uart_rx_rd s) (count_stat (\<lambda>t. t\<lparr>hdr_resync := hdr_resync t + 1,
         last_bad_hdr := take 7 (ser_rx h) @ drop 7 (last_bad_hdr t),
         reread_hdr := map (\<lambda>i. uart_rx_peek (uart_rx_rd s) i h) [0..<7] @ drop 7 (reread_hdr t)\<rparr>) h), p))
     else serial_payload C (header_read s, p))"
proof -
  have ok: "serial_ok s" "line_in s = []" using q by (simp_all add: quiet_def)
  have ne: "rx_pending s \<noteq> []" using n(1) by simp
  have pos: "0 < length (ser_rx s)" using ok by (simp add: serial_ok_def SERIAL_BUF_SIZE_def)
  define b where "b = hd (rx_pending s)"
  define s1 where "s1 = (consumed 1 s)\<lparr>ser_rx := (ser_rx s)[0 := b]\<rparr>"
  have av: "1 \<le> uart_rx_avail s" using n(1) by simp
  have p1: "rx_pending s1 = tl (rx_pending s)"
    using rx_pending_consumed [OF ok(1) av] by (simp add: s1_def rx_pending_def uart_rx_avail_def drop_Suc)
  have ok1: "serial_ok s1" using consumed_ok [OF ok(1), of 1] by (simp add: s1_def serial_ok_def)
  have "uart_recv_raw 1 6 s1 =
      Some (True, (consumed 6 s1)\<lparr>ser_rx := take 1 (ser_rx s1) @ take 6 (rx_pending s1) @ drop (1 + 6) (ser_rx s1)\<rparr>)"
    using ok1 ok(2) n(1) p1 by (intro recv_raw_quiet) (simp_all add: s1_def SERIAL_BUF_SIZE_def)
  moreover have "take 1 (ser_rx s1) @ take 6 (rx_pending s1) @ drop (1 + 6) (ser_rx s1) = take 7 (rx_pending s) @ drop 7 (ser_rx s)"
    using ne pos unfolding p1 by (cases "rx_pending s"; cases "ser_rx s") (simp_all add: s1_def b_def)
  moreover have "(consumed 6 s1)\<lparr>ser_rx := x\<rparr> = (consumed 7 s)\<lparr>ser_rx := x\<rparr>" for x
    by (simp add: s1_def consumed_def mod_simps add.commute)
  ultimately have raw: "uart_recv_raw 1 (SERIAL_HEADER_SIZE - 1) s1 = Some (True, header_read s)"
    by (simp add: header_read_def SERIAL_HEADER_SIZE_def)
  have byte: "uart_recv_byte s = (Some b, consumed 1 s)" using recv_byte_quiet [OF ok] ne by (simp add: b_def)
  have put: "put_rx 0 b (consumed 1 s) = Some s1" using pos by (simp add: put_rx_def s1_def)
  have arr: "dma_arrive s = (False, s)" using ok(2) by (simp add: dma_arrive_def)
  have over: "\<not> UART_RX_BUF_SIZE * 3 div 4 < uart_rx_avail s" using n(2) by (intro not_overrun) simp
  have head: "take SERIAL_HEADER_SIZE (ser_rx (header_read s)) = take 7 (rx_pending s)"
    using n(1) by (simp add: header_read_def SERIAL_HEADER_SIZE_def)
  show ?thesis
    using over raw byte put arr head
    by (simp add: serial_comms_tick_def b_def [symmetric] Let_def SERIAL_HEADER_SIZE_def) (simp add: s1_def)
qed

text \<open>A tick at anything but a frame steps one byte and is silent.\<close>

lemma tick_garbage:
  assumes q: "quiet s" and n: "7 \<le> length (rx_pending s)" "length (rx_pending s) \<le> 3072"
    and bad: "\<not> header_good (take 7 (rx_pending s))"
  shows "\<exists>s'. serial_comms_tick C (s, p) = Some (s', p) \<and> quiet s' \<and> rx_pending s' = tl (rx_pending s) \<and>
    line_out s' = line_out s \<and> ser_tx s' = ser_tx s"
proof -
  have ok: "serial_ok s" "line_in s = []" using q by (simp_all add: quiet_def)
  have av: "1 \<le> uart_rx_avail s" using n(1) by simp
  note c = rx_pending_consumed [OF ok(1) av] consumed_ok [OF ok(1), of 1]
  have same: "rx_pending s' = tl (rx_pending s) \<and> quiet s'"
    if "uart_rx_buf s' = uart_rx_buf s" "uart_rx_rd s' = uart_rx_rd (consumed 1 s)" "uart_rx_wr s' = uart_rx_wr s"
      "length (ser_rx s') = length (ser_rx s)" "ser_tx s' = ser_tx s" "line_in s' = []" for s'
  proof -
    have "rx_pending s' = rx_pending (consumed 1 s)"
      using that by (simp add: rx_pending_def uart_rx_avail_def consumed_def)
    then show ?thesis using c that by (simp add: quiet_def serial_ok_def drop_Suc)
  qed
  have len: "length (take 7 (rx_pending s) @ drop 7 (ser_rx s)) = length (ser_rx s)"
    using n(1) ok(1) by (simp add: serial_ok_def SERIAL_BUF_SIZE_def)
  show ?thesis
  proof (cases "hd (rx_pending s) = SERIAL_SYNC_BYTE")
    case False
    let ?s = "(consumed 1 s)\<lparr>ser_rx := (ser_rx s)[0 := hd (rx_pending s)]\<rparr>"
    have "rx_pending ?s = tl (rx_pending s) \<and> quiet ?s"
      using ok(2) by (intro same) (simp_all add: consumed_def)
    then show ?thesis using False by (simp add: tick_header [OF q n])
  next
    case True
    have "hd (take 7 (rx_pending s)) = hd (rx_pending s)" by (cases "rx_pending s") simp_all
    then have "serial_checksum (take 7 (rx_pending s)) \<noteq> 0" using bad True by (simp add: header_good_def)
    then show ?thesis
      using True ok(2) len same
      by (simp add: tick_header [OF q n] Let_def header_read_def uart_rx_rewind_past_def count_stat_def consumed_def)
  qed
qed


subsection \<open>A frame\<close>

text \<open>What the host sends for a request, and what it gets.\<close>

definition serial_header :: "u8 \<Rightarrow> nat \<Rightarrow> nat \<Rightarrow> u8 list" where
  "serial_header endpoint mosi_len miso_len =
     (let m = of_nat mosi_len :: u16; r = of_nat miso_len :: u16;
          h = [SERIAL_SYNC_BYTE, endpoint, ucast m, ucast (drop_bit 8 m), ucast r, ucast (drop_bit 8 r)]
      in h @ [serial_checksum h])"

definition with_checksum :: "u8 list \<Rightarrow> u8 list" where
  "with_checksum bs = bs @ [serial_checksum bs]"

definition serial_frame :: "u8 \<Rightarrow> u8 list \<Rightarrow> nat \<Rightarrow> u8 list" where
  "serial_frame endpoint mosi miso_len =
     serial_header endpoint (length mosi) miso_len @ (if mosi = [] then [] else with_checksum mosi)"

definition serial_answer :: "u8 list option \<Rightarrow> u8 list" where
  "serial_answer resp = (case resp of
     None \<Rightarrow> [SERIAL_NACK]
   | Some r \<Rightarrow> with_checksum ([SERIAL_HACK, of_nat (length r), of_nat (length r div 256)] @ r))"

lemma serial_checksum_append: "serial_checksum (bs @ [c]) = serial_checksum bs XOR c"
  by (simp add: serial_checksum_def xor_bytes_def)

lemma checksum_closes [simp]: "serial_checksum (bs @ [serial_checksum bs]) = 0" "serial_checksum (with_checksum bs) = 0"
  by (simp_all add: serial_checksum_append with_checksum_def)

lemma le_word_split: "le_word (ucast (w :: u16)) (ucast (drop_bit 8 w)) = unat w"
proof -
  have "ucast (ucast w :: u8) OR push_bit 8 (ucast (ucast (drop_bit 8 w) :: u8)) = w"
    by (rule bit_word_eqI) (auto simp: bit_simps)
  then show ?thesis by (simp add: le_word_def)
qed

lemma serial_header_facts:
  "length (serial_header e m r) = 7" "hd (serial_header e m r) = SERIAL_SYNC_BYTE" "serial_checksum (serial_header e m r) = 0"
  "serial_header e m r ! 1 = e"
  "m < 65536 \<Longrightarrow> le_word (serial_header e m r ! 2) (serial_header e m r ! 3) = m"
  "r < 65536 \<Longrightarrow> le_word (serial_header e m r ! 4) (serial_header e m r ! 5) = r"
proof -
  define h where "h = [SERIAL_SYNC_BYTE, e, ucast (of_nat m :: u16), ucast (drop_bit 8 (of_nat m :: u16)),
    ucast (of_nat r :: u16), ucast (drop_bit 8 (of_nat r :: u16))]"
  have s: "serial_header e m r = h @ [serial_checksum h]" by (simp add: serial_header_def h_def Let_def)
  show "length (serial_header e m r) = 7" "hd (serial_header e m r) = SERIAL_SYNC_BYTE" "serial_checksum (serial_header e m r) = 0"
    unfolding s checksum_closes by (simp_all add: h_def)
  have n: "h ! 1 = e" "h ! 2 = ucast (of_nat m :: u16)" "h ! 3 = ucast (drop_bit 8 (of_nat m :: u16))"
    "h ! 4 = ucast (of_nat r :: u16)" "h ! 5 = ucast (drop_bit 8 (of_nat r :: u16))" "length h = 6"
    by (simp_all add: h_def)
  show "serial_header e m r ! 1 = e" using n by (simp add: s nth_append)
  show "le_word (serial_header e m r ! 2) (serial_header e m r ! 3) = m" if "m < 65536"
    using n that by (simp add: s nth_append le_word_split unat_of_nat)
  show "le_word (serial_header e m r ! 4) (serial_header e m r ! 5) = r" if "r < 65536"
    using n that by (simp add: s nth_append le_word_split unat_of_nat)
qed

lemma serial_respond_answer:
  assumes "length (ser_tx s) = SERIAL_BUF_SIZE" and "\<And>r. resp = Some r \<Longrightarrow> length r \<le> 2044"
  shows "\<exists>s'. serial_respond resp s = Some s' \<and> line_out s' = line_out s @ serial_answer resp \<and>
    length (ser_tx s') = SERIAL_BUF_SIZE \<and> ser_rx s' = ser_rx s \<and> uart_rx_buf s' = uart_rx_buf s \<and>
    uart_rx_rd s' = uart_rx_rd s \<and> uart_rx_wr s' = uart_rx_wr s \<and> line_in s' = line_in s"
proof (cases resp)
  case None
  then show ?thesis using assms(1) by (simp add: serial_respond_def uart_send_raw_def serial_answer_def)
next
  case (Some r)
  define w where "w = (of_nat (length r) :: u16)"
  have narrow: "ucast (of_nat n :: u16) = (of_nat n :: u8)" if "n \<le> 2044" for n
  proof -
    have "take_bit 16 n = n" using that by (intro take_bit_nat_eq_self) simp
    then show ?thesis by (simp add: unsigned_of_nat)
  qed
  then have "ucast w = (of_nat (length r) :: u8)" using assms(2) [OF Some] by (simp add: w_def)
  moreover have "ucast (drop_bit 8 w) = (of_nat (length r div 256) :: u8)"
  proof -
    have "unat w = length r" using assms(2) [OF Some] by (simp add: w_def unat_of_nat)
    then have "drop_bit 8 w = of_nat (length r div 256)"
      using assms(2) [OF Some] by (simp add: word_unat_eq_iff drop_bit_eq_div unat_div unat_of_nat)
    moreover have "length r div 256 \<le> 2044" using assms(2) [OF Some] by simp
    ultimately show ?thesis using narrow by simp
  qed
  ultimately show ?thesis
    using assms Some
    by (simp add: serial_respond_def Let_def w_def [symmetric] uart_send_raw_def count_stat_def serial_answer_def
        with_checksum_def SERIAL_BUF_SIZE_def)
qed


lemma header_read_facts:
  assumes q: "quiet s" and n: "7 \<le> length (rx_pending s)"
  shows "quiet (header_read s)" "rx_pending (header_read s) = drop 7 (rx_pending s)"
    "take 7 (ser_rx (header_read s)) = take 7 (rx_pending s)" "line_out (header_read s) = line_out s"
    "ser_rx (header_read s) ! i = (if i < 7 then rx_pending s ! i else ser_rx s ! i)"
proof -
  have ok: "serial_ok s" "line_in s = []" using q by (simp_all add: quiet_def)
  have len: "length (ser_rx s) = 2048" using ok by (simp add: serial_ok_def SERIAL_BUF_SIZE_def)
  show "quiet (header_read s)"
    using consumed_ok [OF ok(1), of 7] ok(2) n len by (simp add: quiet_def header_read_def serial_ok_def)
  show "rx_pending (header_read s) = drop 7 (rx_pending s)"
    using rx_pending_consumed [OF ok(1), of 7] n by (simp add: header_read_def rx_pending_def uart_rx_avail_def)
  show "take 7 (ser_rx (header_read s)) = take 7 (rx_pending s)" "line_out (header_read s) = line_out s"
    "ser_rx (header_read s) ! i = (if i < 7 then rx_pending s ! i else ser_rx s ! i)"
    using n len by (simp_all add: header_read_def nth_append)
qed

text \<open>A tick at a frame serves it.\<close>

lemma tick_frame:
  assumes q: "quiet s" and p: "rx_pending s = serial_frame endpoint mosi miso_len @ rest"
    and n: "length (rx_pending s) \<le> 3072" and m: "length mosi \<le> 2040" "miso_len < 65536"
    and d: "serial_dispatch C endpoint mosi (min miso_len 2044) p = Some (resp, p')"
    and r: "\<And>bs. resp = Some bs \<Longrightarrow> length bs \<le> 2044"
  shows "\<exists>s'. serial_comms_tick C (s, p) = Some (s', p') \<and> quiet s' \<and> rx_pending s' = rest \<and>
    line_out s' = line_out s @ [SERIAL_HACK] @ serial_answer resp"
proof -
  let ?H = "serial_header endpoint (length mosi) miso_len"
  have m16: "length mosi < 65536" using m(1) by simp
  note H = serial_header_facts [where e = endpoint and m = "length mosi" and r = miso_len]
  define tail where "tail = (if mosi = [] then [] else with_checksum mosi)"
  have pend: "rx_pending s = ?H @ tail @ rest" by (simp add: p serial_frame_def tail_def)
  have seven: "7 \<le> length (rx_pending s)" using pend H(1) by (simp del: rx_pending_length)
  note h = header_read_facts [OF q seven]
  have H0: "?H \<noteq> []" using H(1) by auto
  have t: "serial_comms_tick C (s, p) = serial_payload C (header_read s, p)"
    using H H0 by (simp add: tick_header [OF q seven n]) (simp add: pend)
  have nth: "ser_rx (header_read s) ! i = ?H ! i" if "i < 7" for i
    using h(5) [of i] that H(1) by (simp add: pend nth_append)
  define s0 where "s0 = uart_send_raw [SERIAL_HACK] (header_read s)"
  have ok0: "serial_ok s0" "line_in s0 = []" using h(1) by (simp_all add: s0_def quiet_def serial_ok_def uart_send_raw_def)
  have "rx_pending s0 = rx_pending (header_read s)"
    by (simp add: s0_def rx_pending_def uart_rx_avail_def uart_send_raw_def)
  then have p0: "rx_pending s0 = tail @ rest" using h(2) H(1) pend by simp
  define s1 where "s1 = (consumed (length tail) s0)\<lparr>ser_rx := take 7 (ser_rx s0) @ tail @ drop (7 + length tail) (ser_rx s0)\<rparr>"
  have len0: "length (ser_rx s0) = 2048" using ok0 by (simp add: serial_ok_def SERIAL_BUF_SIZE_def)
  have tl: "length tail \<le> 2041" using m(1) by (simp add: tail_def with_checksum_def)
  have avt: "length tail \<le> uart_rx_avail s0" using p0 rx_pending_length [of s0] by (simp del: rx_pending_length)
  have recv: "(if 0 < length mosi then uart_recv_raw SERIAL_HEADER_SIZE (length mosi + 1) s0 else Some (True, s0)) = Some (True, s1)"
  proof (cases "mosi = []")
    case True
    then have "s1 = s0" using ok0(1) len0 by (simp add: s1_def tail_def)
    then show ?thesis using True by simp
  next
    case False
    then have tlen: "length tail = length mosi + 1" by (simp add: tail_def with_checksum_def)
    have "uart_recv_raw 7 (length tail) s0 =
        Some (True, (consumed (length tail) s0)\<lparr>ser_rx := take 7 (ser_rx s0) @ take (length tail) (rx_pending s0) @ drop (7 + length tail) (ser_rx s0)\<rparr>)"
      using avt tl by (intro recv_raw_quiet [OF ok0]) (simp_all add: SERIAL_BUF_SIZE_def)
    then show ?thesis using False unfolding tlen [symmetric] by (simp add: SERIAL_HEADER_SIZE_def p0 s1_def)
  qed
  have buf: "drop SERIAL_HEADER_SIZE (ser_rx s1) = tail @ drop (7 + length tail) (ser_rx s0)"
    using len0 by (simp add: s1_def SERIAL_HEADER_SIZE_def)
  have mos: "take (length mosi) (drop SERIAL_HEADER_SIZE (ser_rx s1)) = mosi"
    unfolding buf by (simp add: tail_def with_checksum_def)
  have chk: "serial_checksum (take (length mosi + 1) (drop SERIAL_HEADER_SIZE (ser_rx s1))) = 0" if "mosi \<noteq> []"
    unfolding buf using that checksum_closes(2) [of mosi] by (simp add: tail_def with_checksum_def)
  have len1: "length (ser_tx s1) = SERIAL_BUF_SIZE" using ok0(1) by (simp add: s1_def serial_ok_def)
  obtain s2 where s2: "serial_respond resp s1 = Some s2" "line_out s2 = line_out s1 @ serial_answer resp"
    "length (ser_tx s2) = SERIAL_BUF_SIZE" "ser_rx s2 = ser_rx s1" "uart_rx_buf s2 = uart_rx_buf s1"
    "uart_rx_rd s2 = uart_rx_rd s1" "uart_rx_wr s2 = uart_rx_wr s1" "line_in s2 = line_in s1"
    using serial_respond_answer [OF len1 r] by blast
  have E: "ser_rx (header_read s) ! 1 = endpoint" using nth [of 1] H(4) by simp
  have M: "le_word (ser_rx (header_read s) ! 2) (ser_rx (header_read s) ! 3) = length mosi"
    using nth [of 2] nth [of 3] H(5) [OF m16] by simp
  have R: "le_word (ser_rx (header_read s) ! 4) (ser_rx (header_read s) ! 5) = miso_len"
    using nth [of 4] nth [of 5] H(6) [OF m(2)] by simp
  have fits: "\<not> SERIAL_BUF_SIZE - SERIAL_HEADER_SIZE - 1 < length mosi" "SERIAL_BUF_SIZE - SERIAL_RESP_OVERHEAD = 2044"
    using m(1) by (simp_all add: SERIAL_BUF_SIZE_def SERIAL_HEADER_SIZE_def SERIAL_RESP_OVERHEAD_def)
  have chk': "\<not> (0 < length mosi \<and> serial_checksum (take (length mosi + 1) (drop SERIAL_HEADER_SIZE (ser_rx s1))) \<noteq> 0)"
    using chk by auto
  have pay: "serial_payload C (header_read s, p) = Some (s2, p')"
    unfolding serial_payload_def prod.case Let_def E M R s0_def [symmetric] fits(2) recv
    by (simp only: fits(1) chk' mos d s2(1) if_False bind.bind_lunit prod.case simp_thms)
  have "serial_ok (consumed (length tail) s0)" using ok0(1) by simp
  then have "quiet s2" using s2 ok0(2) tl len0 by (simp add: quiet_def serial_ok_def s1_def SERIAL_BUF_SIZE_def)
  moreover have "rx_pending s2 = rest"
    using rx_pending_consumed [OF ok0(1) avt] s2 p0 by (simp add: rx_pending_def uart_rx_avail_def s1_def)
  moreover have "line_out s1 = line_out s @ [SERIAL_HACK]" using h(4) by (simp add: s1_def s0_def uart_send_raw_def)
  ultimately show ?thesis using t pay s2(2) by simp
qed

fun serial_ticks :: "'p comms \<Rightarrow> nat \<Rightarrow> serial_state \<times> 'p \<Rightarrow> (serial_state \<times> 'p) option" where
  "serial_ticks C 0 x = Some x"
| "serial_ticks C (Suc n) x = serial_comms_tick C x \<bind> serial_ticks C n"

text \<open>C7: The transport resynchronises: whatever garbage stands in the ring before a frame - as long as no
  seven bytes of it pass for a header - it takes one silent step per byte of garbage, without calling the
  protocol, and then serves the frame: the right call with the payload, the
  acknowledgement and the framed answer, and exactly the bytes of the frame are consumed.\<close>

theorem serial_resync:
  assumes "quiet s" and "rx_pending s = garbage @ serial_frame endpoint mosi miso_len @ rest"
    and "length (rx_pending s) \<le> 3072" and "length mosi \<le> 2040" and "miso_len < 65536"
    and "\<forall>i < length garbage. \<not> header_good (take 7 (drop i (rx_pending s)))"
    and "serial_dispatch C endpoint mosi (min miso_len 2044) p = Some (resp, p')"
    and "\<forall>bs. resp = Some bs \<longrightarrow> length bs \<le> 2044"
  shows "\<exists>s'. serial_ticks C (length garbage + 1) (s, p) = Some (s', p') \<and> quiet s' \<and> rx_pending s' = rest \<and>
    line_out s' = line_out s @ [SERIAL_HACK] @ serial_answer resp"
  using assms
proof (induction garbage arbitrary: s)
  case Nil
  then show ?case using tick_frame [of s endpoint mosi miso_len rest C p resp p'] by auto
next
  case (Cons g gs)
  have "7 \<le> length (serial_frame endpoint mosi miso_len)"
    using serial_header_facts(1) by (simp add: serial_frame_def)
  then have seven: "7 \<le> length (rx_pending s)" using Cons.prems(2) by (simp del: rx_pending_length)
  have bad: "\<not> header_good (take 7 (rx_pending s))" using Cons.prems(6) [rule_format, of 0] by simp
  obtain s1 where s1: "serial_comms_tick C (s, p) = Some (s1, p)" "quiet s1" "rx_pending s1 = tl (rx_pending s)"
    "line_out s1 = line_out s"
    using tick_garbage [OF Cons.prems(1) seven Cons.prems(3) bad, of C p] by (elim exE conjE) (rule that)
  have p1: "rx_pending s1 = gs @ serial_frame endpoint mosi miso_len @ rest" using s1(3) Cons.prems(2) by simp
  have drop1: "drop i (rx_pending s1) = drop (Suc i) (rx_pending s)" for i unfolding s1(3) by (simp add: drop_Suc)
  have len1: "length (rx_pending s1) \<le> 3072" unfolding s1(3) using Cons.prems(3) by simp
  have bad1: "\<forall>i < length gs. \<not> header_good (take 7 (drop i (rx_pending s1)))"
  proof (intro allI impI)
    fix i assume "i < length gs"
    then show "\<not> header_good (take 7 (drop i (rx_pending s1)))"
      unfolding drop1 using Cons.prems(6) [rule_format, of "Suc i"] by simp
  qed
  from Cons.IH [OF s1(2) p1 len1 Cons.prems(4,5) bad1 Cons.prems(7,8)] s1(1,4) show ?case by simp
qed

subsection \<open>Calls\<close>

text \<open>The calls a transport makes, and a recorder that notes them instead of serving them.\<close>

datatype comms_call = Control_Call ControlPacket_t | Read_Call nat | Endpoint2_Call "u8 list" | Write_Call "u8 list"

fun perform :: "'p comms \<Rightarrow> comms_call \<Rightarrow> 'p \<Rightarrow> (u8 list \<times> 'p) option" where
  "perform C (Control_Call req) p = control_handler C req p"
| "perform C (Read_Call n) p = can_read_handler C n p"
| "perform C (Endpoint2_Call bs) p = map_option (Pair []) (endpoint2_handler C bs p)"
| "perform C (Write_Call bs) p = map_option (Pair []) (can_write_handler C bs p)"

definition recorder :: "comms_call list comms" where
  "recorder = \<lparr>control_handler = (\<lambda>req cs. Some ([], cs @ [Control_Call req])),
     can_read_handler = (\<lambda>n cs. Some ([], cs @ [Read_Call n])),
     endpoint2_handler = (\<lambda>bs cs. Some (cs @ [Endpoint2_Call bs])),
     can_write_handler = (\<lambda>bs cs. Some (cs @ [Write_Call bs]))\<rparr>"

text \<open>Two bytes of garbage, one of them a sync byte, before a request to read the CAN queue.\<close>

definition noisy :: serial_state where
  "noisy = (let bytes = [0x5A, 1] @ serial_frame 1 [] 0x4000
     in serial_init\<lparr>uart_rx_buf := bytes @ replicate (4096 - length bytes) 0, uart_rx_wr := length bytes\<rparr>)"

theorem serial_resync_witness:
  "\<exists>s'. serial_ticks recorder 3 (noisy, []) = Some (s', [Read_Call 2044]) \<and> rx_pending s' = [] \<and>
     line_out s' = [SERIAL_HACK] @ serial_answer (Some [])"
proof -
  have frame: "serial_frame 1 [] 0x4000 = [0x5A, 1, 0, 0, 0, 0x40, 0xB0]"
    by (simp add: serial_frame_def serial_header_def Let_def serial_checksum_def xor_bytes_def SERIAL_SYNC_BYTE_def SERIAL_CHECKSUM_START_def)
  have bytes: "noisy = serial_init\<lparr>uart_rx_buf := [0x5A, 1, 0x5A, 1, 0, 0, 0, 0x40, 0xB0] @ replicate 4087 0, uart_rx_wr := 9\<rparr>"
    by (simp add: noisy_def frame Let_def)
  have q: "quiet noisy"
    by (simp add: bytes quiet_def serial_ok_def serial_init_def UART_RX_BUF_SIZE_def SERIAL_BUF_SIZE_def)
  have "uart_rx_avail noisy = 9" by (simp add: bytes uart_rx_avail_def serial_init_def UART_RX_BUF_SIZE_def)
  then have p: "rx_pending noisy = [0x5A, 1, 0x5A, 1, 0, 0, 0, 0x40, 0xB0]"
    by (simp add: rx_pending_def) (simp add: bytes serial_init_def UART_RX_BUF_SIZE_def upt_rec)
  have p': "rx_pending noisy = [0x5A, 1] @ serial_frame 1 [] 0x4000 @ []" by (simp add: p frame)
  have bad: "\<forall>i < length [0x5A, 1 :: u8]. \<not> header_good (take 7 (drop i (rx_pending noisy)))"
    unfolding p by (auto simp: header_good_def serial_checksum_def xor_bytes_def SERIAL_CHECKSUM_START_def SERIAL_SYNC_BYTE_def less_Suc_eq)
  have d: "serial_dispatch recorder 1 [] (min 0x4000 2044) [] = Some (Some [], [Read_Call 2044])"
    by (simp add: serial_dispatch_def recorder_def)
  have out: "line_out noisy = []" by (simp add: bytes serial_init_def)
  have three: "length [0x5A, 1 :: u8] + 1 = 3" by simp
  obtain s' where s': "serial_ticks recorder (length [0x5A, 1 :: u8] + 1) (noisy, []) = Some (s', [Read_Call 2044])"
    "rx_pending s' = []" "line_out s' = line_out noisy @ [SERIAL_HACK] @ serial_answer (Some [])"
    using serial_resync [OF q p' _ _ _ bad d] by (auto simp: p simp del: rx_pending_length)
  show ?thesis
    by (rule exI [of _ s'], intro conjI, rule s'(1) [unfolded three], rule s'(2), rule s'(3) [unfolded out append_Nil])
qed

end
