(* ===== verification/Serial_Firmware.thy ===== *)
theory Serial_Firmware
  imports Serial_Comms Firmware_System
begin

text \<open>
  The serial transport on the running firmware: the contract a transport relies on - what the
  functions of the protocol do to their state and how much they answer - the proof that a transport which
  may rely on it stays in its buffers whatever the line delivers, and the interpretation of the
  contract by the firmware.
\<close>

subsection \<open>The contract\<close>

locale comms_laws =
  fixes C :: "'p comms"
    and ok :: "'p \<Rightarrow> bool"
  assumes control_law: "ok p \<Longrightarrow> control_handler C req p = Some (r, p') \<Longrightarrow> ok p' \<and> length r \<le> 2044"
    and can_read_law: "ok p \<Longrightarrow> can_read_handler C n p = Some (r, p') \<Longrightarrow> ok p' \<and> length r \<le> n"
    and endpoint2_law: "ok p \<Longrightarrow> endpoint2_handler C bs p = Some p' \<Longrightarrow> ok p'"
    and can_write_law: "ok p \<Longrightarrow> can_write_handler C bs p = Some p' \<Longrightarrow> ok p'"

context comms_laws begin

lemma dispatch_law:
  assumes "ok p" and "serial_dispatch C endpoint mosi n p = Some (resp, p')" and "n \<le> 2044"
  shows "ok p' \<and> (\<forall>r. resp = Some r \<longrightarrow> length r \<le> 2044)"
  using assms control_law [OF assms(1)] can_read_law [OF assms(1)] endpoint2_law [OF assms(1)] can_write_law [OF assms(1)]
  by (auto simp: serial_dispatch_def split: if_splits) fastforce+

end

subsection \<open>Any line\<close>

lemma dma_byte_ok: "serial_ok s \<Longrightarrow> serial_ok (dma_byte b s)"
  by (simp add: serial_ok_def dma_byte_def)

lemma dma_bytes_ok: "serial_ok s \<Longrightarrow> serial_ok (fold dma_byte bs s)"
  by (induction bs arbitrary: s) (simp_all add: dma_byte_ok)

lemma dma_arrive_ok: "serial_ok s \<Longrightarrow> serial_ok (snd (dma_arrive s))"
proof -
  assume s: "serial_ok s"
  have "serial_ok (s\<lparr>line_in := l\<rparr>)" for l using s by (simp add: serial_ok_def)
  then show ?thesis using s by (simp add: dma_arrive_def dma_bytes_ok split: list.split prod.split)
qed

lemma count_stat_ok [simp]: "serial_ok (count_stat f s) = serial_ok s"
  by (simp add: serial_ok_def count_stat_def)

lemma send_raw_ok [simp]: "serial_ok (uart_send_raw d s) = serial_ok s"
  by (simp add: serial_ok_def uart_send_raw_def)

lemma rewind_ok [simp]: "serial_ok s \<Longrightarrow> serial_ok (uart_rx_rewind_past mark s)"
  by (simp add: serial_ok_def uart_rx_rewind_past_def)

lemma flush_ok [simp]: "serial_ok s \<Longrightarrow> serial_ok (uart_flush_rx s)"
  by (simp add: serial_ok_def uart_flush_rx_def)

lemma recv_byte_ok: "serial_ok s \<Longrightarrow> serial_ok (snd (uart_recv_byte s))"
proof -
  assume "serial_ok s"
  then have s: "serial_ok (snd (dma_arrive s))" by (rule dma_arrive_ok)
  have "serial_ok (s'\<lparr>uart_rx_rd := (uart_rx_rd s' + 1) mod UART_RX_BUF_SIZE\<rparr>)" if "serial_ok s'" for s'
    using that by (simp add: serial_ok_def)
  then show ?thesis using s by (simp add: uart_recv_byte_def Let_def split_beta)
qed

lemma put_rx_ok: "serial_ok s \<Longrightarrow> i < 2048 \<Longrightarrow> \<exists>s'. put_rx i b s = Some s' \<and> serial_ok s'"
  by (simp add: serial_ok_def put_rx_def SERIAL_BUF_SIZE_def)

lemma recv_raw_ok: "serial_ok s \<Longrightarrow> i + n \<le> 2048 \<Longrightarrow> \<exists>b s'. uart_recv_raw i n s = Some (b, s') \<and> serial_ok s'"
proof (induction n arbitrary: i s)
  case (Suc n)
  obtain r s1 where r: "uart_recv_byte s = (r, s1)" by (cases "uart_recv_byte s")
  have s1: "serial_ok s1" using recv_byte_ok [OF Suc.prems(1)] r by simp
  show ?case
  proof (cases r)
    case (Some b)
    obtain s2 where "put_rx i b s1 = Some s2" "serial_ok s2" using put_rx_ok [OF s1, of i b] Suc.prems(2) by auto
    then show ?thesis using Suc.IH [of s2 "i + 1"] Suc.prems(2) r Some by simp
  qed (use r s1 in auto)
qed auto

lemma respond_ok:
  assumes "serial_ok s" and "\<And>r. resp = Some r \<Longrightarrow> length r \<le> 2044"
  shows "\<exists>s'. serial_respond resp s = Some s' \<and> serial_ok s'"
  using serial_respond_answer [of s resp] assms by (fastforce simp: serial_ok_def)

text \<open>What a tick asks of the protocol, whatever the protocol does.\<close>

definition serial_calls :: "serial_state \<Rightarrow> comms_call list" where
  "serial_calls s = (case serial_comms_tick recorder (s, []) of Some (s', cs) \<Rightarrow> cs | None \<Rightarrow> [])"

definition call_of :: "u8 \<Rightarrow> u8 list \<Rightarrow> nat \<Rightarrow> comms_call option" where
  "call_of endpoint mosi n =
     (if endpoint = 0 then (if length mosi \<ge> 7 then Some (Control_Call (control_of_bytes mosi)) else None)
      else if endpoint = 1 \<or> endpoint = 0x81 then (if mosi = [] then Some (Read_Call n) else None)
      else if endpoint = 2 then Some (Endpoint2_Call mosi)
      else if endpoint = 3 then (if mosi \<noteq> [] then Some (Write_Call mosi) else None)
      else None)"

lemma dispatch_call:
  "serial_dispatch C endpoint mosi n p =
    (case call_of endpoint mosi n of None \<Rightarrow> Some (None, p) | Some c \<Rightarrow> map_option (apfst Some) (perform C c p))"
  by (simp add: serial_dispatch_def call_of_def option.map_comp comp_def)

lemma perform_recorder: "perform recorder c cs = Some ([], cs @ [c])"
  by (cases c) (simp_all add: recorder_def)

text \<open>What a tick amounts to: nothing, or one call and its answer.\<close>

definition tick_meets :: "'p comms \<Rightarrow> ('p \<Rightarrow> bool) \<Rightarrow> comms_call list \<Rightarrow> 'p \<Rightarrow> (serial_state \<times> 'p) option \<Rightarrow> bool" where
  "tick_meets C ok cs p r \<longleftrightarrow>
     (case r of
        Some (s', p') \<Rightarrow> serial_ok s' \<and> ok p' \<and> (cs = [] \<and> p' = p \<or> (\<exists>c out. cs = [c] \<and> perform C c p = Some (out, p')))
      | None \<Rightarrow> \<exists>c. cs = [c] \<and> perform C c p = None)"

definition calls_of :: "(serial_state \<times> comms_call list) option \<Rightarrow> comms_call list" where
  "calls_of r = (case r of Some (s', cs) \<Rightarrow> cs | None \<Rightarrow> [])"

context comms_laws begin

lemma payload_safe:
  assumes s: "serial_ok s" and p: "ok p"
  shows "tick_meets C ok (calls_of (serial_payload recorder (s, []))) p (serial_payload C (s, p))"
proof -
  define m where "m = le_word (ser_rx s ! 2) (ser_rx s ! 3)"
  define n where "n = min (le_word (ser_rx s ! 4) (ser_rx s ! 5)) 2044"
  define s0 where "s0 = uart_send_raw [SERIAL_HACK] s"
  have sizes: "SERIAL_BUF_SIZE - SERIAL_HEADER_SIZE - 1 = 2040" "SERIAL_BUF_SIZE - SERIAL_RESP_OVERHEAD = 2044"
    by (simp_all add: SERIAL_BUF_SIZE_def SERIAL_HEADER_SIZE_def SERIAL_RESP_OVERHEAD_def)
  show ?thesis
  proof (cases "2040 < m")
    case True
    then show ?thesis using s p
      unfolding serial_payload_def prod.case Let_def m_def [symmetric] sizes by (simp add: tick_meets_def calls_of_def)
  next
    case False
    have s0: "serial_ok s0" using s by (simp add: s0_def)
    obtain b s1 where r: "(if 0 < m then uart_recv_raw SERIAL_HEADER_SIZE (m + 1) s0 else Some (True, s0)) = Some (b, s1)" "serial_ok s1"
      using recv_raw_ok [OF s0, of 7 "m + 1"] False s0 by (cases "0 < m") (auto simp: SERIAL_HEADER_SIZE_def)
    define mosi where "mosi = take m (drop SERIAL_HEADER_SIZE (ser_rx s1))"
    define bad where "bad \<longleftrightarrow> 0 < m \<and> serial_checksum (take (m + 1) (drop SERIAL_HEADER_SIZE (ser_rx s1))) \<noteq> 0"
    define e where "e = ser_rx s ! 1"
    have eq: "serial_payload D (s, q) =
        (if \<not> b then Some (count_stat (\<lambda>t. t\<lparr>mosi_timeout := mosi_timeout t + 1\<rparr>) s1, q)
         else if bad then Some (uart_send_raw [SERIAL_NACK] (count_stat (\<lambda>t. t\<lparr>mosi_checksum := mosi_checksum t + 1\<rparr>) s1), q)
         else do { (resp, q) \<leftarrow> serial_dispatch D e mosi n q; s \<leftarrow> serial_respond resp s1; Some (s, q) })" for D :: "'q comms" and q
      unfolding serial_payload_def prod.case Let_def m_def [symmetric] sizes n_def [symmetric] s0_def [symmetric] e_def [symmetric] r(1)
      using False by (simp add: mosi_def bad_def)
    obtain s3 where s3: "serial_respond None s1 = Some s3" "serial_ok s3" using respond_ok [OF r(2), of None] by auto
    obtain s4 where s4: "serial_respond (Some []) s1 = Some s4" "serial_ok s4" using respond_ok [OF r(2), of "Some []"] by auto
    consider "\<not> b \<or> bad" | "b" "\<not> bad" "call_of e mosi n = None" | c where "b" "\<not> bad" "call_of e mosi n = Some c" by blast
    then show ?thesis
    proof cases
      case 1
      then show ?thesis using r(2) p by (auto simp: eq tick_meets_def calls_of_def)
    next
      case 2
      then show ?thesis using s3 p by (simp add: eq dispatch_call tick_meets_def calls_of_def)
    next
      case 3
      have calls: "calls_of (serial_payload recorder (s, [])) = [c]"
        using 3 s4(1) by (simp add: eq dispatch_call perform_recorder calls_of_def)
      show ?thesis
      proof (cases "perform C c p")
        case None
        then show ?thesis using 3 calls by (simp add: eq dispatch_call tick_meets_def)
      next
        case (Some x)
        obtain out p' where x: "x = (out, p')" by (cases x)
        have "serial_dispatch C e mosi n p = Some (Some out, p')" using 3 Some x by (simp add: dispatch_call)
        then have d: "ok p'" "length out \<le> 2044"
          using dispatch_law [OF p, of e mosi n "Some out" p'] by (auto simp: n_def)
        obtain s2 where "serial_respond (Some out) s1 = Some s2" "serial_ok s2" using respond_ok [OF r(2), of "Some out"] d(2) by auto
        then show ?thesis using 3 calls d Some x by (simp add: eq dispatch_call tick_meets_def)
      qed
    qed
  qed
qed

lemma tick_safe:
  assumes s: "serial_ok s" and p: "ok p"
  shows "tick_meets C ok (serial_calls s) p (serial_comms_tick C (s, p))"
proof -
  obtain late s1 where a: "dma_arrive s = (late, s1)" by (cases "dma_arrive s")
  have s1: "serial_ok s1" using dma_arrive_ok [OF s] a by simp
  obtain r s2 where b: "uart_recv_byte s1 = (r, s2)" by (cases "uart_recv_byte s1")
  have s2: "serial_ok s2" using recv_byte_ok [OF s1] b by simp
  have calls: "serial_calls s = calls_of (serial_comms_tick recorder (s, []))" by (simp add: serial_calls_def calls_of_def)
  show ?thesis
  proof (cases r)
    case None
    then show ?thesis unfolding calls using a b s1 s2 p by (simp add: serial_comms_tick_def Let_def tick_meets_def calls_of_def)
  next
    case (Some c)
    obtain s3 where c: "put_rx 0 c s2 = Some s3" "serial_ok s3" using put_rx_ok [OF s2, of 0 c] by auto
    obtain d s4 where d: "uart_recv_raw 1 (SERIAL_HEADER_SIZE - 1) s3 = Some (d, s4)" "serial_ok s4"
      using recv_raw_ok [OF c(2), of 1 "SERIAL_HEADER_SIZE - 1"] by (auto simp: SERIAL_HEADER_SIZE_def)
    consider "uart_rx_avail s1 > UART_RX_BUF_SIZE * 3 div 4 \<or> c \<noteq> SERIAL_SYNC_BYTE \<or> \<not> d \<or> serial_checksum (take SERIAL_HEADER_SIZE (ser_rx s4)) \<noteq> 0"
      | "\<not> uart_rx_avail s1 > UART_RX_BUF_SIZE * 3 div 4" "c = SERIAL_SYNC_BYTE" d "serial_checksum (take SERIAL_HEADER_SIZE (ser_rx s4)) = 0" by blast
    then show ?thesis
    proof cases
      case 1
      then show ?thesis unfolding calls using a b c d s1 p Some
        by (auto simp: serial_comms_tick_def Let_def tick_meets_def calls_of_def)
    next
      case 2
      then have "serial_comms_tick C (s, p) = serial_payload C (s4, p)"
        "serial_comms_tick recorder (s, []) = serial_payload recorder (s4, [])"
        using a b c d Some by (simp_all add: serial_comms_tick_def Let_def)
      then show ?thesis unfolding calls using payload_safe [OF d(2) p] by simp
    qed
  qed
qed

end

subsection \<open>The firmware as the provider\<close>

text \<open>What the functions of the protocol read besides the state of the firmware.\<close>

record comms_env =
  env_hw :: can_hw
  env_control :: control_env
  env_senses :: senses
  env_txes :: "(nat \<Rightarrow> bool) list"
  env_stale :: u8

definition firmware_comms :: "fw_build \<Rightarrow> board \<Rightarrow> comms_env \<Rightarrow> (panda_state \<times> uart_rings) comms" where
  "firmware_comms F bd E =
     \<lparr>control_handler = (\<lambda>req (st, rs). case comms_control_handler F (env_hw E) bd (env_control E) (env_senses E) req st of
        Some (Replied r st) \<Rightarrow> Some (r, st, rs) | _ \<Rightarrow> None),
      can_read_handler = (\<lambda>n (st, rs). map_option (\<lambda>(out, st). (out, st, rs)) (host_read n st)),
      endpoint2_handler = (\<lambda>bs (st, rs). map_option (Pair st) (comms_endpoint2_write (env_txes E) (env_stale E) bs rs)),
      can_write_handler = (\<lambda>bs (st, rs). map_option (\<lambda>st. (st, rs)) (host_write F (env_hw E) bs st))\<rparr>"

text \<open>Sizes the code fixes at compile time, or the memory map does.\<close>

definition env_ok :: "comms_env \<Rightarrow> bool" where
  "env_ok E \<longleftrightarrow> length (stack_bytes (env_hw E)) = 8 \<and>
     (let ce = env_control E in length (uid_bytes ce) = 12 \<and> length (serial_number ce) = 16 \<and>
       length (provision_chunk ce) = 32 \<and> (\<forall>k. length (signature_at ce k) = 64) \<and> length (gitversion ce) \<le> 64 \<and>
       length (serial_stats_bytes ce) = 48 \<and> length (spi_error_bytes ce) = 2 \<and> (\<forall>k. length (can_registers ce k) \<le> 16))"

definition serving :: "fw_build \<Rightarrow> board \<Rightarrow> panda_state \<times> uart_rings \<Rightarrow> bool" where
  "serving F bd = (\<lambda>(st, rs). fw_reaches F bd st \<and> \<not> CANFD (sb F) \<and> rings_ok rs)"

lemma word_lengths: "length (word_bytes w) = 4" "length (le16 x) = 2" "length (vehicle_state_bytes v) = 27"
  by (simp_all add: word_bytes_def le16_def vehicle_state_bytes_def)

text \<open>No answer is longer than the response buffer of the USB transport.\<close>

lemma query_length:
  assumes "env_ok E" and "control_query F (env_control E) e req st = Some r"
  shows "length r \<le> 64"
proof -
  have regs: "length (concat (map word_bytes ws)) = 4 * length ws" for ws
    by (induction ws) (simp_all add: word_lengths)
  have prov: "length (get_provision_chunk (provision_chunk (env_control E))) = 32"
    using assms(1) by (simp add: env_ok_def Let_def get_provision_chunk_def)
  have sizes: "length (uid_bytes (env_control E)) = 12" "length (serial_number (env_control E)) = 16" "length (signature_at (env_control E) k) = 64"
    "length (gitversion (env_control E)) \<le> 64" "length (serial_stats_bytes (env_control E)) = 48"
    "length (spi_error_bytes (env_control E)) = 2" "length (can_registers (env_control E) k) \<le> 16" for k
    using assms(1) by (simp_all add: env_ok_def Let_def)
  have health: "length (get_health_pkt (env_control E) e st) \<le> 64"
    using sizes by (simp add: get_health_pkt_def word_lengths)
  have regs': "length (concat (map word_bytes (can_registers (env_control E) k))) \<le> 64" for k
    using sizes(7) [of k] by (simp add: regs)
  show ?thesis
    using assms(2) unfolding control_query_def Let_def
    by (auto simp: word_lengths sizes prov health regs' USBPACKET_MAX_SIZE_def split: if_splits option.splits
        intro: order_trans [OF sizes(4)] order_trans [OF min.cobounded2])
qed

lemma control_reply_length:
  assumes "env_ok E" and "comms_control_handler F hw bd (env_control E) e req st = Some (Replied r st')"
  shows "length r \<le> 64"
proof (cases "control_query F (env_control E) e req st")
  case (Some q)
  then show ?thesis using query_length [OF assms(1) Some] assms(2) by (simp add: comms_control_handler_def)
next
  case None
  have len: "length (can_health_bytes ce irqs h b) \<le> 52 + 4 * length irqs" for ce irqs h b
    by (induction irqs) (simp_all add: can_health_bytes_def word_lengths)
  have irqs: "length (can_irq_number F n) = 3" for n by (simp add: can_irq_number_def Let_def)
  have h: "length (can_health_bytes ce (can_irq_number F n) h b) \<le> 64" for ce n h b
    using len [of ce "can_irq_number F n" h b] irqs [of n] by simp
  show ?thesis
    using None assms(2) h
    by (auto simp: comms_control_handler_def Let_def control_can_health_def enter_bootloader_def split: if_splits)
qed


lemma host_read_length:
  assumes "psound F st" and "host_read n st = Some (r, st')"
  shows "length r \<le> n"
proof -
  let ?q = "can_rx_q (can st)"
  have q: "queue_ok ?q" using assms(1) by (simp add: psound_def sound_def driver_ok_def)
  have "list_all fits (ring_list ?q)" using queue_drop [OF q] fits_pkt_ok by (auto simp: list_all_iff)
  then have "read_ok (can_read_buffer st) ?q" using assms(1) q by (simp add: psound_def read_ok_def queue_ok_def)
  from comms_can_read_stream [OF this, of n] show ?thesis using assms(2) by (auto simp: host_read_def)
qed

lemma endpoint2_none: "rings_ok rs \<Longrightarrow> comms_endpoint2_write txes stale bs rs = None \<longleftrightarrow> (\<exists>x xs. bs = 4 # x # xs)"
  by (rule endpoint2_exact [THEN conjunct1])

lemma endpoint2_rings_ok: "rings_ok rs \<Longrightarrow> comms_endpoint2_write txes stale bs rs = Some rs' \<Longrightarrow> rings_ok rs'"
  by (rule endpoint2_exact [THEN conjunct2, rule_format, THEN conjunct1])

lemma serving_step:
  "serving F bd (st, rs) \<Longrightarrow> env_ok E \<Longrightarrow> fw_step F bd (env_hw E) ev st = Running st' \<Longrightarrow> serving F bd (st', rs)"
  unfolding serving_def env_ok_def using reach_step by blast

interpretation firmware: comms_laws "firmware_comms F bd E" "\<lambda>p. env_ok E \<and> serving F bd p" for F bd E
proof
  fix p p' :: "panda_state \<times> uart_rings" and req r
  assume ok: "env_ok E \<and> serving F bd p" and c: "control_handler (firmware_comms F bd E) req p = Some (r, p')"
  obtain st rs where p: "p = (st, rs)" by (cases p)
  obtain st' where st': "comms_control_handler F (env_hw E) bd (env_control E) (env_senses E) req st = Some (Replied r st')" "p' = (st', rs)"
    using c p by (auto simp: firmware_comms_def split: option.splits control_outcome.splits)
  have step: "fw_step F bd (env_hw E) (Request req (env_control E) (env_senses E)) st = Running st'" using st'(1) by simp
  then show "(env_ok E \<and> serving F bd p') \<and> length r \<le> 2044"
    using ok p st' control_reply_length [of E F "env_hw E" bd "env_senses E" req st r st']
      serving_step [OF _ _ step] by simp
next
  fix p p' :: "panda_state \<times> uart_rings" and n r
  assume ok: "env_ok E \<and> serving F bd p" and c: "can_read_handler (firmware_comms F bd E) n p = Some (r, p')"
  obtain st rs where p: "p = (st, rs)" by (cases p)
  obtain st' where st': "host_read n st = Some (r, st')" "p' = (st', rs)"
    using c p by (auto simp: firmware_comms_def)
  have step: "fw_step F bd (env_hw E) (HostRead n) st = Running st'" using st'(1) by (simp add: continue_def)
  moreover have "length r \<le> n"
    using host_read_length [of F st n r st'] reaches_sound [of F bd st] ok p st' by (simp add: serving_def)
  ultimately show "(env_ok E \<and> serving F bd p') \<and> length r \<le> n"
    using ok p st'(2) serving_step [OF _ _ step] by simp
next
  fix p p' :: "panda_state \<times> uart_rings" and bs
  assume ok: "env_ok E \<and> serving F bd p" and c: "endpoint2_handler (firmware_comms F bd E) bs p = Some p'"
  then show "env_ok E \<and> serving F bd p'"
    using endpoint2_rings_ok by (auto simp: firmware_comms_def serving_def split: prod.splits)
next
  fix p p' :: "panda_state \<times> uart_rings" and bs
  assume ok: "env_ok E \<and> serving F bd p" and c: "can_write_handler (firmware_comms F bd E) bs p = Some p'"
  obtain st rs where p: "p = (st, rs)" by (cases p)
  obtain st' where st': "host_write F (env_hw E) bs st = Some st'" "p' = (st', rs)"
    using c p by (auto simp: firmware_comms_def)
  have step: "fw_step F bd (env_hw E) (HostWrite bs) st = Running st'" using st'(1) by (simp add: continue_def)
  then show "env_ok E \<and> serving F bd p'"
    using ok p st'(2) serving_step [OF _ _ step] by simp
qed

subsection \<open>The firmware with its transport\<close>

lemma perform_step:
  assumes "perform (firmware_comms F bd E) c (st, rs) = Some (out, st', rs')"
  shows "st' = st \<or> (\<exists>ev. fw_step F bd (env_hw E) ev st = Running st')"
proof (cases c)
  case (Control_Call req)
  then have "fw_step F bd (env_hw E) (Request req (env_control E) (env_senses E)) st = Running st'"
    using assms by (auto simp: firmware_comms_def split: option.splits control_outcome.splits)
  then show ?thesis by blast
next
  case (Read_Call n)
  then have "fw_step F bd (env_hw E) (HostRead n) st = Running st'"
    using assms by (auto simp: firmware_comms_def continue_def)
  then show ?thesis by blast
next
  case (Endpoint2_Call bs)
  then show ?thesis using assms by (auto simp: firmware_comms_def)
next
  case (Write_Call bs)
  then have "fw_step F bd (env_hw E) (HostWrite bs) st = Running st'"
    using assms by (auto simp: firmware_comms_def continue_def)
  then show ?thesis by blast
qed

text \<open>The machine: interrupts and other events as before, any behaviour of the line, and the ticks of the
  transport in the main loop.\<close>

inductive serial_reaches :: "fw_build \<Rightarrow> board \<Rightarrow> serial_state \<Rightarrow> panda_state \<Rightarrow> uart_rings \<Rightarrow> bool" for F bd where
  serial_start: "main_init F hw bd e = Some st \<Longrightarrow> serial_reaches F bd serial_init st (uart_rings_init False)"
| serial_interrupt: "serial_reaches F bd s st rs \<Longrightarrow> length (stack_bytes hw) = 8 \<Longrightarrow>
    fw_step F bd hw ev st = Running st' \<Longrightarrow> serial_reaches F bd s st' rs"
| serial_line: "serial_reaches F bd s st rs \<Longrightarrow> serial_reaches F bd (s\<lparr>line_in := batches\<rparr>) st rs"
| serial_tick: "serial_reaches F bd s st rs \<Longrightarrow> env_ok E \<Longrightarrow>
    serial_comms_tick (firmware_comms F bd E) (s, st, rs) = Some (s', st', rs') \<Longrightarrow> serial_reaches F bd s' st' rs'"

lemma serial_reaches_ok:
  "serial_reaches F bd s st rs \<Longrightarrow> \<not> CANFD (sb F) \<Longrightarrow> serial_ok s \<and> serving F bd (st, rs)"
proof (induction rule: serial_reaches.induct)
  case (serial_start hw e st)
  then show ?case
    using reach_init [of F hw bd e st] rings_init_ok by (simp add: serial_init_def serial_ok_def serving_def)
next
  case (serial_interrupt s st rs hw ev st')
  then show ?case using reach_step [of F bd st hw ev st'] by (simp add: serving_def)
next
  case (serial_line s st rs batches)
  then show ?case by (simp add: serial_ok_def)
next
  case (serial_tick s st rs E s' st' rs')
  then show ?case using firmware.tick_safe [of s E F bd "(st, rs)"] by (auto simp: tick_meets_def)
qed

text \<open>The calls the firmware does not return from: a reset, the inputs no handler survives, a byte for the
  port without a ring.\<close>

fun fatal :: "fw_build \<Rightarrow> board \<Rightarrow> comms_env \<Rightarrow> comms_call \<Rightarrow> panda_state \<Rightarrow> bool" where
  "fatal F bd E (Control_Call req) st \<longleftrightarrow>
     (\<exists>m. fw_step F bd (env_hw E) (Request req (env_control E) (env_senses E)) st = Restarted m) \<or>
     hostile F (Request req (env_control E) (env_senses E)) st"
| "fatal F bd E (Read_Call n) st \<longleftrightarrow> False"
| "fatal F bd E (Endpoint2_Call bs) st \<longleftrightarrow> (\<exists>x xs. bs = 4 # x # xs)"
| "fatal F bd E (Write_Call bs) st \<longleftrightarrow> hostile F (HostWrite bs) st"

lemma fatal_iff:
  assumes "serving F bd (st, rs)" and "env_ok E"
  shows "perform (firmware_comms F bd E) c (st, rs) = None \<longleftrightarrow> fatal F bd E c st"
proof -
  have st: "psound F st" "\<not> CANFD (sb F)" and rs: "rings_ok rs"
    using assms(1) reaches_sound [of F bd st] by (simp_all add: serving_def)
  have hw: "length (stack_bytes (env_hw E)) = 8" using assms(2) by (simp add: env_ok_def)
  note answered = step_answered [OF hw st(2,1), where bd = bd]
  show ?thesis
  proof (cases c)
    case (Control_Call req)
    then show ?thesis
      using answered [of "Request req (env_control E) (env_senses E)"]
      by (auto simp: firmware_comms_def answered_def split: option.splits control_outcome.splits)
  next
    case (Read_Call n)
    then show ?thesis using host_read_sound [OF st(1), of n] by (auto simp: firmware_comms_def)
  next
    case (Endpoint2_Call bs)
    then show ?thesis using endpoint2_none [OF rs] by (simp add: firmware_comms_def)
  next
    case (Write_Call bs)
    then show ?thesis
      using answered [of "HostWrite bs"] by (auto simp: firmware_comms_def answered_def continue_def split: option.splits)
  qed
qed



definition bench_env :: comms_env where
  "bench_env = \<lparr>env_hw = plain_hw,
     env_control = \<lparr>voltage_mV = 12000, current_mA = 300, interrupt_load = 0, spi_error_bytes = [0, 0], hw_type = 0,
       uid_bytes = replicate 12 1, call_rates = [], serial_number = replicate 16 2, provision_chunk = replicate 32 0xff,
       signature_at = (\<lambda>_. replicate 64 0), serial_stats_bytes = replicate 48 0, ep1_counters = (0, 0),
       can_registers = (\<lambda>_. []), gitversion = [0x44], uart_pending = (\<lambda>_. None)\<rparr>,
     env_senses = \<lparr>adc_SBU1 = 0, adc_SBU2 = 0, gpio_SBU1 = True, gpio_SBU2 = True, som_gpio = True,
       som_serial_ptr = 0, register_divergent = False\<rparr>,
     env_txes = [], env_stale = 0\<rparr>"


end
