(* ===== verification/Pandad_Can.thy ===== *)
theory Pandad_Can
  imports Can_Comms
begin

text \<open>
  The host end of the packet stream (\<^verbatim>\<open>openpilot/selfdrive/pandad/panda.cc\<close>, \<open>panda.h\<close>): the program
  of the driving computer packs the messages to transmit into chunks of bytes and cuts the bytes it receives
  into frames. The lemmas relate both to the stream functions of \<open>Can_Comms\<close>, the other end of the line.

  A failed assertion, which ends the program, and an access outside an array are the value \<open>None\<close>.
\<close>

unbundle bit_operations_syntax

type_synonym u64 = "64 word"

subsection \<open>The header\<close>

text \<open>The packed bit fields of \<open>can_header\<close>; its size is six bytes.\<close>

record can_header =
  h_reserved :: bool
  h_bus :: int
  h_data_len_code :: nat
  h_rejected :: bool
  h_returned :: bool
  h_extended :: bool
  h_addr :: int
  h_checksum :: u8

definition header_bytes :: "can_header \<Rightarrow> u8 list" where
  "header_bytes h =
     (let w = of_bool (h_rejected h) + 2 * of_bool (h_returned h) + 4 * of_bool (h_extended h) + 8 * h_addr h
      in [word_of_int (of_bool (h_reserved h) + 2 * h_bus h + 16 * int (h_data_len_code h)),
          word_of_int w, word_of_int (w div 256), word_of_int (w div 65536), word_of_int (w div 16777216),
          h_checksum h])"

definition header_of_bytes :: "u8 list \<Rightarrow> can_header" where
  "header_of_bytes bs =
     (let b = uint (bs ! 0);
          w = uint (bs ! 1) + 256 * uint (bs ! 2) + 65536 * uint (bs ! 3) + 16777216 * uint (bs ! 4)
      in \<lparr>h_reserved = odd b, h_bus = b div 2 mod 8, h_data_len_code = nat (b div 16),
          h_rejected = odd w, h_returned = odd (w div 2), h_extended = odd (w div 4), h_addr = w div 8,
          h_checksum = bs ! 5\<rparr>)"

definition host_checksum :: "u8 list \<Rightarrow> nat \<Rightarrow> u8 option" where
  "host_checksum dat len =
     (if len \<le> length dat then Some (fold (\<lambda>b checksum. checksum XOR b) (take len dat) 0) else None)"

subsection \<open>Packing\<close>

text \<open>A message of the \<open>sendcan\<close> socket (\<open>cereal::CanData\<close>).\<close>

record CanData =
  msg_address :: u32
  msg_dat :: "u8 list"
  msg_src :: u8

definition USB_TX_SOFT_LIMIT :: nat where "USB_TX_SOFT_LIMIT = 0x100"
definition PANDA_BUS_OFFSET :: u8 where "PANDA_BUS_OFFSET = 4"

definition len_to_dlc :: "u8 \<Rightarrow> nat" where
  "len_to_dlc n =
     (let len = unat n in
      if len \<le> 8 then len
      else if len \<le> 24 then 8 + (len - 8) div 4 + (if len mod 4 \<noteq> 0 then 1 else 0)
      else 11 + len div 16 + (if len mod 16 \<noteq> 0 then 1 else 0))"

text \<open>The header of a message. The address loses what exceeds the 29 bits of its field.\<close>

definition header_of_msg :: "CanData \<Rightarrow> can_header" where
  "header_of_msg m =
     \<lparr>h_reserved = False, h_bus = uint (msg_src m) mod 8, h_data_len_code = len_to_dlc (of_nat (length (msg_dat m))),
      h_rejected = False, h_returned = False, h_extended = (0x800 \<le> msg_address m),
      h_addr = uint (msg_address m) mod 536870912, h_checksum = 0\<rparr>"

definition msg_asserts :: "CanData \<Rightarrow> bool" where
  "msg_asserts m \<longleftrightarrow> length (msg_dat m) \<le> 64 \<and>
     int (length (msg_dat m)) = dlc_to_len ! len_to_dlc (of_nat (length (msg_dat m)))"

text \<open>One message at \<open>send_buf[pos]\<close>: the header, the data, then the checksum over both.\<close>

definition pack_msg :: "CanData \<Rightarrow> u8 list \<Rightarrow> nat \<Rightarrow> (u8 list \<times> nat) option" where
  "pack_msg m send_buf pos =
     (if \<not> msg_asserts m then None
      else do { send_buf \<leftarrow> memcpy send_buf pos (header_bytes (header_of_msg m));
                send_buf \<leftarrow> memcpy send_buf (pos + 6) (msg_dat m);
                let msg_size = 6 + length (msg_dat m);
                c \<leftarrow> host_checksum (drop pos send_buf) msg_size;
                Some (send_buf[pos + 5 := c], pos + msg_size) })"

text \<open>The list of buffers handed to the write function, in order.\<close>

fun pack_loop :: "CanData list \<Rightarrow> u8 list \<Rightarrow> nat \<Rightarrow> u8 list list option" where
  "pack_loop [] send_buf pos = Some (if pos > 0 then [take pos send_buf] else [])"
| "pack_loop (m # ms) send_buf pos =
     (if msg_src m \<ge> PANDA_BUS_OFFSET then pack_loop ms send_buf pos
      else do { (send_buf, pos) \<leftarrow> pack_msg m send_buf pos;
                if pos \<ge> USB_TX_SOFT_LIMIT
                then map_option (Cons (take pos send_buf)) (pack_loop ms send_buf 0)
                else pack_loop ms send_buf pos })"

definition pack_can_buffer :: "u8 list \<Rightarrow> CanData list \<Rightarrow> u8 list list option" where
  "pack_can_buffer send_buf ms = pack_loop ms send_buf 0"

subsection \<open>Unpacking\<close>

record can_frame =
  frame_address :: int
  frame_dat :: "u8 list"
  frame_src :: int

definition CAN_REJECTED_BUS_OFFSET :: int where "CAN_REJECTED_BUS_OFFSET = 0xC0"
definition CAN_RETURNED_BUS_OFFSET :: int where "CAN_RETURNED_BUS_OFFSET = 0x80"

definition frame_of :: "can_header \<Rightarrow> u8 list \<Rightarrow> can_frame" where
  "frame_of h dat =
     \<lparr>frame_address = h_addr h, frame_dat = dat,
      frame_src = h_bus h + (if h_rejected h then CAN_REJECTED_BUS_OFFSET else 0) +
        (if h_returned h then CAN_RETURNED_BUS_OFFSET else 0)\<rparr>"

text \<open>The loop, from a position on: whether no checksum failed, where it stopped, the frames. The bound of
  the loop is computed in the unsigned type of \<open>sizeof\<close>, so it is huge when less than a header is left.\<close>

function unpack_loop :: "u8 list \<Rightarrow> nat \<Rightarrow> nat \<Rightarrow> can_frame list \<Rightarrow> (bool \<times> nat \<times> can_frame list) option" where
  "unpack_loop bytes len pos out =
     (if (of_nat pos :: u64) \<le> of_nat len - 6 then
        do { hb \<leftarrow> slice bytes pos 6;
             let header = header_of_bytes hb;
             let data_len = nat (dlc_to_len ! h_data_len_code header);
             if pos + 6 + data_len > len then Some (True, pos, out)
             else do { c \<leftarrow> host_checksum (drop pos bytes) (6 + data_len);
                       if c \<noteq> 0 then Some (False, pos, out)
                       else do { dat \<leftarrow> slice bytes (pos + 6) data_len;
                                 unpack_loop bytes len (pos + 6 + data_len) (out @ [frame_of header dat]) } } }
      else Some (True, pos, out))"
  by pat_completeness auto

termination
  by (relation "measure (\<lambda>(bytes, len, pos, out). len - pos)") auto

declare unpack_loop.simps [simp del]

text \<open>The receive buffer of a \<open>Panda\<close> and its fill level. A failed checksum empties it and resets the
  communication; otherwise the unfinished frame moves to the front.\<close>

record panda =
  receive_buffer :: "u8 list"
  receive_buffer_size :: nat
  can_resets :: nat             \<comment> \<open>calls of \<open>can_reset_communications\<close>\<close>

definition RECV_SIZE :: nat where "RECV_SIZE = 0x4000"

definition unpack_can_buffer :: "panda \<Rightarrow> (bool \<times> can_frame list \<times> panda) option" where
  "unpack_can_buffer P =
     do { (ok, pos, out) \<leftarrow> unpack_loop (receive_buffer P) (receive_buffer_size P) 0 [];
          if \<not> ok then Some (False, out, P\<lparr>receive_buffer_size := 0, can_resets := can_resets P + 1\<rparr>)
          else do { rest \<leftarrow> slice (receive_buffer P) pos (receive_buffer_size P - pos);
                    d \<leftarrow> memcpy (receive_buffer P) 0 rest;
                    Some (True, out, P\<lparr>receive_buffer := d, receive_buffer_size := receive_buffer_size P - pos\<rparr>) } }"

text \<open>One read: \<open>reply\<close> is what the transport delivered (nothing is an error), \<open>healthy\<close> its state after
  the call.\<close>

definition can_receive :: "u8 list option \<Rightarrow> bool \<Rightarrow> panda \<Rightarrow> (bool \<times> can_frame list \<times> panda) option" where
  "can_receive reply healthy P =
     (if receive_buffer_size P + RECV_SIZE > length (receive_buffer P) then None
      else
        let bs = (case reply of None \<Rightarrow> [] | Some bs \<Rightarrow> bs)
        in do { d \<leftarrow> memcpy (receive_buffer P) (receive_buffer_size P) bs;
                let P = P\<lparr>receive_buffer := d\<rparr>;
                if \<not> healthy then Some (False, [], P)
                else if length bs > 0
                then unpack_can_buffer (P\<lparr>receive_buffer_size := receive_buffer_size P + length bs\<rparr>)
                else Some (True, [], P) })"

subsection \<open>Packets and headers\<close>

lemma host_checksum_eq: "host_checksum bs n = (if n \<le> length bs then Some (xor_sum (take n bs)) else None)"
  by (simp add: host_checksum_def xor_sum_def)

text \<open>The packet of the firmware that a message stands for.\<close>

definition packet_of_header :: "can_header \<Rightarrow> u8 list \<Rightarrow> CANPacket" where
  "packet_of_header h dat =
     \<lparr>fd = h_reserved h, bus = h_bus h, data_len_code = h_data_len_code h, rejected = h_rejected h,
      returned = h_returned h, extended = h_extended h, addr = h_addr h, checksum = h_checksum h, data = dat\<rparr>"

definition header_of_packet :: "CANPacket \<Rightarrow> can_header" where
  "header_of_packet p =
     \<lparr>h_reserved = fd p, h_bus = bus p, h_data_len_code = data_len_code p, h_rejected = rejected p,
      h_returned = returned p, h_extended = extended p, h_addr = addr p, h_checksum = checksum p\<rparr>"

lemma header_bytes_packet: "header_bytes h @ dat = packet_bytes (packet_of_header h dat)"
  by (simp add: header_bytes_def packet_bytes_def packet_head_def packet_of_header_def addr_word_def Let_def upt_rec)

lemma header_bytes_length [simp]: "length (header_bytes h) = 6"
  by (simp add: header_bytes_def Let_def)

lemma header_of_bytes_packet: "6 \<le> length bs \<Longrightarrow> header_of_bytes (take 6 bs) = header_of_packet (packet_of_bytes bs)"
  by (simp add: header_of_bytes_def header_of_packet_def packet_of_bytes_def Let_def)

definition summed :: "CANPacket \<Rightarrow> CANPacket" where
  "summed p = p\<lparr>checksum := xor_sum (packet_head p) XOR xor_sum (data p)\<rparr>"

definition msg_packet :: "CanData \<Rightarrow> CANPacket" where
  "msg_packet m = summed (packet_of_header (header_of_msg m) (msg_dat m))"

lemma summed_xor [simp]: "xor_sum (packet_bytes (summed p)) = 0"
proof -
  have "h XOR ((h XOR d) XOR d) = 0" for h d :: u8 by (simp add: xor.assoc [symmetric])
  then show ?thesis by (simp add: packet_bytes_def summed_def)
qed

lemma len_to_dlc_less: "unat n \<le> 64 \<Longrightarrow> len_to_dlc n < 16"
proof -
  assume n: "unat n \<le> 64"
  have "\<forall>k \<in> set [0..<65]. len_to_dlc (of_nat k) < 16" by code_simp
  moreover have "unat n \<in> set [0..<65]" using n by simp
  ultimately have "len_to_dlc (of_nat (unat n)) < 16" by (rule bspec)
  then show ?thesis by simp
qed

lemma msg_dlc: "msg_asserts m \<Longrightarrow> data_len_code (msg_packet m) < 16 \<and> nat (GET_LEN (msg_packet m)) = length (msg_dat m)"
proof -
  assume m: "msg_asserts m"
  then have "length (msg_dat m) \<le> 64" by (simp add: msg_asserts_def)
  then have "unat (of_nat (length (msg_dat m)) :: u8) \<le> 64" by (simp add: unat_of_nat)
  then have "len_to_dlc (of_nat (length (msg_dat m))) < 16" by (rule len_to_dlc_less)
  with m show ?thesis
    by (auto simp: msg_packet_def summed_def packet_of_header_def header_of_msg_def GET_LEN_def msg_asserts_def
        dest: arg_cong [where f = nat])
qed

lemma msg_packet_data [simp]: "data (msg_packet m) = msg_dat m"
  by (simp add: msg_packet_def summed_def packet_of_header_def)

lemma msg_packet_ranges:
  "0 \<le> bus (msg_packet m)" "bus (msg_packet m) < 8" "0 \<le> addr (msg_packet m)" "addr (msg_packet m) < 536870912"
  by (simp_all add: msg_packet_def summed_def packet_of_header_def header_of_msg_def)

subsection \<open>What packing produces\<close>

lemma pack_msg_bytes:
  assumes m: "msg_asserts m" and fit: "pos + 70 \<le> length send_buf"
  shows "\<exists>send_buf'. pack_msg m send_buf pos = Some (send_buf', pos + 6 + length (msg_dat m)) \<and>
    length send_buf' = length send_buf \<and>
    take (pos + 6 + length (msg_dat m)) send_buf' = take pos send_buf @ packet_bytes (msg_packet m)"
proof -
  let ?h = "header_bytes (header_of_msg m)" and ?d = "msg_dat m"
  have d: "length ?d \<le> 64" using m by (simp add: msg_asserts_def)
  define b1 where "b1 = take pos send_buf @ ?h @ drop (pos + 6) send_buf"
  define b2 where "b2 = take pos send_buf @ (?h @ ?d) @ drop (pos + 6 + length ?d) send_buf"
  have 1: "memcpy send_buf pos ?h = Some b1" using fit by (simp add: memcpy_def b1_def)
  have 2: "memcpy b1 (pos + 6) ?d = Some b2"
    using fit d by (simp add: memcpy_def b1_def b2_def ac_simps)
  define p where "p = packet_of_header (header_of_msg m) ?d"
  have hd0: "?h @ ?d = packet_head p @ 0 # ?d"
    unfolding header_bytes_packet p_def by (simp add: packet_bytes_def packet_of_header_def header_of_msg_def)
  have dr: "drop pos b2 = (?h @ ?d) @ drop (pos + 6 + length ?d) send_buf" using fit by (simp add: b2_def)
  have c: "host_checksum (drop pos b2) (6 + length ?d) = Some (xor_sum (packet_head p) XOR xor_sum ?d)"
  proof -
    have "take (6 + length ?d) (drop pos b2) = ?h @ ?d" unfolding dr by simp
    then show ?thesis using fit d by (simp add: host_checksum_eq hd0) (simp add: b2_def)
  qed
  define b3 where "b3 = b2[pos + 5 := xor_sum (packet_head p) XOR xor_sum ?d]"
  have "pack_msg m send_buf pos = Some (b3, pos + 6 + length ?d)"
    using m by (simp add: pack_msg_def 1 2 c b3_def Let_def)
  moreover have "length b3 = length send_buf" using fit d by (simp add: b3_def b2_def)
  moreover have "take (pos + 6 + length ?d) b3 = take pos send_buf @ packet_bytes (msg_packet m)"
  proof -
    have pl: "length (take pos send_buf) = pos" using fit by simp
    have t: "take (pos + 6 + length ?d) b2 = take pos send_buf @ packet_head p @ 0 # ?d"
      unfolding hd0 [symmetric] b2_def using pl by simp
    have "take (pos + 6 + length ?d) b3 = (take (pos + 6 + length ?d) b2)[pos + 5 := xor_sum (packet_head p) XOR xor_sum ?d]"
      unfolding b3_def by (simp add: take_update_swap)
    also have "\<dots> = take pos send_buf @ (packet_head p @ 0 # ?d)[5 := xor_sum (packet_head p) XOR xor_sum ?d]"
      unfolding t using pl by (simp add: list_update_append)
    also have "\<dots> = take pos send_buf @ packet_bytes (msg_packet m)"
      by (simp add: list_update_append packet_bytes_def msg_packet_def summed_def p_def [symmetric])
        (simp add: p_def packet_of_header_def)
    finally show ?thesis .
  qed
  ultimately show ?thesis by blast
qed

definition for_panda :: "CanData list \<Rightarrow> CanData list" where
  "for_panda ms = filter (\<lambda>m. \<not> msg_src m \<ge> PANDA_BUS_OFFSET) ms"

text \<open>Each chunk holds whole packets, in order.\<close>

definition packets_bytes :: "CANPacket list \<Rightarrow> u8 list" where
  "packets_bytes ps = concat (map packet_bytes ps)"

lemma packets_bytes_simps [simp]:
  "packets_bytes [] = []" "packets_bytes (p # ps) = packet_bytes p @ packets_bytes ps"
  "packets_bytes (ps @ qs) = packets_bytes ps @ packets_bytes qs"
  by (simp_all add: packets_bytes_def)

lemma pack_loop_rounds:
  assumes "\<forall>m \<in> set (for_panda ms). msg_asserts m" and "length send_buf = 512" and "pos < 256"
    and "take pos send_buf = packets_bytes ps0"
  shows "\<exists>pss. pack_loop ms send_buf pos = Some (map packets_bytes pss) \<and>
    concat pss = ps0 @ map msg_packet (for_panda ms) \<and>
    (\<forall>ps \<in> set pss. packets_bytes ps \<noteq> [] \<and> length (packets_bytes ps) \<le> 325)"
  using assms
proof (induction ms arbitrary: send_buf pos ps0)
  case Nil
  show ?case
  proof (cases "pos = 0")
    case True
    then have "packets_bytes ps0 = []" using Nil by simp
    then have "ps0 = []" by (cases ps0) (simp_all add: packet_bytes_def)
    then show ?thesis using True by (intro exI [of _ "[]"]) (simp add: for_panda_def)
  next
    case False
    have len: "length (packets_bytes ps0) = pos"
      using Nil.prems(2,3) arg_cong [OF Nil.prems(4), of length] by simp
    then show ?thesis using Nil.prems(3,4) False
      by (intro exI [of _ "[ps0]"]) (auto simp: for_panda_def simp flip: length_greater_0_conv)
  qed
next
  case (Cons m ms)
  show ?case
  proof (cases "msg_src m \<ge> PANDA_BUS_OFFSET")
    case True
    then show ?thesis using Cons by (simp add: for_panda_def)
  next
    case False
    let ?n = "pos + 6 + length (msg_dat m)" and ?ps = "ps0 @ [msg_packet m]"
    have m: "msg_asserts m" and ms: "\<forall>m \<in> set (for_panda ms). msg_asserts m"
      using Cons.prems(1) False by (simp_all add: for_panda_def)
    have fp: "for_panda (m # ms) = m # for_panda ms" using False by (simp add: for_panda_def)
    have n: "?n \<le> 325" using m Cons.prems(3) by (simp add: msg_asserts_def)
    obtain b where b: "pack_msg m send_buf pos = Some (b, ?n)" "length b = 512" "take ?n b = packets_bytes ?ps"
      using pack_msg_bytes [OF m, of pos send_buf] Cons.prems(2-4) by auto
    show ?thesis
    proof (cases "USB_TX_SOFT_LIMIT \<le> ?n")
      case True
      obtain pss where c: "pack_loop ms b 0 = Some (map packets_bytes pss)" "concat pss = [] @ map msg_packet (for_panda ms)"
        "\<forall>ps \<in> set pss. packets_bytes ps \<noteq> [] \<and> length (packets_bytes ps) \<le> 325"
        using Cons.IH [OF ms b(2), of 0 "[]"] by auto
      have "length (packets_bytes ?ps) = ?n" using n b(2) arg_cong [OF b(3), of length] by simp
      then have "packets_bytes ?ps \<noteq> [] \<and> length (packets_bytes ?ps) \<le> 325"
        using n by (auto simp del: packets_bytes_simps)
      then show ?thesis using False True b(1,3) c
        by (intro exI [of _ "?ps # pss"]) (simp add: fp del: packets_bytes_simps)
    next
      case small: False
      then have "?n < 256" by (simp add: USB_TX_SOFT_LIMIT_def)
      from Cons.IH [OF ms b(2) this b(3)] False small b(1) show ?thesis by (simp add: fp)
    qed
  qed
qed

subsection \<open>Packets on the line\<close>

text \<open>A packet whose data are as long as its length code says.\<close>

definition exact :: "CANPacket \<Rightarrow> bool" where
  "exact p \<longleftrightarrow> 0 \<le> bus p \<and> bus p < 8 \<and> data_len_code p < 16 \<and> 0 \<le> addr p \<and> addr p < 536870912 \<and>
     nat (GET_LEN p) = length (data p)"

lemma exact_msg: "msg_asserts m \<Longrightarrow> exact (msg_packet m)"
  using msg_dlc [of m] msg_packet_ranges [of m] by (simp add: exact_def)

lemma exact_trim:
  assumes "exact p" and "length (data p) \<le> CANPACKET_DATA_SIZE_MAX B"
  shows "wf_packet B (trim B p)" "fits (trim B p)" "take (wire_len (trim B p)) (packet_bytes (trim B p)) = packet_bytes p"
    "trim B (trim B p) = trim B p"
proof -
  let ?z = "replicate (CANPACKET_DATA_SIZE_MAX B - length (data p)) 0"
  have t: "trim B p = p\<lparr>data := data p @ ?z\<rparr>" using assms(1) by (simp add: trim_def exact_def)
  show "wf_packet B (trim B p)" "fits (trim B p)"
    using assms by (simp_all add: t wf_packet_def exact_def fits_def)
  show "take (wire_len (trim B p)) (packet_bytes (trim B p)) = packet_bytes p"
    using assms(1) by (simp add: t packet_bytes_pad [symmetric] wire_len_def CANPACKET_HEAD_SIZE_def exact_def)
  show "trim B (trim B p) = trim B p" using assms by (simp add: t trim_def exact_def)
qed

fun send_packets :: "(CANPacket \<Rightarrow> 's \<Rightarrow> 's option) \<Rightarrow> CANPacket list \<Rightarrow> 's \<Rightarrow> 's option" where
  "send_packets send [] s = Some s"
| "send_packets send (p # ps) s = send p s \<bind> send_packets send ps"

lemma send_all_packets:
  "\<forall>p \<in> set ps. exact p \<and> length (data p) \<le> CANPACKET_DATA_SIZE_MAX B \<Longrightarrow>
    send_all B send (map packet_bytes ps) s = send_packets send (map (trim B) ps) s"
proof (induction ps arbitrary: s)
  case (Cons p ps)
  note t = exact_trim [of p B]
  have p: "exact p" "length (data p) \<le> CANPACKET_DATA_SIZE_MAX B" using Cons.prems by simp_all
  have "wire_bytes (trim B p) = Some (packet_bytes p)"
    using t(2,3) [OF p] by (simp add: wire_bytes_some fits_def)
  then have from_wire: "packet_from B (packet_bytes p) = Some (trim B p)"
    using packet_from_wire [OF t(1) [OF p]] t(4) [OF p] by simp
  have "send_all B send (map packet_bytes ps) = send_packets send (map (trim B) ps)"
    using Cons by (intro ext) simp
  then show ?case by (simp add: from_wire)
qed simp

lemma split_packets:
  assumes "\<forall>p \<in> set ps. exact p"
  shows "split_stream (concat (map packet_bytes ps)) = (map packet_bytes ps, [])"
proof -
  define B where "B = build_f407\<lparr>CANFD := True\<rparr>"
  have le: "length (data p) \<le> CANPACKET_DATA_SIZE_MAX B" if "p \<in> set ps" for p
    using assms that dlc_to_len_le [of "data_len_code p"]
    by (simp add: B_def CANPACKET_DATA_SIZE_MAX_def exact_def GET_LEN_def)
  have wf: "\<forall>p \<in> set (map (trim B) ps). wf_packet B p \<and> fits p" using assms le exact_trim(1,2) by simp
  have m: "map (\<lambda>p. take (wire_len p) (packet_bytes p)) (map (trim B) ps) = map packet_bytes ps"
    using assms le exact_trim(3) by simp
  show ?thesis using split_wire [OF wf] unfolding m .
qed

text \<open>The calls behind a run of chunks: the packets of one chunk, then the refresh of the free slots.\<close>

fun send_rounds :: "(CANPacket \<Rightarrow> 's \<Rightarrow> 's option) \<Rightarrow> ('s \<Rightarrow> 's) \<Rightarrow> CANPacket list list \<Rightarrow> 's \<Rightarrow> 's option" where
  "send_rounds send refresh [] s = Some s"
| "send_rounds send refresh (ps # pss) s = send_packets send ps s \<bind> (\<lambda>s. send_rounds send refresh pss (refresh s))"

fun write_chunks :: "build \<Rightarrow> (CANPacket \<Rightarrow> 's \<Rightarrow> 's option) \<Rightarrow> ('s \<Rightarrow> 's) \<Rightarrow> u8 list list \<Rightarrow> asm_buffer \<Rightarrow> 's
    \<Rightarrow> (asm_buffer \<times> 's) option" where
  "write_chunks B send refresh [] buf s = Some (buf, s)"
| "write_chunks B send refresh (c # cs) buf s =
     do { (buf, s) \<leftarrow> comms_can_write B send refresh c buf s;
          write_chunks B send refresh cs buf s }"

lemma write_round:
  assumes "write_ok buf" and "pending buf = []"
    and "\<forall>p \<in> set ps. exact p \<and> length (data p) \<le> CANPACKET_DATA_SIZE_MAX B"
  shows "case send_packets send (map (trim B) ps) s of
      None \<Rightarrow> comms_can_write B send refresh (packets_bytes ps) buf s = None
    | Some s' \<Rightarrow> \<exists>buf'. comms_can_write B send refresh (packets_bytes ps) buf s = Some (buf', refresh s') \<and>
        write_ok buf' \<and> pending buf' = []"
proof -
  have sp: "split_stream (pending buf @ packets_bytes ps) = (map packet_bytes ps, [])"
    using split_packets [of ps] assms(2,3) by (simp add: packets_bytes_def)
  show ?thesis
    using comms_can_write_stream [OF assms(1), where B = B and send = send and bytes = "packets_bytes ps" and s = s and refresh = refresh]
    unfolding sp fst_conv snd_conv send_all_packets [OF assms(3)] .
qed

lemma write_rounds:
  assumes "write_ok buf" and "pending buf = []"
    and "\<forall>p \<in> set (concat pss). exact p \<and> length (data p) \<le> CANPACKET_DATA_SIZE_MAX B"
  shows "case send_rounds send refresh (map (map (trim B)) pss) s of
      None \<Rightarrow> write_chunks B send refresh (map packets_bytes pss) buf s = None
    | Some s' \<Rightarrow> \<exists>buf'. write_chunks B send refresh (map packets_bytes pss) buf s = Some (buf', s') \<and>
        write_ok buf' \<and> pending buf' = []"
  using assms
proof (induction pss arbitrary: buf s)
  case (Cons ps pss)
  have ps: "\<forall>p \<in> set ps. exact p \<and> length (data p) \<le> CANPACKET_DATA_SIZE_MAX B" using Cons.prems(3) by simp
  note r = write_round [OF Cons.prems(1,2) ps, where send = send and s = s and refresh = refresh]
  show ?case
  proof (cases "send_packets send (map (trim B) ps) s")
    case None
    then show ?thesis using r by simp
  next
    case (Some s1)
    then obtain buf1 where 1: "comms_can_write B send refresh (packets_bytes ps) buf s = Some (buf1, refresh s1)"
      "write_ok buf1" "pending buf1 = []" using r by auto
    have w: "write_chunks B send refresh (map packets_bytes (ps # pss)) buf s =
        write_chunks B send refresh (map packets_bytes pss) buf1 (refresh s1)"
      by (simp add: 1(1))
    have r': "send_rounds send refresh (map (map (trim B)) (ps # pss)) s =
        send_rounds send refresh (map (map (trim B)) pss) (refresh s1)"
      by (simp add: Some)
    have "\<forall>p \<in> set (concat pss). exact p \<and> length (data p) \<le> CANPACKET_DATA_SIZE_MAX B"
      using Cons.prems(3) by simp
    then show ?thesis unfolding w r' by (rule Cons.IH [OF 1(2,3)])
  qed
qed simp

lemma host_rounds:
  assumes "\<forall>m \<in> set (for_panda ms). msg_asserts m \<and> length (msg_dat m) \<le> CANPACKET_DATA_SIZE_MAX B"
    and "length send_buf = 2 * USB_TX_SOFT_LIMIT"
  shows "\<exists>pss. pack_can_buffer send_buf ms = Some (map packets_bytes pss) \<and>
    concat (map (map (trim B)) pss) = map (\<lambda>m. trim B (msg_packet m)) (for_panda ms) \<and>
    (\<forall>ps \<in> set pss. packets_bytes ps \<noteq> [] \<and> length (packets_bytes ps) \<le> 325) \<and>
    (\<forall>p \<in> set (concat pss). exact p \<and> length (data p) \<le> CANPACKET_DATA_SIZE_MAX B)"
proof -
  have len: "length send_buf = 512" using assms(2) by (simp add: USB_TX_SOFT_LIMIT_def)
  obtain pss where p: "pack_loop ms send_buf 0 = Some (map packets_bytes pss)" "concat pss = map msg_packet (for_panda ms)"
    "\<forall>ps \<in> set pss. packets_bytes ps \<noteq> [] \<and> length (packets_bytes ps) \<le> 325"
    using pack_loop_rounds [OF _ len, of ms 0 "[]"] assms(1) by auto
  have "concat (map (map (trim B)) pss) = map (trim B) (concat pss)" by (simp add: map_concat)
  then have "concat (map (map (trim B)) pss) = map (\<lambda>m. trim B (msg_packet m)) (for_panda ms)"
    unfolding p(2) by simp
  moreover have "\<forall>p \<in> set (concat pss). exact p \<and> length (data p) \<le> CANPACKET_DATA_SIZE_MAX B"
    unfolding p(2) using assms(1) exact_msg by auto
  ultimately show ?thesis using p(1,3) by (auto simp: pack_can_buffer_def)
qed

lemma host_send_chunks:
  assumes "\<forall>m \<in> set (for_panda ms). msg_asserts m \<and> length (msg_dat m) \<le> CANPACKET_DATA_SIZE_MAX B"
    and "length send_buf = 2 * USB_TX_SOFT_LIMIT" and "write_ok buf" and "pending buf = []"
  shows "\<exists>chunks pss. pack_can_buffer send_buf ms = Some chunks \<and> (\<forall>c \<in> set chunks. c \<noteq> [] \<and> length c \<le> 325) \<and>
    concat pss = map (\<lambda>m. trim B (msg_packet m)) (for_panda ms) \<and>
    map_option snd (write_chunks B send refresh chunks buf s) = send_rounds send refresh pss s"
proof -
  obtain pss where p: "pack_can_buffer send_buf ms = Some (map packets_bytes pss)"
    "concat (map (map (trim B)) pss) = map (\<lambda>m. trim B (msg_packet m)) (for_panda ms)"
    "\<forall>ps \<in> set pss. packets_bytes ps \<noteq> [] \<and> length (packets_bytes ps) \<le> 325"
    "\<forall>p \<in> set (concat pss). exact p \<and> length (data p) \<le> CANPACKET_DATA_SIZE_MAX B"
    using host_rounds [OF assms(1,2)] by blast
  have "map_option snd (write_chunks B send refresh (map packets_bytes pss) buf s) =
      send_rounds send refresh (map (map (trim B)) pss) s"
    using write_rounds [OF assms(3,4) p(4), where send = send and s = s and refresh = refresh] by (auto split: option.splits)
  then show ?thesis using p(1-3) by (intro exI [of _ "map packets_bytes pss"] exI [of _ "map (map (trim B)) pss"]) auto
qed

subsection \<open>What unpacking delivers\<close>

definition wire_good :: "u8 list \<Rightarrow> bool" where
  "wire_good w \<longleftrightarrow> xor_sum w = 0"

definition wire_frame :: "u8 list \<Rightarrow> can_frame" where
  "wire_frame w = frame_of (header_of_bytes (take 6 w)) (drop 6 w)"

lemma header_packet_len: "0 < length bs \<Longrightarrow> 6 + nat (dlc_to_len ! h_data_len_code (header_of_bytes (take 6 bs))) = packet_len (hd bs)"
proof -
  assume "0 < length bs"
  then have "take 6 bs ! 0 = hd bs" by (cases bs) simp_all
  moreover have "unat (drop_bit 4 (b::u8)) = nat (uint b div 16)" for b
    by (simp only: unat_eq_nat_uint uint_shiftr_16)
  ultimately show ?thesis
    by (simp add: header_of_bytes_def packet_len_def CANPACKET_HEAD_SIZE_def Let_def)
qed

lemma loop_bound:
  assumes "pos \<le> len" and "len < 2 ^ 32"
  shows "((of_nat pos :: u64) \<le> of_nat len - 6) = (len < 6 \<or> pos + 6 \<le> len)"
proof (cases "len < 6")
  case True
  then have "len \<in> set [0..<6]" "pos \<in> set [0..<6]" using assms by auto
  moreover have "\<forall>l \<in> set [0..<6]. \<forall>p \<in> set [0..<6]. (of_nat p :: u64) \<le> of_nat l - 6" by code_simp
  ultimately have "(of_nat pos :: u64) \<le> of_nat len - 6" by (blast dest: bspec)
  with True show ?thesis by simp
next
  case False
  have "(of_nat len - 6 :: u64) = of_nat (len - 6)" using False by simp
  then have "((of_nat pos :: u64) \<le> of_nat len - 6) = (pos \<le> len - 6)"
    using assms by (simp add: word_le_nat_alt unat_of_nat)
  then show ?thesis using False by auto
qed

lemma unpack_loop_exact:
  assumes "pos \<le> len" and "len \<le> length bytes" and "6 \<le> length bytes" and "len < 2 ^ 32" and "len < 6 \<longrightarrow> pos = 0"
  shows "unpack_loop bytes len pos out =
    (let ws = fst (split_stream (drop pos (take len bytes))); good = takeWhile wire_good ws
     in Some (good = ws, pos + length (concat good), out @ map wire_frame good))"
  using assms
proof (induction "len - pos" arbitrary: pos out rule: less_induct)
  case less
  note prems = less.prems
  let ?bs = "drop pos (take len bytes)"
  note bound = loop_bound [OF prems(1,4)]
  have lenbs: "length ?bs = len - pos" using prems(2) by simp
  show ?case
  proof (cases "pos < len \<and> packet_len (hd ?bs) \<le> length ?bs")
    case False
    have short: "split_stream ?bs = ([], ?bs)"
      using False lenbs prems(1) by (intro split_short) (metis length_0_conv less_or_eq_imp_le not_le diff_is_0_eq)
    show ?thesis
    proof (cases "(of_nat pos :: u64) \<le> of_nat len - 6")
      case False
      then show ?thesis unfolding short by (subst unpack_loop.simps) simp
    next
      case True
      have in_array: "pos + 6 \<le> length bytes" using True bound prems(2,3,5) by auto
      have hb: "slice bytes pos 6 = Some (take 6 (drop pos bytes))" using in_array by (simp add: slice_def)
      have ne: "0 < length (drop pos bytes)" using in_array by simp
      have "len < pos + packet_len (hd (drop pos bytes))"
      proof (cases "pos < len")
        case True
        then have "hd ?bs = hd (drop pos bytes)" using prems(2) by (simp add: hd_drop_conv_nth)
        then show ?thesis using \<open>\<not> (pos < len \<and> packet_len (hd ?bs) \<le> length ?bs)\<close> True lenbs by simp
      next
        case False
        then have "len = pos" using prems(1) by simp
        then show ?thesis by simp
      qed
      then have "pos + 6 + nat (dlc_to_len ! h_data_len_code (header_of_bytes (take 6 (drop pos bytes)))) > len"
        using header_packet_len [OF ne] by simp
      then show ?thesis using True unfolding short
        by (subst unpack_loop.simps) (simp add: hb Let_def)
    qed
  next
    case True
    then have pos: "pos < len" and fit: "packet_len (hd ?bs) \<le> length ?bs" by auto
    have ne: "?bs \<noteq> []" using pos lenbs by auto
    define n where "n = packet_len (hd ?bs)"
    have n6: "6 \<le> n" by (simp add: n_def packet_len_def CANPACKET_HEAD_SIZE_def)
    have pn: "pos + n \<le> len" using fit lenbs pos by (simp add: n_def)
    define w where "w = take n ?bs"
    have w: "w = take n (drop pos bytes)" using pn by (simp add: w_def take_drop min_def)
    have hd': "hd ?bs = hd (drop pos bytes)" using pos prems(2) by (simp add: hd_drop_conv_nth)
    have ne': "0 < length (drop pos bytes)" using pos prems(2) by simp
    have hb: "slice bytes pos 6 = Some (take 6 w)" using pn n6 prems(2) by (simp add: slice_def w)
    have lw: "length w = n" using pn prems(2) by (simp add: w)
    define dl where "dl = nat (dlc_to_len ! h_data_len_code (header_of_bytes (take 6 w)))"
    have dl: "6 + dl = n"
      using header_packet_len [OF ne'] n6 by (simp add: dl_def w n_def hd')
    have cond: "(of_nat pos :: u64) \<le> of_nat len - 6" using bound pn n6 by simp
    have c: "host_checksum (drop pos bytes) (6 + dl) = Some (xor_sum w)"
      using pn prems(2) by (simp add: host_checksum_eq dl w)
    have dat: "slice bytes (pos + 6) dl = Some (drop 6 w)"
      using pn dl prems(2) by (simp add: slice_def w drop_take add.commute) (simp flip: dl)
    have split: "split_stream ?bs = (w # fst (split_stream (drop (pos + n) (take len bytes))),
        snd (split_stream (drop (pos + n) (take len bytes))))"
      using split_long [OF ne fit] by (simp add: w_def n_def add.commute)
    have notgt: "\<not> len < pos + 6 + dl" using pn dl by simp
    show ?thesis
    proof (cases "wire_good w")
      case False
      then have "xor_sum w \<noteq> 0" by (simp add: wire_good_def)
      then show ?thesis using cond False unfolding split
        by (subst unpack_loop.simps) (simp add: hb Let_def dl_def [symmetric] notgt c)
    next
      case good: True
      have x: "xor_sum w = 0" using good by (simp add: wire_good_def)
      have step: "unpack_loop bytes len pos out = unpack_loop bytes len (pos + 6 + dl) (out @ [wire_frame w])"
        using cond x
        by (subst unpack_loop.simps) (simp add: hb Let_def dl_def [symmetric] notgt c dat wire_frame_def)
      have pn': "pos + 6 + dl \<le> len" "pos + 6 + dl = pos + n" using pn dl by simp_all
      have ih: "unpack_loop bytes len (pos + n) (out @ [wire_frame w]) =
        (let ws = fst (split_stream (drop (pos + n) (take len bytes))); good = takeWhile wire_good ws
         in Some (good = ws, pos + n + length (concat good), (out @ [wire_frame w]) @ map wire_frame good))"
        using less.hyps [of "pos + n"] pos pn n6 prems(2-4) by simp
      show ?thesis unfolding step pn'(2) ih split
        using good by (simp add: Let_def lw)
    qed
  qed
qed

text \<open>The bytes of an unfinished frame, and the shape of the buffer between two reads.\<close>

definition held :: "panda \<Rightarrow> u8 list" where
  "held P = take (receive_buffer_size P) (receive_buffer P)"

definition panda_ok :: "panda \<Rightarrow> bool" where
  "panda_ok P \<longleftrightarrow> length (receive_buffer P) = RECV_SIZE + 6 + 64 \<and> receive_buffer_size P \<le> 69 \<and>
     split_stream (held P) = ([], held P)"

definition panda_init :: panda where
  "panda_init = \<lparr>receive_buffer = replicate (RECV_SIZE + 6 + 64) 0, receive_buffer_size = 0, can_resets = 0\<rparr>"

lemma panda_init_ok: "panda_ok panda_init" "held panda_init = []"
  by (simp_all add: panda_ok_def panda_init_def held_def split_short)

lemma panda_init_resets: "can_resets panda_init = 0"
  by (simp add: panda_init_def)

lemma split_rest: "split_stream (snd (split_stream bs)) = ([], snd (split_stream bs))"
proof (induction bs rule: split_stream.induct)
  case (1 bs)
  show ?case
  proof (cases "bs = [] \<or> length bs < packet_len (hd bs)")
    case True
    then show ?thesis by (simp add: split_short)
  next
    case False
    then have "bs \<noteq> []" "packet_len (hd bs) \<le> length bs" by auto
    then show ?thesis using 1 [OF False] by (simp add: split_long)
  qed
qed

lemma split_concat: "concat (fst (split_stream bs)) @ snd (split_stream bs) = bs"
proof (induction bs rule: split_stream.induct)
  case (1 bs)
  show ?case
  proof (cases "bs = [] \<or> length bs < packet_len (hd bs)")
    case True
    then show ?thesis by (simp add: split_short)
  next
    case False
    then have "bs \<noteq> []" "packet_len (hd bs) \<le> length bs" by auto
    then show ?thesis using 1 [OF False] by (simp add: split_long)
  qed
qed

lemma split_rest_length: "length (snd (split_stream bs)) \<le> 69"
proof -
  let ?r = "snd (split_stream bs)"
  have "?r = [] \<or> length ?r < packet_len (hd ?r)"
  proof (rule ccontr)
    assume "\<not> (?r = [] \<or> length ?r < packet_len (hd ?r))"
    then have "fst (split_stream ?r) \<noteq> []" by (subst split_long) auto
    then show False using split_rest [of bs] by simp
  qed
  then show ?thesis using packet_len_le [of "hd ?r"] by auto
qed

text \<open>One read, exactly: the packets that are now complete, up to the first with a bad checksum.\<close>

definition received :: "u8 list \<Rightarrow> u8 list list" where
  "received bs = takeWhile wire_good (fst (split_stream bs))"

definition all_good :: "u8 list \<Rightarrow> bool" where
  "all_good bs \<longleftrightarrow> list_all wire_good (fst (split_stream bs))"

lemma received_all: "(received bs = fst (split_stream bs)) = all_good bs"
  unfolding received_def all_good_def by (metis list.pred_set takeWhile_eq_all_conv)

lemma receive_exact:
  assumes P: "panda_ok P" and n: "length bs \<le> RECV_SIZE"
  shows "\<exists>P'. can_receive (Some bs) True P =
      Some (all_good (held P @ bs), map wire_frame (received (held P @ bs)), P') \<and> panda_ok P' \<and>
    held P' = (if all_good (held P @ bs) then snd (split_stream (held P @ bs)) else []) \<and>
    can_resets P' = can_resets P + (if all_good (held P @ bs) then 0 else 1)"
proof -
  let ?k = "receive_buffer_size P"
  have sz: "length (receive_buffer P) = 16454" "?k \<le> 69" and short: "split_stream (held P) = ([], held P)"
    using P by (simp_all add: panda_ok_def RECV_SIZE_def)
  have n': "length bs \<le> 16384" using n by (simp add: RECV_SIZE_def)
  define d where "d = take ?k (receive_buffer P) @ bs @ drop (?k + length bs) (receive_buffer P)"
  have d: "memcpy (receive_buffer P) ?k bs = Some d" using sz n' by (simp add: memcpy_def d_def)
  have dl: "length d = 16454" using sz n' by (simp add: d_def)
  have dt: "take (?k + length bs) d = held P @ bs" using sz by (simp add: d_def held_def)
  have room: "\<not> length (receive_buffer P) < ?k + RECV_SIZE" using sz by (simp add: RECV_SIZE_def)
  show ?thesis
  proof (cases "bs = []")
    case True
    have "d = receive_buffer P" using True sz by (simp add: d_def)
    then show ?thesis using True room d P short
      by (simp add: can_receive_def Let_def received_def all_good_def)
  next
    case ne: False
    define P1 where "P1 = P\<lparr>receive_buffer := d, receive_buffer_size := ?k + length bs\<rparr>"
    define ws where "ws = fst (split_stream (held P @ bs))"
    have P1: "receive_buffer P1 = d" "receive_buffer_size P1 = ?k + length bs" "can_resets P1 = can_resets P"
      by (simp_all add: P1_def)
    have step: "can_receive (Some bs) True P = unpack_can_buffer P1"
      using room ne by (simp add: can_receive_def d Let_def P1_def)
    have loop: "unpack_loop d (?k + length bs) 0 [] = Some (all_good (held P @ bs), length (concat (received (held P @ bs))),
        map wire_frame (received (held P @ bs)))"
      using unpack_loop_exact [of 0 "?k + length bs" d "[]"] dl sz n' dt
      by (simp add: Let_def received_def [symmetric] received_all) (simp add: all_good_def list.pred_set)
    show ?thesis
    proof (cases "all_good (held P @ bs)")
      case False
      then show ?thesis using dl
        by (simp add: step unpack_can_buffer_def P1 loop panda_ok_def held_def split_short RECV_SIZE_def)
    next
      case True
      define m where "m = length (concat (received (held P @ bs)))"
      define rest where "rest = snd (split_stream (held P @ bs))"
      have cat: "concat (received (held P @ bs)) @ rest = held P @ bs"
        using True split_concat [of "held P @ bs"] received_all [of "held P @ bs"] by (simp add: rest_def)
      have mk: "m \<le> ?k + length bs"
      proof -
        have "length (held P @ bs) = ?k + length bs" using sz by (simp add: held_def)
        then show ?thesis using arg_cong [OF cat, of length] by (simp add: m_def)
      qed
      have drop_d: "take (?k + length bs - m) (drop m d) = rest"
      proof -
        have "take (?k + length bs - m) (drop m d) = drop m (take (?k + length bs) d)" by (simp add: drop_take)
        also have "\<dots> = drop m (concat (received (held P @ bs)) @ rest)" by (simp only: dt cat)
        also have "\<dots> = rest" by (simp add: m_def)
        finally show ?thesis .
      qed
      have sl: "slice d m (?k + length bs - m) = Some rest" using mk dl sz n' by (simp add: slice_def drop_d)
      have rl: "length rest = ?k + length bs - m" using mk dl sz n' by (simp add: drop_d [symmetric])
      define d2 where "d2 = rest @ drop (length rest) d"
      have mc: "memcpy d 0 rest = Some d2" using rl dl sz n' by (simp add: memcpy_def d2_def)
      define P2 where "P2 = P1\<lparr>receive_buffer := d2, receive_buffer_size := ?k + length bs - m\<rparr>"
      have "unpack_can_buffer P1 = Some (True, map wire_frame (received (held P @ bs)), P2)"
        using True by (simp add: unpack_can_buffer_def P1 loop m_def [symmetric] sl mc P2_def)
      moreover have "held P2 = rest" by (simp add: held_def P2_def d2_def rl [symmetric])
      moreover have "panda_ok P2"
        using \<open>held P2 = rest\<close> split_rest [of "held P @ bs"] split_rest_length [of "held P @ bs"] rl dl
        by (simp add: panda_ok_def P2_def d2_def rest_def [symmetric] RECV_SIZE_def)
      moreover have "can_resets P2 = can_resets P" by (simp add: P2_def P1)
      ultimately show ?thesis using True by (simp add: step rest_def [symmetric])
    qed
  qed
qed

lemma receive_failed:
  assumes P: "panda_ok P" and n: "length (case reply of None \<Rightarrow> [] | Some bs \<Rightarrow> bs) \<le> RECV_SIZE"
    and "reply = None \<or> \<not> healthy"
  shows "\<exists>ok P'. can_receive reply healthy P = Some (ok, [], P') \<and> panda_ok P' \<and> held P' = held P \<and> can_resets P' = can_resets P"
proof -
  let ?k = "receive_buffer_size P" and ?bs = "case reply of None \<Rightarrow> [] | Some bs \<Rightarrow> bs"
  have sz: "length (receive_buffer P) = 16454" "?k \<le> 69" using P by (simp_all add: panda_ok_def RECV_SIZE_def)
  have n': "length ?bs \<le> 16384" using n by (simp add: RECV_SIZE_def)
  define d where "d = take ?k (receive_buffer P) @ ?bs @ drop (?k + length ?bs) (receive_buffer P)"
  have d: "memcpy (receive_buffer P) ?k ?bs = Some d" using sz n' by (simp add: memcpy_def d_def)
  have room: "\<not> length (receive_buffer P) < ?k + RECV_SIZE" using sz by (simp add: RECV_SIZE_def)
  have h: "held (P\<lparr>receive_buffer := d\<rparr>) = held P" using sz by (simp add: held_def d_def)
  then have ok: "panda_ok (P\<lparr>receive_buffer := d\<rparr>)" using P sz n' by (simp add: panda_ok_def d_def RECV_SIZE_def)
  show ?thesis
  proof (cases "healthy")
    case True
    then have "?bs = []" using assms(3) by simp
    then have "can_receive reply healthy P = Some (True, [], P\<lparr>receive_buffer := d\<rparr>)"
      using True room d by (simp add: can_receive_def Let_def)
    then show ?thesis using h ok by (intro exI [of _ True] exI [of _ "P\<lparr>receive_buffer := d\<rparr>"]) simp
  next
    case False
    then have "can_receive reply healthy P = Some (False, [], P\<lparr>receive_buffer := d\<rparr>)"
      using room d by (simp add: can_receive_def Let_def)
    then show ?thesis using h ok by (intro exI [of _ False] exI [of _ "P\<lparr>receive_buffer := d\<rparr>"]) simp
  qed
qed

subsection \<open>Runs of reads\<close>

fun receive_run :: "(u8 list option \<times> bool) list \<Rightarrow> panda \<Rightarrow> (can_frame list \<times> panda) option" where
  "receive_run [] P = Some ([], P)"
| "receive_run ((reply, healthy) # rs) P =
     do { (ok, out, P) \<leftarrow> can_receive reply healthy P;
          (outs, P) \<leftarrow> receive_run rs P;
          Some (out @ outs, P) }"

definition reply_ok :: "u8 list option \<times> bool \<Rightarrow> bool" where
  "reply_ok r \<longleftrightarrow> length (case fst r of None \<Rightarrow> [] | Some bs \<Rightarrow> bs) \<le> RECV_SIZE"

lemma receive_ok:
  assumes "panda_ok P" and "reply_ok (reply, healthy)"
  shows "\<exists>ok out P'. can_receive reply healthy P = Some (ok, out, P') \<and> panda_ok P'"
proof (cases "reply = None \<or> \<not> healthy")
  case True
  then show ?thesis using receive_failed [OF assms(1) _ True] assms(2) by (auto simp: reply_ok_def)
next
  case False
  then obtain bs where "reply = Some bs" "healthy" by auto
  then show ?thesis using receive_exact [OF assms(1), of bs] assms(2) by (auto simp: reply_ok_def)
qed

lemma receive_run_ok:
  "panda_ok P \<Longrightarrow> list_all reply_ok rs \<Longrightarrow> \<exists>outs P'. receive_run rs P = Some (outs, P') \<and> panda_ok P'"
proof (induction rs arbitrary: P)
  case (Cons r rs)
  obtain reply healthy where r: "r = (reply, healthy)" by (cases r)
  obtain ok out P1 where 1: "can_receive reply healthy P = Some (ok, out, P1)" "panda_ok P1"
    using receive_ok [OF Cons.prems(1), of reply healthy] Cons.prems(2) unfolding r by auto
  obtain outs P' where "receive_run rs P1 = Some (outs, P')" "panda_ok P'"
    using Cons.IH [OF 1(2)] Cons.prems(2) by auto
  then show ?case by (simp add: r 1(1))
qed simp

definition healthy_reads :: "u8 list list \<Rightarrow> (u8 list option \<times> bool) list" where
  "healthy_reads cs = map (\<lambda>c. (Some c, True)) cs"

lemma all_good_append: "all_good (xs @ ys) \<longleftrightarrow> all_good xs \<and> all_good (snd (split_stream xs) @ ys)"
  by (simp add: all_good_def split_append [of xs ys])

lemma receive_run_stream:
  assumes "panda_ok P" and "\<forall>c \<in> set cs. length c \<le> RECV_SIZE" and "all_good (held P @ concat cs)"
  shows "\<exists>P'. receive_run (healthy_reads cs) P = Some (map wire_frame (fst (split_stream (held P @ concat cs))), P') \<and>
    panda_ok P' \<and> held P' = snd (split_stream (held P @ concat cs)) \<and> can_resets P' = can_resets P"
  using assms
proof (induction cs arbitrary: P)
  case Nil
  then show ?case by (simp add: healthy_reads_def panda_ok_def)
next
  case (Cons c cs)
  let ?a = "split_stream (held P @ c)"
  have good: "all_good (held P @ c)" "all_good (snd ?a @ concat cs)"
    using Cons.prems(3) all_good_append [of "held P @ c" "concat cs"] by simp_all
  have rec: "received (held P @ c) = fst ?a" using good(1) by (simp add: received_all)
  obtain P1 where 1: "can_receive (Some c) True P = Some (True, map wire_frame (fst ?a), P1)" "panda_ok P1"
    "held P1 = snd ?a" "can_resets P1 = can_resets P"
    using receive_exact [OF Cons.prems(1), of c] Cons.prems(2) good(1) by (auto simp: rec)
  obtain P' where 2: "receive_run (healthy_reads cs) P1 = Some (map wire_frame (fst (split_stream (snd ?a @ concat cs))), P')"
    "panda_ok P'" "held P' = snd (split_stream (snd ?a @ concat cs))" "can_resets P' = can_resets P"
    using Cons.IH [OF 1(2)] Cons.prems(2) good(2) 1(3,4) by auto
  have sp: "split_stream (held P @ concat (c # cs)) =
      (fst ?a @ fst (split_stream (snd ?a @ concat cs)), snd (split_stream (snd ?a @ concat cs)))"
    using split_append [of "held P @ c" "concat cs"] by simp
  have "receive_run (healthy_reads (c # cs)) P = Some (map wire_frame (fst ?a) @ map wire_frame (fst (split_stream (snd ?a @ concat cs))), P')"
    using 1(1) 2(1) by (simp add: healthy_reads_def)
  then show ?case unfolding sp using 2(2-4) by simp
qed

text \<open>The frame a packet is to the rest of the host.\<close>

definition packet_frame :: "CANPacket \<Rightarrow> can_frame" where
  "packet_frame p = frame_of (header_of_packet p) (data p)"

lemma wire_frame_packet: "exact p \<Longrightarrow> wire_frame (packet_bytes p) = packet_frame p"
proof -
  assume p: "exact p"
  define B where "B = build_f407\<lparr>CANFD := True\<rparr>"
  have le: "length (data p) \<le> CANPACKET_DATA_SIZE_MAX B"
    using p dlc_to_len_le [of "data_len_code p"]
    by (simp add: B_def CANPACKET_DATA_SIZE_MAX_def exact_def GET_LEN_def)
  have "packet_of_bytes (packet_bytes (trim B p)) = trim B p"
    by (rule packet_roundtrip [OF exact_trim(1) [OF p le]])
  moreover have "take 6 (packet_bytes (trim B p)) = take 6 (packet_bytes p)"
    by (simp add: packet_bytes_def trim_def packet_head_def addr_word_def)
  ultimately have "header_of_bytes (take 6 (packet_bytes p)) = header_of_packet (trim B p)"
    using header_of_bytes_packet [of "packet_bytes (trim B p)"] by simp
  then show ?thesis
    by (simp add: wire_frame_def packet_frame_def packet_bytes_def) (simp add: header_of_packet_def trim_def)
qed

lemma receive_packets:
  assumes "\<forall>p \<in> set ps. exact p \<and> xor_sum (packet_bytes p) = 0" and "concat cs = concat (map packet_bytes ps)"
    and "\<forall>c \<in> set cs. length c \<le> RECV_SIZE"
  shows "\<exists>P. receive_run (healthy_reads cs) panda_init = Some (map packet_frame ps, P) \<and> held P = [] \<and> can_resets P = 0"
proof -
  have sp: "split_stream (held panda_init @ concat cs) = (map packet_bytes ps, [])"
    using split_packets [of ps] assms(1,2) by (simp add: panda_init_ok)
  have good: "all_good (held panda_init @ concat cs)"
    using assms(1) by (simp add: all_good_def sp wire_good_def list.pred_set)
  have "map wire_frame (map packet_bytes ps) = map packet_frame ps" using assms(1) wire_frame_packet by simp
  moreover have "can_resets panda_init = 0" by (simp add: panda_init_def)
  ultimately show ?thesis using receive_run_stream [OF panda_init_ok(1) assms(3) good] unfolding sp by auto
qed

subsection \<open>The two ends of the stream\<close>

text \<open>What the firmware sends begins with a marker this host does not know. The first 22 bytes of two packets
  of eight data bytes: the marker's length code makes them one frame.\<close>

lemma first_bytes:
  assumes "wf_packet build_f407 p" and "data_len_code p = 8" and "wf_packet build_f407 q" and "data_len_code q = 8"
  shows "take 22 (frame_bytes p @ frame_bytes q @ r) =
    CAN_SYNC_MARKER # packet_bytes p @ CAN_SYNC_MARKER # packet_head q @ [checksum q]"
proof -
  have d: "length (data p) = 8" "length (data q) = 8"
    using assms(1,3) by (simp_all add: wf_packet_def CANPACKET_DATA_SIZE_MAX_def build_f407_def)
  have w: "wire_len p = 14" "wire_len q = 14"
    using assms(2,4) by (simp_all add: wire_len_def CANPACKET_HEAD_SIZE_def GET_LEN_def dlc_to_len_def)
  show ?thesis using d by (simp add: frame_bytes_def w) (simp add: packet_bytes_def take_Cons')
qed

lemma marker_header:
  "packet_len CAN_SYNC_MARKER = 22" "h_bus (header_of_bytes (CAN_SYNC_MARKER # bs)) = 5"
  by (simp_all add: packet_len_def CANPACKET_HEAD_SIZE_def CAN_SYNC_MARKER_def dlc_to_len_def header_of_bytes_def Let_def)

lemma checked_sum:
  assumes "wf_packet build_f407 p" and "data_len_code p = 8" and "can_check_checksum p = Some True"
  shows "xor_sum (packet_head p) XOR checksum p = xor_sum (data p)" "xor_sum (packet_bytes p) = 0"
proof -
  have d: "length (data p) = 8" using assms(1) by (simp add: wf_packet_def CANPACKET_DATA_SIZE_MAX_def build_f407_def)
  have g: "GET_LEN p = 8" using assms(2) by (simp add: GET_LEN_def dlc_to_len_def)
  have c: "checksum p = xor_sum (packet_head p) XOR xor_sum (data p)"
    using assms(3) d by (simp add: check_checksum_eq g)
  show "xor_sum (packet_head p) XOR checksum p = xor_sum (data p)" unfolding c by (simp add: xor.assoc [symmetric])
  then show "xor_sum (packet_bytes p) = 0" by (simp add: packet_bytes_def xor.assoc [symmetric])
qed

lemma first_sum:
  assumes "wf_packet build_f407 p" and "data_len_code p = 8" and "can_check_checksum p = Some True"
    and "wf_packet build_f407 q" and "data_len_code q = 8" and "can_check_checksum q = Some True"
  shows "xor_sum (CAN_SYNC_MARKER # packet_bytes p @ CAN_SYNC_MARKER # packet_head q @ [checksum q]) = xor_sum (data q)"
proof -
  have "m XOR (m XOR x) = x" for m x :: u8 by (simp add: xor.assoc [symmetric])
  then show ?thesis using checked_sum(2) [OF assms(1-3)] checked_sum(1) [OF assms(4-6)] by simp
qed

lemma marker_read:
  assumes q: "read_ok asm_empty q" and ring: "ring_list q = p1 # p2 # ps"
    and p1: "wf_packet build_f407 p1" "data_len_code p1 = 8" "can_check_checksum p1 = Some True"
    and p2: "wf_packet build_f407 p2" "data_len_code p2 = 8" "can_check_checksum p2 = Some True"
    and n: "22 \<le> n" "n \<le> RECV_SIZE"
  shows "\<exists>out buf' q' ok frames P. comms_can_read n asm_empty q = Some (out, buf', q') \<and>
    can_receive (Some out) True panda_init = Some (ok, frames, P) \<and>
    (if xor_sum (data p2) = 0 then \<exists>f fs. frames = f # fs \<and> length (frame_dat f) = 16 \<and> frame_src f mod 8 = 5
     else \<not> ok \<and> frames = [] \<and> held P = [] \<and> can_resets P = 1)"
proof -
  obtain buf' q' where r: "comms_can_read n asm_empty q = Some (take n (read_stream asm_empty q), buf', q')"
    using comms_can_read_stream [OF q] by blast
  define out where "out = take n (read_stream asm_empty q)"
  define w where "w = CAN_SYNC_MARKER # packet_bytes p1 @ CAN_SYNC_MARKER # packet_head p2 @ [checksum p2]"
  have st: "read_stream asm_empty q = frame_bytes p1 @ frame_bytes p2 @ concat (map frame_bytes ps)"
    by (simp add: read_stream_def ring pending_def asm_empty_def)
  have d: "length (data p1) = 8" using p1(1) by (simp add: wf_packet_def CANPACKET_DATA_SIZE_MAX_def build_f407_def)
  have wl: "length w = 22" using d by (simp add: w_def)
  have t22: "take 22 out = w"
    unfolding out_def st take_take using n first_bytes [OF p1(1,2) p2(1,2)] by (simp add: min_def w_def)
  have len: "22 \<le> length out" using arg_cong [OF t22, of length] wl by simp
  have ne: "out \<noteq> []" using len by auto
  have hd: "hd out = CAN_SYNC_MARKER"
    using arg_cong [OF t22, of hd] ne by (simp add: w_def)
  have fit: "packet_len (hd out) \<le> length out" using len by (simp add: hd marker_header)
  have sp: "fst (split_stream out) = w # fst (split_stream (drop 22 out))"
    using split_long [OF ne fit] by (simp add: hd marker_header t22)
  have sum: "wire_good w = (xor_sum (data p2) = 0)" unfolding wire_good_def w_def first_sum [OF p1 p2] ..
  have "length out \<le> RECV_SIZE" using n(2) by (simp add: out_def)
  then obtain P where P: "can_receive (Some out) True panda_init = Some (all_good out, map wire_frame (received out), P)"
    "held P = (if all_good out then snd (split_stream out) else [])" "can_resets P = (if all_good out then 0 else 1)"
    using receive_exact [OF panda_init_ok(1), of out] unfolding panda_init_ok(2) by (auto simp: panda_init_resets)
  have bus5: "length (frame_dat (wire_frame w)) = 16 \<and> frame_src (wire_frame w) mod 8 = 5"
  proof -
    have "take 6 w = CAN_SYNC_MARKER # take 5 (tl w)" by (simp add: w_def)
    then show ?thesis using wl
      by (simp add: wire_frame_def frame_of_def marker_header CAN_REJECTED_BUS_OFFSET_def CAN_RETURNED_BUS_OFFSET_def)
  qed
  show ?thesis
  proof (cases "xor_sum (data p2) = 0")
    case True
    then have "map wire_frame (received out) = wire_frame w # map wire_frame (takeWhile wire_good (fst (split_stream (drop 22 out))))"
      by (simp add: received_def sp sum)
    then show ?thesis using r P(1) bus5 True by (auto simp: out_def)
  next
    case False
    then have "received out = []" "\<not> all_good out" by (simp_all add: received_def all_good_def sp sum)
    then show ?thesis using r P False by (auto simp: out_def)
  qed
qed

subsection \<open>Properties\<close>

text \<open>C13: The messages the host wants to send arrive: packing never leaves the send buffer, hands over
  chunks of at most 325 bytes, and when the firmware is given these chunks it calls its send function on
  exactly the packets of the messages for this device, in order, their checksums set, and refreshes the
  free slots after each chunk.\<close>

theorem host_send_delivered:
  assumes "\<forall>m \<in> set (for_panda ms). msg_asserts m \<and> length (msg_dat m) \<le> CANPACKET_DATA_SIZE_MAX B"
    and "length send_buf = 2 * USB_TX_SOFT_LIMIT" and "write_ok buf" and "pending buf = []"
  shows "\<exists>chunks pss. pack_can_buffer send_buf ms = Some chunks \<and> (\<forall>c \<in> set chunks. c \<noteq> [] \<and> length c \<le> 325) \<and>
    concat pss = map (\<lambda>m. trim B (msg_packet m)) (for_panda ms) \<and>
    map_option snd (write_chunks B send refresh chunks buf s) = send_rounds send refresh pss s"
  by (rule host_send_chunks [OF assms])

text \<open>C14: The receiving side of the host. Whatever the transport returns, in any order of failures and
  deliveries, the room assertion of \<open>can_receive\<close> never fails, nothing outside the buffer is touched and
  less than one packet stays in it; and a sound stream of packets gives, in any cuts, exactly the frames
  of the packets.\<close>

theorem host_receive_sound:
  assumes "list_all reply_ok rs" and "\<forall>p \<in> set ps. exact p \<and> xor_sum (packet_bytes p) = 0"
    and "concat cs = concat (map packet_bytes ps)" and "\<forall>c \<in> set cs. length c \<le> RECV_SIZE"
  shows "(\<exists>outs P. receive_run rs panda_init = Some (outs, P) \<and> receive_buffer_size P \<le> 69) \<and>
    (\<exists>P. receive_run (healthy_reads cs) panda_init = Some (map packet_frame ps, P) \<and> held P = [] \<and> can_resets P = 0)"
  using receive_run_ok [OF panda_init_ok(1) assms(1)] receive_packets [OF assms(2-4)] by (auto simp: panda_ok_def)

text \<open>C15: The two sides disagree on the stream to the host: the firmware puts a marker before every
  packet, and this host reads it as a header. Of the first two packets nothing arrives: either the checksum
  of the 22 bytes fails and the host throws the whole read away and resets the connection, or - when the
  data bytes of the second packet cancel out - it accepts a frame of 16 bytes on a bus 5 that nobody sent.\<close>

theorem host_misses_marker:
  assumes "read_ok asm_empty q" and "ring_list q = p1 # p2 # ps"
    and "wf_packet build_f407 p1" and "data_len_code p1 = 8" and "can_check_checksum p1 = Some True"
    and "wf_packet build_f407 p2" and "data_len_code p2 = 8" and "can_check_checksum p2 = Some True"
    and "22 \<le> n" and "n \<le> RECV_SIZE"
  shows "\<exists>out buf' q' ok frames P. comms_can_read n asm_empty q = Some (out, buf', q') \<and>
    can_receive (Some out) True panda_init = Some (ok, frames, P) \<and>
    (if xor_sum (data p2) = 0 then \<exists>f fs. frames = f # fs \<and> length (frame_dat f) = 16 \<and> frame_src f mod 8 = 5
     else \<not> ok \<and> frames = [] \<and> held P = [] \<and> can_resets P = 1)"
  by (rule marker_read [OF assms])

subsection \<open>Examples\<close>

definition lkas_msg :: CanData where
  "lkas_msg = \<lparr>msg_address = 0x243, msg_dat = [1, 2, 3, 4, 5, 6, 7, 8], msg_src = 0\<rparr>"

definition lkas_sent :: CANPacket where
  "lkas_sent = lkas_packet\<lparr>checksum := 0x82\<rparr>"

definition other_panda_msg :: CanData where
  "other_panda_msg = \<lparr>msg_address = 0x100, msg_dat = [1], msg_src = 4\<rparr>"

definition diag_msg :: CanData where
  "diag_msg = \<lparr>msg_address = 0x18DA00F1, msg_dat = [2, 0x3E], msg_src = 2\<rparr>"

definition diag_packet :: CANPacket where
  "diag_packet = \<lparr>fd = False, bus = 2, data_len_code = 2, rejected = False, returned = False,
     extended = True, addr = 0x18DA00F1, checksum = 0x85, data = [2, 0x3E, 0, 0, 0, 0, 0, 0]\<rparr>"

lemma example_packets:
  "trim build_f407 (msg_packet lkas_msg) = lkas_sent" "trim build_f407 (msg_packet diag_msg) = diag_packet"
  by code_simp+

lemma send_rounds_log: "send_rounds (\<lambda>p sent. Some (sent @ [p])) id pss sent = Some (sent @ concat pss)"
proof (induction pss arbitrary: sent)
  case (Cons ps pss)
  have "send_packets (\<lambda>p sent. Some (sent @ [p])) qs xs = Some (xs @ qs)" for qs xs :: "CANPacket list"
    by (induction qs arbitrary: xs) simp_all
  then show ?case using Cons by simp
qed simp

theorem host_send_delivered_witness:
  "\<exists>chunks. pack_can_buffer (replicate 512 0) [lkas_msg, other_panda_msg, diag_msg] = Some chunks \<and>
     map_option snd (write_chunks build_f407 (\<lambda>p sent. Some (sent @ [p])) id chunks asm_empty []) =
       Some [lkas_sent, diag_packet]"
proof -
  let ?ms = "[lkas_msg, other_panda_msg, diag_msg]"
  have ok: "\<forall>m \<in> set (for_panda ?ms). msg_asserts m \<and> length (msg_dat m) \<le> CANPACKET_DATA_SIZE_MAX build_f407"
    by code_simp
  have panda: "for_panda ?ms = [lkas_msg, diag_msg]" by code_simp
  have buf: "length (replicate 512 (0::u8)) = 2 * USB_TX_SOFT_LIMIT" by (simp add: USB_TX_SOFT_LIMIT_def)
  have w: "write_ok asm_empty" "pending asm_empty = []" by (simp_all add: write_ok_def asm_empty_def pending_def)
  show ?thesis
    using host_send_delivered [OF ok buf w, where send = "\<lambda>p sent. Some (sent @ [p])" and refresh = id and s = "[]"]
    by (auto simp: panda example_packets send_rounds_log)
qed

theorem host_receive_sound_witness:
  "\<exists>P. receive_run (healthy_reads [take 9 (packet_bytes lkas_sent), drop 9 (packet_bytes lkas_sent)]) panda_init =
     Some ([\<lparr>frame_address = 0x243, frame_dat = [1, 2, 3, 4, 5, 6, 7, 8], frame_src = 0\<rparr>], P) \<and> held P = []"
proof -
  have p: "\<forall>p \<in> set [lkas_sent]. exact p \<and> xor_sum (packet_bytes p) = 0" by code_simp
  have cat: "concat [take 9 (packet_bytes lkas_sent), drop 9 (packet_bytes lkas_sent)] = concat (map packet_bytes [lkas_sent])"
    by simp
  have len: "\<forall>c \<in> set [take 9 (packet_bytes lkas_sent), drop 9 (packet_bytes lkas_sent)]. length c \<le> RECV_SIZE"
    by code_simp
  have fr: "packet_frame lkas_sent = \<lparr>frame_address = 0x243, frame_dat = [1, 2, 3, 4, 5, 6, 7, 8], frame_src = 0\<rparr>"
    by code_simp
  have rs: "list_all reply_ok [(None, False), (Some [1, 2, 3], False), (Some [0xFF], True)]"
    by (simp add: reply_ok_def RECV_SIZE_def)
  show ?thesis using host_receive_sound [OF rs p cat len] by (auto simp: fr)
qed

theorem host_misses_marker_witness:
  "\<exists>q out buf' q' P. ring_list q = [lkas_sent, lkas_sent] \<and> comms_can_read 2044 asm_empty q = Some (out, buf', q') \<and>
     can_receive (Some out) True panda_init = Some (False, [], P) \<and> can_resets P = 1"
proof -
  define q where "q = snd (can_push (snd (can_push (can_buffer lkas_sent 4) lkas_sent)) lkas_sent)"
  have ring: "ring_ok q" unfolding q_def by (intro ring.enq_ok can_buffer_ok) simp_all
  have lst: "ring_list q = lkas_sent # lkas_sent # []" unfolding q_def by code_simp
  have fits: "list_all fits [lkas_sent, lkas_sent]" by code_simp
  have ok: "read_ok asm_empty q" using ring lst fits by (simp add: read_ok_def asm_empty_def)
  have p: "wf_packet build_f407 lkas_sent" "data_len_code lkas_sent = 8" "can_check_checksum lkas_sent = Some True"
    by code_simp+
  have n: "(22::nat) \<le> 2044" "2044 \<le> RECV_SIZE" by (simp_all add: RECV_SIZE_def)
  have x: "xor_sum (data lkas_sent) = 8" by code_simp
  show ?thesis using host_misses_marker [OF ok lst p p n] lst by (auto simp: x)
qed

end
