(* ===== verification/Pandad_Serial.thy ===== *)
theory Pandad_Serial
  imports Pandad_Can Serial_Comms "HOL-Library.Sublist"
begin

text \<open>
  The host end of the serial link (\<^verbatim>\<open>openpilot/selfdrive/pandad/serial.cc\<close>): a request is framed and written
  to the terminal device, and the answer is read back. The theorems join it with the other end of the line,
  the transport of the firmware in \<open>Serial_Comms\<close>.

  The line is a parameter: what the peer has answered to everything that happened on the line so far, how
  many bytes one \<open>read\<close> hands out, how many one \<open>write\<close> takes.
\<close>

unbundle bit_operations_syntax

subsection \<open>The terminal device\<close>

datatype line_event = Sent "u8 list" | Pause

record tty_env =
  peer :: "line_event list \<Rightarrow> u8 list"
  chunk :: "nat \<Rightarrow> nat"
  room :: "nat \<Rightarrow> nat"

text \<open>What has happened on the line, and how many bytes of the answer are read or flushed.\<close>

record tty =
  hist :: "line_event list"
  taken :: nat

definition available :: "tty_env \<Rightarrow> tty \<Rightarrow> u8 list" where
  "available E t = drop (taken t) (peer E (hist t))"

definition tty_pause :: "tty \<Rightarrow> tty" where
  "tty_pause t = t\<lparr>hist := hist t @ [Pause]\<rparr>"

definition tty_write :: "tty_env \<Rightarrow> u8 list \<Rightarrow> tty \<Rightarrow> nat \<times> tty" where
  "tty_write E bs t =
     (let n = min (length bs) (room E (length (hist t))) in (n, t\<lparr>hist := hist t @ [Sent (take n bs)]\<rparr>))"

text \<open>\<open>tcflush(fd, TCIFLUSH)\<close>.\<close>

definition tty_flush :: "tty_env \<Rightarrow> tty \<Rightarrow> tty" where
  "tty_flush E t = t\<lparr>taken := length (peer E (hist t))\<rparr>"

text \<open>What one \<open>read\<close> of at most \<open>n\<close> bytes returns.\<close>

definition read_size :: "tty_env \<Rightarrow> nat \<Rightarrow> tty \<Rightarrow> nat" where
  "read_size E n t = min n (min (length (available E t)) (max 1 (chunk E (taken t))))"

text \<open>The loop around \<open>read\<close>. Nothing within the time-out of the terminal ends it.\<close>

function read_exact :: "tty_env \<Rightarrow> nat \<Rightarrow> u8 list \<Rightarrow> tty \<Rightarrow> bool \<times> u8 list \<times> tty" where
  "read_exact E n got t =
     (if length got < n then
        let r = read_size E (n - length got) t
        in if r = 0 then (False, got, tty_pause t)
           else read_exact E n (got @ take r (available E t)) (t\<lparr>taken := taken t + r\<rparr>)
      else (True, got, t))"
  by pat_completeness auto

termination
  by (relation "measure (\<lambda>(E, n, got, t). n - length got)") (auto simp: read_size_def min_def neq_Nil_conv split: if_splits)

declare read_exact.simps [simp del]

subsection \<open>One attempt\<close>

definition SER_SYNC :: u8 where "SER_SYNC = 0x5A"
definition SER_HACK :: u8 where "SER_HACK = 0x79"
definition SER_CKSTART :: u8 where "SER_CKSTART = 0xAB"
definition SER_HDR :: nat where "SER_HDR = 7"
definition SER_MAX_RETRIES :: nat where "SER_MAX_RETRIES = 5"

definition ser_checksum :: "u8 list \<Rightarrow> nat \<Rightarrow> u8" where
  "ser_checksum d n = fold (\<lambda>b c. c XOR b) (take n d) SER_CKSTART"

definition ser_hdr :: "u8 \<Rightarrow> u16 \<Rightarrow> u16 \<Rightarrow> u8 list" where
  "ser_hdr endpoint tx_len max_rx =
     (let hdr = [SER_SYNC, endpoint, ucast (tx_len AND 0xFF), ucast (drop_bit 8 tx_len),
                 ucast (max_rx AND 0xFF), ucast (drop_bit 8 max_rx)]
      in hdr @ [ser_checksum hdr 6])"

text \<open>The handle: the terminal, whether it is open and the two flags of its interface.\<close>

record serial_handle =
  link_tty :: tty
  fd_open :: bool
  connected :: bool
  comms_healthy :: bool

text \<open>The answer: acknowledgement, length, as much data as the caller has room for, a checksum nobody
  looks at. \<open>None\<close> is the return value -1.\<close>

definition read_answer :: "tty_env \<Rightarrow> u16 \<Rightarrow> tty \<Rightarrow> u8 list option \<times> tty" where
  "read_answer E max_rx t =
     (let (ok, rhdr, t) = read_exact E 3 [] t in
      if \<not> ok then (None, t)
      else if rhdr ! 0 \<noteq> SER_HACK then (None, t)
      else
        let rlen = (ucast (rhdr ! 1) OR push_bit 8 (ucast (rhdr ! 2)) :: u16);
            rlen = (if rlen > max_rx then max_rx else rlen);
            (ok, rx, t) = (if rlen > 0 then read_exact E (unat rlen) [] t else (True, [], t))
        in if \<not> ok then (None, t)
           else let (_, _, t) = read_exact E 1 [] t in (Some rx, t))"

text \<open>The request: the header, and after its acknowledgement the data with their checksum. The first flag tells
  whether a write failed.\<close>

definition send_data :: "tty_env \<Rightarrow> u8 list \<Rightarrow> tty \<Rightarrow> bool \<times> tty" where
  "send_data E tx t =
     (if length tx > 0 then
        let (n, t) = tty_write E tx t in
        if n \<noteq> length tx then (False, t)
        else let (n, t) = tty_write E [ser_checksum tx (length tx)] t in (n = 1, t)
      else (True, t))"

definition transfer_once :: "tty_env \<Rightarrow> u8 \<Rightarrow> u8 list \<Rightarrow> u16 \<Rightarrow> serial_handle \<Rightarrow> u8 list option \<times> serial_handle" where
  "transfer_once E endpoint tx max_rx h =
     (let (n, t) = tty_write E (ser_hdr endpoint (of_nat (length tx)) max_rx) (link_tty h) in
      if n \<noteq> SER_HDR then (None, h\<lparr>link_tty := t, comms_healthy := False\<rparr>)
      else
        let (ok, ack, t) = read_exact E 1 [] t in
        if \<not> ok \<or> ack ! 0 \<noteq> SER_HACK then (None, h\<lparr>link_tty := t\<rparr>)
        else
          let (ok, t) = send_data E tx t in
          if \<not> ok then (None, h\<lparr>link_tty := t, comms_healthy := False\<rparr>)
          else let (res, t) = read_answer E max_rx t in (res, h\<lparr>link_tty := t\<rparr>))"

subsection \<open>Attempts\<close>

definition endpoint_is_retry_safe :: "u8 \<Rightarrow> bool" where
  "endpoint_is_retry_safe endpoint \<longleftrightarrow> endpoint \<noteq> 3"

fun transfer_attempts :: "tty_env \<Rightarrow> u8 \<Rightarrow> u8 list \<Rightarrow> u16 \<Rightarrow> nat \<Rightarrow> serial_handle \<Rightarrow> u8 list option \<times> serial_handle" where
  "transfer_attempts E endpoint tx max_rx 0 h = (None, h\<lparr>comms_healthy := False\<rparr>)"
| "transfer_attempts E endpoint tx max_rx (Suc k) h =
     (case transfer_once E endpoint tx max_rx h of
        (Some rx, h) \<Rightarrow> (Some rx, h\<lparr>comms_healthy := True\<rparr>)
      | (None, h) \<Rightarrow>
          if \<not> connected h then (None, h\<lparr>comms_healthy := False\<rparr>)
          else transfer_attempts E endpoint tx max_rx k (h\<lparr>link_tty := tty_pause (tty_flush E (link_tty h))\<rparr>))"

definition transfer :: "tty_env \<Rightarrow> u8 \<Rightarrow> u8 list \<Rightarrow> u16 \<Rightarrow> serial_handle \<Rightarrow> u8 list option \<times> serial_handle" where
  "transfer E endpoint tx max_rx h =
     (if \<not> fd_open h then (None, h)
      else transfer_attempts E endpoint tx max_rx (if endpoint_is_retry_safe endpoint then SER_MAX_RETRIES else 1) h)"

text \<open>The packed request and the calls of the interface.\<close>

definition control_bytes :: "u8 \<Rightarrow> u16 \<Rightarrow> u16 \<Rightarrow> u16 \<Rightarrow> u8 list" where
  "control_bytes req p1 p2 len =
     [req, ucast p1, ucast (drop_bit 8 p1), ucast p2, ucast (drop_bit 8 p2), ucast len, ucast (drop_bit 8 len)]"

definition control_write :: "tty_env \<Rightarrow> u8 \<Rightarrow> u16 \<Rightarrow> u16 \<Rightarrow> serial_handle \<Rightarrow> u8 list option \<times> serial_handle" where
  "control_write E req p1 p2 = transfer E 0 (control_bytes req p1 p2 0) 0"

definition control_read :: "tty_env \<Rightarrow> u8 \<Rightarrow> u16 \<Rightarrow> u16 \<Rightarrow> u16 \<Rightarrow> serial_handle \<Rightarrow> u8 list option \<times> serial_handle" where
  "control_read E req p1 p2 len = transfer E 0 (control_bytes req p1 p2 len) len"

definition bulk_write :: "tty_env \<Rightarrow> u8 \<Rightarrow> u8 list \<Rightarrow> serial_handle \<Rightarrow> u8 list option \<times> serial_handle" where
  "bulk_write E endpoint bs = transfer E endpoint bs 0"

definition bulk_read :: "tty_env \<Rightarrow> u8 \<Rightarrow> u16 \<Rightarrow> serial_handle \<Rightarrow> u8 list option \<times> serial_handle" where
  "bulk_read E endpoint len = transfer E endpoint [] len"

subsection \<open>Reading\<close>

definition answers :: "tty_env \<Rightarrow> tty \<Rightarrow> u8 list \<Rightarrow> bool" where
  "answers E t bs \<longleftrightarrow> available E t = bs"

lemma read_exact_gets:
  assumes "length got \<le> n" and "n \<le> length got + length (available E t)"
  shows "read_exact E n got t =
    (True, got @ take (n - length got) (available E t), t\<lparr>taken := taken t + (n - length got)\<rparr>)"
  using assms
proof (induction "n - length got" arbitrary: got t rule: less_induct)
  case less
  show ?case
  proof (cases "length got < n")
    case False
    then show ?thesis using less.prems by (subst read_exact.simps) simp
  next
    case True
    define r where "r = read_size E (n - length got) t"
    have r: "0 < r" "r \<le> n - length got" "r \<le> length (available E t)"
      using True less.prems by (auto simp: r_def read_size_def)
    let ?t = "t\<lparr>taken := taken t + r\<rparr>"
    have av: "available E ?t = drop r (available E t)" by (simp add: available_def add.commute)
    have "read_exact E n got t = read_exact E n (got @ take r (available E t)) ?t"
      using True r(1) by (subst read_exact.simps) (simp add: r_def [symmetric])
    also have "\<dots> = (True, (got @ take r (available E t)) @ take (n - length (got @ take r (available E t))) (available E ?t),
        ?t\<lparr>taken := taken ?t + (n - length (got @ take r (available E t)))\<rparr>)"
      using True r less.prems by (intro less.hyps) (auto simp: av)
    also have "\<dots> = (True, got @ take (n - length got) (available E t), t\<lparr>taken := taken t + (n - length got)\<rparr>)"
    proof -
      have "take r (available E t) @ take (n - length got - r) (drop r (available E t)) = take (n - length got) (available E t)"
        using r take_add [of r "n - length got - r" "available E t"] by simp
      then show ?thesis using r by (simp add: av)
    qed
    finally show ?thesis .
  qed
qed

text \<open>With too little on the line the read times out, having taken what there was.\<close>

lemma read_exact_fails:
  assumes "length got + length (available E t) < n"
  shows "fst (read_exact E n got t) = False"
  using assms
proof (induction "n - length got" arbitrary: got t rule: less_induct)
  case less
  define r where "r = read_size E (n - length got) t"
  have lt: "length got < n" using less.prems by simp
  show ?case
  proof (cases "r = 0")
    case True
    then show ?thesis using lt by (subst read_exact.simps) (simp add: r_def [symmetric])
  next
    case False
    let ?t = "t\<lparr>taken := taken t + r\<rparr>"
    have av: "available E ?t = drop r (available E t)" by (simp add: available_def add.commute)
    have r: "r \<le> n - length got" "r \<le> length (available E t)" by (simp_all add: r_def read_size_def)
    have "read_exact E n got t = read_exact E n (got @ take r (available E t)) ?t"
      using lt False by (subst read_exact.simps) (simp add: r_def [symmetric])
    moreover have "fst (read_exact E n (got @ take r (available E t)) ?t) = False"
      using lt False r less.prems by (intro less.hyps) (auto simp: av)
    ultimately show ?thesis by simp
  qed
qed

subsection \<open>The two framings agree\<close>

lemma ser_checksum_eq: "n = length bs \<Longrightarrow> ser_checksum bs n = serial_checksum bs"
  by (simp add: ser_checksum_def serial_checksum_def xor_bytes_def SER_CKSTART_def SERIAL_CHECKSUM_START_def)

lemma low_byte: "(ucast (w AND 0xFF :: u16) :: u8) = ucast w"
  by (rule bit_word_eqI) (auto simp: bit_simps mask_eq_exp_minus_1 bit_numeral_rec less_Suc_eq numeral_eq_Suc)

lemma ser_hdr_eq: "ser_hdr endpoint (of_nat n) max_rx = serial_header endpoint n (unat max_rx)"
proof -
  have "ser_checksum [a, b, c, d, e, f] 6 = serial_checksum [a, b, c, d, e, f]" for a b c d e f
    by (rule ser_checksum_eq) simp
  then show ?thesis
    by (simp add: ser_hdr_def serial_header_def Let_def low_byte SER_SYNC_def SERIAL_SYNC_BYTE_def)
qed

lemma control_bytes_parse:
  "control_of_bytes (control_bytes req p1 p2 len) = \<lparr>request = req, param1 = p1, param2 = p2, req_length = len\<rparr>"
proof -
  have "ucast (ucast w :: u8) OR push_bit 8 (ucast (ucast (drop_bit 8 w) :: u8)) = w" for w :: u16
    by (rule bit_word_eqI) (auto simp: bit_simps)
  then show ?thesis by (simp add: control_of_bytes_def control_bytes_def)
qed

subsection \<open>The device at the other end\<close>

text \<open>The firmware as a peer: what is written lands in its ring, and its next tick answers.\<close>

definition bytes_sent :: "line_event list \<Rightarrow> u8 list" where
  "bytes_sent es = concat (map (\<lambda>e. case e of Sent bs \<Rightarrow> bs | Pause \<Rightarrow> []) es)"

definition ring_put :: "u8 list \<Rightarrow> serial_state \<Rightarrow> serial_state" where
  "ring_put bs s = fold dma_byte bs s"

definition device_peer :: "'p comms \<Rightarrow> serial_state \<times> 'p \<Rightarrow> line_event list \<Rightarrow> u8 list" where
  "device_peer C sp es =
     (case serial_comms_tick C (ring_put (bytes_sent es) (fst sp), snd sp) of
        Some (s', _) \<Rightarrow> drop (length (line_out (fst sp))) (line_out s') | None \<Rightarrow> [])"

lemma bytes_sent_simps [simp]:
  "bytes_sent [] = []" "bytes_sent (Sent bs # es) = bs @ bytes_sent es" "bytes_sent (Pause # es) = bytes_sent es"
  "bytes_sent (es @ es') = bytes_sent es @ bytes_sent es'"
  by (simp_all add: bytes_sent_def)

lemma dma_byte_pending:
  assumes ok: "serial_ok s" and room: "uart_rx_avail s + 1 < UART_RX_BUF_SIZE"
  shows "uart_rx_avail (dma_byte b s) = uart_rx_avail s + 1" "rx_pending (dma_byte b s) = rx_pending s @ [b]"
proof -
  let ?N = UART_RX_BUF_SIZE and ?r = "uart_rx_rd s" and ?w = "uart_rx_wr s" and ?a = "uart_rx_avail s"
  have b: "?r < ?N" "?w < ?N" "length (uart_rx_buf s) = ?N" using ok by (simp_all add: serial_ok_def)
  have a: "?a = (?w + ?N - ?r) mod ?N" by (simp add: uart_rx_avail_def)
  have w: "?w = (?r + ?a) mod ?N"
  proof -
    have "(?r + ?a) mod ?N = (?r + (?w + ?N - ?r)) mod ?N" unfolding a by (simp add: mod_simps)
    then show ?thesis using b by simp
  qed
  show 1: "uart_rx_avail (dma_byte b s) = ?a + 1"
  proof -
    have "((?w + 1) mod ?N + ?N - ?r) mod ?N = ((?w + 1) mod ?N + (?N - ?r)) mod ?N" using b by simp
    also have "\<dots> = (?w + 1 + (?N - ?r)) mod ?N" by (simp only: mod_add_left_eq)
    also have "\<dots> = (?a + 1) mod ?N" unfolding a using b by (simp add: mod_simps)
    finally show ?thesis using room by (simp add: uart_rx_avail_def dma_byte_def)
  qed
  have other: "(?r + i) mod ?N \<noteq> ?w" if "i < ?a" for i
  proof
    assume "(?r + i) mod ?N = ?w"
    then have "(?w + ?N - ?w) mod ?N = ?a - i" using ring_distance [of ?r ?N ?w i] b that a by simp
    then show False using that by simp
  qed
  show "rx_pending (dma_byte b s) = rx_pending s @ [b]"
  proof (rule nth_equalityI)
    show "length (rx_pending (dma_byte b s)) = length (rx_pending s @ [b])" using 1 by simp
    fix i assume "i < length (rx_pending (dma_byte b s))"
    then have i: "i < ?a + 1" using 1 by simp
    then have "rx_pending (dma_byte b s) ! i = (uart_rx_buf s)[?w := b] ! ((?r + i) mod ?N)"
      using 1 by (simp add: rx_pending_def del: upt_Suc) (simp add: dma_byte_def)
    then show "rx_pending (dma_byte b s) ! i = (rx_pending s @ [b]) ! i"
      using i other [of i] b w by (cases "i < ?a") (auto simp: nth_append rx_pending_def less_Suc_eq)
  qed
qed

lemma dma_byte_quiet: "quiet s \<Longrightarrow> quiet (dma_byte b s)"
  by (simp add: quiet_def serial_ok_def dma_byte_def)

lemma ring_put_quiet:
  assumes "quiet s" and "length (rx_pending s) + length bs < UART_RX_BUF_SIZE"
  shows "quiet (ring_put bs s) \<and> rx_pending (ring_put bs s) = rx_pending s @ bs \<and> line_out (ring_put bs s) = line_out s"
  using assms
proof (induction bs arbitrary: s)
  case (Cons b bs)
  have "quiet (dma_byte b s)" by (rule dma_byte_quiet [OF Cons.prems(1)])
  moreover have "rx_pending (dma_byte b s) = rx_pending s @ [b]"
    using Cons.prems by (intro dma_byte_pending) (simp_all add: quiet_def)
  moreover have "line_out (dma_byte b s) = line_out s" by (simp add: dma_byte_def)
  ultimately show ?case using Cons.IH [of "dma_byte b s"] Cons.prems(2) by (simp add: ring_put_def del: rx_pending_length)
qed (simp add: ring_put_def)

text \<open>A header alone: the acknowledgement, and then the device waits in vain.\<close>

lemma recv_raw_short:
  assumes "quiet s" and "length (rx_pending s) < n" and "i + n \<le> SERIAL_BUF_SIZE"
  shows "\<exists>s'. uart_recv_raw i n s = Some (False, s') \<and> line_out s' = line_out s"
  using assms
proof (induction n arbitrary: i s)
  case (Suc n)
  have ok: "serial_ok s" "line_in s = []" using Suc.prems(1) by (simp_all add: quiet_def)
  show ?case
  proof (cases "rx_pending s = []")
    case True
    then show ?thesis using recv_byte_quiet [OF ok] by (simp del: rx_pending_Nil)
  next
    case False
    define s1 where "s1 = (consumed 1 s)\<lparr>ser_rx := (ser_rx s)[i := hd (rx_pending s)]\<rparr>"
    have len: "i < length (ser_rx s)" using ok Suc.prems(3) by (simp add: serial_ok_def)
    have av: "1 \<le> uart_rx_avail s" using False by (simp add: rx_pending_def)
    have "rx_pending s1 = rx_pending (consumed 1 s)" by (simp add: s1_def rx_pending_def uart_rx_avail_def)
    then have p1: "rx_pending s1 = tl (rx_pending s)" using rx_pending_consumed [OF ok(1) av] by (simp add: drop_Suc)
    have q1: "quiet s1" using consumed_ok [OF ok(1), of 1] ok(2) by (simp add: s1_def quiet_def serial_ok_def)
    have "uart_recv_raw i (Suc n) s = uart_recv_raw (i + 1) n s1"
      using recv_byte_quiet [OF ok] False len by (simp add: put_rx_def s1_def del: rx_pending_Nil)
    moreover have "\<exists>s'. uart_recv_raw (i + 1) n s1 = Some (False, s') \<and> line_out s' = line_out s1"
      using Suc.prems(2,3) p1 av by (intro Suc.IH [OF q1]) auto
    ultimately show ?thesis by (simp add: s1_def)
  qed
qed simp

lemma tick_header_only:
  assumes q: "quiet s" and p: "rx_pending s = serial_header endpoint m r" and m: "0 < m" "m \<le> 2040"
  shows "\<exists>s'. serial_comms_tick C (s, p) = Some (s', p) \<and> line_out s' = line_out s @ [SERIAL_HACK]"
proof -
  note H = serial_header_facts [where e = endpoint and m = m and r = r]
  have seven: "length (rx_pending s) = 7" using p H(1) by (simp del: rx_pending_length)
  then have n: "7 \<le> length (rx_pending s)" "length (rx_pending s) \<le> 3072" by (simp_all del: rx_pending_length)
  have H0: "serial_header endpoint m r \<noteq> []" using H(1) by auto
  have t: "serial_comms_tick C (s, p) = serial_payload C (header_read s, p)"
    using H H0 by (simp add: tick_header [OF q n]) (simp add: p)
  note h = header_read_facts [OF q n(1)]
  have M: "le_word (ser_rx (header_read s) ! 2) (ser_rx (header_read s) ! 3) = m"
    using h(5) [of 2] h(5) [of 3] H(5) m(2) by (simp add: p)
  define s0 where "s0 = uart_send_raw [SERIAL_HACK] (header_read s)"
  have q0: "quiet s0" using h(1) by (simp add: s0_def quiet_def serial_ok_def uart_send_raw_def)
  have "rx_pending s0 = rx_pending (header_read s)"
    by (simp add: s0_def rx_pending_def uart_rx_avail_def uart_send_raw_def)
  then have "rx_pending s0 = []" using h(2) seven by (simp only: drop_eq_Nil)
  then have p0: "length (rx_pending s0) < m + 1" by (simp only: list.size)
  obtain s' where s': "uart_recv_raw SERIAL_HEADER_SIZE (m + 1) s0 = Some (False, s')" "line_out s' = line_out s0"
    using recv_raw_short [OF q0 p0, of SERIAL_HEADER_SIZE] m(2) by (auto simp: SERIAL_HEADER_SIZE_def SERIAL_BUF_SIZE_def)
  have fits: "\<not> SERIAL_BUF_SIZE - SERIAL_HEADER_SIZE - 1 < m" using m(2) by (simp add: SERIAL_BUF_SIZE_def SERIAL_HEADER_SIZE_def)
  have "serial_payload C (header_read s, p) = Some (count_stat (\<lambda>t. t\<lparr>mosi_timeout := mosi_timeout t + 1\<rparr>) s', p)"
    unfolding serial_payload_def prod.case Let_def M s0_def [symmetric]
    using m(1) by (simp only: fits if_False if_True s'(1) bind.bind_lunit prod.case simp_thms)
  then show ?thesis using t s'(2) h(4) by (simp add: s0_def uart_send_raw_def count_stat_def)
qed

subsection \<open>A call and its answer\<close>

lemma read_exact_sent: "bytes_sent (hist (snd (snd (read_exact E n got t)))) = bytes_sent (hist t)"
proof (induction E n got t rule: read_exact.induct)
  case (1 E n got t)
  show ?case
  proof (cases "length got < n \<and> read_size E (n - length got) t \<noteq> 0")
    case True
    then show ?thesis using 1 by (subst read_exact.simps) (simp add: Let_def)
  next
    case False
    then show ?thesis by (subst read_exact.simps) (auto simp: Let_def tty_pause_def)
  qed
qed

lemma length_word: "n \<le> 2044 \<Longrightarrow> (ucast (of_nat n :: u8) OR push_bit 8 (ucast (of_nat (n div 256) :: u8)) :: u16) = of_nat n"
proof -
  assume n: "n \<le> 2044"
  define w where "w = (of_nat n :: u16)"
  have un: "unat w = n" using n by (simp add: w_def unat_of_nat)
  have "take_bit 16 n = n" using n by (intro take_bit_nat_eq_self) simp
  then have lo: "ucast w = (of_nat n :: u8)" by (simp add: w_def unsigned_of_nat)
  have "drop_bit 8 w = of_nat (n div 256)"
    using n un by (simp add: word_unat_eq_iff drop_bit_eq_div unat_div unat_of_nat)
  moreover have "take_bit 16 (n div 256) = n div 256" using n by (intro take_bit_nat_eq_self) simp
  ultimately have hi: "ucast (drop_bit 8 w) = (of_nat (n div 256) :: u8)" by (simp add: unsigned_of_nat)
  have "ucast (ucast w :: u8) OR push_bit 8 (ucast (ucast (drop_bit 8 w) :: u8)) = w"
    by (rule bit_word_eqI) (auto simp: bit_simps)
  then show ?thesis unfolding lo hi by (simp only: w_def)
qed

lemma read_answer_nack: "available E t = [SERIAL_NACK] \<Longrightarrow>
    fst (read_answer E max_rx t) = None \<and> bytes_sent (hist (snd (read_answer E max_rx t))) = bytes_sent (hist t)"
proof -
  assume a: "available E t = [SERIAL_NACK]"
  obtain ok b t1 where r: "read_exact E 3 [] t = (ok, b, t1)" by (metis prod_cases3)
  have "\<not> ok" using read_exact_fails [of "[]" E t 3] a r by simp
  then show ?thesis using r read_exact_sent [of E 3 "[]" t] by (simp add: read_answer_def)
qed

lemma read_answer_data:
  assumes a: "available E t = serial_answer (Some r)" and r: "length r \<le> 2044"
  shows "\<exists>t'. read_answer E max_rx t = (Some (take (unat max_rx) r), t') \<and> hist t' = hist t \<and>
    (length r \<le> unat max_rx \<longrightarrow> available E t' = [])"
proof -
  define ck where "ck = serial_checksum ([SERIAL_HACK, of_nat (length r), of_nat (length r div 256)] @ r)"
  have a': "available E t = [SERIAL_HACK, of_nat (length r), of_nat (length r div 256)] @ r @ [ck]"
    by (simp add: a serial_answer_def with_checksum_def ck_def)
  define t1 where "t1 = t\<lparr>taken := taken t + 3\<rparr>"
  have 1: "read_exact E 3 [] t = (True, [SERIAL_HACK, of_nat (length r), of_nat (length r div 256)], t1)"
    using read_exact_gets [of "[]" 3 E t] by (simp add: a' t1_def)
  have av1: "available E t1 = r @ [ck]"
  proof -
    have "available E t1 = drop 3 (available E t)" by (simp add: available_def t1_def add.commute)
    then show ?thesis by (simp add: a')
  qed
  define rlen where "rlen = (if (of_nat (length r) :: u16) > max_rx then max_rx else of_nat (length r))"
  have ul: "unat rlen = min (length r) (unat max_rx)"
    using r by (auto simp: rlen_def word_less_nat_alt unat_of_nat min_def)
  define t2 where "t2 = t1\<lparr>taken := taken t1 + unat rlen\<rparr>"
  have 2: "(if rlen > 0 then read_exact E (unat rlen) [] t1 else (True, [], t1)) = (True, take (unat max_rx) r, t2)"
  proof (cases "rlen > 0")
    case True
    have "take (unat rlen) (r @ [ck]) = take (unat max_rx) r" by (simp add: ul min_def)
    then show ?thesis using True read_exact_gets [of "[]" "unat rlen" E t1] by (simp add: av1 ul t2_def)
  next
    case False
    then have "rlen = 0" by (simp add: word_gt_0)
    moreover from this have "take (unat max_rx) r = []" using ul by (cases "r = []") (auto simp: min_def split: if_splits)
    ultimately show ?thesis by (simp add: t2_def)
  qed
  have av2: "available E t2 = drop (unat rlen) (r @ [ck])"
  proof -
    have "available E t2 = drop (unat rlen) (available E t1)" by (simp add: available_def t2_def add.commute)
    then show ?thesis by (simp add: av1)
  qed
  define t3 where "t3 = t2\<lparr>taken := taken t2 + 1\<rparr>"
  have "snd (snd (read_exact E 1 [] t2)) = t3"
    using read_exact_gets [of "[]" 1 E t2] ul by (simp add: av2 t3_def min_def)
  moreover have "SERIAL_HACK = SER_HACK" by (simp add: SERIAL_HACK_def SER_HACK_def)
  ultimately have "read_answer E max_rx t = (Some (take (unat max_rx) r), t3)"
    using 2 by (cases "rlen > 0") (simp_all add: read_answer_def 1 length_word [OF r] rlen_def [symmetric] split_beta)
  moreover have "hist t3 = hist t" by (simp add: t3_def t2_def t1_def)
  moreover have "available E t3 = drop 1 (available E t2)" by (simp add: available_def t3_def)
  ultimately show ?thesis using ul av2 by auto
qed

definition wide_room :: "tty_env \<Rightarrow> bool" where
  "wide_room E \<longleftrightarrow> (\<forall>k. 2048 \<le> room E k)"

lemma tty_write_whole: "wide_room E \<Longrightarrow> length bs \<le> 2048 \<Longrightarrow> tty_write E bs t = (length bs, t\<lparr>hist := hist t @ [Sent bs]\<rparr>)"
  unfolding wide_room_def tty_write_def Let_def by (metis min.absorb1 order_trans take_all order_refl)

definition fresh :: "serial_handle \<Rightarrow> bool" where
  "fresh h \<longleftrightarrow> link_tty h = \<lparr>hist = [], taken = 0\<rparr>"

text \<open>One attempt on an idle device: the device has served the request once, and the caller has the answer.\<close>

lemma transfer_once_exact:
  assumes q: "quiet s" and idle: "rx_pending s = []" and E: "peer E = device_peer C (s, p)" "wide_room E" and h: "fresh h"
    and tx: "length tx \<le> 2040"
    and d: "serial_dispatch C endpoint tx (min (unat max_rx) 2044) p = Some (resp, p')"
    and small: "\<forall>bs. resp = Some bs \<longrightarrow> length bs \<le> 2044"
  shows "\<exists>h' s'. transfer_once E endpoint tx max_rx h = (map_option (take (unat max_rx)) resp, h') \<and>
    serial_comms_tick C (ring_put (bytes_sent (hist (link_tty h'))) s, p) = Some (s', p') \<and>
    quiet s' \<and> rx_pending s' = [] \<and>
    (\<forall>bs. resp = Some bs \<longrightarrow> length bs \<le> unat max_rx \<longrightarrow> available E (link_tty h') = [])"
proof -
  have r: "length bs \<le> 2044" if "resp = Some bs" for bs using small that by simp
  define H where "H = serial_header endpoint (length tx) (unat max_rx)"
  define tail where "tail = (if tx = [] then [] else with_checksum tx)"
  have F: "serial_frame endpoint tx (unat max_rx) = H @ tail" by (simp add: serial_frame_def H_def tail_def)
  have lenH: "length H = 7" by (simp add: H_def serial_header_facts)
  have lenF: "length (H @ tail) \<le> 2048" using tx lenH by (simp add: tail_def with_checksum_def)
  have m16: "unat max_rx < 65536" using unsigned_less [of max_rx, where 'a = nat] by simp
  define sF where "sF = ring_put (H @ tail) s"
  have put: "length (rx_pending s) + length (H @ tail) < UART_RX_BUF_SIZE"
    using lenF idle by (simp add: UART_RX_BUF_SIZE_def)
  have sF: "quiet sF" "rx_pending sF = H @ tail" "line_out sF = line_out s"
    using ring_put_quiet [OF q put] idle unfolding sF_def by simp_all
  obtain s' where s': "serial_comms_tick C (sF, p) = Some (s', p')" "quiet s'" "rx_pending s' = []"
    "line_out s' = line_out s @ [SERIAL_HACK] @ serial_answer resp"
  proof -
    have f: "rx_pending sF = serial_frame endpoint tx (unat max_rx) @ []" by (simp add: sF(2) F)
    have l: "length (rx_pending sF) \<le> 3072" unfolding sF(2) using lenF by linarith
    have "\<exists>s'. serial_comms_tick C (sF, p) = Some (s', p') \<and> quiet s' \<and> rx_pending s' = [] \<and>
        line_out s' = line_out sF @ [SERIAL_HACK] @ serial_answer resp"
      by (rule tick_frame [OF sF(1) f l tx m16 d]) (rule r)
    then show ?thesis unfolding sF(3) by (elim exE conjE) (rule that)
  qed
  have peerF: "peer E es = SERIAL_HACK # serial_answer resp" if "bytes_sent es = H @ tail" for es
    using s'(1,4) by (simp add: E(1) device_peer_def that sF_def [symmetric])
  have peerH: "peer E [Sent H] = [SERIAL_HACK]" if "tx \<noteq> []"
  proof -
    define sH where "sH = ring_put H s"
    have "length (rx_pending s) + length H < UART_RX_BUF_SIZE" using lenH idle by (simp add: UART_RX_BUF_SIZE_def)
    then have sH: "quiet sH" "rx_pending sH = H" "line_out sH = line_out s"
      using ring_put_quiet [OF q] idle unfolding sH_def by simp_all
    have "0 < length tx" using that by simp
    from tick_header_only [OF sH(1) sH(2) [unfolded H_def] this tx, of C p]
    obtain s1 where "serial_comms_tick C (sH, p) = Some (s1, p)" "line_out s1 = line_out sH @ [SERIAL_HACK]"
      by (elim exE conjE) (rule that)
    then show ?thesis using sH(3) by (simp add: E(1) device_peer_def sH_def [symmetric])
  qed
  define t1 where "t1 = \<lparr>hist = [Sent H], taken = 0\<rparr>"
  have w1: "tty_write E (ser_hdr endpoint (of_nat (length tx)) max_rx) (link_tty h) = (7, t1)"
    using tty_write_whole [OF E(2), of H "link_tty h"] lenH h by (simp add: ser_hdr_eq H_def [symmetric] fresh_def t1_def)
  have "hd (peer E [Sent H]) = SERIAL_HACK \<and> peer E [Sent H] \<noteq> []"
    using peerH peerF [of "[Sent H]"] by (cases "tx = []") (simp_all add: tail_def)
  then obtain rest1 where av1: "available E t1 = SERIAL_HACK # rest1"
    by (cases "peer E [Sent H]") (simp_all add: available_def t1_def)
  define t2 where "t2 = \<lparr>hist = [Sent H], taken = 1\<rparr>"
  have rd: "read_exact E 1 [] t1 = (True, [SERIAL_HACK], t2)"
    using read_exact_gets [of "[]" 1 E t1] by (simp add: av1) (simp add: t1_def t2_def)
  define es where "es = (if tx = [] then [Sent H] else [Sent H, Sent tx, Sent [serial_checksum tx]])"
  define t3 where "t3 = \<lparr>hist = es, taken = 1\<rparr>"
  have send: "send_data E tx t2 = (True, t3)"
    using tx by (auto simp: send_data_def tty_write_whole [OF E(2)] ser_checksum_eq t2_def t3_def es_def)
  have bs3: "bytes_sent es = H @ tail" by (simp add: es_def tail_def with_checksum_def)
  have av3: "available E t3 = serial_answer resp" by (simp add: available_def t3_def peerF [OF bs3])
  have hack: "SERIAL_HACK = SER_HACK" by (simp add: SERIAL_HACK_def SER_HACK_def)
  have once: "transfer_once E endpoint tx max_rx h = (fst (read_answer E max_rx t3), h\<lparr>link_tty := snd (read_answer E max_rx t3)\<rparr>)"
    by (simp add: transfer_once_def w1 SER_HDR_def rd [unfolded One_nat_def] send hack split_beta)
  show ?thesis
  proof (cases resp)
    case None
    then have "available E t3 = [SERIAL_NACK]" by (simp add: av3 serial_answer_def)
    from read_answer_nack [OF this, of max_rx]
    have "fst (read_answer E max_rx t3) = None" "bytes_sent (hist (snd (read_answer E max_rx t3))) = H @ tail"
      by (simp_all add: t3_def bs3)
    then show ?thesis using once s' None by (intro exI [of _ "snd (transfer_once E endpoint tx max_rx h)"] exI [of _ s']) (simp add: sF_def)
  next
    case (Some bs)
    then obtain t' where t': "read_answer E max_rx t3 = (Some (take (unat max_rx) bs), t')" "hist t' = hist t3"
      "length bs \<le> unat max_rx \<longrightarrow> available E t' = []"
      using read_answer_data [OF av3 [unfolded Some] r [OF Some]] by blast
    then show ?thesis using once s' Some
      by (intro exI [of _ "h\<lparr>link_tty := t'\<rparr>"] exI [of _ s']) (simp add: sF_def t3_def bs3)
  qed
qed

subsection \<open>Whatever the line does\<close>

lemma read_answer_sent: "bytes_sent (hist (snd (read_answer E max_rx t))) = bytes_sent (hist t)"
  by (auto simp: read_answer_def Let_def split_beta read_exact_sent)

lemma read_exact_length: "length got \<le> n \<Longrightarrow> fst (read_exact E n got t) \<Longrightarrow> length (fst (snd (read_exact E n got t))) = n"
proof (induction E n got t rule: read_exact.induct)
  case (1 E n got t)
  show ?case
  proof (cases "length got < n \<and> read_size E (n - length got) t \<noteq> 0")
    case True
    moreover have "read_size E (n - length got) t \<le> n - length got" by (simp add: read_size_def)
    moreover have "read_exact E n got t = read_exact E n (got @ take (read_size E (n - length got) t) (available E t))
        (t\<lparr>taken := taken t + read_size E (n - length got) t\<rparr>)"
      using True by (subst read_exact.simps) (simp add: Let_def)
    moreover have "length (got @ take (read_size E (n - length got) t) (available E t)) \<le> n"
      using calculation(1,2) by (simp add: min_def, linarith)
    ultimately show ?thesis using 1 by simp
  next
    case False
    then have "read_exact E n got t = (False, got, tty_pause t) \<or> \<not> length got < n \<and> read_exact E n got t = (True, got, t)"
      by (subst (1 2) read_exact.simps) (auto simp: Let_def)
    then show ?thesis using "1.prems" by auto
  qed
qed

lemma read_answer_length: "fst (read_answer E max_rx t) = Some rx \<Longrightarrow> length rx \<le> unat max_rx"
proof -
  assume a: "fst (read_answer E max_rx t) = Some rx"
  obtain ok rhdr t1 where r: "read_exact E 3 [] t = (ok, rhdr, t1)" by (metis prod_cases3)
  define rlen where "rlen = (let n = (ucast (rhdr ! 1) OR push_bit 8 (ucast (rhdr ! 2)) :: u16) in if n > max_rx then max_rx else n)"
  have le: "unat rlen \<le> unat max_rx" by (auto simp: rlen_def Let_def word_less_nat_alt)
  have "rx = fst (snd (if rlen > 0 then read_exact E (unat rlen) [] t1 else (True, [], t1))) \<and>
      fst (if rlen > 0 then read_exact E (unat rlen) [] t1 else (True, [], t1))"
    using a by (auto simp: read_answer_def r Let_def split_beta rlen_def split: if_splits)
  then show ?thesis using le read_exact_length [of "[]" "unat rlen" E t1] by (cases "rlen > 0") auto
qed

lemma tty_write_sent: "bytes_sent (hist (snd (tty_write E bs t))) = bytes_sent (hist t) @ take (fst (tty_write E bs t)) bs"
  "fst (tty_write E bs t) \<le> length bs"
  by (simp_all add: tty_write_def Let_def)

lemma send_data_sent:
  "\<exists>w. bytes_sent (hist (snd (send_data E tx t))) = bytes_sent (hist t) @ w \<and>
    prefix w (if tx = [] then [] else with_checksum tx)"
proof (cases "tx = []")
  case False
  obtain n t1 where w: "tty_write E tx t = (n, t1)" by (cases "tty_write E tx t")
  note s1 = tty_write_sent(1) [of E tx t, unfolded w fst_conv snd_conv]
  show ?thesis
  proof (cases "n = length tx")
    case True
    obtain k t2 where w2: "tty_write E [serial_checksum tx] t1 = (k, t2)"
      by (cases "tty_write E [serial_checksum tx] t1")
    note s2 = tty_write_sent(1) [of E "[serial_checksum tx]" t1, unfolded w2 fst_conv snd_conv]
    have "prefix (tx @ take k [serial_checksum tx]) (with_checksum tx)"
      unfolding with_checksum_def same_prefix_prefix by (rule take_is_prefix)
    then show ?thesis using False True s1 s2
      by (intro exI [of _ "tx @ take k [serial_checksum tx]"]) (simp add: send_data_def w w2 ser_checksum_eq)
  next
    case less: False
    have "prefix (take n tx) (with_checksum tx)" by (simp add: with_checksum_def prefix_prefix take_is_prefix)
    then show ?thesis using False less s1 by (intro exI [of _ "take n tx"]) (simp add: send_data_def w)
  qed
qed (simp add: send_data_def)

lemma transfer_once_sent:
  "\<exists>w. bytes_sent (hist (link_tty (snd (transfer_once E endpoint tx max_rx h)))) = bytes_sent (hist (link_tty h)) @ w \<and>
    prefix w (serial_frame endpoint tx (unat max_rx))"
proof -
  define H where "H = serial_header endpoint (length tx) (unat max_rx)"
  obtain n t1 where w: "tty_write E H (link_tty h) = (n, t1)" by (cases "tty_write E H (link_tty h)")
  note s1 = tty_write_sent(1) [of E H "link_tty h", unfolded w fst_conv snd_conv]
  have lenH: "length H = 7" by (simp add: H_def serial_header_facts)
  obtain ok ack t2 where r: "read_exact E 1 [] t1 = (ok, ack, t2)" by (metis prod_cases3)
  have s2: "bytes_sent (hist t2) = bytes_sent (hist t1)" using read_exact_sent [of E 1 "[]" t1] unfolding r by simp
  obtain v where v: "bytes_sent (hist (snd (send_data E tx t2))) = bytes_sent (hist t2) @ v"
    "prefix v (if tx = [] then [] else with_checksum tx)" using send_data_sent by blast
  have F: "serial_frame endpoint tx (unat max_rx) = H @ (if tx = [] then [] else with_checksum tx)"
    by (simp add: serial_frame_def H_def)
  have p: "prefix (take n H) (serial_frame endpoint tx (unat max_rx))" "prefix (H @ v) (serial_frame endpoint tx (unat max_rx))"
    unfolding F using v(2) by (simp_all add: prefix_prefix take_is_prefix)
  show ?thesis
  proof (cases "n = 7 \<and> ok \<and> ack ! 0 = SER_HACK")
    case False
    then show ?thesis using s1 s2 p(1)
      by (intro exI [of _ "take n H"]) (auto simp: transfer_once_def ser_hdr_eq H_def [symmetric] w SER_HDR_def r [unfolded One_nat_def])
  next
    case True
    then show ?thesis using s1 s2 p(2) v(1) lenH
      by (intro exI [of _ "H @ v"])
        (auto simp: transfer_once_def ser_hdr_eq H_def [symmetric] w SER_HDR_def r [unfolded One_nat_def] Let_def split_beta read_answer_sent)
  qed
qed

lemma transfer_once_result:
  "fst (transfer_once E endpoint tx max_rx h) = Some rx \<Longrightarrow> length rx \<le> unat max_rx"
  by (auto simp: transfer_once_def Let_def split_beta read_answer_length split: if_splits)

lemma transfer_attempts_bounded:
  "\<exists>ws. length ws \<le> k \<and>
    bytes_sent (hist (link_tty (snd (transfer_attempts E endpoint tx max_rx k h)))) = bytes_sent (hist (link_tty h)) @ concat ws \<and>
    (\<forall>w \<in> set ws. prefix w (serial_frame endpoint tx (unat max_rx))) \<and>
    comms_healthy (snd (transfer_attempts E endpoint tx max_rx k h)) = (fst (transfer_attempts E endpoint tx max_rx k h) \<noteq> None) \<and>
    (\<forall>rx. fst (transfer_attempts E endpoint tx max_rx k h) = Some rx \<longrightarrow> length rx \<le> unat max_rx)"
proof (induction k arbitrary: h)
  case (Suc k)
  obtain res h1 where once: "transfer_once E endpoint tx max_rx h = (res, h1)" by (cases "transfer_once E endpoint tx max_rx h")
  obtain w where w: "bytes_sent (hist (link_tty h1)) = bytes_sent (hist (link_tty h)) @ w"
    "prefix w (serial_frame endpoint tx (unat max_rx))"
    using transfer_once_sent [of E endpoint tx max_rx h] once by auto
  show ?case
  proof (cases res)
    case (Some rx)
    then show ?thesis using w once transfer_once_result [of E endpoint tx max_rx h rx]
      by (intro exI [of _ "[w]"]) simp
  next
    case None
    show ?thesis
    proof (cases "connected h1")
      case False
      then show ?thesis using w once None by (intro exI [of _ "[w]"]) simp
    next
      case True
      let ?h = "h1\<lparr>link_tty := tty_pause (tty_flush E (link_tty h1))\<rparr>"
      have s: "bytes_sent (hist (link_tty ?h)) = bytes_sent (hist (link_tty h1))" by (simp add: tty_pause_def tty_flush_def)
      have step: "transfer_attempts E endpoint tx max_rx (Suc k) h = transfer_attempts E endpoint tx max_rx k ?h"
        using once None True by simp
      from Suc.IH [of ?h] obtain ws where "length ws \<le> k"
        "bytes_sent (hist (link_tty (snd (transfer_attempts E endpoint tx max_rx k ?h)))) = bytes_sent (hist (link_tty ?h)) @ concat ws"
        "\<forall>w \<in> set ws. prefix w (serial_frame endpoint tx (unat max_rx))"
        "comms_healthy (snd (transfer_attempts E endpoint tx max_rx k ?h)) = (fst (transfer_attempts E endpoint tx max_rx k ?h) \<noteq> None)"
        "\<forall>rx. fst (transfer_attempts E endpoint tx max_rx k ?h) = Some rx \<longrightarrow> length rx \<le> unat max_rx"
        by (elim exE conjE) (rule that)
      then show ?thesis unfolding step s using w by (intro exI [of _ "w # ws"]) simp
    qed
  qed
qed simp

subsection \<open>Calls on a device\<close>

definition idle_handle :: serial_handle where
  "idle_handle = \<lparr>link_tty = \<lparr>hist = [], taken = 0\<rparr>, fd_open = True, connected = True, comms_healthy = True\<rparr>"

text \<open>A call on a line with the device: its result, and the device after all that was written.\<close>

definition link_call :: "'p comms \<Rightarrow> tty_env \<Rightarrow> u8 \<Rightarrow> u8 list \<Rightarrow> u16 \<Rightarrow> serial_state \<times> 'p
    \<Rightarrow> (u8 list option \<times> serial_state \<times> 'p) option" where
  "link_call C E endpoint tx max_rx sp =
     (let (res, h) = transfer (E\<lparr>peer := device_peer C sp\<rparr>) endpoint tx max_rx idle_handle
      in map_option (Pair res) (serial_comms_tick C (ring_put (bytes_sent (hist (link_tty h))) (fst sp), snd sp)))"

lemma link_call_serves:
  assumes q: "quiet s" and idle: "rx_pending s = []" and E: "wide_room E" and tx: "length tx \<le> 2040"
    and d: "serial_dispatch C endpoint tx (min (unat max_rx) 2044) p = Some (Some r, p')" and r: "length r \<le> 2044"
  shows "\<exists>s'. link_call C E endpoint tx max_rx (s, p) = Some (Some (take (unat max_rx) r), s', p') \<and>
    quiet s' \<and> rx_pending s' = []"
proof -
  define E' where "E' = E\<lparr>peer := device_peer C (s, p)\<rparr>"
  have E': "peer E' = device_peer C (s, p)" "wide_room E'" using E by (simp_all add: E'_def wide_room_def)
  have f: "fresh idle_handle" by (simp add: fresh_def idle_handle_def)
  obtain h' s' where h: "transfer_once E' endpoint tx max_rx idle_handle = (map_option (take (unat max_rx)) (Some r), h')"
    "serial_comms_tick C (ring_put (bytes_sent (hist (link_tty h'))) s, p) = Some (s', p')" "quiet s'" "rx_pending s' = []"
  proof -
    have "\<forall>bs. Some r = Some bs \<longrightarrow> length bs \<le> 2044" using r by simp
    from transfer_once_exact [OF q idle E' f tx d this] show ?thesis by (elim exE conjE) (rule that)
  qed
  obtain n where n: "(if endpoint_is_retry_safe endpoint then SER_MAX_RETRIES else 1) = Suc n"
    by (cases "endpoint_is_retry_safe endpoint") (auto simp: SER_MAX_RETRIES_def)
  have "transfer E' endpoint tx max_rx idle_handle = (Some (take (unat max_rx) r), h'\<lparr>comms_healthy := True\<rparr>)"
    using h(1) by (simp add: transfer_def n del: One_nat_def) (simp add: idle_handle_def)
  then show ?thesis using h(2-4) by (simp add: link_call_def E'_def [symmetric])
qed

subsection \<open>Properties\<close>

text \<open>C17: The two ends of the serial line implement one protocol. On an idle device a call of the host
  runs the handler the endpoint names exactly once, with the data of the caller and the number of bytes it
  has room for, returns the answer of the handler, and leaves the device idle.\<close>

theorem serial_call_exact:
  assumes "quiet s" and "rx_pending s = []" and "wide_room E" and "length tx \<le> 2040"
    and "serial_dispatch C endpoint tx (min (unat max_rx) 2044) p = Some (Some r, p')" and "length r \<le> 2044"
  shows "\<exists>s'. link_call C E endpoint tx max_rx (s, p) = Some (Some (take (unat max_rx) r), s', p') \<and>
    quiet s' \<and> rx_pending s' = []"
  by (rule link_call_serves [OF assms])

text \<open>C18: Whatever the line does - answers late, in pieces, wrongly or not at all - a call ends after at
  most five attempts, and after one for frames that go to the bus, so that no frame is sent twice; all it has
  written are beginnings of its one request; the link counts as healthy exactly when there is a result;
  and a result fits the room of the caller.\<close>

theorem serial_call_bounded:
  assumes "fd_open h"
  shows "\<exists>ws. length ws \<le> (if endpoint = 3 then 1 else 5) \<and>
    bytes_sent (hist (link_tty (snd (transfer E endpoint tx max_rx h)))) = bytes_sent (hist (link_tty h)) @ concat ws \<and>
    (\<forall>w \<in> set ws. prefix w (serial_frame endpoint tx (unat max_rx))) \<and>
    comms_healthy (snd (transfer E endpoint tx max_rx h)) = (fst (transfer E endpoint tx max_rx h) \<noteq> None) \<and>
    (\<forall>rx. fst (transfer E endpoint tx max_rx h) = Some rx \<longrightarrow> length rx \<le> unat max_rx)"
  using transfer_attempts_bounded [of "if endpoint_is_retry_safe endpoint then SER_MAX_RETRIES else 1" E endpoint tx max_rx h]
    assms by (simp only: transfer_def endpoint_is_retry_safe_def SER_MAX_RETRIES_def if_False simp_thms)
    (cases "endpoint = 3"; simp)

subsection \<open>Examples\<close>

definition bench_tty :: tty_env where
  "bench_tty = \<lparr>peer = (\<lambda>_. []), chunk = (\<lambda>_. 2), room = (\<lambda>_. 4096)\<rparr>"

lemma serial_init_idle: "quiet serial_init" "rx_pending serial_init = []"
  by (simp_all add: quiet_def serial_ok_def serial_init_def UART_RX_BUF_SIZE_def SERIAL_BUF_SIZE_def rx_pending_def uart_rx_avail_def)

theorem serial_call_exact_witness:
  "\<exists>s'. link_call recorder bench_tty 0 (control_bytes 0xDC 17 2 0) 0 (serial_init, []) =
     Some (Some [], s', [Control_Call \<lparr>request = 0xDC, param1 = 17, param2 = 2, req_length = 0\<rparr>])"
proof -
  have d: "serial_dispatch recorder 0 (control_bytes 0xDC 17 2 0) (min (unat (0::u16)) 2044) [] =
      Some (Some [], [Control_Call \<lparr>request = 0xDC, param1 = 17, param2 = 2, req_length = 0\<rparr>])"
    by (simp add: serial_dispatch_def recorder_def control_bytes_parse) (simp add: control_bytes_def)
  have room: "wide_room bench_tty" by (simp add: wide_room_def bench_tty_def)
  have len: "length (control_bytes 0xDC 17 2 0) \<le> 2040" by (simp add: control_bytes_def)
  show ?thesis using serial_call_exact [OF serial_init_idle room len d] by auto
qed

theorem serial_call_bounded_witness:
  "fst (transfer bench_tty 3 [1, 2] 0 idle_handle) = None \<and>
   comms_healthy (snd (transfer bench_tty 3 [1, 2] 0 idle_handle)) = False \<and>
   length (bytes_sent (hist (link_tty (snd (transfer bench_tty 3 [1, 2] 0 idle_handle))))) \<le> 10"
proof -
  have "fd_open idle_handle" by (simp add: idle_handle_def)
  from serial_call_bounded [OF this, of 3 bench_tty "[1, 2]" 0] obtain ws where
    ws: "length ws \<le> 1" "\<forall>w \<in> set ws. prefix w (serial_frame 3 [1, 2] 0)"
    "bytes_sent (hist (link_tty (snd (transfer bench_tty 3 [1, 2] 0 idle_handle)))) = concat ws"
    "comms_healthy (snd (transfer bench_tty 3 [1, 2] 0 idle_handle)) = (fst (transfer bench_tty 3 [1, 2] 0 idle_handle) \<noteq> None)"
    by (auto simp: idle_handle_def)
  have r: "read_exact bench_tty 1 [] t = (False, [], tty_pause t)" for t
    by (subst read_exact.simps) (simp add: read_size_def available_def bench_tty_def)
  have "fst (transfer_once bench_tty 3 [1, 2] 0 idle_handle) = None"
    by (simp add: transfer_once_def r [unfolded One_nat_def] Let_def split_beta)
  then obtain h1 where h1: "transfer_once bench_tty 3 [1, 2] 0 idle_handle = (None, h1)"
    by (cases "transfer_once bench_tty 3 [1, 2] 0 idle_handle") simp
  have "fd_open idle_handle" by (simp add: idle_handle_def)
  then have none: "fst (transfer bench_tty 3 [1, 2] 0 idle_handle) = None"
    by (simp add: transfer_def endpoint_is_retry_safe_def h1)
  have "length (serial_frame 3 [1, 2] 0) = 10"
    by (simp add: serial_frame_def serial_header_facts with_checksum_def)
  then have "length (concat ws) \<le> 10"
    using ws(1,2) prefix_length_le by (cases ws) fastforce+
  then show ?thesis using none ws(3,4) by simp
qed

end
