(* ===== verification/Pandad_Firmware.thy ===== *)
theory Pandad_Firmware
  imports Serial_Firmware Pandad_Serial
begin

text \<open>
  From the message list of the host to the safety layer of the board: the packing of \<open>Pandad_Can\<close>, the serial
  call of \<open>Pandad_Serial\<close>, the transport of \<open>Serial_Comms\<close> and the firmware behind it, in one theorem.
\<close>

text \<open>\<open>Panda::can_send\<close>: one write to endpoint 3 per chunk; its result is not looked at.\<close>

fun link_writes :: "'p comms \<Rightarrow> tty_env \<Rightarrow> u8 list list \<Rightarrow> serial_state \<times> 'p \<Rightarrow> (serial_state \<times> 'p) option" where
  "link_writes C T [] sp = Some sp"
| "link_writes C T (c # cs) sp = link_call C T 3 c 0 sp \<bind> (\<lambda>(_, sp). link_writes C T cs sp)"

definition panda_can_send :: "'p comms \<Rightarrow> tty_env \<Rightarrow> u8 list \<Rightarrow> CanData list \<Rightarrow> serial_state \<times> 'p \<Rightarrow> (serial_state \<times> 'p) option" where
  "panda_can_send C T send_buf ms sp = pack_can_buffer send_buf ms \<bind> (\<lambda>chunks. link_writes C T chunks sp)"

lemma chunk_write:
  assumes E: "env_ok E" and F: "serving F bd (st, rs)" and pend: "pending (can_write_buffer st) = []"
    and ps: "\<forall>p \<in> set ps. exact p \<and> length (data p) \<le> CANPACKET_DATA_SIZE_MAX (sb F)"
  shows "\<exists>st'. host_write F (env_hw E) (packets_bytes ps) st = Some st' \<and> serving F bd (st', rs) \<and>
    pending (can_write_buffer st') = [] \<and>
    map_option refresh_can_tx_slots_available (send_packets (host_send F (env_hw E)) (map (trim (sb F)) ps) (can st)) = Some (can st')"
proof -
  have nofd: "\<not> CANFD (sb F)" "fw_reaches F bd st" using F by (simp_all add: serving_def)
  have st: "psound F st" by (rule reaches_sound [OF nofd(2,1)])
  then have wok: "write_ok (can_write_buffer st)" by (simp add: psound_def)
  have sp: "split_stream (pending (can_write_buffer st) @ packets_bytes ps) = (map packet_bytes ps, [])"
    using split_packets [of ps] ps by (simp add: pend packets_bytes_def)
  have "\<not> overlong (packets_bytes ps) st"
    using ps nofd(1) by (auto simp: overlong_def sp CANPACKET_DATA_SIZE_MAX_def)
  then obtain st' where st': "host_write F (env_hw E) (packets_bytes ps) st = Some st'"
    using host_write_sound [OF nofd(1) st, of "packets_bytes ps" "env_hw E"] by auto
  obtain buf c where w: "comms_can_write (sb F) (host_send F (env_hw E)) refresh_can_tx_slots_available (packets_bytes ps)
      (can_write_buffer st) (can st) = Some (buf, c)" and eq: "st' = st\<lparr>can_write_buffer := buf, can := c\<rparr>"
    using st' by (auto simp: host_write_def split: bind_splits)
  have round: "\<exists>s'. send_packets (host_send F (env_hw E)) (map (trim (sb F)) ps) (can st) = Some s' \<and>
      c = refresh_can_tx_slots_available s' \<and> pending buf = []"
    using write_round [OF wok pend ps, where send = "host_send F (env_hw E)" and s = "can st" and refresh = refresh_can_tx_slots_available]
    unfolding w by (auto split: option.splits)
  have "fw_step F bd (env_hw E) (HostWrite (packets_bytes ps)) st = Running st'" using st' by (simp add: continue_def)
  then have "serving F bd (st', rs)" by (rule serving_step [OF F E])
  then show ?thesis using st' round eq by auto
qed

lemma link_writes_firmware:
  assumes E: "env_ok E" and T: "wide_room T"
    and F: "serving F bd (st, rs)" and pend: "pending (can_write_buffer st) = []"
    and s: "quiet s" "rx_pending s = []"
    and pss: "\<forall>p \<in> set (concat pss). exact p \<and> length (data p) \<le> CANPACKET_DATA_SIZE_MAX (sb F)"
    and len: "\<forall>ps \<in> set pss. packets_bytes ps \<noteq> [] \<and> length (packets_bytes ps) \<le> 325"
  shows "\<exists>s' st'. link_writes (firmware_comms F bd E) T (map packets_bytes pss) (s, st, rs) = Some (s', st', rs) \<and>
    quiet s' \<and> rx_pending s' = [] \<and> serving F bd (st', rs) \<and> pending (can_write_buffer st') = [] \<and>
    send_rounds (host_send F (env_hw E)) refresh_can_tx_slots_available (map (map (trim (sb F))) pss) (can st) = Some (can st')"
  using F pend s pss len
proof (induction pss arbitrary: s st)
  case (Cons ps pss)
  have ps: "\<forall>p \<in> set ps. exact p \<and> length (data p) \<le> CANPACKET_DATA_SIZE_MAX (sb F)" using Cons.prems(5) by simp
  obtain st1 where 1: "host_write F (env_hw E) (packets_bytes ps) st = Some st1" "serving F bd (st1, rs)"
    "pending (can_write_buffer st1) = []"
    "map_option refresh_can_tx_slots_available (send_packets (host_send F (env_hw E)) (map (trim (sb F)) ps) (can st)) = Some (can st1)"
    using chunk_write [OF E Cons.prems(1,2) ps] by blast
  have c: "packets_bytes ps \<noteq> []" "length (packets_bytes ps) \<le> 2040" using Cons.prems(6) by auto
  have d: "serial_dispatch (firmware_comms F bd E) 3 (packets_bytes ps) (min (unat (0::u16)) 2044) (st, rs) = Some (Some [], st1, rs)"
    using c(1) 1(1) by (simp add: serial_dispatch_def firmware_comms_def)
  obtain s1 where s1: "link_call (firmware_comms F bd E) T 3 (packets_bytes ps) 0 (s, st, rs) = Some (Some [], s1, st1, rs)"
    "quiet s1" "rx_pending s1 = []"
    using link_call_serves [OF Cons.prems(3,4) T c(2) d] by auto
  have rest: "\<forall>p \<in> set (concat pss). exact p \<and> length (data p) \<le> CANPACKET_DATA_SIZE_MAX (sb F)"
    "\<forall>ps \<in> set pss. packets_bytes ps \<noteq> [] \<and> length (packets_bytes ps) \<le> 325"
    using Cons.prems(5,6) by auto
  obtain s' st' where 2: "link_writes (firmware_comms F bd E) T (map packets_bytes pss) (s1, st1, rs) = Some (s', st', rs)"
    "quiet s'" "rx_pending s' = []" "serving F bd (st', rs)" "pending (can_write_buffer st') = []"
    "send_rounds (host_send F (env_hw E)) refresh_can_tx_slots_available (map (map (trim (sb F))) pss) (can st1) = Some (can st')"
    using Cons.IH [OF 1(2,3) s1(2,3) rest] by (elim exE conjE) (rule that)
  have "link_writes (firmware_comms F bd E) T (map packets_bytes (ps # pss)) (s, st, rs) = Some (s', st', rs)"
    using s1(1) 2(1) by simp
  moreover have "send_rounds (host_send F (env_hw E)) refresh_can_tx_slots_available (map (map (trim (sb F))) (ps # pss)) (can st) = Some (can st')"
    using 1(4) 2(6) by auto
  ultimately show ?case using 2(2-5) by blast
qed simp

text \<open>C16: End to end: whatever firmware state the board has reached, with an idle line and no unfinished packet,
  a list of messages the host sends runs \<open>can_send\<close> - the safety hook, then the queue or the rejection - on
  exactly the packets of the messages for this board, in order, each once, with the slots refreshed after
  each chunk; the board is still a reached one, and the line is idle again.\<close>

theorem host_to_safety_layer:
  assumes "env_ok E" and "wide_room T" and "serving F bd (st, rs)" and "pending (can_write_buffer st) = []"
    and "quiet s" and "rx_pending s = []"
    and "\<forall>m \<in> set (for_panda ms). msg_asserts m \<and> length (msg_dat m) \<le> CANPACKET_DATA_SIZE_MAX (sb F)"
    and "length send_buf = 2 * USB_TX_SOFT_LIMIT"
  shows "\<exists>s' st' pss. panda_can_send (firmware_comms F bd E) T send_buf ms (s, st, rs) = Some (s', st', rs) \<and>
    concat pss = map (\<lambda>m. trim (sb F) (msg_packet m)) (for_panda ms) \<and>
    send_rounds (host_send F (env_hw E)) refresh_can_tx_slots_available pss (can st) = Some (can st') \<and>
    serving F bd (st', rs) \<and> pending (can_write_buffer st') = [] \<and> quiet s' \<and> rx_pending s' = []"
proof -
  obtain pss where p: "pack_can_buffer send_buf ms = Some (map packets_bytes pss)"
    "concat (map (map (trim (sb F))) pss) = map (\<lambda>m. trim (sb F) (msg_packet m)) (for_panda ms)"
    "\<forall>ps \<in> set pss. packets_bytes ps \<noteq> [] \<and> length (packets_bytes ps) \<le> 325"
    "\<forall>p \<in> set (concat pss). exact p \<and> length (data p) \<le> CANPACKET_DATA_SIZE_MAX (sb F)"
    using host_rounds [OF assms(7,8)] by (elim exE conjE) (rule that)
  obtain s' st' where "link_writes (firmware_comms F bd E) T (map packets_bytes pss) (s, st, rs) = Some (s', st', rs)"
    "quiet s'" "rx_pending s' = []" "serving F bd (st', rs)" "pending (can_write_buffer st') = []"
    "send_rounds (host_send F (env_hw E)) refresh_can_tx_slots_available (map (map (trim (sb F))) pss) (can st) = Some (can st')"
    using link_writes_firmware [OF assms(1-6) p(4,3)] by (elim exE conjE) (rule that)
  then show ?thesis using p(1,2)
    by (intro exI [of _ s'] exI [of _ st'] exI [of _ "map (map (trim (sb F))) pss"]) (simp add: panda_can_send_def)
qed

lemma try_can_buffer: "try_can f st = Some st' \<Longrightarrow> can_write_buffer st' = can_write_buffer st"
  by (auto simp: try_can_def upd_can_def)

lemma apply_mode_buffer: "can_write_buffer (apply_mode F hw m p st) = can_write_buffer st"
  by (simp add: apply_mode_def upd_can_def upd_safety_def Let_def)

lemma main_init_buffers: "main_init F hw bd e = Some st \<Longrightarrow> can_write_buffer st = asm_empty"
  by (auto simp: main_init_def set_safety_mode_def apply_mode_buffer upd_can_def panda_reset_def enable_can_transceivers_def Let_def
      dest!: try_can_buffer split: bind_splits prod.splits)

theorem host_to_safety_layer_witness:
  "\<exists>st s' st' pss. fw_reaches fw_f407 board_nucleo st \<and>
     panda_can_send (firmware_comms fw_f407 board_nucleo bench_env) bench_tty (replicate 512 0) [lkas_msg, other_panda_msg, diag_msg]
       (serial_init, st, uart_rings_init False) = Some (s', st', uart_rings_init False) \<and>
     concat pss = [lkas_sent, diag_packet] \<and>
     send_rounds (host_send fw_f407 plain_hw) refresh_can_tx_slots_available pss (can st) = Some (can st')"
proof -
  let ?ms = "[lkas_msg, other_panda_msg, diag_msg]"
  obtain st where init: "main_init fw_f407 plain_hw board_nucleo (env_senses bench_env) = Some st"
    using main_init_sound [of fw_f407 plain_hw board_nucleo "env_senses bench_env"] by blast
  then have reach: "fw_reaches fw_f407 board_nucleo st" by (rule reach_init)
  have nofd: "\<not> CANFD (sb fw_f407)" by (simp add: fw_f407_def build_f407_def)
  have E: "env_ok bench_env" by (simp add: env_ok_def bench_env_def plain_hw_def Let_def)
  have T: "wide_room bench_tty" by (simp add: wide_room_def bench_tty_def)
  have F: "serving fw_f407 board_nucleo (st, uart_rings_init False)"
    using reach nofd rings_init_ok by (simp add: serving_def)
  have pend: "pending (can_write_buffer st) = []" using main_init_buffers [OF init] by (simp add: pending_def asm_empty_def)
  have ms: "\<forall>m \<in> set (for_panda ?ms). msg_asserts m \<and> length (msg_dat m) \<le> CANPACKET_DATA_SIZE_MAX (sb fw_f407)"
    unfolding fw_f407_def by code_simp
  have panda: "for_panda ?ms = [lkas_msg, diag_msg]" by code_simp
  have b: "sb fw_f407 = build_f407" "env_hw bench_env = plain_hw" by (simp_all add: fw_f407_def bench_env_def)
  have buf: "length (replicate 512 (0::u8)) = 2 * USB_TX_SOFT_LIMIT" by (simp add: USB_TX_SOFT_LIMIT_def)
  from host_to_safety_layer [OF E T F pend serial_init_idle ms buf] reach show ?thesis
    by (auto simp: panda b example_packets)
qed

end
