(* ===== verification/Pandad_Safety.thy ===== *)
theory Pandad_Safety
  imports Firmware_Liveness
begin

text \<open>
  What the host tells the board to do (\<^verbatim>\<open>pandad.cc\<close>, \<^verbatim>\<open>panda_safety.cc\<close>, the methods of \<^verbatim>\<open>panda.cc\<close>): which safety
  mode it asks for and when, the heartbeat, power saving. Messages of other processes, parameters and
  the answers of the board are inputs; a call is the request it sends.
\<close>

unbundle bit_operations_syntax

subsection \<open>Calls\<close>

text \<open>A \<open>control_write\<close>: the request and its two parameters.\<close>

type_synonym panda_call = "u8 \<times> u16 \<times> u16"

definition set_safety_model :: "u16 \<Rightarrow> u16 \<Rightarrow> panda_call" where
  "set_safety_model safety_model safety_param = (0xdc, safety_model, safety_param)"

definition set_alternative_experience :: "u16 \<Rightarrow> panda_call" where
  "set_alternative_experience experience = (0xdf, experience, 0)"

definition set_power_saving :: "bool \<Rightarrow> panda_call" where
  "set_power_saving power_saving = (0xe7, if power_saving then 1 else 0, 0)"

definition send_heartbeat :: "bool \<Rightarrow> panda_call" where
  "send_heartbeat engaged = (0xf3, if engaged then 1 else 0, 0)"

definition set_can_fd_auto :: "nat \<Rightarrow> bool \<Rightarrow> panda_call" where
  "set_can_fd_auto n enabled = (0xe8, of_nat n, if enabled then 1 else 0)"

definition set_loopback :: "bool \<Rightarrow> panda_call" where
  "set_loopback loopback = (0xe5, if loopback then 1 else 0, 0)"

definition can_reset_communications :: panda_call where
  "can_reset_communications = (0xc0, 0, 0)"

definition set_fan_speed :: "u16 \<Rightarrow> panda_call" where
  "set_fan_speed fan_speed = (0xb1, fan_speed, 0)"

definition set_ir_pwr :: "u16 \<Rightarrow> panda_call" where
  "set_ir_pwr pwr = (0xb0, pwr, 0)"

definition enable_deepsleep :: panda_call where
  "enable_deepsleep = (0xfb, 0, 0)"

definition set_can_speed_kbps :: "u16 \<Rightarrow> u16 \<Rightarrow> panda_call" where
  "set_can_speed_kbps n speed = (0xde, n, speed * 10)"

definition set_data_speed_kbps :: "u16 \<Rightarrow> u16 \<Rightarrow> panda_call" where
  "set_data_speed_kbps n speed = (0xf9, n, speed * 10)"

definition set_canfd_non_iso :: "u16 \<Rightarrow> bool \<Rightarrow> panda_call" where
  "set_canfd_non_iso n non_iso = (0xfc, n, if non_iso then 1 else 0)"

text \<open>The models of the protocol the host names itself.\<close>

definition MODEL_SILENT :: u16 where "MODEL_SILENT = 0"
definition MODEL_ELM327 :: u16 where "MODEL_ELM327 = 3"
definition MODEL_NO_OUTPUT :: u16 where "MODEL_NO_OUTPUT = 19"

text \<open>The calls that open a connection (the constructor and \<open>connect\<close>).\<close>

definition connect_calls :: "bool \<Rightarrow> panda_call list" where
  "connect_calls loopback =
     [can_reset_communications] @ (if loopback then [set_loopback True] else []) @
     map (\<lambda>i. set_can_fd_auto i True) [0..<PANDA_CAN_CNT]"

text \<open>The debug output is read until an empty answer or an error. The answers are an input; without an end
  among them the loop does not end.\<close>

partial_function (option) serial_read :: "(nat \<Rightarrow> u8 list option) \<Rightarrow> nat \<Rightarrow> u8 list \<Rightarrow> u8 list option" where
  "serial_read replies k ret =
     (case replies k of
        None \<Rightarrow> Some ret
      | Some buffer \<Rightarrow> if buffer = [] then Some ret else serial_read replies (k + 1) (ret @ buffer))"

subsection \<open>The safety mode\<close>

record host_params =
  obd_multiplexing_enabled :: bool
  firmware_query_done :: bool
  controls_ready :: bool
  car_params :: "(u16 \<times> u16 \<times> u16) option"
    \<comment> \<open>safety model and parameter of the first configuration, alternative experience; nothing: the parameter is empty\<close>

record panda_safety =
  initialized :: bool
  log_once :: bool
  safety_configured :: bool
  prev_obd_multiplexing :: bool
  obd_multiplexing_changed :: bool    \<comment> \<open>the parameter of that name was set\<close>

definition panda_safety_init :: panda_safety where
  "panda_safety_init = \<lparr>initialized = False, log_once = False, safety_configured = False,
     prev_obd_multiplexing = False, obd_multiplexing_changed = False\<rparr>"

definition updateMultiplexingMode :: "host_params \<Rightarrow> panda_safety \<Rightarrow> panda_call list \<times> panda_safety" where
  "updateMultiplexingMode P s =
     (let (first, s) =
            (if \<not> initialized s
             then ([set_safety_model MODEL_ELM327 1], s\<lparr>prev_obd_multiplexing := False, initialized := True\<rparr>)
             else ([], s))
      in if obd_multiplexing_enabled P \<noteq> prev_obd_multiplexing s
         then (first @ [set_safety_model MODEL_ELM327 (if obd_multiplexing_enabled P then 0 else 1)],
               s\<lparr>prev_obd_multiplexing := obd_multiplexing_enabled P, obd_multiplexing_changed := True\<rparr>)
         else (first, s))"

definition fetchCarParams :: "host_params \<Rightarrow> panda_safety \<Rightarrow> (u16 \<times> u16 \<times> u16) option \<times> panda_safety" where
  "fetchCarParams P s =
     (if \<not> firmware_query_done P then (None, s)
      else let s = s\<lparr>log_once := True\<rparr>
           in if \<not> controls_ready P then (None, s) else (car_params P, s))"

definition setSafetyMode :: "u16 \<times> u16 \<times> u16 \<Rightarrow> panda_call list" where
  "setSafetyMode cp = (case cp of (safety_model, safety_param, experience) \<Rightarrow>
     [set_alternative_experience experience, set_safety_model safety_model safety_param])"

definition configureSafetyMode :: "bool \<Rightarrow> host_params \<Rightarrow> panda_safety \<Rightarrow> panda_call list \<times> panda_safety" where
  "configureSafetyMode onroad P s =
     (if onroad \<and> \<not> safety_configured s then
        let (calls, s) = updateMultiplexingMode P s;
            (cp, s) = fetchCarParams P s
        in (case cp of None \<Rightarrow> (calls, s)
            | Some cp \<Rightarrow> (calls @ setSafetyMode cp, s\<lparr>safety_configured := True\<rparr>))
      else if \<not> onroad then ([], s\<lparr>initialized := False, safety_configured := False, log_once := False\<rparr>)
      else ([], s))"

subsection \<open>The state of the board\<close>

text \<open>The fields of the health packet that decide what is sent back.\<close>

record health =
  ignition_line_pkt :: u8
  ignition_can_pkt :: u8
  safety_mode_pkt :: u8
  power_save_enabled_pkt :: u8

text \<open>\<open>send_panda_states\<close>: the calls, and whether the ignition is on; nothing if the board did not answer.\<close>

definition send_panda_states :: "health option \<Rightarrow> bool \<Rightarrow> bool \<Rightarrow> bool \<Rightarrow> (panda_call list \<times> bool) option" where
  "send_panda_states health_opt can_health_ok is_onroad spoofing_started =
     (case health_opt of
        None \<Rightarrow> None
      | Some h \<Rightarrow>
          if \<not> can_health_ok then None
          else
            let h = (if spoofing_started then h\<lparr>ignition_line_pkt := 1\<rparr> else h);
                ignition_local = ignition_line_pkt h \<noteq> 0 \<or> ignition_can_pkt h \<noteq> 0;
                live = (if safety_mode_pkt h = ucast MODEL_SILENT then [set_safety_model MODEL_NO_OUTPUT 0] else []);
                power_save_desired = \<not> ignition_local;
                power = (if power_save_enabled_pkt h \<noteq> (if power_save_desired then 1 else 0)
                         then [set_power_saving power_save_desired] else []);
                should_close_relay = \<not> ignition_local \<or> \<not> is_onroad;
                relay = (if should_close_relay \<and> safety_mode_pkt h \<noteq> ucast MODEL_NO_OUTPUT
                         then [set_safety_model MODEL_NO_OUTPUT 0] else [])
            in Some (live @ power @ relay, ignition_local))"

text \<open>\<open>process_panda_state\<close>: the calls, and whether the program ends to connect again.\<close>

definition process_panda_state ::
    "health option \<Rightarrow> bool \<Rightarrow> bool \<Rightarrow> bool \<Rightarrow> bool \<Rightarrow> bool \<Rightarrow> panda_call list \<times> bool" where
  "process_panda_state health_opt can_health_ok engaged is_onroad spoofing_started comms_healthy =
     (case send_panda_states health_opt can_health_ok is_onroad spoofing_started of
        None \<Rightarrow> ([], False)
      | Some (calls, ignition) \<Rightarrow> (calls @ [send_heartbeat engaged], \<not> ignition \<and> \<not> comms_healthy))"

text \<open>The main loop, as far as it decides about the board: every tenth frame.\<close>

record frame_input =
  in_health :: "health option"
  in_can_health_ok :: bool
  in_comms_healthy :: bool
  in_selfdrive :: "bool option"     \<comment> \<open>engaged, if the message is alive and valid\<close>
  in_started :: "bool option"       \<comment> \<open>a new device state\<close>
  in_params :: host_params

record pandad_state =
  rk_frame :: nat
  engaged :: bool
  is_onroad :: bool
  do_exit :: bool
  safety_of_panda :: panda_safety

definition pandad_frame :: "bool \<Rightarrow> frame_input \<Rightarrow> pandad_state \<Rightarrow> panda_call list \<times> pandad_state" where
  "pandad_frame spoofing_started I s =
     (if rk_frame s mod 10 = 0 then
        let enabled = (in_selfdrive I = Some True);
            onroad = (case in_started I of Some b \<Rightarrow> b | None \<Rightarrow> is_onroad s);
            (calls, quit) = process_panda_state (in_health I) (in_can_health_ok I) enabled onroad spoofing_started (in_comms_healthy I);
            (more, ps) = configureSafetyMode onroad (in_params I) (safety_of_panda s)
        in (calls @ more, s\<lparr>rk_frame := rk_frame s + 1, engaged := enabled, is_onroad := onroad,
              do_exit := do_exit s \<or> quit, safety_of_panda := ps\<rparr>)
      else ([], s\<lparr>rk_frame := rk_frame s + 1\<rparr>))"

definition pandad_exit_calls :: "bool \<Rightarrow> pandad_state \<Rightarrow> panda_call list" where
  "pandad_exit_calls is_connected s =
     (if is_onroad s \<and> \<not> engaged s \<and> is_connected then [set_safety_model MODEL_NO_OUTPUT 0] else [])"

text \<open>A batch of messages is sent if it is younger than one second; time stamps are unsigned.\<close>

definition sendcan_fresh :: "64 word \<Rightarrow> 64 word \<Rightarrow> bool \<Rightarrow> bool" where
  "sendcan_fresh nanos_since_boot log_mono_time fake_send \<longleftrightarrow>
     nanos_since_boot - log_mono_time < 1000000000 \<and> \<not> fake_send"

subsection \<open>When a car mode is asked for\<close>

fun configure_run :: "(bool \<times> host_params) list \<Rightarrow> panda_safety \<Rightarrow> panda_call list list" where
  "configure_run [] s = []"
| "configure_run ((onroad, P) # is) s =
     (let (calls, s) = configureSafetyMode onroad P s in calls # configure_run is s)"

definition elm_calls :: "panda_call set" where
  "elm_calls = {set_safety_model MODEL_ELM327 0, set_safety_model MODEL_ELM327 1}"

definition car_calls :: "panda_call list \<Rightarrow> bool" where
  "car_calls cs \<longleftrightarrow> (\<exists>c \<in> set cs. fst c = 0xdf)"

lemma elm_not_car: "set cs \<subseteq> elm_calls \<Longrightarrow> \<not> car_calls cs"
  by (auto simp: car_calls_def elm_calls_def set_safety_model_def)

lemma setSafetyMode_car: "car_calls (m @ setSafetyMode cp)"
  by (cases cp) (simp add: car_calls_def setSafetyMode_def set_alternative_experience_def)

lemma configure_cases:
  assumes "configureSafetyMode onroad P s = (cs, s')"
  obtains "\<not> onroad" "cs = []" "\<not> safety_configured s'"
  | "onroad" "safety_configured s" "cs = []" "s' = s"
  | "onroad" "\<not> safety_configured s" "\<not> safety_configured s'" "set cs \<subseteq> elm_calls"
  | cp m where "onroad" "\<not> safety_configured s" "safety_configured s'" "firmware_query_done P" "controls_ready P"
      "car_params P = Some cp" "cs = m @ setSafetyMode cp" "set m \<subseteq> elm_calls"
proof (cases "onroad \<and> \<not> safety_configured s")
  case False
  show ?thesis
  proof (cases onroad)
    case off: False
    show ?thesis using assms off by (intro that(1)) (auto simp: configureSafetyMode_def)
  next
    case on: True
    then have "safety_configured s" using False by simp
    then show ?thesis using assms on by (intro that(2)) (simp_all add: configureSafetyMode_def)
  qed
next
  case True
  obtain m s1 where mux: "updateMultiplexingMode P s = (m, s1)" by fastforce
  have m: "set m \<subseteq> elm_calls" "safety_configured s1 = safety_configured s"
    using mux by (auto simp: updateMultiplexingMode_def elm_calls_def Let_def split: if_splits)
  obtain cp s2 where f: "fetchCarParams P s1 = (cp, s2)" by fastforce
  have cp: "safety_configured s2 = safety_configured s1" "cp \<noteq> None \<longrightarrow> firmware_query_done P \<and> controls_ready P \<and> car_params P = cp"
    using f by (auto simp: fetchCarParams_def Let_def split: if_splits)
  show ?thesis
  proof (cases cp)
    case None
    then have "cs = m" "s' = s2" using assms True mux f by (simp_all add: configureSafetyMode_def)
    then show ?thesis using True m cp(1) by (intro that(3)) simp_all
  next
    case (Some c)
    then have "cs = m @ setSafetyMode c" "s' = s2\<lparr>safety_configured := True\<rparr>"
      using assms True mux f by (simp_all add: configureSafetyMode_def)
    then show ?thesis using True m cp Some by (intro that(4) [of c m]) simp_all
  qed
qed

text \<open>What holds of the calls at position \<open>i\<close> of a run.\<close>

definition well_configured :: "(bool \<times> host_params) list \<Rightarrow> panda_call list list \<Rightarrow> nat \<Rightarrow> bool" where
  "well_configured is tr i \<longleftrightarrow>
     (if car_calls (tr ! i)
      then fst (is ! i) \<and> firmware_query_done (snd (is ! i)) \<and> controls_ready (snd (is ! i)) \<and>
        (\<exists>cp m. car_params (snd (is ! i)) = Some cp \<and> tr ! i = m @ setSafetyMode cp \<and> set m \<subseteq> elm_calls) \<and>
        (\<forall>j < i. car_calls (tr ! j) \<longrightarrow> (\<exists>k. j < k \<and> k < i \<and> \<not> fst (is ! k)))
      else set (tr ! i) \<subseteq> elm_calls)"

lemma configure_run_length [simp]: "length (configure_run is s) = length is"
  by (induction "is" arbitrary: s) (auto simp: split_beta Let_def)

lemma configure_run_sound:
  "(\<forall>i < length is. well_configured is (configure_run is s) i) \<and>
   (safety_configured s \<longrightarrow> (\<forall>i < length is. car_calls (configure_run is s ! i) \<longrightarrow> (\<exists>k < i. \<not> fst (is ! k))))"
proof (induction "is" arbitrary: s)
  case (Cons x xs)
  obtain onroad P where x: "x = (onroad, P)" by (cases x)
  obtain cs s' where c: "configureSafetyMode onroad P s = (cs, s')" by fastforce
  have tr: "configure_run (x # xs) s = cs # configure_run xs s'" by (simp add: x c)
  note ih = Cons.IH [of s']
  note ih_well = ih [THEN conjunct1, rule_format] and ih_reset = ih [THEN conjunct2, rule_format]
  have head: "well_configured (x # xs) (cs # configure_run xs s') 0 \<and> (safety_configured s \<longrightarrow> \<not> car_calls cs) \<and>
      (car_calls cs \<longrightarrow> safety_configured s') \<and> (safety_configured s \<longrightarrow> safety_configured s' \<or> \<not> onroad)"
  proof (rule configure_cases [OF c])
    assume "\<not> onroad" "cs = []"
    then show ?thesis by (simp add: well_configured_def car_calls_def)
  next
    assume "onroad" "safety_configured s" "cs = []" "s' = s"
    then show ?thesis by (simp add: well_configured_def car_calls_def)
  next
    assume "onroad" "\<not> safety_configured s" "set cs \<subseteq> elm_calls"
    then show ?thesis using elm_not_car [of cs] by (simp add: well_configured_def)
  next
    fix cp m
    assume "onroad" "\<not> safety_configured s" "safety_configured s'" "firmware_query_done P" "controls_ready P"
      "car_params P = Some cp" "cs = m @ setSafetyMode cp" "set m \<subseteq> elm_calls"
    then show ?thesis using setSafetyMode_car [of m cp] by (auto simp: well_configured_def x)
  qed
  have tail: "well_configured (x # xs) (cs # configure_run xs s') (Suc i)" if i: "i < length xs" for i
  proof -
    have w: "well_configured xs (configure_run xs s') i" by (rule ih_well [OF i])
    have first: "\<exists>k. 0 < k \<and> k < Suc i \<and> \<not> fst ((x # xs) ! k)" if c: "car_calls cs" "car_calls (configure_run xs s' ! i)"
    proof -
      have "safety_configured s'" using head c(1) by blast
      then obtain k where "k < i" "\<not> fst (xs ! k)" using ih_reset [OF _ i c(2)] by blast
      then show ?thesis by (intro exI [of _ "Suc k"]) simp
    qed
    have shift: "\<exists>k. Suc j < k \<and> k < Suc i \<and> \<not> fst ((x # xs) ! k)"
      if e: "\<exists>k. j < k \<and> k < i \<and> \<not> fst (xs ! k)" for j
    proof -
      obtain k where "j < k" "k < i" "\<not> fst (xs ! k)" using e by blast
      then show ?thesis by (intro exI [of _ "Suc k"]) simp
    qed
    show ?thesis
    proof (cases "car_calls (configure_run xs s' ! i)")
      case False
      then show ?thesis using w by (simp add: well_configured_def)
    next
      case True
      have "\<exists>k. j < k \<and> k < Suc i \<and> \<not> fst ((x # xs) ! k)"
        if "j < Suc i" "car_calls ((cs # configure_run xs s') ! j)" for j
      proof (cases j)
        case 0
        then show ?thesis using first that True by simp
      next
        case (Suc j')
        then have "\<exists>k. j' < k \<and> k < i \<and> \<not> fst (xs ! k)" using w True that by (simp add: well_configured_def)
        then show ?thesis unfolding Suc by (rule shift)
      qed
      then show ?thesis using w True by (simp add: well_configured_def)
    qed
  qed
  have conf: "\<exists>k < i. \<not> fst ((x # xs) ! k)" if s: "safety_configured s" and i: "i < length (x # xs)" "car_calls ((cs # configure_run xs s') ! i)" for i
  proof (cases i)
    case 0
    then show ?thesis using head s i(2) by simp
  next
    case (Suc j)
    show ?thesis
    proof (cases onroad)
      case False
      then show ?thesis using Suc by (intro exI [of _ 0]) (simp add: x)
    next
      case True
      then have "safety_configured s'" using head s by blast
      moreover have "j < length xs" "car_calls (configure_run xs s' ! j)" using i Suc by simp_all
      ultimately obtain k where "k < j" "\<not> fst (xs ! k)" using ih_reset by blast
      then show ?thesis using Suc by (intro exI [of _ "Suc k"]) simp
    qed
  qed
  show ?case unfolding tr
  proof (intro conjI allI impI)
    fix i assume "i < length (x # xs)"
    then show "well_configured (x # xs) (cs # configure_run xs s') i" using head tail by (cases i) auto
  next
    fix i assume "safety_configured s" "i < length (x # xs)" "car_calls ((cs # configure_run xs s') ! i)"
    then show "\<exists>k < i. \<not> fst ((x # xs) ! k)" by (rule conf)
  qed
qed simp

text \<open>C20: When the host asks for the mode of the car. In any sequence of rounds from the start of the program, with any
  parameters, a round asks for nothing but the diagnostic mode, or it is on the road, the firmware query is done, the
  controls are ready, the parameters of the car are there and are what it asks for, last; and between two such rounds the
  car was off the road.\<close>

theorem car_mode_requested_once:
  assumes i: "i < length xs"
  shows "set (configure_run xs panda_safety_init ! i) \<subseteq> elm_calls \<or>
    fst (xs ! i) \<and> firmware_query_done (snd (xs ! i)) \<and> controls_ready (snd (xs ! i)) \<and>
    (\<exists>cp m. car_params (snd (xs ! i)) = Some cp \<and>
       configure_run xs panda_safety_init ! i = m @ setSafetyMode cp \<and> set m \<subseteq> elm_calls) \<and>
    (\<forall>j < i. \<not> set (configure_run xs panda_safety_init ! j) \<subseteq> elm_calls \<longrightarrow> (\<exists>k. j < k \<and> k < i \<and> \<not> fst (xs ! k)))"
proof -
  define tr where "tr = configure_run xs panda_safety_init"
  have w: "well_configured xs tr j" if "j < length xs" for j
    using configure_run_sound [of xs panda_safety_init] that by (simp add: tr_def)
  have car: "car_calls (tr ! j)" if "j < i" "\<not> set (tr ! j) \<subseteq> elm_calls" for j
    using w [of j] that i by (auto simp: well_configured_def split: if_splits)
  show ?thesis
  proof (cases "car_calls (tr ! i)")
    case True
    with w [OF i] have "fst (xs ! i) \<and> firmware_query_done (snd (xs ! i)) \<and> controls_ready (snd (xs ! i)) \<and>
        (\<exists>cp m. car_params (snd (xs ! i)) = Some cp \<and> tr ! i = m @ setSafetyMode cp \<and> set m \<subseteq> elm_calls) \<and>
        (\<forall>j < i. car_calls (tr ! j) \<longrightarrow> (\<exists>k. j < k \<and> k < i \<and> \<not> fst (xs ! k)))"
      by (simp only: well_configured_def if_True) blast
    with car show ?thesis unfolding tr_def by blast
  next
    case False
    with w [OF i] show ?thesis by (simp add: well_configured_def tr_def)
  qed
qed

definition params_waiting :: host_params where
  "params_waiting = \<lparr>obd_multiplexing_enabled = True, firmware_query_done = True, controls_ready = False, car_params = None\<rparr>"

definition params_mazda :: host_params where
  "params_mazda = \<lparr>obd_multiplexing_enabled = False, firmware_query_done = True, controls_ready = True,
     car_params = Some (13, 0, 0)\<rparr>"

theorem car_mode_requested_once_witness:
  "configure_run [(True, params_waiting), (True, params_mazda), (True, params_mazda)] panda_safety_init =
     [[(0xdc, 3, 1), (0xdc, 3, 0)], [(0xdc, 3, 1), (0xdf, 0, 0), (0xdc, 13, 0)], []] \<and>
   (\<exists>cp m. Some (13, 0, 0) = Some cp \<and> [(0xdc, 3, 1), (0xdf, 0, 0), (0xdc, 13, 0)] = m @ setSafetyMode cp \<and> set m \<subseteq> elm_calls)"
proof -
  have run: "configure_run [(True, params_waiting), (True, params_mazda), (True, params_mazda)] panda_safety_init =
     [[(0xdc, 3, 1), (0xdc, 3, 0)], [(0xdc, 3, 1), (0xdf, 0, 0), (0xdc, 13, 0)], []]"
    by (simp add: params_waiting_def params_mazda_def panda_safety_init_def configureSafetyMode_def updateMultiplexingMode_def
        fetchCarParams_def setSafetyMode_def set_safety_model_def set_alternative_experience_def MODEL_ELM327_def Let_def)
  have "(0xdf, 0, 0) \<notin> elm_calls"
    by (simp add: elm_calls_def set_safety_model_def MODEL_ELM327_def)
  with car_mode_requested_once [of 1 "[(True, params_waiting), (True, params_mazda), (True, params_mazda)]"]
  show ?thesis unfolding run by (simp add: params_mazda_def)
qed

subsection \<open>The calls on the board\<close>

definition call_request :: "panda_call \<Rightarrow> ControlPacket_t" where
  "call_request c = (case c of (r, p1, p2) \<Rightarrow> \<lparr>request = r, param1 = p1, param2 = p2, req_length = 0\<rparr>)"

fun serve_calls :: "fw_build \<Rightarrow> can_hw \<Rightarrow> board \<Rightarrow> control_env \<Rightarrow> senses \<Rightarrow> panda_call list \<Rightarrow> panda_state \<Rightarrow> panda_state option" where
  "serve_calls F hw bd ce e [] st = Some st"
| "serve_calls F hw bd ce e (c # cs) st =
     (case comms_control_handler F hw bd ce e (call_request c) st of
        Some (Replied _ st) \<Rightarrow> serve_calls F hw bd ce e cs st | _ \<Rightarrow> None)"

lemma serve_append: "serve_calls F hw bd ce e (cs @ ds) st = serve_calls F hw bd ce e cs st \<bind> serve_calls F hw bd ce e ds"
  by (induction cs arbitrary: st) (auto split: option.splits control_outcome.splits)

lemma serve_reaches:
  "fw_reaches F bd st \<Longrightarrow> length (stack_bytes hw) = 8 \<Longrightarrow> serve_calls F hw bd ce e cs st = Some st' \<Longrightarrow> fw_reaches F bd st'"
proof (induction cs arbitrary: st)
  case (Cons c cs)
  obtain r st1 where h: "comms_control_handler F hw bd ce e (call_request c) st = Some (Replied r st1)"
    and rest: "serve_calls F hw bd ce e cs st1 = Some st'"
    using Cons.prems(3) by (auto split: option.splits control_outcome.splits)
  have "fw_step F bd hw (Request (call_request c) ce e) st = Running st1" using h by simp
  from reach_step [OF Cons.prems(1,2) this] Cons.IH Cons.prems(2) rest show ?case by blast
qed simp

lemma serve_mode:
  "serve_calls F hw bd ce e [set_safety_model m p] st = set_safety_mode F hw m p st"
  by (simp add: call_request_def set_safety_model_def comms_control_handler_def control_query_def Let_def split: option.splits)

lemma serve_power:
  "serve_calls F hw bd ce e [set_power_saving b] st = Some (set_power_save_state F (of_bool b) st)"
  by (simp add: call_request_def set_power_saving_def comms_control_handler_def control_query_def control_simple_def Let_def)

lemma serve_heartbeat:
  "serve_calls F hw bd ce e [send_heartbeat b] st = Some (heartbeat_received b st)"
  by (simp add: call_request_def send_heartbeat_def comms_control_handler_def control_query_def control_simple_def Let_def)

text \<open>No output: the mode is always set.\<close>

lemma serve_no_output:
  assumes "fw_reaches F bd st" and "\<not> CANFD (sb F)" and "length (stack_bytes hw) = 8"
  shows "\<exists>st'. serve_calls F hw bd ce e [set_safety_model m p] st = Some st' \<and> fw_reaches F bd st' \<and>
    (m \<in> fst ` set (safety_hook_registry (sb F)) \<longrightarrow> mode_of st' = m)"
proof -
  obtain st' where st': "set_safety_mode F hw m p st = Some st'"
    using set_safety_mode_sound [OF reaches_sound [OF assms(1,2)]] by blast
  then have s: "serve_calls F hw bd ce e [set_safety_model m p] st = Some st'" by (simp only: serve_mode)
  moreover have "fw_reaches F bd st'" by (rule serve_reaches [OF assms(1,3) s])
  moreover have "m \<in> fst ` set (safety_hook_registry (sb F)) \<longrightarrow> mode_of st' = m"
    using set_safety_mode_known [OF _ st'] by simp
  ultimately show ?thesis by blast
qed

lemma serve_power_mode:
  assumes "fw_reaches F bd st" and "length (stack_bytes hw) = 8"
  shows "\<exists>st'. serve_calls F hw bd ce e (if b then [set_power_saving v] else []) st = Some st' \<and> fw_reaches F bd st' \<and>
    mode_of st' = mode_of st"
proof (cases b)
  case True
  have s: "serve_calls F hw bd ce e [set_power_saving v] st = Some (set_power_save_state F (of_bool v) st)"
    by (rule serve_power)
  from serve_reaches [OF assms s] power_save_plug [of F "of_bool v" st] s True show ?thesis by simp
qed (simp add: assms)

lemma known_small: "m \<in> fst ` set (safety_hook_registry B) \<Longrightarrow> unat m < 256"
  by (auto simp: safety_hook_registry_def SAFETY_SILENT_def SAFETY_NOOUTPUT_def SAFETY_ELM327_def
      SAFETY_ALLOUTPUT_def split: if_splits)

lemma reaches_system_inv:
  assumes "fw_reaches F bd st" and "\<not> CANFD (sb F)"
  shows "system_inv (sb F) (sfty st)"
proof -
  obtain es where "safety_run (sb F) boot_state es (sfty st)"
    using reaches_sound [OF assms] by (auto simp: psound_def sound_def accounted_def)
  from run_system_inv [OF this boot_system_inv] show ?thesis .
qed

lemma no_output_known: "MODEL_NO_OUTPUT \<in> fst ` set (safety_hook_registry B)"
  by (simp add: MODEL_NO_OUTPUT_def safety_hook_registry_def SAFETY_NOOUTPUT_def)

lemma mode_number:
  assumes "fw_reaches F bd st" and "\<not> CANFD (sb F)" and "(ucast (mode_of st) :: u8) = ucast MODEL_NO_OUTPUT"
  shows "mode_of st = MODEL_NO_OUTPUT"
proof -
  have "mode_of st \<in> fst ` set (safety_hook_registry (sb F))"
    using reaches_system_inv [OF assms(1,2)] by (force simp: system_inv_def)
  then have "unat (mode_of st) < 256" by (rule known_small)
  moreover have "unat (ucast (mode_of st) :: u8) = unat (ucast MODEL_NO_OUTPUT :: u8)" using assms(3) by simp
  ultimately show ?thesis by (simp add: word_unat_eq_iff unsigned_ucast_eq MODEL_NO_OUTPUT_def take_bit_eq_mod)
qed

lemma serve_if_no_output:
  assumes "fw_reaches F bd st" and "\<not> CANFD (sb F)" and "length (stack_bytes hw) = 8"
  shows "\<exists>st'. serve_calls F hw bd ce e (if b then [set_safety_model MODEL_NO_OUTPUT 0] else []) st = Some st' \<and>
    fw_reaches F bd st' \<and> mode_of st' = (if b then MODEL_NO_OUTPUT else mode_of st)"
  using serve_no_output [OF assms, of ce e MODEL_NO_OUTPUT 0] no_output_known assms(1) by (cases b) auto

text \<open>The calls of a round in which the relay is to be closed.\<close>

lemma idle_round:
  assumes "\<not> onroad \<or> (ignition_line_pkt h = 0 \<and> ignition_can_pkt h = 0 \<and> \<not> spoofing)"
  shows "\<exists>b0 b1 v. fst (process_panda_state (Some h) True eng onroad spoofing healthy) =
      (if b0 then [set_safety_model MODEL_NO_OUTPUT 0] else []) @ (if b1 then [set_power_saving v] else []) @
      (if safety_mode_pkt h \<noteq> ucast MODEL_NO_OUTPUT then [set_safety_model MODEL_NO_OUTPUT 0] else []) @ [send_heartbeat eng]"
proof -
  let ?ign = "spoofing \<or> ignition_line_pkt h \<noteq> 0 \<or> ignition_can_pkt h \<noteq> 0"
  show ?thesis
    by (rule exI [of _ "safety_mode_pkt h = ucast MODEL_SILENT"],
        rule exI [of _ "power_save_enabled_pkt h \<noteq> (if ?ign then 0 else 1)"], rule exI [of _ "\<not> ?ign"],
        cases spoofing; cases onroad; cases "ignition_line_pkt h = 0"; cases "ignition_can_pkt h = 0")
      (use assms in \<open>simp_all add: process_panda_state_def send_panda_states_def Let_def\<close>)
qed



subsection \<open>The mode of the car, on the board\<close>

lemma set_safety_mode_param:
  assumes "m \<in> fst ` set (safety_hook_registry (sb F))" and "set_safety_mode F hw m p st = Some st'"
  shows "current_safety_param (sfty st') = p"
proof -
  obtain m' t st1 where sw: "switch_hooks F m p (sfty st) = Some (m', t)"
    and st1: "st1 = upd_can (\<lambda>c. c\<lparr>safety := t, safety_tx_blocked := 0, safety_rx_invalid := 0\<rparr>) st"
    and init: "try_can (can_init_all F hw) (apply_mode F hw m' p st1) = Some st'"
    using assms(2) by (auto simp: set_safety_mode_def split: bind_splits)
  obtain r u where set: "set_safety_hooks (hooks_of (sb F)) (safety_hook_registry (sb F)) m p (sfty st) = (r, u)" by fastforce
  from mode_step_cases [OF this] assms(1) obtain h cfg v where r: "r = 0" and u: "u = v\<lparr>current_safety_config := cfg\<rparr>"
    and v: "mode_view v = mode_view (mode_start h m p (sfty st))" by auto
  have "t = u" using sw set r by (simp add: switch_hooks_def)
  then have "current_safety_param t = p" using u v by (simp add: mode_view_def mode_start_def)
  moreover have "safety (can st') = sfty (apply_mode F hw m' p st1)"
    using try_can_plug [OF init] can_init_all_safety by blast
  ultimately show ?thesis using apply_mode_plug [of F hw m' p st1] by (simp add: st1)
qed

lemma serve_experience:
  "serve_calls F hw bd ce e [set_alternative_experience x] st = Some (control_simple F bd (call_request (set_alternative_experience x)) st)"
  by (simp add: call_request_def set_alternative_experience_def comms_control_handler_def control_query_def Let_def)

lemma serve_elm:
  assumes "fw_reaches F bd st" and "\<not> CANFD (sb F)" and "length (stack_bytes hw) = 8"
  shows "set cs \<subseteq> elm_calls \<Longrightarrow> \<exists>st'. serve_calls F hw bd ce e cs st = Some st' \<and> fw_reaches F bd st'"
  using assms(1)
proof (induction cs arbitrary: st)
  case (Cons c cs)
  then obtain p where c: "c = set_safety_model MODEL_ELM327 p" by (auto simp: elm_calls_def)
  obtain st1 where s1: "serve_calls F hw bd ce e [c] st = Some st1" "fw_reaches F bd st1"
    using serve_no_output [OF Cons.prems(2) assms(2,3), of ce e MODEL_ELM327 p] c by blast
  obtain st2 where "serve_calls F hw bd ce e cs st1 = Some st2" "fw_reaches F bd st2"
    using Cons.IH [OF _ s1(2)] Cons.prems(1) by auto
  with s1(1) show ?case using serve_append [of F hw bd ce e "[c]" cs st] by simp
qed simp

text \<open>C21: The mode of the car reaches the board. When the host configures the mode of the car, from any state the board can be
  in, serving its calls succeeds and leaves the board in the mode and with the parameter of the car, if the
  firmware has that mode.\<close>

theorem pandad_sets_car_mode:
  assumes "fw_reaches F bd st" and "\<not> CANFD (sb F)" and "length (stack_bytes hw) = 8"
    and "configureSafetyMode True P s = (cs, s')" and "\<not> safety_configured s" and "safety_configured s'"
    and "car_params P = Some (m, p, x)" and "m \<in> fst ` set (safety_hook_registry (sb F))"
  shows "\<exists>st'. serve_calls F hw bd ce e cs st = Some st' \<and> fw_reaches F bd st' \<and>
    mode_of st' = m \<and> current_safety_param (sfty st') = p"
proof -
  obtain ms where cs: "cs = ms @ setSafetyMode (m, p, x)" "set ms \<subseteq> elm_calls"
  proof (rule configure_cases [OF assms(4)])
    fix cp ms assume "car_params P = Some cp" "cs = ms @ setSafetyMode cp" "set ms \<subseteq> elm_calls"
    then show ?thesis using assms(7) by (intro that [of ms]) simp_all
  qed (use assms(5,6) in simp_all)
  obtain st1 where s1: "serve_calls F hw bd ce e ms st = Some st1" "fw_reaches F bd st1"
    using serve_elm [OF assms(1-3) cs(2)] by blast
  obtain st2 where s2: "serve_calls F hw bd ce e [set_alternative_experience x] st1 = Some st2" "fw_reaches F bd st2"
    using serve_experience serve_reaches [OF s1(2) assms(3)] by blast
  obtain st3 where s3: "serve_calls F hw bd ce e [set_safety_model m p] st2 = Some st3" "fw_reaches F bd st3"
    using serve_no_output [OF s2(2) assms(2,3)] by blast
  then have sm: "set_safety_mode F hw m p st2 = Some st3" by (simp only: serve_mode)
  have "cs = ms @ [set_alternative_experience x] @ [set_safety_model m p]" by (simp add: cs(1) setSafetyMode_def)
  then have "serve_calls F hw bd ce e cs st = Some st3"
    by (simp only: serve_append s1(1) s2(1) s3(1) bind.bind_lunit)
  then show ?thesis using s3(2) set_safety_mode_known [OF assms(8) sm] set_safety_mode_param [OF assms(8) sm] by blast
qed

theorem pandad_sets_car_mode_witness:
  "\<exists>st cs s'. fw_reaches fw_f407 board_nucleo st \<and> configureSafetyMode True params_mazda panda_safety_init = (cs, s') \<and>
     (\<forall>ce e. \<exists>st'. serve_calls fw_f407 plain_hw board_nucleo ce e cs st = Some st' \<and> mode_of st' = 13)"
proof -
  obtain st where st: "fw_reaches fw_f407 board_nucleo st" using f407_start by blast
  have f: "\<not> CANFD (sb fw_f407)" "length (stack_bytes plain_hw) = 8" "13 \<in> fst ` set (safety_hook_registry (sb fw_f407))"
    by (simp_all add: fw_f407_def build_f407_def plain_hw_def safety_hook_registry_def)
  obtain cs s' where c: "configureSafetyMode True params_mazda panda_safety_init = (cs, s')" by fastforce
  then have "safety_configured s'"
    by (auto simp: params_mazda_def panda_safety_init_def configureSafetyMode_def updateMultiplexingMode_def fetchCarParams_def Let_def)
  have "car_params params_mazda = Some (13, 0, 0)" "\<not> safety_configured panda_safety_init"
    by (simp_all add: params_mazda_def panda_safety_init_def)
  from pandad_sets_car_mode [OF st f(1,2) c this(2) \<open>safety_configured s'\<close> this(1) f(3)] st c show ?thesis by blast
qed

end
