(* ===== verification/Registers.thy ===== *)
theory Registers
  imports Panda_Main
begin

text \<open>
  The watch over the hardware registers (\<^verbatim>\<open>firmware/board/drivers/registers.h\<close>): every configuration write goes
  through \<open>register_set\<close>, which notes the value and the bits written in a hash table; a periodic check
  compares the table with the registers. Registers are a memory that keeps what is written; the table
  is proved to be a map from addresses to watched bits.
\<close>

unbundle bit_operations_syntax

subsection \<open>The table\<close>

record reg =
  reg_address :: u32
  reg_value :: u32
  reg_check_mask :: u32
  logged_fault :: bool

definition REGISTER_MAP_SIZE :: "bool \<Rightarrow> u16" where
  "REGISTER_MAP_SIZE ram128 = (if ram128 then 0xFF else 0x3FF)"

definition HASHING_PRIME :: u32 where "HASHING_PRIME = 23"

definition hash_addr :: "u16 \<Rightarrow> u32 \<Rightarrow> u16" where
  "hash_addr map_size input =
     ucast ((drop_bit 16 input XOR ((((input + 1) AND 0xFFFF) * HASHING_PRIME) AND 0xFFFF)) AND ucast map_size)"

definition check_collision :: "reg list \<Rightarrow> nat \<Rightarrow> u32 \<Rightarrow> bool" where
  "check_collision rm h a \<longleftrightarrow> reg_address (rm ! h) \<noteq> 0 \<and> reg_address (rm ! h) \<noteq> a"

text \<open>The search: the slot and the tries left. \<open>None\<close> is an access behind the table.\<close>

fun find_slot :: "u16 \<Rightarrow> reg list \<Rightarrow> u32 \<Rightarrow> nat \<Rightarrow> u16 \<Rightarrow> (nat \<times> nat) option" where
  "find_slot n rm a 0 hash = (if unat hash < length rm then Some (unat hash, 0) else None)"
| "find_slot n rm a (Suc tries) hash =
     (if unat hash < length rm then
        if check_collision rm (unat hash) a then find_slot n rm a tries (hash_addr n (ucast hash))
        else Some (unat hash, Suc tries)
      else None)"

type_synonym reg_memory = "u32 \<Rightarrow> u32"

definition register_set :: "u16 \<Rightarrow> u32 \<Rightarrow> u32 \<Rightarrow> u32 \<Rightarrow> reg list \<times> reg_memory \<Rightarrow> (reg list \<times> reg_memory) option" where
  "register_set n a val msk = (\<lambda>(rm, mem).
     let mem = mem(a := (mem a AND NOT msk) OR (val AND msk))
     in case find_slot n rm a (unat n) (hash_addr n a) of
          None \<Rightarrow> None
        | Some (h, tries) \<Rightarrow>
            Some (if tries \<noteq> 0
                  then rm[h := (rm ! h)\<lparr>reg_address := a,
                            reg_value := (reg_value (rm ! h) AND NOT msk) OR (val AND msk),
                            reg_check_mask := reg_check_mask (rm ! h) OR msk\<rparr>]
                  else rm, mem))"

definition register_set_bits :: "u16 \<Rightarrow> u32 \<Rightarrow> u32 \<Rightarrow> reg list \<times> reg_memory \<Rightarrow> (reg list \<times> reg_memory) option" where
  "register_set_bits n a val = register_set n a val val"

definition register_clear_bits :: "u16 \<Rightarrow> u32 \<Rightarrow> u32 \<Rightarrow> reg list \<times> reg_memory \<Rightarrow> (reg list \<times> reg_memory) option" where
  "register_clear_bits n a val = register_set n a (NOT val) val"

definition divergent :: "reg_memory \<Rightarrow> reg \<Rightarrow> bool" where
  "divergent mem r \<longleftrightarrow> reg_address r \<noteq> 0 \<and>
     mem (reg_address r) AND reg_check_mask r \<noteq> reg_value r AND reg_check_mask r"

fun check_registers :: "reg_memory \<Rightarrow> reg list \<Rightarrow> safety_state \<Rightarrow> reg list \<times> safety_state" where
  "check_registers mem [] s = ([], s)"
| "check_registers mem (r # rs) s =
     (if divergent mem r then
        let (rs, s) = check_registers mem rs (fault_occurred FAULT_REGISTER_DIVERGENT s)
        in (r\<lparr>logged_fault := True\<rparr> # rs, s)
      else let (rs, s) = check_registers mem rs s in (r # rs, s))"

definition init_registers :: "reg list \<Rightarrow> reg list" where
  "init_registers rm = map (\<lambda>r. r\<lparr>reg_address := 0, reg_check_mask := 0\<rparr>) rm"

text \<open>The table of zeros the program starts with.\<close>

definition register_map :: "u16 \<Rightarrow> reg list" where
  "register_map n = replicate (unat n) \<lparr>reg_address = 0, reg_value = 0, reg_check_mask = 0, logged_fault = False\<rparr>"

text \<open>A sequence of writes: address, value, mask.\<close>

fun register_run :: "u16 \<Rightarrow> (u32 \<times> u32 \<times> u32) list \<Rightarrow> reg list \<times> reg_memory \<Rightarrow> (reg list \<times> reg_memory) option" where
  "register_run n [] s = Some s"
| "register_run n ((a, v, k) # cs) s = register_set n a v k s \<bind> register_run n cs"

subsection \<open>The search\<close>

definition probe :: "u16 \<Rightarrow> u32 \<Rightarrow> nat \<Rightarrow> u16" where
  "probe n a k = ((\<lambda>h. hash_addr n (ucast h)) ^^ k) (hash_addr n a)"

lemma probe_0 [simp]: "probe n a 0 = hash_addr n a"
  by (simp add: probe_def)

lemma probe_Suc [simp]: "probe n a (Suc k) = hash_addr n (ucast (probe n a k))"
  by (simp add: probe_def)

text \<open>The places before the \<open>k\<close>-th are in the table and belong to others.\<close>

definition passed :: "u16 \<Rightarrow> reg list \<Rightarrow> u32 \<Rightarrow> nat \<Rightarrow> bool" where
  "passed n rm a k \<longleftrightarrow> (\<forall>j < k. unat (probe n a j) < length rm \<and> check_collision rm (unat (probe n a j)) a)"

lemma passed_Suc: "passed n rm a (Suc k) \<longleftrightarrow>
    passed n rm a k \<and> unat (probe n a k) < length rm \<and> check_collision rm (unat (probe n a k)) a"
  by (auto simp: passed_def less_Suc_eq)

lemma passed_0 [simp]: "passed n rm a 0"
  by (simp add: passed_def)

lemma find_slot_some:
  "passed n rm a k \<Longrightarrow> find_slot n rm a tries (probe n a k) = Some (h, t) \<Longrightarrow>
   \<exists>j. k \<le> j \<and> j + t = k + tries \<and> passed n rm a j \<and> h = unat (probe n a j) \<and> h < length rm \<and>
     (t \<noteq> 0 \<longrightarrow> \<not> check_collision rm h a)"
proof (induction tries arbitrary: k)
  case 0
  then show ?case by (intro exI [of _ k]) (auto split: if_splits)
next
  case (Suc tries)
  show ?case
  proof (cases "check_collision rm (unat (probe n a k)) a")
    case True
    have "unat (probe n a k) < length rm" using Suc.prems(2) by (auto split: if_splits)
    then have "passed n rm a (Suc k)" using Suc.prems(1) True by (simp add: passed_Suc)
    moreover have "find_slot n rm a tries (probe n a (Suc k)) = Some (h, t)"
      using Suc.prems(2) True by (simp split: if_splits)
    ultimately obtain j where "Suc k \<le> j" "j + t = Suc k + tries" "passed n rm a j" "h = unat (probe n a j)"
        "h < length rm" "t \<noteq> 0 \<longrightarrow> \<not> check_collision rm h a"
      using Suc.IH [of "Suc k"] by blast
    then show ?thesis by (intro exI [of _ j]) simp
  next
    case False
    then show ?thesis using Suc.prems by (intro exI [of _ k]) (auto split: if_splits)
  qed
qed

lemma find_slot_none:
  "passed n rm a k \<Longrightarrow> find_slot n rm a tries (probe n a k) = None \<longleftrightarrow>
   (\<exists>j. k \<le> j \<and> j \<le> k + tries \<and> passed n rm a j \<and> \<not> unat (probe n a j) < length rm)"
proof (induction tries arbitrary: k)
  case 0
  then show ?case by (auto intro: exI [of _ k])
next
  case (Suc tries)
  let ?out = "\<lambda>j. passed n rm a j \<and> \<not> unat (probe n a j) < length rm"
  show ?case
  proof (cases "unat (probe n a k) < length rm \<and> check_collision rm (unat (probe n a k)) a")
    case True
    then have "passed n rm a (Suc k)" using Suc.prems by (simp add: passed_Suc)
    from Suc.IH [OF this] have "find_slot n rm a (Suc tries) (probe n a k) = None \<longleftrightarrow> (\<exists>j. Suc k \<le> j \<and> j \<le> Suc k + tries \<and> ?out j)"
      using True by simp
    also have "\<dots> \<longleftrightarrow> (\<exists>j. k \<le> j \<and> j \<le> k + Suc tries \<and> ?out j)"
    proof (intro iffI; elim exE conjE)
      fix j assume "Suc k \<le> j" "j \<le> Suc k + tries" "passed n rm a j" "\<not> unat (probe n a j) < length rm"
      then show "\<exists>j. k \<le> j \<and> j \<le> k + Suc tries \<and> ?out j" by (intro exI [of _ j]) simp
    next
      fix j assume j: "k \<le> j" "j \<le> k + Suc tries" "passed n rm a j" "\<not> unat (probe n a j) < length rm"
      then have "j \<noteq> k" using True by auto
      with j show "\<exists>j. Suc k \<le> j \<and> j \<le> Suc k + tries \<and> ?out j" by (intro exI [of _ j]) simp
    qed
    finally show ?thesis .
  next
    case False
    have "j = k" if "k \<le> j" "passed n rm a j" for j
    proof (rule ccontr)
      assume "j \<noteq> k"
      then have "k < j" using that(1) by simp
      then show False using that(2) False by (simp add: passed_def)
    qed
    then show ?thesis using False Suc.prems by auto
  qed
qed

subsection \<open>The table as a map\<close>

definition mask_of :: "(u32 \<times> u32 \<times> u32) list \<Rightarrow> u32 \<Rightarrow> u32" where
  "mask_of cs a = fold (\<lambda>(b, _, m) k. if b = a then k OR m else k) cs 0"

definition slot_of :: "u16 \<Rightarrow> reg list \<Rightarrow> u32 \<Rightarrow> nat \<Rightarrow> bool" where
  "slot_of n rm a i \<longleftrightarrow> (\<exists>k < unat n. passed n rm a k \<and> i = unat (probe n a k))"

definition map_inv :: "u16 \<Rightarrow> (u32 \<times> u32 \<times> u32) list \<Rightarrow> reg list \<Rightarrow> reg_memory \<Rightarrow> bool" where
  "map_inv n cs rm mem \<longleftrightarrow> length rm = unat n \<and> 0 \<notin> fst ` set cs \<and>
     (\<forall>i < length rm. if reg_address (rm ! i) = 0 then reg_value (rm ! i) = 0 \<and> reg_check_mask (rm ! i) = 0
        else slot_of n rm (reg_address (rm ! i)) i \<and> reg_address (rm ! i) \<in> fst ` set cs \<and>
          reg_check_mask (rm ! i) = mask_of cs (reg_address (rm ! i)) \<and>
          mem (reg_address (rm ! i)) AND reg_check_mask (rm ! i) = reg_value (rm ! i) AND reg_check_mask (rm ! i)) \<and>
     (\<forall>a \<in> fst ` set cs. a \<in> reg_address ` set rm \<or> passed n rm a (unat n))"

lemma mask_of_snoc: "mask_of (cs @ [(b, v, m)]) a = (if b = a then mask_of cs a OR m else mask_of cs a)"
  by (simp add: mask_of_def)

lemma mask_of_other: "a \<notin> fst ` set cs \<Longrightarrow> mask_of cs a = 0"
  by (induction cs rule: rev_induct) (auto simp: mask_of_snoc, simp add: mask_of_def)

text \<open>Taking a free place or its own leaves the ways of the others.\<close>

lemma passed_update:
  assumes "\<not> check_collision rm h b" and "reg_address r = b" and "b \<noteq> a"  and "b \<noteq> 0"
    and "passed n rm a k"
  shows "passed n (rm[h := r]) a k"
proof -
  have "check_collision (rm[h := r]) j a" if "check_collision rm j a" "j < length rm" for j
    using assms that by (cases "j = h") (auto simp: check_collision_def)
  then show ?thesis using assms(5) by (auto simp: passed_def)
qed

lemma passed_own:
  assumes "\<not> check_collision rm h a" and "reg_address r = a" and "passed n rm a k"
  shows "passed n (rm[h := r]) a k"
proof -
  have "check_collision (rm[h := r]) j a" if "check_collision rm j a" for j
  proof -
    have "h \<noteq> j" using that assms(1) by auto
    then show ?thesis using that by (simp add: check_collision_def)
  qed
  then show ?thesis using assms(3) by (simp add: passed_def)
qed

text \<open>A watched register is found where it is.\<close>

lemma slot_unique:
  assumes "slot_of n rm a i" and "reg_address (rm ! i) = a" and "passed n rm a j" and "j \<le> unat n"
    and "j \<noteq> unat n \<longrightarrow> \<not> check_collision rm (unat (probe n a j)) a"
  shows "j < unat n \<and> i = unat (probe n a j)"
proof -
  obtain k where k: "k < unat n" "passed n rm a k" "i = unat (probe n a k)" using assms(1) by (auto simp: slot_of_def)
  have "\<not> check_collision rm (unat (probe n a k)) a" using assms(2) k(3) by (simp add: check_collision_def)
  then have "\<not> k < j" using assms(3) by (auto simp: passed_def)
  moreover have "\<not> j < k" using assms(5) k by (auto simp: passed_def)
  ultimately show ?thesis using k by (metis nat_neq_iff)
qed

lemma merged_bits:
  fixes x y k :: "'a::len word"
  assumes "x AND k = y AND k"
  shows "((x AND NOT m) OR (v AND m)) AND (k OR m) = ((y AND NOT m) OR (v AND m)) AND (k OR m)"
proof (rule bit_eqI)
  fix i assume "possible_bit TYPE('a word) i"
  have "bit (x AND k) i = bit (y AND k) i" using assms by simp
  then show "bit (((x AND NOT m) OR (v AND m)) AND (k OR m)) i = bit (((y AND NOT m) OR (v AND m)) AND (k OR m)) i"
    by (auto simp: bit_simps)
qed

lemma map_inv_slot:
  assumes "map_inv n cs rm mem" and "i < length rm" and "reg_address (rm ! i) \<noteq> 0"
  shows "slot_of n rm (reg_address (rm ! i)) i" "reg_address (rm ! i) \<in> fst ` set cs"
    "reg_check_mask (rm ! i) = mask_of cs (reg_address (rm ! i))"
    "mem (reg_address (rm ! i)) AND reg_check_mask (rm ! i) = reg_value (rm ! i) AND reg_check_mask (rm ! i)"
proof -
  have "if reg_address (rm ! i) = 0 then reg_value (rm ! i) = 0 \<and> reg_check_mask (rm ! i) = 0
      else slot_of n rm (reg_address (rm ! i)) i \<and> reg_address (rm ! i) \<in> fst ` set cs \<and>
        reg_check_mask (rm ! i) = mask_of cs (reg_address (rm ! i)) \<and>
        mem (reg_address (rm ! i)) AND reg_check_mask (rm ! i) = reg_value (rm ! i) AND reg_check_mask (rm ! i)"
    using assms(1,2) unfolding map_inv_def by blast
  then show "slot_of n rm (reg_address (rm ! i)) i" "reg_address (rm ! i) \<in> fst ` set cs"
    "reg_check_mask (rm ! i) = mask_of cs (reg_address (rm ! i))"
    "mem (reg_address (rm ! i)) AND reg_check_mask (rm ! i) = reg_value (rm ! i) AND reg_check_mask (rm ! i)"
    unfolding if_not_P [OF assms(3)] by blast+
qed

lemma map_inv_free:
  assumes "map_inv n cs rm mem" and "i < length rm" and "reg_address (rm ! i) = 0"
  shows "reg_value (rm ! i) = 0" "reg_check_mask (rm ! i) = 0"
  using assms by (auto simp: map_inv_def)

lemma map_inv_refused:
  assumes "map_inv n cs rm mem" and "a \<in> fst ` set cs" and "a \<notin> reg_address ` set rm"
  shows "passed n rm a (unat n)"
  using assms unfolding map_inv_def by blast

lemma map_inv_step:
  assumes inv: "map_inv n cs rm mem" and a: "a \<noteq> 0" and step: "register_set n a v m (rm, mem) = Some (rm', mem')"
  shows "map_inv n (cs @ [(a, v, m)]) rm' mem'"
proof -
  obtain h t where f: "find_slot n rm a (unat n) (probe n a 0) = Some (h, t)"
    and mem': "mem' = mem(a := (mem a AND NOT m) OR (v AND m))"
    and rm': "rm' = (if t \<noteq> 0 then rm[h := (rm ! h)\<lparr>reg_address := a,
        reg_value := (reg_value (rm ! h) AND NOT m) OR (v AND m), reg_check_mask := reg_check_mask (rm ! h) OR m\<rparr>] else rm)"
    using step by (auto simp: register_set_def Let_def split: option.splits)
  obtain j where j: "j + t = unat n" "passed n rm a j" "h = unat (probe n a j)" "h < length rm" "t \<noteq> 0 \<longrightarrow> \<not> check_collision rm h a"
    using find_slot_some [OF passed_0 f] by auto
  have len: "length rm = unat n" and nz: "0 \<notin> fst ` set (cs @ [(a, v, m)])" using inv a by (auto simp: map_inv_def)
  have own: "j < unat n \<and> i = h" if "i < length rm" "reg_address (rm ! i) = a" for i
    using slot_unique [of n rm a i j] map_inv_slot(1) [OF inv that(1)] that a j by auto
  show ?thesis
  proof (cases "t = 0")
    case True
    then have jn: "j = unat n" and same: "rm' = rm" using j rm' by auto
    then have free: "a \<notin> reg_address ` set rm" using own by (fastforce simp: in_set_conv_nth)
    have "passed n rm c (unat n)" if "c \<in> fst ` set (cs @ [(a, v, m)])" "c \<notin> reg_address ` set rm" for c
      using that map_inv_refused [OF inv, of c] j(2) jn by auto
    moreover have "reg_address (rm ! i) \<noteq> a" if "i < length rm" for i using free that by auto
    ultimately show ?thesis unfolding map_inv_def same
      using len nz map_inv_slot [OF inv] map_inv_free [OF inv] by (auto simp: mem' mask_of_snoc)
  next
    case False
    let ?r = "(rm ! h)\<lparr>reg_address := a, reg_value := (reg_value (rm ! h) AND NOT m) OR (v AND m),
        reg_check_mask := reg_check_mask (rm ! h) OR m\<rparr>"
    have upd: "rm' = rm[h := ?r]" and nc: "\<not> check_collision rm h a" and lt: "j < unat n" using rm' False j by auto
    have keep: "passed n rm' c k" if "passed n rm c k" for c k
      unfolding upd using passed_update [OF nc _ _ a that] passed_own [OF _ _ that] nc by (cases "c = a") auto
    have h: "reg_address (rm ! h) = 0 \<or> reg_address (rm ! h) = a" using nc by (simp add: check_collision_def)
    have old: "reg_check_mask (rm ! h) = mask_of cs a \<and> mem a AND reg_check_mask (rm ! h) = reg_value (rm ! h) AND reg_check_mask (rm ! h)"
    proof (cases "reg_address (rm ! h) = 0")
      case True
      have "a \<notin> reg_address ` set rm" using own a True by (auto simp: in_set_conv_nth)
      moreover have "\<not> passed n rm a (unat n)" using nc lt j(3) by (auto simp: passed_def)
      ultimately have "a \<notin> fst ` set cs" using map_inv_refused [OF inv] by blast
      then show ?thesis using map_inv_free [OF inv j(4) True] by (simp add: mask_of_other)
    next
      case False
      then show ?thesis using map_inv_slot [OF inv j(4)] h by auto
    qed
    have at_h: "slot_of n rm' a h" using keep [OF j(2)] j(3) lt by (auto simp: slot_of_def)
    have other: "slot_of n rm' b i" if "slot_of n rm b i" for b i using that keep by (auto simp: slot_of_def)
    have refused: "passed n rm' c (unat n)" if "c \<in> fst ` set (cs @ [(a, v, m)])" "c \<notin> reg_address ` set rm'" for c
    proof -
      have "a \<in> reg_address ` set rm'" unfolding upd using j(4) by (force simp: in_set_conv_nth)
      then have ca: "c \<noteq> a" using that by auto
      have "c \<notin> reg_address ` set rm"
      proof
        assume "c \<in> reg_address ` set rm"
        then obtain i where i: "i < length rm" "reg_address (rm ! i) = c" by (auto simp: in_set_conv_nth)
        have "c \<noteq> 0" using that(1) nz by blast
        then have "i \<noteq> h" using h i ca by auto
        then have r: "rm' ! i = rm ! i" by (simp add: upd)
        have "rm' ! i \<in> set rm'" using i(1) by (simp add: upd)
        then have "reg_address (rm' ! i) \<in> reg_address ` set rm'" by (rule imageI)
        then show False using that(2) i(2) r by simp
      qed
      then show ?thesis using keep map_inv_refused [OF inv, of c] that(1) ca by auto
    qed
    have slots: "if reg_address (rm' ! i) = 0 then reg_value (rm' ! i) = 0 \<and> reg_check_mask (rm' ! i) = 0
        else slot_of n rm' (reg_address (rm' ! i)) i \<and> reg_address (rm' ! i) \<in> fst ` set (cs @ [(a, v, m)]) \<and>
          reg_check_mask (rm' ! i) = mask_of (cs @ [(a, v, m)]) (reg_address (rm' ! i)) \<and>
          mem' (reg_address (rm' ! i)) AND reg_check_mask (rm' ! i) = reg_value (rm' ! i) AND reg_check_mask (rm' ! i)"
      if i: "i < length rm" for i
    proof (cases "i = h")
      case True
      then have r: "rm' ! i = ?r" using j(4) by (simp add: upd)
      have "mem a AND mask_of cs a = reg_value (rm ! h) AND mask_of cs a" using old by metis
      from merged_bits [OF this] show ?thesis unfolding r using at_h True a old by (simp add: mask_of_snoc mem')
    next
      case False
      then have r: "rm' ! i = rm ! i" by (simp add: upd)
      have "reg_address (rm ! i) \<noteq> a" using own [OF i] False by blast
      then show ?thesis unfolding r using map_inv_slot [OF inv i] map_inv_free [OF inv i] other
        by (auto simp: mask_of_snoc mem')
    qed
    have len': "length rm' = length rm" by (simp add: upd)
    show ?thesis unfolding map_inv_def len'
    proof (intro conjI allI ballI impI)
      show "length rm = unat n" "0 \<notin> fst ` set (cs @ [(a, v, m)])" by (fact len nz)+
    qed (use slots refused in blast)+
  qed
qed

subsection \<open>The check\<close>

definition watched :: "reg list \<Rightarrow> u32 set" where
  "watched rm = reg_address ` set rm - {0}"

lemma fault_again: "f \<noteq> 0 \<Longrightarrow> fault_occurred f (fault_occurred f s) = fault_occurred f s"
  by (simp add: fault_occurred_def Let_def word_ao_absorbs or.assoc)

lemma check_registers_exact:
  "snd (check_registers mem rm s) = (if \<exists>r \<in> set rm. divergent mem r then fault_occurred FAULT_REGISTER_DIVERGENT s else s)"
proof (induction rm arbitrary: s)
  case (Cons r rm)
  have "fault_occurred FAULT_REGISTER_DIVERGENT (fault_occurred FAULT_REGISTER_DIVERGENT s) = fault_occurred FAULT_REGISTER_DIVERGENT s"
    by (rule fault_again) (simp add: FAULT_REGISTER_DIVERGENT_def)
  with Cons show ?case by (simp add: split_beta Let_def)
qed simp

lemma map_inv_boot: "map_inv n [] (init_registers (register_map n)) mem"
  by (simp add: map_inv_def init_registers_def register_map_def)

lemma map_inv_run:
  "map_inv n ds rm mem \<Longrightarrow> 0 \<notin> fst ` set cs \<Longrightarrow> register_run n cs (rm, mem) = Some (rm', mem') \<Longrightarrow> map_inv n (ds @ cs) rm' mem'"
proof (induction cs arbitrary: ds rm mem)
  case (Cons c cs)
  obtain a v m where c: "c = (a, v, m)" by (cases c)
  obtain rm1 mem1 where s1: "register_set n a v m (rm, mem) = Some (rm1, mem1)" "register_run n cs (rm1, mem1) = Some (rm', mem')"
    using Cons.prems(3) by (auto simp: c split: bind_splits)
  from map_inv_step [OF Cons.prems(1) _ s1(1)] Cons.prems(2) have "map_inv n (ds @ [c]) rm1 mem1" by (simp add: c)
  from Cons.IH [OF this _ s1(2)] Cons.prems(2) show ?case by simp
qed simp

lemma probe_bound: "unat (probe n a k) \<le> unat n"
proof -
  have "unat (hash_addr n x) \<le> unat n" for x
  proof -
    have "unat (y AND ucast n :: u32) \<le> unat (ucast n :: u32)" for y using word_and_le1 [of y "ucast n"] by (simp add: word_le_nat_alt)
    moreover have "unat (ucast n :: u32) = unat n" by (simp add: unsigned_ucast_eq take_bit_nat_eq_self_iff order_less_trans [OF unsigned_less])
    moreover have "unat (ucast z :: u16) \<le> unat z" for z :: u32 by (simp add: unsigned_ucast_eq take_bit_nat_less_eq_self)
    ultimately show ?thesis unfolding hash_addr_def by (metis (no_types) order_trans)
  qed
  then show ?thesis by (cases k) simp_all
qed

lemma set_none:
  assumes "length rm = unat n"
  shows "register_set n a v m (rm, mem) = None \<longleftrightarrow> (\<exists>j \<le> unat n. passed n rm a j \<and> probe n a j = n)"
proof -
  have "register_set n a v m (rm, mem) = None \<longleftrightarrow> find_slot n rm a (unat n) (probe n a 0) = None"
    by (auto simp: register_set_def Let_def split: option.splits)
  also have "\<dots> \<longleftrightarrow> (\<exists>j \<le> unat n. passed n rm a j \<and> \<not> unat (probe n a j) < length rm)"
    unfolding find_slot_none [OF passed_0] by simp
  also have "\<dots> \<longleftrightarrow> (\<exists>j \<le> unat n. passed n rm a j \<and> probe n a j = n)"
    using probe_bound [of n a] assms by (metis (no_types) le_neq_implies_less less_irrefl word_unat_eq_iff)
  finally show ?thesis .
qed

text \<open>C28: After any sequence of configuration writes that does not leave the table, the periodic check raises the
  fault exactly when a watched register differs, in one of the bits ever written to it, from what the
  writes left there: no false alarm, no miss. A written register is watched, or all places of its search were taken by
  others. The next write leaves the table, whose size is one less than its hash values need, exactly when its search
  comes to the hash value that equals the size.\<close>

theorem register_watch_exact:
  assumes "register_run n cs (init_registers (register_map n), mem0) = Some (rm, mem)" and "0 \<notin> fst ` set cs"
  shows "(\<forall>mem' s. snd (check_registers mem' rm s) =
      (if \<exists>a \<in> watched rm. mem' a AND mask_of cs a \<noteq> mem a AND mask_of cs a
       then fault_occurred FAULT_REGISTER_DIVERGENT s else s)) \<and>
    watched rm \<subseteq> fst ` set cs \<and> (\<forall>a \<in> fst ` set cs - watched rm. passed n rm a (unat n)) \<and>
    (\<forall>a v m. register_set n a v m (rm, mem) = None \<longleftrightarrow> (\<exists>j \<le> unat n. passed n rm a j \<and> probe n a j = n))"
proof -
  have inv: "map_inv n cs rm mem" using map_inv_run [OF map_inv_boot assms(2,1)] by simp
  have div: "divergent mem' r \<longleftrightarrow> reg_address r \<noteq> 0 \<and>
      mem' (reg_address r) AND mask_of cs (reg_address r) \<noteq> mem (reg_address r) AND mask_of cs (reg_address r)"
    if "r \<in> set rm" for mem' r
    using that map_inv_slot(3,4) [OF inv] by (fastforce simp: divergent_def in_set_conv_nth)
  then have "(\<exists>r \<in> set rm. divergent mem' r) \<longleftrightarrow>
      (\<exists>a \<in> watched rm. mem' a AND mask_of cs a \<noteq> mem a AND mask_of cs a)" for mem'
    by (auto simp: watched_def)
  moreover have "watched rm \<subseteq> fst ` set cs"
  proof
    fix a assume "a \<in> watched rm"
    then obtain i where "i < length rm" "reg_address (rm ! i) = a" "a \<noteq> 0" by (auto simp: watched_def in_set_conv_nth)
    then show "a \<in> fst ` set cs" using map_inv_slot(2) [OF inv, of i] by blast
  qed
  moreover have "passed n rm a (unat n)" if "a \<in> fst ` set cs - watched rm" for a
    using map_inv_refused [OF inv, of a] that assms(2) by (auto simp: watched_def)
  moreover have "length rm = unat n" using inv by (simp add: map_inv_def)
  ultimately show ?thesis using set_none by (simp add: check_registers_exact)
qed

text \<open>Two writes to the control register of the first CAN controller; an address whose hash is the size.\<close>

theorem register_watch_exact_witness:
  "\<exists>rm mem. register_run 0xFF [(0x40006400, 0x81, 0x180FF), (0x40006400, 0xC0, 0x180FF)] (init_registers (register_map 0xFF), \<lambda>_. 0) = Some (rm, mem) \<and>
     mem 0x40006400 = 0xC0 \<and> (\<forall>s. snd (check_registers mem rm s) = s) \<and> watched rm \<subseteq> {0x40006400} \<and>
     (\<forall>v m. register_set 0xFF 0x40000058 v m (rm, mem) = None)"
proof -
  let ?r0 = "\<lparr>reg_address = 0, reg_value = 0, reg_check_mask = 0, logged_fault = False\<rparr>"
  have init: "init_registers (register_map 0xFF) = replicate 255 ?r0" by (simp add: init_registers_def register_map_def)
  have h: "hash_addr 0xFF 0x40006400 = 0x17" "hash_addr 0xFF 0x40000058 = 0xFF" by (simp_all add: hash_addr_def HASHING_PRIME_def)
  have f: "find_slot 0xFF rm a 255 0x17 = Some (23, 255)"
    if "length rm = 255" "reg_address (rm ! 23) = 0 \<or> reg_address (rm ! 23) = a" for rm a
    using that find_slot.simps(2) [of "0xFF" rm a 254 "0x17"] by (auto simp: check_collision_def)
  obtain rm mem where run: "register_run 0xFF [(0x40006400, 0x81, 0x180FF), (0x40006400, 0xC0, 0x180FF)] (init_registers (register_map 0xFF), \<lambda>_. 0) = Some (rm, mem)"
      "mem 0x40006400 = 0xC0"
    using f by (simp add: init register_set_def Let_def h)
  have "probe 0xFF 0x40000058 0 = 0xFF" by (simp add: h)
  then have "(\<forall>s. snd (check_registers mem rm s) = s) \<and> watched rm \<subseteq> {0x40006400} \<and>
      (\<forall>v m. register_set 0xFF 0x40000058 v m (rm, mem) = None)"
    using register_watch_exact [OF run(1)] by (auto intro!: exI [of _ 0])
  with run show ?thesis by blast
qed

end
