(* ===== verification/Spi_Comms.thy ===== *)
theory Spi_Comms
  imports Serial_Comms
begin

text \<open>
  The SPI transport (\<^verbatim>\<open>firmware/board/drivers/spi.h\<close>), for the boards that have the port: a state machine driven by
  two interrupts, one when the DMA controller has received as many bytes as it was asked for, one when an answer
  has been clocked out. The functions behind it are those of \<open>Serial_Comms\<close>.
\<close>

unbundle bit_operations_syntax

subsection \<open>State\<close>

definition SPI_BUF_SIZE :: nat where "SPI_BUF_SIZE = 2048"
definition SPI_HEADER_SIZE :: nat where "SPI_HEADER_SIZE = 7"
definition SPI_CHECKSUM_START :: u8 where "SPI_CHECKSUM_START = 0xAB"
definition SPI_SYNC_BYTE :: u8 where "SPI_SYNC_BYTE = 0x5A"
definition SPI_HACK :: u8 where "SPI_HACK = 0x79"
definition SPI_DACK :: u8 where "SPI_DACK = 0x85"
definition SPI_NACK :: u8 where "SPI_NACK = 0x1F"

datatype spi_state_t =
  SPI_STATE_HEADER | SPI_STATE_HEADER_ACK | SPI_STATE_HEADER_NACK | SPI_STATE_DATA_RX | SPI_STATE_DATA_RX_ACK | SPI_STATE_DATA_TX

text \<open>What the DMA controller was last told: to receive a number of bytes at an offset of the receive buffer
  (\<open>llspi_mosi_dma\<close>), or to send these bytes (\<open>llspi_miso_dma\<close>).\<close>

datatype spi_dma = Mosi nat nat | Miso "u8 list"

record spi =
  spi_buf_rx :: "u8 list"
  spi_buf_tx :: "u8 list"
  spi_error_count :: u16
  spi_state :: spi_state_t
  spi_data_len_mosi :: u16
  spi_can_tx_ready :: bool
  spi_dma :: spi_dma

text \<open>What identifies the board; and the functions behind the transport, with whether a call ended in
  \<open>can_tx_comms_resume_spi\<close>.\<close>

record spi_id =
  uid_byte :: "nat \<Rightarrow> u8"
  board_type :: u8
  usb_pid :: u16

record 'p spi_comms = "'p comms" +
  resumes :: "'p \<Rightarrow> 'p \<Rightarrow> bool"

definition spi_init :: "u16 \<Rightarrow> spi" where
  "spi_init errors = \<lparr>spi_buf_rx = replicate SPI_BUF_SIZE 0, spi_buf_tx = replicate SPI_BUF_SIZE 0, spi_error_count = errors,
     spi_state = SPI_STATE_HEADER, spi_data_len_mosi = 0, spi_can_tx_ready = False, spi_dma = Mosi 0 SPI_HEADER_SIZE\<rparr>"

subsection \<open>The version request\<close>

definition crc_checksum :: "u8 list \<Rightarrow> u8 \<Rightarrow> u8" where
  "crc_checksum dat poly = fold (\<lambda>b crc. (crc8_step poly ^^ 8) (crc XOR b)) (rev dat) 0xFF"

definition version_text :: "u8 list" where
  "version_text = [0x56, 0x45, 0x52, 0x53, 0x49, 0x4F, 0x4E]"

definition spi_version_packet :: "spi_id \<Rightarrow> u8 list" where
  "spi_version_packet I =
     (let body = map (uid_byte I) [0..<12] @ [board_type I, ucast (usb_pid I AND 0xFF), 2];
          data_len = of_nat (length body) :: u16;
          out = version_text @ [ucast (data_len AND 0xFF), ucast (drop_bit 8 data_len AND 0xFF)] @ body
      in out @ [crc_checksum out 0xD5])"

subsection \<open>The end of a reception\<close>

definition validate_checksum :: "u8 list \<Rightarrow> bool" where
  "validate_checksum bs \<longleftrightarrow> xor_bytes SPI_CHECKSUM_START bs = 0"

definition put_tx :: "u8 list \<Rightarrow> spi \<Rightarrow> spi" where
  "put_tx bs s = s\<lparr>spi_buf_tx := bs @ drop (length bs) (spi_buf_tx s)\<rparr>"

text \<open>The call a request asks for: \<open>None\<close> does not return, \<open>Some (None, \<dots>)\<close> is refused. The test endpoint answers
  with what is in the buffer.\<close>

definition spi_dispatch ::
    "'p spi_comms \<Rightarrow> u8 \<Rightarrow> u8 list \<Rightarrow> nat \<Rightarrow> spi \<times> 'p \<Rightarrow> (u8 list option \<times> spi \<times> 'p) option" where
  "spi_dispatch C endpoint mosi miso_len = (\<lambda>(s, p).
     let resumed = (\<lambda>p' s. if resumes C p p' then s\<lparr>spi_can_tx_ready := True\<rparr> else s) in
     if endpoint = 0 then
       (if length mosi \<ge> 7
        then map_option (\<lambda>(r, p'). (Some r, resumed p' s, p')) (control_handler (comms.truncate C) (control_of_bytes mosi) p)
        else Some (None, s, p))
     else if endpoint = 1 \<or> endpoint = 0x81 then
       (if mosi = []
        then map_option (\<lambda>(r, p'). (Some r, resumed p' s, p')) (can_read_handler (comms.truncate C) miso_len p)
        else Some (None, s, p))
     else if endpoint = 2 then map_option (\<lambda>p'. (Some [], resumed p' s, p')) (endpoint2_handler (comms.truncate C) mosi p)
     else if endpoint = 3 then
       (if mosi \<noteq> [] then
          if spi_can_tx_ready s
          then map_option (\<lambda>p'. (Some [], resumed p' (s\<lparr>spi_can_tx_ready := False\<rparr>), p')) (can_write_handler (comms.truncate C) mosi p)
          else Some (None, s, p)
        else Some (None, s, p))
     else if endpoint = 0xAB then
       (if 3 + miso_len < length (spi_buf_tx s) then Some (Some (take miso_len (drop 3 (spi_buf_tx s))), s, p) else None)
     else Some (None, s, p))"

text \<open>The answer: what is sent and the next state.\<close>

definition spi_respond :: "u8 list option \<Rightarrow> spi \<Rightarrow> (nat \<times> spi_state_t \<times> spi) option" where
  "spi_respond resp s =
     (case resp of
        None \<Rightarrow> Some (1, SPI_STATE_HEADER_NACK, put_tx [SPI_NACK] s)
      | Some r \<Rightarrow>
          let response_len = of_nat (length r) :: u16;
              head = [SPI_DACK, ucast (response_len AND 0xFF), ucast (drop_bit 8 response_len AND 0xFF)] @ r
          in if length r + 4 \<le> length (spi_buf_tx s)
             then Some (length r + 4, SPI_STATE_DATA_TX, put_tx (head @ [xor_bytes SPI_CHECKSUM_START head]) s)
             else None)"

text \<open>The data of a request: their checksum, the call, the answer. The first flag is whether the checksum was right.\<close>

definition spi_data :: "'p spi_comms \<Rightarrow> spi \<times> 'p \<Rightarrow> (bool \<times> (nat \<times> spi_state_t \<times> spi) \<times> 'p) option" where
  "spi_data C = (\<lambda>(s, p).
     let rx = spi_buf_rx s; mosi_len = le_word (rx ! 2) (rx ! 3); miso_len = le_word (rx ! 4) (rx ! 5); len = (mosi_len + 1) mod 2 ^ 16 in
     if SPI_HEADER_SIZE + len \<le> length rx then
       if validate_checksum (take len (drop SPI_HEADER_SIZE rx))
       then do { (resp, s, p) \<leftarrow> spi_dispatch C (rx ! 1) (take mosi_len (drop SPI_HEADER_SIZE rx)) miso_len (s, p);
                 a \<leftarrow> spi_respond resp s;
                 Some (True, a, p) }
       else map_option (\<lambda>a. (False, a, p)) (spi_respond None s)
     else None)"

definition spi_rx_done :: "spi_id \<Rightarrow> 'p spi_comms \<Rightarrow> spi \<times> 'p \<Rightarrow> (spi \<times> 'p) option" where
  "spi_rx_done I C = (\<lambda>(s, p).
     let rx = spi_buf_rx s;
         s = s\<lparr>spi_data_len_mosi := ucast (rx ! 2) OR push_bit 8 (ucast (rx ! 3))\<rparr>
     in do {
       (checksum_valid, (response_len, next_rx_state, s), p) \<leftarrow>
         (if take 7 rx = version_text
          then Some (False, (length (spi_version_packet I), SPI_STATE_HEADER_NACK, put_tx (spi_version_packet I) s), p)
          else if spi_state s = SPI_STATE_HEADER then
            let ok = validate_checksum (take SPI_HEADER_SIZE rx) in
            if rx ! 0 = SPI_SYNC_BYTE \<and> ok
            then Some (ok, (1, SPI_STATE_HEADER_ACK, put_tx [SPI_HACK] s), p)
            else Some (ok, (1, SPI_STATE_HEADER_NACK, put_tx [SPI_NACK] s), p)
          else if spi_state s = SPI_STATE_DATA_RX then spi_data C (s, p)
          else Some (False, (1, SPI_STATE_HEADER_NACK, put_tx [SPI_NACK] s), p));
       let s = s\<lparr>spi_dma := Miso (take response_len (spi_buf_tx s)), spi_state := next_rx_state\<rparr>;
       Some (if \<not> checksum_valid \<and> spi_error_count s < 0xFFFF then s\<lparr>spi_error_count := spi_error_count s + 1\<rparr> else s, p) })"

subsection \<open>The end of an answer\<close>

definition spi_tx_done :: "bool \<Rightarrow> spi \<Rightarrow> spi" where
  "spi_tx_done reset s =
     (if spi_state s = SPI_STATE_HEADER_NACK \<or> reset
      then s\<lparr>spi_state := SPI_STATE_HEADER, spi_dma := Mosi 0 SPI_HEADER_SIZE\<rparr>
      else if spi_state s = SPI_STATE_HEADER_ACK
      then s\<lparr>spi_state := SPI_STATE_DATA_RX, spi_dma := Mosi SPI_HEADER_SIZE (unat (spi_data_len_mosi s) + 1)\<rparr>
      else if spi_state s = SPI_STATE_DATA_TX
      then s\<lparr>spi_state := SPI_STATE_HEADER, spi_dma := Mosi 0 SPI_HEADER_SIZE\<rparr>
      else s\<lparr>spi_state := SPI_STATE_HEADER, spi_dma := Mosi 0 SPI_HEADER_SIZE\<rparr>)"

definition can_tx_comms_resume_spi :: "spi \<Rightarrow> spi" where
  "can_tx_comms_resume_spi s = s\<lparr>spi_can_tx_ready := True\<rparr>"

subsection \<open>The machine\<close>

text \<open>The controller writes what it receives to where it was told; behind the buffer that is \<open>None\<close>. An event the
  controller does not wait for does not occur: it leaves the state.\<close>

datatype spi_event = MosiDone "u8 list" | MisoDone | Resume

fun spi_step :: "spi_id \<Rightarrow> 'p spi_comms \<Rightarrow> spi_event \<Rightarrow> spi \<times> 'p \<Rightarrow> (spi \<times> 'p) option" where
  "spi_step I C (MosiDone bs) (s, p) =
     (case spi_dma s of
        Mosi off n \<Rightarrow>
          if length bs = n then
            if off + n \<le> length (spi_buf_rx s)
            then spi_rx_done I C (s\<lparr>spi_buf_rx := take off (spi_buf_rx s) @ bs @ drop (off + n) (spi_buf_rx s)\<rparr>, p)
            else None
          else Some (s, p)
      | _ \<Rightarrow> Some (s, p))"
| "spi_step I C MisoDone (s, p) = Some (case spi_dma s of Miso _ \<Rightarrow> spi_tx_done False s | _ \<Rightarrow> s, p)"
| "spi_step I C Resume (s, p) = Some (can_tx_comms_resume_spi s, p)"

fun spi_run :: "spi_id \<Rightarrow> 'p spi_comms \<Rightarrow> spi_event list \<Rightarrow> spi \<times> 'p \<Rightarrow> (spi \<times> 'p) option" where
  "spi_run I C [] sp = Some sp"
| "spi_run I C (e # es) sp = spi_step I C e sp \<bind> spi_run I C es"

subsection \<open>The states of the machine\<close>

definition header_ok :: "spi \<Rightarrow> bool" where
  "header_ok s \<longleftrightarrow> spi_buf_rx s ! 0 = SPI_SYNC_BYTE \<and> validate_checksum (take SPI_HEADER_SIZE (spi_buf_rx s)) \<and>
     unat (spi_data_len_mosi s) = le_word (spi_buf_rx s ! 2) (spi_buf_rx s ! 3)"

definition spi_ok :: "spi \<Rightarrow> bool" where
  "spi_ok s \<longleftrightarrow> length (spi_buf_rx s) = SPI_BUF_SIZE \<and> length (spi_buf_tx s) = SPI_BUF_SIZE \<and>
     (case spi_state s of
        SPI_STATE_HEADER \<Rightarrow> spi_dma s = Mosi 0 SPI_HEADER_SIZE
      | SPI_STATE_HEADER_ACK \<Rightarrow> spi_dma s = Miso [SPI_HACK] \<and> header_ok s
      | SPI_STATE_HEADER_NACK \<Rightarrow> (\<exists>bs. spi_dma s = Miso bs)
      | SPI_STATE_DATA_RX \<Rightarrow> spi_dma s = Mosi SPI_HEADER_SIZE (unat (spi_data_len_mosi s) + 1) \<and> header_ok s
      | SPI_STATE_DATA_RX_ACK \<Rightarrow> False
      | SPI_STATE_DATA_TX \<Rightarrow> (\<exists>bs. spi_dma s = Miso bs))"

lemma put_tx_fields [simp]:
  "length bs \<le> length (spi_buf_tx s) \<Longrightarrow> length (spi_buf_tx (put_tx bs s)) = length (spi_buf_tx s)"
  "spi_buf_rx (put_tx bs s) = spi_buf_rx s" "spi_data_len_mosi (put_tx bs s) = spi_data_len_mosi s"
  "spi_can_tx_ready (put_tx bs s) = spi_can_tx_ready s" "spi_error_count (put_tx bs s) = spi_error_count s"
  "spi_state (put_tx bs s) = spi_state s"
  "length bs \<le> length (spi_buf_tx s) \<Longrightarrow> take (length bs) (spi_buf_tx (put_tx bs s)) = bs"
  by (simp_all add: put_tx_def)

lemma version_length [simp]: "length (spi_version_packet I) = 25"
  by (simp add: spi_version_packet_def version_text_def Let_def)

lemma header_not_version: "header_ok s \<Longrightarrow> 7 \<le> length (spi_buf_rx s) \<Longrightarrow> take 7 (spi_buf_rx s) \<noteq> version_text"
proof
  assume "header_ok s" "7 \<le> length (spi_buf_rx s)" and eq: "take 7 (spi_buf_rx s) = version_text"
  then have "spi_buf_rx s ! 0 = SPI_SYNC_BYTE" by (simp add: header_ok_def)
  moreover have "spi_buf_rx s ! 0 = version_text ! 0" unfolding eq [symmetric] by simp
  ultimately show False by (simp add: version_text_def SPI_SYNC_BYTE_def)
qed

lemma spi_dispatch_keeps:
  assumes "spi_dispatch C ep d m (s, p) = Some (resp, s', p')"
  shows "spi_buf_rx s' = spi_buf_rx s \<and> spi_buf_tx s' = spi_buf_tx s \<and> spi_data_len_mosi s' = spi_data_len_mosi s \<and>
    spi_error_count s' = spi_error_count s"
  using assms by (auto simp: spi_dispatch_def Let_def split: if_splits option.splits prod.splits)

lemma spi_respond_ok:
  assumes "spi_respond resp s = Some (n, st, s')" and "length (spi_buf_tx s) = SPI_BUF_SIZE"
  shows "spi_buf_rx s' = spi_buf_rx s \<and> length (spi_buf_tx s') = SPI_BUF_SIZE \<and> spi_data_len_mosi s' = spi_data_len_mosi s \<and>
    (st = SPI_STATE_HEADER_NACK \<or> st = SPI_STATE_DATA_TX)"
  using assms by (auto simp: spi_respond_def Let_def SPI_BUF_SIZE_def split: option.splits if_splits)

text \<open>What a data reception does to the functions behind it.\<close>

definition spi_stuck :: "'p spi_comms \<Rightarrow> spi \<Rightarrow> 'p \<Rightarrow> u8 list \<Rightarrow> bool" where
  "spi_stuck C s p bs \<longleftrightarrow> length bs = unat (spi_data_len_mosi s) + 1 \<and>
     (SPI_BUF_SIZE < SPI_HEADER_SIZE + length bs \<or>
      validate_checksum bs \<and>
        (case spi_dispatch C (spi_buf_rx s ! 1) (butlast bs) (le_word (spi_buf_rx s ! 4) (spi_buf_rx s ! 5)) (s, p) of
           None \<Rightarrow> True | Some (Some r, _) \<Rightarrow> SPI_BUF_SIZE < length r + 4 | Some (None, _) \<Rightarrow> False))"

lemma spi_dispatch_view:
  assumes "spi_buf_tx s = spi_buf_tx t" and "spi_can_tx_ready s = spi_can_tx_ready t"
  shows "map_option (\<lambda>(r, _, p'). (r, p')) (spi_dispatch C ep d m (s, p)) =
    map_option (\<lambda>(r, _, p'). (r, p')) (spi_dispatch C ep d m (t, p))"
  using assms by (auto simp: spi_dispatch_def Let_def option.map_comp comp_def split_beta)

lemma stuck_view:
  assumes "spi_buf_tx s = spi_buf_tx t" and "spi_can_tx_ready s = spi_can_tx_ready t"
  shows "(case spi_dispatch C ep d m (s, p) of None \<Rightarrow> True | Some (Some r, _) \<Rightarrow> SPI_BUF_SIZE < length r + 4 | Some (None, _) \<Rightarrow> False) \<longleftrightarrow>
    (case spi_dispatch C ep d m (t, p) of None \<Rightarrow> True | Some (Some r, _) \<Rightarrow> SPI_BUF_SIZE < length r + 4 | Some (None, _) \<Rightarrow> False)"
  using spi_dispatch_view [OF assms, of C ep d m p]
  by (cases "spi_dispatch C ep d m (s, p)"; cases "spi_dispatch C ep d m (t, p)") (auto split: option.splits)

lemma word_of_header: "unat (ucast (lo :: u8) OR push_bit 8 (ucast (hi :: u8)) :: u16) = le_word lo hi"
  by (simp add: le_word_def)

lemma respond_none: "spi_respond None s = Some (1, SPI_STATE_HEADER_NACK, put_tx [SPI_NACK] s)"
  by (simp add: spi_respond_def)

text \<open>A received header.\<close>

lemma header_step:
  assumes ok: "spi_ok s" and st: "spi_state s = SPI_STATE_HEADER" and bs: "length bs = 7"
  shows "\<exists>s'. spi_step I C (MosiDone bs) (s, p) = Some (s', p) \<and> spi_ok s' \<and> spi_can_tx_ready s' = spi_can_tx_ready s \<and>
    take 7 (spi_buf_rx s') = bs \<and>
    (bs ! 0 = SPI_SYNC_BYTE \<and> validate_checksum bs \<longrightarrow> spi_state s' = SPI_STATE_HEADER_ACK \<and> unat (spi_data_len_mosi s') = le_word (bs ! 2) (bs ! 3)) \<and>
    (\<not> (bs ! 0 = SPI_SYNC_BYTE \<and> validate_checksum bs) \<longrightarrow> spi_state s' = SPI_STATE_HEADER_NACK)"
proof -
  have len: "length (spi_buf_rx s) = 2048" "length (spi_buf_tx s) = 2048" and dma: "spi_dma s = Mosi 0 7"
    using ok st by (simp_all add: spi_ok_def SPI_BUF_SIZE_def SPI_HEADER_SIZE_def)
  have nth: "(bs @ xs) ! i = bs ! i" if "i < 7" for i xs using bs that by (simp add: nth_append)
  have step: "spi_step I C (MosiDone bs) (s, p) = spi_rx_done I C (s\<lparr>spi_buf_rx := bs @ drop 7 (spi_buf_rx s)\<rparr>, p)"
    using dma bs len by simp
  show ?thesis
  proof (cases "bs = version_text")
    case True
    then have "bs ! 0 \<noteq> SPI_SYNC_BYTE" by (simp add: version_text_def SPI_SYNC_BYTE_def)
    then show ?thesis unfolding step using True len bs st
      by (simp add: spi_rx_done_def Let_def spi_ok_def SPI_BUF_SIZE_def)
  next
    case False
    then show ?thesis unfolding step using len bs st
      by (simp add: spi_rx_done_def Let_def spi_ok_def SPI_BUF_SIZE_def SPI_HEADER_SIZE_def header_ok_def nth word_of_header take_Suc put_tx_def)
  qed
qed

text \<open>Received data: what \<open>spi_rx_done\<close> comes to.\<close>

lemma data_done:
  assumes ok: "spi_ok s" and st: "spi_state s = SPI_STATE_DATA_RX" and bs: "length bs = unat (spi_data_len_mosi s) + 1"
    and fits: "SPI_HEADER_SIZE + length bs \<le> SPI_BUF_SIZE"
  defines "t \<equiv> s\<lparr>spi_buf_rx := take 7 (spi_buf_rx s) @ bs @ drop (7 + length bs) (spi_buf_rx s)\<rparr>"
  shows "spi_step I C (MosiDone bs) (s, p) =
    (if validate_checksum bs
     then do { (resp, u, p') \<leftarrow> spi_dispatch C (spi_buf_rx s ! 1) (butlast bs) (le_word (spi_buf_rx s ! 4) (spi_buf_rx s ! 5)) (t, p);
               (n, next_state, u) \<leftarrow> spi_respond resp u;
               Some (u\<lparr>spi_dma := Miso (take n (spi_buf_tx u)), spi_state := next_state\<rparr>, p') }
     else (let u = (put_tx [SPI_NACK] t)\<lparr>spi_dma := Miso [SPI_NACK], spi_state := SPI_STATE_HEADER_NACK\<rparr>
           in Some (if spi_error_count u < 0xFFFF then u\<lparr>spi_error_count := spi_error_count u + 1\<rparr> else u, p)))"
proof -
  have len: "length (spi_buf_rx s) = 2048" "length (spi_buf_tx s) = 2048" and hd: "header_ok s"
    and dma: "spi_dma s = Mosi 7 (length bs)"
    using ok st bs by (simp_all add: spi_ok_def SPI_BUF_SIZE_def SPI_HEADER_SIZE_def)
  have n: "length bs \<le> 2041" using fits by (simp add: SPI_HEADER_SIZE_def SPI_BUF_SIZE_def)
  have rx: "spi_buf_rx t = take 7 (spi_buf_rx s) @ bs @ drop (7 + length bs) (spi_buf_rx s)" by (simp add: t_def)
  have nth: "spi_buf_rx t ! i = spi_buf_rx s ! i" if "i < 7" for i using that len by (simp add: rx nth_append)
  have mosi: "le_word (spi_buf_rx s ! 2) (spi_buf_rx s ! 3) = unat (spi_data_len_mosi s)" using hd by (simp add: header_ok_def)
  have same: "t\<lparr>spi_data_len_mosi := ucast (spi_buf_rx s ! 2) OR push_bit 8 (ucast (spi_buf_rx s ! 3))\<rparr> = t"
    using mosi by (simp add: t_def le_word_def word_unat_eq_iff [symmetric])
  have not_version: "take 7 (spi_buf_rx t) \<noteq> version_text" using header_not_version [OF hd] len by (simp add: rx)
  have long: "length (spi_buf_rx t) = 2048" using len n by (simp add: rx)
  have bits: "take (length bs) (drop 7 (spi_buf_rx t)) = bs" "take (length bs - 1) (drop 7 (spi_buf_rx t)) = butlast bs"
    using len by (simp_all add: rx butlast_conv_take)
  have data: "spi_data C (t, p) =
      (if validate_checksum bs
       then do { (resp, u, p') \<leftarrow> spi_dispatch C (spi_buf_rx s ! 1) (butlast bs) (le_word (spi_buf_rx s ! 4) (spi_buf_rx s ! 5)) (t, p);
                 a \<leftarrow> spi_respond resp u; Some (True, a, p') }
       else Some (False, (1, SPI_STATE_HEADER_NACK, put_tx [SPI_NACK] t), p))"
    using bits n long bs by (simp add: spi_data_def Let_def nth mosi SPI_HEADER_SIZE_def respond_none)
  have "spi_step I C (MosiDone bs) (s, p) = spi_rx_done I C (t, p)" using dma len n by (simp add: t_def)
  also have "\<dots> = (spi_data C (t, p) \<bind> (\<lambda>(checksum_valid, (response_len, next_rx_state, s), p).
      let s = s\<lparr>spi_dma := Miso (take response_len (spi_buf_tx s)), spi_state := next_rx_state\<rparr>
      in Some (if \<not> checksum_valid \<and> spi_error_count s < 0xFFFF then s\<lparr>spi_error_count := spi_error_count s + 1\<rparr> else s, p)))"
    using not_version st by (simp add: spi_rx_done_def Let_def nth same) (simp add: t_def)
  finally have step: "spi_step I C (MosiDone bs) (s, p) = \<dots>" .
  show ?thesis
  proof (cases "validate_checksum bs")
    case False
    then show ?thesis unfolding step data by (simp add: Let_def put_tx_def)
  next
    case True
    show ?thesis
    proof (cases "spi_dispatch C (spi_buf_rx s ! 1) (butlast bs) (le_word (spi_buf_rx s ! 4) (spi_buf_rx s ! 5)) (t, p)")
      case None
      then show ?thesis unfolding step data using True by simp
    next
      case (Some x)
      obtain resp u p' where "x = (resp, u, p')" by (cases x)
      then show ?thesis unfolding step data using True Some by (cases "spi_respond resp u") (auto simp: Let_def)
    qed
  qed
qed

lemma header_kept:
  assumes "header_ok s" and "7 \<le> length (spi_buf_rx s)" and "take 7 (spi_buf_rx t) = take 7 (spi_buf_rx s)"
    and "spi_data_len_mosi t = spi_data_len_mosi s"
  shows "header_ok t"
proof -
  have "spi_buf_rx t ! i = spi_buf_rx s ! i" if "i < 7" for i using assms(3) that by (metis nth_take)
  then show ?thesis using assms by (simp add: header_ok_def SPI_HEADER_SIZE_def)
qed

lemma dispatch_keeps:
  assumes "spi_dispatch C ep d m (s, p) = Some (r, s', p')"
  shows "spi_buf_rx s' = spi_buf_rx s" "spi_buf_tx s' = spi_buf_tx s" "spi_data_len_mosi s' = spi_data_len_mosi s"
  using spi_dispatch_keeps [OF assms] by blast+

lemma data_step:
  assumes ok: "spi_ok s" and st: "spi_state s = SPI_STATE_DATA_RX" and bs: "length bs = unat (spi_data_len_mosi s) + 1"
  shows "spi_step I C (MosiDone bs) (s, p) = None \<longleftrightarrow> spi_stuck C s p bs"
    and "spi_step I C (MosiDone bs) (s, p) = Some (s', p') \<Longrightarrow> spi_ok s' \<and> (p' = p \<or> validate_checksum bs)"
proof -
  have len: "length (spi_buf_rx s) = SPI_BUF_SIZE" "length (spi_buf_tx s) = SPI_BUF_SIZE" and dma: "spi_dma s = Mosi SPI_HEADER_SIZE (length bs)"
    using ok st bs by (simp_all add: spi_ok_def)
  define t where "t = s\<lparr>spi_buf_rx := take 7 (spi_buf_rx s) @ bs @ drop (7 + length bs) (spi_buf_rx s)\<rparr>"
  let ?call = "spi_dispatch C (spi_buf_rx s ! 1) (butlast bs) (le_word (spi_buf_rx s ! 4) (spi_buf_rx s ! 5)) (t, p)"
  show "spi_step I C (MosiDone bs) (s, p) = None \<longleftrightarrow> spi_stuck C s p bs"
  proof (cases "SPI_HEADER_SIZE + length bs \<le> SPI_BUF_SIZE")
    case False
    then show ?thesis using dma len bs by (simp add: spi_stuck_def)
  next
    case True
    have "spi_stuck C s p bs \<longleftrightarrow> validate_checksum bs \<and>
        (case ?call of None \<Rightarrow> True | Some (Some r, _) \<Rightarrow> SPI_BUF_SIZE < length r + 4 | Some (None, _) \<Rightarrow> False)"
    proof -
      have "(case spi_dispatch C (spi_buf_rx s ! 1) (butlast bs) (le_word (spi_buf_rx s ! 4) (spi_buf_rx s ! 5)) (s, p) of
            None \<Rightarrow> True | Some (Some r, _) \<Rightarrow> SPI_BUF_SIZE < length r + 4 | Some (None, _) \<Rightarrow> False) \<longleftrightarrow>
          (case ?call of None \<Rightarrow> True | Some (Some r, _) \<Rightarrow> SPI_BUF_SIZE < length r + 4 | Some (None, _) \<Rightarrow> False)"
        by (rule stuck_view) (simp_all add: t_def)
      then show ?thesis using True bs by (simp add: spi_stuck_def)
    qed
    moreover have "spi_respond resp u = None \<longleftrightarrow> (case resp of Some r \<Rightarrow> SPI_BUF_SIZE < length r + 4 | None \<Rightarrow> False)"
      if "?call = Some (resp, u, p')" for resp u p'
      using dispatch_keeps(2) [OF that] len by (auto simp: spi_respond_def Let_def t_def split: option.splits)
    ultimately show ?thesis unfolding data_done [OF ok st bs True, folded t_def]
      by (cases "?call") (auto simp: Let_def split: bind_splits option.splits)
  qed
  assume step: "spi_step I C (MosiDone bs) (s, p) = Some (s', p')"
  then have fits: "SPI_HEADER_SIZE + length bs \<le> SPI_BUF_SIZE" using dma len by (simp split: if_splits)
  have tl: "length (spi_buf_rx t) = SPI_BUF_SIZE" "length (spi_buf_tx t) = SPI_BUF_SIZE"
    using len fits by (simp_all add: t_def SPI_HEADER_SIZE_def)
  show "spi_ok s' \<and> (p' = p \<or> validate_checksum bs)"
  proof (cases "validate_checksum bs")
    case False
    then have "s' = (let u = (put_tx [SPI_NACK] t)\<lparr>spi_dma := Miso [SPI_NACK], spi_state := SPI_STATE_HEADER_NACK\<rparr>
           in (if spi_error_count u < 0xFFFF then u\<lparr>spi_error_count := spi_error_count u + 1\<rparr> else u))" "p' = p"
      using step unfolding data_done [OF ok st bs fits, folded t_def] by (simp_all add: Let_def)
    then show ?thesis using tl by (simp add: spi_ok_def Let_def SPI_BUF_SIZE_def)
  next
    case True
    obtain resp u n next_state v where c: "?call = Some (resp, u, p')" and r: "spi_respond resp u = Some (n, next_state, v)"
      and s': "s' = v\<lparr>spi_dma := Miso (take n (spi_buf_tx v)), spi_state := next_state\<rparr>"
      using step True unfolding data_done [OF ok st bs fits, folded t_def] by (auto split: bind_splits)
    have "spi_buf_rx v = spi_buf_rx u \<and> length (spi_buf_tx v) = SPI_BUF_SIZE \<and>
        (next_state = SPI_STATE_HEADER_NACK \<or> next_state = SPI_STATE_DATA_TX)"
      using spi_respond_ok [OF r] dispatch_keeps(2) [OF c] tl by simp
    then show ?thesis using True dispatch_keeps(1) [OF c] tl by (auto simp: spi_ok_def s')
  qed
qed

lemma spi_init_ok: "spi_ok (spi_init n)"
  by (simp add: spi_ok_def spi_init_def)

lemma resume_ok: "spi_ok s \<Longrightarrow> spi_ok (can_tx_comms_resume_spi s)"
  by (simp add: spi_ok_def can_tx_comms_resume_spi_def header_ok_def cong: spi_state_t.case_cong)

lemma tx_done_ok: "spi_ok s \<Longrightarrow> spi_dma s = Miso bs \<Longrightarrow> spi_ok (spi_tx_done r s)"
  by (simp add: spi_ok_def spi_tx_done_def header_ok_def split: spi_state_t.splits)

lemma spi_step_ok:
  assumes ok: "spi_ok s"
  shows "(spi_step I C ev (s, p) = None \<longleftrightarrow> (\<exists>bs. ev = MosiDone bs \<and> spi_state s = SPI_STATE_DATA_RX \<and> spi_stuck C s p bs)) \<and>
    (\<forall>s' p'. spi_step I C ev (s, p) = Some (s', p') \<longrightarrow> spi_ok s' \<and>
      (p' = p \<or> (\<exists>bs. ev = MosiDone bs \<and> spi_state s = SPI_STATE_DATA_RX \<and> header_ok s \<and> validate_checksum bs)))"
proof (cases ev)
  case Resume
  then show ?thesis using resume_ok [OF ok] by simp
next
  case MisoDone
  then show ?thesis using ok tx_done_ok [OF ok] by (cases "spi_dma s") simp_all
next
  case (MosiDone bs)
  show ?thesis
  proof (cases "spi_state s = SPI_STATE_DATA_RX")
    case True
    then have dma: "spi_dma s = Mosi SPI_HEADER_SIZE (unat (spi_data_len_mosi s) + 1)" and hd: "header_ok s"
      using ok by (simp_all add: spi_ok_def)
    show ?thesis
    proof (cases "length bs = unat (spi_data_len_mosi s) + 1")
      case len: True
      show ?thesis unfolding MosiDone
      proof (intro conjI allI impI)
        show "spi_step I C (MosiDone bs) (s, p) = None \<longleftrightarrow>
            (\<exists>bs'. MosiDone bs = MosiDone bs' \<and> spi_state s = SPI_STATE_DATA_RX \<and> spi_stuck C s p bs')"
          unfolding data_step(1) [OF ok True len] using True by simp
      next
        fix s' p' assume "spi_step I C (MosiDone bs) (s, p) = Some (s', p')"
        from data_step(2) [OF ok True len this] show "spi_ok s'" "p' = p \<or> (\<exists>bs'. MosiDone bs = MosiDone bs' \<and>
            spi_state s = SPI_STATE_DATA_RX \<and> header_ok s \<and> validate_checksum bs')" using True hd by simp_all
      qed
    next
      case False
      then have "spi_step I C ev (s, p) = Some (s, p)" "\<not> spi_stuck C s p bs" using dma MosiDone by (simp_all add: spi_stuck_def)
      then show ?thesis using ok MosiDone by simp
    qed
  next
    case False
    show ?thesis
    proof (cases "spi_state s = SPI_STATE_HEADER \<and> length bs = 7")
      case True
      then show ?thesis using header_step [OF ok _, of bs I C p] False MosiDone by force
    next
      case other: False
      then have "spi_step I C ev (s, p) = Some (s, p)"
        using ok False MosiDone by (cases "spi_state s") (auto simp: spi_ok_def SPI_HEADER_SIZE_def)
      then show ?thesis using ok False by simp
    qed
  qed
qed

lemma spi_run_ok: "spi_run I C es (s, p) = Some (s', p') \<Longrightarrow> spi_ok s \<Longrightarrow> spi_ok s'"
proof (induction es arbitrary: s p)
  case (Cons e es)
  obtain s1 p1 where s1: "spi_step I C e (s, p) = Some (s1, p1)" "spi_run I C es (s1, p1) = Some (s', p')"
    using Cons.prems(1) by (auto split: bind_splits)
  then have "spi_ok s1" using spi_step_ok [OF Cons.prems(2), of I C e p] by blast
  with Cons.IH s1(2) show ?case by blast
qed simp

text \<open>C8: The SPI machine. In every state it reaches from its start, by any events of the DMA controller and the driver, the
  buffers have their size and the state agrees with what the controller was told; the functions behind it are
  called only for data with a valid checksum that follow a valid header; and the only event that does not
  return is a data reception for one of three reasons: the header, whose length nobody checks, asked for more than fits
  behind it in the buffer; the call does not return; its answer does not fit.\<close>

theorem spi_machine_safe:
  assumes "spi_run I C es (spi_init n, p0) = Some (s, p)"
  shows "spi_ok s \<and>
    (\<forall>ev. spi_step I C ev (s, p) = None \<longleftrightarrow> (\<exists>bs. ev = MosiDone bs \<and> spi_state s = SPI_STATE_DATA_RX \<and>
       length bs = unat (spi_data_len_mosi s) + 1 \<and>
       (SPI_BUF_SIZE < SPI_HEADER_SIZE + length bs \<or> validate_checksum bs \<and>
          (case spi_dispatch C (spi_buf_rx s ! 1) (butlast bs) (le_word (spi_buf_rx s ! 4) (spi_buf_rx s ! 5)) (s, p) of
             None \<Rightarrow> True | Some (Some r, _) \<Rightarrow> SPI_BUF_SIZE < length r + 4 | Some (None, _) \<Rightarrow> False)))) \<and>
    (\<forall>ev s' p'. spi_step I C ev (s, p) = Some (s', p') \<and> p' \<noteq> p \<longrightarrow>
       (\<exists>bs. ev = MosiDone bs \<and> spi_state s = SPI_STATE_DATA_RX \<and> header_ok s \<and> validate_checksum bs))"
proof -
  have ok: "spi_ok s" by (rule spi_run_ok [OF assms spi_init_ok])
  note step = spi_step_ok [OF ok, of I C _ p]
  show ?thesis
  proof (intro conjI allI impI)
    show "spi_ok s" by (rule ok)
  next
    fix ev s' p' assume "spi_step I C ev (s, p) = Some (s', p') \<and> p' \<noteq> p"
    then show "\<exists>bs. ev = MosiDone bs \<and> spi_state s = SPI_STATE_DATA_RX \<and> header_ok s \<and> validate_checksum bs"
      using step [of ev, THEN conjunct2, rule_format, of s' p'] by simp
  qed (rule step [THEN conjunct1, unfolded spi_stuck_def])
qed

text \<open>A header that announces 65535 bytes is accepted.\<close>

definition comms_idle :: "unit spi_comms" where
  "comms_idle = \<lparr>control_handler = \<lambda>_ p. Some ([], p), can_read_handler = \<lambda>_ p. Some ([], p), endpoint2_handler = \<lambda>_ p. Some p,
     can_write_handler = \<lambda>_ p. Some p, resumes = \<lambda>_ _. False\<rparr>"

theorem spi_machine_safe_witness:
  "\<forall>I. \<exists>s. spi_run I comms_idle [MosiDone [0x5A, 3, 0xFF, 0xFF, 0, 0, 0xF2], MisoDone] (spi_init 0, ()) = Some (s, ()) \<and>
     spi_ok s \<and> spi_step I comms_idle (MosiDone (replicate 65536 0)) (s, ()) = None"
proof
  fix I
  let ?h = "[0x5A, 3, 0xFF, 0xFF, 0, 0, 0xF2] :: u8 list"
  have good: "?h ! 0 = SPI_SYNC_BYTE \<and> validate_checksum ?h" "le_word (?h ! 2) (?h ! 3) = 65535"
    by (simp_all add: SPI_SYNC_BYTE_def validate_checksum_def xor_bytes_def SPI_CHECKSUM_START_def le_word_def)
  have start: "spi_state (spi_init 0) = SPI_STATE_HEADER" by (simp add: spi_init_def)
  obtain s1 where s1: "spi_step I comms_idle (MosiDone ?h) (spi_init 0, ()) = Some (s1, ())" "spi_ok s1"
      "spi_state s1 = SPI_STATE_HEADER_ACK" "unat (spi_data_len_mosi s1) = 65535"
    using header_step [OF spi_init_ok start, of ?h I comms_idle "()"] good by auto
  have "spi_dma s1 = Miso [SPI_HACK]" using s1(2,3) by (simp add: spi_ok_def)
  then have run: "spi_run I comms_idle [MosiDone ?h, MisoDone] (spi_init 0, ()) = Some (spi_tx_done False s1, ())"
    using s1(1) by simp
  have "spi_state (spi_tx_done False s1) = SPI_STATE_DATA_RX" "unat (spi_data_len_mosi (spi_tx_done False s1)) = 65535"
    using s1 by (simp_all add: spi_tx_done_def)
  moreover note exact = spi_machine_safe [OF run, THEN conjunct2, THEN conjunct1, rule_format]
  ultimately have "spi_step I comms_idle (MosiDone bs) (spi_tx_done False s1, ()) = None" if "length bs = 65536" for bs
    unfolding exact using that by (intro exI [of _ bs]) (simp add: SPI_BUF_SIZE_def)
  from this [of "replicate 65536 0"] show "\<exists>s. spi_run I comms_idle [MosiDone ?h, MisoDone] (spi_init 0, ()) = Some (s, ()) \<and>
     spi_ok s \<and> spi_step I comms_idle (MosiDone (replicate 65536 0)) (s, ()) = None"
    using run spi_machine_safe [OF run, THEN conjunct1] by fastforce
qed

subsection \<open>One request\<close>

text \<open>What the transport adds to the bytes of a call is what the serial transport adds.\<close>

lemma dispatch_serial:
  assumes "serial_dispatch (comms.truncate C) ep d m p = Some (Some r, p')" and "ep = 3 \<longrightarrow> spi_can_tx_ready s"
  shows "\<exists>s'. spi_dispatch C ep d m (s, p) = Some (Some r, s', p') \<and> spi_buf_rx s' = spi_buf_rx s \<and>
    spi_buf_tx s' = spi_buf_tx s \<and> spi_data_len_mosi s' = spi_data_len_mosi s"
  using assms by (auto simp: serial_dispatch_def spi_dispatch_def Let_def split: if_splits)

lemma low_bits: "(ucast (w AND 0xFF :: u16) :: u8) = ucast w"
proof (rule bit_word_eqI)
  fix i assume "i < LENGTH(8)"
  then have "i \<in> {0, 1, 2, 3, 4, 5, 6, 7}" by auto
  then show "bit (ucast (w AND 0xFF) :: u8) i = bit (ucast w :: u8) i" by (auto simp: bit_simps)
qed



end
