(* ===== verification/Usb_Comms.thy ===== *)
theory Usb_Comms
  imports Serial_Firmware
begin

text \<open>
  The USB transport (\<^verbatim>\<open>firmware/board/drivers/usb.h\<close>): the descriptors, control transfers on endpoint 0, the CAN
  stream on endpoint 1, writes on endpoints 2 and 3, and the interrupt handler that ties them together. The
  controller is the environment: which interrupts are pending, what was received, whether an endpoint is busy and how
  much room its FIFO has. What the code writes to a FIFO is a log of transfers.
\<close>

unbundle bit_operations_syntax

subsection \<open>Descriptors\<close>

definition ascii :: "string \<Rightarrow> u8 list" where
  "ascii s = map of_char s"

definition utf16 :: "string \<Rightarrow> u8 list" where
  "utf16 s = concat (map (\<lambda>c. [of_char c, 0]) s)"

definition TOUSBORDER :: "u16 \<Rightarrow> u8 list" where
  "TOUSBORDER n = [ucast (n AND 0xFF), ucast (drop_bit 8 n AND 0xFF)]"

definition STRING_DESCRIPTOR_HEADER :: "nat \<Rightarrow> u8 list" where
  "STRING_DESCRIPTOR_HEADER n = TOUSBORDER (((of_nat n * 2 + 2) AND 0xFF) OR 0x0300)"

definition USB_VID :: u16 where "USB_VID = 0x3801"
definition USB_PID :: u16 where "USB_PID = 0xDDCC"
definition MS_VENDOR_CODE :: u8 where "MS_VENDOR_CODE = 0x20"
definition WEBUSB_VENDOR_CODE :: u8 where "WEBUSB_VENDOR_CODE = 0x30"
definition WINUSB_PLATFORM_DESCRIPTOR_LENGTH :: u8 where "WINUSB_PLATFORM_DESCRIPTOR_LENGTH = 0x9E"

definition device_desc :: "u8 \<Rightarrow> u8 list" where
  "device_desc hw = [18, 1, 0x10, 0x02, 0xFF, 0xFF, 0xFF, 0x40] @ TOUSBORDER USB_VID @ TOUSBORDER USB_PID @ [0, hw, 1, 2, 3, 1]"

definition device_qualifier :: "u8 list" where
  "device_qualifier = [0x0a, 6, 0x10, 0x02, 0xFF, 0xFF, 0xFF, 0x40, 0x01, 0x00]"

definition endpoint_desc :: "u8 \<Rightarrow> u8 \<Rightarrow> u8 \<Rightarrow> u8 list" where
  "endpoint_desc address kind interval = [7, 5, address, kind] @ TOUSBORDER 0x40 @ [interval]"

definition interface_desc :: "u8 \<Rightarrow> u8 list" where
  "interface_desc alt = [9, 4, 0, alt, 3, 0xFF, 0xFF, 0xFF, 0]"

definition configuration_desc :: "u8 list" where
  "configuration_desc = [9, 2] @ TOUSBORDER 0x45 @ [1, 1, 4, 0xc0, 0x32] @
     interface_desc 0 @ endpoint_desc 0x81 2 0 @ endpoint_desc 2 2 0 @ endpoint_desc 3 2 0 @
     interface_desc 1 @ endpoint_desc 0x81 3 5 @ endpoint_desc 2 2 0 @ endpoint_desc 3 2 0"

definition string_language_desc :: "u8 list" where
  "string_language_desc = STRING_DESCRIPTOR_HEADER 1 @ [0x09, 0x04]"

definition string_manufacturer_desc :: "u8 list" where
  "string_manufacturer_desc = STRING_DESCRIPTOR_HEADER 8 @ utf16 ''comma.ai''"

definition string_product_desc :: "u8 list" where
  "string_product_desc = STRING_DESCRIPTOR_HEADER 5 @ utf16 ''panda''"

definition string_configuration_desc :: "u8 list" where
  "string_configuration_desc = STRING_DESCRIPTOR_HEADER 2 @ utf16 ''01''"

definition string_238_desc :: "u8 list" where
  "string_238_desc = [0x12, 3] @ utf16 ''MSFT100'' @ [MS_VENDOR_CODE, 0]"

definition winusb_ext_compatid_os_desc :: "u8 list" where
  "winusb_ext_compatid_os_desc = [0x28, 0, 0, 0, 0x00, 0x01, 0x04, 0x00, 0x01] @ replicate 7 0 @ [0, 0] @
     ascii ''WINUSB'' @ [0, 0] @ replicate 8 0 @ replicate 6 0"

definition interface_guid_name :: "u8 list" where
  "interface_guid_name = utf16 ''DeviceInterfaceGUID'' @ [0, 0]"

definition interface_guid :: "u8 list" where
  "interface_guid = utf16 ''{cce5291c-a69f-4995-a4c2-2ae57a51ade9}'' @ [0, 0]"

definition winusb_ext_prop_os_desc :: "u8 list" where
  "winusb_ext_prop_os_desc = [0x8e, 0, 0, 0, 0x00, 0x01, 0x05, 0x00, 0x01, 0x00, 0x84, 0, 0, 0, 0x01, 0, 0, 0, 0x28, 0x00] @
     interface_guid_name @ [0x4e, 0, 0, 0] @ interface_guid"

definition binary_object_store_desc :: "u8 list" where
  "binary_object_store_desc = [5, 0x0F, 0x39, 0x00, 0x02] @
     [0x18, 0x10, 0x05, 0x00, 0x38, 0xB6, 0x08, 0x34, 0xA9, 0x09, 0xA0, 0x47, 0x8B, 0xFD, 0xA0, 0x76,
      0x88, 0x15, 0xB6, 0x65, 0x00, 0x01, WEBUSB_VENDOR_CODE, 0x03] @
     [0x1C, 0x10, 0x05, 0x00, 0xDF, 0x60, 0xDD, 0xD8, 0x89, 0x45, 0xC7, 0x4C, 0x9C, 0xD2, 0x65, 0x9D,
      0x9E, 0x64, 0x8A, 0x9F, 0x00, 0x00, 0x03, 0x06, WINUSB_PLATFORM_DESCRIPTOR_LENGTH, 0x00, MS_VENDOR_CODE, 0x00]"

definition winusb_20_desc :: "u8 list" where
  "winusb_20_desc = [0x0A, 0x00, 0x00, 0x00, 0x00, 0x00, 0x03, 0x06, WINUSB_PLATFORM_DESCRIPTOR_LENGTH, 0x00] @
     [0x14, 0x00, 0x03, 0x00] @ ascii ''WINUSB'' @ [0, 0] @ replicate 8 0 @
     [0x80, 0x00, 0x04, 0x00, 0x01, 0x00, 0x28, 0x00] @ interface_guid_name @ [0x4E, 0x00] @ interface_guid"

definition to_hex_char :: "u8 \<Rightarrow> u8" where
  "to_hex_char a = (if a < 10 then 0x30 + a else 0x61 + (a - 10))"

text \<open>The serial number, from the twelve bytes of the identifier of the chip.\<close>

definition serial_desc :: "(nat \<Rightarrow> u8) \<Rightarrow> u8 list" where
  "serial_desc uid = [0x02 + 12 * 4, 0x03] @
     concat (map (\<lambda>i. [to_hex_char (drop_bit 4 (uid i) AND 0xF), 0, to_hex_char (uid i AND 0xF), 0]) [0..<12])"

subsection \<open>State\<close>

record usb_setup_t =
  bRequest :: u8
  wValue :: u16
  wIndex :: u16
  wLength :: u16

record usb =
  ep0_txdata :: "u8 list"            \<comment> \<open>what is left to send, \<open>ep0_txlen\<close> its length\<close>
  outep3_processing :: bool
  current_int0_alt_setting :: u16
  ep1_busy_skips :: u32
  ep1_nospace_skips :: u32
  setup_packet :: usb_setup_t
  usb_address :: u8                  \<comment> \<open>the address bits of \<open>DCFG\<close>\<close>
  in_packets :: "(nat \<times> u8 list) list"   \<comment> \<open>transfers started on IN endpoints\<close>
  ep0_acks :: nat                    \<comment> \<open>how often endpoint 0 was told to go on\<close>
  ep3_open :: bool                   \<comment> \<open>endpoint 3 takes data\<close>

text \<open>The functions behind the transport, with whether a control request ended in \<open>can_tx_comms_resume_usb\<close>, and
  \<open>refresh_can_tx_slots_available\<close> with the same answer.\<close>

record 'p usb_comms = "'p comms" +
  usb_resumes :: "'p \<Rightarrow> 'p \<Rightarrow> bool"
  usb_refresh :: "'p \<Rightarrow> 'p \<times> bool"

record usb_board =
  usb_hw_type :: u8
  usb_uid :: "nat \<Rightarrow> u8"

subsection \<open>Sending\<close>

definition USB_WritePacket :: "u8 list \<Rightarrow> nat \<Rightarrow> usb \<Rightarrow> usb" where
  "USB_WritePacket src ep u = u\<lparr>in_packets := in_packets u @ [(ep, src)]\<rparr>"

definition ep0_ack :: "usb \<Rightarrow> usb" where
  "ep0_ack u = u\<lparr>ep0_acks := ep0_acks u + 1\<rparr>"

definition USB_WritePacket_EP0 :: "u8 list \<Rightarrow> usb \<Rightarrow> usb" where
  "USB_WritePacket_EP0 src u =
     (let wplen = min (length src) 0x40; u = USB_WritePacket (take wplen src) 0 u
      in if wplen < length src then u\<lparr>ep0_txdata := drop wplen src\<rparr> else ep0_ack u)"

definition usb_reset :: "usb \<Rightarrow> usb" where
  "usb_reset u = u\<lparr>usb_address := 0\<rparr>"

definition can_tx_comms_resume_usb :: "usb \<Rightarrow> usb" where
  "can_tx_comms_resume_usb u = (if \<not> outep3_processing u \<and> \<not> ep3_open u then u\<lparr>ep3_open := True\<rparr> else u)"

subsection \<open>Control requests\<close>

text \<open>The descriptor asked for, by type and idx.\<close>

definition usb_descriptor :: "usb_board \<Rightarrow> u8 \<Rightarrow> u8 \<Rightarrow> u8 list" where
  "usb_descriptor I kind idx =
     (if kind = 1 then device_desc (usb_hw_type I)
      else if kind = 2 then configuration_desc
      else if kind = 6 then device_qualifier
      else if kind = 3 then
        (if idx = 0 then string_language_desc
         else if idx = 1 then string_manufacturer_desc
         else if idx = 2 then string_product_desc
         else if idx = 3 then serial_desc (usb_uid I)
         else if idx = 4 then string_configuration_desc
         else if idx = 238 then string_238_desc
         else [])
      else if kind = 0x0f then binary_object_store_desc
      else [])"

definition winusb_descriptor :: "u16 \<Rightarrow> u8 list" where
  "winusb_descriptor idx =
     (if idx = 7 then winusb_20_desc
      else if idx = 4 then winusb_ext_compatid_os_desc
      else if idx = 5 then winusb_ext_prop_os_desc
      else [])"

text \<open>\<open>None\<close>: the call behind a request does not return, or its answer does not fit into the response buffer.\<close>

definition usb_setup :: "usb_board \<Rightarrow> 'p usb_comms \<Rightarrow> usb \<times> 'p \<Rightarrow> (usb \<times> 'p) option" where
  "usb_setup I C = (\<lambda>(u, p).
     let s = setup_packet u; r = bRequest s; limit = take (unat (wLength s)); reply = (\<lambda>bs u. ep0_ack (USB_WritePacket bs 0 u)) in
     if r = 0x09 then Some (reply [] (u\<lparr>ep3_open := True\<rparr>), p)
     else if r = 0x05 then
       Some (reply [] (u\<lparr>usb_address := usb_address u OR ucast (wValue s AND 0x7F)\<rparr>), p)
     else if r = 0x06 then
       Some (reply (limit (usb_descriptor I (ucast (drop_bit 8 (wValue s))) (ucast (wValue s)))) u, p)
     else if r = 0x00 then Some (reply [0, 0] u, p)
     else if r = 0x0B then Some (reply [] (u\<lparr>current_int0_alt_setting := wValue s\<rparr>), p)
     else if r = WEBUSB_VENDOR_CODE then Some (reply [] u, p)
     else if r = MS_VENDOR_CODE then Some (USB_WritePacket_EP0 (limit (winusb_descriptor (wIndex s))) u, p)
     else do { (resp, p') \<leftarrow> control_handler (comms.truncate C)
                 \<lparr>request = r, param1 = wValue s, param2 = wIndex s, req_length = wLength s\<rparr> p;
               if length resp \<le> USBPACKET_MAX_SIZE
               then Some (reply (limit resp) (if usb_resumes C p p' then can_tx_comms_resume_usb u else u), p')
               else None })"

subsection \<open>The interrupt\<close>

text \<open>A received packet, and what is pending when the handler runs.\<close>

datatype usb_rx = RxData nat "u8 list" | RxSetup usb_setup_t | RxOther

record usb_irq =
  irq_reset :: bool
  irq_rx :: "usb_rx option"
  out3_done :: bool       \<comment> \<open>an OUT interrupt with the transfer of endpoint 3 complete\<close>
  out0_setup :: bool      \<comment> \<open>an OUT interrupt with a setup packet ready\<close>
  in1_token :: bool       \<comment> \<open>an IN interrupt: endpoint 1 was asked for data\<close>
  in1_enabled :: bool     \<comment> \<open>a transfer of endpoint 1 is in flight\<close>
  in1_words :: nat        \<comment> \<open>free words of its FIFO\<close>
  in0_token :: bool
  in0_words :: nat

definition usb_receive :: "'p usb_comms \<Rightarrow> usb_rx \<Rightarrow> usb \<times> 'p \<Rightarrow> (usb \<times> 'p) option" where
  "usb_receive C rx = (\<lambda>(u, p).
     case rx of
       RxData ep bs \<Rightarrow>
         if length bs \<le> 0x100 then
           if ep = 2 then map_option (Pair u) (endpoint2_handler (comms.truncate C) bs p)
           else if ep = 3 then map_option (Pair (u\<lparr>outep3_processing := True\<rparr>)) (can_write_handler (comms.truncate C) bs p)
           else Some (u, p)
         else None
     | RxSetup s \<Rightarrow> Some (u\<lparr>setup_packet := s\<rparr>, p)
     | RxOther \<Rightarrow> Some (u, p))"

text \<open>Endpoint 3 has all of a transfer; the controller has closed it.\<close>

definition out3_complete :: "'p usb_comms \<Rightarrow> usb \<times> 'p \<Rightarrow> usb \<times> 'p" where
  "out3_complete C = (\<lambda>(u, p).
     let u = u\<lparr>ep3_open := False, outep3_processing := False\<rparr>; (p, room) = usb_refresh C p
     in (if room then can_tx_comms_resume_usb u else u, p))"

text \<open>A token on endpoint 1.\<close>

definition in1_packet :: "'p usb_comms \<Rightarrow> bool \<Rightarrow> nat \<Rightarrow> usb \<times> 'p \<Rightarrow> (usb \<times> 'p) option" where
  "in1_packet C enabled words = (\<lambda>(u, p).
     if current_int0_alt_setting u = 0 then
       if enabled then Some (u\<lparr>ep1_busy_skips := ep1_busy_skips u + 1\<rparr>, p)
       else if words < USBPACKET_MAX_SIZE div 4 then Some (u\<lparr>ep1_nospace_skips := ep1_nospace_skips u + 1\<rparr>, p)
       else map_option (\<lambda>(bs, p). (USB_WritePacket bs 1 u, p)) (can_read_handler (comms.truncate C) 0x40 p)
     else if current_int0_alt_setting u = 1 then
       map_option (\<lambda>(bs, p). (if length bs > 0 then USB_WritePacket bs 1 u else u, p)) (can_read_handler (comms.truncate C) 0x40 p)
     else Some (u, p))"

definition in0_packet :: "nat \<Rightarrow> usb \<Rightarrow> usb" where
  "in0_packet words u =
     (if ep0_txdata u \<noteq> [] \<and> words \<ge> 0x40 then
        let len = min (length (ep0_txdata u)) 0x40;
            u = (USB_WritePacket (take len (ep0_txdata u)) 0 u)\<lparr>ep0_txdata := drop len (ep0_txdata u)\<rparr>
        in if ep0_txdata u = [] then ep0_ack u else u
      else u)"

definition usb_irqhandler :: "usb_board \<Rightarrow> 'p usb_comms \<Rightarrow> usb_irq \<Rightarrow> usb \<times> 'p \<Rightarrow> (usb \<times> 'p) option" where
  "usb_irqhandler I C q up =
     do { let up = (if irq_reset q then apfst usb_reset up else up);
          up \<leftarrow> (case irq_rx q of None \<Rightarrow> Some up | Some rx \<Rightarrow> usb_receive C rx up);
          let up = (if out3_done q then out3_complete C up else up);
          up \<leftarrow> (if out0_setup q then usb_setup I C up else Some up);
          up \<leftarrow> (if in1_token q then in1_packet C (in1_enabled q) (in1_words q) up else Some up);
          Some (if in0_token q then apfst (in0_packet (in0_words q)) up else up) }"

fun usb_run :: "usb_board \<Rightarrow> 'p usb_comms \<Rightarrow> usb_irq list \<Rightarrow> usb \<times> 'p \<Rightarrow> (usb \<times> 'p) option" where
  "usb_run I C [] up = Some up"
| "usb_run I C (q # qs) up = usb_irqhandler I C q up \<bind> usb_run I C qs"

lemma descriptor_lengths:
  "length (device_desc hw) = 18" "length device_qualifier = 10" "length configuration_desc = 0x45"
  "length string_238_desc = 0x12" "length winusb_ext_compatid_os_desc = 0x28" "length winusb_ext_prop_os_desc = 0x8e"
  "length binary_object_store_desc = 0x39" "length winusb_20_desc = 0x9E" "length (serial_desc uid) = 50"
  by (simp_all add: device_desc_def device_qualifier_def configuration_desc_def string_238_desc_def winusb_ext_compatid_os_desc_def
      winusb_ext_prop_os_desc_def binary_object_store_desc_def winusb_20_desc_def serial_desc_def endpoint_desc_def interface_desc_def
      TOUSBORDER_def utf16_def ascii_def interface_guid_name_def interface_guid_def upt_rec)


subsection \<open>Control transfers\<close>

text \<open>What a request is answered with, as the host sees it.\<close>

definition setup_answer :: "usb_board \<Rightarrow> 'p usb_comms \<Rightarrow> usb_setup_t \<Rightarrow> 'p \<Rightarrow> (u8 list \<times> 'p) option" where
  "setup_answer I C s p =
     (let r = bRequest s; cut = take (unat (wLength s))
      in if r = 0x09 \<or> r = 0x05 \<or> r = 0x0B \<or> r = WEBUSB_VENDOR_CODE then Some ([], p)
         else if r = 0x00 then Some ([0, 0], p)
         else if r = 0x06 then Some (cut (usb_descriptor I (ucast (drop_bit 8 (wValue s))) (ucast (wValue s))), p)
         else if r = MS_VENDOR_CODE then Some (cut (winusb_descriptor (wIndex s)), p)
         else map_option (apfst cut) (control_handler (comms.truncate C)
                \<lparr>request = r, param1 = wValue s, param2 = wIndex s, req_length = wLength s\<rparr> p))"

function pieces :: "u8 list \<Rightarrow> u8 list list" where
  "pieces bs = (if bs = [] then [] else take 64 bs # pieces (drop 64 bs))"
  by auto
termination by (relation "measure length") auto

declare pieces.simps [simp del]

lemma pieces_Nil [simp]: "pieces [] = []" by (simp add: pieces.simps)

lemma concat_pieces: "concat (pieces bs) = bs"
  by (induction bs rule: pieces.induct) (subst pieces.simps, simp)

lemma pieces_count: "length (pieces bs) \<le> n \<longleftrightarrow> length bs \<le> 64 * n"
proof (induction bs arbitrary: n rule: pieces.induct)
  case (1 bs)
  have step: "bs \<noteq> [] \<Longrightarrow> pieces bs = take 64 bs # pieces (drop 64 bs)" by (simp add: pieces.simps)
  show ?case
  proof (cases "bs = []")
    case False
    then show ?thesis using "1.IH" [of "n - 1"] by (cases n) (simp_all add: step, linarith)
  qed simp
qed

lemma pieces_bound: "b \<in> set (pieces bs) \<Longrightarrow> b \<noteq> [] \<and> length b \<le> 64"
proof (induction bs rule: pieces.induct)
  case (1 bs)
  then show ?case by (subst (asm) (2) pieces.simps) (auto split: if_splits)
qed

text \<open>Room for a packet of endpoint 0, one token after the other.\<close>

definition roomy :: "nat list \<Rightarrow> nat" where
  "roomy ws = length (filter (\<lambda>w. 0x40 \<le> w) ws)"

lemma ep0_drain:
  "in_packets (fold in0_packet ws u) = in_packets u @ map (Pair 0) (take (roomy ws) (pieces (ep0_txdata u))) \<and>
   ep0_txdata (fold in0_packet ws u) = drop (64 * roomy ws) (ep0_txdata u) \<and>
   ep0_acks (fold in0_packet ws u) =
     ep0_acks u + (if ep0_txdata u \<noteq> [] \<and> length (ep0_txdata u) \<le> 64 * roomy ws then 1 else 0)"
proof (induction ws arbitrary: u)
  case Nil
  then show ?case by (simp add: roomy_def)
next
  case (Cons w ws)
  show ?case
  proof (cases "ep0_txdata u \<noteq> [] \<and> 0x40 \<le> w")
    case False
    then have "in0_packet w u = u" by (auto simp: in0_packet_def)
    then show ?thesis using False Cons.IH [of u] by (auto simp: roomy_def)
  next
    case True
    let ?v = "in0_packet w u" and ?d = "ep0_txdata u"
    have v: "in_packets ?v = in_packets u @ [(0, take 64 ?d)]" "ep0_txdata ?v = drop 64 ?d"
      "ep0_acks ?v = ep0_acks u + (if length ?d \<le> 64 then 1 else 0)"
      using True by (auto simp: in0_packet_def USB_WritePacket_def ep0_ack_def Let_def min_def)
    have "pieces ?d = take 64 ?d # pieces (drop 64 ?d)" using True by (simp add: pieces.simps)
    moreover have "roomy (w # ws) = Suc (roomy ws)" using True by (simp add: roomy_def)
    ultimately show ?thesis using Cons.IH [of ?v] True by (auto simp: v add.commute)
  qed
qed

lemma setup_sends:
  assumes "ep0_txdata u = []" and "usb_setup I C (u, p) = Some (u', p')"
  shows "\<exists>out. setup_answer I C (setup_packet u) p = Some (out, p') \<and>
    (if bRequest (setup_packet u) = MS_VENDOR_CODE
     then in_packets u' = in_packets u @ [(0, take 64 out)] \<and> ep0_txdata u' = drop 64 out \<and>
        ep0_acks u' = ep0_acks u + (if length out \<le> 64 then 1 else 0)
     else in_packets u' = in_packets u @ [(0, out)] \<and> ep0_txdata u' = [] \<and> ep0_acks u' = ep0_acks u + 1)"
proof -
  define s where "s = setup_packet u"
  have codes: "MS_VENDOR_CODE = 0x20" "WEBUSB_VENDOR_CODE = 0x30" by (simp_all add: MS_VENDOR_CODE_def WEBUSB_VENDOR_CODE_def)
  note defs = usb_setup_def setup_answer_def Let_def prod.case codes s_def [symmetric]
  note effects = USB_WritePacket_EP0_def USB_WritePacket_def ep0_ack_def can_tx_comms_resume_usb_def
  consider (nothing) "bRequest s = 9 \<or> bRequest s = 5 \<or> bRequest s = 0x0B \<or> bRequest s = 0x30" | (status) "bRequest s = 0"
    | (descriptor) "bRequest s = 6" | (vendor) "bRequest s = 0x20" | (other) "bRequest s \<notin> {9, 5, 0x0B, 0x30, 0, 6, 0x20}" by blast
  then show ?thesis
  proof cases
    case nothing
    then show ?thesis using assms unfolding defs by (elim disjE) (auto simp: effects)
  next
    case vendor
    then show ?thesis using assms unfolding defs by (auto simp: effects Let_def min_def)
  next
    case other
    then obtain resp where "control_handler (comms.truncate C)
        \<lparr>request = bRequest s, param1 = wValue s, param2 = wIndex s, req_length = wLength s\<rparr> p = Some (resp, p')"
      and "u' = ep0_ack (USB_WritePacket (take (unat (wLength s)) resp) 0 (if usb_resumes C p p' then can_tx_comms_resume_usb u else u))"
      using assms unfolding defs by (auto split: bind_splits if_splits)
    then show ?thesis using other assms(1) unfolding defs by (simp add: effects)
  next
    case status
    then show ?thesis using assms unfolding defs by (auto simp: effects)
  next
    case descriptor
    then show ?thesis using assms unfolding defs by (auto simp: effects)
  qed
qed

text \<open>C12: Control transfers. From an idle endpoint 0 a request is answered with the bytes its answer has, cut to the
  length the host asked for: the descriptors of the vendor request in packets of 64 bytes, the first at once and
  one for every later token with room, everything else in one transfer; and endpoint 0 is told to go on exactly
  once, when the last of them is written.\<close>

theorem usb_control_exact:
  assumes "ep0_txdata u = []" and "usb_setup I C (u, p) = Some (u', p')"
  shows "\<exists>out. setup_answer I C (setup_packet u) p = Some (out, p') \<and>
    (\<forall>ws. let P = (if bRequest (setup_packet u) = MS_VENDOR_CODE \<and> out \<noteq> [] then pieces out else [out]);
             v = fold in0_packet ws u'
         in in_packets v = in_packets u @ map (Pair 0) (take (1 + roomy ws) P) \<and> concat P = out \<and>
            ep0_acks v = ep0_acks u + (if length P \<le> 1 + roomy ws then 1 else 0) \<and>
            (ep0_txdata v = [] \<longleftrightarrow> length P \<le> 1 + roomy ws))"
proof -
  obtain out where out: "setup_answer I C (setup_packet u) p = Some (out, p')"
    and sent: "if bRequest (setup_packet u) = MS_VENDOR_CODE
     then in_packets u' = in_packets u @ [(0, take 64 out)] \<and> ep0_txdata u' = drop 64 out \<and>
        ep0_acks u' = ep0_acks u + (if length out \<le> 64 then 1 else 0)
     else in_packets u' = in_packets u @ [(0, out)] \<and> ep0_txdata u' = [] \<and> ep0_acks u' = ep0_acks u + 1"
    using setup_sends [OF assms] by blast
  have first: "out \<noteq> [] \<Longrightarrow> pieces out = take 64 out # pieces (drop 64 out)" by (simp add: pieces.simps)
  show ?thesis
  proof (intro exI conjI allI, rule out)
    fix ws
    show "let P = (if bRequest (setup_packet u) = MS_VENDOR_CODE \<and> out \<noteq> [] then pieces out else [out]);
             v = fold in0_packet ws u'
         in in_packets v = in_packets u @ map (Pair 0) (take (1 + roomy ws) P) \<and> concat P = out \<and>
            ep0_acks v = ep0_acks u + (if length P \<le> 1 + roomy ws then 1 else 0) \<and>
            (ep0_txdata v = [] \<longleftrightarrow> length P \<le> 1 + roomy ws)"
    proof (cases "bRequest (setup_packet u) = MS_VENDOR_CODE \<and> out \<noteq> []")
      case True
      have all: "drop (64 * roomy ws) (drop 64 out) = [] \<longleftrightarrow> length (pieces (drop 64 out)) \<le> roomy ws"
        by (auto simp: pieces_count)
      have acks: "length out \<le> 64 \<longleftrightarrow> drop 64 out = []" by simp
      have concat: "take 64 out @ concat (pieces (drop 64 out)) = out" by (simp add: concat_pieces)
      show ?thesis
        using sent ep0_drain [of ws u'] True first concat unfolding acks
        by (cases "drop 64 out = []") (simp_all add: Let_def all pieces_count del: drop_eq_Nil, auto)
    next
      case False
      then have "in_packets u' = in_packets u @ [(0, out)] \<and> ep0_txdata u' = [] \<and> ep0_acks u' = ep0_acks u + 1"
        using sent by (auto split: if_splits)
      then show ?thesis using False ep0_drain [of ws u'] by (auto simp: Let_def)
    qed
  qed
qed


text \<open>The properties descriptor of Windows takes three packets.\<close>

definition usb_idle :: "usb" where
  "usb_idle = \<lparr>ep0_txdata = [], outep3_processing = False, current_int0_alt_setting = 0, ep1_busy_skips = 0, ep1_nospace_skips = 0,
     setup_packet = \<lparr>bRequest = 0x20, wValue = 0, wIndex = 5, wLength = 0x100\<rparr>, usb_address = 0, in_packets = [], ep0_acks = 0,
     ep3_open = False\<rparr>"

definition silent_comms :: "unit usb_comms" where
  "silent_comms = \<lparr>control_handler = (\<lambda>req p. Some ([], p)), can_read_handler = (\<lambda>n p. Some ([], p)),
     endpoint2_handler = (\<lambda>bs p. Some p), can_write_handler = (\<lambda>bs p. Some p), usb_resumes = (\<lambda>p q. False), usb_refresh = (\<lambda>p. (p, True))\<rparr>"

definition nucleo_usb :: usb_board where
  "nucleo_usb = \<lparr>usb_hw_type = 0, usb_uid = (\<lambda>_. 0xA5)\<rparr>"

theorem usb_control_exact_witness:
  "\<exists>u'. usb_setup nucleo_usb silent_comms (usb_idle, ()) = Some (u', ()) \<and>
     (let v = fold in0_packet [64, 63, 64] u'
      in concat (map snd (in_packets v)) = winusb_ext_prop_os_desc \<and> map (length \<circ> snd) (in_packets v) = [64, 64, 14] \<and> ep0_acks v = 1)"
proof -
  let ?d = winusb_ext_prop_os_desc
  have len: "length ?d = 142" by (simp add: descriptor_lengths)
  have ms: "bRequest (setup_packet usb_idle) = MS_VENDOR_CODE" by (simp add: usb_idle_def MS_VENDOR_CODE_def)
  have ans: "setup_answer nucleo_usb silent_comms (setup_packet usb_idle) () = Some (?d, ())"
    by (simp add: setup_answer_def usb_idle_def MS_VENDOR_CODE_def WEBUSB_VENDOR_CODE_def winusb_descriptor_def len)
  obtain u' where u': "usb_setup nucleo_usb silent_comms (usb_idle, ()) = Some (u', ())"
    by (simp add: usb_setup_def usb_idle_def MS_VENDOR_CODE_def WEBUSB_VENDOR_CODE_def)
  have P: "pieces ?d = [take 64 ?d, take 64 (drop 64 ?d), take 64 (drop 128 ?d)]"
  proof -
    have "drop n ?d \<noteq> []" if "n < 142" for n using len that by simp
    then have "pieces (drop n ?d) = take 64 (drop n ?d) # pieces (drop (64 + n) ?d)" if "n < 142" for n
      using that by (simp add: pieces.simps [of "drop n ?d"])
    from this [of 0] this [of 64] this [of 128] show ?thesis using len by simp
  qed
  have two: "roomy [64, 63, 64] = 2" by (simp add: roomy_def)
  have idle: "ep0_txdata usb_idle = []" "in_packets usb_idle = []" "ep0_acks usb_idle = 0" by (simp_all add: usb_idle_def)
  have nonempty: "?d \<noteq> []" using len by force
  define v where "v = fold in0_packet [64, 63, 64] u'"
  obtain out where out: "setup_answer nucleo_usb silent_comms (setup_packet usb_idle) () = Some (out, ())"
    and all: "\<And>ws. let P = (if bRequest (setup_packet usb_idle) = MS_VENDOR_CODE \<and> out \<noteq> [] then pieces out else [out]);
             v = fold in0_packet ws u'
         in in_packets v = in_packets usb_idle @ map (Pair 0) (take (1 + roomy ws) P) \<and> concat P = out \<and>
            ep0_acks v = ep0_acks usb_idle + (if length P \<le> 1 + roomy ws then 1 else 0) \<and>
            (ep0_txdata v = [] \<longleftrightarrow> length P \<le> 1 + roomy ws)"
    using usb_control_exact [OF idle(1) u'] by blast
  have "out = ?d" using out ans by simp
  then have "(if bRequest (setup_packet usb_idle) = MS_VENDOR_CODE \<and> out \<noteq> [] then pieces out else [out]) = pieces ?d"
    using ms nonempty by simp
  from all [of "[64, 63, 64]", unfolded this Let_def two idle v_def [symmetric]]
  have v: "in_packets v = map (Pair 0) (take 3 (pieces ?d))" "concat (pieces ?d) = out" "ep0_acks v = (if length (pieces ?d) \<le> 3 then 1 else 0)"
    by (auto simp: numeral_3_eq_3)
  have "concat (map snd (in_packets v)) = ?d" "map (length \<circ> snd) (in_packets v) = [64, 64, 14]" "ep0_acks v = 1"
    using v(2) \<open>out = ?d\<close> by (simp_all add: v(1,3) P len)
  then show ?thesis using u' unfolding v_def by (simp add: Let_def del: fold.simps)
qed

subsection \<open>The stream of received frames\<close>

text \<open>Tokens on endpoint 1, each with whether a transfer is in flight and the free words.\<close>

fun in1_tokens :: "'p usb_comms \<Rightarrow> (bool \<times> nat) list \<Rightarrow> usb \<times> 'p \<Rightarrow> (usb \<times> 'p) option" where
  "in1_tokens C [] up = Some up"
| "in1_tokens C ((enabled, words) # ts) up = in1_packet C enabled words up \<bind> in1_tokens C ts"

text \<open>The transport on the firmware. Which requests resume endpoint 3 is left open.\<close>

definition firmware_usb ::
    "fw_build \<Rightarrow> board \<Rightarrow> comms_env \<Rightarrow> (panda_state \<times> uart_rings \<Rightarrow> panda_state \<times> uart_rings \<Rightarrow> bool) \<Rightarrow> (panda_state \<times> uart_rings) usb_comms" where
  "firmware_usb F bd E resumes =
     comms.extend (firmware_comms F bd E)
       \<lparr>usb_resumes = resumes, usb_refresh = (\<lambda>(st, rs). ((st, rs), can_tx_check_min_slots_free 51 (can st)))\<rparr>"

lemma firmware_usb_comms [simp]: "comms.truncate (firmware_usb F bd E R) = firmware_comms F bd E"
  by (simp add: firmware_usb_def comms.defs)

text \<open>What the host has not read yet.\<close>

definition host_stream :: "panda_state \<Rightarrow> u8 list" where
  "host_stream st = read_stream (can_read_buffer st) (can_rx_q (can st))"

lemma host_read_stream:
  assumes "psound F st"
  shows "\<exists>st'. host_read n st = Some (take n (host_stream st), st') \<and> host_stream st' = drop n (host_stream st)"
proof -
  let ?q = "can_rx_q (can st)"
  have q: "queue_ok ?q" using assms by (simp add: psound_def sound_def driver_ok_def)
  have "list_all fits (ring_list ?q)" using queue_drop [OF q] fits_pkt_ok by (auto simp: list_all_iff)
  then have "read_ok (can_read_buffer st) ?q" using assms q by (simp add: psound_def read_ok_def queue_ok_def)
  from comms_can_read_stream [OF this, of n] show ?thesis by (auto simp: host_read_def host_stream_def)
qed


text \<open>Tokens that start a transfer, and the two reasons not to.\<close>

definition admitted :: "bool \<times> nat \<Rightarrow> bool" where
  "admitted = (\<lambda>(enabled, words). \<not> enabled \<and> 16 \<le> words)"

definition cramped :: "bool \<times> nat \<Rightarrow> bool" where
  "cramped = (\<lambda>(enabled, words). \<not> enabled \<and> words < 16)"

definition tally :: "('a \<Rightarrow> bool) \<Rightarrow> 'a list \<Rightarrow> nat" where
  "tally P xs = length (filter P xs)"

lemma serving_read:
  assumes "serving F bd (st, rs)" and "env_ok E" and "host_read n st = Some (out, st')"
  shows "serving F bd (st', rs)"
  by (rule serving_step [OF assms(1,2), of "HostRead n"]) (simp add: assms(3) continue_def)

text \<open>C11: Endpoint 1. Whatever the tokens find - a transfer in flight, a full FIFO, room - the packets written, one
  for every token that finds room, are the next 64 bytes each of the framed stream of received frames, and what is
  not written is still to come, in order: a token that is skipped loses nothing. The two counters count the tokens
  skipped, each for its reason.\<close>

theorem usb_stream:
  assumes "serving F bd (st, rs)" and "env_ok E" and "current_int0_alt_setting u = 0"
  shows "\<exists>u' st'. in1_tokens (firmware_usb F bd E R) ts (u, st, rs) = Some (u', st', rs) \<and> serving F bd (st', rs) \<and>
    in_packets u' = in_packets u @ map (\<lambda>i. (1, take 64 (drop (64 * i) (host_stream st)))) [0..<tally admitted ts] \<and>
    host_stream st' = drop (64 * tally admitted ts) (host_stream st) \<and>
    ep1_busy_skips u' = ep1_busy_skips u + of_nat (tally fst ts) \<and>
    ep1_nospace_skips u' = ep1_nospace_skips u + of_nat (tally cramped ts)"
  using assms
proof (induction ts arbitrary: u st)
  case Nil
  then show ?case by (simp add: tally_def)
next
  case (Cons t ts)
  obtain enabled words where t: "t = (enabled, words)" by (cases t)
  consider (busy) "enabled" | (full) "\<not> enabled" "words < 16" | (go) "\<not> enabled" "16 \<le> words" by linarith
  then show ?case
  proof cases
    case busy
    let ?u = "u\<lparr>ep1_busy_skips := ep1_busy_skips u + 1\<rparr>"
    have "in1_packet (firmware_usb F bd E R) enabled words (u, st, rs) = Some (?u, st, rs)"
      using busy Cons.prems(3) by (simp add: in1_packet_def)
    then show ?thesis using Cons.IH [of st ?u] Cons.prems busy
      by (force simp: t tally_def admitted_def cramped_def ac_simps)
  next
    case full
    let ?u = "u\<lparr>ep1_nospace_skips := ep1_nospace_skips u + 1\<rparr>"
    have "in1_packet (firmware_usb F bd E R) enabled words (u, st, rs) = Some (?u, st, rs)"
      using full Cons.prems(3) by (simp add: in1_packet_def USBPACKET_MAX_SIZE_def)
    then show ?thesis using Cons.IH [of st ?u] Cons.prems full
      by (force simp: t tally_def admitted_def cramped_def ac_simps)
  next
    case go
    have "psound F st" using Cons.prems(1) reaches_sound [of F bd st] by (simp add: serving_def)
    then obtain st' where st': "host_read 64 st = Some (take 64 (host_stream st), st')" "host_stream st' = drop 64 (host_stream st)"
      using host_read_stream by blast
    let ?u = "USB_WritePacket (take 64 (host_stream st)) 1 u"
    have step: "in1_packet (firmware_usb F bd E R) enabled words (u, st, rs) = Some (?u, st', rs)"
      using go Cons.prems(3) st'(1) by (simp add: in1_packet_def USBPACKET_MAX_SIZE_def firmware_comms_def)
    have counts: "tally admitted (t # ts) = Suc (tally admitted ts)" "tally fst (t # ts) = tally fst ts"
      "tally cramped (t # ts) = tally cramped ts"
      using go by (simp_all add: t tally_def admitted_def cramped_def)
    have u: "in_packets ?u = in_packets u @ [(1, take 64 (host_stream st))]" "ep1_busy_skips ?u = ep1_busy_skips u"
      "ep1_nospace_skips ?u = ep1_nospace_skips u" "current_int0_alt_setting ?u = current_int0_alt_setting u"
      by (simp_all add: USB_WritePacket_def)
    have idx: "map (\<lambda>i. (1, take 64 (drop (64 * i) (host_stream st)))) [0..<Suc (tally admitted ts)] =
        (1, take 64 (host_stream st)) # map (\<lambda>i. (1, take 64 (drop (64 * i) (host_stream st')))) [0..<tally admitted ts]"
      by (simp add: upt_conv_Cons map_Suc_upt [symmetric] st'(2) ac_simps del: upt_Suc)
    obtain u2 st2 where ih: "in1_tokens (firmware_usb F bd E R) ts (?u, st', rs) = Some (u2, st2, rs)" "serving F bd (st2, rs)"
      "in_packets u2 = in_packets ?u @ map (\<lambda>i. (1, take 64 (drop (64 * i) (host_stream st')))) [0..<tally admitted ts]"
      "host_stream st2 = drop (64 * tally admitted ts) (host_stream st')"
      "ep1_busy_skips u2 = ep1_busy_skips ?u + of_nat (tally fst ts)"
      "ep1_nospace_skips u2 = ep1_nospace_skips ?u + of_nat (tally cramped ts)"
      using Cons.IH [OF serving_read [OF Cons.prems(1,2) st'(1)] Cons.prems(2) trans [OF u(4) Cons.prems(3)]] by blast
    have "in1_tokens (firmware_usb F bd E R) (t # ts) (u, st, rs) = Some (u2, st2, rs)" using step ih(1) by (simp add: t)
    then show ?thesis using ih(2-6) u unfolding counts idx by (auto simp: st'(2) ac_simps)
  qed
qed

text \<open>After start-up nothing has been received: an empty packet, which is what ends a read of the host.\<close>

theorem usb_stream_witness:
  "\<exists>st. serving fw_f407 board_nucleo (st, uart_rings_init False) \<and>
     (\<exists>u' st'. in1_tokens (firmware_usb fw_f407 board_nucleo bench_env (\<lambda>p q. False)) [(True, 64), (False, 64), (False, 3)]
          (usb_idle, st, uart_rings_init False) = Some (u', st', uart_rings_init False) \<and>
        in_packets u' = [(1, take 64 (host_stream st))] \<and> ep1_busy_skips u' = 1 \<and> ep1_nospace_skips u' = 1)"
proof -
  obtain st where "main_init fw_f407 plain_hw board_nucleo (env_senses bench_env) = Some st"
    using main_init_sound [of fw_f407 plain_hw board_nucleo "env_senses bench_env"] by blast
  then have s: "serving fw_f407 board_nucleo (st, uart_rings_init False)"
    using rings_init_ok by (simp add: serving_def reach_init fw_f407_def build_f407_def)
  have e: "env_ok bench_env" by (simp add: env_ok_def bench_env_def plain_hw_def Let_def)
  have u: "current_int0_alt_setting usb_idle = 0" "in_packets usb_idle = []" "ep1_busy_skips usb_idle = 0" "ep1_nospace_skips usb_idle = 0"
    by (simp_all add: usb_idle_def)
  have "tally admitted [(True, 64), (False, 64), (False, 3)] = 1" "tally fst [(True, 64 :: nat), (False, 64), (False, 3)] = 1"
    "tally cramped [(True, 64), (False, 64), (False, 3)] = 1"
    by (simp_all add: tally_def admitted_def cramped_def)
  note counts = this
  let ?C = "firmware_usb fw_f407 board_nucleo bench_env (\<lambda>p q. False)"
  obtain u' st' where "in1_tokens ?C [(True, 64), (False, 64), (False, 3)] (usb_idle, st, uart_rings_init False) = Some (u', st', uart_rings_init False)"
    "in_packets u' = [(1, take 64 (host_stream st))]" "ep1_busy_skips u' = 1" "ep1_nospace_skips u' = 1"
    using usb_stream [OF s e u(1), of "\<lambda>p q. False" "[(True, 64), (False, 64), (False, 3)]", unfolded counts u] by auto
  then show ?thesis using s by blast
qed


subsection \<open>Any host\<close>

text \<open>What the transport relies on: the contract of the functions of the protocol, with answers no longer than its
  response buffer.\<close>

locale usb_laws =
  fixes C :: "'p usb_comms"
    and ok :: "'p \<Rightarrow> bool"
  assumes control_law: "ok p \<Longrightarrow> control_handler (comms.truncate C) req p = Some (r, p') \<Longrightarrow> ok p' \<and> length r \<le> USBPACKET_MAX_SIZE"
    and can_read_law: "ok p \<Longrightarrow> can_read_handler (comms.truncate C) n p = Some (r, p') \<Longrightarrow> ok p' \<and> length r \<le> n"
    and endpoint2_law: "ok p \<Longrightarrow> endpoint2_handler (comms.truncate C) bs p = Some p' \<Longrightarrow> ok p'"
    and can_write_law: "ok p \<Longrightarrow> can_write_handler (comms.truncate C) bs p = Some p' \<Longrightarrow> ok p'"
    and refresh_law: "ok p \<Longrightarrow> usb_refresh C p = (p', room) \<Longrightarrow> ok p'"

sublocale usb_laws \<subseteq> protocol: comms_laws "comms.truncate C" ok
  by unfold_locales (auto dest: control_law can_read_law intro: endpoint2_law can_write_law simp: USBPACKET_MAX_SIZE_def)

text \<open>New transfers: on endpoint 0 what its FIFO holds, on endpoint 1 one packet.\<close>

definition sends :: "usb \<Rightarrow> usb \<Rightarrow> bool" where
  "sends u u' \<longleftrightarrow> (\<exists>new. in_packets u' = in_packets u @ new \<and>
     (\<forall>(ep, bs) \<in> set new. ep = 0 \<and> length bs \<le> 127 \<or> ep = 1 \<and> length bs \<le> USBPACKET_MAX_SIZE))"

definition overlong :: "usb_irq \<Rightarrow> bool" where
  "overlong q \<longleftrightarrow> (\<exists>ep bs. irq_rx q = Some (RxData ep bs) \<and> 0x100 < length bs)"

lemma sends_refl [intro]: "in_packets u' = in_packets u \<Longrightarrow> sends u u'"
  by (auto simp: sends_def)

lemma sends_trans: "sends u v \<Longrightarrow> sends v w \<Longrightarrow> sends u w"
proof -
  assume "sends u v" "sends v w"
  then obtain new new' where "in_packets v = in_packets u @ new" "in_packets w = in_packets v @ new'"
    and "\<forall>(ep, bs) \<in> set new. ep = 0 \<and> length bs \<le> 127 \<or> ep = 1 \<and> length bs \<le> USBPACKET_MAX_SIZE"
    and "\<forall>(ep, bs) \<in> set new'. ep = 0 \<and> length bs \<le> 127 \<or> ep = 1 \<and> length bs \<le> USBPACKET_MAX_SIZE"
    unfolding sends_def by blast
  then show "sends u w" unfolding sends_def by (intro exI [of _ "new @ new'"]) (simp add: ball_Un)
qed

lemma sends_packet: "ep = 0 \<and> length bs \<le> 127 \<or> ep = 1 \<and> length bs \<le> USBPACKET_MAX_SIZE \<Longrightarrow> in_packets u' = in_packets u @ [(ep, bs)] \<Longrightarrow> sends u u'"
  by (auto simp: sends_def)

lemma descriptor_fits:
  "length (usb_descriptor I kind idx) \<le> 127"
  by (simp add: usb_descriptor_def descriptor_lengths string_language_desc_def string_manufacturer_desc_def string_product_desc_def
      string_configuration_desc_def STRING_DESCRIPTOR_HEADER_def TOUSBORDER_def utf16_def)

lemma in0_sends: "sends u (in0_packet w u)"
proof (cases "ep0_txdata u \<noteq> [] \<and> 0x40 \<le> w")
  case True
  then have "in_packets (in0_packet w u) = in_packets u @ [(0, take 64 (ep0_txdata u))]"
    by (auto simp: in0_packet_def USB_WritePacket_def ep0_ack_def Let_def min_def)
  then show ?thesis by (intro sends_packet [of 0]) simp_all
next
  case False
  then have "in0_packet w u = u" by (auto simp: in0_packet_def)
  then show ?thesis by auto
qed

lemma setup_packets:
  assumes "usb_setup I C (u, p) = Some (u', p')"
  shows "\<exists>out. in_packets u' = in_packets u @ [(0, out)] \<and>
    (length out \<le> 127 \<and> p' = p \<or> (\<exists>req r. control_handler (comms.truncate C) req p = Some (r, p') \<and> length out \<le> length r))"
proof -
  define s where "s = setup_packet u"
  have codes: "MS_VENDOR_CODE = 0x20" "WEBUSB_VENDOR_CODE = 0x30" by (simp_all add: MS_VENDOR_CODE_def WEBUSB_VENDOR_CODE_def)
  note defs = usb_setup_def Let_def prod.case codes s_def [symmetric]
  note effects = USB_WritePacket_EP0_def USB_WritePacket_def ep0_ack_def can_tx_comms_resume_usb_def
  consider (nothing) "bRequest s = 9 \<or> bRequest s = 5 \<or> bRequest s = 0x0B \<or> bRequest s = 0x30" | (status) "bRequest s = 0"
    | (descriptor) "bRequest s = 6" | (vendor) "bRequest s = 0x20" | (other) "bRequest s \<notin> {9, 5, 0x0B, 0x30, 0, 6, 0x20}" by blast
  then show ?thesis
  proof cases
    case nothing
    then show ?thesis using assms unfolding defs by (elim disjE) (auto simp: effects)
  next
    case status
    then show ?thesis using assms unfolding defs by (auto simp: effects)
  next
    case descriptor
    then show ?thesis using assms unfolding defs by (auto simp: effects intro!: min.coboundedI1 descriptor_fits)
  next
    case vendor
    then show ?thesis using assms unfolding defs by (auto simp: effects Let_def)
  next
    case other
    then obtain resp where "control_handler (comms.truncate C)
        \<lparr>request = bRequest s, param1 = wValue s, param2 = wIndex s, req_length = wLength s\<rparr> p = Some (resp, p')"
      and "u' = ep0_ack (USB_WritePacket (take (unat (wLength s)) resp) 0 (if usb_resumes C p p' then can_tx_comms_resume_usb u else u))"
      using assms unfolding defs by (auto split: bind_splits if_splits)
    then show ?thesis by (force simp: effects)
  qed
qed

lemma setup_fails:
  assumes "usb_setup I C (u, p) = None"
  shows "\<exists>req. control_handler (comms.truncate C) req p = None \<or>
    (\<exists>r p'. control_handler (comms.truncate C) req p = Some (r, p') \<and> USBPACKET_MAX_SIZE < length r)"
  using assms unfolding usb_setup_def Let_def prod.case
  by (auto simp: not_le split: if_splits bind_splits) (metis not_le)+

text \<open>What a part of the handler may do: go on, or fail in a call.\<close>

definition stage :: "'p comms \<Rightarrow> ('p \<Rightarrow> bool) \<Rightarrow> bool \<Rightarrow> usb \<Rightarrow> (usb \<times> 'p) option \<Rightarrow> bool" where
  "stage D ok bad u r \<longleftrightarrow> (case r of Some (u', p') \<Rightarrow> ok p' \<and> sends u u'
     | None \<Rightarrow> bad \<or> (\<exists>c p. ok p \<and> perform D c p = None))"

context usb_laws begin

lemma stage_bind:
  assumes "stage (comms.truncate C) ok bad u r" and "\<And>u' p'. r = Some (u', p') \<Longrightarrow> ok p' \<Longrightarrow> stage (comms.truncate C) ok bad u' (f (u', p'))"
  shows "stage (comms.truncate C) ok bad u (r \<bind> f)"
proof (cases r)
  case None
  then show ?thesis using assms(1) by (simp add: stage_def)
next
  case (Some x)
  obtain u' p' where x: "x = (u', p')" by (cases x)
  have "ok p'" "sends u u'" using assms(1) Some x by (simp_all add: stage_def)
  then show ?thesis using assms(2) [of u' p'] Some x by (auto simp: stage_def intro: sends_trans split: option.splits)
qed

lemma receive_stage:
  assumes "ok p" and "irq_rx q = Some rx"
  shows "stage (comms.truncate C) ok (overlong q) u (usb_receive C rx (u, p))"
proof (cases rx)
  case (RxData ep bs)
  consider "0x100 < length bs" | "length bs \<le> 0x100" "ep = 2" | "length bs \<le> 0x100" "ep = 3" | "length bs \<le> 0x100" "ep \<noteq> 2" "ep \<noteq> 3"
    by linarith
  then show ?thesis
  proof cases
    case 2
    have "\<exists>c p. ok p \<and> perform (comms.truncate C) c p = None" if "endpoint2_handler (comms.truncate C) bs p = None"
      using that assms(1) by (intro exI [of _ "Endpoint2_Call bs"] exI [of _ p]) simp
    then show ?thesis using 2 RxData assms endpoint2_law [OF assms(1), of bs]
      by (cases "endpoint2_handler (comms.truncate C) bs p") (auto simp: usb_receive_def stage_def)
  next
    case 3
    have "\<exists>c p. ok p \<and> perform (comms.truncate C) c p = None" if "can_write_handler (comms.truncate C) bs p = None"
      using that assms(1) by (intro exI [of _ "Write_Call bs"] exI [of _ p]) simp
    then show ?thesis using 3 RxData assms can_write_law [OF assms(1), of bs]
      by (cases "can_write_handler (comms.truncate C) bs p") (auto simp: usb_receive_def stage_def)
  qed (use RxData assms in \<open>auto simp: usb_receive_def stage_def overlong_def\<close>)
qed (use assms in \<open>auto simp: usb_receive_def stage_def\<close>)

lemma setup_stage:
  assumes "ok p"
  shows "stage (comms.truncate C) ok bad u (usb_setup I C (u, p))"
proof (cases "usb_setup I C (u, p)")
  case None
  obtain req where "control_handler (comms.truncate C) req p = None" using setup_fails [OF None] control_law [OF assms] by fastforce
  then have "perform (comms.truncate C) (Control_Call req) p = None" by simp
  then have "\<exists>c p. ok p \<and> perform (comms.truncate C) c p = None" using assms by blast
  then show ?thesis using None by (simp add: stage_def)
next
  case (Some x)
  obtain u' p' where x: "x = (u', p')" by (cases x)
  have "usb_setup I C (u, p) = Some (u', p')" using Some x by simp
  from setup_packets [OF this] obtain out where out: "in_packets u' = in_packets u @ [(0, out)]"
    and "length out \<le> 127 \<and> p' = p \<or> (\<exists>req r. control_handler (comms.truncate C) req p = Some (r, p') \<and> length out \<le> length r)"
    by blast
  then have "ok p' \<and> length out \<le> 127" using assms control_law [OF assms] by (fastforce simp: USBPACKET_MAX_SIZE_def)
  then show ?thesis using Some x sends_packet [OF _ out] by (simp add: stage_def)
qed

lemma in1_stage:
  assumes "ok p"
  shows "stage (comms.truncate C) ok bad u (in1_packet C en words (u, p))"
proof (cases "can_read_handler (comms.truncate C) 0x40 p")
  case None
  then have "perform (comms.truncate C) (Read_Call 0x40) p = None" by simp
  then have "\<exists>c p. ok p \<and> perform (comms.truncate C) c p = None" using assms by blast
  then show ?thesis using assms None by (auto simp: in1_packet_def stage_def)
next
  case (Some x)
  obtain bs p' where x: "x = (bs, p')" by (cases x)
  have bs: "ok p'" "length bs \<le> 0x40" using can_read_law [OF assms] Some x by auto
  have "(\<exists>u'. in1_packet C en words (u, p) = Some (u', p) \<and> in_packets u' = in_packets u) \<or>
      (\<exists>u'. in1_packet C en words (u, p) = Some (u', p') \<and> (in_packets u' = in_packets u \<or> in_packets u' = in_packets u @ [(1, bs)]))"
    using Some x by (simp add: in1_packet_def USB_WritePacket_def)
  moreover have "sends u u'" if "in_packets u' = in_packets u @ [(1, bs)]" for u'
    using bs(2) by (intro sends_packet [OF _ that]) (simp add: USBPACKET_MAX_SIZE_def)
  ultimately show ?thesis using assms bs(1) by (auto simp: stage_def)
qed

lemma irq_stage:
  assumes "ok p"
  shows "stage (comms.truncate C) ok (overlong q) u (usb_irqhandler I C q (u, p))"
proof -
  have start: "stage (comms.truncate C) ok (overlong q) u (Some (u', p'))" if "ok p'" "in_packets u' = in_packets u" for u u' p'
    using that by (auto simp: stage_def)
  have out3: "ok (snd (out3_complete C (u, p))) \<and> in_packets (fst (out3_complete C (u, p))) = in_packets u" if "ok p" for u p
    using that refresh_law [of p]
    by (auto simp: out3_complete_def can_tx_comms_resume_usb_def Let_def split: prod.split)
  let ?u = "if irq_reset q then usb_reset u else u"
  have eq: "usb_irqhandler I C q (u, p) =
      (Some (?u, p) \<bind> (\<lambda>up. case irq_rx q of None \<Rightarrow> Some up | Some rx \<Rightarrow> usb_receive C rx up)
        \<bind> (\<lambda>up. Some (if out3_done q then out3_complete C up else up))
        \<bind> (\<lambda>up. if out0_setup q then usb_setup I C up else Some up)
        \<bind> (\<lambda>up. if in1_token q then in1_packet C (in1_enabled q) (in1_words q) up else Some up)
        \<bind> (\<lambda>up. Some (if in0_token q then apfst (in0_packet (in0_words q)) up else up)))"
    by (cases "irq_reset q"; cases "irq_rx q") (simp_all add: usb_irqhandler_def Let_def)
  show ?thesis
    unfolding eq
  proof (intro stage_bind)
    show "stage (comms.truncate C) ok (overlong q) u (Some (?u, p))" using assms by (intro start) (simp_all add: usb_reset_def)
  next
    fix u p assume "ok p"
    then show "stage (comms.truncate C) ok (overlong q) u (case irq_rx q of None \<Rightarrow> Some (u, p) | Some rx \<Rightarrow> usb_receive C rx (u, p))"
      using receive_stage by (auto intro: start split: option.split)
  next
    fix u p assume "ok p"
    then show "stage (comms.truncate C) ok (overlong q) u (Some (if out3_done q then out3_complete C (u, p) else (u, p)))"
      using out3 [of p u] start by (cases "out3_complete C (u, p)") auto
  next
    fix u p assume "ok p"
    then show "stage (comms.truncate C) ok (overlong q) u (if out0_setup q then usb_setup I C (u, p) else Some (u, p))"
      using setup_stage start by simp
  next
    fix u p assume "ok p"
    then show "stage (comms.truncate C) ok (overlong q) u (if in1_token q then in1_packet C (in1_enabled q) (in1_words q) (u, p) else Some (u, p))"
      using in1_stage start by simp
  next
    fix u p assume "ok p"
    then show "stage (comms.truncate C) ok (overlong q) u (Some (if in0_token q then apfst (in0_packet (in0_words q)) (u, p) else (u, p)))"
      using in0_sends start by (simp add: stage_def sends_refl)
  qed
qed

lemma stage_weaken: "stage (comms.truncate C) ok bad u r \<Longrightarrow> (bad \<Longrightarrow> bad') \<Longrightarrow> stage (comms.truncate C) ok bad' u r"
  by (auto simp: stage_def split: option.splits)

lemma run_stage:
  "ok p \<Longrightarrow> stage (comms.truncate C) ok (\<exists>q \<in> set qs. overlong q) u (usb_run I C qs (u, p))"
proof (induction qs arbitrary: u p)
  case Nil
  then show ?case by (auto simp: stage_def)
next
  case (Cons q qs)
  show ?case
    unfolding usb_run.simps
  proof (rule stage_bind)
    show "stage (comms.truncate C) ok (\<exists>q \<in> set (q # qs). overlong q) u (usb_irqhandler I C q (u, p))"
      by (rule stage_weaken [OF irq_stage [OF Cons.prems]]) simp
  next
    fix u' p' assume "ok p'"
    then show "stage (comms.truncate C) ok (\<exists>q \<in> set (q # qs). overlong q) u' (usb_run I C qs (u', p'))"
      by (rule stage_weaken [OF Cons.IH]) auto
  qed
qed

end


subsection \<open>The firmware behind USB\<close>

definition fw_moves :: "fw_build \<Rightarrow> board \<Rightarrow> comms_env \<Rightarrow> panda_state \<Rightarrow> panda_state \<Rightarrow> bool" where
  "fw_moves F bd E a b \<longleftrightarrow> (\<exists>ev. fw_step F bd (env_hw E) ev a = Running b)"

lemma perform_moves:
  assumes "perform (firmware_comms F bd E) c (st, rs) = Some (out, st', rs')" and "(fw_moves F bd E)\<^sup>*\<^sup>* st0 st"
  shows "(fw_moves F bd E)\<^sup>*\<^sup>* st0 st'"
proof -
  have "st' = st \<or> fw_moves F bd E st st'" using perform_step [OF assms(1)] by (simp add: fw_moves_def)
  then show ?thesis using assms(2) by (elim disjE) (simp, rule rtranclp.rtrancl_into_rtrancl)
qed

interpretation usb: usb_laws "firmware_usb F bd E R"
  "\<lambda>p. (env_ok E \<and> serving F bd p) \<and> (fw_moves F bd E)\<^sup>*\<^sup>* st0 (fst p)" for F bd E R st0
proof
  fix p p' :: "panda_state \<times> uart_rings" and req r
  assume ok: "(env_ok E \<and> serving F bd p) \<and> (fw_moves F bd E)\<^sup>*\<^sup>* st0 (fst p)"
  assume "control_handler (comms.truncate (firmware_usb F bd E R)) req p = Some (r, p')"
  then have c: "control_handler (firmware_comms F bd E) req p = Some (r, p')" by simp
  obtain st rs st' rs' where p: "p = (st, rs)" "p' = (st', rs')" by (cases p, cases p')
  have "(fw_moves F bd E)\<^sup>*\<^sup>* st0 st'"
    using perform_moves [of F bd E "Control_Call req" st rs r st' rs' st0] ok c by (simp add: p)
  moreover have "length r \<le> USBPACKET_MAX_SIZE"
    using c ok control_reply_length [of E F "env_hw E" bd "env_senses E" req st r]
    by (auto simp: p firmware_comms_def USBPACKET_MAX_SIZE_def split: option.splits control_outcome.splits)
  ultimately show "((env_ok E \<and> serving F bd p') \<and> (fw_moves F bd E)\<^sup>*\<^sup>* st0 (fst p')) \<and> length r \<le> USBPACKET_MAX_SIZE"
    using firmware.control_law [of E F bd p req r p'] ok c by (simp add: p)
next
  fix p p' :: "panda_state \<times> uart_rings" and n r
  assume ok: "(env_ok E \<and> serving F bd p) \<and> (fw_moves F bd E)\<^sup>*\<^sup>* st0 (fst p)"
  assume "can_read_handler (comms.truncate (firmware_usb F bd E R)) n p = Some (r, p')"
  then have c: "can_read_handler (firmware_comms F bd E) n p = Some (r, p')" by simp
  obtain st rs st' rs' where p: "p = (st, rs)" "p' = (st', rs')" by (cases p, cases p')
  have "(fw_moves F bd E)\<^sup>*\<^sup>* st0 st'"
    using perform_moves [of F bd E "Read_Call n" st rs r st' rs' st0] ok c by (simp add: p)
  then show "((env_ok E \<and> serving F bd p') \<and> (fw_moves F bd E)\<^sup>*\<^sup>* st0 (fst p')) \<and> length r \<le> n"
    using firmware.can_read_law [of E F bd p n r p'] ok c by (simp add: p)
next
  fix p p' :: "panda_state \<times> uart_rings" and bs
  assume ok: "(env_ok E \<and> serving F bd p) \<and> (fw_moves F bd E)\<^sup>*\<^sup>* st0 (fst p)"
  assume "endpoint2_handler (comms.truncate (firmware_usb F bd E R)) bs p = Some p'"
  then have c: "endpoint2_handler (firmware_comms F bd E) bs p = Some p'" by simp
  obtain st rs st' rs' where p: "p = (st, rs)" "p' = (st', rs')" by (cases p, cases p')
  have "(fw_moves F bd E)\<^sup>*\<^sup>* st0 st'"
    using perform_moves [of F bd E "Endpoint2_Call bs" st rs "[]" st' rs' st0] ok c by (simp add: p)
  then show "(env_ok E \<and> serving F bd p') \<and> (fw_moves F bd E)\<^sup>*\<^sup>* st0 (fst p')"
    using firmware.endpoint2_law [of E F bd p bs p'] ok c by (simp add: p)
next
  fix p p' :: "panda_state \<times> uart_rings" and bs
  assume ok: "(env_ok E \<and> serving F bd p) \<and> (fw_moves F bd E)\<^sup>*\<^sup>* st0 (fst p)"
  assume "can_write_handler (comms.truncate (firmware_usb F bd E R)) bs p = Some p'"
  then have c: "can_write_handler (firmware_comms F bd E) bs p = Some p'" by simp
  obtain st rs st' rs' where p: "p = (st, rs)" "p' = (st', rs')" by (cases p, cases p')
  have "(fw_moves F bd E)\<^sup>*\<^sup>* st0 st'"
    using perform_moves [of F bd E "Write_Call bs" st rs "[]" st' rs' st0] ok c by (simp add: p)
  then show "(env_ok E \<and> serving F bd p') \<and> (fw_moves F bd E)\<^sup>*\<^sup>* st0 (fst p')"
    using firmware.can_write_law [of E F bd p bs p'] ok c by (simp add: p)
next
  fix p p' :: "panda_state \<times> uart_rings" and room
  assume "(env_ok E \<and> serving F bd p) \<and> (fw_moves F bd E)\<^sup>*\<^sup>* st0 (fst p)"
    and "usb_refresh (firmware_usb F bd E R) p = (p', room)"
  then show "(env_ok E \<and> serving F bd p') \<and> (fw_moves F bd E)\<^sup>*\<^sup>* st0 (fst p')"
    by (cases p) (auto simp: firmware_usb_def comms.defs)
qed


text \<open>Start-up, a request for the type of the hardware, a write to a port that has no ring.\<close>

definition quiet_irq :: usb_irq where
  "quiet_irq = \<lparr>irq_reset = False, irq_rx = None, out3_done = False, out0_setup = False, in1_token = False, in1_enabled = False,
     in1_words = 0, in0_token = False, in0_words = 0\<rparr>"


end
