(* ===== verification/Spec2Isabelle.thy ===== *)
theory Spec2Isabelle
  imports Mazda_Properties Fleet_Properties Fleet_Tables Host_Filter Firmware_Liveness Board_Properties Bootstub Pandad_Firmware Pandad_Safety Registers Spi_Comms Usb_Comms
begin

text \<open>
  The safety firmware of an openpilot port for the Mazda CX-5 and the software around it: the layer between
  the driving computer and the CAN buses of the car, modelled and verified.

  \<^bold>\<open>The program.\<close> A driving computer sends CAN frames to a small board (the panda), over a serial line or
  USB; the board puts them on the buses of the car if its safety layer accepts them, forwards frames
  between the buses, and reports what it receives. The parts, from the buses up:

  \<^item> \<^verbatim>\<open>car/opendbc/safety\<close>: the safety layer. For each supported car a mode decides from the received frames
    whether the controls are allowed and which frames may be sent.
  \<^item> \<^verbatim>\<open>firmware/board\<close>: the firmware of the board. The CAN driver moves packets between mailboxes and rings and calls
    the safety hooks; the main program runs a periodic tick (heartbeat, ignition, power saving, drivers of the
    board); requests of the host arrive by a transport (serial line, SPI or USB).
  \<^item> \<^verbatim>\<open>firmware/board/bootstub.c\<close>, \<^verbatim>\<open>flasher.h\<close>, \<^verbatim>\<open>firmware/crypto\<close>: the boot stub starts the firmware only with a valid
    signature, and the flasher replaces it.
  \<^item> \<^verbatim>\<open>openpilot/selfdrive/pandad\<close>: the program of the driving computer at the other end of the line.

  \<^bold>\<open>Theories and sources.\<close>

  \<^item> \<open>Prelude\<close>, \<open>CFloat\<close>: machine integers, the conversions of C, \<^verbatim>\<open>utils.h\<close>; arithmetic in binary32, where the
    rounding function is a parameter with the laws of the format.
  \<^item> \<open>Safety_Types\<close>, \<open>Safety_State\<close>, \<open>Safety_Utils\<close>: \<^verbatim>\<open>safety_declarations.h\<close>, \<^verbatim>\<open>can_declarations.h\<close>, \<^verbatim>\<open>helpers.h\<close>; every global
    variable of the layer is a field of one record.
  \<^item> \<open>Lateral\<close>, \<open>Longitudinal\<close>, \<open>Safety_Core\<close>: \<^verbatim>\<open>lateral.h\<close>, \<^verbatim>\<open>longitudinal.h\<close>, \<^verbatim>\<open>safety.h\<close>. \<open>Mode_Interface\<close> is the contract of a mode
    (a locale over its hooks); each \<open>Mode_*\<close> is one or two files of \<^verbatim>\<open>modes/\<close> and interprets it. \<open>Safety_Modes\<close> is the
    registry, \<open>Safety_System\<close> the layer as a machine: boot, mode switches, receptions, transmissions, ticks.
  \<^item> \<open>Can_Queue\<close>, \<open>Can_Packet\<close>, \<open>Can_Comms\<close>, \<open>Can_Driver\<close>: \<^verbatim>\<open>can_common.h\<close>, \<^verbatim>\<open>can_comms.h\<close>, \<^verbatim>\<open>bxcan.h\<close>; \<open>Host_Filter\<close>, \<open>Vehicle_State\<close>:
    \<^verbatim>\<open>mazda_filter.h\<close>, \<^verbatim>\<open>vehicle_state.h\<close>.
  \<^item> \<open>Board_Drivers\<close>: \<^verbatim>\<open>harness.h\<close>, \<^verbatim>\<open>bootkick.h\<close>, \<^verbatim>\<open>fan.h\<close>, \<^verbatim>\<open>simple_watchdog.h\<close>. \<open>Panda_State\<close>, \<open>Panda_Main\<close>, \<open>Panda_Control\<close>: \<^verbatim>\<open>main.c\<close>,
    \<^verbatim>\<open>power_saving.h\<close>, \<^verbatim>\<open>main_comms.h\<close>. \<open>Panda_System\<close> and \<open>Firmware\<close> put the handlers together as the steps of one
    machine (\<open>fw_step\<close>, \<open>fw_reaches\<close>).
  \<^item> \<open>Uart\<close>, \<open>Serial_Comms\<close>, \<open>Serial_Firmware\<close>: \<^verbatim>\<open>uart.h\<close>, \<^verbatim>\<open>serial_comms.h\<close>, \<^verbatim>\<open>serial_uart_raw.h\<close>; the transport is proved over a
    locale of what it may rely on, interpreted on the firmware.
  \<^item> \<open>Usb_Comms\<close>: \<^verbatim>\<open>usb.h\<close>, the transport over USB with its descriptors, on the same functions (the locale \<open>usb_laws\<close>).
  \<^item> \<open>Spi_Comms\<close>: \<^verbatim>\<open>spi.h\<close>, the transport of the boards with an SPI port; \<open>Registers\<close>: \<^verbatim>\<open>registers.h\<close>, the watch over the
    configuration registers.
  \<^item> \<open>Sha1\<close>, \<open>Rsa\<close>, \<open>Bootstub\<close>: \<^verbatim>\<open>sha.c\<close>, \<^verbatim>\<open>rsa.c\<close>, \<^verbatim>\<open>bootstub.c\<close>, \<^verbatim>\<open>early_init.h\<close>, \<^verbatim>\<open>flasher.h\<close>, \<^verbatim>\<open>llflash.h\<close>.
  \<^item> \<open>Pandad_Can\<close>, \<open>Pandad_Serial\<close>, \<open>Pandad_Safety\<close>: \<^verbatim>\<open>panda.cc\<close>, \<^verbatim>\<open>panda.h\<close>; \<^verbatim>\<open>serial.cc\<close>; \<^verbatim>\<open>pandad.cc\<close>, \<^verbatim>\<open>panda_safety.cc\<close>. The terminal
    device, stored parameters and the messages of other processes are inputs. \<open>Pandad_Firmware\<close> joins the host with the
    firmware over the line.

  State is passed explicitly; a handler is a function from the state, and the values it reads from
  hardware, to the new state. A failed bound, a loop without end or a reset is \<open>None\<close> or a constructor of its own.

  \<^bold>\<open>What the lemmas show.\<close> The safety layer: state invariants, exact rules of the receive, forward and tick
  paths, bounds of every accepted steering and acceleration command in all modes, and that controls only
  ever come from an engaging frame (\<open>Core_Properties\<close>, \<open>Lateral\<close>, \<open>Fleet_Properties\<close>, \<open>Mazda_Properties\<close>, \<open>Safety_System\<close>). The
  driver: bounds, provenance of every transmitted frame, refinement of the rings to lists, round trips of
  packets, mailboxes and byte streams (\<open>Can_Driver_Properties\<close>, \<open>Can_Queue\<close>, \<open>Can_Comms\<close>). The firmware: in every reachable
  state the variables are well-formed and those of a run of the safety layer; loss of the heartbeat
  withdraws the controls; the inputs on which a handler does not return are named (\<open>Firmware_System\<close>,
  \<open>Firmware_Liveness\<close>, \<open>Serial_Firmware\<close>); the SPI machine makes the same calls
  as the serial transport, and its overlong headers are named; over USB the firmware only
  takes steps of host requests and the stream of received frames arrives in order and whole (\<open>Usb_Comms\<close>); the register watch is exact. The boot path: SHA-1 and the Montgomery arithmetic equal their definitions,
  and the firmware is entered exactly when its signature is valid. The
  host: what it packs arrives packet by packet, a call over an undisturbed line gives the answer of the
  firmware and over any line it ends, and the mode of the car is asked for at the right moment and reached
  (\<open>Pandad_Can\<close>, \<open>Pandad_Serial\<close>, \<open>Pandad_Firmware\<close>, \<open>Pandad_Safety\<close>).

  \<^bold>\<open>Bounds and recursion.\<close> Loops over arrays are structural; loops over a byte stream recurse on what is left of it;
  the start chain of the boot stub is a \<open>function\<close> with a measure; the wait of a host write for room in a
  serial ring is a \<open>while_option\<close>, so that its hanging is a value, and the reading of the debug output by the host,
  which need not end, a \<open>partial_function\<close>; the read loop and the unpacking loop of the host are \<open>function\<close>s with a measure. There is no fuel. Packets on the stack have 8
  data bytes in builds without CAN FD; the serial buffers hold 2048 bytes, and the ring of the line is
  treated as lossless up to the 3072 bytes at which the code flushes it.

  \<^bold>\<open>Modelling choices.\<close> Each handler is one atomic step: the code masks interrupts around what it shares, and
  priorities of the interrupt controller are not modelled. Debug output is not threaded through the
  handlers. Transmission on the serial line is taken to succeed; its time-outs only cut an answer short.
  The modelled builds are those with the bxCAN controller (F407 and F446).

  \<^bold>\<open>Not modelled.\<close> The FDCAN driver (the modelled builds have the other controller), the hardware layers of SPI and USB (register
  set-up), and the host end of SPI, which this port does not use. The vendor headers,
  clocks, pin tables, interrupt vectors and interrupt accounting. The test
  bench (jungle). The second copy of the firmware under \<^verbatim>\<open>control\<close>. What pandad publishes,
  its fan and light control. The other services of openpilot, the message
  queue and filter libraries (vendored or generated), and the Python programs.
\<close>

end
